(* ===== verification/Prelude.thy ===== *)
theory Prelude
  imports Complex_Main "HOL-Library.Char_ord" "HOL-Library.List_Lexorder" "HOL-Library.Product_Lexorder"
    "HOL-Library.Sublist"
begin

section \<open>Prelude: results, stateful actions, identifiers, map iteration\<close>

text \<open>
  The vocabulary the components share. A fallible Go function that returns \<open>(T, error)\<close> is a
  value of \<open>'e + 'a\<close>, \<open>Inl\<close> for the error. A method that also changes the state behind its
  receiver is an \<open>action\<close>: it takes the state and returns the result together with the new
  state, which a failed call may have changed as well. \<open>seqE\<close> runs two actions in order and stops at
  the first error, as the early returns of the code do. The id generator of
  \<^verbatim>\<open>internal/platform/idgen\<close> is a supply of strings read in order. Go visits the entries of
  a map in an order it does not specify: \<open>map_order\<close> says that a list is such an order, and
  the operations that range over a map take the order as an argument.
\<close>

named_theorems seq_iffs \<open>when a sequence of actions succeeds or fails\<close>
named_theorems frame_simps \<open>what an operation leaves unchanged\<close>

subsection \<open>Stateful actions\<close>

type_synonym ('e, 's, 'a) action = "'s \<Rightarrow> ('e + 'a) \<times> 's"

definition seqE :: "('e, 's, 'a) action \<Rightarrow> ('a \<Rightarrow> ('e, 's, 'b) action) \<Rightarrow> ('e, 's, 'b) action" where
  "seqE m k s = (case m s of (Inl e, s') \<Rightarrow> (Inl e, s') | (Inr x, s') \<Rightarrow> k x s')"

definition okE :: "'a \<Rightarrow> ('e, 's, 'a) action" where
  "okE x s = (Inr x, s)"

definition failE :: "'e \<Rightarrow> ('e, 's, 'a) action" where
  "failE e s = (Inl e, s)"

definition liftE :: "('s \<Rightarrow> 'e + 'a) \<Rightarrow> ('e, 's, 'a) action" where
  "liftE f s = (f s, s)"

definition chkE :: "bool \<Rightarrow> 'e \<Rightarrow> ('e, 's, unit) action" where
  "chkE b e s = (if b then (Inr (), s) else (Inl e, s))"

text \<open>The error of a callee rewritten by the caller, as \<^verbatim>\<open>fmt.Errorf("...: %w", err)\<close> does.\<close>

definition wrapE :: "('e \<Rightarrow> 'e) \<Rightarrow> ('e, 's, 'a) action \<Rightarrow> ('e, 's, 'a) action" where
  "wrapE w m s = (case m s of (Inl e, s') \<Rightarrow> (Inl (w e), s') | (Inr x, s') \<Rightarrow> (Inr x, s'))"

lemma okE_run [simp]: "okE x s = (Inr x, s)"
  by (simp add: okE_def)

lemma failE_run [simp]: "failE e s = (Inl e, s)"
  by (simp add: failE_def)

lemma liftE_run [simp]: "liftE f s = (f s, s)"
  by (simp add: liftE_def)

lemma chkE_run [simp]: "chkE b e s = (if b then Inr () else Inl e, s)"
  by (simp add: chkE_def)

lemma seqE_ok_iff [seq_iffs]:
  "seqE m k s = (Inr y, t) \<longleftrightarrow> (\<exists>x u. m s = (Inr x, u) \<and> k x u = (Inr y, t))"
  by (auto simp: seqE_def split: prod.splits sum.splits)

lemma seqE_err_iff [seq_iffs]:
  "seqE m k s = (Inl e, t) \<longleftrightarrow> m s = (Inl e, t) \<or> (\<exists>x u. m s = (Inr x, u) \<and> k x u = (Inl e, t))"
  by (auto simp: seqE_def split: prod.splits sum.splits)

lemma seqE_run_ok [simp]: "m s = (Inr x, u) \<Longrightarrow> seqE m k s = k x u"
  by (simp add: seqE_def)

lemma seqE_run_err [simp]: "m s = (Inl e, u) \<Longrightarrow> seqE m k s = (Inl e, u)"
  by (simp add: seqE_def)

lemma seqE_chk [simp]: "seqE (chkE b e) k s = (if b then k () s else (Inl e, s))"
  by (simp add: seqE_def)

lemma seqE_lift: "seqE (liftE f) k s = (case f s of Inl e \<Rightarrow> (Inl e, s) | Inr x \<Rightarrow> k x s)"
  by (simp add: seqE_def split: sum.splits)

lemma wrapE_ok_iff [seq_iffs]: "wrapE w m s = (Inr y, t) \<longleftrightarrow> m s = (Inr y, t)"
  by (auto simp: wrapE_def split: prod.splits sum.splits)

lemma wrapE_err_iff [seq_iffs]: "wrapE w m s = (Inl e, t) \<longleftrightarrow> (\<exists>d. m s = (Inl d, t) \<and> e = w d)"
  by (auto simp: wrapE_def split: prod.splits sum.splits)

lemma wrapE_run_ok [simp]: "m s = (Inr x, u) \<Longrightarrow> wrapE w m s = (Inr x, u)"
  by (simp add: wrapE_def)

lemma wrapE_run_err [simp]: "m s = (Inl e, u) \<Longrightarrow> wrapE w m s = (Inl (w e), u)"
  by (simp add: wrapE_def)

lemma run_projr: "\<not> isl (fst p) \<Longrightarrow> p = (Inr (projr (fst p)), snd p)"
  by (cases p; cases "fst p") auto

lemma snd_seqE_inv:
  assumes "P (snd (m s))" and "\<And>x u. m s = (Inr x, u) \<Longrightarrow> P u \<Longrightarrow> P (snd (k x u))"
  shows "P (snd (seqE m k s))"
  using assms by (auto simp: seqE_def split: prod.splits sum.splits)

subsection \<open>Results without state\<close>

definition bindR :: "'e + 'a \<Rightarrow> ('a \<Rightarrow> 'e + 'b) \<Rightarrow> 'e + 'b" where
  "bindR r k = (case r of Inl e \<Rightarrow> Inl e | Inr x \<Rightarrow> k x)"

lemma bindR_simps [simp]: "bindR (Inl e) k = Inl e" "bindR (Inr x) k = k x"
  by (simp_all add: bindR_def)

lemma bindR_ok_iff [seq_iffs]: "bindR r k = Inr y \<longleftrightarrow> (\<exists>x. r = Inr x \<and> k x = Inr y)"
  by (cases r) simp_all

lemma bindR_err_iff [seq_iffs]: "bindR r k = Inl e \<longleftrightarrow> r = Inl e \<or> (\<exists>x. r = Inr x \<and> k x = Inl e)"
  by (cases r) simp_all

subsection \<open>The supply of identifiers\<close>

record idgen =
  ig_supply :: "nat \<Rightarrow> string"
  ig_next :: nat

definition new_uuid :: "idgen \<Rightarrow> string \<times> idgen" where
  "new_uuid g = (ig_supply g (ig_next g), g\<lparr>ig_next := Suc (ig_next g)\<rparr>)"

text \<open>What the code relies on of the uuid library: ids are not blank and never repeat.\<close>

definition fresh_ids :: "idgen \<Rightarrow> bool" where
  "fresh_ids g \<longleftrightarrow> inj (ig_supply g) \<and> (\<forall>i. ig_supply g i \<noteq> [])"

lemma fst_new_uuid [simp]: "fst (new_uuid g) = ig_supply g (ig_next g)"
  by (simp add: new_uuid_def)

lemma snd_new_uuid [simp]: "snd (new_uuid g) = g\<lparr>ig_next := Suc (ig_next g)\<rparr>"
  by (simp add: new_uuid_def)

lemma fresh_ids_step [simp]: "fresh_ids (g\<lparr>ig_next := n\<rparr>) = fresh_ids g"
  by (simp add: fresh_ids_def)

lemma fresh_ids_eq_iff: "fresh_ids g \<Longrightarrow> ig_supply g i = ig_supply g j \<longleftrightarrow> i = j"
  by (auto simp: fresh_ids_def inj_eq)

lemma fresh_ids_nonempty: "fresh_ids g \<Longrightarrow> ig_supply g i \<noteq> []"
  by (simp add: fresh_ids_def)

text \<open>The tokens a component made of the ids it has drawn so far, behind a fixed prefix.\<close>

definition issued_as :: "string \<Rightarrow> idgen \<Rightarrow> string \<Rightarrow> bool" where
  "issued_as pre g t \<longleftrightarrow> (\<exists>i < ig_next g. t = pre @ ig_supply g i)"

definition next_token :: "string \<Rightarrow> idgen \<Rightarrow> string" where
  "next_token pre g = pre @ fst (new_uuid g)"

lemma issued_as_mono: "issued_as pre g t \<Longrightarrow> ig_next g \<le> n \<Longrightarrow> issued_as pre (g\<lparr>ig_next := n\<rparr>) t"
  unfolding issued_as_def by (metis idgen.select_convs idgen.simps(1) idgen.surjective idgen.update_convs(2) order_less_le_trans)

lemma issued_as_new [simp]: "issued_as pre (g\<lparr>ig_next := Suc (ig_next g)\<rparr>) t \<longleftrightarrow> issued_as pre g t \<or> t = next_token pre g"
  by (auto simp: issued_as_def next_token_def less_Suc_eq)

lemma next_token_unissued: "fresh_ids g \<Longrightarrow> \<not> issued_as pre g (next_token pre g)"
  by (auto simp: issued_as_def next_token_def fresh_ids_eq_iff)

text \<open>A concrete supply, for closed instances: the word \<open>id\<close> and a tally of its index.\<close>

definition tally_ids :: idgen where
  "tally_ids = \<lparr>ig_supply = (\<lambda>n. ''id'' @ replicate n (CHR ''i'')), ig_next = 0\<rparr>"

lemma fresh_tally_ids: "fresh_ids tally_ids"
  by (auto simp: fresh_ids_def tally_ids_def inj_def)

subsection \<open>Ranging over a map\<close>

definition map_order :: "('k \<rightharpoonup> 'v) \<Rightarrow> 'k list \<Rightarrow> bool" where
  "map_order m ks \<longleftrightarrow> distinct ks \<and> set ks = dom m"

fun map_values :: "('k \<rightharpoonup> 'v) \<Rightarrow> 'k list \<Rightarrow> 'v list" where
  "map_values m [] = []"
| "map_values m (k # ks) = (case m k of None \<Rightarrow> map_values m ks | Some v \<Rightarrow> v # map_values m ks)"

lemma map_values_append [simp]: "map_values m (ks @ ls) = map_values m ks @ map_values m ls"
  by (induction ks) (auto split: option.splits)

lemma set_map_values: "set (map_values m ks) = {v. \<exists>k \<in> set ks. m k = Some v}"
  by (induction ks) (auto split: option.splits)

lemma set_map_values_order: "map_order m ks \<Longrightarrow> set (map_values m ks) = ran m"
  by (auto simp: set_map_values map_order_def ran_def dom_def)

lemma map_order_dom: "map_order m ks \<Longrightarrow> k \<in> set ks \<longleftrightarrow> m k \<noteq> None"
  by (auto simp: map_order_def)

text \<open>Ranging over a map: \<open>ord\<close> gives the order of the visit.\<close>

type_synonym ('k, 'v) visit = "('k \<rightharpoonup> 'v) \<Rightarrow> 'k list"

text \<open>The runtime may pick any order that lists every key once.\<close>

definition visits :: "('k, 'v) visit \<Rightarrow> bool" where
  "visits ord \<longleftrightarrow> (\<forall>m. finite (dom m) \<longrightarrow> map_order m (ord m))"

subsection \<open>The first two segments of a composite key\<close>

text \<open>
  Several repositories key their maps by \<open>a @ sep # b\<close>. Such a key determines both parts
  when the separator does not occur in the first.
\<close>

lemma append_sep_inject:
  assumes "c \<notin> set a" and "c \<notin> set a'"
  shows "a @ c # b = a' @ c # b' \<longleftrightarrow> a = a' \<and> b = b'"
proof
  assume eq: "a @ c # b = a' @ c # b'"
  have "a = takeWhile (\<lambda>x. x \<noteq> c) (a @ c # b)" "a' = takeWhile (\<lambda>x. x \<noteq> c) (a' @ c # b')"
    using assms by (auto simp: takeWhile_append2 takeWhile_append)
  with eq have "a = a'" by metis
  with eq show "a = a' \<and> b = b'" by simp
qed simp

end
