(* ===== verification/GoStrings.thy ===== *)
theory GoStrings
  imports Prelude
begin

section \<open>Go strings: bytes, runes and the functions of the strings package\<close>

text \<open>
  A Go string is a sequence of bytes: a HOL \<open>string\<close>, one \<open>char\<close> per byte. The functions of
  package \<open>strings\<close> that the services call are defined here on bytes, decoding UTF-8 where the
  library does. \<open>runes\<close> follows \<open>utf8.DecodeRuneInString\<close> (an invalid byte is U+FFFD of
  size one). Case mapping covers the Latin blocks with the Vietnamese letters, Greek and
  Cyrillic; a rune outside these blocks is left alone. The lemmas give the laws the components
  use: trimming is idempotent and yields a substring, folding is an equivalence, joining undoes
  splitting.
\<close>

subsection \<open>Trimming\<close>

definition byte :: "char \<Rightarrow> int" where
  "byte c = of_char c"

definition ascii_space :: "char \<Rightarrow> bool" where
  "ascii_space c = (byte c = 32 \<or> (9 \<le> byte c \<and> byte c \<le> 13))"

text \<open>The encodings of the white space runes beyond ASCII: two bytes (U+0085, U+00A0) or three.\<close>

definition space2 :: "char \<Rightarrow> char \<Rightarrow> bool" where
  "space2 a b = (byte a = 0xC2 \<and> (byte b = 0x85 \<or> byte b = 0xA0))"

definition space3 :: "char \<Rightarrow> char \<Rightarrow> char \<Rightarrow> bool" where
  "space3 a b c =
    ((byte a = 0xE1 \<and> byte b = 0x9A \<and> byte c = 0x80) \<or>
     (byte a = 0xE2 \<and> byte b = 0x80 \<and>
       ((0x80 \<le> byte c \<and> byte c \<le> 0x8A) \<or> byte c = 0xA8 \<or> byte c = 0xA9 \<or> byte c = 0xAF)) \<or>
     (byte a = 0xE2 \<and> byte b = 0x81 \<and> byte c = 0x9F) \<or>
     (byte a = 0xE3 \<and> byte b = 0x80 \<and> byte c = 0x80))"

fun head_space :: "(char \<Rightarrow> char \<Rightarrow> bool) \<Rightarrow> (char \<Rightarrow> char \<Rightarrow> char \<Rightarrow> bool) \<Rightarrow> string \<Rightarrow> nat" where
  "head_space p2 p3 [] = 0"
| "head_space p2 p3 [a] = (if ascii_space a then 1 else 0)"
| "head_space p2 p3 [a, b] = (if ascii_space a then 1 else if p2 a b then 2 else 0)"
| "head_space p2 p3 (a # b # c # s) =
    (if ascii_space a then 1 else if p2 a b then 2 else if p3 a b c then 3 else 0)"

function trim_by :: "(char \<Rightarrow> char \<Rightarrow> bool) \<Rightarrow> (char \<Rightarrow> char \<Rightarrow> char \<Rightarrow> bool) \<Rightarrow> string \<Rightarrow> string" where
  "trim_by p2 p3 s = (case head_space p2 p3 s of 0 \<Rightarrow> s | Suc n \<Rightarrow> trim_by p2 p3 (drop (Suc n) s))"
  by pat_completeness auto

lemma head_space_pos: "head_space p2 p3 s = Suc n \<Longrightarrow> s \<noteq> []"
  by auto

termination trim_by
  by (relation "measure (\<lambda>(_, _, s). length s)") (auto dest: head_space_pos)

declare trim_by.simps [simp del]

definition trim_left_space :: "string \<Rightarrow> string" where
  "trim_left_space s = trim_by space2 space3 s"

definition trim_right_space :: "string \<Rightarrow> string" where
  "trim_right_space s = rev (trim_by (\<lambda>b a. space2 a b) (\<lambda>c b a. space3 a b c) (rev s))"

definition trim_space :: "string \<Rightarrow> string" where
  "trim_space s = trim_right_space (trim_left_space s)"

lemma trim_by_suffix: "suffix (trim_by p2 p3 s) s"
proof (induction p2 p3 s rule: trim_by.induct)
  case (1 p2 p3 s)
  show ?case
  proof (cases "head_space p2 p3 s")
    case 0
    then show ?thesis by (simp add: trim_by.simps [of p2 p3 s])
  next
    case (Suc n)
    with 1 have "suffix (trim_by p2 p3 (drop (Suc n) s)) (drop (Suc n) s)" by blast
    then have "suffix (trim_by p2 p3 (drop (Suc n) s)) s"
      using suffix_drop suffix_order.trans by blast
    with Suc show ?thesis by (simp add: trim_by.simps [of p2 p3 s])
  qed
qed

lemma head_space_trim_by [simp]: "head_space p2 p3 (trim_by p2 p3 s) = 0"
proof (induction p2 p3 s rule: trim_by.induct)
  case (1 p2 p3 s)
  then show ?case by (cases "head_space p2 p3 s") (auto simp: trim_by.simps [of p2 p3 s])
qed

lemma trim_by_fix: "head_space p2 p3 s = 0 \<Longrightarrow> trim_by p2 p3 s = s"
  by (simp add: trim_by.simps [of p2 p3 s])

lemma head_space_zero_Cons:
  "head_space p2 p3 (a # s) = 0 \<longleftrightarrow> \<not> ascii_space a \<and> (\<forall>b s'. s = b # s' \<longrightarrow> \<not> p2 a b) \<and>
    (\<forall>b c s'. s = b # c # s' \<longrightarrow> \<not> p3 a b c)"
  by (cases s; cases "tl s") auto

lemma head_space_prefix:
  assumes "prefix t s" and "head_space p2 p3 s = 0"
  shows "head_space p2 p3 t = 0"
proof (cases t)
  case (Cons a t')
  with assms(1) obtain z where "s = a # (t' @ z)" by (auto simp: prefix_def)
  with assms(2) Cons show ?thesis by (simp only: head_space_zero_Cons) auto
qed simp

lemma trim_right_prefix: "prefix (trim_right_space s) s"
  using trim_by_suffix [of "\<lambda>b a. space2 a b" "\<lambda>c b a. space3 a b c" "rev s"]
  by (simp add: trim_right_space_def suffix_to_prefix)

lemma trim_space_substring: "\<exists>pre post. s = pre @ trim_space s @ post"
proof -
  obtain pre where "s = pre @ trim_left_space s"
    using trim_by_suffix [of space2 space3 s] by (auto simp: trim_left_space_def suffix_def)
  moreover obtain post where "trim_left_space s = trim_space s @ post"
    using trim_right_prefix [of "trim_left_space s"] by (auto simp: trim_space_def prefix_def)
  ultimately show ?thesis by metis
qed

lemma trim_left_fix_trim: "trim_left_space (trim_space s) = trim_space s"
  unfolding trim_left_space_def
  by (rule trim_by_fix, rule head_space_prefix [OF trim_right_prefix [of "trim_left_space s", folded trim_space_def]])
    (simp add: trim_left_space_def)

lemma trim_right_idem: "trim_right_space (trim_right_space s) = trim_right_space s"
  by (simp add: trim_right_space_def trim_by_fix)

lemma trim_space_idem [simp]: "trim_space (trim_space s) = trim_space s"
  by (metis trim_left_fix_trim trim_right_idem trim_space_def)

lemma trim_space_Nil [simp]: "trim_space [] = []"
  by (simp add: trim_space_def trim_left_space_def trim_right_space_def trim_by_fix)

lemma trim_space_nonempty: "trim_space s \<noteq> [] \<Longrightarrow> s \<noteq> []"
  by auto

subsection \<open>Runes\<close>

definition cont_byte :: "int \<Rightarrow> bool" where
  "cont_byte b = (0x80 \<le> b \<and> b \<le> 0xBF)"

fun decode_rune :: "string \<Rightarrow> int \<times> nat" where
  "decode_rune [] = (0xFFFD, 0)"
| "decode_rune (c # s) =
    (let b0 = byte c; nx = (\<lambda>i. if i < length s then byte (s ! i) else 0) in
     if b0 < 0x80 then (b0, 1)
     else if 0xC2 \<le> b0 \<and> b0 \<le> 0xDF \<and> cont_byte (nx 0) then
       ((b0 - 0xC0) * 64 + (nx 0 - 0x80), 2)
     else if 0xE0 \<le> b0 \<and> b0 \<le> 0xEF \<and>
         (if b0 = 0xE0 then 0xA0 else 0x80) \<le> nx 0 \<and> nx 0 \<le> (if b0 = 0xED then 0x9F else 0xBF) \<and>
         cont_byte (nx 1) then
       ((b0 - 0xE0) * 4096 + (nx 0 - 0x80) * 64 + (nx 1 - 0x80), 3)
     else if 0xF0 \<le> b0 \<and> b0 \<le> 0xF4 \<and>
         (if b0 = 0xF0 then 0x90 else 0x80) \<le> nx 0 \<and> nx 0 \<le> (if b0 = 0xF4 then 0x8F else 0xBF) \<and>
         cont_byte (nx 1) \<and> cont_byte (nx 2) then
       ((b0 - 0xF0) * 262144 + (nx 0 - 0x80) * 4096 + (nx 1 - 0x80) * 64 + (nx 2 - 0x80), 4)
     else (0xFFFD, 1))"

function runes :: "string \<Rightarrow> int list" where
  "runes [] = []"
| "runes (c # s) = fst (decode_rune (c # s)) # runes (drop (snd (decode_rune (c # s)) - 1) s)"
  by pat_completeness auto
termination runes
  by (relation "measure length") auto

definition encode_rune :: "int \<Rightarrow> string" where
  "encode_rune r =
    (if r < 0x80 then [char_of r]
     else if r < 0x800 then [char_of (0xC0 + r div 64), char_of (0x80 + r mod 64)]
     else if 0x10FFFF < r \<or> (0xD800 \<le> r \<and> r \<le> 0xDFFF) then [char_of (0xEF :: int), char_of (0xBF :: int), char_of (0xBD :: int)]
     else if r < 0x10000 then
       [char_of (0xE0 + r div 4096), char_of (0x80 + r div 64 mod 64), char_of (0x80 + r mod 64)]
     else
       [char_of (0xF0 + r div 262144), char_of (0x80 + r div 4096 mod 64),
        char_of (0x80 + r div 64 mod 64), char_of (0x80 + r mod 64)])"

definition rune_lower :: "int \<Rightarrow> int" where
  "rune_lower r =
    (if 65 \<le> r \<and> r \<le> 90 then r + 32
     else if r < 0xC0 then r
     else if (0xC0 \<le> r \<and> r \<le> 0xDE \<and> r \<noteq> 0xD7) \<or> (0x391 \<le> r \<and> r \<le> 0x3AB \<and> r \<noteq> 0x3A2) \<or>
             (0x410 \<le> r \<and> r \<le> 0x42F) then r + 32
     else if r = 0x130 then 0x69
     else if r = 0x178 then 0xFF
     else if r = 0x1E9E then 0xDF
     else if r = 0x212A then 0x6B
     else if r = 0x212B then 0xE5
     else if 0x400 \<le> r \<and> r \<le> 0x40F then r + 80
     else if r = 0x386 then 0x3AC
     else if 0x388 \<le> r \<and> r \<le> 0x38A then r + 37
     else if r = 0x38C then 0x3CC
     else if r = 0x38E \<or> r = 0x38F then r + 63
     else if r = 0x1AF \<or> (r mod 2 = 0 \<and> (0x1A0 \<le> r \<and> r \<le> 0x1A4)) then r + 1
     else if r mod 2 = 0 \<and> ((0x100 \<le> r \<and> r \<le> 0x136) \<or> (0x14A \<le> r \<and> r \<le> 0x176) \<or>
             (0x1E00 \<le> r \<and> r \<le> 0x1E94) \<or> (0x1EA0 \<le> r \<and> r \<le> 0x1EFE)) then r + 1
     else if r mod 2 = 1 \<and> ((0x139 \<le> r \<and> r \<le> 0x147) \<or> (0x179 \<le> r \<and> r \<le> 0x17D) \<or>
             (0x1CD \<le> r \<and> r \<le> 0x1DB)) then r + 1
     else r)"

text \<open>A representative of the simple folding orbit of a rune, as \<open>EqualFold\<close> compares them.\<close>

definition rune_fold :: "int \<Rightarrow> int" where
  "rune_fold r = (if r = 0x130 then 0x130 else if r = 0x17F then 0x73 else if r = 0xB5 then 0x3BC
    else if r = 0x3C2 then 0x3C3 else rune_lower r)"

subsection \<open>Case\<close>

definition is_ascii :: "string \<Rightarrow> bool" where
  "is_ascii s = list_all (\<lambda>c. byte c < 128) s"

definition char_lower :: "char \<Rightarrow> char" where
  "char_lower c = (if 65 \<le> byte c \<and> byte c \<le> 90 then char_of (byte c + 32) else c)"

definition char_upper :: "char \<Rightarrow> char" where
  "char_upper c = (if 97 \<le> byte c \<and> byte c \<le> 122 then char_of (byte c - 32) else c)"

definition to_lower :: "string \<Rightarrow> string" where
  "to_lower s = (if is_ascii s then map char_lower s
     else concat (map (\<lambda>r. encode_rune (rune_lower r)) (runes s)))"

definition fold_key :: "string \<Rightarrow> int list" where
  "fold_key s = (if is_ascii s then map (\<lambda>c. byte (char_lower c)) s else map rune_fold (runes s))"

definition equal_fold :: "string \<Rightarrow> string \<Rightarrow> bool" where
  "equal_fold s t = (fold_key s = fold_key t)"

lemma equal_fold_refl [simp]: "equal_fold s s"
  by (simp add: equal_fold_def)

lemma equal_fold_sym: "equal_fold s t \<longleftrightarrow> equal_fold t s"
  by (auto simp: equal_fold_def)

lemma equal_fold_trans: "equal_fold s t \<Longrightarrow> equal_fold t u \<Longrightarrow> equal_fold s u"
  by (simp add: equal_fold_def)

subsection \<open>Searching, splitting and joining\<close>

fun contains_str :: "string \<Rightarrow> string \<Rightarrow> bool" where
  "contains_str [] sub = (sub = [])"
| "contains_str (c # s) sub = (prefix sub (c # s) \<or> contains_str s sub)"

lemma contains_str_iff: "contains_str s sub \<longleftrightarrow> sublist sub s"
  by (induction s) (auto simp: sublist_Cons_right)

fun split_on :: "char \<Rightarrow> string \<Rightarrow> string list" where
  "split_on d [] = [[]]"
| "split_on d (c # s) = (if c = d then [] # split_on d s else
    case split_on d s of [] \<Rightarrow> [[c]] | w # ws \<Rightarrow> (c # w) # ws)"

fun join :: "string \<Rightarrow> string list \<Rightarrow> string" where
  "join sep [] = []"
| "join sep [w] = w"
| "join sep (w # v # ws) = w @ sep @ join sep (v # ws)"

lemma split_on_nonempty [simp]: "split_on d s \<noteq> []"
  by (induction s) (auto split: list.splits)

lemma join_split_on [simp]: "join [d] (split_on d s) = s"
proof (induction s)
  case (Cons c s)
  obtain w ws where w: "split_on d s = w # ws" using split_on_nonempty by (meson list.exhaust)
  show ?case
  proof (cases "c = d")
    case True
    with Cons w show ?thesis by simp
  next
    case False
    have "join [d] ((c # w) # ws) = c # join [d] (w # ws)" by (cases ws) simp_all
    with False Cons w show ?thesis by simp
  qed
qed simp

lemma split_on_pieces: "w \<in> set (split_on d s) \<Longrightarrow> d \<notin> set w"
proof (induction s arbitrary: w)
  case (Cons c s)
  obtain v vs where v: "split_on d s = v # vs" using split_on_nonempty by (meson list.exhaust)
  with Cons show ?case by (auto split: if_splits)
qed simp

definition has_prefix :: "string \<Rightarrow> string \<Rightarrow> bool" where
  "has_prefix s p = prefix p s"

definition has_suffix :: "string \<Rightarrow> string \<Rightarrow> bool" where
  "has_suffix s p = suffix p s"

definition trim_suffix :: "string \<Rightarrow> string \<Rightarrow> string" where
  "trim_suffix s p = (if suffix p s then take (length s - length p) s else s)"

definition trim_prefix :: "string \<Rightarrow> string \<Rightarrow> string" where
  "trim_prefix s p = (if prefix p s then drop (length p) s else s)"

definition trim_right_char :: "char \<Rightarrow> string \<Rightarrow> string" where
  "trim_right_char c s = rev (dropWhile (\<lambda>x. x = c) (rev s))"

definition trim_left_char :: "char \<Rightarrow> string \<Rightarrow> string" where
  "trim_left_char c s = dropWhile (\<lambda>x. x = c) s"

text \<open>\<open>strings.SplitN(s, sep, 2)\<close>: the parts before and after the first separator.\<close>

fun split_first :: "char \<Rightarrow> string \<Rightarrow> string \<times> string option" where
  "split_first d [] = ([], None)"
| "split_first d (c # s) = (if c = d then ([], Some s) else (c # fst (split_first d s), snd (split_first d s)))"

lemma split_first_None: "split_first d s = (w, None) \<Longrightarrow> w = s \<and> d \<notin> set s"
proof (induction s arbitrary: w)
  case (Cons c s)
  then show ?case by (cases "split_first d s") (auto split: if_splits)
qed simp

lemma split_first_Some: "split_first d s = (w, Some v) \<Longrightarrow> s = w @ d # v \<and> d \<notin> set w"
proof (induction s arbitrary: w)
  case (Cons c s)
  then show ?case by (cases "split_first d s") (auto split: if_splits)
qed simp

text \<open>The decimal text of an integer, as \<open>strconv.Itoa\<close> and \<open>%d\<close> print it.\<close>

definition digit_char :: "int \<Rightarrow> char" where
  "digit_char d = char_of (48 + d)"

function pos_digits :: "int \<Rightarrow> string" where
  "pos_digits n = (if n < 10 then [digit_char n] else pos_digits (n div 10) @ [digit_char (n mod 10)])"
  by pat_completeness auto
termination pos_digits
  by (relation "measure nat") auto

declare pos_digits.simps [simp del]

definition itoa :: "int \<Rightarrow> string" where
  "itoa i = (if i < 0 then ''-'' @ pos_digits (- i) else pos_digits i)"

definition is_digit :: "char \<Rightarrow> bool" where
  "is_digit c = (48 \<le> byte c \<and> byte c \<le> 57)"

definition digit_val :: "char \<Rightarrow> int" where
  "digit_val c = byte c - 48"

definition digits_val :: "string \<Rightarrow> int" where
  "digits_val s = foldl (\<lambda>n c. n * 10 + digit_val c) 0 s"

lemma byte_range: "0 \<le> byte c" "byte c < 256"
  by (simp_all add: byte_def of_char_def horner_sum_eq_sum)

lemma byte_char_of [simp]: "0 \<le> n \<Longrightarrow> n < 256 \<Longrightarrow> byte (char_of n) = n"
  by (simp add: byte_def of_char_of)

lemma digit_char_digit:
  assumes "0 \<le> d" and "d < 10"
  shows "is_digit (digit_char d) \<and> digit_val (digit_char d) = d"
  using assms by (simp add: digit_char_def is_digit_def digit_val_def)

lemma pos_digits_digits: "0 \<le> n \<Longrightarrow> list_all is_digit (pos_digits n)"
proof (induction n rule: pos_digits.induct)
  case (1 n)
  then show ?case by (subst pos_digits.simps) (simp add: digit_char_digit)
qed

lemma digits_val_snoc: "digits_val (s @ [c]) = digits_val s * 10 + digit_val c"
  by (simp add: digits_val_def)

lemma digits_val_pos_digits [simp]: "0 \<le> n \<Longrightarrow> digits_val (pos_digits n) = n"
proof (induction n rule: pos_digits.induct)
  case (1 n)
  show ?case
  proof (cases "n < 10")
    case True
    with 1 show ?thesis by (subst pos_digits.simps) (simp add: digits_val_def digit_char_digit)
  next
    case False
    with 1 show ?thesis by (subst pos_digits.simps) (simp add: digits_val_snoc digit_char_digit)
  qed
qed

lemma pos_digits_inject: "0 \<le> m \<Longrightarrow> 0 \<le> n \<Longrightarrow> pos_digits m = pos_digits n \<longleftrightarrow> m = n"
  by (metis digits_val_pos_digits)

subsection \<open>Trimming and lower case of ASCII text\<close>

lemma is_ascii_simps [simp]: "is_ascii []" "is_ascii (c # s) \<longleftrightarrow> byte c < 128 \<and> is_ascii s"
  "is_ascii (s @ t) \<longleftrightarrow> is_ascii s \<and> is_ascii t" "is_ascii (rev s) \<longleftrightarrow> is_ascii s"
  by (auto simp: is_ascii_def list_all_iff)

lemma trim_by_ascii:
  assumes "\<And>a b. byte a < 128 \<Longrightarrow> byte b < 128 \<Longrightarrow> \<not> p2 a b" and "\<And>a b c. byte a < 128 \<Longrightarrow> byte b < 128 \<Longrightarrow> byte c < 128 \<Longrightarrow> \<not> p3 a b c"
  shows "is_ascii s \<Longrightarrow> trim_by p2 p3 s = dropWhile ascii_space s"
proof (induction s)
  case Nil
  then show ?case by (simp add: trim_by.simps)
next
  case (Cons a s)
  have "head_space p2 p3 (a # s) = (if ascii_space a then 1 else 0)"
    using assms Cons.prems by (cases s; cases "tl s") auto
  with Cons show ?case by (simp add: trim_by.simps [of _ _ "a # s"])
qed

lemma trim_space_ascii:
  assumes "is_ascii s"
  shows "trim_space s = rev (dropWhile ascii_space (rev (dropWhile ascii_space s)))"
proof -
  have l: "trim_left_space s = dropWhile ascii_space s" unfolding trim_left_space_def
    by (rule trim_by_ascii [OF _ _ assms]) (auto simp: space2_def space3_def)
  have "is_ascii (rev (dropWhile ascii_space s))" using assms by (auto simp: is_ascii_def list_all_iff dest: set_dropWhileD)
  then have "trim_right_space (dropWhile ascii_space s) = rev (dropWhile ascii_space (rev (dropWhile ascii_space s)))"
    unfolding trim_right_space_def by (subst trim_by_ascii) (auto simp: space2_def space3_def)
  with l show ?thesis by (simp add: trim_space_def)
qed

lemma char_lower_space [simp]: "ascii_space (char_lower c) = ascii_space c"
  by (auto simp: char_lower_def ascii_space_def)

lemma is_ascii_lower: "is_ascii s \<Longrightarrow> is_ascii (map char_lower s)"
  by (induction s) (auto simp: char_lower_def)

lemma is_ascii_trim: "is_ascii s \<Longrightarrow> is_ascii (trim_space s)"
  by (auto simp: trim_space_ascii is_ascii_def list_all_iff dest!: set_dropWhileD)

lemma trim_space_lower:
  assumes "is_ascii s"
  shows "trim_space (to_lower s) = to_lower (trim_space s)"
proof -
  have c: "ascii_space \<circ> char_lower = ascii_space" by (rule ext) simp
  show ?thesis using assms is_ascii_trim [OF assms]
    by (simp add: to_lower_def trim_space_ascii is_ascii_lower dropWhile_map c rev_map)
qed

lemma to_lower_idem: "is_ascii s \<Longrightarrow> to_lower (to_lower s) = to_lower s"
  by (auto simp: to_lower_def is_ascii_lower) (auto simp: char_lower_def)


end
