(* ===== verification/HttpErrors.thy ===== *)
theory HttpErrors
  imports GoStrings
begin

section \<open>Errors of the platform and their translation to HTTP\<close>

text \<open>
  Models \<^verbatim>\<open>internal/platform/errors/errors.go\<close> and the error half of
  \<^verbatim>\<open>internal/platform/httpx/json.go\<close>. A Go \<open>error\<close> is a chain: an \<open>HTTPError\<close> with
  its optional cause, an error wrapped by \<open>fmt.Errorf\<close> with \<open>%w\<close>, or an opaque error of a
  library. \<open>errors.As\<close> walks that chain and stops at the first \<open>HTTPError\<close>. The details are the
  field errors of the template validator, an association list from field to message. The theory
  also holds the dynamically typed values (\<open>any\<close>) that JSON bodies and resource attributes carry.
\<close>

subsection \<open>Error codes\<close>

definition CodeInvalidCredentials :: string where "CodeInvalidCredentials = ''INVALID_CREDENTIALS''"
definition CodeAccountLocked :: string where "CodeAccountLocked = ''ACCOUNT_LOCKED''"
definition CodeSessionExpired :: string where "CodeSessionExpired = ''SESSION_EXPIRED''"
definition CodePasswordResetTokenInvalid :: string where
  "CodePasswordResetTokenInvalid = ''PASSWORD_RESET_TOKEN_INVALID_OR_EXPIRED''"
definition CodeEmailVerificationTokenInvalid :: string where
  "CodeEmailVerificationTokenInvalid = ''EMAIL_VERIFICATION_TOKEN_INVALID_OR_EXPIRED''"
definition CodeNoActiveCompanyAccess :: string where "CodeNoActiveCompanyAccess = ''NO_ACTIVE_COMPANY_ACCESS''"
definition CodeMembershipNotFound :: string where "CodeMembershipNotFound = ''MEMBERSHIP_NOT_FOUND''"
definition CodeCompanyContextRequired :: string where "CodeCompanyContextRequired = ''COMPANY_CONTEXT_REQUIRED''"
definition CodeCompanyScopeMismatch :: string where "CodeCompanyScopeMismatch = ''COMPANY_SCOPE_MISMATCH''"
definition CodePermissionDenied :: string where "CodePermissionDenied = ''PERMISSION_DENIED''"
definition CodeDataScopeDenied :: string where "CodeDataScopeDenied = ''DATA_SCOPE_DENIED''"
definition CodeResponsibilityRequired :: string where "CodeResponsibilityRequired = ''RESPONSIBILITY_REQUIRED''"
definition CodeStateConflict :: string where "CodeStateConflict = ''STATE_CONFLICT''"
definition CodeInvalidRequest :: string where "CodeInvalidRequest = ''INVALID_REQUEST''"
definition CodeMFARequired :: string where "CodeMFARequired = ''MFA_REQUIRED''"
definition CodeInternal :: string where "CodeInternal = ''INTERNAL_ERROR''"

lemmas code_defs = CodeInvalidCredentials_def CodeAccountLocked_def CodeSessionExpired_def
  CodePasswordResetTokenInvalid_def CodeEmailVerificationTokenInvalid_def
  CodeNoActiveCompanyAccess_def CodeMembershipNotFound_def CodeCompanyContextRequired_def
  CodeCompanyScopeMismatch_def CodePermissionDenied_def CodeDataScopeDenied_def
  CodeResponsibilityRequired_def CodeStateConflict_def CodeInvalidRequest_def
  CodeMFARequired_def CodeInternal_def

subsection \<open>The error chain\<close>

datatype go_error =
    HTTPErr (he_status: int) (he_code: string) (he_msg: string)
      (he_details: "(string \<times> string) list") (he_cause: "go_error option")
  | WrapErr string go_error
  | PlainErr string

definition new_http_error :: "int \<Rightarrow> string \<Rightarrow> string \<Rightarrow> go_error" where
  "new_http_error status code msg = HTTPErr status code msg [] None"

fun error_text :: "go_error \<Rightarrow> string" where
  "error_text (HTTPErr st code msg ds None) = code @ '': '' @ msg"
| "error_text (HTTPErr st code msg ds (Some c)) = code @ '': '' @ error_text c"
| "error_text (WrapErr pre e) = pre @ '': '' @ error_text e"
| "error_text (PlainErr msg) = msg"

fun as_http_error :: "go_error \<Rightarrow> go_error option" where
  "as_http_error (HTTPErr st code msg ds c) = Some (HTTPErr st code msg ds c)"
| "as_http_error (WrapErr pre e) = as_http_error e"
| "as_http_error (PlainErr msg) = None"

record error_response =
  er_status :: int
  er_code :: string
  er_message :: string
  er_details :: "(string \<times> string) list"

definition write_error :: "go_error \<Rightarrow> error_response" where
  "write_error e = (case as_http_error e of
      Some (HTTPErr st code msg ds c) \<Rightarrow>
        \<lparr>er_status = st, er_code = code, er_message = msg, er_details = ds\<rparr>
    | _ \<Rightarrow> \<lparr>er_status = 500, er_code = CodeInternal, er_message = ''Internal server error'', er_details = []\<rparr>)"

lemma as_http_error_new [simp]: "as_http_error (new_http_error st c m) = Some (new_http_error st c m)"
  by (simp add: new_http_error_def)

lemma as_http_error_is_HTTP: "as_http_error e = Some d \<Longrightarrow> is_HTTPErr d"
  by (induction e) auto

lemma write_error_wrap [simp]: "write_error (WrapErr p e) = write_error e"
  by (simp add: write_error_def)

lemma write_error_new [simp]:
  "write_error (new_http_error st c m) = \<lparr>er_status = st, er_code = c, er_message = m, er_details = []\<rparr>"
  by (simp add: write_error_def new_http_error_def)

lemma new_http_error_inject [simp]:
  "new_http_error s c m = new_http_error s' c' m' \<longleftrightarrow> s = s' \<and> c = c' \<and> m = m'"
  by (simp add: new_http_error_def)

lemma new_http_error_not_wrap [simp]: "new_http_error s c m \<noteq> WrapErr p e" "WrapErr p e \<noteq> new_http_error s c m"
  "new_http_error s c m \<noteq> PlainErr t" "PlainErr t \<noteq> new_http_error s c m"
  by (simp_all add: new_http_error_def)

text \<open>The frequent shapes of \<open>NewHTTPError\<close> in the services.\<close>

abbreviation bad_request :: "string \<Rightarrow> go_error" where
  "bad_request msg \<equiv> new_http_error 400 CodeInvalidRequest msg"

abbreviation not_found :: "string \<Rightarrow> go_error" where
  "not_found msg \<equiv> new_http_error 404 CodeInvalidRequest msg"

abbreviation access_denied :: "string \<Rightarrow> go_error" where
  "access_denied code \<equiv> new_http_error 403 code ''access denied''"

text \<open>
  What a client sees of an error that no part of the program raised as an \<open>HTTPError\<close>: a plain
  500 without the text of the error, however deep the wrapping.
\<close>

fun opaque_error :: "go_error \<Rightarrow> bool" where
  "opaque_error (HTTPErr _ _ _ _ _) = False"
| "opaque_error (WrapErr p e) = opaque_error e"
| "opaque_error (PlainErr m) = True"

lemma opaque_error_iff: "opaque_error e \<longleftrightarrow> as_http_error e = None"
  by (induction e) auto

subsection \<open>Dynamically typed values\<close>

datatype gofloat = FFin rat | FPosInf | FNegInf | FNaN

datatype goany =
    ANil
  | ABool bool
  | AInt int
  | AFloat gofloat
  | AStr string
  | AList "goany list"
  | AMap "(string \<times> goany) list"

type_synonym attrs = "(string \<times> goany) list"

text \<open>\<open>v, _ := m[k].(string)\<close>: the empty string when the key is absent or the value no string.\<close>

definition attr_str :: "attrs \<Rightarrow> string \<Rightarrow> string" where
  "attr_str m k = (case map_of m k of Some (AStr s) \<Rightarrow> s | _ \<Rightarrow> [])"

lemma attr_str_Nil [simp]: "attr_str [] k = []"
  by (simp add: attr_str_def)

lemma attr_str_Cons [simp]:
  "attr_str ((k', v) # m) k = (if k = k' then case v of AStr s \<Rightarrow> s | _ \<Rightarrow> [] else attr_str m k)"
  by (simp add: attr_str_def split: goany.split)

end
