(* ===== verification/Authorization.thy ===== *)
theory Authorization
  imports HttpErrors
begin

section \<open>Authorization: the decision pipeline, its resolver and its fixture repository\<close>

text \<open>
  Models \<^verbatim>\<open>internal/authorization/app\<close> (contracts and service) and
  \<^verbatim>\<open>internal/authorization/infra/inmemory\<close> (checker, resolver, repository). A check runs its
  gates in the order of the code: tenant match, permission, data scope, workflow state, eligible
  actor, approval responsibility; the first gate that fails names the deny code. The resolver is
  an interface (the locale \<open>access_resolver\<close>): the service is proved against it, the in-memory
  resolver interprets it here and the cached one in theory \<open>Projection\<close>.
\<close>

subsection \<open>Contracts\<close>

datatype verdict = Allow | Deny

record subject_ref =
  sub_user :: string
  sub_membership :: string
  sub_company :: string

record resource_ref =
  res_type :: string
  res_id :: string
  res_attrs :: attrs

record authz_request =
  rq_subject :: subject_ref
  rq_action :: string
  rq_resource :: resource_ref

record authz_decision =
  dc_verdict :: verdict
  dc_permissions :: "string list"
  dc_scope :: "string list"
  dc_responsibility :: "string list"
  dc_deny :: "string option"

record department_scope =
  dep_id :: string
  dep_name :: string

record assignment =
  asg_type :: string
  asg_id :: string

record data_scope =
  ds_scope_type :: string
  ds_departments :: "department_scope list"
  ds_assignments :: "assignment list"
  ds_company_wide :: bool
  ds_org_units :: "string list"
  ds_org_subtree :: "string list"
  ds_positions :: "string list"

record effective_access =
  ea_company :: string
  ea_membership :: string
  ea_permissions :: "string list"
  ea_scope :: data_scope
  ea_responsibilities :: "string list"

record action_policy =
  ap_action :: string
  ap_required :: string
  ap_scope_type :: string
  ap_workflow_state :: string
  ap_eligible_actor :: string
  ap_effect :: string
  ap_deny_code :: string

subsection \<open>The checker\<close>

definition contains :: "string list \<Rightarrow> string \<Rightarrow> bool" where
  "contains items target = list_ex (\<lambda>it. equal_fold it target) items"

definition contains_department :: "department_scope list \<Rightarrow> string \<Rightarrow> bool" where
  "contains_department items d = list_ex (\<lambda>it. dep_id it = d) items"

definition contains_assignment :: "assignment list \<Rightarrow> string \<Rightarrow> string \<Rightarrow> bool" where
  "contains_assignment items t i = list_ex (\<lambda>it. asg_type it = t \<and> asg_id it = i) items"

definition split_or_star :: "string \<Rightarrow> string list" where
  "split_or_star s =
    (let s' = trim_space (to_lower s) in
     if s' = [] \<or> s' = ''*'' then [''*'']
     else filter (\<lambda>p. p \<noteq> []) (map trim_space (split_on (CHR ''|'') s')))"

text \<open>The reasons one part of the scope type contributes, in the order the code appends them.\<close>

definition scope_part :: "authz_request \<Rightarrow> effective_access \<Rightarrow> string \<Rightarrow> string list" where
  "scope_part req eff p =
    (let ds = ea_scope eff; ats = res_attrs (rq_resource req) in
     if p = ''assigned_only'' then
       (if contains_assignment (ds_assignments ds) (res_type (rq_resource req)) (res_id (rq_resource req))
        then [''assignment:'' @ res_type (rq_resource req) @ '':'' @ res_id (rq_resource req)] else [])
     else if p = ''owner_only'' then
       (let owner = attr_str ats ''owner_membership_id'' in
        if owner \<noteq> [] \<and> equal_fold owner (ea_membership eff) then [''owner_only''] else [])
     else if p = ''org_unit_self'' \<or> p = ''org_unit_subtree'' then
       (let ou = attr_str ats ''org_unit_id''; dep = attr_str ats ''department_id'' in
        (if ou \<noteq> [] \<and> p = ''org_unit_self'' \<and> contains (ds_org_units ds) ou
         then [''org_unit_self:'' @ ou] else []) @
        (if ou \<noteq> [] \<and> p = ''org_unit_subtree'' \<and> contains (ds_org_subtree ds) ou
         then [''org_unit_subtree:'' @ ou] else []) @
        (if dep \<noteq> [] \<and> contains_department (ds_departments ds) dep
         then [''department_membership:'' @ dep] else []))
     else if p = ''*'' then [''scope:any'']
     else [])"

definition eval_scope :: "authz_request \<Rightarrow> effective_access \<Rightarrow> action_policy \<Rightarrow> string list \<times> bool" where
  "eval_scope req eff pol =
    (if ds_company_wide (ea_scope eff) then ([''company_wide_access''], True)
     else let parts = split_or_star (ap_scope_type pol) in
       if parts = [] then ([''scope:any''], True)
       else let rs = concat (map (scope_part req eff) parts) in (rs, rs \<noteq> []))"

definition eval_workflow_state :: "authz_request \<Rightarrow> action_policy \<Rightarrow> bool" where
  "eval_workflow_state req pol =
    (let parts = split_or_star (ap_workflow_state pol) in
     if parts = [] then True
     else if contains parts ''*'' then True
     else let st = trim_space (attr_str (res_attrs (rq_resource req)) ''workflow_state'') in
       if st = [] then True else contains parts st)"

definition eval_eligible_actor :: "effective_access \<Rightarrow> action_policy \<Rightarrow> bool" where
  "eval_eligible_actor eff pol =
    (let parts = split_or_star (ap_eligible_actor pol) in
     if parts = [] \<or> contains parts ''*'' then True
     else list_ex (\<lambda>p. contains (ds_positions (ea_scope eff)) (to_lower p) \<or>
                       contains (ea_responsibilities eff) (to_lower p)) parts)"

definition deny :: "string \<Rightarrow> string list \<Rightarrow> string list \<Rightarrow> authz_decision" where
  "deny code perms scope = \<lparr>dc_verdict = Deny, dc_permissions = perms, dc_scope = scope,
     dc_responsibility = [], dc_deny = Some code\<rparr>"

definition is_approval :: "string \<Rightarrow> bool" where
  "is_approval action = contains_str (to_lower action) ''approve''"

definition check_access :: "authz_request \<Rightarrow> effective_access \<Rightarrow> action_policy \<Rightarrow> authz_decision" where
  "check_access req eff pol =
    (if sub_company (rq_subject req) \<noteq> ea_company eff \<or> sub_membership (rq_subject req) \<noteq> ea_membership eff
     then deny CodeCompanyScopeMismatch [] []
     else let required = trim_space (ap_required pol) in
     if required = [] \<or> \<not> contains (ea_permissions eff) required
     then deny CodePermissionDenied [] []
     else case eval_scope req eff pol of (scope, ok) \<Rightarrow>
     if \<not> ok then deny CodeDataScopeDenied [required] []
     else if \<not> eval_workflow_state req pol then deny CodeStateConflict [required] scope
     else if \<not> eval_eligible_actor eff pol then deny CodeResponsibilityRequired [required] scope
     else if is_approval (rq_action req) then
       (if contains (ea_responsibilities eff) ''workflow_approver:disclosure''
        then \<lparr>dc_verdict = Allow, dc_permissions = [required], dc_scope = scope,
              dc_responsibility = [''workflow_assignee_rule:legal_approval''], dc_deny = None\<rparr>
        else deny CodeResponsibilityRequired [required] scope)
     else \<lparr>dc_verdict = Allow, dc_permissions = [required], dc_scope = scope,
            dc_responsibility = [], dc_deny = None\<rparr>)"

subsection \<open>The repository and the resolver\<close>

text \<open>The authorization repository as its interface: the reads the resolver and the service make.\<close>

record authz_repo =
  ar_permissions :: "string \<Rightarrow> string \<Rightarrow> go_error + string list"
  ar_departments :: "string \<Rightarrow> string \<Rightarrow> go_error + department_scope list"
  ar_assignments :: "string \<Rightarrow> string \<Rightarrow> go_error + assignment list"
  ar_responsibilities :: "string \<Rightarrow> string \<Rightarrow> go_error + string list"
  ar_positions :: "string \<Rightarrow> string \<Rightarrow> go_error + string list"
  ar_org_units :: "string \<Rightarrow> string \<Rightarrow> go_error + string list"
  ar_org_subtree :: "string \<Rightarrow> string \<Rightarrow> go_error + string list"
  ar_policy :: "string \<Rightarrow> string \<Rightarrow> go_error + action_policy"

definition resolver_resolve :: "authz_repo \<Rightarrow> string \<Rightarrow> string \<Rightarrow> go_error + effective_access" where
  "resolver_resolve repo m c =
    bindR (ar_permissions repo m c) (\<lambda>perms.
    bindR (ar_departments repo m c) (\<lambda>deps.
    bindR (ar_assignments repo m c) (\<lambda>asgs.
    bindR (ar_responsibilities repo m c) (\<lambda>resp.
    bindR (ar_positions repo m c) (\<lambda>poss.
    bindR (ar_org_units repo m c) (\<lambda>ous.
    bindR (ar_org_subtree repo m c) (\<lambda>subs.
      let wide = contains perms ''company_wide_access'';
          st = (if wide then ''company_wide'' else if deps \<noteq> [] \<or> asgs \<noteq> [] then ''mixed'' else ''none'')
      in Inr \<lparr>ea_company = c, ea_membership = m, ea_permissions = perms,
           ea_scope = \<lparr>ds_scope_type = st, ds_departments = deps, ds_assignments = asgs,
             ds_company_wide = wide, ds_org_units = ous, ds_org_subtree = subs, ds_positions = poss\<rparr>,
           ea_responsibilities = resp\<rparr>)))))))"

record inmemory_authz =
  im_permissions :: "string \<rightharpoonup> string list"
  im_departments :: "string \<rightharpoonup> department_scope list"
  im_assignments :: "string \<rightharpoonup> assignment list"
  im_responsibilities :: "string \<rightharpoonup> string list"
  im_positions :: "string \<rightharpoonup> string list"
  im_org_units :: "string \<rightharpoonup> string list"
  im_org_subtree :: "string \<rightharpoonup> string list"
  im_policies :: "string \<rightharpoonup> action_policy"

definition authz_key :: "string \<Rightarrow> string \<Rightarrow> string" where
  "authz_key m c = m @ ''@'' @ c"

definition list_at :: "(string \<rightharpoonup> 'a list) \<Rightarrow> string \<Rightarrow> string \<Rightarrow> 'a list" where
  "list_at m i c = (case m (authz_key i c) of None \<Rightarrow> [] | Some xs \<Rightarrow> xs)"

definition fallback_policy :: "string \<Rightarrow> action_policy" where
  "fallback_policy action = \<lparr>ap_action = action, ap_required = ''system.settings'', ap_scope_type = ''*'',
     ap_workflow_state = ''*'', ap_eligible_actor = ''*'', ap_effect = ''allow'',
     ap_deny_code = ''permission_denied''\<rparr>"

definition get_action_policy :: "inmemory_authz \<Rightarrow> string \<Rightarrow> string \<Rightarrow> action_policy" where
  "get_action_policy r c action =
    (case im_policies r action of Some p \<Rightarrow> p | None \<Rightarrow> fallback_policy action)"

definition inmemory_repo :: "inmemory_authz \<Rightarrow> authz_repo" where
  "inmemory_repo r = \<lparr>
     ar_permissions = (\<lambda>m c. Inr (list_at (im_permissions r) m c)),
     ar_departments = (\<lambda>m c. Inr (list_at (im_departments r) m c)),
     ar_assignments = (\<lambda>m c. Inr (list_at (im_assignments r) m c)),
     ar_responsibilities = (\<lambda>m c. Inr (list_at (im_responsibilities r) m c)),
     ar_positions = (\<lambda>m c. Inr (list_at (im_positions r) m c)),
     ar_org_units = (\<lambda>m c. Inr (list_at (im_org_units r) m c)),
     ar_org_subtree = (\<lambda>m c. Inr (list_at (im_org_subtree r) m c)),
     ar_policy = (\<lambda>c a. Inr (get_action_policy r c a))\<rparr>"

subsection \<open>The fixture of the in-memory wiring\<close>

definition mk_policy :: "string \<Rightarrow> string \<Rightarrow> string \<Rightarrow> string \<Rightarrow> action_policy" where
  "mk_policy action required scope code = \<lparr>ap_action = action, ap_required = required,
     ap_scope_type = scope, ap_workflow_state = ''*'', ap_eligible_actor = ''*'',
     ap_effect = ''allow'', ap_deny_code = code\<rparr>"

definition default_policies :: "string \<rightharpoonup> action_policy" where
  "default_policies = [
    ''disclosure.view'' \<mapsto> mk_policy ''disclosure.view'' ''disclosure.view''
       ''org_unit_subtree|assigned_only|owner_only|company_wide'' ''scope_denied'',
    ''disclosure.create'' \<mapsto> mk_policy ''disclosure.create'' ''disclosure.create'' ''*'' ''permission_denied'',
    ''disclosure.update'' \<mapsto> mk_policy ''disclosure.update'' ''disclosure.edit'' ''*'' ''permission_denied'',
    ''disclosure.submit'' \<mapsto> mk_policy ''disclosure.submit'' ''disclosure.publish'' ''*'' ''permission_denied'',
    ''disclosure.approve'' \<mapsto> mk_policy ''disclosure.approve'' ''disclosure.approve'' ''*'' ''responsibility_required'',
    ''workflow.review'' \<mapsto> mk_policy ''workflow.review'' ''deadline.assign'' ''*'' ''permission_denied'']"

definition admin_permissions :: "string list" where
  "admin_permissions = [''company.view'', ''company.edit'', ''recipient.view'', ''recipient.manage'',
     ''deadline.view'', ''deadline.manage'', ''deadline.create'', ''deadline.assign'',
     ''alert.channels.manage'',
     ''disclosure.view'', ''disclosure.create'', ''disclosure.edit'', ''disclosure.publish'',
     ''disclosure.delete'', ''disclosure.approve'', ''user.view'', ''user.edit'',
     ''workflow.step.confirm'', ''workflow.step.override'', ''auth.session.manage'', ''audit.view'',
     ''system.settings'', ''rbac.manage'']"

definition new_authz_fixture :: inmemory_authz where
  "new_authz_fixture =
    (let legal = \<lparr>dep_id = ''d_legal'', dep_name = ''Legal''\<rparr>;
         ir = \<lparr>dep_id = ''d_ir'', dep_name = ''IR''\<rparr>;
         asg = [\<lparr>asg_type = ''disclosure_record'', asg_id = ''r_1001''\<rparr>];
         resp = [''workflow_approver:disclosure'', ''notification_recipient:disclosure'']
     in \<lparr>
      im_permissions = [
        ''m_001@c_001'' \<mapsto> [''company.view'', ''dashboard.view'', ''disclosure.view'',
           ''disclosure.create'', ''disclosure.edit'', ''disclosure.publish''],
        ''m_002@c_002'' \<mapsto> [''disclosure.view''],
        ''m_010@c_010'' \<mapsto> [''company.view'', ''dashboard.view''],
        ''m_admin_001@c_001'' \<mapsto> admin_permissions,
        ''m_cms_001@c_001'' \<mapsto> ''platform.cms.view'' # admin_permissions],
      im_departments = [''m_001@c_001'' \<mapsto> [legal, ir], ''m_admin_001@c_001'' \<mapsto> [legal],
        ''m_cms_001@c_001'' \<mapsto> [legal]],
      im_assignments = [''m_001@c_001'' \<mapsto> asg, ''m_admin_001@c_001'' \<mapsto> asg, ''m_cms_001@c_001'' \<mapsto> asg],
      im_responsibilities = [''m_001@c_001'' \<mapsto> resp, ''m_admin_001@c_001'' \<mapsto> resp, ''m_cms_001@c_001'' \<mapsto> resp],
      im_positions = [''m_001@c_001'' \<mapsto> [''truong_phong''], ''m_admin_001@c_001'' \<mapsto> [''admin_dn''],
        ''m_cms_001@c_001'' \<mapsto> [''cms_operator'']],
      im_org_units = [''m_001@c_001'' \<mapsto> [''ou_legal''], ''m_admin_001@c_001'' \<mapsto> [''ou_root''],
        ''m_cms_001@c_001'' \<mapsto> [''ou_root'']],
      im_org_subtree = [''m_001@c_001'' \<mapsto> [''ou_legal'', ''ou_legal_team_a'', ''ou_legal_team_b''],
        ''m_admin_001@c_001'' \<mapsto> [''ou_root'', ''ou_legal'', ''ou_legal_team_a'', ''ou_legal_team_b'', ''ou_ir''],
        ''m_cms_001@c_001'' \<mapsto> [''ou_root'', ''ou_legal'', ''ou_legal_team_a'', ''ou_legal_team_b'', ''ou_ir'']],
      im_policies = default_policies\<rparr>)"

subsection \<open>The service\<close>

text \<open>
  The service holds a resolver, which may keep state (a cache), and the policy lookup of the
  repository.
\<close>

type_synonym 's resolver = "string \<Rightarrow> string \<Rightarrow> (go_error, 's, effective_access) action"
type_synonym policy_source = "string \<Rightarrow> string \<Rightarrow> go_error + action_policy"

definition context_required :: go_error where
  "context_required = new_http_error 422 CodeCompanyContextRequired ''membership_id and company_id are required''"

definition authorize :: "'s resolver \<Rightarrow> policy_source \<Rightarrow> authz_request \<Rightarrow> (go_error, 's, authz_decision) action" where
  "authorize resolve policy req =
    seqE (chkE (trim_space (sub_membership (rq_subject req)) \<noteq> [] \<and> trim_space (sub_company (rq_subject req)) \<noteq> [])
            context_required) (\<lambda>_.
    seqE (wrapE (WrapErr ''resolve effective access'')
            (resolve (sub_membership (rq_subject req)) (sub_company (rq_subject req)))) (\<lambda>eff.
    seqE (wrapE (WrapErr ''get action policy'')
            (liftE (\<lambda>_. policy (sub_company (rq_subject req)) (rq_action req)))) (\<lambda>pol.
    okE (check_access req eff pol))))"

fun batch_checks :: "policy_source \<Rightarrow> subject_ref \<Rightarrow> effective_access \<Rightarrow> (string \<times> resource_ref) list \<Rightarrow>
    go_error + authz_decision list" where
  "batch_checks policy sub eff [] = Inr []"
| "batch_checks policy sub eff ((a, r) # cs) =
    (case policy (sub_company sub) a of
       Inl e \<Rightarrow> Inl (WrapErr ''get action policy (batch)'' e)
     | Inr pol \<Rightarrow> bindR (batch_checks policy sub eff cs) (\<lambda>ds.
         Inr (check_access \<lparr>rq_subject = sub, rq_action = a, rq_resource = r\<rparr> eff pol # ds)))"

definition authorize_batch :: "'s resolver \<Rightarrow> policy_source \<Rightarrow> subject_ref \<Rightarrow> (string \<times> resource_ref) list \<Rightarrow>
    (go_error, 's, authz_decision list) action" where
  "authorize_batch resolve policy sub checks =
    seqE (chkE (trim_space (sub_membership sub) \<noteq> [] \<and> trim_space (sub_company sub) \<noteq> []) context_required) (\<lambda>_.
    seqE (wrapE (WrapErr ''resolve effective access'') (resolve (sub_membership sub) (sub_company sub))) (\<lambda>eff.
    liftE (\<lambda>_. batch_checks policy sub eff checks)))"

definition get_effective_access :: "'s resolver \<Rightarrow> string \<Rightarrow> string \<Rightarrow> (go_error, 's, effective_access) action" where
  "get_effective_access resolve m c =
    seqE (chkE (trim_space m \<noteq> [] \<and> trim_space c \<noteq> []) context_required) (\<lambda>_. resolve m c)"

definition base_resolver :: "authz_repo \<Rightarrow> 's resolver" where
  "base_resolver repo m c = liftE (\<lambda>_. resolver_resolve repo m c)"

subsection \<open>Facts about the checker\<close>

lemma contains_mono: "set xs \<subseteq> set ys \<Longrightarrow> contains xs t \<Longrightarrow> contains ys t"
  by (auto simp: contains_def list_ex_iff)

lemma contains_department_mono: "set xs \<subseteq> set ys \<Longrightarrow> contains_department xs t \<Longrightarrow> contains_department ys t"
  by (auto simp: contains_department_def list_ex_iff)

lemma contains_assignment_mono: "set xs \<subseteq> set ys \<Longrightarrow> contains_assignment xs t i \<Longrightarrow> contains_assignment ys t i"
  by (auto simp: contains_assignment_def list_ex_iff)

lemma contains_self: "t \<in> set xs \<Longrightarrow> contains xs t"
  unfolding contains_def list_ex_iff by (rule bexI [of _ t]) simp_all

lemma deny_simps [simp]: "dc_verdict (deny c p s) = Deny" "dc_deny (deny c p s) = Some c"
  "dc_permissions (deny c p s) = p" "dc_scope (deny c p s) = s"
  by (simp_all add: deny_def)

lemma split_or_star_star [simp]: "split_or_star ''*'' = [''*'']"
  by code_simp

lemma contains_star [simp]: "contains [''*''] ''*''"
  by (simp add: contains_def)

text \<open>The part of the effective access that decides: one summary grants at least another.\<close>

definition grants_more :: "effective_access \<Rightarrow> effective_access \<Rightarrow> bool" where
  "grants_more a b \<longleftrightarrow> ea_company a = ea_company b \<and> ea_membership a = ea_membership b \<and>
     set (ea_permissions a) \<subseteq> set (ea_permissions b) \<and>
     set (ea_responsibilities a) \<subseteq> set (ea_responsibilities b) \<and>
     (ds_company_wide (ea_scope a) \<longrightarrow> ds_company_wide (ea_scope b)) \<and>
     set (ds_departments (ea_scope a)) \<subseteq> set (ds_departments (ea_scope b)) \<and>
     set (ds_assignments (ea_scope a)) \<subseteq> set (ds_assignments (ea_scope b)) \<and>
     set (ds_org_units (ea_scope a)) \<subseteq> set (ds_org_units (ea_scope b)) \<and>
     set (ds_org_subtree (ea_scope a)) \<subseteq> set (ds_org_subtree (ea_scope b)) \<and>
     set (ds_positions (ea_scope a)) \<subseteq> set (ds_positions (ea_scope b))"

lemma grants_more_contains:
  assumes "grants_more a b"
  shows "contains (ea_permissions a) t \<Longrightarrow> contains (ea_permissions b) t"
    and "contains (ea_responsibilities a) t \<Longrightarrow> contains (ea_responsibilities b) t"
    and "contains (ds_org_units (ea_scope a)) t \<Longrightarrow> contains (ds_org_units (ea_scope b)) t"
    and "contains (ds_org_subtree (ea_scope a)) t \<Longrightarrow> contains (ds_org_subtree (ea_scope b)) t"
    and "contains (ds_positions (ea_scope a)) t \<Longrightarrow> contains (ds_positions (ea_scope b)) t"
    and "contains_department (ds_departments (ea_scope a)) t \<Longrightarrow> contains_department (ds_departments (ea_scope b)) t"
    and "contains_assignment (ds_assignments (ea_scope a)) t i \<Longrightarrow> contains_assignment (ds_assignments (ea_scope b)) t i"
  using assms contains_mono contains_department_mono contains_assignment_mono
  unfolding grants_more_def by metis+

lemma scope_part_mono:
  assumes "grants_more a b" and "scope_part req a p \<noteq> []"
  shows "scope_part req b p \<noteq> []"
proof -
  note more = grants_more_contains [OF assms(1)]
  have same: "ea_membership a = ea_membership b" using assms(1) by (simp add: grants_more_def)
  consider "p = ''assigned_only''" | "p = ''owner_only''" | "p = ''org_unit_self''" | "p = ''org_unit_subtree''"
    | "p = ''*''"
    | "p \<noteq> ''assigned_only''" "p \<noteq> ''owner_only''" "p \<noteq> ''org_unit_self''" "p \<noteq> ''org_unit_subtree''" "p \<noteq> ''*''"
    by blast
  then show ?thesis
  proof cases
    case 1 then show ?thesis using assms(2) more(7) by (simp add: scope_part_def split: if_split_asm)
  next
    case 2 then show ?thesis using assms(2) same by (simp add: scope_part_def Let_def split: if_split_asm)
  next
    case 3 then show ?thesis using assms(2) more(3,6)
      by (simp add: scope_part_def Let_def split: if_split_asm) blast?
  next
    case 4 then show ?thesis using assms(2) more(4,6)
      by (simp add: scope_part_def Let_def split: if_split_asm) blast?
  next
    case 5 then show ?thesis by (simp add: scope_part_def)
  next
    case 6 then show ?thesis using assms(2) by (simp add: scope_part_def)
  qed
qed

lemma eval_scope_mono:
  assumes "grants_more a b" and "snd (eval_scope req a pol)"
  shows "snd (eval_scope req b pol)"
  using assms scope_part_mono [OF assms(1)]
  by (auto simp: eval_scope_def Let_def grants_more_def split: if_splits)

lemma eval_eligible_actor_mono:
  assumes "grants_more a b" and "eval_eligible_actor a pol"
  shows "eval_eligible_actor b pol"
  using assms(2) grants_more_contains(2,5) [OF assms(1)]
  unfolding eval_eligible_actor_def Let_def list_ex_iff by meson

text \<open>The six gates of a check, each with the code of the denial it causes.\<close>

definition gates :: "authz_request \<Rightarrow> effective_access \<Rightarrow> action_policy \<Rightarrow> (bool \<times> string) list" where
  "gates req eff pol =
    [(sub_company (rq_subject req) = ea_company eff \<and> sub_membership (rq_subject req) = ea_membership eff,
      CodeCompanyScopeMismatch),
     (trim_space (ap_required pol) \<noteq> [] \<and> contains (ea_permissions eff) (trim_space (ap_required pol)),
      CodePermissionDenied),
     (snd (eval_scope req eff pol), CodeDataScopeDenied),
     (eval_workflow_state req pol, CodeStateConflict),
     (eval_eligible_actor eff pol, CodeResponsibilityRequired),
     (is_approval (rq_action req) \<longrightarrow> contains (ea_responsibilities eff) ''workflow_approver:disclosure'',
      CodeResponsibilityRequired)]"

lemma check_allow_gates: "dc_verdict (check_access req eff pol) = Allow \<longleftrightarrow> (\<forall>g \<in> set (gates req eff pol). fst g)"
  by (simp add: check_access_def gates_def Let_def split: prod.split) blast

lemma check_deny_gates:
  "dc_deny (check_access req eff pol) = map_option snd (List.find (\<lambda>g. \<not> fst g) (gates req eff pol))"
  by (simp add: check_access_def gates_def Let_def split: prod.split)

lemma check_allow_tenant:
  "dc_verdict (check_access req eff pol) = Allow \<Longrightarrow>
   ea_company eff = sub_company (rq_subject req) \<and> ea_membership eff = sub_membership (rq_subject req)"
  by (simp add: check_allow_gates gates_def)

lemma check_allow_permission:
  "dc_verdict (check_access req eff pol) = Allow \<Longrightarrow>
   contains (ea_permissions eff) (trim_space (ap_required pol))"
  by (simp add: check_allow_gates gates_def)

subsection \<open>The resolver interface\<close>

locale access_resolver =
  fixes resolve :: "'s resolver"
    and inv :: "'s \<Rightarrow> bool"
    and wf_id :: "string \<Rightarrow> bool"
  assumes resolve_inv: "inv s \<Longrightarrow> wf_id m \<Longrightarrow> resolve m c s = (r, s') \<Longrightarrow> inv s'"
    and resolve_owner: "inv s \<Longrightarrow> wf_id m \<Longrightarrow> resolve m c s = (Inr eff, s') \<Longrightarrow>
      ea_company eff = c \<and> ea_membership eff = m"
    and resolve_stable: "inv s \<Longrightarrow> wf_id m \<Longrightarrow> resolve m c s = (Inr eff, s') \<Longrightarrow> resolve m c s' = (Inr eff, s')"
begin

lemma authorize_inv:
  "inv s \<Longrightarrow> wf_id (sub_membership (rq_subject req)) \<Longrightarrow> inv (snd (authorize resolve policy req s))"
  unfolding authorize_def
  by (rule snd_seqE_inv, simp, rule snd_seqE_inv, simp add: wrapE_def split: prod.split sum.split)
    (auto intro: resolve_inv simp: seqE_def wrapE_def split: prod.split sum.split)

lemma authorize_no_mismatch:
  assumes "inv s" and "wf_id (sub_membership (rq_subject req))"
    and "authorize resolve policy req s = (Inr d, s')"
  shows "dc_deny d \<noteq> Some CodeCompanyScopeMismatch"
proof -
  obtain eff pol where "resolve (sub_membership (rq_subject req)) (sub_company (rq_subject req)) s = (Inr eff, s')"
    and "d = check_access req eff pol"
    using assms(3) by (auto simp: authorize_def seq_iffs split: if_splits)
  with resolve_owner [OF assms(1,2)] show ?thesis
    by (auto simp: check_deny_gates gates_def code_defs split: if_splits)
qed

lemma batch_checks_single:
  assumes "resolve (sub_membership sub) (sub_company sub) s = (Inr eff, s)"
    and "trim_space (sub_membership sub) \<noteq> []" and "trim_space (sub_company sub) \<noteq> []"
  shows "batch_checks policy sub eff checks = Inr ds \<Longrightarrow>
    list_all2 (\<lambda>(a, r) d. authorize resolve policy \<lparr>rq_subject = sub, rq_action = a, rq_resource = r\<rparr> s = (Inr d, s))
      checks ds"
proof (induction checks arbitrary: ds)
  case (Cons ar checks)
  obtain a r where ar: "ar = (a, r)" by (cases ar)
  with Cons.prems obtain pol ds' where "policy (sub_company sub) a = Inr pol"
    and "batch_checks policy sub eff checks = Inr ds'"
    and "ds = check_access \<lparr>rq_subject = sub, rq_action = a, rq_resource = r\<rparr> eff pol # ds'"
    by (auto simp: seq_iffs split: sum.splits)
  with Cons.IH assms ar show ?case by (simp add: authorize_def seqE_lift seqE_def wrapE_def)
qed simp

lemma batch_agrees:
  assumes "inv s" and "wf_id (sub_membership sub)"
    and "authorize_batch resolve policy sub checks s = (Inr ds, s')"
  shows "list_all2 (\<lambda>(a, r) d. authorize resolve policy \<lparr>rq_subject = sub, rq_action = a, rq_resource = r\<rparr> s'
    = (Inr d, s')) checks ds"
proof -
  obtain eff where "resolve (sub_membership sub) (sub_company sub) s = (Inr eff, s')"
    and "trim_space (sub_membership sub) \<noteq> []" and "trim_space (sub_company sub) \<noteq> []"
    and "batch_checks policy sub eff checks = Inr ds"
    using assms(3) by (auto simp: authorize_batch_def seq_iffs split: if_splits)
  with batch_checks_single resolve_stable [OF assms(1,2)] show ?thesis by blast
qed

end

interpretation base: access_resolver "base_resolver repo" "\<lambda>_. True" "\<lambda>_. True" for repo
  by unfold_locales (auto simp: base_resolver_def resolver_resolve_def seq_iffs Let_def)

subsection \<open>Properties\<close>

text \<open>C1: the checker denies with the code of the first gate that fails, in the order tenant match,
  permission, data scope, workflow state, eligible actor, approval responsibility, and allows exactly
  when none fails; a denial before the permission gate reports no matched permission.\<close>

theorem check_first_failing_gate:
  "dc_deny (check_access req eff pol) = map_option snd (List.find (\<lambda>g. \<not> fst g) (gates req eff pol)) \<and>
   (dc_verdict (check_access req eff pol) = Allow \<longleftrightarrow> dc_deny (check_access req eff pol) = None) \<and>
   (dc_verdict (check_access req eff pol) = Allow \<longleftrightarrow> list_all fst (gates req eff pol)) \<and>
   dc_permissions (check_access req eff pol) \<in> {[], [trim_space (ap_required pol)]}"
proof -
  have "dc_verdict (check_access req eff pol) = Allow \<longleftrightarrow> dc_deny (check_access req eff pol) = None"
    by (simp add: check_access_def Let_def split: prod.split)
  moreover have "dc_permissions (check_access req eff pol) \<in> {[], [trim_space (ap_required pol)]}"
    by (simp add: check_access_def Let_def split: prod.split)
  ultimately show ?thesis using check_deny_gates check_allow_gates by (simp only: list_all_iff)
qed

definition wit_subject :: subject_ref where
  "wit_subject = \<lparr>sub_user = ''u_123'', sub_membership = ''m_001'', sub_company = ''c_001''\<rparr>"

definition wit_resource :: resource_ref where
  "wit_resource = \<lparr>res_type = ''disclosure_record'', res_id = ''r_1001'', res_attrs = [(''department_id'', AStr ''d_ir'')]\<rparr>"

definition wit_access :: effective_access where
  "wit_access = \<lparr>ea_company = ''c_001'', ea_membership = ''m_001'', ea_permissions = [''disclosure.view''],
     ea_scope = \<lparr>ds_scope_type = ''mixed'', ds_departments = [\<lparr>dep_id = ''d_ir'', dep_name = ''IR''\<rparr>],
       ds_assignments = [], ds_company_wide = False, ds_org_units = [], ds_org_subtree = [], ds_positions = []\<rparr>,
     ea_responsibilities = []\<rparr>"

text \<open>C29: authorization is monotone: granting more permissions, responsibilities, departments,
  assignments, org units or positions (or company-wide access) to the same membership never turns an
  allowed action into a denied one.\<close>

theorem check_monotone:
  assumes "grants_more a b" and "dc_verdict (check_access req a pol) = Allow"
  shows "dc_verdict (check_access req b pol) = Allow"
proof -
  have "ea_company a = ea_company b" "ea_membership a = ea_membership b"
    using assms(1) by (simp_all add: grants_more_def)
  with assms show ?thesis
    using eval_scope_mono [OF assms(1)] eval_eligible_actor_mono [OF assms(1)] grants_more_contains [OF assms(1)]
    by (simp add: check_allow_gates gates_def)
qed

theorem check_monotone_witness:
  "dc_verdict (check_access \<lparr>rq_subject = wit_subject, rq_action = ''disclosure.view'', rq_resource = wit_resource\<rparr>
     (wit_access\<lparr>ea_permissions := [''audit.view'', ''disclosure.view'']\<rparr>)
     (mk_policy ''disclosure.view'' ''disclosure.view'' ''org_unit_subtree|owner_only'' ''scope_denied'')) = Allow"
proof (rule check_monotone [of wit_access])
  show "grants_more wit_access (wit_access\<lparr>ea_permissions := [''audit.view'', ''disclosure.view'']\<rparr>)"
    by (simp add: grants_more_def wit_access_def)
qed code_simp

text \<open>Deny by default: an action for which the repository has no policy is allowed only to a
  membership that holds the permission system.settings, whatever the request says.\<close>

theorem unknown_action_needs_settings:
  assumes "im_policies r (rq_action req) = None"
    and "authorize (base_resolver (inmemory_repo r)) (ar_policy (inmemory_repo r)) req s = (Inr d, s')"
    and "dc_verdict d = Allow"
  shows "contains (list_at (im_permissions r) (sub_membership (rq_subject req)) (sub_company (rq_subject req)))
    ''system.settings''"
proof -
  obtain eff where eff: "resolver_resolve (inmemory_repo r) (sub_membership (rq_subject req)) (sub_company (rq_subject req)) = Inr eff"
    and d: "d = check_access req eff (fallback_policy (rq_action req))"
    using assms(1,2)
    by (auto simp: authorize_def seq_iffs base_resolver_def inmemory_repo_def get_action_policy_def split: if_splits)
  have "trim_space ''system.settings'' = ''system.settings''" by code_simp
  with d assms(3) check_allow_permission have "contains (ea_permissions eff) ''system.settings''"
    by (fastforce simp: fallback_policy_def)
  with eff show ?thesis by (auto simp: resolver_resolve_def inmemory_repo_def Let_def)
qed

definition wit_repo :: inmemory_authz where
  "wit_repo = \<lparr>im_permissions = [''m_001@c_001'' \<mapsto> [''system.settings'']], im_departments = Map.empty,
     im_assignments = Map.empty, im_responsibilities = Map.empty, im_positions = Map.empty,
     im_org_units = Map.empty, im_org_subtree = Map.empty, im_policies = default_policies\<rparr>"

theorem unknown_action_needs_settings_witness:
  "contains (list_at (im_permissions wit_repo) ''m_001'' ''c_001'') ''system.settings''"
proof -
  let ?req = "\<lparr>rq_subject = wit_subject, rq_action = ''rbac.grant'', rq_resource = wit_resource\<rparr>"
  let ?p = "authorize (base_resolver (inmemory_repo wit_repo)) (ar_policy (inmemory_repo wit_repo)) ?req ()"
  have ok: "?p = (Inr (projr (fst ?p)), snd ?p)" by (rule run_projr) code_simp
  have none: "im_policies wit_repo (rq_action ?req) = None" by code_simp
  have "dc_verdict (projr (fst ?p)) = Allow" by code_simp
  from unknown_action_needs_settings [OF none ok this] show ?thesis by (simp add: wit_subject_def)
qed

text \<open>C32: a batch decides like its checks one by one: each result of AuthorizeBatch is the decision
  Authorize gives for that action and resource of the same subject.\<close>

theorem batch_decides_like_singles:
  assumes "authorize_batch (base_resolver repo) policy sub checks s = (Inr ds, s')"
  shows "list_all2 (\<lambda>(a, r) d. authorize (base_resolver repo) policy
      \<lparr>rq_subject = sub, rq_action = a, rq_resource = r\<rparr> s' = (Inr d, s')) checks ds"
  using assms by (rule base.batch_agrees [OF TrueI TrueI])

theorem batch_decides_like_singles_witness:
  "\<exists>d. authorize (base_resolver (inmemory_repo wit_repo)) (ar_policy (inmemory_repo wit_repo))
    \<lparr>rq_subject = wit_subject, rq_action = ''rbac.grant'', rq_resource = wit_resource\<rparr> () = (Inr d, ()) \<and>
    dc_verdict d = Allow"
proof -
  let ?R = "inmemory_repo wit_repo"
  let ?p = "authorize_batch (base_resolver ?R) (ar_policy ?R) wit_subject [(''rbac.grant'', wit_resource)] ()"
  have ok: "?p = (Inr (projr (fst ?p)), snd ?p)" by (rule run_projr) code_simp
  have "list_all (\<lambda>d. dc_verdict d = Allow) (projr (fst ?p))" by code_simp
  with batch_decides_like_singles [OF ok] show ?thesis
    by (auto simp: list_all2_Cons1)
qed

end
