(* ===== verification/Projection.thy ===== *)
theory Projection
  imports Authorization
begin

section \<open>The effective-access projection: a TTL cache in front of the resolver\<close>

text \<open>
  Models \<^verbatim>\<open>internal/authorization/infra/projection\<close>: the in-memory snapshot store and
  \<open>CachedResolver\<close>. Times are nanoseconds. A resolution reads the clock twice, in \<open>Get\<close> and in
  \<open>Put\<close>: the second reading is \<open>lag\<close> after the first. The cached resolver interprets the
  interface \<open>access_resolver\<close>, under the store invariant that every snapshot lies under the key
  of its own membership, for membership ids without the separator of that key. The last part bounds the
  staleness of what a run of resolutions returns. The Redis store keeps JSON in an external service and
  is not modelled.
\<close>

record store_entry =
  se_snapshot :: effective_access
  se_expires :: int

record snapshot_store =
  ss_ttl :: int
  ss_items :: "string \<rightharpoonup> store_entry"

definition new_inmemory_store :: "int \<Rightarrow> snapshot_store" where
  "new_inmemory_store ttl = \<lparr>ss_ttl = (if ttl \<le> 0 then 5 * 60 * 1000000000 else ttl), ss_items = Map.empty\<rparr>"

definition store_get :: "int \<Rightarrow> string \<Rightarrow> string \<Rightarrow> snapshot_store \<Rightarrow> effective_access option \<times> snapshot_store" where
  "store_get now m c st = (case ss_items st (authz_key m c) of
      None \<Rightarrow> (None, st)
    | Some it \<Rightarrow> if now > se_expires it
        then (None, st\<lparr>ss_items := (ss_items st)(authz_key m c := None)\<rparr>)
        else (Some (se_snapshot it), st))"

definition store_put :: "int \<Rightarrow> effective_access \<Rightarrow> snapshot_store \<Rightarrow> snapshot_store" where
  "store_put now snap st = st\<lparr>ss_items := (ss_items st)(authz_key (ea_membership snap) (ea_company snap) \<mapsto>
     \<lparr>se_snapshot = snap, se_expires = now + ss_ttl st\<rparr>)\<rparr>"

definition cached_resolve :: "int \<Rightarrow> nat \<Rightarrow> authz_repo \<Rightarrow> snapshot_store resolver" where
  "cached_resolve now lag repo m c st = (case store_get now m c st of
      (Some v, st') \<Rightarrow> (Inr v, st')
    | (None, st') \<Rightarrow> (case resolver_resolve repo m c of
          Inl e \<Rightarrow> (Inl (WrapErr ''resolve base effective access'' e), st')
        | Inr v \<Rightarrow> (Inr v, store_put (now + int lag) v st')))"

subsection \<open>The store invariant\<close>

definition plain_id :: "string \<Rightarrow> bool" where
  "plain_id m \<longleftrightarrow> CHR ''@'' \<notin> set m"

definition store_ok :: "snapshot_store \<Rightarrow> bool" where
  "store_ok st \<longleftrightarrow> 0 < ss_ttl st \<and>
     (\<forall>k it. ss_items st k = Some it \<longrightarrow> plain_id (ea_membership (se_snapshot it)) \<and>
        k = authz_key (ea_membership (se_snapshot it)) (ea_company (se_snapshot it)))"

lemma authz_key_inject:
  "plain_id m \<Longrightarrow> plain_id m' \<Longrightarrow> authz_key m c = authz_key m' c' \<longleftrightarrow> m = m' \<and> c = c'"
  using append_sep_inject [of "CHR ''@''" m m' c c'] by (simp add: authz_key_def plain_id_def)

lemma new_store_ok: "store_ok (new_inmemory_store ttl)"
  by (simp add: store_ok_def new_inmemory_store_def)

lemma store_get_ok: "store_ok st \<Longrightarrow> store_ok (snd (store_get now m c st))"
  by (auto simp: store_ok_def store_get_def split: option.splits if_splits)

lemma store_put_ok: "store_ok st \<Longrightarrow> plain_id (ea_membership v) \<Longrightarrow> store_ok (store_put now v st)"
  by (auto simp: store_ok_def store_put_def)

lemma store_get_owner:
  assumes "store_ok st" and "plain_id m" and "store_get now m c st = (Some v, st')"
  shows "ea_membership v = m \<and> ea_company v = c"
proof -
  obtain it where it: "ss_items st (authz_key m c) = Some it" "v = se_snapshot it"
    using assms(3) by (auto simp: store_get_def split: option.splits if_splits)
  with assms(1) have "plain_id (ea_membership v)" "authz_key m c = authz_key (ea_membership v) (ea_company v)"
    by (auto simp: store_ok_def)
  with authz_key_inject assms(2) show ?thesis by metis
qed

lemma base_owner: "resolver_resolve repo m c = Inr v \<Longrightarrow> ea_membership v = m \<and> ea_company v = c"
  by (auto simp: resolver_resolve_def seq_iffs Let_def)

lemma cached_resolve_ok:
  assumes "store_ok st" and "plain_id m"
  shows "store_ok (snd (cached_resolve now lag repo m c st))"
  using assms store_get_ok [OF assms(1), of now m c]
  by (auto simp: cached_resolve_def dest!: base_owner intro!: store_put_ok
      split: prod.split option.split sum.split)

lemma cached_resolve_cases:
  assumes "cached_resolve now lag repo m c st = (Inr v, st')"
  obtains (hit) "store_get now m c st = (Some v, st')"
    | (miss) st'' where "store_get now m c st = (None, st'')" "resolver_resolve repo m c = Inr v"
        "st' = store_put (now + int lag) v st''"
  using assms by (auto simp: cached_resolve_def split: prod.splits option.splits sum.splits)

lemma cached_resolve_owner:
  assumes "store_ok st" and "plain_id m" and "cached_resolve now lag repo m c st = (Inr v, st')"
  shows "ea_company v = c \<and> ea_membership v = m"
  using assms(3)
proof (cases rule: cached_resolve_cases)
  case hit
  with store_get_owner [OF assms(1,2)] show ?thesis by blast
next
  case miss
  with base_owner show ?thesis by blast
qed

lemma store_get_put:
  "0 < ss_ttl st \<Longrightarrow> store_get now (ea_membership v) (ea_company v) (store_put (now + int lag) v st) =
    (Some v, store_put (now + int lag) v st)"
  by (simp add: store_get_def store_put_def)

lemma store_get_hit: "store_get now m c st = (Some v, st') \<Longrightarrow> st' = st"
  by (auto simp: store_get_def split: option.splits if_splits)

lemma store_get_ttl: "store_get now m c st = (r, st') \<Longrightarrow> ss_ttl st' = ss_ttl st"
  by (auto simp: store_get_def split: option.splits if_splits)

lemma cached_resolve_stable:
  assumes "store_ok st" and "cached_resolve now lag repo m c st = (Inr v, st')"
  shows "cached_resolve now lag repo m c st' = (Inr v, st')"
  using assms(2)
proof (cases rule: cached_resolve_cases)
  case hit
  with store_get_hit show ?thesis by (fastforce simp: cached_resolve_def)
next
  case (miss st'')
  with base_owner [OF miss(2)] store_get_ttl [OF miss(1)] assms(1) store_get_put [of st'' now v lag]
  show ?thesis by (simp add: cached_resolve_def store_ok_def)
qed

interpretation cached: access_resolver "cached_resolve now lag repo" store_ok plain_id for now lag repo
proof unfold_locales
  fix st m c r st'
  assume "store_ok st" "plain_id m" "cached_resolve now lag repo m c st = (r, st')"
  then show "store_ok st'" using cached_resolve_ok [of st m now lag repo c] by simp
qed (use cached_resolve_owner cached_resolve_stable in blast)+

subsection \<open>Staleness\<close>

text \<open>
  A run of resolutions while the underlying access changes: event \<open>(now, lag, m, c)\<close> resolves at
  time \<open>now\<close>, and \<open>world t\<close> is the repository as it reads at time \<open>t\<close>.
\<close>

type_synonym resolve_event = "int \<times> nat \<times> string \<times> string"

fun resolve_run :: "(int \<Rightarrow> authz_repo) \<Rightarrow> resolve_event list \<Rightarrow> snapshot_store \<Rightarrow>
    (go_error + effective_access) list \<times> snapshot_store" where
  "resolve_run world [] st = ([], st)"
| "resolve_run world ((now, lag, m, c) # evs) st =
    (let (r, st') = cached_resolve now lag (world now) m c st;
         (rs, st'') = resolve_run world evs st'
     in (r # rs, st''))"

definition seen_at :: "(int \<Rightarrow> authz_repo) \<Rightarrow> int \<Rightarrow> int \<Rightarrow> effective_access \<Rightarrow> bool" where
  "seen_at world from until v \<longleftrightarrow> (\<exists>t. from \<le> t \<and> t \<le> until \<and>
     resolver_resolve (world t) (ea_membership v) (ea_company v) = Inr v)"

definition fresh_result :: "(int \<Rightarrow> authz_repo) \<Rightarrow> int \<Rightarrow> nat \<Rightarrow> resolve_event \<Rightarrow> go_error + effective_access \<Rightarrow> bool" where
  "fresh_result world ttl L ev r \<longleftrightarrow> (\<forall>v. r = Inr v \<longrightarrow> seen_at world (fst ev - ttl - int L) (fst ev) v)"

text \<open>Every cached snapshot was read from the base at most \<open>ttl\<close> and one lag before it expires, and not after \<open>b\<close>.\<close>

definition store_seen :: "(int \<Rightarrow> authz_repo) \<Rightarrow> nat \<Rightarrow> int \<Rightarrow> snapshot_store \<Rightarrow> bool" where
  "store_seen world L b st \<longleftrightarrow> (\<forall>k it. ss_items st k = Some it \<longrightarrow>
     seen_at world (se_expires it - ss_ttl st - int L) b (se_snapshot it))"

lemma seen_at_mono: "seen_at world f u v \<Longrightarrow> f' \<le> f \<Longrightarrow> u \<le> u' \<Longrightarrow> seen_at world f' u' v"
  unfolding seen_at_def by (meson order_trans)

lemma store_seen_later: "store_seen world L b st \<Longrightarrow> b \<le> b' \<Longrightarrow> store_seen world L b' st"
  unfolding store_seen_def using seen_at_mono by blast

lemma cached_resolve_seen:
  assumes "store_seen world L now st" and "lag \<le> L"
    and "cached_resolve now lag (world now) m c st = (r, st')"
  shows "store_seen world L now st' \<and> ss_ttl st' = ss_ttl st \<and>
    (\<forall>v. r = Inr v \<longrightarrow> 0 < ss_ttl st \<longrightarrow> seen_at world (now - ss_ttl st - int L) now v)"
proof -
  obtain g st'' where get: "store_get now m c st = (g, st'')" by fastforce
  have kept: "store_seen world L now st''" "ss_ttl st'' = ss_ttl st"
    using assms(1) get by (auto simp: store_seen_def store_get_def split: option.splits if_splits)
  show ?thesis
  proof (cases g)
    case (Some v)
    then obtain it where "ss_items st (authz_key m c) = Some it" "\<not> now > se_expires it" "v = se_snapshot it"
      using get by (auto simp: store_get_def split: option.splits if_splits)
    moreover from this assms(1) have "seen_at world (se_expires it - ss_ttl st - int L) now (se_snapshot it)"
      unfolding store_seen_def by blast
    ultimately have "seen_at world (now - ss_ttl st - int L) now v"
      by (auto elim!: seen_at_mono)
    with Some get kept assms(3) show ?thesis by (auto simp: cached_resolve_def)
  next
    case None
    show ?thesis
    proof (cases "resolver_resolve (world now) m c")
      case (Inl e)
      with None get kept assms(3) show ?thesis by (auto simp: cached_resolve_def)
    next
      case (Inr v)
      with base_owner have own: "ea_membership v = m" "ea_company v = c" by auto
      with Inr have "resolver_resolve (world now) (ea_membership v) (ea_company v) = Inr v" by simp
      then have now: "seen_at world (now + int lag - int L) now v"
        using assms(2) unfolding seen_at_def by (intro exI [of _ now]) simp
      then have "0 < ss_ttl st \<Longrightarrow> seen_at world (now - ss_ttl st - int L) now v"
        by (rule seen_at_mono) simp_all
      with now Inr None get kept assms(3) show ?thesis
        by (auto simp: cached_resolve_def store_put_def store_seen_def split: if_split_asm)
    qed
  qed
qed

text \<open>C30: bounded staleness: in a run of resolutions at non-decreasing times, whatever the access
  does underneath, each effective access returned at time \<open>t\<close> is what the base resolver would have
  answered at some moment of the last \<open>ttl\<close> (plus the largest delay between the two clock readings).\<close>

theorem cached_staleness_bounded:
  assumes "sorted (map fst evs)" and "\<forall>(now, lag, m, c) \<in> set evs. lag \<le> L"
    and "0 < ss_ttl st" and "\<forall>k. ss_items st k = None"
  shows "list_all2 (fresh_result world (ss_ttl st) L) evs (fst (resolve_run world evs st))"
proof -
  have "sorted (map fst evs) \<Longrightarrow> \<forall>(now, lag, m, c) \<in> set evs. lag \<le> L \<Longrightarrow> \<forall>ev \<in> set evs. b \<le> fst ev \<Longrightarrow>
      store_seen world L b s \<Longrightarrow> 0 < ss_ttl s \<Longrightarrow>
      list_all2 (fresh_result world (ss_ttl s) L) evs (fst (resolve_run world evs s))" for b s
  proof (induction evs arbitrary: b s)
    case (Cons ev evs)
    obtain now lag m c where ev: "ev = (now, lag, m, c)" by (cases ev)
    obtain r s' where r: "cached_resolve now lag (world now) m c s = (r, s')" by fastforce
    have "store_seen world L now s" "lag \<le> L" using Cons.prems ev store_seen_later by auto
    note step = cached_resolve_seen [OF this r]
    then have "list_all2 (fresh_result world (ss_ttl s) L) evs (fst (resolve_run world evs s'))"
      using Cons.IH [of now s'] Cons.prems ev by auto
    moreover have "fresh_result world (ss_ttl s) L ev r"
      using step Cons.prems ev by (simp add: fresh_result_def)
    ultimately show ?case using ev r by (simp add: case_prod_beta)
  qed simp
  moreover have "store_seen world L (if evs = [] then 0 else fst (hd evs)) st"
    using assms(4) by (simp add: store_seen_def)
  moreover have "\<forall>ev \<in> set evs. (if evs = [] then 0 else fst (hd evs)) \<le> fst ev"
    using assms(1) by (cases evs) auto
  ultimately show ?thesis using assms(1-3) by blast
qed

text \<open>The revocation of the fixture membership's permissions at time 5, under a cache of 10.\<close>

definition revoked_world :: "int \<Rightarrow> authz_repo" where
  "revoked_world t = inmemory_repo (if t < 5 then wit_repo else wit_repo\<lparr>im_permissions := Map.empty\<rparr>)"

definition wit_events :: "resolve_event list" where
  "wit_events = [(0, 0, ''m_001'', ''c_001''), (9, 0, ''m_001'', ''c_001''), (11, 0, ''m_001'', ''c_001'')]"

theorem cached_staleness_bounded_witness:
  "map (\<lambda>r. ea_permissions (projr r)) (fst (resolve_run revoked_world wit_events (new_inmemory_store 10)))
    = [[''system.settings''], [''system.settings''], []] \<and>
   list_all2 (fresh_result revoked_world 10 0) wit_events
     (fst (resolve_run revoked_world wit_events (new_inmemory_store 10)))"
proof
  show "map (\<lambda>r. ea_permissions (projr r)) (fst (resolve_run revoked_world wit_events (new_inmemory_store 10)))
    = [[''system.settings''], [''system.settings''], []]" by code_simp
next
  have "sorted (map fst wit_events)" "\<forall>(now, lag, m, c) \<in> set wit_events. lag \<le> 0"
    by (simp_all add: wit_events_def)
  from cached_staleness_bounded [OF this, of "new_inmemory_store 10" revoked_world]
  show "list_all2 (fresh_result revoked_world 10 0) wit_events
     (fst (resolve_run revoked_world wit_events (new_inmemory_store 10)))"
    by (simp add: new_inmemory_store_def)
qed

text \<open>C31: no tenant confusion through the cache: an allowed decision of the service over the cached
  resolver always rests on a snapshot of exactly the membership and company the request names, and
  within the ids the platform issues a cached check never answers COMPANY_SCOPE_MISMATCH.\<close>

theorem cached_authorize_own_tenant:
  assumes "authorize (cached_resolve now lag repo) policy req st = (Inr d, st')"
  shows "(dc_verdict d = Allow \<longrightarrow> (\<exists>eff. fst (cached_resolve now lag repo (sub_membership (rq_subject req))
            (sub_company (rq_subject req)) st) = Inr eff \<and>
          ea_membership eff = sub_membership (rq_subject req) \<and> ea_company eff = sub_company (rq_subject req))) \<and>
    (store_ok st \<longrightarrow> plain_id (sub_membership (rq_subject req)) \<longrightarrow>
      store_ok st' \<and> dc_deny d \<noteq> Some CodeCompanyScopeMismatch)"
proof -
  obtain eff pol where "cached_resolve now lag repo (sub_membership (rq_subject req)) (sub_company (rq_subject req)) st = (Inr eff, st')"
    and "d = check_access req eff pol"
    using assms by (auto simp: authorize_def seq_iffs split: if_splits)
  then have "dc_verdict d = Allow \<Longrightarrow> ea_membership eff = sub_membership (rq_subject req) \<and>
      ea_company eff = sub_company (rq_subject req)"
    using check_allow_tenant by blast
  moreover have "store_ok st \<Longrightarrow> plain_id (sub_membership (rq_subject req)) \<Longrightarrow> store_ok st'"
    using cached.authorize_inv [of st req now lag repo policy] assms by simp
  ultimately show ?thesis
    using cached.authorize_no_mismatch assms
      \<open>cached_resolve now lag repo (sub_membership (rq_subject req)) (sub_company (rq_subject req)) st = (Inr eff, st')\<close>
    by (metis fst_conv)
qed

theorem cached_authorize_own_tenant_witness:
  "\<exists>eff. fst (cached_resolve 7 0 (inmemory_repo wit_repo) ''m_001'' ''c_001'' (new_inmemory_store 10)) = Inr eff \<and>
    ea_membership eff = ''m_001'' \<and> ea_company eff = ''c_001''"
proof -
  let ?req = "\<lparr>rq_subject = wit_subject, rq_action = ''rbac.grant'', rq_resource = wit_resource\<rparr>"
  let ?p = "authorize (cached_resolve 7 0 (inmemory_repo wit_repo)) (ar_policy (inmemory_repo wit_repo)) ?req (new_inmemory_store 10)"
  have ok: "?p = (Inr (projr (fst ?p)), snd ?p)" by (rule run_projr) code_simp
  have "dc_verdict (projr (fst ?p)) = Allow" by code_simp
  with cached_authorize_own_tenant [OF ok] show ?thesis by (simp add: wit_subject_def)
qed

end
