(* ===== verification/Tokens.thy ===== *)
theory Tokens
  imports HttpErrors
begin

section \<open>Access, pre-company and refresh tokens\<close>

text \<open>
  Models the token managers of \<^verbatim>\<open>internal/iam/infra/token\<close>: the opaque manager (the in-memory
  manager of \<^verbatim>\<open>internal/iam/infra/inmemory/tokens.go\<close> has the same code), the JWT manager and the
  dual manager of the migration window. Every manager is a record of operations \<open>token_ops\<close> on its
  own state; the locale \<open>token_manager\<close> states what the IAM service and the handlers rely on: a
  token that was issued is inspected to exactly its claims, and keeps being so while other tokens
  are issued. Signing and parsing a JWT belong to a library and are parameters.
\<close>

subsection \<open>Claims and the manager interface\<close>

record access_claims =
  ac_sub :: string
  ac_session :: string
  ac_membership :: string
  ac_company :: string

record pre_claims =
  pc_sub :: string
  pc_session :: string

record 'tk token_ops =
  to_issue_access :: "access_claims \<Rightarrow> (go_error, 'tk, string \<times> int) action"
  to_issue_pre :: "string \<Rightarrow> string \<Rightarrow> (go_error, 'tk, string \<times> int) action"
  to_issue_refresh :: "string \<Rightarrow> string \<Rightarrow> (go_error, 'tk, string) action"
  to_inspect_access :: "string \<Rightarrow> 'tk \<Rightarrow> go_error + access_claims"
  to_inspect_pre :: "string \<Rightarrow> 'tk \<Rightarrow> go_error + pre_claims"

definition session_expired :: "string \<Rightarrow> go_error" where
  "session_expired msg = new_http_error 401 CodeSessionExpired msg"

subsection \<open>The opaque manager\<close>

record opaque_manager =
  om_ids :: idgen
  om_access :: "string \<rightharpoonup> access_claims"
  om_pre :: "string \<rightharpoonup> pre_claims"

definition new_opaque :: "idgen \<Rightarrow> opaque_manager" where
  "new_opaque g = \<lparr>om_ids = g, om_access = Map.empty, om_pre = Map.empty\<rparr>"

definition opaque_issue_access :: "access_claims \<Rightarrow> (go_error, opaque_manager, string \<times> int) action" where
  "opaque_issue_access cl m =
    (let t = next_token ''atk_'' (om_ids m); g = snd (new_uuid (om_ids m))
     in (Inr (t, 900), m\<lparr>om_ids := g, om_access := (om_access m)(t \<mapsto> cl)\<rparr>))"

definition opaque_issue_pre :: "string \<Rightarrow> string \<Rightarrow> (go_error, opaque_manager, string \<times> int) action" where
  "opaque_issue_pre user session m =
    (let t = next_token ''ptk_'' (om_ids m); g = snd (new_uuid (om_ids m))
     in (Inr (t, 900), m\<lparr>om_ids := g, om_pre := (om_pre m)(t \<mapsto> \<lparr>pc_sub = user, pc_session = session\<rparr>)\<rparr>))"

definition opaque_issue_refresh :: "string \<Rightarrow> string \<Rightarrow> (go_error, opaque_manager, string) action" where
  "opaque_issue_refresh session user m =
    (Inr (next_token ''rtk_'' (om_ids m)), m\<lparr>om_ids := snd (new_uuid (om_ids m))\<rparr>)"

definition opaque_inspect_access :: "string \<Rightarrow> opaque_manager \<Rightarrow> go_error + access_claims" where
  "opaque_inspect_access t m = (case om_access m t of
     None \<Rightarrow> Inl (session_expired ''invalid access token'') | Some cl \<Rightarrow> Inr cl)"

definition opaque_inspect_pre :: "string \<Rightarrow> opaque_manager \<Rightarrow> go_error + pre_claims" where
  "opaque_inspect_pre t m = (case om_pre m t of
     None \<Rightarrow> Inl (session_expired ''invalid pre-company token'') | Some cl \<Rightarrow> Inr cl)"

definition opaque_ops :: "opaque_manager token_ops" where
  "opaque_ops = \<lparr>to_issue_access = opaque_issue_access, to_issue_pre = opaque_issue_pre,
     to_issue_refresh = opaque_issue_refresh, to_inspect_access = opaque_inspect_access,
     to_inspect_pre = opaque_inspect_pre\<rparr>"

subsection \<open>The JWT manager\<close>

datatype jwt_method = HS256 | EdDSA | ES256

record jwt_config =
  jc_alg :: string
  jc_key_pem :: string
  jc_issuer :: string
  jc_audience :: string
  jc_ttl :: int
  jc_skew_sec :: int

text \<open>The registered and private claims of an access JWT; instants are nanoseconds.\<close>

record jwt_claims =
  jw_session :: string
  jw_membership :: string
  jw_company :: string
  jw_type :: string
  jw_sub :: string
  jw_issuer :: string
  jw_audience :: "string list"
  jw_issued :: int
  jw_expires :: int
  jw_id :: string

text \<open>What the JWT library offers: parsing key material, signing, and parsing with its options
  (method, issuer, audience, leeway) at an instant. Keys are of an unknown type.\<close>

record 'k jwt_library =
  jl_hmac :: "string \<Rightarrow> 'k"
  jl_ed_key :: "string \<Rightarrow> go_error + 'k"
  jl_ec_key :: "string \<Rightarrow> go_error + 'k"
  jl_sign :: "jwt_method \<Rightarrow> 'k \<Rightarrow> jwt_claims \<Rightarrow> go_error + string"
  jl_parse :: "jwt_method \<Rightarrow> 'k \<Rightarrow> string \<Rightarrow> string \<Rightarrow> int \<Rightarrow> int \<Rightarrow> string \<Rightarrow> go_error + jwt_claims"

definition to_upper_ascii :: "string \<Rightarrow> string" where
  "to_upper_ascii s = map char_upper s"

definition signing_material :: "'k jwt_library \<Rightarrow> jwt_config \<Rightarrow> go_error + jwt_method \<times> 'k" where
  "signing_material lib cfg =
    (let alg0 = to_upper_ascii (trim_space (jc_alg cfg)); alg = (if alg0 = [] then ''EDDSA'' else alg0) in
     if alg = ''HS256'' then
       (let secret = trim_space (jc_key_pem cfg) in
        if secret = [] then Inl (PlainErr ''JWT_SIGNING_PRIVATE_KEY_PEM required for HS256'')
        else Inr (HS256, jl_hmac lib secret))
     else if alg = ''EDDSA'' then
       (case jl_ed_key lib (jc_key_pem cfg) of
          Inl e \<Rightarrow> Inl (WrapErr ''parse ed25519 private key'' e) | Inr k \<Rightarrow> Inr (EdDSA, k))
     else if alg = ''ES256'' then
       (case jl_ec_key lib (jc_key_pem cfg) of
          Inl e \<Rightarrow> Inl (WrapErr ''parse ecdsa private key'' e) | Inr k \<Rightarrow> Inr (ES256, k))
     else Inl (PlainErr (''unsupported JWT_ALG: '' @ jc_alg cfg)))"

record 'k jwt_manager =
  jm_cfg :: jwt_config
  jm_key :: "go_error + jwt_method \<times> 'k"
  jm_fallback :: opaque_manager
  jm_ids :: idgen

definition new_jwt :: "'k jwt_library \<Rightarrow> jwt_config \<Rightarrow> idgen \<Rightarrow> opaque_manager \<Rightarrow> 'k jwt_manager" where
  "new_jwt lib cfg g om = \<lparr>jm_cfg = cfg, jm_key = signing_material lib cfg, jm_fallback = om, jm_ids = g\<rparr>"

definition access_ttl :: "jwt_config \<Rightarrow> int" where
  "access_ttl cfg = (if jc_ttl cfg \<le> 0 then 15 * 60 * 1000000000 else jc_ttl cfg)"

definition jwt_issue_access :: "'k jwt_library \<Rightarrow> int \<Rightarrow> access_claims \<Rightarrow> (go_error, 'k jwt_manager, string \<times> int) action" where
  "jwt_issue_access lib now cl m = (case jm_key m of
      Inl e \<Rightarrow> (Inl e, m)
    | Inr (meth, key) \<Rightarrow>
       (let ttl = access_ttl (jm_cfg m); (u, g) = new_uuid (jm_ids m);
            ac = \<lparr>jw_session = ac_session cl, jw_membership = ac_membership cl, jw_company = ac_company cl,
              jw_type = ''access'', jw_sub = ac_sub cl, jw_issuer = jc_issuer (jm_cfg m),
              jw_audience = [jc_audience (jm_cfg m)], jw_issued = now, jw_expires = now + ttl, jw_id = u\<rparr>;
            m' = m\<lparr>jm_ids := g\<rparr>
        in case jl_sign lib meth key ac of
             Inl e \<Rightarrow> (Inl (WrapErr ''sign jwt'' e), m')
           | Inr t \<Rightarrow> (Inr (t, ttl div 1000000000), m')))"

definition jwt_inspect_access :: "'k jwt_library \<Rightarrow> int \<Rightarrow> string \<Rightarrow> 'k jwt_manager \<Rightarrow> go_error + access_claims" where
  "jwt_inspect_access lib now t m = (case jm_key m of
      Inl e \<Rightarrow> Inl (HTTPErr 401 CodeSessionExpired ''invalid access token'' [] (Some e))
    | Inr (meth, key) \<Rightarrow>
       (case jl_parse lib meth key (jc_issuer (jm_cfg m)) (jc_audience (jm_cfg m))
            (max (jc_skew_sec (jm_cfg m)) 0 * 1000000000) now t of
          Inl e \<Rightarrow> Inl (HTTPErr 401 CodeSessionExpired ''invalid access token'' [] (Some e))
        | Inr c \<Rightarrow>
            if jw_type c \<noteq> [] \<and> jw_type c \<noteq> ''access'' then Inl (session_expired ''invalid access token type'')
            else Inr \<lparr>ac_sub = jw_sub c, ac_session = jw_session c, ac_membership = jw_membership c,
                   ac_company = jw_company c\<rparr>))"

definition on_fallback :: "(go_error, opaque_manager, 'a) action \<Rightarrow> (go_error, 'k jwt_manager, 'a) action" where
  "on_fallback act m = (let (r, om) = act (jm_fallback m) in (r, m\<lparr>jm_fallback := om\<rparr>))"

definition jwt_ops :: "'k jwt_library \<Rightarrow> int \<Rightarrow> 'k jwt_manager token_ops" where
  "jwt_ops lib now = \<lparr>to_issue_access = jwt_issue_access lib now,
     to_issue_pre = (\<lambda>u s. on_fallback (opaque_issue_pre u s)),
     to_issue_refresh = (\<lambda>s u. on_fallback (opaque_issue_refresh s u)),
     to_inspect_access = jwt_inspect_access lib now,
     to_inspect_pre = (\<lambda>t m. opaque_inspect_pre t (jm_fallback m))\<rparr>"

subsection \<open>The dual manager\<close>

text \<open>Issues JWTs, inspects a token of three segments as a JWT first and any token as opaque.\<close>

definition dual_inspect_access :: "'k jwt_library \<Rightarrow> int \<Rightarrow> string \<Rightarrow> 'k jwt_manager \<Rightarrow> go_error + access_claims" where
  "dual_inspect_access lib now t m =
    (if length (filter (\<lambda>c. c = CHR ''.'') t) = 2 then
       (case jwt_inspect_access lib now t m of
          Inr cl \<Rightarrow> Inr cl
        | Inl e \<Rightarrow> opaque_inspect_access t (jm_fallback m))
     else opaque_inspect_access t (jm_fallback m))"

definition dual_ops :: "'k jwt_library \<Rightarrow> int \<Rightarrow> 'k jwt_manager token_ops" where
  "dual_ops lib now = (jwt_ops lib now)\<lparr>to_inspect_access := dual_inspect_access lib now\<rparr>"

subsection \<open>The contract of a token manager\<close>

definition issues :: "'tk token_ops \<Rightarrow> 'tk \<Rightarrow> 'tk \<Rightarrow> bool" where
  "issues ops m m' \<longleftrightarrow> (\<exists>cl r. to_issue_access ops cl m = (r, m')) \<or> (\<exists>u s r. to_issue_pre ops u s m = (r, m')) \<or>
     (\<exists>s u r. to_issue_refresh ops s u m = (r, m'))"

locale token_manager =
  fixes ops :: "'tk token_ops" and inv :: "'tk \<Rightarrow> bool"
  assumes issue_inv: "inv m \<Longrightarrow> issues ops m m' \<Longrightarrow> inv m'"
    and access_round: "inv m \<Longrightarrow> to_issue_access ops cl m = (Inr (t, e), m') \<Longrightarrow> to_inspect_access ops t m' = Inr cl"
    and access_kept: "inv m \<Longrightarrow> to_inspect_access ops t m = Inr cl \<Longrightarrow> issues ops m m' \<Longrightarrow> to_inspect_access ops t m' = Inr cl"
    and pre_round: "inv m \<Longrightarrow> to_issue_pre ops u s m = (Inr (t, e), m') \<Longrightarrow>
      to_inspect_pre ops t m' = Inr \<lparr>pc_sub = u, pc_session = s\<rparr>"
    and pre_kept: "inv m \<Longrightarrow> to_inspect_pre ops t m = Inr pc \<Longrightarrow> issues ops m m' \<Longrightarrow> to_inspect_pre ops t m' = Inr pc"
    and refresh_total: "inv m \<Longrightarrow> \<exists>t m'. to_issue_refresh ops s u m = (Inr t, m')"
begin

inductive reach :: "'tk \<Rightarrow> 'tk \<Rightarrow> bool" where
  reach_refl: "reach m m"
| reach_step: "reach m m' \<Longrightarrow> issues ops m' m'' \<Longrightarrow> reach m m''"

lemma reach_inv: "reach m m' \<Longrightarrow> inv m \<Longrightarrow> inv m'"
  by (induction rule: reach.induct) (auto intro: issue_inv)

lemma access_reach: "reach m m' \<Longrightarrow> inv m \<Longrightarrow> to_inspect_access ops t m = Inr cl \<Longrightarrow> to_inspect_access ops t m' = Inr cl"
  by (induction rule: reach.induct) (blast intro: access_kept reach_inv)+

lemma issued_access_valid:
  assumes "inv m" and "to_issue_access ops cl m = (Inr (t, e), m')" and "reach m' m''"
  shows "to_inspect_access ops t m'' = Inr cl"
  using assms access_round access_reach issue_inv unfolding issues_def by metis

end

text \<open>What the sessions rely on besides: a refresh token was never issued before.\<close>

locale refresh_tokens = token_manager ops inv for ops :: "'tk token_ops" and inv :: "'tk \<Rightarrow> bool" +
  fixes issued :: "'tk \<Rightarrow> string \<Rightarrow> bool"
  assumes refresh_new: "inv m \<Longrightarrow> to_issue_refresh ops s u m = (Inr t, m') \<Longrightarrow> \<not> issued m t \<and> issued m' t"
    and issued_kept: "inv m \<Longrightarrow> issues ops m m' \<Longrightarrow> issued m x \<Longrightarrow> issued m' x"

subsection \<open>The opaque manager meets the contract\<close>

definition opaque_ok :: "opaque_manager \<Rightarrow> bool" where
  "opaque_ok m \<longleftrightarrow> fresh_ids (om_ids m) \<and>
     (\<forall>t cl. om_access m t = Some cl \<longrightarrow> issued_as ''atk_'' (om_ids m) t) \<and>
     (\<forall>t pc. om_pre m t = Some pc \<longrightarrow> issued_as ''ptk_'' (om_ids m) t)"

lemma new_opaque_ok: "fresh_ids g \<Longrightarrow> opaque_ok (new_opaque g)"
  by (simp add: opaque_ok_def new_opaque_def)

lemmas opaque_issue_defs = opaque_issue_access_def opaque_issue_pre_def opaque_issue_refresh_def Let_def

lemma opaque_issues_cases:
  assumes "issues opaque_ops m m'"
  obtains (access) cl where "m' = m\<lparr>om_ids := snd (new_uuid (om_ids m)),
      om_access := (om_access m)(next_token ''atk_'' (om_ids m) \<mapsto> cl)\<rparr>"
    | (pre) pc where "m' = m\<lparr>om_ids := snd (new_uuid (om_ids m)),
      om_pre := (om_pre m)(next_token ''ptk_'' (om_ids m) \<mapsto> pc)\<rparr>"
    | (refresh) "m' = m\<lparr>om_ids := snd (new_uuid (om_ids m))\<rparr>"
  using assms unfolding issues_def by (auto simp: opaque_ops_def opaque_issue_defs)

lemma opaque_unused:
  assumes "opaque_ok m"
  shows "om_access m (next_token ''atk_'' (om_ids m)) = None" and "om_pre m (next_token ''ptk_'' (om_ids m)) = None"
  using assms next_token_unissued unfolding opaque_ok_def by (metis option.exhaust)+

interpretation opaque: token_manager opaque_ops opaque_ok
proof unfold_locales
  fix m m' assume "opaque_ok m" and "issues opaque_ops m m'"
  from this(2) this(1) show "opaque_ok m'"
    by (cases rule: opaque_issues_cases) (auto simp: opaque_ok_def)
next
  fix m m' t cl assume ok: "opaque_ok m" and t: "to_inspect_access opaque_ops t m = Inr cl"
    and iss: "issues opaque_ops m m'"
  have "om_access m t = Some cl" using t by (simp add: opaque_ops_def opaque_inspect_access_def split: option.splits)
  with iss opaque_unused(1) [OF ok] have "om_access m' t = Some cl"
    by (cases rule: opaque_issues_cases) auto
  then show "to_inspect_access opaque_ops t m' = Inr cl" by (simp add: opaque_ops_def opaque_inspect_access_def)
next
  fix m m' t pc assume ok: "opaque_ok m" and t: "to_inspect_pre opaque_ops t m = Inr pc"
    and iss: "issues opaque_ops m m'"
  have "om_pre m t = Some pc" using t by (simp add: opaque_ops_def opaque_inspect_pre_def split: option.splits)
  with iss opaque_unused(2) [OF ok] have "om_pre m' t = Some pc"
    by (cases rule: opaque_issues_cases) auto
  then show "to_inspect_pre opaque_ops t m' = Inr pc" by (simp add: opaque_ops_def opaque_inspect_pre_def)
qed (auto simp: opaque_ops_def opaque_issue_defs opaque_inspect_access_def opaque_inspect_pre_def)

definition opaque_issued :: "opaque_manager \<Rightarrow> string \<Rightarrow> bool" where
  "opaque_issued m t \<longleftrightarrow> issued_as ''rtk_'' (om_ids m) t"

interpretation opaque_refresh: refresh_tokens opaque_ops opaque_ok opaque_issued
proof unfold_locales
  fix m s u t m' assume "opaque_ok m" "to_issue_refresh opaque_ops s u m = (Inr t, m')"
  then show "\<not> opaque_issued m t \<and> opaque_issued m' t"
    using next_token_unissued by (auto simp: opaque_ok_def opaque_issued_def opaque_ops_def opaque_issue_defs)
next
  fix m m' x assume "opaque_ok m" "issues opaque_ops m m'" "opaque_issued m x"
  from this(2,3) show "opaque_issued m' x"
    by (cases rule: opaque_issues_cases) (simp_all add: opaque_issued_def)
qed

lemma opaque_kinds:
  assumes "opaque_ok m"
  shows "opaque_inspect_pre (''atk_'' @ u) m = Inl (session_expired ''invalid pre-company token'')"
    and "opaque_inspect_access (''ptk_'' @ u) m = Inl (session_expired ''invalid access token'')"
proof -
  have "\<not> issued_as ''ptk_'' (om_ids m) (''atk_'' @ u)" "\<not> issued_as ''atk_'' (om_ids m) (''ptk_'' @ u)"
    by (simp_all add: issued_as_def)
  with assms have "om_pre m (''atk_'' @ u) = None" "om_access m (''ptk_'' @ u) = None"
    unfolding opaque_ok_def by (metis option.exhaust)+
  then show "opaque_inspect_pre (''atk_'' @ u) m = Inl (session_expired ''invalid pre-company token'')"
    and "opaque_inspect_access (''ptk_'' @ u) m = Inl (session_expired ''invalid access token'')"
    unfolding opaque_inspect_pre_def opaque_inspect_access_def by (simp_all only: option.case)
qed

subsection \<open>Properties\<close>

text \<open>An opaque access token names its principal for as long as the process runs: whatever tokens
  are issued later, inspecting it gives exactly the claims it was issued for, and it is never accepted
  where a pre-company token is expected.\<close>

theorem opaque_access_token_sound:
  assumes "opaque_ok m" and "opaque_issue_access cl m = (Inr (t, e), m')"
    and "token_manager.reach opaque_ops m' m''"
  shows "opaque_inspect_access t m'' = Inr cl \<and> e = 900 \<and>
    opaque_inspect_pre t m'' = Inl (session_expired ''invalid pre-company token'')"
proof -
  have iss: "to_issue_access opaque_ops cl m = (Inr (t, e), m')" using assms(2) by (simp add: opaque_ops_def)
  have "opaque_ok m''"
    using opaque.reach_inv [OF assms(3)] opaque.issue_inv [OF assms(1)] iss unfolding issues_def by blast
  moreover obtain u where "t = ''atk_'' @ u" and "e = 900"
    using assms(2) by (auto simp: opaque_issue_defs next_token_def)
  ultimately show ?thesis
    using opaque.issued_access_valid [OF assms(1) iss assms(3)] opaque_kinds(1) by (simp add: opaque_ops_def)
qed

theorem opaque_access_token_sound_witness:
  "opaque_inspect_access ''atk_id'' (snd (opaque_issue_pre ''u2'' ''s2'' (snd (opaque_issue_access
      \<lparr>ac_sub = ''u1'', ac_session = ''s1'', ac_membership = ''m1'', ac_company = ''c1''\<rparr> (new_opaque tally_ids)))))
   = Inr \<lparr>ac_sub = ''u1'', ac_session = ''s1'', ac_membership = ''m1'', ac_company = ''c1''\<rparr>"
proof -
  let ?cl = "\<lparr>ac_sub = ''u1'', ac_session = ''s1'', ac_membership = ''m1'', ac_company = ''c1''\<rparr>"
  let ?m = "snd (opaque_issue_access ?cl (new_opaque tally_ids))"
  have i: "opaque_issue_access ?cl (new_opaque tally_ids) = (Inr (''atk_id'', 900), ?m)"
    by (simp add: opaque_issue_defs new_opaque_def tally_ids_def next_token_def)
  have "issues opaque_ops ?m (snd (opaque_issue_pre ''u2'' ''s2'' ?m))"
    unfolding issues_def opaque_ops_def by (simp add: prod_eq_iff) blast
  then have "token_manager.reach opaque_ops ?m (snd (opaque_issue_pre ''u2'' ''s2'' ?m))"
    by (blast intro: opaque.reach.intros)
  from opaque_access_token_sound [OF new_opaque_ok [OF fresh_tally_ids] i this] show ?thesis by blast
qed

text \<open>What the services rely on of the JWT library: it accepts what it signed while issuer, audience and
  expiry (with the leeway) match, and its compact form has three segments.\<close>

definition jwt_library_sound :: "'k jwt_library \<Rightarrow> bool" where
  "jwt_library_sound lib \<longleftrightarrow> (\<forall>meth key c t. jl_sign lib meth key c = Inr t \<longrightarrow>
     length (filter (\<lambda>x. x = CHR ''.'') t) = 2 \<and>
     (\<forall>aud lw n. aud \<in> set (jw_audience c) \<longrightarrow> n < jw_expires c + lw \<longrightarrow>
        jl_parse lib meth key (jw_issuer c) aud lw n t = Inr c))"

definition dot_free_ids :: "idgen \<Rightarrow> bool" where
  "dot_free_ids g \<longleftrightarrow> (\<forall>i. CHR ''.'' \<notin> set (ig_supply g i))"

lemma dual_accepts_jwt:
  assumes lib: "jwt_library_sound lib" and iss: "jwt_issue_access lib now cl m = (Inr (t, e), m')"
    and time: "n < now + access_ttl (jm_cfg m)"
  shows "dual_inspect_access lib n t m' = Inr cl"
proof -
  obtain meth key c where key: "jm_key m = Inr (meth, key)" and sign: "jl_sign lib meth key c = Inr t"
    and m': "jm_key m' = jm_key m" "jm_cfg m' = jm_cfg m"
    and c: "jw_issuer c = jc_issuer (jm_cfg m)" "jw_audience c = [jc_audience (jm_cfg m)]"
      "jw_expires c = now + access_ttl (jm_cfg m)" "jw_type c = ''access''"
      "cl = \<lparr>ac_sub = jw_sub c, ac_session = jw_session c, ac_membership = jw_membership c, ac_company = jw_company c\<rparr>"
    using iss by (auto simp: jwt_issue_access_def Let_def new_uuid_def split: sum.splits)
  have dots: "length (filter (\<lambda>x. x = CHR ''.'') t) = 2"
    and parse: "\<forall>aud lw n. aud \<in> set (jw_audience c) \<longrightarrow> n < jw_expires c + lw \<longrightarrow>
        jl_parse lib meth key (jw_issuer c) aud lw n t = Inr c"
    using lib sign unfolding jwt_library_sound_def by blast+
  have "jl_parse lib meth key (jw_issuer c) (jc_audience (jm_cfg m))
      (max (jc_skew_sec (jm_cfg m)) 0 * 1000000000) n t = Inr c"
    by (rule parse [rule_format]) (use c time in simp_all)
  with key m' c have "jwt_inspect_access lib n t m' = Inr cl" by (simp add: jwt_inspect_access_def)
  with dots show ?thesis by (simp add: dual_inspect_access_def)
qed

lemma dual_accepts_opaque:
  assumes "opaque_ok (jm_fallback m)" and "dot_free_ids (om_ids (jm_fallback m))"
    and t: "opaque_inspect_access t (jm_fallback m) = Inr cl"
  shows "dual_inspect_access lib n t m = Inr cl"
proof -
  have "om_access (jm_fallback m) t = Some cl"
    using t by (simp add: opaque_inspect_access_def split: option.splits)
  with assms(1) have "issued_as ''atk_'' (om_ids (jm_fallback m)) t" by (simp add: opaque_ok_def)
  then obtain i where "t = ''atk_'' @ ig_supply (om_ids (jm_fallback m)) i" unfolding issued_as_def by blast
  with assms(2) have "CHR ''.'' \<notin> set t" by (auto simp: dot_free_ids_def)
  then have "filter (\<lambda>x. x = CHR ''.'') t = []" by (auto simp: filter_empty_conv)
  with t show ?thesis by (simp add: dual_inspect_access_def)
qed

text \<open>The migration window: for a JWT library that accepts what it signed, the dual manager
  inspects every JWT it issued to its claims until the token expires, and it still
  accepts every opaque access token issued before, provided ids contain no dot.\<close>

theorem dual_accepts_both:
  assumes "jwt_library_sound lib" and "opaque_ok (jm_fallback m)" and "dot_free_ids (om_ids (jm_fallback m))"
  shows "(\<forall>now cl t e m' n. jwt_issue_access lib now cl m = (Inr (t, e), m') \<longrightarrow> n < now + access_ttl (jm_cfg m) \<longrightarrow>
      dual_inspect_access lib n t m' = Inr cl) \<and>
    (\<forall>n t cl. opaque_inspect_access t (jm_fallback m) = Inr cl \<longrightarrow> dual_inspect_access lib n t m = Inr cl)"
  using assms dual_accepts_jwt dual_accepts_opaque by blast

text \<open>A library that signs one set of claims, with a fixed compact form.\<close>

definition one_claim :: jwt_claims where
  "one_claim = \<lparr>jw_session = ''s1'', jw_membership = ''m1'', jw_company = ''c1'', jw_type = ''access'', jw_sub = ''u1'',
     jw_issuer = ''cobo'', jw_audience = [''api''], jw_issued = 0, jw_expires = 900000000000, jw_id = ''id''\<rparr>"

definition one_claim_library :: "unit jwt_library" where
  "one_claim_library = \<lparr>jl_hmac = (\<lambda>_. ()), jl_ed_key = (\<lambda>_. Inr ()), jl_ec_key = (\<lambda>_. Inr ()),
     jl_sign = (\<lambda>_ _ c. if c = one_claim then Inr ''h.p.s'' else Inl (PlainErr ''refused'')),
     jl_parse = (\<lambda>_ _ iss aud lw n t. if t = ''h.p.s'' \<and> iss = ''cobo'' \<and> aud = ''api'' \<and> n < 900000000000 + lw
        then Inr one_claim else Inl (PlainErr ''invalid''))\<rparr>"

theorem dual_accepts_both_witness:
  "dual_inspect_access one_claim_library 5 ''h.p.s'' (snd (jwt_issue_access one_claim_library 0
      \<lparr>ac_sub = ''u1'', ac_session = ''s1'', ac_membership = ''m1'', ac_company = ''c1''\<rparr>
      (new_jwt one_claim_library \<lparr>jc_alg = ''hs256'', jc_key_pem = ''k'', jc_issuer = ''cobo'', jc_audience = ''api'',
         jc_ttl = 0, jc_skew_sec = 0\<rparr> tally_ids (new_opaque tally_ids))))
   = Inr \<lparr>ac_sub = ''u1'', ac_session = ''s1'', ac_membership = ''m1'', ac_company = ''c1''\<rparr>"
proof -
  let ?cl = "\<lparr>ac_sub = ''u1'', ac_session = ''s1'', ac_membership = ''m1'', ac_company = ''c1''\<rparr>"
  let ?m = "new_jwt one_claim_library \<lparr>jc_alg = ''hs256'', jc_key_pem = ''k'', jc_issuer = ''cobo'', jc_audience = ''api'',
         jc_ttl = 0, jc_skew_sec = 0\<rparr> tally_ids (new_opaque tally_ids)"
  have lib: "jwt_library_sound one_claim_library"
    by (simp add: jwt_library_sound_def one_claim_library_def one_claim_def)
  have ok: "opaque_ok (jm_fallback ?m)" by (simp add: new_jwt_def new_opaque_ok fresh_tally_ids)
  have dot: "dot_free_ids (om_ids (jm_fallback ?m))"
    by (simp add: dot_free_ids_def new_jwt_def new_opaque_def tally_ids_def)
  have key: "jm_key ?m = Inr (HS256, ())" by code_simp
  have ttl: "access_ttl (jm_cfg ?m) = 900000000000" by (simp add: access_ttl_def new_jwt_def)
  have "fst (jwt_issue_access one_claim_library 0 ?cl ?m) = Inr (''h.p.s'', 900)"
    using key ttl by (simp add: jwt_issue_access_def new_uuid_def)
      (simp add: one_claim_library_def one_claim_def new_jwt_def tally_ids_def)
  then have "jwt_issue_access one_claim_library 0 ?cl ?m =
      (Inr (''h.p.s'', 900), snd (jwt_issue_access one_claim_library 0 ?cl ?m))"
    by (simp add: prod_eq_iff)
  with dual_accepts_both [OF lib ok dot] ttl show ?thesis by fastforce
qed

end
