(* ===== verification/Sql.thy ===== *)
theory Sql
  imports HttpErrors
begin

section \<open>Statements on lists of rows\<close>

text \<open>
  What the MySQL repositories share: a table is the list of its rows in the order of insertion, an
  UPDATE or DELETE reports the rows it changed (the driver does not count rows that match but keep
  their values, as the deployment does not set \<open>clientFoundRows\<close>), NULL is \<open>None\<close>, and a
  violated key is an opaque error of the driver.
\<close>

definition null_if_empty :: "string \<Rightarrow> string option" where
  "null_if_empty s = (if s = [] then None else Some s)"

definition if_null :: "string option \<Rightarrow> string" where
  "if_null x = (case x of None \<Rightarrow> [] | Some s \<Rightarrow> s)"

text \<open>\<open>UPDATE ... SET f WHERE P\<close>: the rows that change, and how many they are.\<close>

definition sql_update :: "('r \<Rightarrow> bool) \<Rightarrow> ('r \<Rightarrow> 'r) \<Rightarrow> 'r list \<Rightarrow> nat \<times> 'r list" where
  "sql_update P f rows = (length (filter (\<lambda>r. P r \<and> f r \<noteq> r) rows), map (\<lambda>r. if P r then f r else r) rows)"

definition expect_changed :: "go_error \<Rightarrow> nat \<times> 'r list \<Rightarrow> (go_error + unit) \<times> 'r list" where
  "expect_changed e res = (if fst res = 0 then (Inl e, snd res) else (Inr (), snd res))"

text \<open>\<open>DELETE ... WHERE P\<close>.\<close>

definition sql_delete :: "('r \<Rightarrow> bool) \<Rightarrow> 'r list \<Rightarrow> nat \<times> 'r list" where
  "sql_delete P rows = (length (filter P rows), filter (\<lambda>r. \<not> P r) rows)"

subsection \<open>Violated keys\<close>

definition duplicate_key :: go_error where
  "duplicate_key = PlainErr ''Error 1062: Duplicate entry''"

definition foreign_key :: go_error where
  "foreign_key = PlainErr ''Error 1452: Cannot add or update a child row''"

lemma sql_update_simps [simp]: "snd (sql_update P f rows) = map (\<lambda>r. if P r then f r else r) rows"
  "fst (sql_update P f rows) = 0 \<longleftrightarrow> (\<forall>r \<in> set rows. P r \<longrightarrow> f r = r)"
  by (auto simp: sql_update_def filter_empty_conv)

lemma sql_delete_simps [simp]: "snd (sql_delete P rows) = filter (\<lambda>r. \<not> P r) rows"
  "fst (sql_delete P rows) = 0 \<longleftrightarrow> (\<forall>r \<in> set rows. \<not> P r)"
  by (auto simp: sql_delete_def filter_empty_conv)

end
