(* ===== verification/Sessions.thy ===== *)
theory Sessions
  imports Tokens Sql
begin

section \<open>Session repositories\<close>

text \<open>
  Models \<^verbatim>\<open>internal/iam/infra/inmemory/sessions.go\<close> and
  \<^verbatim>\<open>internal/iam/infra/mysql/sessions.go\<close>. In memory two maps point to the same session
  object: the model has the objects in a list of cells, and both maps hold addresses, so that an
  update through one map is seen through the other. The MySQL repository is the rows of its table;
  an UPDATE reports the number of rows it changed, as the driver does with the DSN of the
  deployment. The hash of refresh tokens is a parameter. The locale \<open>session_repository\<close> states
  the port in terms of the live sessions by token; both repositories interpret it.
\<close>

subsection \<open>The port\<close>

record session_state =
  sn_id :: string
  sn_user :: string
  sn_membership :: string
  sn_company :: string
  sn_token :: string
  sn_revoked :: bool
  sn_ip :: string
  sn_agent :: string

record create_params =
  cp_session :: string
  cp_user :: string
  cp_membership :: string
  cp_company :: string
  cp_token :: string
  cp_ip :: string
  cp_agent :: string

record 'se session_ops =
  so_create :: "create_params \<Rightarrow> (go_error, 'se, unit) action"
  so_find :: "string \<Rightarrow> 'se \<Rightarrow> go_error + session_state"
  so_revoke_token :: "string \<Rightarrow> (go_error, 'se, unit) action"
  so_update :: "string \<Rightarrow> string \<Rightarrow> string \<Rightarrow> (go_error, 'se, unit) action"
  so_rotate :: "string \<Rightarrow> string \<Rightarrow> (go_error, 'se, unit) action"
  so_list :: "string \<Rightarrow> 'se \<Rightarrow> session_state list"
  so_revoke_id :: "string \<Rightarrow> string \<Rightarrow> (go_error, 'se, unit) action"
  so_revoke_user :: "string \<Rightarrow> string \<Rightarrow> (go_error, 'se, unit) action"

definition session_gone :: go_error where
  "session_gone = session_expired ''session expired''"

definition session_missing :: go_error where
  "session_missing = new_http_error 404 CodeMembershipNotFound ''session not found''"

subsection \<open>The in-memory repository\<close>

record session_heap =
  sh_cells :: "session_state list"
  sh_by_token :: "string \<rightharpoonup> nat"
  sh_by_id :: "string \<rightharpoonup> nat"

definition empty_heap :: session_heap where
  "empty_heap = \<lparr>sh_cells = [], sh_by_token = Map.empty, sh_by_id = Map.empty\<rparr>"

definition new_session :: "create_params \<Rightarrow> session_state" where
  "new_session p = \<lparr>sn_id = cp_session p, sn_user = cp_user p, sn_membership = cp_membership p,
     sn_company = cp_company p, sn_token = cp_token p, sn_revoked = False, sn_ip = cp_ip p, sn_agent = cp_agent p\<rparr>"

definition change_cell :: "nat \<Rightarrow> (session_state \<Rightarrow> session_state) \<Rightarrow> session_heap \<Rightarrow> session_heap" where
  "change_cell a f h = h\<lparr>sh_cells := (sh_cells h)[a := f (sh_cells h ! a)]\<rparr>"

definition heap_create :: "create_params \<Rightarrow> (go_error, session_heap, unit) action" where
  "heap_create p h = (let a = length (sh_cells h) in
    (Inr (), h\<lparr>sh_cells := sh_cells h @ [new_session p], sh_by_token := (sh_by_token h)(cp_token p \<mapsto> a),
      sh_by_id := (sh_by_id h)(cp_session p \<mapsto> a)\<rparr>))"

definition heap_find :: "string \<Rightarrow> session_heap \<Rightarrow> go_error + session_state" where
  "heap_find t h = (case sh_by_token h t of None \<Rightarrow> Inl session_gone | Some a \<Rightarrow> Inr (sh_cells h ! a))"

definition heap_revoke_token :: "string \<Rightarrow> (go_error, session_heap, unit) action" where
  "heap_revoke_token t h = (case sh_by_token h t of None \<Rightarrow> (Inl session_gone, h)
     | Some a \<Rightarrow> (Inr (), change_cell a (\<lambda>s. s\<lparr>sn_revoked := True\<rparr>) h))"

definition heap_update :: "string \<Rightarrow> string \<Rightarrow> string \<Rightarrow> (go_error, session_heap, unit) action" where
  "heap_update sid m c h = (case sh_by_id h sid of None \<Rightarrow> (Inl session_gone, h)
     | Some a \<Rightarrow> (Inr (), change_cell a (\<lambda>s. s\<lparr>sn_membership := m, sn_company := c\<rparr>) h))"

definition heap_rotate :: "string \<Rightarrow> string \<Rightarrow> (go_error, session_heap, unit) action" where
  "heap_rotate sid t h = (case sh_by_id h sid of None \<Rightarrow> (Inl session_gone, h)
     | Some a \<Rightarrow> (Inr (), (change_cell a (\<lambda>s. s\<lparr>sn_token := t\<rparr>) h)
         \<lparr>sh_by_token := ((sh_by_token h)(sn_token (sh_cells h ! a) := None))(t \<mapsto> a)\<rparr>))"

definition heap_list :: "(session_heap \<Rightarrow> string list) \<Rightarrow> string \<Rightarrow> session_heap \<Rightarrow> session_state list" where
  "heap_list order user h =
    filter (\<lambda>s. sn_user s = user) (map (\<lambda>a. sh_cells h ! a) (map_values (sh_by_id h) (order h)))"

definition heap_revoke_id :: "string \<Rightarrow> string \<Rightarrow> (go_error, session_heap, unit) action" where
  "heap_revoke_id user sid h = (case sh_by_id h sid of None \<Rightarrow> (Inl session_missing, h)
     | Some a \<Rightarrow> if sn_user (sh_cells h ! a) \<noteq> user then (Inl session_missing, h)
         else (Inr (), change_cell a (\<lambda>s. s\<lparr>sn_revoked := True\<rparr>) h))"

definition heap_revoke_user :: "(session_heap \<Rightarrow> string list) \<Rightarrow> string \<Rightarrow> string \<Rightarrow> (go_error, session_heap, unit) action" where
  "heap_revoke_user order user reason h =
    (Inr (), fold (\<lambda>a h. if sn_user (sh_cells h ! a) = user then change_cell a (\<lambda>s. s\<lparr>sn_revoked := True\<rparr>) h else h)
       (map_values (sh_by_id h) (order h)) h)"

definition heap_sessions :: "(session_heap \<Rightarrow> string list) \<Rightarrow> session_heap session_ops" where
  "heap_sessions order = \<lparr>so_create = heap_create, so_find = heap_find, so_revoke_token = heap_revoke_token,
     so_update = heap_update, so_rotate = heap_rotate, so_list = heap_list order,
     so_revoke_id = heap_revoke_id, so_revoke_user = heap_revoke_user order\<rparr>"

subsection \<open>The MySQL repository\<close>

record session_row =
  sr_id :: string
  sr_user :: string
  sr_company :: "string option"
  sr_membership :: "string option"
  sr_hash :: string
  sr_expires :: int
  sr_revoked :: "int option"
  sr_reason :: "string option"
  sr_ip :: "string option"
  sr_agent :: "string option"

type_synonym session_table = "session_row list"

definition refresh_ttl :: "int \<Rightarrow> int" where
  "refresh_ttl d = (if d \<le> 0 then 720 * 3600 * 1000000000 else d)"

definition table_create :: "(string \<Rightarrow> string) \<Rightarrow> int \<Rightarrow> int \<Rightarrow> create_params \<Rightarrow> (go_error, session_table, unit) action" where
  "table_create hash ttl now p rows =
    (if list_ex (\<lambda>r. sr_id r = cp_session p \<or> sr_hash r = hash (cp_token p)) rows
     then (Inl (WrapErr ''session insert'' (PlainErr ''duplicate entry'')), rows)
     else (Inr (), rows @ [\<lparr>sr_id = cp_session p, sr_user = cp_user p, sr_company = null_if_empty (cp_company p),
        sr_membership = null_if_empty (cp_membership p), sr_hash = hash (cp_token p),
        sr_expires = now + refresh_ttl ttl, sr_revoked = None, sr_reason = None,
        sr_ip = null_if_empty (cp_ip p), sr_agent = null_if_empty (cp_agent p)\<rparr>]))"

definition table_find :: "(string \<Rightarrow> string) \<Rightarrow> int \<Rightarrow> string \<Rightarrow> session_table \<Rightarrow> go_error + session_state" where
  "table_find hash now t rows = (case List.find (\<lambda>r. sr_hash r = hash t) rows of
      None \<Rightarrow> Inl session_gone
    | Some r \<Rightarrow> if sr_revoked r \<noteq> None then Inl session_gone
        else if now > sr_expires r then Inl session_gone
        else Inr \<lparr>sn_id = sr_id r, sn_user = sr_user r, sn_membership = if_null (sr_membership r),
               sn_company = if_null (sr_company r), sn_token = t, sn_revoked = False, sn_ip = [], sn_agent = []\<rparr>)"

definition revoke_row :: "int \<Rightarrow> string \<Rightarrow> session_row \<Rightarrow> session_row" where
  "revoke_row now reason r = r\<lparr>sr_revoked := Some now, sr_reason := Some reason\<rparr>"

definition table_revoke_token :: "(string \<Rightarrow> string) \<Rightarrow> int \<Rightarrow> string \<Rightarrow> (go_error, session_table, unit) action" where
  "table_revoke_token hash now t rows = expect_changed session_gone
    (sql_update (\<lambda>r. sr_hash r = hash t \<and> sr_revoked r = None) (revoke_row now ''logout'') rows)"

definition table_update :: "string \<Rightarrow> string \<Rightarrow> string \<Rightarrow> (go_error, session_table, unit) action" where
  "table_update sid m c rows = expect_changed session_gone
    (sql_update (\<lambda>r. sr_id r = sid \<and> sr_revoked r = None) (\<lambda>r. r\<lparr>sr_membership := Some m, sr_company := Some c\<rparr>) rows)"

definition table_rotate :: "(string \<Rightarrow> string) \<Rightarrow> int \<Rightarrow> int \<Rightarrow> string \<Rightarrow> string \<Rightarrow> (go_error, session_table, unit) action" where
  "table_rotate hash ttl now sid t rows = expect_changed session_gone
    (sql_update (\<lambda>r. sr_id r = sid \<and> sr_revoked r = None)
       (\<lambda>r. r\<lparr>sr_hash := hash t, sr_expires := now + refresh_ttl ttl\<rparr>) rows)"

definition table_list :: "string \<Rightarrow> session_table \<Rightarrow> session_state list" where
  "table_list user rows = map (\<lambda>r. \<lparr>sn_id = sr_id r, sn_user = user, sn_membership = if_null (sr_membership r),
      sn_company = if_null (sr_company r), sn_token = [], sn_revoked = (sr_revoked r \<noteq> None),
      sn_ip = if_null (sr_ip r), sn_agent = if_null (sr_agent r)\<rparr>) (filter (\<lambda>r. sr_user r = user) (rev rows))"

definition table_revoke_id :: "int \<Rightarrow> string \<Rightarrow> string \<Rightarrow> (go_error, session_table, unit) action" where
  "table_revoke_id now user sid rows = expect_changed session_missing
    (sql_update (\<lambda>r. sr_id r = sid \<and> sr_user r = user \<and> sr_revoked r = None) (revoke_row now ''manual_revoke'') rows)"

definition table_revoke_user :: "int \<Rightarrow> string \<Rightarrow> string \<Rightarrow> (go_error, session_table, unit) action" where
  "table_revoke_user now user reason rows =
    (Inr (), snd (sql_update (\<lambda>r. sr_user r = user \<and> sr_revoked r = None)
       (revoke_row now (if reason = [] then ''manual_revoke_all'' else reason)) rows))"

definition table_sessions :: "(string \<Rightarrow> string) \<Rightarrow> int \<Rightarrow> int \<Rightarrow> session_table session_ops" where
  "table_sessions hash ttl now = \<lparr>so_create = table_create hash ttl now, so_find = table_find hash now,
     so_revoke_token = table_revoke_token hash now, so_update = table_update, so_rotate = table_rotate hash ttl now,
     so_list = table_list, so_revoke_id = table_revoke_id now, so_revoke_user = table_revoke_user now\<rparr>"

subsection \<open>The contract\<close>

text \<open>A live session by its refresh token: session id, user, membership and company.\<close>

type_synonym live_session = "string \<times> string \<times> string \<times> string"

definition ident :: "session_state \<Rightarrow> live_session" where
  "ident s = (sn_id s, sn_user s, sn_membership s, sn_company s)"

definition live :: "'se session_ops \<Rightarrow> 'se \<Rightarrow> string \<rightharpoonup> live_session" where
  "live ops s t = (case so_find ops t s of Inl e \<Rightarrow> None | Inr x \<Rightarrow> if sn_revoked x then None else Some (ident x))"

definition drop_user :: "string \<Rightarrow> (string \<rightharpoonup> live_session) \<Rightarrow> (string \<rightharpoonup> live_session)" where
  "drop_user u l t = (case l t of Some (i, u', m, c) \<Rightarrow> if u' = u then None else Some (i, u', m, c) | None \<Rightarrow> None)"

definition rebind :: "string \<Rightarrow> string \<Rightarrow> string \<Rightarrow> live_session option \<Rightarrow> live_session option" where
  "rebind i m c x = (case x of Some (i', u, m', c') \<Rightarrow> if i' = i then Some (i, u, m, c) else x | None \<Rightarrow> None)"

definition drop_session :: "string \<Rightarrow> string \<Rightarrow> live_session option \<Rightarrow> live_session option" where
  "drop_session u i x = (case x of Some (i', u', m, c) \<Rightarrow> if i' = i \<and> u' = u then None else x | None \<Rightarrow> None)"

locale session_repository =
  fixes ops :: "'se session_ops" and inv :: "'se \<Rightarrow> bool"
    and used_id :: "'se \<Rightarrow> string \<Rightarrow> bool" and used_token :: "'se \<Rightarrow> string \<Rightarrow> bool"
  assumes create_live: "inv s \<Longrightarrow> \<not> used_id s (cp_session p) \<Longrightarrow> \<not> used_token s (cp_token p) \<Longrightarrow>
      \<exists>s'. so_create ops p s = (Inr (), s') \<and> inv s' \<and>
        live ops s' = (live ops s)(cp_token p \<mapsto> (cp_session p, cp_user p, cp_membership p, cp_company p)) \<and>
        (\<forall>t. used_token s' t \<longrightarrow> used_token s t \<or> t = cp_token p) \<and>
        (\<forall>i. used_id s' i \<longrightarrow> used_id s i \<or> i = cp_session p)"
    and rotate_live: "inv s \<Longrightarrow> live ops s t = Some x \<Longrightarrow> \<not> used_token s t' \<Longrightarrow>
      \<exists>s'. so_rotate ops (fst x) t' s = (Inr (), s') \<and> inv s' \<and> live ops s' = (live ops s)(t := None, t' \<mapsto> x) \<and>
        (\<forall>t. used_token s' t \<longrightarrow> used_token s t \<or> t = t') \<and> used_id s' = used_id s"
    and update_live: "inv s \<Longrightarrow> live ops s t = Some (i, u, m, c) \<Longrightarrow> m \<noteq> m' \<or> c \<noteq> c' \<Longrightarrow>
      \<exists>s'. so_update ops i m' c' s = (Inr (), s') \<and> inv s' \<and> live ops s' = (live ops s)(t \<mapsto> (i, u, m', c')) \<and>
        used_token s' = used_token s \<and> used_id s' = used_id s"
    and revoke_live: "inv s \<Longrightarrow> live ops s t = Some x \<Longrightarrow>
      \<exists>s'. so_revoke_token ops t s = (Inr (), s') \<and> inv s' \<and> live ops s' = (live ops s)(t := None) \<and>
        used_token s' = used_token s \<and> used_id s' = used_id s"
    and revoke_user_live: "inv s \<Longrightarrow>
      \<exists>s'. so_revoke_user ops u reason s = (Inr (), s') \<and> inv s' \<and> live ops s' = drop_user u (live ops s) \<and>
        used_token s' = used_token s \<and> used_id s' = used_id s"
    and revoke_id_live: "inv s \<Longrightarrow> live ops s t = Some (i, u, m, c) \<Longrightarrow>
      \<exists>s'. so_revoke_id ops u i s = (Inr (), s') \<and> inv s' \<and> live ops s' = (live ops s)(t := None) \<and>
        used_token s' = used_token s \<and> used_id s' = used_id s"
    and live_used: "inv s \<Longrightarrow> live ops s t = Some x \<Longrightarrow> used_token s t \<and> used_id s (fst x)"
    and update_any: "inv s \<Longrightarrow> inv (snd (so_update ops i m' c' s)) \<and>
      live ops (snd (so_update ops i m' c' s)) = rebind i m' c' \<circ> live ops s \<and>
      used_token (snd (so_update ops i m' c' s)) = used_token s \<and> used_id (snd (so_update ops i m' c' s)) = used_id s"
    and revoke_any: "inv s \<Longrightarrow> inv (snd (so_revoke_token ops t s)) \<and>
      live ops (snd (so_revoke_token ops t s)) = (live ops s)(t := None) \<and>
      used_token (snd (so_revoke_token ops t s)) = used_token s \<and> used_id (snd (so_revoke_token ops t s)) = used_id s"
    and revoke_id_any: "inv s \<Longrightarrow> inv (snd (so_revoke_id ops u i s)) \<and>
      live ops (snd (so_revoke_id ops u i s)) = drop_session u i \<circ> live ops s \<and>
      used_token (snd (so_revoke_id ops u i s)) = used_token s \<and> used_id (snd (so_revoke_id ops u i s)) = used_id s"
    and revoke_foreign: "inv s \<Longrightarrow> live ops s t = Some (i, u, m, c) \<Longrightarrow> u' \<noteq> u \<Longrightarrow>
      so_revoke_id ops u' i s = (Inl session_missing, s)"
    and find_gone: "so_find ops t s = Inl e \<Longrightarrow> e = session_gone"

subsection \<open>The in-memory repository meets the contract\<close>

definition heap_ok :: "session_heap \<Rightarrow> bool" where
  "heap_ok h \<longleftrightarrow> finite (dom (sh_by_id h)) \<and>
     (\<forall>i a. sh_by_id h i = Some a \<longrightarrow> a < length (sh_cells h) \<and> sn_id (sh_cells h ! a) = i) \<and>
     (\<forall>t a. sh_by_token h t = Some a \<longrightarrow> sh_by_id h (sn_id (sh_cells h ! a)) = Some a \<and> sn_token (sh_cells h ! a) = t)"

definition id_order :: "session_heap \<Rightarrow> string list" where
  "id_order h = sort (remdups (filter (\<lambda>i. sh_by_id h i \<noteq> None) (map sn_id (sh_cells h))))"

definition cell_live :: "session_state \<Rightarrow> live_session option" where
  "cell_live s = (if sn_revoked s then None else Some (ident s))"

lemma heap_live:
  "live (heap_sessions order) h t = (case sh_by_token h t of None \<Rightarrow> None | Some a \<Rightarrow> cell_live (sh_cells h ! a))"
  by (simp add: live_def heap_sessions_def heap_find_def cell_live_def split: option.split)

lemma heap_okD:
  assumes "heap_ok h"
  shows "sh_by_id h i = Some a \<Longrightarrow> a < length (sh_cells h) \<and> sn_id (sh_cells h ! a) = i"
    and "sh_by_token h t = Some a \<Longrightarrow> sh_by_id h (sn_id (sh_cells h ! a)) = Some a \<and> sn_token (sh_cells h ! a) = t"
  using assms unfolding heap_ok_def by blast+

lemma heap_token_cell:
  assumes "heap_ok h" and "live (heap_sessions order) h t = Some x"
  obtains a where "sh_by_token h t = Some a" and "sh_by_id h (fst x) = Some a" and "a < length (sh_cells h)"
    and "sn_token (sh_cells h ! a) = t" and "\<not> sn_revoked (sh_cells h ! a)" and "x = ident (sh_cells h ! a)"
proof -
  obtain a where a: "sh_by_token h t = Some a" "cell_live (sh_cells h ! a) = Some x"
    using assms(2) by (auto simp: heap_live split: option.splits)
  then have x: "x = ident (sh_cells h ! a)" "\<not> sn_revoked (sh_cells h ! a)" by (auto simp: cell_live_def split: if_splits)
  then have "fst x = sn_id (sh_cells h ! a)" by (simp add: ident_def)
  with that a(1) x heap_okD [OF assms(1)] show thesis by metis
qed

lemma change_cell_nth:
  "sh_cells (change_cell a f h) ! b = (if a = b \<and> a < length (sh_cells h) then f (sh_cells h ! a) else sh_cells h ! b)"
  by (cases "a < length (sh_cells h)") (simp_all add: change_cell_def list_update_beyond)

lemma change_cell_maps [simp]:
  "sh_by_id (change_cell a f h) = sh_by_id h" "sh_by_token (change_cell a f h) = sh_by_token h"
  "length (sh_cells (change_cell a f h)) = length (sh_cells h)"
  by (simp_all add: change_cell_def)

lemma change_cell_ok:
  assumes "heap_ok h" and "\<And>s. sn_id (f s) = sn_id s" and "\<And>s. sn_token (f s) = sn_token s"
  shows "heap_ok (change_cell a f h)"
proof -
  have "sn_id (sh_cells (change_cell a f h) ! b) = sn_id (sh_cells h ! b)"
    and "sn_token (sh_cells (change_cell a f h) ! b) = sn_token (sh_cells h ! b)" for b
    using assms(2,3) by (simp_all add: change_cell_nth)
  then show ?thesis using assms(1) unfolding heap_ok_def by simp
qed

lemma change_cell_live:
  assumes "heap_ok h" and "sh_by_token h t = Some a" and "a < length (sh_cells h)"
  shows "live (heap_sessions order) (change_cell a f h) =
    (live (heap_sessions order) h)(t := cell_live (f (sh_cells h ! a)))"
proof
  fix t'
  have "sh_by_token h t' \<noteq> Some a" if "t' \<noteq> t"
    using heap_okD(2) [OF assms(1)] assms(2) that by metis
  then show "live (heap_sessions order) (change_cell a f h) t' =
    ((live (heap_sessions order) h)(t := cell_live (f (sh_cells h ! a)))) t'"
    using assms(2,3) by (auto simp: heap_live change_cell_nth split: option.split)
qed

lemma heap_create_contract:
  assumes "heap_ok h" and "sh_by_id h (cp_session p) = None" and "sh_by_token h (cp_token p) = None"
  shows "heap_ok (snd (heap_create p h)) \<and> live (heap_sessions order) (snd (heap_create p h)) =
    (live (heap_sessions order) h)(cp_token p \<mapsto> (cp_session p, cp_user p, cp_membership p, cp_company p))"
proof -
  let ?h = "snd (heap_create p h)"
  have cells: "sh_cells ?h ! b = sh_cells h ! b" if "b < length (sh_cells h)" for b
    using that by (simp add: heap_create_def Let_def nth_append)
  have new: "sh_cells ?h ! length (sh_cells h) = new_session p" by (simp add: heap_create_def Let_def)
  have maps: "sh_by_id ?h = (sh_by_id h)(cp_session p \<mapsto> length (sh_cells h))"
    "sh_by_token ?h = (sh_by_token h)(cp_token p \<mapsto> length (sh_cells h))"
    "length (sh_cells ?h) = Suc (length (sh_cells h))" by (simp_all add: heap_create_def Let_def)
  have fields: "sn_id (new_session p) = cp_session p" "sn_token (new_session p) = cp_token p"
    "cell_live (new_session p) = Some (cp_session p, cp_user p, cp_membership p, cp_company p)"
    by (simp_all add: new_session_def cell_live_def ident_def)
  have old: "b < length (sh_cells h) \<and> sn_id (sh_cells ?h ! b) = i" if "sh_by_id h i = Some b" for i b
    using heap_okD(1) [OF assms(1) that] cells by simp
  have tok: "sh_by_id ?h (sn_id (sh_cells ?h ! b)) = Some b \<and> sn_token (sh_cells ?h ! b) = t \<and> b < length (sh_cells h)"
    if "sh_by_token h t = Some b" for t b
  proof -
    have *: "sh_by_id h (sn_id (sh_cells h ! b)) = Some b \<and> sn_token (sh_cells h ! b) = t"
      using heap_okD(2) [OF assms(1) that] .
    then have "b < length (sh_cells h)" using heap_okD(1) [OF assms(1)] by blast
    moreover have "sn_id (sh_cells h ! b) \<noteq> cp_session p" using * assms(2) by auto
    ultimately show ?thesis using * cells maps(1) by simp
  qed
  have "heap_ok ?h"
    unfolding heap_ok_def maps(1) maps(2) maps(3)
    using assms(1) old tok [unfolded maps(1)] new fields
    by (auto simp: heap_ok_def less_Suc_eq split: if_splits)
  moreover have "live (heap_sessions order) ?h t =
      ((live (heap_sessions order) h)(cp_token p \<mapsto> (cp_session p, cp_user p, cp_membership p, cp_company p))) t" for t
  proof (cases "t = cp_token p")
    case False
    then show ?thesis using tok cells by (auto simp: heap_live maps split: option.split)
  qed (simp add: heap_live maps new fields)
  ultimately show ?thesis by blast
qed

lemma heap_rotate_contract:
  assumes "heap_ok h" and "live (heap_sessions order) h t = Some x" and "sh_by_token h t' = None"
  shows "fst (heap_rotate (fst x) t' h) = Inr () \<and> heap_ok (snd (heap_rotate (fst x) t' h)) \<and>
    live (heap_sessions order) (snd (heap_rotate (fst x) t' h)) = (live (heap_sessions order) h)(t := None, t' \<mapsto> x) \<and>
    sh_by_id (snd (heap_rotate (fst x) t' h)) = sh_by_id h \<and>
    sh_by_token (snd (heap_rotate (fst x) t' h)) = (sh_by_token h)(t := None, t' \<mapsto> the (sh_by_token h t))"
proof -
  obtain a where a: "sh_by_token h t = Some a" "sh_by_id h (fst x) = Some a" "a < length (sh_cells h)"
    "sn_token (sh_cells h ! a) = t" "\<not> sn_revoked (sh_cells h ! a)" "x = ident (sh_cells h ! a)"
    by (rule heap_token_cell [OF assms(1,2)])
  define h' where "h' = snd (heap_rotate (fst x) t' h)"
  have h': "sh_cells h' = (sh_cells h)[a := (sh_cells h ! a)\<lparr>sn_token := t'\<rparr>]" "sh_by_id h' = sh_by_id h"
    "sh_by_token h' = (sh_by_token h)(t := None, t' \<mapsto> a)"
    using a(2,4) by (simp_all add: h'_def heap_rotate_def change_cell_def)
  have cell: "sh_cells h' ! b = (if b = a then (sh_cells h ! a)\<lparr>sn_token := t'\<rparr> else sh_cells h ! b)" for b
    using a(3) h'(1) by simp
  then have ids: "sn_id (sh_cells h' ! b) = sn_id (sh_cells h ! b)" for b by simp
  have tok: "b \<noteq> a" if "sh_by_token h s = Some b" and "s \<noteq> t" for s b
    using heap_okD(2) [OF assms(1) that(1)] that(2) a(4) by auto
  have "heap_ok h'"
    unfolding heap_ok_def
  proof (intro conjI allI impI)
    show "finite (dom (sh_by_id h'))" using assms(1) by (simp add: h'(2) heap_ok_def)
    show "b < length (sh_cells h')" "sn_id (sh_cells h' ! b) = i" if "sh_by_id h' i = Some b" for i b
      using that heap_okD(1) [OF assms(1), of i b] unfolding ids h'(2) by (simp_all add: h'(1))
  next
    fix s b assume s: "sh_by_token h' s = Some b"
    have "sh_by_id h' (sn_id (sh_cells h' ! b)) = Some b \<and> sn_token (sh_cells h' ! b) = s"
    proof (cases "s = t'")
      case True
      with s have "b = a" by (simp add: h'(3))
      with True a(2,6) show ?thesis by (simp add: ids h'(2) ident_def cell)
    next
      case False
      with s have "sh_by_token h s = Some b" "s \<noteq> t" by (auto simp: h'(3) split: if_splits)
      with tok heap_okD(2) [OF assms(1)] show ?thesis by (simp add: ids h'(2) cell)
    qed
    then show "sh_by_id h' (sn_id (sh_cells h' ! b)) = Some b" "sn_token (sh_cells h' ! b) = s" by blast+
  qed
  moreover have "live (heap_sessions order) h' = (live (heap_sessions order) h)(t := None, t' \<mapsto> x)"
    using a(5,6) tok cell by (intro ext) (auto simp: heap_live h'(3) cell_live_def ident_def split: option.split)
  moreover have "fst (heap_rotate (fst x) t' h) = Inr ()" using a(2) by (simp add: heap_rotate_def)
  ultimately show ?thesis using a(1) h'(2,3) unfolding h'_def [symmetric] by simp
qed

lemma heap_revoke_fold:
  fixes user :: string and as :: "nat list" and h :: session_heap
  assumes "\<forall>a \<in> set as. a < length (sh_cells h)"
  defines "h' \<equiv> fold (\<lambda>a h. if sn_user (sh_cells h ! a) = user then change_cell a (\<lambda>s. s\<lparr>sn_revoked := True\<rparr>) h else h) as h"
  shows "sh_by_id h' = sh_by_id h \<and> sh_by_token h' = sh_by_token h \<and> length (sh_cells h') = length (sh_cells h) \<and>
    (\<forall>b. sh_cells h' ! b = (if b \<in> set as \<and> sn_user (sh_cells h ! b) = user
       then (sh_cells h ! b)\<lparr>sn_revoked := True\<rparr> else sh_cells h ! b))"
  using assms(1) unfolding h'_def
proof (induction as arbitrary: h)
  case (Cons a as)
  define g where "g = (if sn_user (sh_cells h ! a) = user then change_cell a (\<lambda>s. s\<lparr>sn_revoked := True\<rparr>) h else h)"
  have len: "length (sh_cells g) = length (sh_cells h)" by (simp add: g_def)
  have cell: "sh_cells g ! b = (if b = a \<and> sn_user (sh_cells h ! a) = user then (sh_cells h ! b)\<lparr>sn_revoked := True\<rparr>
      else sh_cells h ! b)" for b
    using Cons.prems by (auto simp: g_def change_cell_nth)
  have maps: "sh_by_id g = sh_by_id h" "sh_by_token g = sh_by_token h" by (simp_all add: g_def)
  have "\<forall>b \<in> set as. b < length (sh_cells g)" using Cons.prems len by simp
  note IH = Cons.IH [OF this]
  have "(if b \<in> set as \<and> sn_user (sh_cells g ! b) = user then (sh_cells g ! b)\<lparr>sn_revoked := True\<rparr> else sh_cells g ! b) =
      (if b \<in> set (a # as) \<and> sn_user (sh_cells h ! b) = user then (sh_cells h ! b)\<lparr>sn_revoked := True\<rparr> else sh_cells h ! b)" for b
    by (cases "b = a"; cases "b \<in> set as"; simp add: cell)
  with IH show ?case unfolding fold_Cons comp_def g_def [symmetric] by (simp only: maps len simp_thms)
qed simp

lemma heap_revoke_user_contract:
  assumes "heap_ok h" and "map_order (sh_by_id h) (order h)"
  shows "heap_ok (snd (heap_revoke_user order u reason h)) \<and>
    live (heap_sessions order) (snd (heap_revoke_user order u reason h)) = drop_user u (live (heap_sessions order) h) \<and>
    sh_by_id (snd (heap_revoke_user order u reason h)) = sh_by_id h \<and>
    sh_by_token (snd (heap_revoke_user order u reason h)) = sh_by_token h"
proof -
  let ?as = "map_values (sh_by_id h) (order h)" let ?h = "snd (heap_revoke_user order u reason h)"
  have as: "set ?as = ran (sh_by_id h)" using set_map_values_order [OF assms(2)] .
  have "\<forall>a \<in> set ?as. a < length (sh_cells h)" using heap_okD(1) [OF assms(1)] by (auto simp: as ran_def)
  note F = heap_revoke_fold [OF this, of u]
  have h': "sh_by_id ?h = sh_by_id h" "sh_by_token ?h = sh_by_token h" "length (sh_cells ?h) = length (sh_cells h)"
    and cell: "\<And>b. sh_cells ?h ! b = (if b \<in> ran (sh_by_id h) \<and> sn_user (sh_cells h ! b) = u
       then (sh_cells h ! b)\<lparr>sn_revoked := True\<rparr> else sh_cells h ! b)"
    using F by (simp_all add: heap_revoke_user_def as)
  have "sn_id (sh_cells ?h ! b) = sn_id (sh_cells h ! b)" "sn_token (sh_cells ?h ! b) = sn_token (sh_cells h ! b)" for b
    by (simp_all add: cell)
  then have "heap_ok ?h" using assms(1) unfolding heap_ok_def h' by simp
  moreover have "live (heap_sessions order) ?h t = drop_user u (live (heap_sessions order) h) t" for t
  proof (cases "sh_by_token h t")
    case (Some a)
    then have "a \<in> ran (sh_by_id h)" using heap_okD(2) [OF assms(1) Some] by (auto simp: ran_def)
    with Some show ?thesis by (simp add: heap_live h' cell drop_user_def cell_live_def ident_def)
  qed (simp add: heap_live h' drop_user_def)
  ultimately show ?thesis using h' by blast
qed

lemma heap_ops:
  "so_update (heap_sessions order) = heap_update" "so_revoke_token (heap_sessions order) = heap_revoke_token"
  "so_revoke_id (heap_sessions order) = heap_revoke_id"
  by (simp_all add: heap_sessions_def)

lemma heap_step:
  assumes ok: "heap_ok h" and a: "sh_by_id h i = Some a"
    and keep: "\<And>s. sn_id (f s) = sn_id s" "\<And>s. sn_token (f s) = sn_token s"
    and hit: "\<And>s. sn_id s = i \<Longrightarrow> cell_live (f s) = G (cell_live s)"
    and miss: "\<And>s. sn_id s \<noteq> i \<Longrightarrow> G (cell_live s) = cell_live s" and none: "G None = None"
  shows "heap_ok (change_cell a f h) \<and> live (heap_sessions order) (change_cell a f h) = G \<circ> live (heap_sessions order) h"
proof -
  have i: "a < length (sh_cells h)" "sn_id (sh_cells h ! a) = i" using heap_okD(1) [OF ok a] by blast+
  have "live (heap_sessions order) (change_cell a f h) t = G (live (heap_sessions order) h t)" for t
  proof (cases "sh_by_token h t")
    case (Some b)
    then have "b = a \<longleftrightarrow> sn_id (sh_cells h ! b) = i" using heap_okD(2) [OF ok Some] a i(2) by auto
    then show ?thesis using Some i hit miss by (auto simp: heap_live change_cell_nth)
  qed (simp add: heap_live none)
  then show ?thesis using change_cell_ok [OF ok keep] by (simp add: fun_eq_iff)
qed

lemma heap_update_any:
  assumes "heap_ok h"
  shows "heap_ok (snd (heap_update i m c h)) \<and>
    live (heap_sessions order) (snd (heap_update i m c h)) = rebind i m c \<circ> live (heap_sessions order) h"
proof (cases "sh_by_id h i")
  case None
  have "rebind i m c (live (heap_sessions order) h t) = live (heap_sessions order) h t" for t
  proof (cases "live (heap_sessions order) h t")
    case (Some x)
    then have "fst x \<noteq> i" using heap_token_cell [OF assms Some] None by (metis option.distinct(1))
    with Some show ?thesis by (auto simp: rebind_def split: prod.split)
  qed (simp add: rebind_def)
  then show ?thesis using assms None by (simp add: heap_update_def fun_eq_iff)
next
  case (Some a)
  have "heap_ok (change_cell a (\<lambda>s. s\<lparr>sn_membership := m, sn_company := c\<rparr>) h) \<and>
    live (heap_sessions order) (change_cell a (\<lambda>s. s\<lparr>sn_membership := m, sn_company := c\<rparr>) h) = rebind i m c \<circ> live (heap_sessions order) h"
    by (rule heap_step [OF assms Some]) (auto simp: cell_live_def ident_def rebind_def)
  with Some show ?thesis by (simp add: heap_update_def)
qed

lemma heap_revoke_any:
  assumes "heap_ok h"
  shows "heap_ok (snd (heap_revoke_token t h)) \<and>
    live (heap_sessions order) (snd (heap_revoke_token t h)) = (live (heap_sessions order) h)(t := None)"
proof (cases "sh_by_token h t")
  case None
  then have "live (heap_sessions order) h t = None" by (simp add: heap_live)
  then show ?thesis using assms None by (simp add: heap_revoke_token_def fun_upd_idem)
next
  case (Some a)
  have "a < length (sh_cells h)" using heap_okD [OF assms] Some by blast
  from change_cell_live [OF assms Some this, of order "\<lambda>s. s\<lparr>sn_revoked := True\<rparr>"]
    change_cell_ok [OF assms, of "\<lambda>s. s\<lparr>sn_revoked := True\<rparr>" a] Some
  show ?thesis by (simp add: heap_revoke_token_def cell_live_def)
qed

lemma heap_revoke_id_any:
  assumes "heap_ok h"
  shows "heap_ok (snd (heap_revoke_id u i h)) \<and>
    live (heap_sessions order) (snd (heap_revoke_id u i h)) = drop_session u i \<circ> live (heap_sessions order) h"
proof (cases "\<exists>a. sh_by_id h i = Some a \<and> sn_user (sh_cells h ! a) = u")
  case True
  then obtain a where a: "sh_by_id h i = Some a" "sn_user (sh_cells h ! a) = u" by blast
  let ?f = "\<lambda>s :: session_state. if sn_user s = u then s\<lparr>sn_revoked := True\<rparr> else s"
  have "heap_ok (change_cell a ?f h) \<and> live (heap_sessions order) (change_cell a ?f h) = drop_session u i \<circ> live (heap_sessions order) h"
    by (rule heap_step [OF assms a(1)]) (auto simp: cell_live_def ident_def drop_session_def)
  moreover have "change_cell a ?f h = change_cell a (\<lambda>s. s\<lparr>sn_revoked := True\<rparr>) h" using a(2) by (simp add: change_cell_def)
  ultimately show ?thesis using a by (simp add: heap_revoke_id_def)
next
  case False
  have "drop_session u i (live (heap_sessions order) h t) = live (heap_sessions order) h t" for t
  proof (cases "live (heap_sessions order) h t")
    case (Some x)
    obtain b where "sh_by_id h (fst x) = Some b" "x = ident (sh_cells h ! b)" by (rule heap_token_cell [OF assms Some])
    then have "\<not> (fst x = i \<and> fst (snd x) = u)" using False by (auto simp: ident_def)
    with Some show ?thesis by (auto simp: drop_session_def split: prod.split)
  qed (simp add: drop_session_def)
  moreover have "snd (heap_revoke_id u i h) = h" using False by (auto simp: heap_revoke_id_def split: option.split)
  ultimately show ?thesis using assms by (simp add: fun_eq_iff)
qed

lemma heap_maps_kept:
  "sh_by_token (snd (heap_update i m c h)) = sh_by_token h" "sh_by_id (snd (heap_update i m c h)) = sh_by_id h"
  "sh_by_token (snd (heap_revoke_token t h)) = sh_by_token h" "sh_by_id (snd (heap_revoke_token t h)) = sh_by_id h"
  "sh_by_token (snd (heap_revoke_id u i h)) = sh_by_token h" "sh_by_id (snd (heap_revoke_id u i h)) = sh_by_id h"
  by (simp_all add: heap_update_def heap_revoke_token_def heap_revoke_id_def split: option.split)

lemma heap_revoke_foreign:
  assumes "heap_ok h" and "live (heap_sessions order) h t = Some (i, u, m, c)" and "u' \<noteq> u"
  shows "heap_revoke_id u' i h = (Inl session_missing, h)"
proof -
  obtain a where "sh_by_id h (fst (i, u, m, c)) = Some a" "(i, u, m, c) = ident (sh_cells h ! a)"
    by (rule heap_token_cell [OF assms(1,2)])
  with assms(3) show ?thesis by (simp add: heap_revoke_id_def ident_def)
qed

interpretation heap: session_repository "heap_sessions id_order" heap_ok "\<lambda>h i. sh_by_id h i \<noteq> None" "\<lambda>h t. sh_by_token h t \<noteq> None"
proof unfold_locales
  fix h and p :: create_params assume "heap_ok h" "\<not> sh_by_id h (cp_session p) \<noteq> None" "\<not> sh_by_token h (cp_token p) \<noteq> None"
  with heap_create_contract [of h p id_order]
  show "\<exists>h'. so_create (heap_sessions id_order) p h = (Inr (), h') \<and> heap_ok h' \<and>
      live (heap_sessions id_order) h' = (live (heap_sessions id_order) h)(cp_token p \<mapsto> (cp_session p, cp_user p, cp_membership p, cp_company p)) \<and>
      (\<forall>t. sh_by_token h' t \<noteq> None \<longrightarrow> sh_by_token h t \<noteq> None \<or> t = cp_token p) \<and>
      (\<forall>i. sh_by_id h' i \<noteq> None \<longrightarrow> sh_by_id h i \<noteq> None \<or> i = cp_session p)"
    by (intro exI [of _ "snd (heap_create p h)"]) (simp add: heap_sessions_def heap_create_def Let_def)
next
  fix h t x t' assume "heap_ok h" "live (heap_sessions id_order) h t = Some x" "\<not> sh_by_token h t' \<noteq> None"
  with heap_rotate_contract [of h id_order t x t']
  show "\<exists>h'. so_rotate (heap_sessions id_order) (fst x) t' h = (Inr (), h') \<and> heap_ok h' \<and>
      live (heap_sessions id_order) h' = (live (heap_sessions id_order) h)(t := None, t' \<mapsto> x) \<and>
      (\<forall>t. sh_by_token h' t \<noteq> None \<longrightarrow> sh_by_token h t \<noteq> None \<or> t = t') \<and>
      (\<lambda>i. sh_by_id h' i \<noteq> None) = (\<lambda>i. sh_by_id h i \<noteq> None)"
    by (intro exI [of _ "snd (heap_rotate (fst x) t' h)"]) (auto simp: heap_sessions_def prod_eq_iff)
next
  fix h t i u m c m' c' assume ok: "heap_ok h" and l: "live (heap_sessions id_order) h t = Some (i, u, m, c)"
  obtain a where a: "sh_by_token h t = Some a" "sh_by_id h i = Some a" "a < length (sh_cells h)"
      "\<not> sn_revoked (sh_cells h ! a)" "(i, u, m, c) = ident (sh_cells h ! a)"
    using heap_token_cell [OF ok l] by (metis fst_conv)
  let ?f = "\<lambda>s :: session_state. s\<lparr>sn_membership := m', sn_company := c'\<rparr>"
  have "cell_live (?f (sh_cells h ! a)) = Some (i, u, m', c')" using a(4,5) by (simp add: cell_live_def ident_def)
  then have "heap_ok (change_cell a ?f h) \<and> live (heap_sessions id_order) (change_cell a ?f h) = (live (heap_sessions id_order) h)(t \<mapsto> (i, u, m', c'))"
    using change_cell_ok [OF ok, of ?f a] change_cell_live [OF ok a(1,3), of id_order ?f] by simp
  moreover have "so_update (heap_sessions id_order) i m' c' h = (Inr (), change_cell a ?f h)"
    by (simp add: heap_sessions_def heap_update_def a )
  ultimately show "\<exists>h'. so_update (heap_sessions id_order) i m' c' h = (Inr (), h') \<and> heap_ok h' \<and>
      live (heap_sessions id_order) h' = (live (heap_sessions id_order) h)(t \<mapsto> (i, u, m', c')) \<and>
      (\<lambda>t. sh_by_token h' t \<noteq> None) = (\<lambda>t. sh_by_token h t \<noteq> None) \<and> (\<lambda>i. sh_by_id h' i \<noteq> None) = (\<lambda>i. sh_by_id h i \<noteq> None)"
    by (intro exI [of _ "change_cell a ?f h"]) simp
next
  fix h t x assume ok: "heap_ok h" and l: "live (heap_sessions id_order) h t = Some x"
  obtain a where a: "sh_by_token h t = Some a" "a < length (sh_cells h)" using heap_token_cell [OF ok l] by metis
  let ?f = "\<lambda>s :: session_state. s\<lparr>sn_revoked := True\<rparr>"
  have "cell_live (?f (sh_cells h ! a)) = None" by (simp add: cell_live_def)
  then have "heap_ok (change_cell a ?f h) \<and> live (heap_sessions id_order) (change_cell a ?f h) = (live (heap_sessions id_order) h)(t := None)"
    using change_cell_ok [OF ok, of ?f a] change_cell_live [OF ok a, of id_order ?f] by simp
  moreover have "so_revoke_token (heap_sessions id_order) t h = (Inr (), change_cell a ?f h)"
    by (simp add: heap_sessions_def heap_revoke_token_def a )
  ultimately show "\<exists>h'. so_revoke_token (heap_sessions id_order) t h = (Inr (), h') \<and> heap_ok h' \<and>
      live (heap_sessions id_order) h' = (live (heap_sessions id_order) h)(t := None) \<and>
      (\<lambda>t. sh_by_token h' t \<noteq> None) = (\<lambda>t. sh_by_token h t \<noteq> None) \<and> (\<lambda>i. sh_by_id h' i \<noteq> None) = (\<lambda>i. sh_by_id h i \<noteq> None)"
    by (intro exI [of _ "change_cell a ?f h"]) simp
next
  fix h u reason assume ok: "heap_ok h"
  then have "i \<in> set (map sn_id (sh_cells h))" if "sh_by_id h i = Some a" for i a
    using heap_okD(1) [OF _ that] by force
  then have "map_order (sh_by_id h) (id_order h)" by (auto simp: map_order_def id_order_def)
  from heap_revoke_user_contract [of h id_order u reason, OF ok this]
  show "\<exists>h'. so_revoke_user (heap_sessions id_order) u reason h = (Inr (), h') \<and> heap_ok h' \<and>
      live (heap_sessions id_order) h' = drop_user u (live (heap_sessions id_order) h) \<and>
      (\<lambda>t. sh_by_token h' t \<noteq> None) = (\<lambda>t. sh_by_token h t \<noteq> None) \<and> (\<lambda>i. sh_by_id h' i \<noteq> None) = (\<lambda>i. sh_by_id h i \<noteq> None)"
    by (intro exI [of _ "snd (heap_revoke_user id_order u reason h)"]) (simp, simp add: heap_sessions_def heap_revoke_user_def)
next
  fix h t i u m c assume ok: "heap_ok h" and l: "live (heap_sessions id_order) h t = Some (i, u, m, c)"
  obtain a where a: "sh_by_token h t = Some a" "sh_by_id h i = Some a" "a < length (sh_cells h)"
      "(i, u, m, c) = ident (sh_cells h ! a)"
    using heap_token_cell [OF ok l] by (metis fst_conv)
  let ?f = "\<lambda>s :: session_state. s\<lparr>sn_revoked := True\<rparr>"
  have user: "sn_user (sh_cells h ! a) = u" using a(4) by (simp add: ident_def)
  have "cell_live (?f (sh_cells h ! a)) = None" by (simp add: cell_live_def)
  then have "heap_ok (change_cell a ?f h) \<and> live (heap_sessions id_order) (change_cell a ?f h) = (live (heap_sessions id_order) h)(t := None)"
    using change_cell_ok [OF ok, of ?f a] change_cell_live [OF ok a(1,3), of id_order ?f] by simp
  moreover have "so_revoke_id (heap_sessions id_order) u i h = (Inr (), change_cell a ?f h)"
    by (simp add: heap_sessions_def heap_revoke_id_def a user)
  ultimately show "\<exists>h'. so_revoke_id (heap_sessions id_order) u i h = (Inr (), h') \<and> heap_ok h' \<and>
      live (heap_sessions id_order) h' = (live (heap_sessions id_order) h)(t := None) \<and>
      (\<lambda>t. sh_by_token h' t \<noteq> None) = (\<lambda>t. sh_by_token h t \<noteq> None) \<and> (\<lambda>i. sh_by_id h' i \<noteq> None) = (\<lambda>i. sh_by_id h i \<noteq> None)"
    by (intro exI [of _ "change_cell a ?f h"]) simp
next
  fix h t x assume "heap_ok h" "live (heap_sessions id_order) h t = Some x"
  then show "sh_by_token h t \<noteq> None \<and> sh_by_id h (fst x) \<noteq> None" by (rule heap_token_cell) auto
next
  fix h t i u m c u' assume "heap_ok h" "live (heap_sessions id_order) h t = Some (i, u, m, c)" "u' \<noteq> u"
  then show "so_revoke_id (heap_sessions id_order) u' i h = (Inl session_missing, h)"
    unfolding heap_ops by (rule heap_revoke_foreign)
next
  fix t h e assume "so_find (heap_sessions id_order) t h = Inl e"
  then show "e = session_gone" by (simp add: heap_sessions_def heap_find_def split: option.splits)
qed (simp_all add: heap_update_any heap_revoke_any heap_revoke_id_any heap_maps_kept heap_ops)

subsection \<open>The MySQL repository meets the contract\<close>

definition table_ok :: "(string \<Rightarrow> string) \<Rightarrow> session_table \<Rightarrow> bool" where
  "table_ok hash rows \<longleftrightarrow> inj hash \<and> distinct (map sr_id rows) \<and> distinct (map sr_hash rows)"

definition row_live :: "int \<Rightarrow> session_row \<Rightarrow> live_session option" where
  "row_live now r = (if sr_revoked r \<noteq> None \<or> now > sr_expires r then None
     else Some (sr_id r, sr_user r, if_null (sr_membership r), if_null (sr_company r)))"

definition by_hash :: "string \<Rightarrow> session_table \<Rightarrow> session_row option" where
  "by_hash k rows = List.find (\<lambda>r. sr_hash r = k) rows"

lemma table_live:
  "live (table_sessions hash ttl now) rows t = (case by_hash (hash t) rows of None \<Rightarrow> None | Some r \<Rightarrow> row_live now r)"
  by (simp add: live_def table_sessions_def table_find_def row_live_def ident_def by_hash_def split: option.split)

lemma by_hash_iff:
  "distinct (map sr_hash rows) \<Longrightarrow> by_hash k rows = Some r \<longleftrightarrow> r \<in> set rows \<and> sr_hash r = k"
  unfolding by_hash_def by (induction rows) (auto simp: image_iff)

lemma by_hash_map:
  assumes "\<And>r. sr_hash (f r) = sr_hash r"
  shows "by_hash k (map (\<lambda>r. if P r then f r else r) rows) = map_option (\<lambda>r. if P r then f r else r) (by_hash k rows)"
  unfolding by_hash_def using assms by (induction rows) auto

lemma map_if_same: "(\<And>r. g (f r) = g r) \<Longrightarrow> map g (map (\<lambda>r. if P r then f r else r) rows) = map g rows"
  by simp

lemma table_token_row:
  assumes "table_ok hash rows" and "live (table_sessions hash ttl now) rows t = Some x"
  obtains r where "r \<in> set rows" and "sr_hash r = hash t" and "by_hash (hash t) rows = Some r" and "sr_revoked r = None"
    and "\<not> now > sr_expires r" and "x = (sr_id r, sr_user r, if_null (sr_membership r), if_null (sr_company r))"
proof -
  obtain r where r: "by_hash (hash t) rows = Some r" "row_live now r = Some x"
    using assms(2) by (auto simp: table_live split: option.splits)
  have "r \<in> set rows \<and> sr_hash r = hash t"
    using assms(1) r(1) by_hash_iff unfolding table_ok_def by blast
  with r that show thesis by (auto simp: row_live_def split: if_splits)
qed

lemma same_row:
  assumes "table_ok hash rows" and "r \<in> set rows" and "r' \<in> set rows" and "sr_id r = sr_id r' \<or> sr_hash r = sr_hash r'"
  shows "r = r'"
  using assms unfolding table_ok_def distinct_map inj_on_def by blast

lemma option_ext: "(\<And>x. a = Some x \<longleftrightarrow> b = Some x) \<Longrightarrow> a = b"
  by (cases a; cases b) auto

lemma hash_choice: "h x = k' \<Longrightarrow> ((q = x \<or> B) \<and> h q = k) \<longleftrightarrow> ((q = x \<and> k = k') \<or> (B \<and> h q = k))"
  by auto

lemma sql_update_changed:
  "r \<in> set rows \<Longrightarrow> P r \<Longrightarrow> f r \<noteq> r \<Longrightarrow> expect_changed e (sql_update P f rows) = (Inr (), map (\<lambda>r. if P r then f r else r) rows)"
  by (auto simp: expect_changed_def sql_update_def filter_empty_conv)

text \<open>An UPDATE that keeps ids and hashes and singles out the row of a live token.\<close>

lemma table_update_row:
  assumes ok: "table_ok hash rows" and r: "r \<in> set rows" "sr_hash r = hash t"
    and keep: "\<And>r. sr_id (f r) = sr_id r" "\<And>r. sr_hash (f r) = sr_hash r"
    and P: "\<And>r'. r' \<in> set rows \<Longrightarrow> P r' \<longleftrightarrow> r' = r"
  shows "table_ok hash (map (\<lambda>r. if P r then f r else r) rows) \<and>
    live (table_sessions hash ttl now) (map (\<lambda>r. if P r then f r else r) rows) =
      (live (table_sessions hash ttl now) rows)(t := row_live now (f r))"
proof
  show "table_ok hash (map (\<lambda>r. if P r then f r else r) rows)"
    using ok unfolding table_ok_def map_if_same [of sr_id f P rows, OF keep(1)] map_if_same [of sr_hash f P rows, OF keep(2)] .
  show "live (table_sessions hash ttl now) (map (\<lambda>r. if P r then f r else r) rows) =
      (live (table_sessions hash ttl now) rows)(t := row_live now (f r))"
  proof
    fix t'
    have find: "by_hash (hash t') (map (\<lambda>r. if P r then f r else r) rows) =
        map_option (\<lambda>r. if P r then f r else r) (by_hash (hash t') rows)" by (rule by_hash_map) (rule keep)
    have iff: "by_hash k rows = Some r' \<longleftrightarrow> r' \<in> set rows \<and> sr_hash r' = k" for k r'
      using ok by_hash_iff unfolding table_ok_def by blast
    show "live (table_sessions hash ttl now) (map (\<lambda>r. if P r then f r else r) rows) t' =
        ((live (table_sessions hash ttl now) rows)(t := row_live now (f r))) t'"
    proof (cases "t' = t")
      case True
      have "by_hash (hash t) rows = Some r" using iff r by blast
      with True find P [OF r(1)] show ?thesis by (simp add: table_live)
    next
      case False
      then have "hash t' \<noteq> hash t" using ok unfolding table_ok_def inj_def by blast
      then have "\<not> P r'" if "by_hash (hash t') rows = Some r'" for r'
        using that iff P r(2) by metis
      with False find show ?thesis by (auto simp: table_live split: option.split)
    qed
  qed
qed

lemma revoke_row_live: "row_live now (revoke_row t reason r) = None"
  by (simp add: row_live_def revoke_row_def)

definition used_hash :: "(string \<Rightarrow> string) \<Rightarrow> session_table \<Rightarrow> string \<Rightarrow> bool" where
  "used_hash hash rows t \<longleftrightarrow> hash t \<in> set (map sr_hash rows)"

definition used_sid :: "session_table \<Rightarrow> string \<Rightarrow> bool" where
  "used_sid rows i \<longleftrightarrow> i \<in> set (map sr_id rows)"

lemma used_map_if:
  assumes "\<And>r. sr_id (f r) = sr_id r" "\<And>r. sr_hash (f r) = sr_hash r"
  shows "used_hash hash (map (\<lambda>r. if P r then f r else r) rows) = used_hash hash rows"
    and "used_sid (map (\<lambda>r. if P r then f r else r) rows) = used_sid rows"
  unfolding used_hash_def used_sid_def map_if_same [of sr_id f P rows, OF assms(1)] map_if_same [of sr_hash f P rows, OF assms(2)]
  by simp_all

lemma table_create_contract:
  assumes ok: "table_ok hash rows" and "\<not> used_sid rows (cp_session p)" and "\<not> used_hash hash rows (cp_token p)"
  shows "\<exists>rows'. table_create hash ttl now p rows = (Inr (), rows') \<and> table_ok hash rows' \<and>
    live (table_sessions hash ttl now) rows' = (live (table_sessions hash ttl now) rows)
      (cp_token p \<mapsto> (cp_session p, cp_user p, cp_membership p, cp_company p)) \<and>
    (\<forall>t. used_hash hash rows' t \<longrightarrow> used_hash hash rows t \<or> t = cp_token p) \<and>
    (\<forall>i. used_sid rows' i \<longrightarrow> used_sid rows i \<or> i = cp_session p)"
proof -
  let ?r = "\<lparr>sr_id = cp_session p, sr_user = cp_user p, sr_company = null_if_empty (cp_company p),
        sr_membership = null_if_empty (cp_membership p), sr_hash = hash (cp_token p),
        sr_expires = now + refresh_ttl ttl, sr_revoked = None, sr_reason = None,
        sr_ip = null_if_empty (cp_ip p), sr_agent = null_if_empty (cp_agent p)\<rparr>"
  have "\<not> list_ex (\<lambda>r. sr_id r = cp_session p \<or> sr_hash r = hash (cp_token p)) rows"
    using assms(2,3) by (auto simp: list_ex_iff used_sid_def used_hash_def image_iff)
  then have run: "table_create hash ttl now p rows = (Inr (), rows @ [?r])" by (simp add: table_create_def)
  have ok': "table_ok hash (rows @ [?r])"
    using assms by (auto simp: table_ok_def used_sid_def used_hash_def)
  have inj: "hash t = hash (cp_token p) \<longleftrightarrow> t = cp_token p" for t using ok by (auto simp: table_ok_def inj_eq)
  have none: "by_hash (hash (cp_token p)) rows = None"
    using assms(3) by (auto simp: by_hash_def find_None_iff used_hash_def image_iff)
  have app: "by_hash k (rows @ [?r]) = (case by_hash k rows of Some r \<Rightarrow> Some r | None \<Rightarrow> if k = hash (cp_token p) then Some ?r else None)" for k
    unfolding by_hash_def by (induction rows) (auto split: option.split)
  have "0 \<le> refresh_ttl ttl" by (simp add: refresh_ttl_def)
  then have new: "row_live now ?r = Some (cp_session p, cp_user p, cp_membership p, cp_company p)"
    by (simp add: row_live_def null_if_empty_def if_null_def)
  have "live (table_sessions hash ttl now) (rows @ [?r]) t = ((live (table_sessions hash ttl now) rows)
      (cp_token p \<mapsto> (cp_session p, cp_user p, cp_membership p, cp_company p))) t" for t
    using none new by (cases "t = cp_token p") (simp_all add: table_live app inj split: option.split)
  then have "live (table_sessions hash ttl now) (rows @ [?r]) = (live (table_sessions hash ttl now) rows)
      (cp_token p \<mapsto> (cp_session p, cp_user p, cp_membership p, cp_company p))" by (rule ext)
  moreover have "\<forall>t. used_hash hash (rows @ [?r]) t \<longrightarrow> used_hash hash rows t \<or> t = cp_token p"
    using inj by (auto simp: used_hash_def)
  moreover have "\<forall>i. used_sid (rows @ [?r]) i \<longrightarrow> used_sid rows i \<or> i = cp_session p" by (auto simp: used_sid_def)
  ultimately show ?thesis using run ok' by blast
qed

lemma table_rotate_contract:
  assumes ok: "table_ok hash rows" and l: "live (table_sessions hash ttl now) rows t = Some x" and new: "\<not> used_hash hash rows t'"
  shows "\<exists>rows'. table_rotate hash ttl now (fst x) t' rows = (Inr (), rows') \<and> table_ok hash rows' \<and>
    live (table_sessions hash ttl now) rows' = (live (table_sessions hash ttl now) rows)(t := None, t' \<mapsto> x) \<and>
    (\<forall>t. used_hash hash rows' t \<longrightarrow> used_hash hash rows t \<or> t = t') \<and> used_sid rows' = used_sid rows"
proof -
  obtain r where r: "r \<in> set rows" "sr_hash r = hash t" "by_hash (hash t) rows = Some r" "sr_revoked r = None"
    "\<not> now > sr_expires r" "x = (sr_id r, sr_user r, if_null (sr_membership r), if_null (sr_company r))"
    by (rule table_token_row [OF ok l])
  let ?P = "\<lambda>q. sr_id q = fst x \<and> sr_revoked q = None"
  let ?f = "\<lambda>q. q\<lparr>sr_hash := hash t', sr_expires := now + refresh_ttl ttl\<rparr>"
  let ?g = "\<lambda>q. if ?P q then ?f q else q"
  have P: "?P q \<longleftrightarrow> q = r" if "q \<in> set rows" for q
    using same_row [OF ok that r(1)] r(4,6) by auto
  have fresh: "sr_hash q \<noteq> hash t'" if "q \<in> set rows" for q using new that by (auto simp: used_hash_def image_iff)
  have "?f r \<noteq> r" using fresh [OF r(1)] by (metis session_row.select_convs(5) session_row.surjective session_row.update_convs(5,6))
  with r P have run: "table_rotate hash ttl now (fst x) t' rows = (Inr (), map ?g rows)"
    unfolding table_rotate_def by (intro sql_update_changed [OF r(1)]) auto
  have ids: "map sr_id (map ?g rows) = map sr_id rows" by simp
  have inj: "hash a = hash b \<longleftrightarrow> a = b" for a b using ok by (auto simp: table_ok_def inj_eq)
  have mem: "q' \<in> set (map ?g rows) \<longleftrightarrow> (q' = ?f r \<or> (q' \<in> set rows \<and> q' \<noteq> r))" for q'
    using P r(1) \<open>?f r \<noteq> r\<close> by (auto simp: image_iff)
  have "inj_on sr_hash (set (map ?g rows))"
  proof (rule inj_onI)
    fix a b assume ab: "a \<in> set (map ?g rows)" "b \<in> set (map ?g rows)" and eq: "sr_hash a = sr_hash b"
    have "sr_hash (?f r) = hash t'" by simp
    with ab eq fresh show "a = b" unfolding mem using same_row [OF ok] by metis
  qed
  moreover have "distinct (map ?g rows)" using ok ids distinct_map [of sr_id "map ?g rows"] unfolding table_ok_def by metis
  ultimately have "distinct (map sr_hash (map ?g rows))" unfolding distinct_map [of sr_hash "map ?g rows"] by blast
  then have ok': "table_ok hash (map ?g rows)" using ok unfolding table_ok_def ids by blast
  have find: "by_hash k (map ?g rows) = Some q' \<longleftrightarrow> (q' = ?f r \<and> k = hash t') \<or> (q' \<in> set rows \<and> q' \<noteq> r \<and> sr_hash q' = k)" for k q'
  proof -
    have "by_hash k (map ?g rows) = Some q' \<longleftrightarrow> q' \<in> set (map ?g rows) \<and> sr_hash q' = k"
      using ok' unfolding table_ok_def by (intro by_hash_iff) blast
    moreover have "sr_hash (?f r) = hash t'" by simp
    ultimately show ?thesis unfolding mem conj_assoc [symmetric] by (simp only: hash_choice [of sr_hash "?f r" "hash t'"])
  qed
  have find0: "by_hash k rows = Some q' \<longleftrightarrow> q' \<in> set rows \<and> sr_hash q' = k" for k q'
    using by_hash_iff ok unfolding table_ok_def by blast
  have "0 \<le> refresh_ttl ttl" by (simp add: refresh_ttl_def)
  then have x: "row_live now (?f r) = Some x" using r(4,6) by (simp add: row_live_def)
  have "live (table_sessions hash ttl now) (map ?g rows) s = ((live (table_sessions hash ttl now) rows)(t := None, t' \<mapsto> x)) s" for s
  proof -
    consider "s = t'" | "s = t" "s \<noteq> t'" | "s \<noteq> t" "s \<noteq> t'" by blast
    then show ?thesis
    proof cases
      case 1
      then have "by_hash (hash s) (map ?g rows) = Some (?f r)" using find by blast
      with 1 x show ?thesis by (simp add: table_live)
    next
      case 2
      have "by_hash (hash s) (map ?g rows) \<noteq> Some q" for q
      proof
        assume "by_hash (hash s) (map ?g rows) = Some q"
        then have q: "q \<in> set rows" "q \<noteq> r" "sr_hash q = hash s" using 2(2) unfolding find inj by blast+
        have "q = r" by (rule same_row [OF ok q(1) r(1)]) (simp only: q(3) 2(1) r(2) simp_thms)
        with q(2) show False by blast
      qed
      then have "by_hash (hash s) (map ?g rows) = None" by (rule not_Some_eq [THEN iffD1, OF allI])
      with 2 show ?thesis by (simp add: table_live)
    next
      case 3
      have "by_hash (hash s) (map ?g rows) = Some q \<longleftrightarrow> by_hash (hash s) rows = Some q" for q
      proof -
        have "q \<noteq> r" if "sr_hash q = hash s"
        proof
          assume "q = r"
          then have "hash t = hash s" using that r(2) by (simp only:)
          with 3(1) show False unfolding inj by (simp only:)
        qed
        then show ?thesis unfolding find find0 inj using 3(2) by blast
      qed
      then have "by_hash (hash s) (map ?g rows) = by_hash (hash s) rows" by (rule option_ext)
      with 3 show ?thesis by (simp add: table_live)
    qed
  qed
  then have "live (table_sessions hash ttl now) (map ?g rows) = (live (table_sessions hash ttl now) rows)(t := None, t' \<mapsto> x)"
    by (rule ext)
  moreover have "\<forall>s. used_hash hash (map ?g rows) s \<longrightarrow> used_hash hash rows s \<or> s = t'"
    using inj by (auto simp: used_hash_def)
  moreover have "used_sid (map ?g rows) = used_sid rows" unfolding used_sid_def ids ..
  ultimately show ?thesis using run ok' by blast
qed

lemma snd_expect_changed: "snd (expect_changed e (sql_update P f rows)) = map (\<lambda>r. if P r then f r else r) rows"
  by (simp add: expect_changed_def sql_update_def)

lemma table_step:
  assumes ok: "table_ok hash rows" and keep: "\<And>r. sr_id (f r) = sr_id r" "\<And>r. sr_hash (f r) = sr_hash r"
    and step: "\<And>r. by_hash (hash t) rows = Some r \<Longrightarrow> row_live now (if P r then f r else r) = G t (row_live now r)"
    and none: "by_hash (hash t) rows = None \<Longrightarrow> G t None = None"
  shows "table_ok hash (map (\<lambda>r. if P r then f r else r) rows) \<and>
    live (table_sessions hash ttl now) (map (\<lambda>r. if P r then f r else r) rows) t = G t (live (table_sessions hash ttl now) rows t)"
proof
  show "table_ok hash (map (\<lambda>r. if P r then f r else r) rows)"
    using ok unfolding table_ok_def map_if_same [of sr_id f P rows, OF keep(1)] map_if_same [of sr_hash f P rows, OF keep(2)] .
  show "live (table_sessions hash ttl now) (map (\<lambda>r. if P r then f r else r) rows) t = G t (live (table_sessions hash ttl now) rows t)"
    using step none by (cases "by_hash (hash t) rows") (simp_all only: table_live by_hash_map [of f, OF keep(2)] option.map option.case)
qed

lemma table_update_any:
  assumes "table_ok hash rows"
  shows "table_ok hash (snd (table_update i m c rows)) \<and>
    live (table_sessions hash ttl now) (snd (table_update i m c rows)) t = rebind i m c (live (table_sessions hash ttl now) rows t)"
  unfolding table_update_def snd_expect_changed
  by (rule table_step [OF assms, where G = "\<lambda>_. rebind i m c"]) (simp_all add: row_live_def rebind_def if_null_def)

lemma table_revoke_any:
  assumes "table_ok hash rows"
  shows "table_ok hash (snd (table_revoke_token hash now' t' rows)) \<and>
    live (table_sessions hash ttl now) (snd (table_revoke_token hash now' t' rows)) t = ((live (table_sessions hash ttl now) rows)(t' := None)) t"
proof -
  have "hash t = hash t' \<longleftrightarrow> t = t'" using assms by (auto simp: table_ok_def inj_eq)
  moreover have "sr_hash r = hash t" if "by_hash (hash t) rows = Some r" for r
    using that by (simp add: by_hash_def find_Some_iff) blast
  ultimately have "row_live now (if sr_hash r = hash t' \<and> sr_revoked r = None then revoke_row now' ''logout'' r else r) =
      (if t = t' then None else row_live now r)" if "by_hash (hash t) rows = Some r" for r
    using that by (auto simp: row_live_def revoke_row_def)
  then show ?thesis
    using table_step [OF assms, where G = "\<lambda>t x. if t = t' then None else x" and f = "revoke_row now' ''logout''" and t = t and now = now
        and P = "\<lambda>r. sr_hash r = hash t' \<and> sr_revoked r = None" and ttl = ttl]
    unfolding table_revoke_token_def snd_expect_changed by (simp add: revoke_row_def)
qed

lemma table_revoke_id_any:
  assumes "table_ok hash rows"
  shows "table_ok hash (snd (table_revoke_id now' u i rows)) \<and>
    live (table_sessions hash ttl now) (snd (table_revoke_id now' u i rows)) t = drop_session u i (live (table_sessions hash ttl now) rows t)"
  unfolding table_revoke_id_def snd_expect_changed
  by (rule table_step [OF assms, where G = "\<lambda>_. drop_session u i"]) (auto simp: row_live_def drop_session_def revoke_row_def)

lemma table_used_kept:
  "used_hash hash (snd (table_update i m c rows)) = used_hash hash rows" "used_sid (snd (table_update i m c rows)) = used_sid rows"
  "used_hash hash (snd (table_revoke_token hash now t rows)) = used_hash hash rows"
  "used_sid (snd (table_revoke_token hash now t rows)) = used_sid rows"
  "used_hash hash (snd (table_revoke_id now u i rows)) = used_hash hash rows"
  "used_sid (snd (table_revoke_id now u i rows)) = used_sid rows"
  unfolding table_update_def table_revoke_token_def table_revoke_id_def snd_expect_changed
  by (rule used_map_if; simp add: revoke_row_def)+

lemma table_revoke_foreign:
  assumes ok: "table_ok hash rows" and l: "live (table_sessions hash ttl now) rows t = Some (i, u, m, c)" and "u' \<noteq> u"
  shows "table_revoke_id now' u' i rows = (Inl session_missing, rows)"
proof -
  obtain r where r: "r \<in> set rows" "i = sr_id r" "u = sr_user r" by (rule table_token_row [OF ok l]) blast
  then have no: "\<not> (sr_id q = i \<and> sr_user q = u')" if "q \<in> set rows" for q using same_row [OF ok that r(1)] assms(3) by auto
  have "filter (\<lambda>r. (sr_id r = i \<and> sr_user r = u' \<and> sr_revoked r = None) \<and> revoke_row now' ''manual_revoke'' r \<noteq> r) rows = []"
    and "map (\<lambda>r. if sr_id r = i \<and> sr_user r = u' \<and> sr_revoked r = None then revoke_row now' ''manual_revoke'' r else r) rows = rows"
    unfolding filter_empty_conv using no by (blast, intro map_idI) (use no in auto)
  then show ?thesis by (simp only: table_revoke_id_def sql_update_def expect_changed_def fst_conv snd_conv list.size refl if_True)
qed

lemma table_ops:
  "so_update (table_sessions hash ttl now) = table_update" "so_revoke_token (table_sessions hash ttl now) = table_revoke_token hash now"
  "so_revoke_id (table_sessions hash ttl now) = table_revoke_id now"
  by (simp_all add: table_sessions_def)

interpretation table: session_repository "table_sessions hash ttl now" "table_ok hash" used_sid "used_hash hash" for hash ttl now
proof unfold_locales
  fix rows and p :: create_params
  assume "table_ok hash rows" "\<not> used_sid rows (cp_session p)" "\<not> used_hash hash rows (cp_token p)"
  from table_create_contract [OF this, of ttl now]
  show "\<exists>rows'. so_create (table_sessions hash ttl now) p rows = (Inr (), rows') \<and> table_ok hash rows' \<and>
    live (table_sessions hash ttl now) rows' = (live (table_sessions hash ttl now) rows)
      (cp_token p \<mapsto> (cp_session p, cp_user p, cp_membership p, cp_company p)) \<and>
    (\<forall>t. used_hash hash rows' t \<longrightarrow> used_hash hash rows t \<or> t = cp_token p) \<and>
    (\<forall>i. used_sid rows' i \<longrightarrow> used_sid rows i \<or> i = cp_session p)"
    unfolding table_sessions_def session_ops.select_convs .
next
  fix rows t x t'
  assume "table_ok hash rows" "live (table_sessions hash ttl now) rows t = Some x" "\<not> used_hash hash rows t'"
  from table_rotate_contract [OF this]
  show "\<exists>rows'. so_rotate (table_sessions hash ttl now) (fst x) t' rows = (Inr (), rows') \<and> table_ok hash rows' \<and>
    live (table_sessions hash ttl now) rows' = (live (table_sessions hash ttl now) rows)(t := None, t' \<mapsto> x) \<and>
    (\<forall>t. used_hash hash rows' t \<longrightarrow> used_hash hash rows t \<or> t = t') \<and> used_sid rows' = used_sid rows"
    unfolding table_sessions_def session_ops.select_convs .
next
  fix rows t i u m c m' c'
  assume ok: "table_ok hash rows" and l: "live (table_sessions hash ttl now) rows t = Some (i, u, m, c)" and diff: "m \<noteq> m' \<or> c \<noteq> c'"
  obtain r where r: "r \<in> set rows" "sr_hash r = hash t" "sr_revoked r = None" "\<not> now > sr_expires r"
    "(i, u, m, c) = (sr_id r, sr_user r, if_null (sr_membership r), if_null (sr_company r))"
    by (rule table_token_row [OF ok l]) blast
  let ?P = "\<lambda>r. sr_id r = i \<and> sr_revoked r = None" let ?f = "\<lambda>r. r\<lparr>sr_membership := Some m', sr_company := Some c'\<rparr>"
  have P: "?P q \<longleftrightarrow> q = r" if "q \<in> set rows" for q using same_row [OF ok that r(1)] r(3,5) by auto
  have "sr_membership (?f r) \<noteq> sr_membership r \<or> sr_company (?f r) \<noteq> sr_company r"
    using diff r(5) by (auto simp: if_null_def split: option.splits)
  then have "?f r \<noteq> r" by metis
  then have run: "table_update i m' c' rows = (Inr (), map (\<lambda>r. if ?P r then ?f r else r) rows)"
    unfolding table_update_def using P r(1) by (intro sql_update_changed [OF r(1)]) auto
  have "row_live now (?f r) = Some (i, u, m', c')" using r(3-5) by (simp add: row_live_def if_null_def)
  moreover have keep: "sr_id (?f q) = sr_id q" "sr_hash (?f q) = sr_hash q" for q by simp_all
  ultimately have "table_ok hash (map (\<lambda>r. if ?P r then ?f r else r) rows) \<and>
      live (table_sessions hash ttl now) (map (\<lambda>r. if ?P r then ?f r else r) rows) =
        (live (table_sessions hash ttl now) rows)(t \<mapsto> (i, u, m', c'))"
    using table_update_row [OF ok r(1,2), of ?f ?P ttl now, OF keep P] by simp
  with run used_map_if [of ?f, OF keep]
  show "\<exists>rows'. so_update (table_sessions hash ttl now) i m' c' rows = (Inr (), rows') \<and> table_ok hash rows' \<and>
    live (table_sessions hash ttl now) rows' = (live (table_sessions hash ttl now) rows)(t \<mapsto> (i, u, m', c')) \<and>
    used_hash hash rows' = used_hash hash rows \<and> used_sid rows' = used_sid rows"
    by (intro exI [of _ "map (\<lambda>r. if ?P r then ?f r else r) rows"]) (simp add: table_sessions_def)
next
  fix rows t x assume ok: "table_ok hash rows" and l: "live (table_sessions hash ttl now) rows t = Some x"
  obtain r where r: "r \<in> set rows" "sr_hash r = hash t" "sr_revoked r = None"
    by (rule table_token_row [OF ok l]) blast
  let ?P = "\<lambda>r. sr_hash r = hash t \<and> sr_revoked r = None" let ?f = "revoke_row now ''logout''"
  have P: "?P q \<longleftrightarrow> q = r" if "q \<in> set rows" for q using same_row [OF ok that r(1)] r(2,3) by auto
  have "sr_revoked (?f r) \<noteq> sr_revoked r" using r(3) by (simp add: revoke_row_def)
  then have "?f r \<noteq> r" by metis
  then have run: "table_revoke_token hash now t rows = (Inr (), map (\<lambda>r. if ?P r then ?f r else r) rows)"
    unfolding table_revoke_token_def using P r(1) by (intro sql_update_changed [OF r(1)]) auto
  have keep: "sr_id (?f q) = sr_id q" "sr_hash (?f q) = sr_hash q" for q by (simp_all add: revoke_row_def)
  have "row_live now (?f r) = None" by (simp add: row_live_def revoke_row_def)
  with table_update_row [OF ok r(1,2) keep P, of ttl now]
  have "table_ok hash (map (\<lambda>r. if ?P r then ?f r else r) rows) \<and>
      live (table_sessions hash ttl now) (map (\<lambda>r. if ?P r then ?f r else r) rows) =
        (live (table_sessions hash ttl now) rows)(t := None)" by simp
  with run used_map_if [of ?f, OF keep]
  show "\<exists>rows'. so_revoke_token (table_sessions hash ttl now) t rows = (Inr (), rows') \<and> table_ok hash rows' \<and>
    live (table_sessions hash ttl now) rows' = (live (table_sessions hash ttl now) rows)(t := None) \<and>
    used_hash hash rows' = used_hash hash rows \<and> used_sid rows' = used_sid rows"
    by (intro exI [of _ "map (\<lambda>r. if ?P r then ?f r else r) rows"]) (simp add: table_sessions_def)
next
  fix rows u reason assume ok: "table_ok hash rows"
  let ?P = "\<lambda>r. sr_user r = u \<and> sr_revoked r = None"
  let ?f = "revoke_row now (if reason = [] then ''manual_revoke_all'' else reason)"
  let ?g = "\<lambda>r. if ?P r then ?f r else r"
  have keep: "sr_id (?f q) = sr_id q" "sr_hash (?f q) = sr_hash q" "sr_revoked (?f q) \<noteq> None" for q by (simp_all add: revoke_row_def)
  have ok': "table_ok hash (map ?g rows)"
    using ok unfolding table_ok_def map_if_same [of sr_id ?f ?P rows, OF keep(1)] map_if_same [of sr_hash ?f ?P rows, OF keep(2)] .
  have "live (table_sessions hash ttl now) (map ?g rows) t = drop_user u (live (table_sessions hash ttl now) rows) t" for t
  proof (cases "by_hash (hash t) rows")
    case None
    then show ?thesis unfolding table_live by_hash_map [of ?f, OF keep(2)] by (simp add: drop_user_def table_live)
  next
    case (Some r)
    have "row_live now (?g r) = (if sr_user r = u then None else row_live now r)"
    proof (cases "?P r")
      case True
      then show ?thesis by (simp add: revoke_row_live)
    next
      case False
      then show ?thesis by (auto simp: row_live_def)
    qed
    moreover have "live (table_sessions hash ttl now) (map ?g rows) t = row_live now (?g r)"
      unfolding table_live by_hash_map [of ?f, OF keep(2)] Some option.map option.case ..
    moreover have "live (table_sessions hash ttl now) rows t = row_live now r"
      unfolding table_live Some option.case ..
    ultimately show ?thesis unfolding drop_user_def by (simp add: row_live_def)
  qed
  then have "live (table_sessions hash ttl now) (map ?g rows) = drop_user u (live (table_sessions hash ttl now) rows)" by (rule ext)
  with ok' used_map_if [of ?f, OF keep(1,2)]
  show "\<exists>rows'. so_revoke_user (table_sessions hash ttl now) u reason rows = (Inr (), rows') \<and> table_ok hash rows' \<and>
    live (table_sessions hash ttl now) rows' = drop_user u (live (table_sessions hash ttl now) rows) \<and>
    used_hash hash rows' = used_hash hash rows \<and> used_sid rows' = used_sid rows"
    by (intro exI [of _ "map ?g rows"]) (simp add: table_sessions_def table_revoke_user_def sql_update_def)
next
  fix rows t i u m c assume ok: "table_ok hash rows" and l: "live (table_sessions hash ttl now) rows t = Some (i, u, m, c)"
  obtain r where r: "r \<in> set rows" "sr_hash r = hash t" "sr_revoked r = None" "i = sr_id r" "u = sr_user r"
    by (rule table_token_row [OF ok l]) blast
  let ?P = "\<lambda>r. sr_id r = i \<and> sr_user r = u \<and> sr_revoked r = None" let ?f = "revoke_row now ''manual_revoke''"
  have P: "?P q \<longleftrightarrow> q = r" if "q \<in> set rows" for q using same_row [OF ok that r(1)] r(3-5) by auto
  have "sr_revoked (?f r) \<noteq> sr_revoked r" using r(3) by (simp add: revoke_row_def)
  then have "?f r \<noteq> r" by metis
  then have run: "table_revoke_id now u i rows = (Inr (), map (\<lambda>r. if ?P r then ?f r else r) rows)"
    unfolding table_revoke_id_def using P r(1) by (intro sql_update_changed [OF r(1)]) auto
  have keep: "sr_id (?f q) = sr_id q" "sr_hash (?f q) = sr_hash q" for q by (simp_all add: revoke_row_def)
  have "row_live now (?f r) = None" by (simp add: row_live_def revoke_row_def)
  with table_update_row [OF ok r(1,2) keep P, of ttl now]
  have "table_ok hash (map (\<lambda>r. if ?P r then ?f r else r) rows) \<and>
      live (table_sessions hash ttl now) (map (\<lambda>r. if ?P r then ?f r else r) rows) =
        (live (table_sessions hash ttl now) rows)(t := None)" by simp
  with run used_map_if [of ?f, OF keep]
  show "\<exists>rows'. so_revoke_id (table_sessions hash ttl now) u i rows = (Inr (), rows') \<and> table_ok hash rows' \<and>
    live (table_sessions hash ttl now) rows' = (live (table_sessions hash ttl now) rows)(t := None) \<and>
    used_hash hash rows' = used_hash hash rows \<and> used_sid rows' = used_sid rows"
    by (intro exI [of _ "map (\<lambda>r. if ?P r then ?f r else r) rows"]) (simp add: table_sessions_def)
next
  fix rows t x assume ok: "table_ok hash rows" and l: "live (table_sessions hash ttl now) rows t = Some x"
  obtain r where "r \<in> set rows" "sr_hash r = hash t"
    "x = (sr_id r, sr_user r, if_null (sr_membership r), if_null (sr_company r))"
    by (rule table_token_row [OF ok l]) blast
  then show "used_hash hash rows t \<and> used_sid rows (fst x)" by (force simp: used_hash_def used_sid_def image_iff)
next
  fix rows t i u m c u' assume "table_ok hash rows" "live (table_sessions hash ttl now) rows t = Some (i, u, m, c)" "u' \<noteq> u"
  then show "so_revoke_id (table_sessions hash ttl now) u' i rows = (Inl session_missing, rows)"
    unfolding table_ops by (rule table_revoke_foreign)
next
  fix t rows e assume "so_find (table_sessions hash ttl now) t rows = Inl e"
  then show "e = session_gone" by (auto simp: table_sessions_def table_find_def split: option.splits if_splits)
qed (simp_all add: table_update_any table_revoke_any table_revoke_id_any table_used_kept table_ops fun_eq_iff)

end
