(* ===== verification/Outbox.thy ===== *)
theory Outbox
  imports HttpErrors
begin

section \<open>The outbox: repositories, publisher, processor and the worker's handlers\<close>

text \<open>
  Models \<^verbatim>\<open>internal/platform/outbox\<close> (publisher, processor, the in-memory and the MySQL
  repository) and the event handlers of \<^verbatim>\<open>cmd/worker/main.go\<close>. The payload bytes are represented
  by the JSON value they encode; marshalling fails exactly on a float that JSON cannot carry. The
  clock and the random jitter are streams read in order. The MySQL repository works on the rows of its table in
  scan order, and its statements are taken to succeed. The locale \<open>outbox_repository\<close> is the port
  of the processor: \<open>Tick\<close> is proved against it and both repositories interpret it.
\<close>

subsection \<open>Events and the repository port\<close>

record domain_event =
  ev_id :: string
  ev_agg_type :: string
  ev_agg_id :: string
  ev_type :: string
  ev_payload :: attrs
  ev_occurred :: int

record queued_event =
  q_id :: string
  q_agg_type :: string
  q_agg_id :: string
  q_type :: string
  q_payload :: attrs
  q_retry :: int
  q_available :: int

record insert_params =
  ip_id :: string
  ip_agg_type :: string
  ip_agg_id :: string
  ip_type :: string
  ip_payload :: attrs
  ip_available :: int

datatype event_status = Pending | Processing | Processed | FailedPermanent

record outbox_item =
  oi_event :: queued_event
  oi_status :: event_status
  oi_error :: "string option"
  oi_processed :: "int option"

record 's outbox_ops =
  oo_insert :: "insert_params \<Rightarrow> (go_error, 's, unit) action"
  oo_lock :: "int \<Rightarrow> int \<Rightarrow> (go_error, 's, queued_event list) action"
  oo_processed :: "string \<Rightarrow> int \<Rightarrow> (go_error, 's, unit) action"
  oo_retry :: "string \<Rightarrow> int \<Rightarrow> int \<Rightarrow> string \<Rightarrow> (go_error, 's, unit) action"
  oo_failed :: "string \<Rightarrow> int \<Rightarrow> string \<Rightarrow> (go_error, 's, unit) action"

definition queued_of :: "insert_params \<Rightarrow> queued_event" where
  "queued_of p = \<lparr>q_id = ip_id p, q_agg_type = ip_agg_type p, q_agg_id = ip_agg_id p, q_type = ip_type p,
     q_payload = ip_payload p, q_retry = 0, q_available = ip_available p\<rparr>"

definition new_item :: "insert_params \<Rightarrow> outbox_item" where
  "new_item p = \<lparr>oi_event = queued_of p, oi_status = Pending, oi_error = None, oi_processed = None\<rparr>"

definition due :: "int \<Rightarrow> outbox_item \<Rightarrow> bool" where
  "due now it = (oi_status it = Pending \<and> q_available (oi_event it) \<le> now)"

definition batch_key :: "outbox_item \<Rightarrow> int \<times> string" where
  "batch_key it = (q_available (oi_event it), q_id (oi_event it))"

definition set_processed :: "int \<Rightarrow> outbox_item \<Rightarrow> outbox_item" where
  "set_processed t it = it\<lparr>oi_status := Processed, oi_processed := Some t\<rparr>"

definition set_retry :: "int \<Rightarrow> int \<Rightarrow> string \<Rightarrow> outbox_item \<Rightarrow> outbox_item" where
  "set_retry n t msg it = it\<lparr>oi_status := Pending, oi_error := Some msg,
     oi_event := (oi_event it)\<lparr>q_retry := n, q_available := t\<rparr>\<rparr>"

definition set_failed :: "int \<Rightarrow> string \<Rightarrow> outbox_item \<Rightarrow> outbox_item" where
  "set_failed t msg it = it\<lparr>oi_status := FailedPermanent, oi_error := Some msg, oi_processed := Some t\<rparr>"

subsection \<open>The in-memory repository\<close>

text \<open>The map from event ids to items; \<open>order\<close> is the order in which the lock ranges over it.\<close>

type_synonym outbox_map = "string \<rightharpoonup> outbox_item"

definition change_item :: "string \<Rightarrow> (outbox_item \<Rightarrow> outbox_item) \<Rightarrow> outbox_map \<Rightarrow> outbox_map" where
  "change_item k f m = (case m k of None \<Rightarrow> m | Some it \<Rightarrow> m(k \<mapsto> f it))"

definition mem_insert :: "insert_params \<Rightarrow> (go_error, outbox_map, unit) action" where
  "mem_insert p m = (Inr (), m(ip_id p \<mapsto> new_item p))"

definition mem_lock :: "(outbox_map \<Rightarrow> string list) \<Rightarrow> int \<Rightarrow> int \<Rightarrow> (go_error, outbox_map, queued_event list) action" where
  "mem_lock order batch now m =
    (let out = take (nat batch) (sort_key batch_key (filter (due now) (map_values m (order m))))
     in (Inr (map oi_event out),
         fold (\<lambda>it. change_item (q_id (oi_event it)) (\<lambda>i. i\<lparr>oi_status := Processing\<rparr>)) out m))"

definition mem_mark_processed :: "string \<Rightarrow> int \<Rightarrow> (go_error, outbox_map, unit) action" where
  "mem_mark_processed k t m = (Inr (), change_item k (set_processed t) m)"

definition mem_mark_retry :: "string \<Rightarrow> int \<Rightarrow> int \<Rightarrow> string \<Rightarrow> (go_error, outbox_map, unit) action" where
  "mem_mark_retry k n t msg m = (Inr (), change_item k (set_retry n t msg) m)"

definition mem_mark_failed :: "string \<Rightarrow> int \<Rightarrow> string \<Rightarrow> (go_error, outbox_map, unit) action" where
  "mem_mark_failed k t msg m = (Inr (), change_item k (set_failed t msg) m)"

definition mem_outbox :: "(outbox_map \<Rightarrow> string list) \<Rightarrow> outbox_map outbox_ops" where
  "mem_outbox order = \<lparr>oo_insert = mem_insert, oo_lock = mem_lock order, oo_processed = mem_mark_processed,
     oo_retry = mem_mark_retry, oo_failed = mem_mark_failed\<rparr>"

subsection \<open>The MySQL repository\<close>

text \<open>The rows of \<open>outbox_events\<close>; \<open>event_id\<close> is the primary key.\<close>

type_synonym outbox_table = "outbox_item list"

definition row_id :: "outbox_item \<Rightarrow> string" where
  "row_id r = q_id (oi_event r)"

definition update_rows :: "(outbox_item \<Rightarrow> bool) \<Rightarrow> (outbox_item \<Rightarrow> outbox_item) \<Rightarrow> outbox_table \<Rightarrow> outbox_table" where
  "update_rows P f rows = map (\<lambda>r. if P r then f r else r) rows"

definition sql_insert :: "insert_params \<Rightarrow> (go_error, outbox_table, unit) action" where
  "sql_insert p rows = (if ip_id p \<in> set (map row_id rows)
     then (Inl (WrapErr ''outbox insert'' (PlainErr ''duplicate entry'')), rows)
     else (Inr (), rows @ [new_item p]))"

definition sql_lock :: "int \<Rightarrow> int \<Rightarrow> (go_error, outbox_table, queued_event list) action" where
  "sql_lock batch now rows =
    (let limit = (if batch \<le> 0 then 50 else batch);
         ids = map row_id (take (nat limit) (sort_key batch_key (filter (due now) rows)))
     in if ids = [] then (Inr [], rows)
        else let rows' = update_rows (\<lambda>r. row_id r \<in> set ids \<and> oi_status r = Pending) (\<lambda>r. r\<lparr>oi_status := Processing\<rparr>) rows
          in (Inr (map oi_event (filter (\<lambda>r. row_id r \<in> set ids) rows')), rows'))"

definition sql_mark_processed :: "string \<Rightarrow> int \<Rightarrow> (go_error, outbox_table, unit) action" where
  "sql_mark_processed k t rows =
    (Inr (), update_rows (\<lambda>r. row_id r = k) (\<lambda>r. (set_processed t r)\<lparr>oi_error := None\<rparr>) rows)"

definition sql_mark_retry :: "string \<Rightarrow> int \<Rightarrow> int \<Rightarrow> string \<Rightarrow> (go_error, outbox_table, unit) action" where
  "sql_mark_retry k n t msg rows =
    (Inr (), update_rows (\<lambda>r. row_id r = k) (set_retry n t (take 1024 msg)) rows)"

definition sql_mark_failed :: "string \<Rightarrow> int \<Rightarrow> string \<Rightarrow> (go_error, outbox_table, unit) action" where
  "sql_mark_failed k t msg rows =
    (Inr (), update_rows (\<lambda>r. row_id r = k) (set_failed t (take 1024 msg)) rows)"

definition sql_outbox :: "outbox_table outbox_ops" where
  "sql_outbox = \<lparr>oo_insert = sql_insert, oo_lock = sql_lock, oo_processed = sql_mark_processed,
     oo_retry = sql_mark_retry, oo_failed = sql_mark_failed\<rparr>"

subsection \<open>Publisher\<close>

fun marshalable :: "goany \<Rightarrow> bool" where
  "marshalable (AFloat f) = (case f of FFin q \<Rightarrow> True | _ \<Rightarrow> False)"
| "marshalable (AList xs) = list_all marshalable xs"
| "marshalable (AMap m) = list_all (\<lambda>kv. marshalable (snd kv)) m"
| "marshalable _ = True"

definition publish :: "'s outbox_ops \<Rightarrow> domain_event \<Rightarrow> (go_error, 's, unit) action" where
  "publish ops e s =
    (if \<not> list_all (\<lambda>kv. marshalable (snd kv)) (ev_payload e)
     then (Inl (WrapErr ''marshal event payload'' (PlainErr ''json: unsupported value'')), s)
     else oo_insert ops \<lparr>ip_id = ev_id e, ip_agg_type = ev_agg_type e, ip_agg_id = ev_agg_id e, ip_type = ev_type e,
            ip_payload = ev_payload e, ip_available = ev_occurred e\<rparr> s)"

subsection \<open>Processor\<close>

text \<open>A handler runs on the world \<open>'w\<close> it affects and returns the error, if any.\<close>

type_synonym 'w handler = "queued_event \<Rightarrow> 'w \<Rightarrow> go_error option \<times> 'w"

record 'w processor =
  pr_handlers :: "string \<rightharpoonup> 'w handler"
  pr_batch :: int

definition new_processor :: "int \<Rightarrow> 'w processor" where
  "new_processor batch = \<lparr>pr_handlers = Map.empty, pr_batch = (if batch \<le> 0 then 50 else batch)\<rparr>"

definition register_handler :: "string \<Rightarrow> 'w handler \<Rightarrow> 'w processor \<Rightarrow> 'w processor" where
  "register_handler t h p = (if t = [] then p else p\<lparr>pr_handlers := (pr_handlers p)(t \<mapsto> h)\<rparr>)"

definition backoff :: "int \<Rightarrow> int" where
  "backoff retry = (let r = (if retry < 1 then 1 else if retry > 6 then 6 else retry)
     in 2 ^ nat (r - 1) * 1000000000)"

definition backoff_with_jitter :: "nat \<Rightarrow> int \<Rightarrow> int" where
  "backoff_with_jitter rnd retry =
    (let base = backoff retry in
     if base \<le> 0 then 1000000000
     else let max_jitter = max (base div 4) 1 in base + int rnd mod (max_jitter + 1))"

definition max_retries :: int where
  "max_retries = 10"

definition handle_event :: "'s outbox_ops \<Rightarrow> 'w processor \<Rightarrow> int \<Rightarrow> nat \<Rightarrow> queued_event \<Rightarrow> 's \<times> 'w \<Rightarrow> 's \<times> 'w" where
  "handle_event ops p now rnd e sw = (case sw of (s, w) \<Rightarrow>
    (case pr_handlers p (q_type e) of
       None \<Rightarrow> (snd (oo_processed ops (q_id e) now s), w)
     | Some h \<Rightarrow> (case h e w of
          (Some err, w') \<Rightarrow>
            (let next = q_retry e + 1 in
             if next \<ge> max_retries then (snd (oo_failed ops (q_id e) now (error_text err) s), w')
             else (snd (oo_retry ops (q_id e) next (now + backoff_with_jitter rnd next) (error_text err) s), w'))
        | (None, w') \<Rightarrow> (snd (oo_processed ops (q_id e) now s), w'))))"

fun handle_events :: "'s outbox_ops \<Rightarrow> 'w processor \<Rightarrow> (nat \<Rightarrow> int) \<Rightarrow> (nat \<Rightarrow> nat) \<Rightarrow> nat \<Rightarrow> queued_event list \<Rightarrow>
    's \<times> 'w \<Rightarrow> 's \<times> 'w" where
  "handle_events ops p clock rnd i [] sw = sw"
| "handle_events ops p clock rnd i (e # es) sw =
    handle_events ops p clock rnd (Suc i) es (handle_event ops p (clock i) (rnd i) e sw)"

definition tick :: "'s outbox_ops \<Rightarrow> 'w processor \<Rightarrow> (nat \<Rightarrow> int) \<Rightarrow> (nat \<Rightarrow> nat) \<Rightarrow> (go_error, 's \<times> 'w, unit) action" where
  "tick ops p clock rnd sw = (case sw of (s, w) \<Rightarrow>
    (case oo_lock ops (pr_batch p) (clock 0) s of
       (Inl e, s') \<Rightarrow> (Inl (WrapErr ''lock pending batch'' e), (s', w))
     | (Inr evs, s') \<Rightarrow> (Inr (), handle_events ops p clock rnd 1 evs (s', w))))"

subsection \<open>The worker's handlers\<close>

record smtp_config =
  sc_host :: string
  sc_port :: int
  sc_user :: string
  sc_password :: string
  sc_from :: string

text \<open>\<open>fmt.Sprint\<close> of a payload entry; what it prints of composite values is \<open>fmtv\<close>.\<close>

definition sprint_entry :: "(goany \<Rightarrow> string) \<Rightarrow> attrs \<Rightarrow> string \<Rightarrow> string" where
  "sprint_entry fmtv m k = (case map_of m k of
      None \<Rightarrow> ''<nil>'' | Some ANil \<Rightarrow> ''<nil>'' | Some (AStr s) \<Rightarrow> s
    | Some (ABool b) \<Rightarrow> (if b then ''true'' else ''false'') | Some (AInt i) \<Rightarrow> itoa i
    | Some v \<Rightarrow> fmtv v)"

definition crlf :: string where
  "crlf = [char_of (13 :: int), char_of (10 :: int)]"

definition smtp_message :: "string \<Rightarrow> string \<Rightarrow> string \<Rightarrow> string \<Rightarrow> string" where
  "smtp_message from to subject body = ''From: '' @ from @ crlf @ ''To: '' @ to @ crlf @ ''Subject: '' @ subject @ crlf @
     ''MIME-Version: 1.0'' @ crlf @ ''Content-Type: text/plain; charset=UTF-8'' @ crlf @ crlf @ body @ crlf"

record mail =
  ml_addr :: string
  ml_auth :: "(string \<times> string) option"
  ml_from :: string
  ml_to :: string
  ml_message :: string

text \<open>The mail server as the world: the mails it accepted; \<open>refuse\<close> is its answer to a mail.\<close>

definition send_smtp :: "smtp_config \<Rightarrow> (mail \<Rightarrow> go_error option) \<Rightarrow> string \<Rightarrow> string \<Rightarrow> string \<Rightarrow> mail list \<Rightarrow> go_error option \<times> mail list" where
  "send_smtp cfg refuse to subject body sent =
    (let addr = sc_host cfg @ '':'' @ itoa (sc_port cfg);
         from = (if trim_space (sc_from cfg) = [] then ''no-reply@cobo.local'' else sc_from cfg);
         m = \<lparr>ml_addr = addr,
              ml_auth = (if trim_space (sc_user cfg) \<noteq> [] then Some (sc_user cfg, sc_password cfg) else None),
              ml_from = from, ml_to = to, ml_message = smtp_message from to subject body\<rparr>
     in case refuse m of
          Some e \<Rightarrow> (Some (WrapErr (''smtp send to '' @ to @ '' via '' @ addr) e), sent)
        | None \<Rightarrow> (None, sent @ [m]))"

definition deliver_auth_email :: "smtp_config \<Rightarrow> (goany \<Rightarrow> string) \<Rightarrow> (mail \<Rightarrow> go_error option) \<Rightarrow> mail list handler" where
  "deliver_auth_email cfg fmtv refuse e sent =
    (let to = trim_space (sprint_entry fmtv (q_payload e) ''to'');
         subject = trim_space (sprint_entry fmtv (q_payload e) ''subject'');
         body = trim_space (sprint_entry fmtv (q_payload e) ''body'')
     in if to = [] \<or> subject = [] \<or> body = [] then (Some (PlainErr ''invalid auth email payload''), sent)
        else if trim_space (sc_host cfg) = [] then (None, sent)
        else send_smtp cfg refuse to subject body sent)"

definition worker_processor :: "smtp_config \<Rightarrow> (goany \<Rightarrow> string) \<Rightarrow> (mail \<Rightarrow> go_error option) \<Rightarrow> int \<Rightarrow> mail list processor" where
  "worker_processor cfg fmtv refuse batch =
    register_handler ''auth.email_verification_requested'' (deliver_auth_email cfg fmtv refuse)
     (register_handler ''auth.password_reset_requested'' (deliver_auth_email cfg fmtv refuse)
       (register_handler ''notification.dispatch'' (\<lambda>e sent. (None, sent)) (new_processor batch)))"

subsection \<open>Picking a batch\<close>

definition picked :: "int \<Rightarrow> int \<Rightarrow> outbox_item list \<Rightarrow> outbox_item list" where
  "picked n now xs = take (nat n) (sort_key batch_key (filter (due now) xs))"

lemma picked_subset: "set (picked n now xs) \<subseteq> {x \<in> set xs. due now x}"
  unfolding picked_def using set_take_subset [of "nat n" "sort_key batch_key (filter (due now) xs)"] by auto

lemma picked_distinct: "distinct (map row_id xs) \<Longrightarrow> distinct (map row_id (picked n now xs))"
proof -
  assume "distinct (map row_id xs)"
  then have "distinct xs" and inj: "inj_on row_id (set xs)" by (simp_all add: distinct_map)
  then have "distinct (picked n now xs)" by (simp add: picked_def)
  moreover have "inj_on row_id (set (picked n now xs))"
    using inj picked_subset [of n now xs] by (auto intro: inj_on_subset)
  ultimately show ?thesis by (simp add: distinct_map)
qed

lemma picked_earliest:
  assumes "y \<in> set xs" and "due now y" and "y \<notin> set (picked n now xs)"
  shows "length (picked n now xs) = nat n \<and> (\<forall>x \<in> set (picked n now xs). batch_key x \<le> batch_key y)"
proof -
  let ?s = "sort_key batch_key (filter (due now) xs)"
  have split: "?s = take (nat n) ?s @ drop (nat n) ?s" by simp
  have "y \<in> set ?s" using assms by simp
  with assms(3) split have y: "y \<in> set (drop (nat n) ?s)"
    unfolding picked_def by (metis Un_iff set_append)
  have "sorted (map batch_key (take (nat n) ?s) @ map batch_key (drop (nat n) ?s))"
    by (metis append_take_drop_id map_append sorted_sort_key)
  with y have "\<forall>x \<in> set (picked n now xs). batch_key x \<le> batch_key y"
    unfolding picked_def by (auto simp: sorted_append)
  moreover have "nat n \<le> length ?s" using y by (metis drop_all empty_iff list.set(1) nat_le_linear)
  ultimately show ?thesis by (simp add: picked_def)
qed

text \<open>Two orders of the same items give the same batch: the keys are distinct.\<close>

lemma picked_order:
  assumes "distinct (map row_id xs)" and "distinct (map row_id ys)" and "set xs = set ys"
  shows "picked n now xs = picked n now ys"
proof -
  have "sort_key batch_key (filter (due now) xs) = sort_key batch_key (filter (due now) ys)"
  proof (rule map_sorted_distinct_set_unique [where f = batch_key])
    have "inj_on batch_key (set zs)" if "distinct (map row_id zs)" for zs
      using that by (auto simp: distinct_map inj_on_def batch_key_def row_id_def)
    from this [OF assms(1)] this [OF assms(2)] assms
    show "inj_on batch_key (set (sort_key batch_key (filter (due now) xs)) \<union> set (sort_key batch_key (filter (due now) ys)))"
      and "distinct (map batch_key (sort_key batch_key (filter (due now) xs)))"
      and "distinct (map batch_key (sort_key batch_key (filter (due now) ys)))"
      by (auto simp: distinct_map inj_on_def)
    show "set (sort_key batch_key (filter (due now) xs)) = set (sort_key batch_key (filter (due now) ys))"
      using assms(3) by auto
  qed simp_all
  then show ?thesis by (simp add: picked_def)
qed

subsection \<open>The contract of an outbox repository\<close>

type_synonym outbox_view = "string \<rightharpoonup> queued_event \<times> event_status"

definition set_entry :: "string \<Rightarrow> queued_event \<times> event_status \<Rightarrow> outbox_view \<Rightarrow> outbox_view" where
  "set_entry k x v = (if v k = None then v else v(k \<mapsto> x))"

definition claimed :: "queued_event list \<Rightarrow> outbox_view \<Rightarrow> outbox_view" where
  "claimed evs v k = (case v k of None \<Rightarrow> None | Some (e, st) \<Rightarrow> Some (e, if e \<in> set evs then Processing else st))"

definition good_batch :: "int \<Rightarrow> int \<Rightarrow> outbox_view \<Rightarrow> queued_event list \<Rightarrow> bool" where
  "good_batch n now v evs \<longleftrightarrow> distinct (map q_id evs) \<and> length evs \<le> nat n \<and>
     (\<forall>e \<in> set evs. v (q_id e) = Some (e, Pending) \<and> q_available e \<le> now) \<and>
     (\<forall>k e'. v k = Some (e', Pending) \<longrightarrow> q_available e' \<le> now \<longrightarrow> e' \<notin> set evs \<longrightarrow>
        length evs = nat n \<and> (\<forall>e \<in> set evs. (q_available e, q_id e) \<le> (q_available e', q_id e')))"

locale outbox_repository =
  fixes ops :: "'s outbox_ops" and view :: "'s \<Rightarrow> outbox_view" and inv :: "'s \<Rightarrow> bool"
  assumes view_id: "inv s \<Longrightarrow> view s k = Some (e, st) \<Longrightarrow> q_id e = k"
    and insert_fresh: "inv s \<Longrightarrow> view s (ip_id p) = None \<Longrightarrow>
      \<exists>s'. oo_insert ops p s = (Inr (), s') \<and> inv s' \<and> view s' = (view s)(ip_id p \<mapsto> (queued_of p, Pending))"
    and lock_batch: "inv s \<Longrightarrow> 0 < n \<Longrightarrow>
      \<exists>evs s'. oo_lock ops n now s = (Inr evs, s') \<and> inv s' \<and> good_batch n now (view s) evs \<and> view s' = claimed evs (view s)"
    and mark_processed: "inv s \<Longrightarrow> view s k = Some (e, st) \<Longrightarrow>
      inv (snd (oo_processed ops k t s)) \<and> view (snd (oo_processed ops k t s)) = (view s)(k \<mapsto> (e, Processed))"
    and mark_retry: "inv s \<Longrightarrow> view s k = Some (e, st) \<Longrightarrow>
      inv (snd (oo_retry ops k r t msg s)) \<and>
      view (snd (oo_retry ops k r t msg s)) = (view s)(k \<mapsto> (e\<lparr>q_retry := r, q_available := t\<rparr>, Pending))"
    and mark_failed: "inv s \<Longrightarrow> view s k = Some (e, st) \<Longrightarrow>
      inv (snd (oo_failed ops k t msg s)) \<and> view (snd (oo_failed ops k t msg s)) = (view s)(k \<mapsto> (e, FailedPermanent))"

text \<open>What a tick owes an event: the handler registered for its type, if any, runs in the world its
  predecessors of the batch left, and its answer settles the event.\<close>

definition handler_result :: "'w processor \<Rightarrow> queued_event \<Rightarrow> 'w \<Rightarrow> go_error option \<times> 'w" where
  "handler_result p e w = (case pr_handlers p (q_type e) of None \<Rightarrow> (None, w) | Some h \<Rightarrow> h e w)"

definition world_before :: "'w processor \<Rightarrow> queued_event list \<Rightarrow> 'w \<Rightarrow> nat \<Rightarrow> 'w" where
  "world_before p es w i = fold (\<lambda>e w. snd (handler_result p e w)) (take i es) w"

definition settlement :: "int \<Rightarrow> nat \<Rightarrow> queued_event \<Rightarrow> go_error option \<Rightarrow> queued_event \<times> event_status" where
  "settlement now rnd e r =
    (if r = None then (e, Processed)
     else if q_retry e + 1 < 10
     then (e\<lparr>q_retry := q_retry e + 1, q_available := now + backoff_with_jitter rnd (q_retry e + 1)\<rparr>, Pending)
     else (e, FailedPermanent))"

lemma world_before_simps [simp]:
  "world_before p es w 0 = w"
  "world_before p (e # es) w (Suc i) = world_before p es (snd (handler_result p e w)) i"
  by (simp_all add: world_before_def)

lemma backoff_bounds: "1000000000 \<le> backoff r \<and> backoff r \<le> 32 * 1000000000"
proof -
  have "nat ((if r < 1 then 1 else if r > 6 then 6 else r) - 1) \<in> {0, 1, 2, 3, 4, 5}" by auto
  then show ?thesis unfolding backoff_def Let_def by auto
qed

lemma backoff_jitter_bounds:
  "backoff r \<le> backoff_with_jitter rnd r \<and> backoff_with_jitter rnd r \<le> backoff r + backoff r div 4"
proof -
  have b: "\<not> backoff r \<le> 0" "1 \<le> backoff r div 4" using backoff_bounds [of r] by auto
  then have "0 \<le> int rnd mod (backoff r div 4 + 1)" "int rnd mod (backoff r div 4 + 1) \<le> backoff r div 4"
    using pos_mod_bound [of "backoff r div 4 + 1" "int rnd"] by auto
  with b show ?thesis unfolding backoff_with_jitter_def Let_def by simp
qed

context outbox_repository
begin

lemma handle_event_view:
  assumes "inv s" and "view s (q_id e) = Some (e, st)"
  shows "inv (fst (handle_event ops p now rnd e (s, w))) \<and>
    view (fst (handle_event ops p now rnd e (s, w))) =
      (view s)(q_id e \<mapsto> settlement now rnd e (fst (handler_result p e w))) \<and>
    snd (handle_event ops p now rnd e (s, w)) = snd (handler_result p e w)"
proof (cases "pr_handlers p (q_type e)")
  case None
  with mark_processed [OF assms, of now] show ?thesis by (simp add: handle_event_def handler_result_def settlement_def)
next
  case (Some h)
  obtain r w' where h: "h e w = (r, w')" by fastforce
  show ?thesis
  proof (cases r)
    case None
    with Some h mark_processed [OF assms, of now] show ?thesis
      by (simp add: handle_event_def handler_result_def settlement_def)
  next
    case err: (Some err)
    show ?thesis
    proof (cases "q_retry e + 1 \<ge> max_retries")
      case True
      with Some h err mark_failed [OF assms, of now "error_text err"] show ?thesis
        by (simp add: handle_event_def handler_result_def settlement_def Let_def max_retries_def)
    next
      case False
      with Some h err mark_retry [OF assms, of "q_retry e + 1"] show ?thesis
        by (simp add: handle_event_def handler_result_def settlement_def Let_def max_retries_def)
    qed
  qed
qed

lemma handle_events_view:
  assumes "inv s" and "distinct (map q_id es)" and "\<forall>e \<in> set es. view s (q_id e) = Some (e, Processing)"
  shows "inv (fst (handle_events ops p clock rnd i es (s, w))) \<and>
    (\<forall>j < length es. view (fst (handle_events ops p clock rnd i es (s, w))) (q_id (es ! j)) =
       Some (settlement (clock (i + j)) (rnd (i + j)) (es ! j) (fst (handler_result p (es ! j) (world_before p es w j))))) \<and>
    (\<forall>k. k \<notin> q_id ` set es \<longrightarrow> view (fst (handle_events ops p clock rnd i es (s, w))) k = view s k) \<and>
    snd (handle_events ops p clock rnd i es (s, w)) = world_before p es w (length es)"
  using assms
proof (induction es arbitrary: s w i)
  case (Cons e es)
  obtain s1 w1 where h: "handle_event ops p (clock i) (rnd i) e (s, w) = (s1, w1)" by fastforce
  let ?x = "settlement (clock i) (rnd i) e (fst (handler_result p e w))"
  have "view s (q_id e) = Some (e, Processing)" using Cons.prems(3) by simp
  note y = handle_event_view [OF Cons.prems(1) this, of p "clock i" "rnd i" w, unfolded h fst_conv snd_conv]
  note x = y [THEN conjunct1] y [THEN conjunct2, THEN conjunct1] y [THEN conjunct2, THEN conjunct2]
  have new: "q_id e \<notin> q_id ` set es" and dist: "distinct (map q_id es)" using Cons.prems(2) by auto
  have old: "view s1 k = view s k" if "k \<noteq> q_id e" for k
    unfolding x(2) using that by (rule fun_upd_other)
  have other: "q_id d \<noteq> q_id e" if "d \<in> set es" for d
    using new imageI [OF that, of q_id] by metis
  have proc: "\<forall>d \<in> set es. view s1 (q_id d) = Some (d, Processing)"
  proof
    fix d assume d: "d \<in> set es"
    have "view s (q_id d) = Some (d, Processing)" by (rule bspec [OF Cons.prems(3)]) (simp add: d)
    then show "view s1 (q_id d) = Some (d, Processing)" unfolding old [OF other [OF d]] .
  qed
  define t where "t = handle_events ops p clock rnd (Suc i) es (s1, w1)"
  have run: "handle_events ops p clock rnd i (e # es) (s, w) = t"
    unfolding t_def by (simp only: handle_events.simps h)
  note IH = Cons.IH [OF x(1) dist proc, of "Suc i" w1, folded t_def]
  have each: "view (fst t) (q_id (es ! j)) = Some (settlement (clock (Suc i + j)) (rnd (Suc i + j)) (es ! j)
      (fst (handler_result p (es ! j) (world_before p es w1 j))))" if "j < length es" for j
    using IH that by blast
  have keep: "view (fst t) k = view s1 k" if "k \<notin> q_id ` set es" for k
    using IH that by blast
  have "view (fst t) (q_id e) = Some ?x" unfolding keep [OF new] x(2) by (rule fun_upd_same)
  with each have "view (fst t) (q_id ((e # es) ! j)) = Some (settlement (clock (i + j)) (rnd (i + j)) ((e # es) ! j)
      (fst (handler_result p ((e # es) ! j) (world_before p (e # es) w j))))" if "j < length (e # es)" for j
    using that by (cases j) (simp_all add: x(3))
  moreover have "view (fst t) k = view s k" if "k \<notin> q_id ` set (e # es)" for k
  proof -
    have "k \<noteq> q_id e" "k \<notin> q_id ` set es" using that by auto
    then show ?thesis using keep old by metis
  qed
  moreover have "snd t = world_before p (e # es) w (length (e # es))" using IH x(3) by simp
  ultimately show ?case using IH unfolding run by blast
qed simp

lemma tick_view:
  assumes "inv s" and "0 < pr_batch p"
  shows "\<exists>evs s' w'. tick ops p clock rnd (s, w) = (Inr (), (s', w')) \<and> inv s' \<and>
    good_batch (pr_batch p) (clock 0) (view s) evs \<and>
    (\<forall>j < length evs. view s' (q_id (evs ! j)) = Some (settlement (clock (Suc j)) (rnd (Suc j)) (evs ! j)
       (fst (handler_result p (evs ! j) (world_before p evs w j))))) \<and>
    (\<forall>k. k \<notin> q_id ` set evs \<longrightarrow> view s' k = view s k) \<and> w' = world_before p evs w (length evs) \<and>
    fst (oo_lock ops (pr_batch p) (clock 0) s) = Inr evs"
proof -
  obtain evs s1 where l: "oo_lock ops (pr_batch p) (clock 0) s = (Inr evs, s1)" "inv s1"
    "good_batch (pr_batch p) (clock 0) (view s) evs" "view s1 = claimed evs (view s)"
    using lock_batch [OF assms] by blast
  obtain s' w' where run: "handle_events ops p clock rnd 1 evs (s1, w) = (s', w')" by fastforce
  have proc: "\<forall>e \<in> set evs. view s1 (q_id e) = Some (e, Processing)"
    using l(3,4) by (auto simp: good_batch_def claimed_def)
  have kept: "view s1 k = view s k" if "k \<notin> q_id ` set evs" for k
    using l(4) that view_id [OF assms(1), of k] by (auto simp: claimed_def image_iff split: option.splits)
  have "distinct (map q_id evs)" using l(3) by (simp add: good_batch_def)
  note H = handle_events_view [OF l(2) this proc, of p clock rnd 1 w, unfolded run fst_conv snd_conv plus_1_eq_Suc]
  have "tick ops p clock rnd (s, w) = (Inr (), (s', w'))" unfolding tick_def prod.case l(1) sum.case run ..
  moreover have "\<forall>k. k \<notin> q_id ` set evs \<longrightarrow> view s' k = view s k" using H kept by metis
  moreover have "fst (oo_lock ops (pr_batch p) (clock 0) s) = Inr evs" unfolding l(1) by (rule fst_conv)
  ultimately show ?thesis using H l(3) by blast
qed

end

subsection \<open>Both repositories meet the contract\<close>

definition item_view :: "outbox_item \<Rightarrow> queued_event \<times> event_status" where
  "item_view it = (oi_event it, oi_status it)"

definition lists_view :: "outbox_item list \<Rightarrow> outbox_view \<Rightarrow> bool" where
  "lists_view xs v \<longleftrightarrow> distinct (map row_id xs) \<and>
     (\<forall>k x. v k = Some x \<longleftrightarrow> (\<exists>it \<in> set xs. row_id it = k \<and> x = item_view it))"

lemma lists_view_event:
  assumes "lists_view xs v" and "it \<in> set xs" and "it' \<in> set xs" and "oi_event it = oi_event it'"
  shows "it = it'"
proof (rule inj_onD [of row_id "set xs"])
  show "inj_on row_id (set xs)" using assms(1) unfolding lists_view_def distinct_map by blast
  show "row_id it = row_id it'" by (simp only: row_id_def assms(4))
qed (rule assms)+

lemma map_row_id: "map q_id (map oi_event xs) = map row_id xs"
  by (induction xs) (simp_all add: row_id_def)

lemma good_batch_picked:
  assumes v: "lists_view xs v" and ids: "distinct (map q_id evs)"
    and evs: "set evs = oi_event ` set (picked n now xs)" and len: "length evs = length (picked n now xs)"
  shows "good_batch n now v evs"
proof -
  have pick: "it \<in> set xs \<and> due now it" if "it \<in> set (picked n now xs)" for it
    using that picked_subset by blast
  have "v (q_id e) = Some (e, Pending) \<and> q_available e \<le> now" if "e \<in> set evs" for e
  proof -
    have "e \<in> oi_event ` set (picked n now xs)" using that unfolding evs .
    then obtain it where it: "e = oi_event it" "it \<in> set (picked n now xs)" by (rule imageE)
    have "v (row_id it) = Some (item_view it)"
      using v pick [OF it(2)] unfolding lists_view_def by blast
    with pick [OF it(2)] show ?thesis unfolding it(1) row_id_def item_view_def due_def by simp
  qed
  moreover have "length evs = nat n \<and> (\<forall>e \<in> set evs. (q_available e, q_id e) \<le> (q_available e', q_id e'))"
    if "v k = Some (e', Pending)" and "q_available e' \<le> now" and "e' \<notin> set evs" for k e'
  proof -
    note prem = that
    obtain it' where it': "it' \<in> set xs" "(e', Pending) = item_view it'"
      using v prem(1) unfolding lists_view_def by blast
    then have e': "e' = oi_event it'" "oi_status it' = Pending" by (simp_all add: item_view_def)
    have "due now it'" using prem(2) e' by (simp add: due_def)
    moreover have "it' \<notin> set (picked n now xs)" using prem(3) unfolding evs e'(1) by blast
    ultimately have *: "length (picked n now xs) = nat n \<and> (\<forall>x \<in> set (picked n now xs). batch_key x \<le> batch_key it')"
      using picked_earliest [OF it'(1)] by blast
    show ?thesis unfolding evs e'(1) len using * unfolding batch_key_def by blast
  qed
  moreover have "length evs \<le> nat n" using len by (simp add: picked_def)
  ultimately show ?thesis using ids unfolding good_batch_def by blast
qed

text \<open>In memory.\<close>

definition mem_view :: "outbox_map \<Rightarrow> outbox_view" where
  "mem_view m k = map_option item_view (m k)"

definition mem_inv :: "outbox_map \<Rightarrow> bool" where
  "mem_inv m \<longleftrightarrow> finite (dom m) \<and> (\<forall>k it. m k = Some it \<longrightarrow> row_id it = k)"

definition key_order :: "outbox_map \<Rightarrow> string list" where
  "key_order m = sorted_list_of_set (dom m)"

lemma key_order: "mem_inv m \<Longrightarrow> map_order m (key_order m)"
  by (simp add: mem_inv_def map_order_def key_order_def)

lemma mem_lists_view:
  assumes "mem_inv m" and "map_order m ks"
  shows "lists_view (map_values m ks) (mem_view m)"
proof -
  have "map row_id (map_values m ks') = filter (\<lambda>k. m k \<noteq> None) ks'" for ks'
    using assms(1) by (induction ks') (auto simp: mem_inv_def split: option.splits)
  then have "distinct (map row_id (map_values m ks))" using assms(2) by (simp add: map_order_def)
  then show ?thesis
    using assms by (force simp: lists_view_def mem_view_def set_map_values_order ran_def mem_inv_def)
qed

definition claim_items :: "string set \<Rightarrow> outbox_map \<Rightarrow> outbox_map" where
  "claim_items ks m k = (if k \<in> ks then map_option (\<lambda>i. i\<lparr>oi_status := Processing\<rparr>) (m k) else m k)"

lemma claim_items_step:
  "claim_items ks (change_item k (\<lambda>i. i\<lparr>oi_status := Processing\<rparr>) m) = claim_items (insert k ks) m"
  by (rule ext) (simp add: claim_items_def change_item_def split: option.split)

lemma mem_lock_fold:
  "fold (\<lambda>it. change_item (q_id (oi_event it)) (\<lambda>i. i\<lparr>oi_status := Processing\<rparr>)) out m =
    claim_items (row_id ` set out) m"
proof (induction out arbitrary: m)
  case Nil
  show ?case by (simp add: claim_items_def fun_eq_iff)
next
  case (Cons it out)
  show ?case
    unfolding fold_Cons comp_def Cons.IH claim_items_step list.set image_insert row_id_def [of it, symmetric] ..
qed

lemma change_item_view:
  assumes "mem_inv m" and "mem_view m k = Some (e, st)"
    and "\<And>it. row_id (f it) = row_id it" and "\<And>it. oi_event it = e \<Longrightarrow> item_view (f it) = y"
  shows "mem_inv (change_item k f m) \<and> mem_view (change_item k f m) = (mem_view m)(k \<mapsto> y)"
proof -
  obtain it where it: "m k = Some it" "oi_event it = e" using assms(2) by (auto simp: mem_view_def item_view_def)
  then have m': "change_item k f m = m(k \<mapsto> f it)" by (simp add: change_item_def)
  have "mem_inv (m(k \<mapsto> f it))" using assms(1,3) it(1) by (simp add: mem_inv_def)
  moreover have "mem_view (m(k \<mapsto> f it)) = (mem_view m)(k \<mapsto> y)"
    using assms(4) [OF it(2)] by (simp add: mem_view_def fun_eq_iff)
  ultimately show ?thesis unfolding m' by blast
qed

lemma mem_lock_contract:
  assumes "mem_inv m" and "map_order m (order m)"
  shows "\<exists>evs m'. mem_lock order n now m = (Inr evs, m') \<and> mem_inv m' \<and> good_batch n now (mem_view m) evs \<and>
    mem_view m' = claimed evs (mem_view m)"
proof -
  let ?xs = "map_values m (order m)" let ?out = "picked n now ?xs"
  have v: "lists_view ?xs (mem_view m)" by (rule mem_lists_view [OF assms])
  define m' where "m' = claim_items (row_id ` set ?out) m"
  have run: "mem_lock order n now m = (Inr (map oi_event ?out), m')"
    by (simp only: mem_lock_def Let_def mem_lock_fold m'_def picked_def)
  have "distinct (map q_id (map oi_event ?out))"
    unfolding map_row_id by (rule picked_distinct) (use v in \<open>unfold lists_view_def, blast\<close>)
  from good_batch_picked [OF v this] have good: "good_batch n now (mem_view m) (map oi_event ?out)" by simp
  have "dom m' = dom m" by (auto simp: m'_def claim_items_def dom_def)
  then have "mem_inv m'" using assms(1)
    by (auto simp: mem_inv_def m'_def claim_items_def row_id_def split: if_splits)
  moreover have "mem_view m' k = claimed (map oi_event ?out) (mem_view m) k" for k
  proof (cases "m k")
    case (Some it)
    then have mem: "it \<in> set ?xs" and k: "row_id it = k"
      using assms by (auto simp: set_map_values_order ran_def mem_inv_def)
    have sub: "set ?out \<subseteq> set ?xs" using picked_subset by blast
    have "k \<in> row_id ` set ?out \<longleftrightarrow> it \<in> set ?out"
      using v mem sub k unfolding lists_view_def distinct_map inj_on_def by blast
    moreover have "it \<in> set ?out \<longleftrightarrow> oi_event it \<in> oi_event ` set ?out"
      using lists_view_event [OF v mem] sub by blast
    ultimately show ?thesis using Some by (simp add: mem_view_def m'_def claim_items_def claimed_def item_view_def)
  qed (simp add: mem_view_def m'_def claim_items_def claimed_def)
  ultimately show ?thesis using run good by blast
qed

lemmas set_item_simps = set_processed_def set_retry_def set_failed_def row_id_def item_view_def

interpretation mem: outbox_repository "mem_outbox key_order" mem_view mem_inv
proof unfold_locales
  fix m k e st assume "mem_inv m" "mem_view m k = Some (e, st)"
  then show "q_id e = k" by (auto simp: mem_inv_def mem_view_def item_view_def row_id_def)
next
  fix m and p :: insert_params assume "mem_inv m" "mem_view m (ip_id p) = None"
  then have "mem_inv (m(ip_id p \<mapsto> new_item p)) \<and>
      mem_view (m(ip_id p \<mapsto> new_item p)) = (mem_view m)(ip_id p \<mapsto> (queued_of p, Pending))"
    by (simp add: mem_inv_def mem_view_def new_item_def queued_of_def row_id_def item_view_def fun_eq_iff)
  then show "\<exists>m'. oo_insert (mem_outbox key_order) p m = (Inr (), m') \<and> mem_inv m' \<and>
      mem_view m' = (mem_view m)(ip_id p \<mapsto> (queued_of p, Pending))"
    unfolding mem_outbox_def mem_insert_def outbox_ops.select_convs by blast
next
  fix m n now assume "mem_inv m"
  from mem_lock_contract [of m key_order n now, OF this key_order [OF this]]
  show "\<exists>evs m'. oo_lock (mem_outbox key_order) n now m = (Inr evs, m') \<and> mem_inv m' \<and>
      good_batch n now (mem_view m) evs \<and> mem_view m' = claimed evs (mem_view m)"
    by (simp add: mem_outbox_def)
next
  fix m k e st t assume v: "mem_inv m" "mem_view m k = Some (e, st)"
  show "mem_inv (snd (oo_processed (mem_outbox key_order) k t m)) \<and>
      mem_view (snd (oo_processed (mem_outbox key_order) k t m)) = (mem_view m)(k \<mapsto> (e, Processed))"
    using change_item_view [OF v, of "set_processed t"] by (simp add: mem_outbox_def mem_mark_processed_def set_item_simps)
next
  fix m k e st r t msg assume v: "mem_inv m" "mem_view m k = Some (e, st)"
  show "mem_inv (snd (oo_retry (mem_outbox key_order) k r t msg m)) \<and>
      mem_view (snd (oo_retry (mem_outbox key_order) k r t msg m)) =
        (mem_view m)(k \<mapsto> (e\<lparr>q_retry := r, q_available := t\<rparr>, Pending))"
    using change_item_view [OF v, of "set_retry r t msg"] by (simp add: mem_outbox_def mem_mark_retry_def set_item_simps)
next
  fix m k e st t msg assume v: "mem_inv m" "mem_view m k = Some (e, st)"
  show "mem_inv (snd (oo_failed (mem_outbox key_order) k t msg m)) \<and>
      mem_view (snd (oo_failed (mem_outbox key_order) k t msg m)) = (mem_view m)(k \<mapsto> (e, FailedPermanent))"
    using change_item_view [OF v, of "set_failed t msg"] by (simp add: mem_outbox_def mem_mark_failed_def set_item_simps)
qed

text \<open>The batch does not depend on the order in which Go ranges over the map.\<close>

lemma mem_lock_order:
  assumes "mem_inv m" and "map_order m (order m)"
  shows "mem_lock order n now m = mem_lock key_order n now m"
proof -
  have "lists_view (map_values m (order m)) (mem_view m)" "lists_view (map_values m (key_order m)) (mem_view m)"
    using mem_lists_view assms key_order by blast+
  then have "picked n now (map_values m (order m)) = picked n now (map_values m (key_order m))"
    using assms key_order [OF assms(1)] unfolding lists_view_def
    by (intro picked_order) (simp_all only: set_map_values_order)
  then show ?thesis by (simp add: mem_lock_def picked_def)
qed

text \<open>In MySQL.\<close>

definition sql_view :: "outbox_table \<Rightarrow> outbox_view" where
  "sql_view rows = map_of (map (\<lambda>r. (row_id r, item_view r)) rows)"

definition sql_inv :: "outbox_table \<Rightarrow> bool" where
  "sql_inv rows \<longleftrightarrow> distinct (map row_id rows)"

lemma sql_lists_view: "sql_inv rows \<Longrightarrow> lists_view rows (sql_view rows)"
  by (auto simp: lists_view_def sql_inv_def sql_view_def map_of_eq_Some_iff comp_def)

lemma update_rows_ids:
  assumes "\<And>r. row_id (f r) = row_id r"
  shows "map row_id (update_rows P f rows) = map row_id rows"
  using assms by (simp add: update_rows_def)

lemma update_rows_view:
  assumes "sql_inv rows" and "sql_view rows k = Some (e, st)"
    and "\<And>r. row_id (f r) = row_id r" and "\<And>r. oi_event r = e \<Longrightarrow> item_view (f r) = y"
  shows "sql_inv (update_rows (\<lambda>r. row_id r = k) f rows) \<and>
    sql_view (update_rows (\<lambda>r. row_id r = k) f rows) = (sql_view rows)(k \<mapsto> y)"
  using assms(1,2)
proof (induction rows)
  case Nil
  then show ?case by (simp add: sql_view_def)
next
  case (Cons r rows)
  have inv: "sql_inv rows" "row_id r \<notin> set (map row_id rows)" using Cons.prems(1) by (simp_all add: sql_inv_def)
  have ids: "map row_id (update_rows (\<lambda>r. row_id r = k) f rows) = map row_id rows"
    by (rule update_rows_ids) (rule assms(3))
  show ?case
  proof (cases "row_id r = k")
    case True
    then have "oi_event r = e" using Cons.prems(2) by (simp add: sql_view_def item_view_def)
    then have y: "item_view (f r) = y" by (rule assms(4))
    have "update_rows (\<lambda>r. row_id r = k) f rows = rows"
      unfolding update_rows_def by (rule map_idI) (use inv(2) True in \<open>auto simp: image_iff\<close>)
    with True y assms(3) [of r] Cons.prems(1) show ?thesis
      by (simp add: update_rows_def sql_inv_def sql_view_def fun_eq_iff)
  next
    case False
    with Cons.prems(2) have "sql_view rows k = Some (e, st)" by (simp add: sql_view_def)
    note IH = Cons.IH [OF inv(1) this]
    have step: "update_rows (\<lambda>r. row_id r = k) f (r # rows) = r # update_rows (\<lambda>r. row_id r = k) f rows"
      using False by (simp add: update_rows_def)
    have view: "sql_view (r # zs) = (sql_view zs)(row_id r \<mapsto> item_view r)" for zs by (simp add: sql_view_def)
    have "sql_inv (r # update_rows (\<lambda>r. row_id r = k) f rows)"
      using IH inv(2) ids unfolding sql_inv_def by simp
    with IH False show ?thesis unfolding step view by (auto simp: fun_eq_iff)
  qed
qed

lemma sql_lock_contract:
  assumes "sql_inv rows" and "0 < n"
  shows "\<exists>evs rows'. sql_lock n now rows = (Inr evs, rows') \<and> sql_inv rows' \<and> good_batch n now (sql_view rows) evs \<and>
    sql_view rows' = claimed evs (sql_view rows)"
proof -
  let ?out = "picked n now rows" let ?ids = "map row_id ?out"
  have v: "lists_view rows (sql_view rows)" by (rule sql_lists_view [OF assms(1)])
  have sub: "set ?out \<subseteq> {r \<in> set rows. due now r}" by (rule picked_subset)
  have inj: "inj_on row_id (set rows)" using v unfolding lists_view_def distinct_map by blast
  have mem: "row_id r \<in> set ?ids \<longleftrightarrow> r \<in> set ?out" if "r \<in> set rows" for r
    using that sub inj unfolding inj_on_def set_map by blast
  let ?P = "\<lambda>r. row_id r \<in> set ?ids \<and> oi_status r = Pending" let ?f = "\<lambda>r :: outbox_item. r\<lparr>oi_status := Processing\<rparr>"
  define rows' where "rows' = update_rows ?P ?f rows"
  define evs where "evs = map oi_event (filter (\<lambda>r. row_id r \<in> set ?ids) rows')"
  have run: "sql_lock n now rows = (Inr evs, rows')"
  proof (cases "?ids = []")
    case True
    then have "rows' = rows" "evs = []" by (simp_all add: rows'_def evs_def update_rows_def)
    with True assms(2) show ?thesis by (simp add: sql_lock_def Let_def picked_def)
  next
    case False
    with assms(2) show ?thesis
      unfolding sql_lock_def Let_def rows'_def evs_def by (simp add: picked_def)
  qed
  have same: "row_id (if ?P r then ?f r else r) = row_id r \<and> oi_event (if ?P r then ?f r else r) = oi_event r" for r
    by (simp add: row_id_def)
  have evs: "evs = map oi_event (filter (\<lambda>r. row_id r \<in> set ?ids) rows)"
    unfolding evs_def rows'_def update_rows_def filter_map map_map comp_def
    by (simp only: same [THEN conjunct1] same [THEN conjunct2])
  have flt: "set (filter (\<lambda>r. row_id r \<in> set ?ids) rows) = set ?out" using mem sub by auto
  have dist: "distinct (map row_id (filter (\<lambda>r. row_id r \<in> set ?ids) rows))"
    using v distinct_map_filter unfolding lists_view_def by blast
  then have "distinct (map q_id evs)" unfolding evs map_row_id .
  moreover have "set evs = oi_event ` set ?out" using flt unfolding evs by (metis set_map)
  moreover have "length evs = length ?out"
    using dist picked_distinct [of rows n now] v flt distinct_card
    unfolding evs length_map lists_view_def distinct_map by metis
  ultimately have good: "good_batch n now (sql_view rows) evs" by (rule good_batch_picked [OF v])
  have "map row_id rows' = map row_id rows"
    unfolding rows'_def by (rule update_rows_ids) (simp add: row_id_def)
  then have inv: "sql_inv rows'" using assms(1) by (simp add: sql_inv_def)
  have "sql_view rows' k = claimed evs (sql_view rows) k" for k
  proof (cases "sql_view rows k")
    case None
    then have "k \<notin> set (map row_id rows')"
      unfolding \<open>map row_id rows' = map row_id rows\<close> by (force simp: sql_view_def map_of_eq_None_iff)
    then have "sql_view rows' k = None" by (force simp: sql_view_def map_of_eq_None_iff)
    with None show ?thesis by (simp add: claimed_def)
  next
    case (Some x)
    then obtain r where r: "r \<in> set rows" "row_id r = k" "x = item_view r"
      using v unfolding lists_view_def by blast
    let ?r = "if ?P r then ?f r else r"
    have "?r \<in> set rows'" unfolding rows'_def update_rows_def set_map using r(1) by (rule imageI)
    moreover have "row_id ?r = k" using same [of r] r(2) by (simp only:)
    ultimately have new: "sql_view rows' k = Some (item_view ?r)"
      using sql_lists_view [OF inv] unfolding lists_view_def by blast
    have out: "oi_event r \<in> set evs \<longleftrightarrow> r \<in> set ?out"
      using lists_view_event [OF v r(1)] sub unfolding \<open>set evs = oi_event ` set ?out\<close> by blast
    show ?thesis
    proof (cases "r \<in> set ?out")
      case True
      then have "oi_status r = Pending" using sub by (auto simp: due_def)
      with True mem [OF r(1)] have "?r = ?f r" by (simp only: simp_thms if_True)
      with new True out Some r(3) show ?thesis by (simp add: claimed_def item_view_def)
    next
      case False
      with mem [OF r(1)] have "?r = r" by (simp only: simp_thms if_False)
      with new False out Some r(3) show ?thesis by (simp add: claimed_def item_view_def)
    qed
  qed
  with run inv good show ?thesis by blast
qed

interpretation sql: outbox_repository sql_outbox sql_view sql_inv
proof unfold_locales
  fix rows k e st assume "sql_inv rows" "sql_view rows k = Some (e, st)"
  with sql_lists_view obtain r where "row_id r = k" "(e, st) = item_view r" unfolding lists_view_def by blast
  then show "q_id e = k" by (simp add: item_view_def row_id_def)
next
  fix rows and p :: insert_params assume inv: "sql_inv rows" and new: "sql_view rows (ip_id p) = None"
  have no: "ip_id p \<notin> set (map row_id rows)" using new by (force simp: sql_view_def map_of_eq_None_iff)
  have id: "row_id (new_item p) = ip_id p" "item_view (new_item p) = (queued_of p, Pending)"
    by (simp_all add: new_item_def queued_of_def row_id_def item_view_def)
  have "sql_inv (rows @ [new_item p])" using inv no id by (simp add: sql_inv_def)
  moreover have "sql_view (rows @ [new_item p]) = (sql_view rows)(ip_id p \<mapsto> (queued_of p, Pending))"
    using new id by (auto simp: sql_view_def map_add_def fun_eq_iff split: option.split)
  ultimately show "\<exists>rows'. oo_insert sql_outbox p rows = (Inr (), rows') \<and> sql_inv rows' \<and>
      sql_view rows' = (sql_view rows)(ip_id p \<mapsto> (queued_of p, Pending))"
    using no by (simp add: sql_outbox_def sql_insert_def)
next
  fix rows and n now :: int assume "sql_inv rows" "0 < n"
  from sql_lock_contract [OF this]
  show "\<exists>evs rows'. oo_lock sql_outbox n now rows = (Inr evs, rows') \<and> sql_inv rows' \<and>
      good_batch n now (sql_view rows) evs \<and> sql_view rows' = claimed evs (sql_view rows)"
    by (simp add: sql_outbox_def)
next
  fix rows k e st t assume v: "sql_inv rows" "sql_view rows k = Some (e, st)"
  show "sql_inv (snd (oo_processed sql_outbox k t rows)) \<and>
      sql_view (snd (oo_processed sql_outbox k t rows)) = (sql_view rows)(k \<mapsto> (e, Processed))"
    using update_rows_view [OF v, of "\<lambda>r. (set_processed t r)\<lparr>oi_error := None\<rparr>"]
    by (simp add: sql_outbox_def sql_mark_processed_def set_item_simps)
next
  fix rows k e st r t msg assume v: "sql_inv rows" "sql_view rows k = Some (e, st)"
  show "sql_inv (snd (oo_retry sql_outbox k r t msg rows)) \<and>
      sql_view (snd (oo_retry sql_outbox k r t msg rows)) =
        (sql_view rows)(k \<mapsto> (e\<lparr>q_retry := r, q_available := t\<rparr>, Pending))"
    using update_rows_view [OF v, of "set_retry r t (take 1024 msg)"]
    by (simp add: sql_outbox_def sql_mark_retry_def set_item_simps)
next
  fix rows k e st t msg assume v: "sql_inv rows" "sql_view rows k = Some (e, st)"
  show "sql_inv (snd (oo_failed sql_outbox k t msg rows)) \<and>
      sql_view (snd (oo_failed sql_outbox k t msg rows)) = (sql_view rows)(k \<mapsto> (e, FailedPermanent))"
    using update_rows_view [OF v, of "set_failed t (take 1024 msg)"]
    by (simp add: sql_outbox_def sql_mark_failed_def set_item_simps)
qed

subsection \<open>Runs of inserts and ticks\<close>

text \<open>The processor with its deliveries logged: the ids of the events handed to a handler.\<close>

definition logged :: "'w processor \<Rightarrow> ('w \<times> string list) processor" where
  "logged p = \<lparr>pr_handlers = (\<lambda>t. map_option (\<lambda>h e wl. case h e (fst wl) of (r, w') \<Rightarrow> (r, (w', snd wl @ [q_id e]))) (pr_handlers p t)),
     pr_batch = pr_batch p\<rparr>"

definition handled :: "'w processor \<Rightarrow> queued_event \<Rightarrow> bool" where
  "handled p e = (pr_handlers p (q_type e) \<noteq> None)"

lemma count_list_distinct: "distinct xs \<Longrightarrow> count_list xs k = (if k \<in> set xs then 1 else 0)"
  by (induction xs) (auto simp: count_list_0_iff)

lemma handle_event_log:
  "snd (snd (handle_event ops (logged p) now rnd e (s, (w, lg)))) = lg @ (if handled p e then [q_id e] else [])"
  by (auto simp: handle_event_def logged_def handled_def Let_def split: option.split prod.split)

lemma handle_events_log:
  "snd (snd (handle_events ops (logged p) clock rnd i es (s, (w, lg)))) = lg @ map q_id (filter (handled p) es)"
proof (induction es arbitrary: i s w lg)
  case (Cons e es)
  obtain s1 w1 lg1 where h: "handle_event ops (logged p) (clock i) (rnd i) e (s, (w, lg)) = (s1, (w1, lg1))"
    by (metis prod.collapse)
  with handle_event_log [of ops p "clock i" "rnd i" e s w lg] Cons.IH [of "Suc i" s1 w1 lg1] show ?case by simp
qed simp

text \<open>What a run keeps of one entry: \<open>n\<close> deliveries so far of an event in this state.\<close>

definition entry_budget :: "(queued_event \<times> event_status) option \<Rightarrow> nat \<Rightarrow> bool" where
  "entry_budget x n = (case x of None \<Rightarrow> n = 0
     | Some (e, st) \<Rightarrow> n \<le> 10 \<and> (st = Pending \<longrightarrow> int n = q_retry e \<and> n \<le> 9))"

lemma settlement_budget:
  assumes "entry_budget (Some (e, Pending)) n"
  shows "entry_budget (Some (settlement now rnd e (fst (handler_result (logged p) e w)))) (n + (if handled p e then 1 else 0))"
  using assms by (auto simp: settlement_def handler_result_def entry_budget_def handled_def logged_def)

context outbox_repository
begin

inductive runs :: "'w processor \<Rightarrow> 's \<Rightarrow> 'w \<Rightarrow> string list \<Rightarrow> bool" for p where
  runs_start: "inv s \<Longrightarrow> view s = Map.empty \<Longrightarrow> runs p s w []"
| runs_insert: "runs p s w lg \<Longrightarrow> view s (ip_id ip) = None \<Longrightarrow> oo_insert ops ip s = (r, s') \<Longrightarrow> runs p s' w lg"
| runs_tick: "runs p s w lg \<Longrightarrow> tick ops (logged p) clock rnd (s, (w, lg)) = (r, (s', (w', lg'))) \<Longrightarrow> runs p s' w' lg'"

lemma tick_log:
  assumes "inv s" and "0 < pr_batch p"
    and "tick ops (logged p) clock rnd (s, (w, lg)) = (r, (s', (w', lg')))"
    and budget: "\<forall>k. entry_budget (view s k) (count_list lg k)"
  shows "inv s' \<and> (\<forall>k. entry_budget (view s' k) (count_list lg' k))"
proof -
  have "0 < pr_batch (logged p)" using assms(2) by (simp add: logged_def)
  from tick_view [OF assms(1) this, of clock rnd "(w, lg)"]
  obtain evs where t: "inv s'" "good_batch (pr_batch (logged p)) (clock 0) (view s) evs"
      "\<forall>j < length evs. view s' (q_id (evs ! j)) = Some (settlement (clock (Suc j)) (rnd (Suc j)) (evs ! j)
         (fst (handler_result (logged p) (evs ! j) (world_before (logged p) evs (w, lg) j))))"
      "\<forall>k. k \<notin> q_id ` set evs \<longrightarrow> view s' k = view s k"
      "fst (oo_lock ops (pr_batch (logged p)) (clock 0) s) = Inr evs"
    unfolding assms(3) by (auto simp only: prod.inject)
  obtain s1 where lock: "oo_lock ops (pr_batch (logged p)) (clock 0) s = (Inr evs, s1)"
    using t(5) by (metis prod.collapse)
  have lg': "lg' = lg @ map q_id (filter (handled p) evs)"
    using assms(3) lock handle_events_log [of ops p clock rnd 1 evs s1 w lg]
    by (simp add: tick_def)
  have "entry_budget (view s' k) (count_list lg' k)" for k
  proof (cases "k \<in> q_id ` set evs")
    case False
    then have "count_list (map q_id (filter (handled p) evs)) k = 0" by (auto simp: count_list_0_iff)
    with False t(4) budget lg' show ?thesis by simp
  next
    case True
    then obtain j where j: "j < length evs" "k = q_id (evs ! j)" by (auto simp: in_set_conv_nth)
    let ?e = "evs ! j"
    have e: "?e \<in> set evs" using j(1) by simp
    have dist: "distinct (map q_id evs)" and pend: "view s k = Some (?e, Pending)"
      using t(2) e j(2) unfolding good_batch_def by blast+
    have "distinct (map q_id (filter (handled p) evs))" using dist by (simp add: distinct_map_filter)
    then have "count_list (map q_id (filter (handled p) evs)) k = (if k \<in> q_id ` set (filter (handled p) evs) then 1 else 0)"
      by (simp add: count_list_distinct)
    moreover have "k \<in> q_id ` set (filter (handled p) evs) \<longleftrightarrow> handled p ?e"
      using e j(2) dist unfolding distinct_map inj_on_def by auto
    ultimately have "count_list lg' k = count_list lg k + (if handled p ?e then 1 else 0)" using lg' by simp
    moreover have "entry_budget (Some (?e, Pending)) (count_list lg k)" using budget pend by metis
    ultimately show ?thesis using settlement_budget t(3) j by metis
  qed
  with t(1) show ?thesis by blast
qed

lemma runs_budget:
  assumes "runs p s w lg" and "0 < pr_batch p"
  shows "inv s \<and> (\<forall>k. entry_budget (view s k) (count_list lg k))"
  using assms(1)
proof (induction rule: runs.induct)
  case (runs_insert s w lg ip r s')
  have "inv s" using runs_insert.IH by blast
  from insert_fresh [OF this runs_insert.hyps(2)]
  obtain t where t: "oo_insert ops ip s = (Inr (), t)" "inv t" "view t = (view s)(ip_id ip \<mapsto> (queued_of ip, Pending))"
    by (elim exE conjE) (rule that)
  have "s' = t" using trans [OF t(1) [symmetric] runs_insert.hyps(3)] by (simp only: prod.inject)
  moreover have "entry_budget (view s (ip_id ip)) (count_list lg (ip_id ip))" using runs_insert.IH by blast
  then have "count_list lg (ip_id ip) = 0" unfolding runs_insert.hyps(2) entry_budget_def option.case .
  then have "entry_budget (Some (queued_of ip, Pending)) (count_list lg (ip_id ip))"
    by (simp add: entry_budget_def queued_of_def)
  moreover have "entry_budget (view t k) (count_list lg k)" if "k \<noteq> ip_id ip" for k
    unfolding t(3) fun_upd_other [OF that] using runs_insert.IH by blast
  ultimately have "entry_budget (view t k) (count_list lg k)" for k
    by (cases "k = ip_id ip") (simp_all add: t(3))
  with t(2) \<open>s' = t\<close> show ?case by blast
next
  case (runs_tick s w lg clock rnd r s' w' lg')
  then show ?case using tick_log [OF _ assms(2)] by blast
qed (simp add: entry_budget_def)

lemma runs_at_most_ten:
  assumes "runs p s w lg" and "0 < pr_batch p"
  shows "count_list lg k \<le> 10"
  using runs_budget [OF assms] by (auto simp: entry_budget_def dest!: spec [of _ k] split: option.splits)

end

subsection \<open>Properties\<close>

text \<open>C2: a tick of the processor over the in-memory outbox never fails and settles its batch exactly as the
  handlers decide. It claims at most the batch size of the due pending events, earliest first and leaving none
  out while there is room. The j-th event of the batch is handled in the world that the handlers of the events
  before it left, and ends as its own handler answers there: processed when the handler succeeds or there is
  none; on an error pending again with its retry count raised by one and the availability that the clock and
  the random number read for it give; permanently failed when the error is its tenth. The world at the end is
  the one after the last handler, every event outside the batch is untouched, and the order in which Go ranges
  over the map does not matter.\<close>

theorem tick_settles_batch:
  assumes "mem_inv m" and "map_order m (order m)" and "0 < pr_batch p"
    and "tick (mem_outbox order) p clock rnd (m, w) = (r, (m', w'))"
  shows "r = Inr () \<and> mem_inv m' \<and> (\<exists>evs. good_batch (pr_batch p) (clock 0) (mem_view m) evs \<and>
    (\<forall>j < length evs. mem_view m' (q_id (evs ! j)) = Some (settlement (clock (Suc j)) (rnd (Suc j)) (evs ! j)
       (fst (handler_result p (evs ! j) (world_before p evs w j))))) \<and>
    w' = world_before p evs w (length evs) \<and>
    (\<forall>k. k \<notin> q_id ` set evs \<longrightarrow> mem_view m' k = mem_view m k))"
proof -
  have marks: "handle_events (mem_outbox order) p clock rnd i es sw = handle_events (mem_outbox key_order) p clock rnd i es sw"
    for i es sw
  proof (induction es arbitrary: i sw)
    case (Cons e es)
    have "handle_event (mem_outbox order) p (clock i) (rnd i) e sw = handle_event (mem_outbox key_order) p (clock i) (rnd i) e sw"
      unfolding handle_event_def mem_outbox_def outbox_ops.select_convs ..
    then show ?case using Cons.IH by simp
  qed simp
  have lock: "oo_lock (mem_outbox order) n t m = oo_lock (mem_outbox key_order) n t m" for n t
    using mem_lock_order [of m order n t] assms(1,2) by (simp add: mem_outbox_def)
  have "tick (mem_outbox key_order) p clock rnd (m, w) = (r, (m', w'))"
    using assms(4) unfolding tick_def prod.case lock marks .
  with mem.tick_view [OF assms(1,3), of clock rnd w] show ?thesis by (metis Pair_inject)
qed

definition wit_event :: insert_params where
  "wit_event = \<lparr>ip_id = ''e1'', ip_agg_type = ''user'', ip_agg_id = ''u1'', ip_type = ''notification.dispatch'',
     ip_payload = [], ip_available = 3\<rparr>"

theorem tick_settles_batch_witness:
  "fst (tick (mem_outbox (\<lambda>_. [''e1''])) (worker_processor \<lparr>sc_host = [], sc_port = 25, sc_user = [], sc_password = [],
      sc_from = []\<rparr> (\<lambda>_. []) (\<lambda>_. None) 0) (\<lambda>_. 5) (\<lambda>_. 0) ([''e1'' \<mapsto> new_item wit_event], [])) = Inr ()"
proof -
  let ?m = "[''e1'' \<mapsto> new_item wit_event]"
  let ?p = "worker_processor \<lparr>sc_host = [], sc_port = 25, sc_user = [], sc_password = [], sc_from = []\<rparr> (\<lambda>_. []) (\<lambda>_. None) 0"
  obtain r m' w' where run: "tick (mem_outbox (\<lambda>_. [''e1''])) ?p (\<lambda>_. 5) (\<lambda>_. 0) (?m, []) = (r, (m', w'))"
    by (metis prod.collapse)
  have "mem_inv ?m" by (simp add: mem_inv_def row_id_def new_item_def queued_of_def wit_event_def)
  moreover have "map_order ?m ((\<lambda>_. [''e1'']) ?m)" by (simp add: map_order_def)
  moreover have "0 < pr_batch ?p" by (simp add: worker_processor_def register_handler_def new_processor_def)
  ultimately have "r = Inr ()"
    using tick_settles_batch [where order = "\<lambda>_. [''e1'']", OF _ _ _ run] by blast
  with run show ?thesis by simp
qed

text \<open>C3: bounded redelivery: in any history of inserts of new events and ticks, over either repository,
  each event is handed to a handler at most ten times, whatever the handlers do.\<close>

theorem delivered_at_most_ten:
  assumes "0 < pr_batch p"
  shows "(outbox_repository.runs (mem_outbox key_order) mem_view mem_inv p m w lg \<longrightarrow> count_list lg k \<le> 10) \<and>
    (outbox_repository.runs sql_outbox sql_view sql_inv p rows w lg \<longrightarrow> count_list lg k \<le> 10)"
  using mem.runs_at_most_ten [OF _ assms] sql.runs_at_most_ten [OF _ assms] by (intro conjI impI) simp_all

theorem delivered_at_most_ten_witness:
  "count_list ([] :: string list) ''e1'' \<le> 10 \<and>
    outbox_repository.runs sql_outbox sql_view sql_inv (new_processor 0 :: unit processor) [new_item wit_event] () []"
proof -
  have "sql.runs (new_processor 0) [] () []"
    by (rule sql.runs_start) (simp_all add: sql_inv_def sql_view_def fun_eq_iff)
  then have run: "sql.runs (new_processor 0) [new_item wit_event] () []"
    by (rule sql.runs_insert [where ip = wit_event and r = "Inr ()"])
      (simp_all add: sql_view_def sql_outbox_def sql_insert_def)
  have "0 < pr_batch (new_processor 0 :: unit processor)" by (simp add: new_processor_def)
  from delivered_at_most_ten [OF this, of Map.empty "()" "[]" "''e1''" "[new_item wit_event]"] run
  show ?thesis by simp
qed

text \<open>The retry delay: the backoff of the r-th retry is two to the power min(r, 6) - 1 seconds, the jitter
  never shortens it and adds at most a quarter, so no delay exceeds 40 seconds.\<close>

theorem backoff_schedule:
  "backoff r = 2 ^ nat (max 1 (min r 6) - 1) * 1000000000 \<and>
   backoff r \<le> backoff_with_jitter rnd r \<and> 4 * backoff_with_jitter rnd r \<le> 5 * backoff r \<and>
   backoff_with_jitter rnd r \<le> 40 * 1000000000"
proof -
  have "backoff r = 2 ^ nat (max 1 (min r 6) - 1) * 1000000000"
    by (simp add: backoff_def Let_def min_def max_def)
  moreover have "backoff r \<le> backoff_with_jitter rnd r" "backoff_with_jitter rnd r \<le> backoff r + backoff r div 4"
    using backoff_jitter_bounds by blast+
  ultimately show ?thesis using backoff_bounds [of r] by auto
qed

text \<open>C33: the worker's check for incomplete mails misses an absent recipient: a payload without the key
  \<open>to\<close> prints as \<open><nil>\<close>, which is not blank, so the mail is sent to that address.\<close>

theorem missing_recipient_is_mailed:
  assumes "map_of (q_payload e) ''to'' = None" and "attr_str (q_payload e) ''subject'' = subject"
    and "attr_str (q_payload e) ''body'' = body" and "trim_space subject \<noteq> []" and "trim_space body \<noteq> []"
    and "trim_space (sc_host cfg) \<noteq> []"
  shows "\<exists>m. ml_to m = ''<nil>'' \<and> deliver_auth_email cfg fmtv (\<lambda>_. None) e sent = (None, sent @ [m])"
proof -
  have entry: "sprint_entry fmtv (q_payload e) k = attr_str (q_payload e) k" if "attr_str (q_payload e) k \<noteq> []" for k
    using that by (auto simp: sprint_entry_def attr_str_def split: option.splits goany.splits)
  have "trim_space ''<nil>'' = ''<nil>''" by code_simp
  moreover have "sprint_entry fmtv (q_payload e) ''to'' = ''<nil>''" using assms(1) by (simp add: sprint_entry_def)
  moreover have "subject \<noteq> []" "body \<noteq> []" using assms(4,5) by auto
  ultimately show ?thesis using assms(2-) entry [of "''subject''"] entry [of "''body''"]
    by (simp add: deliver_auth_email_def send_smtp_def Let_def)
qed

theorem missing_recipient_is_mailed_witness:
  "\<exists>m. ml_to m = ''<nil>'' \<and> deliver_auth_email \<lparr>sc_host = ''smtp.local'', sc_port = 25, sc_user = [], sc_password = [],
      sc_from = []\<rparr> (\<lambda>_. []) (\<lambda>_. None)
     (queued_of (wit_event\<lparr>ip_payload := [(''subject'', AStr ''s''), (''body'', AStr ''b'')]\<rparr>)) [] = (None, [] @ [m])"
proof (rule missing_recipient_is_mailed [where subject = "''s''" and body = "''b''"])
  show "trim_space ''s'' \<noteq> []" "trim_space ''b'' \<noteq> []" by code_simp+
  show "trim_space (sc_host \<lparr>sc_host = ''smtp.local'', sc_port = 25, sc_user = [], sc_password = [], sc_from = []\<rparr>) \<noteq> []"
    by code_simp
qed (simp_all add: queued_of_def wit_event_def)

end
