(* ===== verification/OutboxWorkers.thy ===== *)
theory OutboxWorkers
  imports Outbox
begin

section \<open>Concurrent workers on one outbox table\<close>

text \<open>
  Several worker processes run the processor of \<^verbatim>\<open>internal/platform/outbox/processor.go\<close> against one
  MySQL table. The claim of a batch (\<^verbatim>\<open>LockPendingBatch\<close> of
  \<^verbatim>\<open>internal/platform/outbox/mysql/repository.go\<close>) is here a transaction of four statements, each a
  step of its own: the \<^verbatim>\<open>SELECT ... FOR UPDATE SKIP LOCKED\<close>, the \<^verbatim>\<open>UPDATE\<close> to \<^verbatim>\<open>processing\<close>, the
  \<^verbatim>\<open>SELECT\<close> that loads the rows, and the \<^verbatim>\<open>COMMIT\<close>. Between any two of them every other worker, and the
  publishers, may take steps. Row locks are explicit: a locking read takes them and skips rows that another
  transaction has locked, commit and rollback release them. Any statement of the transaction may fail, a mark
  after the handler may fail (the processor drops that error), and a worker may die at any point.
  The handlers and the mail server they talk to are the processor's, one delivery at a time; their deliveries
  are logged with the worker that made them.
\<close>

subsection \<open>Workers and their steps\<close>

text \<open>Where a worker is in \<^verbatim>\<open>Tick\<close>: between ticks, in its transaction after each statement, before the
  handler of the next event of its batch, or between a handler's answer and the mark it asks for.\<close>

datatype stage =
    Idle
  | Selected "string list"
  | Claimed "string list"
  | Loaded "string list" "queued_event list"
  | Handling "queued_event list"
  | Answered queued_event "go_error option" "queued_event list"

record 'w pool =
  pl_rows :: outbox_table
  pl_locks :: "string \<rightharpoonup> nat"
  pl_stage :: "nat \<Rightarrow> stage"
  pl_world :: 'w
  pl_log :: "(nat \<times> string) list"

definition put_stage :: "nat \<Rightarrow> stage \<Rightarrow> 'w pool \<Rightarrow> 'w pool" where
  "put_stage j st s = s\<lparr>pl_stage := (pl_stage s)(j := st)\<rparr>"

definition release_locks :: "nat \<Rightarrow> (string \<rightharpoonup> nat) \<Rightarrow> string \<rightharpoonup> nat" where
  "release_locks j locks k = (if locks k = Some j then None else locks k)"

text \<open>The four statements of the transaction. An empty selection commits at once and ends the tick.\<close>

definition select_skip_locked :: "int \<Rightarrow> int \<Rightarrow> nat \<Rightarrow> 'w pool \<Rightarrow> 'w pool" where
  "select_skip_locked batch now j s =
    (let limit = (if batch \<le> 0 then 50 else batch);
         free = filter (\<lambda>r. due now r \<and> pl_locks s (row_id r) = None) (pl_rows s);
         ids = map row_id (take (nat limit) (sort_key batch_key free))
     in if ids = [] then put_stage j Idle s
        else put_stage j (Selected ids) (s\<lparr>pl_locks := (\<lambda>k. if k \<in> set ids then Some j else pl_locks s k)\<rparr>))"

definition claim_rows :: "string list \<Rightarrow> outbox_table \<Rightarrow> outbox_table" where
  "claim_rows ids rows = update_rows (\<lambda>r. row_id r \<in> set ids \<and> oi_status r = Pending) (\<lambda>r. r\<lparr>oi_status := Processing\<rparr>) rows"

definition load_rows :: "string list \<Rightarrow> outbox_table \<Rightarrow> queued_event list" where
  "load_rows ids rows = map oi_event (filter (\<lambda>r. row_id r \<in> set ids) rows)"

definition commit_batch :: "nat \<Rightarrow> queued_event list \<Rightarrow> 'w pool \<Rightarrow> 'w pool" where
  "commit_batch j evs s = put_stage j (Handling evs) (s\<lparr>pl_locks := release_locks j (pl_locks s)\<rparr>)"

text \<open>The rollback: the update, when it was made, is undone, and the locks are released.\<close>

definition unclaim_rows :: "string list \<Rightarrow> outbox_table \<Rightarrow> outbox_table" where
  "unclaim_rows ids rows = update_rows (\<lambda>r. row_id r \<in> set ids \<and> oi_status r = Processing) (\<lambda>r. r\<lparr>oi_status := Pending\<rparr>) rows"

definition roll_back :: "nat \<Rightarrow> 'w pool \<Rightarrow> 'w pool" where
  "roll_back j s = put_stage j Idle (s\<lparr>pl_locks := release_locks j (pl_locks s),
     pl_rows := (case pl_stage s j of Claimed ids \<Rightarrow> unclaim_rows ids (pl_rows s)
       | Loaded ids evs \<Rightarrow> unclaim_rows ids (pl_rows s) | _ \<Rightarrow> pl_rows s)\<rparr>)"

text \<open>The handler's turn, and the mark its answer asks for.\<close>

definition deliver :: "'w processor \<Rightarrow> nat \<Rightarrow> queued_event \<Rightarrow> queued_event list \<Rightarrow> 'w pool \<Rightarrow> 'w pool" where
  "deliver p j e es s = (case handler_result p e (pl_world s) of (r, w) \<Rightarrow>
     put_stage j (Answered e r es) (s\<lparr>pl_world := w, pl_log := pl_log s @ (if handled p e then [(j, q_id e)] else [])\<rparr>))"

definition mark_answer :: "int \<Rightarrow> nat \<Rightarrow> queued_event \<Rightarrow> go_error option \<Rightarrow> outbox_table \<Rightarrow> outbox_table" where
  "mark_answer now rnd e r rows = (case r of
       None \<Rightarrow> snd (sql_mark_processed (q_id e) now rows)
     | Some err \<Rightarrow> (let next = q_retry e + 1 in
         if next \<ge> max_retries then snd (sql_mark_failed (q_id e) now (error_text err) rows)
         else snd (sql_mark_retry (q_id e) next (now + backoff_with_jitter rnd next) (error_text err) rows)))"

inductive pool_step :: "'w processor \<Rightarrow> 'w pool \<Rightarrow> 'w pool \<Rightarrow> bool" for p where
  step_insert: "pool_step p s (s\<lparr>pl_rows := snd (sql_insert ip (pl_rows s))\<rparr>)"
| step_select: "pl_stage s j = Idle \<Longrightarrow> pool_step p s (select_skip_locked (pr_batch p) now j s)"
| step_claim: "pl_stage s j = Selected ids \<Longrightarrow>
    pool_step p s (put_stage j (Claimed ids) (s\<lparr>pl_rows := claim_rows ids (pl_rows s)\<rparr>))"
| step_load: "pl_stage s j = Claimed ids \<Longrightarrow> pool_step p s (put_stage j (Loaded ids (load_rows ids (pl_rows s))) s)"
| step_commit: "pl_stage s j = Loaded ids evs \<Longrightarrow> pool_step p s (commit_batch j evs s)"
| step_deliver: "pl_stage s j = Handling (e # es) \<Longrightarrow> pool_step p s (deliver p j e es s)"
| step_mark: "pl_stage s j = Answered e r es \<Longrightarrow> pl_locks s (q_id e) = None \<Longrightarrow>
    pool_step p s (put_stage j (Handling es) (s\<lparr>pl_rows := mark_answer now rnd e r (pl_rows s)\<rparr>))"
| step_mark_lost: "pl_stage s j = Answered e r es \<Longrightarrow> pool_step p s (put_stage j (Handling es) s)"
| step_finish: "pl_stage s j = Handling [] \<Longrightarrow> pool_step p s (put_stage j Idle s)"
| step_abort: "pool_step p s (roll_back j s)"

inductive pool_run :: "'w processor \<Rightarrow> 'w pool \<Rightarrow> 'w pool \<Rightarrow> bool" for p s where
  pool_here: "pool_run p s s"
| pool_later: "pool_run p s t \<Longrightarrow> pool_step p t u \<Longrightarrow> pool_run p s u"

definition pool_start :: "'w \<Rightarrow> 'w pool" where
  "pool_start w = \<lparr>pl_rows = [], pl_locks = Map.empty, pl_stage = (\<lambda>_. Idle), pl_world = w, pl_log = []\<rparr>"

text \<open>The events a worker holds: those its open transaction has selected, and those of its batch that it has
  still to settle.\<close>

fun held :: "stage \<Rightarrow> string list" where
  "held Idle = []"
| "held (Selected ids) = ids"
| "held (Claimed ids) = ids"
| "held (Loaded ids evs) = ids"
| "held (Handling evs) = map q_id evs"
| "held (Answered e r es) = q_id e # map q_id es"

definition deliveries :: "string \<Rightarrow> 'w pool \<Rightarrow> nat" where
  "deliveries k s = count_list (map snd (pl_log s)) k"

subsection \<open>The transaction run without interruption is the claim of the repository\<close>

lemma sql_lock_is_transaction:
  assumes "pl_locks s = Map.empty" and "sql_lock batch now (pl_rows s) = (Inr evs, rows')"
  shows "let t = select_skip_locked batch now j s in
    case pl_stage t j of
      Selected ids \<Rightarrow> rows' = claim_rows ids (pl_rows t) \<and> evs = load_rows ids rows'
    | _ \<Rightarrow> t = put_stage j Idle s \<and> evs = [] \<and> rows' = pl_rows s"
proof -
  define ids where "ids = map row_id (take (nat (if batch \<le> 0 then 50 else batch)) (sort_key batch_key (filter (due now) (pl_rows s))))"
  have t: "select_skip_locked batch now j s = (if ids = [] then put_stage j Idle s
      else put_stage j (Selected ids) (s\<lparr>pl_locks := (\<lambda>k. if k \<in> set ids then Some j else pl_locks s k)\<rparr>))"
    unfolding select_skip_locked_def Let_def assms(1) ids_def by simp
  have l: "sql_lock batch now (pl_rows s) = (if ids = [] then (Inr [], pl_rows s)
      else (Inr (load_rows ids (claim_rows ids (pl_rows s))), claim_rows ids (pl_rows s)))"
    unfolding sql_lock_def Let_def load_rows_def claim_rows_def ids_def by simp
  show ?thesis
    using assms(2) unfolding t l Let_def put_stage_def by (cases "ids = []") auto
qed

lemma handle_event_is_deliver_and_mark:
  "handle_event sql_outbox p now rnd e (rows, w) =
    (mark_answer now rnd e (fst (handler_result p e w)) rows, snd (handler_result p e w))"
  unfolding handle_event_def handler_result_def mark_answer_def sql_outbox_def Let_def
  by (simp split: option.split prod.split)

subsection \<open>The invariant of the pool\<close>

text \<open>Changing the status of the rows with given ids from one value to another.\<close>

definition moved :: "string set \<Rightarrow> event_status \<Rightarrow> event_status \<Rightarrow> outbox_view \<Rightarrow> outbox_view" where
  "moved K a b v k = (case v k of None \<Rightarrow> None | Some (e, st) \<Rightarrow> Some (e, if k \<in> K \<and> st = a then b else st))"

lemma enter_simps [simp]:
  "pl_rows (put_stage j st s) = pl_rows s" "pl_locks (put_stage j st s) = pl_locks s"
  "pl_stage (put_stage j st s) = (pl_stage s)(j := st)" "pl_log (put_stage j st s) = pl_log s"
  "deliveries k (put_stage j st s) = deliveries k s" "deliveries k (s\<lparr>pl_rows := rows\<rparr>) = deliveries k s"
  "deliveries k (s\<lparr>pl_locks := locks\<rparr>) = deliveries k s" "deliveries k (s\<lparr>pl_locks := locks, pl_rows := rows\<rparr>) = deliveries k s"
  by (simp_all add: put_stage_def deliveries_def)

lemma sql_view_Cons: "sql_view (r # rows) = (sql_view rows)(row_id r \<mapsto> item_view r)"
  by (simp add: sql_view_def)

lemma update_status_view:
  "sql_view (update_rows (\<lambda>r. row_id r \<in> K \<and> oi_status r = a) (\<lambda>r. r\<lparr>oi_status := b\<rparr>) rows) = moved K a b (sql_view rows)"
proof (induction rows)
  case Nil
  show ?case by (simp add: update_rows_def moved_def sql_view_def fun_eq_iff)
next
  case (Cons r rows)
  have step: "update_rows P f (r # rows) = (if P r then f r else r) # update_rows P f rows" for P f
    by (simp add: update_rows_def)
  show ?case
    unfolding step sql_view_Cons Cons.IH by (auto simp: fun_eq_iff moved_def item_view_def row_id_def)
qed

lemma update_status_inv:
  "sql_inv (update_rows P (\<lambda>r. r\<lparr>oi_status := b\<rparr>) rows) = sql_inv rows"
  by (simp add: sql_inv_def update_rows_ids row_id_def)

lemma moved_outside: "k \<notin> K \<Longrightarrow> moved K a b v k = v k"
  by (simp add: moved_def split: option.split)

lemma moved_inside: "v k = Some (e, a) \<Longrightarrow> k \<in> K \<Longrightarrow> moved K a b v k = Some (e, b)"
  by (simp add: moved_def)

text \<open>What a stage says of the rows its worker holds.\<close>

fun in_tx :: "stage \<Rightarrow> bool" where
  "in_tx (Selected ids) = True"
| "in_tx (Claimed ids) = True"
| "in_tx (Loaded ids evs) = True"
| "in_tx _ = False"

fun held_status :: "stage \<Rightarrow> event_status" where
  "held_status (Selected ids) = Pending"
| "held_status _ = Processing"

fun held_events :: "stage \<Rightarrow> queued_event list" where
  "held_events (Loaded ids evs) = evs"
| "held_events (Handling evs) = evs"
| "held_events (Answered e r es) = e # es"
| "held_events _ = []"

fun slack :: "stage \<Rightarrow> string \<Rightarrow> int" where
  "slack (Answered e r es) k = (if k = q_id e then 1 else 0)"
| "slack _ k = 0"

definition stage_ok :: "outbox_view \<Rightarrow> (string \<rightharpoonup> nat) \<Rightarrow> (string \<Rightarrow> nat) \<Rightarrow> nat \<Rightarrow> stage \<Rightarrow> bool" where
  "stage_ok v locks n j st \<longleftrightarrow> distinct (held st) \<and>
     (\<forall>k \<in> set (held st). locks k = (if in_tx st then Some j else None) \<and>
        (\<exists>e. v k = Some (e, held_status st) \<and> q_retry e \<le> 9 \<and> int (n k) \<le> q_retry e + slack st k)) \<and>
     distinct (map q_id (held_events st)) \<and> set (map q_id (held_events st)) \<subseteq> set (held st) \<and>
     (\<forall>e \<in> set (held_events st). v (q_id e) = Some (e, Processing))"

definition row_budget :: "(queued_event \<times> event_status) option \<Rightarrow> nat \<Rightarrow> bool" where
  "row_budget x n = (case x of None \<Rightarrow> n = 0
     | Some (e, st) \<Rightarrow> n \<le> 10 \<and> (st = Pending \<longrightarrow> q_retry e \<le> 9 \<and> int n \<le> q_retry e))"

definition pool_inv :: "'w pool \<Rightarrow> bool" where
  "pool_inv s \<longleftrightarrow> sql_inv (pl_rows s) \<and>
     (\<forall>j. stage_ok (sql_view (pl_rows s)) (pl_locks s) (\<lambda>k. deliveries k s) j (pl_stage s j)) \<and>
     (\<forall>k i. pl_locks s k = Some i \<longrightarrow> k \<in> set (held (pl_stage s i)) \<and> in_tx (pl_stage s i)) \<and>
     (\<forall>i j. i \<noteq> j \<longrightarrow> set (held (pl_stage s i)) \<inter> set (held (pl_stage s j)) = {}) \<and>
     (\<forall>k. row_budget (sql_view (pl_rows s) k) (deliveries k s))"

lemma stage_ok_cong:
  assumes "stage_ok v locks n j st"
    and "\<And>k. k \<in> set (held st) \<Longrightarrow> v' k = v k \<and> locks' k = locks k \<and> n' k = n k"
  shows "stage_ok v' locks' n' j st"
proof -
  have "q_id e \<in> set (held st)" if "e \<in> set (held_events st)" for e
    using assms(1) that unfolding stage_ok_def by (auto simp: image_subset_iff)
  then show ?thesis using assms unfolding stage_ok_def by (simp add: Ball_def)
qed

lemma unlocked_status: "\<not> in_tx st \<Longrightarrow> held_status st = Processing"
  by (cases st) simp_all

lemma stage_ok_distinct: "stage_ok v locks n j st \<Longrightarrow> distinct (held st)"
  unfolding stage_ok_def by blast

lemma stage_ok_event: "stage_ok v locks n j st \<Longrightarrow> e \<in> set (held_events st) \<Longrightarrow> v (q_id e) = Some (e, Processing)"
  unfolding stage_ok_def by blast

lemma stage_okD:
  assumes "stage_ok v locks n j st" and "k \<in> set (held st)"
  shows "locks k = (if in_tx st then Some j else None)"
    and "\<exists>e. v k = Some (e, held_status st) \<and> q_retry e \<le> 9 \<and> int (n k) \<le> q_retry e + slack st k"
  using assms unfolding stage_ok_def by blast+

text \<open>A stage that holds a part of what another stage holds, outside the transaction.\<close>

lemma stage_ok_part:
  assumes ok: "stage_ok v locks n j st" and st: "\<not> in_tx st" and st': "\<not> in_tx st'"
    and dist: "distinct (held st')" and sub: "set (held st') \<subseteq> set (held st)"
    and evs: "held st' = map q_id (held_events st')" "set (held_events st') \<subseteq> set (held_events st)"
    and n: "\<And>k. k \<in> set (held st') \<Longrightarrow> slack st k = 0"
    and n': "\<And>k. k \<in> set (held st') \<Longrightarrow> int (n' k) \<le> int (n k) + slack st' k"
  shows "stage_ok v locks n' j st'"
proof -
  have status: "held_status st = Processing" "held_status st' = Processing"
    using st st' by (simp_all add: unlocked_status)
  have "locks k = None \<and> (\<exists>d. v k = Some (d, Processing) \<and> q_retry d \<le> 9 \<and> int (n' k) \<le> q_retry d + slack st' k)"
    if k: "k \<in> set (held st')" for k
  proof -
    have k': "k \<in> set (held st)" using k sub by blast
    from stage_okD(2) [OF ok k'] obtain d where "v k = Some (d, Processing)" "q_retry d \<le> 9" "int (n k) \<le> q_retry d"
      unfolding status n [OF k] by auto
    moreover from this(3) have "int (n' k) \<le> q_retry d + slack st' k" using n' [OF k] by linarith
    ultimately show ?thesis using stage_okD(1) [OF ok k'] st by auto
  qed
  moreover have "\<forall>e \<in> set (held_events st'). v (q_id e) = Some (e, Processing)"
    using ok evs(2) unfolding stage_ok_def by blast
  ultimately show ?thesis using dist evs(1) st' unfolding stage_ok_def by (simp add: status)
qed

lemma pool_inv_stage:
  "pool_inv s \<Longrightarrow> stage_ok (sql_view (pl_rows s)) (pl_locks s) (\<lambda>k. deliveries k s) j (pl_stage s j)"
  unfolding pool_inv_def by blast

text \<open>A step of one worker that leaves the others' rows, locks and counts alone keeps the invariant when the
  worker's own new stage is right.\<close>

lemma pool_inv_worker:
  assumes inv: "pool_inv s" and rows: "sql_inv (pl_rows t)"
    and stage: "pl_stage t = (pl_stage s)(j := st)"
    and own: "stage_ok (sql_view (pl_rows t)) (pl_locks t) (\<lambda>k. deliveries k t) j st"
    and others: "\<And>i k. i \<noteq> j \<Longrightarrow> k \<in> set (held (pl_stage s i)) \<Longrightarrow> k \<notin> set (held st) \<and>
      sql_view (pl_rows t) k = sql_view (pl_rows s) k \<and> pl_locks t k = pl_locks s k \<and> deliveries k t = deliveries k s"
    and locks: "\<And>k i. pl_locks t k = Some i \<Longrightarrow>
      (if i = j then k \<in> set (held st) \<and> in_tx st else pl_locks s k = Some i)"
    and budget: "\<And>k. row_budget (sql_view (pl_rows t) k) (deliveries k t)"
  shows "pool_inv t"
proof -
  have "stage_ok (sql_view (pl_rows t)) (pl_locks t) (\<lambda>k. deliveries k t) i (pl_stage t i)" for i
  proof (cases "i = j")
    case False
    show ?thesis unfolding stage fun_upd_other [OF False]
      by (rule stage_ok_cong [OF pool_inv_stage [OF inv, of i]]) (use others [OF False] in blast)
  qed (use own stage in simp)
  moreover have "k \<in> set (held (pl_stage t i)) \<and> in_tx (pl_stage t i)" if "pl_locks t k = Some i" for k i
  proof (cases "i = j")
    case False
    then have "pl_locks s k = Some i" using locks [OF that] by (simp only: if_False)
    then show ?thesis using inv unfolding stage fun_upd_other [OF False] pool_inv_def by blast
  qed (use locks [OF that] stage in simp)
  moreover have "set (held (pl_stage t a)) \<inter> set (held (pl_stage t b)) = {}" if ab: "a \<noteq> b" for a b
  proof -
    consider "a \<noteq> j" "b \<noteq> j" | "a = j" "b \<noteq> j" | "a \<noteq> j" "b = j" using ab by blast
    then show ?thesis
    proof cases
      case 1
      have "set (held (pl_stage s a)) \<inter> set (held (pl_stage s b)) = {}"
        using inv ab unfolding pool_inv_def by blast
      with 1 show ?thesis unfolding stage by simp
    next
      case 2
      with others [OF 2(2)] show ?thesis unfolding stage by auto
    next
      case 3
      with others [OF 3(1)] show ?thesis unfolding stage by auto
    qed
  qed
  ultimately show ?thesis using rows budget unfolding pool_inv_def by blast
qed

lemma held_disjoint:
  "pool_inv s \<Longrightarrow> i \<noteq> j \<Longrightarrow> k \<in> set (held (pl_stage s i)) \<Longrightarrow> k \<notin> set (held (pl_stage s j))"
  unfolding pool_inv_def by blast

lemma held_row:
  assumes "pool_inv s" and "k \<in> set (held (pl_stage s j))"
  shows "\<exists>e. sql_view (pl_rows s) k = Some (e, held_status (pl_stage s j)) \<and> q_retry e \<le> 9 \<and>
    int (deliveries k s) \<le> q_retry e + slack (pl_stage s j) k"
  using pool_inv_stage [OF assms(1), of j] assms(2) unfolding stage_ok_def by blast

lemma held_lock:
  "pool_inv s \<Longrightarrow> k \<in> set (held (pl_stage s j)) \<Longrightarrow> pl_locks s k = (if in_tx (pl_stage s j) then Some j else None)"
  using pool_inv_stage [of s j] unfolding stage_ok_def by blast

lemma lock_owner:
  "pool_inv s \<Longrightarrow> pl_locks s k = Some i \<Longrightarrow> k \<in> set (held (pl_stage s i)) \<and> in_tx (pl_stage s i)"
  unfolding pool_inv_def by blast

lemma budget_at: "pool_inv s \<Longrightarrow> row_budget (sql_view (pl_rows s) k) (deliveries k s)"
  unfolding pool_inv_def by blast

lemma rows_inv: "pool_inv s \<Longrightarrow> sql_inv (pl_rows s)"
  unfolding pool_inv_def by blast

text \<open>A worker that lets go of everything it holds.\<close>

lemma release_locks_other: "release_locks j locks k = Some i \<longleftrightarrow> locks k = Some i \<and> i \<noteq> j"
  by (auto simp: release_locks_def)

lemma release_keeps_held:
  assumes "pool_inv s" and "i \<noteq> j" and "k \<in> set (held (pl_stage s i))"
  shows "release_locks j (pl_locks s) k = pl_locks s k"
  using held_lock [OF assms(1,3)] assms(2) by (simp add: release_locks_def)

lemma insert_keeps_pool:
  assumes inv: "pool_inv s"
  shows "pool_inv (s\<lparr>pl_rows := snd (sql_insert ip (pl_rows s))\<rparr>)"
proof (cases "ip_id ip \<in> set (map row_id (pl_rows s))")
  case True
  then show ?thesis using inv by (simp add: sql_insert_def)
next
  case False
  let ?v = "sql_view (pl_rows s)" let ?rows = "pl_rows s @ [new_item ip]"
  have none: "?v (ip_id ip) = None" using False by (force simp: sql_view_def map_of_eq_None_iff)
  have id: "row_id (new_item ip) = ip_id ip" "item_view (new_item ip) = (queued_of ip, Pending)"
    by (simp_all add: new_item_def queued_of_def row_id_def item_view_def)
  have view: "sql_view ?rows = ?v(ip_id ip \<mapsto> (queued_of ip, Pending))"
    using none id by (auto simp: sql_view_def map_add_def fun_eq_iff split: option.split)
  have rows: "sql_inv ?rows" using rows_inv [OF inv] False id by (simp add: sql_inv_def)
  have new: "k \<noteq> ip_id ip" if "k \<in> set (held (pl_stage s i))" for k i
    using held_row [OF inv that] none by auto
  have "stage_ok (sql_view ?rows) (pl_locks s) (\<lambda>k. deliveries k s) i (pl_stage s i)" for i
    by (rule stage_ok_cong [OF pool_inv_stage [OF inv, of i]]) (use new view in simp)
  moreover have "row_budget (sql_view ?rows k) (deliveries k s)" for k
    using budget_at [OF inv, of k] budget_at [OF inv, of "ip_id ip"] none
    by (cases "k = ip_id ip") (simp_all add: view row_budget_def queued_of_def)
  ultimately show ?thesis using inv rows False unfolding pool_inv_def by (simp add: sql_insert_def deliveries_def)
qed

lemma select_keeps_pool:
  assumes inv: "pool_inv s" and idle: "pl_stage s j = Idle"
  shows "pool_inv (select_skip_locked batch now j s)"
proof -
  define free where "free = filter (\<lambda>r. pl_locks s (row_id r) = None) (pl_rows s)"
  define out where "out = picked (if batch \<le> 0 then 50 else batch) now free"
  let ?ids = "map row_id out" let ?v = "sql_view (pl_rows s)"
  have run: "select_skip_locked batch now j s = (if ?ids = [] then put_stage j Idle s
      else put_stage j (Selected ?ids) (s\<lparr>pl_locks := (\<lambda>k. if k \<in> set ?ids then Some j else pl_locks s k)\<rparr>))"
    unfolding select_skip_locked_def Let_def out_def picked_def free_def by (simp add: conj_commute)
  have "distinct (map row_id free)"
    using rows_inv [OF inv] unfolding sql_inv_def free_def by (rule distinct_map_filter)
  then have dist: "distinct ?ids" unfolding out_def by (rule picked_distinct)
  have row: "pl_locks s k = None \<and> (\<exists>e. ?v k = Some (e, Pending))" if k: "k \<in> set ?ids" for k
  proof -
    obtain r where r: "r \<in> set out" "k = row_id r" using k by auto
    then have "r \<in> set free" "due now r" using picked_subset unfolding out_def by blast+
    then have "r \<in> set (pl_rows s)" "pl_locks s k = None" "oi_status r = Pending"
      using r(2) by (simp_all add: free_def due_def)
    moreover from this(1) have "?v k = Some (item_view r)"
      using sql_lists_view [OF rows_inv [OF inv]] r(2) unfolding lists_view_def by blast
    ultimately show ?thesis by (simp add: item_view_def)
  qed
  have free_row: "k \<notin> set ?ids" if h: "k \<in> set (held (pl_stage s i))" for k i
  proof
    assume k: "k \<in> set ?ids"
    then have "\<not> in_tx (pl_stage s i)" using held_lock [OF inv h] row by fastforce
    then show False using held_row [OF inv h] row [OF k] by (auto simp: unlocked_status)
  qed
  show ?thesis
  proof (cases "?ids = []")
    case True
    have "(pl_stage s)(j := Idle) = pl_stage s" using idle by (simp add: fun_upd_idem)
    then have "select_skip_locked batch now j s = s" using True unfolding run put_stage_def by simp
    with inv show ?thesis by simp
  next
    case False
    let ?t = "put_stage j (Selected ?ids) (s\<lparr>pl_locks := (\<lambda>k. if k \<in> set ?ids then Some j else pl_locks s k)\<rparr>)"
    have "pool_inv ?t"
    proof (rule pool_inv_worker [OF inv, where j = j and st = "Selected ?ids"])
      have "\<exists>e. ?v k = Some (e, Pending) \<and> q_retry e \<le> 9 \<and> int (deliveries k s) \<le> q_retry e" if "k \<in> set ?ids" for k
        using row [OF that] budget_at [OF inv, of k] by (auto simp: row_budget_def)
      then show "stage_ok (sql_view (pl_rows ?t)) (pl_locks ?t) (\<lambda>k. deliveries k ?t) j (Selected ?ids)"
        using dist by (simp add: stage_ok_def put_stage_def deliveries_def)
      show "\<And>k i. pl_locks ?t k = Some i \<Longrightarrow>
          if i = j then k \<in> set (held (Selected ?ids)) \<and> in_tx (Selected ?ids) else pl_locks s k = Some i"
        using lock_owner [OF inv] idle by (fastforce simp: put_stage_def split: if_splits)
    qed (use rows_inv [OF inv] free_row budget_at [OF inv] in \<open>simp_all add: put_stage_def deliveries_def\<close>)
    with False show ?thesis unfolding run by simp
  qed
qed

lemma moved_none: "moved K a b v k = None \<longleftrightarrow> v k = None"
  by (simp add: moved_def split: option.split)

lemma claim_keeps_pool:
  assumes inv: "pool_inv s" and st: "pl_stage s j = Selected ids"
  shows "pool_inv (put_stage j (Claimed ids) (s\<lparr>pl_rows := claim_rows ids (pl_rows s)\<rparr>))" (is "pool_inv ?t")
proof -
  have view: "sql_view (pl_rows ?t) = moved (set ids) Pending Processing (sql_view (pl_rows s))"
    by (simp add: claim_rows_def update_status_view)
  have simps: "pl_locks ?t = pl_locks s" "deliveries k ?t = deliveries k s" for k
    by simp_all
  show ?thesis
  proof (rule pool_inv_worker [OF inv, where j = j and st = "Claimed ids"])
    show "sql_inv (pl_rows ?t)" using rows_inv [OF inv] by (simp add: put_stage_def claim_rows_def update_status_inv)
    show "stage_ok (sql_view (pl_rows ?t)) (pl_locks ?t) (\<lambda>k. deliveries k ?t) j (Claimed ids)"
      using pool_inv_stage [OF inv, of j] unfolding st view simps stage_ok_def
      by (auto dest!: bspec intro: moved_inside)
    show "row_budget (sql_view (pl_rows ?t) k) (deliveries k ?t)" for k
      using budget_at [OF inv, of k] unfolding view simps
      by (auto simp: row_budget_def moved_def split: option.splits)
    fix i k assume i: "i \<noteq> j" and k: "k \<in> set (held (pl_stage s i))"
    have "k \<notin> set ids" using held_disjoint [OF inv i k] by (simp add: st)
    then show "k \<notin> set (held (Claimed ids)) \<and> sql_view (pl_rows ?t) k = sql_view (pl_rows s) k \<and>
        pl_locks ?t k = pl_locks s k \<and> deliveries k ?t = deliveries k s"
      unfolding view simps by (simp add: moved_outside)
  next
    fix k i assume "pl_locks ?t k = Some i"
    then show "if i = j then k \<in> set (held (Claimed ids)) \<and> in_tx (Claimed ids) else pl_locks s k = Some i"
      using lock_owner [OF inv, of k i] st unfolding simps by auto
  qed (simp add: put_stage_def)
qed

lemma loaded_events:
  assumes "sql_inv rows"
  shows "distinct (map q_id (load_rows ids rows)) \<and> set (map q_id (load_rows ids rows)) \<subseteq> set ids"
    and "e \<in> set (load_rows ids rows) \<Longrightarrow> \<exists>st. sql_view rows (q_id e) = Some (e, st)"
proof -
  have "distinct (map row_id (filter (\<lambda>r. row_id r \<in> set ids) rows))"
    using assms unfolding sql_inv_def by (rule distinct_map_filter)
  then show "distinct (map q_id (load_rows ids rows)) \<and> set (map q_id (load_rows ids rows)) \<subseteq> set ids"
    unfolding load_rows_def map_row_id by auto
next
  assume "e \<in> set (load_rows ids rows)"
  then obtain r where r: "r \<in> set rows" "e = oi_event r" unfolding load_rows_def by auto
  then have "sql_view rows (q_id e) = Some (item_view r)"
    using sql_lists_view [OF assms] unfolding lists_view_def row_id_def by blast
  with r(2) show "\<exists>st. sql_view rows (q_id e) = Some (e, st)" by (simp add: item_view_def)
qed

text \<open>A step that only moves the worker on: it keeps a part of what it holds, under the same locks.\<close>

lemma enter_keeps_pool:
  assumes inv: "pool_inv s" and sub: "set (held st) \<subseteq> set (held (pl_stage s j))"
    and own: "stage_ok (sql_view (pl_rows s)) (pl_locks s) (\<lambda>k. deliveries k s) j st"
    and locks: "\<And>k. pl_locks s k = Some j \<Longrightarrow> k \<in> set (held st) \<and> in_tx st"
  shows "pool_inv (put_stage j st s)"
proof (rule pool_inv_worker [OF inv, where j = j and st = st])
  have "k \<notin> set (held st)" if "i \<noteq> j" and "k \<in> set (held (pl_stage s i))" for i k
    using held_disjoint [OF inv that] sub by blast
  then show "\<And>i k. i \<noteq> j \<Longrightarrow> k \<in> set (held (pl_stage s i)) \<Longrightarrow> k \<notin> set (held st) \<and>
      sql_view (pl_rows (put_stage j st s)) k = sql_view (pl_rows s) k \<and> pl_locks (put_stage j st s) k = pl_locks s k \<and>
      deliveries k (put_stage j st s) = deliveries k s"
    by simp
  show "if i = j then k \<in> set (held st) \<and> in_tx st else pl_locks s k = Some i"
    if "pl_locks (put_stage j st s) k = Some i" for k i
    using that locks [of k] by auto
qed (use rows_inv [OF inv] own budget_at [OF inv] in simp_all)

lemma load_keeps_pool:
  assumes inv: "pool_inv s" and st: "pl_stage s j = Claimed ids"
  shows "pool_inv (put_stage j (Loaded ids (load_rows ids (pl_rows s))) s)"
proof (rule enter_keeps_pool [OF inv])
  let ?evs = "load_rows ids (pl_rows s)" let ?v = "sql_view (pl_rows s)"
  have "?v (q_id e) = Some (e, Processing)" if e: "e \<in> set ?evs" for e
  proof -
    have "q_id e \<in> set ids" using loaded_events(1) [OF rows_inv [OF inv], of ids] e by auto
    then have "\<exists>e'. ?v (q_id e) = Some (e', Processing)" using held_row [OF inv, of "q_id e" j] st by auto
    with loaded_events(2) [OF rows_inv [OF inv] e] show ?thesis by auto
  qed
  then show "stage_ok ?v (pl_locks s) (\<lambda>k. deliveries k s) j (Loaded ids ?evs)"
    using pool_inv_stage [OF inv, of j] loaded_events(1) [OF rows_inv [OF inv], of ids]
    unfolding st stage_ok_def by simp
qed (use st lock_owner [OF inv] in fastforce)+

lemma commit_keeps_pool:
  assumes inv: "pool_inv s" and st: "pl_stage s j = Loaded ids evs"
  shows "pool_inv (commit_batch j evs s)"
proof (rule pool_inv_worker [OF inv, where j = j and st = "Handling evs"])
  let ?t = "commit_batch j evs s"
  have ok: "stage_ok (sql_view (pl_rows s)) (pl_locks s) (\<lambda>k. deliveries k s) j (Loaded ids evs)"
    using pool_inv_stage [OF inv, of j] unfolding st .
  then have sub: "set (map q_id evs) \<subseteq> set ids" and lk: "\<forall>k \<in> set ids. pl_locks s k = Some j"
    unfolding stage_ok_def by auto
  then have "\<forall>k \<in> set (map q_id evs). release_locks j (pl_locks s) k = None"
    unfolding release_locks_def by auto
  with ok sub show "stage_ok (sql_view (pl_rows ?t)) (pl_locks ?t) (\<lambda>k. deliveries k ?t) j (Handling evs)"
    unfolding stage_ok_def commit_batch_def put_stage_def by (auto simp: deliveries_def dest!: bspec)
  show "\<And>i k. i \<noteq> j \<Longrightarrow> k \<in> set (held (pl_stage s i)) \<Longrightarrow> k \<notin> set (held (Handling evs)) \<and>
      sql_view (pl_rows ?t) k = sql_view (pl_rows s) k \<and> pl_locks ?t k = pl_locks s k \<and>
      deliveries k ?t = deliveries k s"
  proof -
    fix i k assume i: "i \<noteq> j" and k: "k \<in> set (held (pl_stage s i))"
    then show "k \<notin> set (held (Handling evs)) \<and> sql_view (pl_rows ?t) k = sql_view (pl_rows s) k \<and>
        pl_locks ?t k = pl_locks s k \<and> deliveries k ?t = deliveries k s"
      using held_disjoint [OF inv i k] sub release_keeps_held [OF inv i k] st
      by (auto simp: commit_batch_def put_stage_def deliveries_def)
  qed
qed (use rows_inv [OF inv] budget_at [OF inv] in
    \<open>simp_all add: commit_batch_def put_stage_def deliveries_def release_locks_other\<close>)

text \<open>Only a worker that is in its transaction after the update has something to undo.\<close>

lemma unclaim_moved:
  "sql_view (unclaim_rows ids rows) = moved (set ids) Processing Pending (sql_view rows)"
  unfolding unclaim_rows_def by (rule update_status_view)

lemma unclaim_inv: "sql_inv (unclaim_rows ids rows) = sql_inv rows"
  unfolding unclaim_rows_def by (rule update_status_inv)

lemma rolled_back_rows:
  "\<exists>K. sql_view (pl_rows (roll_back j s)) = moved K Processing Pending (sql_view (pl_rows s)) \<and>
    (K = {} \<or> K = set (held (pl_stage s j)) \<and> in_tx (pl_stage s j)) \<and>
    (sql_inv (pl_rows s) \<longrightarrow> sql_inv (pl_rows (roll_back j s)))"
proof (cases "pl_stage s j")
  case (Claimed ids)
  then show ?thesis
    by (intro exI [of _ "set ids"]) (simp add: roll_back_def unclaim_moved unclaim_inv)
next
  case (Loaded ids evs)
  then show ?thesis
    by (intro exI [of _ "set ids"]) (simp add: roll_back_def unclaim_moved unclaim_inv)
qed (simp_all add: roll_back_def moved_def fun_eq_iff exI [of _ "{}"] split: option.split)

lemma abort_keeps_pool:
  assumes inv: "pool_inv s"
  shows "pool_inv (roll_back j s)"
proof -
  obtain K where K: "sql_view (pl_rows (roll_back j s)) = moved K Processing Pending (sql_view (pl_rows s))"
      "K = {} \<or> K = set (held (pl_stage s j)) \<and> in_tx (pl_stage s j)" "sql_inv (pl_rows (roll_back j s))"
    using rolled_back_rows [of j s] rows_inv [OF inv] by blast
  have simps: "pl_locks (roll_back j s) = release_locks j (pl_locks s)" "deliveries k (roll_back j s) = deliveries k s" for k
    by (simp_all add: roll_back_def)
  show ?thesis
  proof (rule pool_inv_worker [OF inv, where j = j and st = Idle])
    show "pl_stage (roll_back j s) = (pl_stage s)(j := Idle)" by (simp add: roll_back_def)
    show "stage_ok (sql_view (pl_rows (roll_back j s))) (pl_locks (roll_back j s)) (\<lambda>k. deliveries k (roll_back j s)) j Idle"
      by (simp add: stage_ok_def)
  next
    fix i k assume i: "i \<noteq> j" and k: "k \<in> set (held (pl_stage s i))"
    have "k \<notin> K" using K(2) held_disjoint [OF inv i k] by auto
    then show "k \<notin> set (held Idle) \<and> sql_view (pl_rows (roll_back j s)) k = sql_view (pl_rows s) k \<and>
        pl_locks (roll_back j s) k = pl_locks s k \<and> deliveries k (roll_back j s) = deliveries k s"
      using release_keeps_held [OF inv i k] by (simp add: K(1) moved_outside simps)
  next
    fix k i assume "pl_locks (roll_back j s) k = Some i"
    then show "if i = j then k \<in> set (held Idle) \<and> in_tx Idle else pl_locks s k = Some i"
      by (simp add: simps release_locks_other)
  next
    fix k
    show "row_budget (sql_view (pl_rows (roll_back j s)) k) (deliveries k (roll_back j s))"
    proof (cases "k \<in> K")
      case True
      then have h: "k \<in> set (held (pl_stage s j))" "in_tx (pl_stage s j)" using K(2) by auto
      then have "slack (pl_stage s j) k = 0" by (cases "pl_stage s j") simp_all
      with held_row [OF inv h(1)] show ?thesis by (auto simp: K(1) moved_def simps row_budget_def)
    next
      case False
      with budget_at [OF inv, of k] show ?thesis by (simp add: K(1) moved_outside simps)
    qed
  qed (rule K(3))
qed

lemma deliveries_deliver:
  "deliveries k (deliver p j e es s) = deliveries k s + (if handled p e \<and> k = q_id e then 1 else 0)"
  by (simp add: deliver_def deliveries_def put_stage_def split: prod.split)

lemma stage_ok_answered:
  assumes ok: "stage_ok v locks n j (Handling (e # es))"
    and n: "\<And>k. int (n' k) \<le> int (n k) + slack (Answered e r es) k"
  shows "stage_ok v locks n' j (Answered e r es)"
proof (rule stage_ok_part [OF ok])
  show "distinct (held (Answered e r es))" using ok unfolding stage_ok_def by simp
qed (use n in simp_all)

lemma deliver_keeps_pool:
  assumes inv: "pool_inv s" and st: "pl_stage s j = Handling (e # es)"
  shows "pool_inv (deliver p j e es s)"
proof -
  let ?t = "deliver p j e es s"
  obtain r w where r: "handler_result p e (pl_world s) = (r, w)" by fastforce
  have simps: "pl_rows ?t = pl_rows s" "pl_locks ?t = pl_locks s" "pl_stage ?t = (pl_stage s)(j := Answered e r es)"
    by (simp_all add: deliver_def r)
  have own: "q_id e \<in> set (held (pl_stage s j))" using st by simp
  have row: "\<exists>e'. sql_view (pl_rows s) (q_id e) = Some (e', Processing) \<and> q_retry e' \<le> 9 \<and> int (deliveries (q_id e) s) \<le> q_retry e'"
    using held_row [OF inv own] st by simp
  show ?thesis
  proof (rule pool_inv_worker [OF inv, where j = j and st = "Answered e r es"])
    have "int (deliveries k ?t) \<le> int (deliveries k s) + slack (Answered e r es) k" for k
      by (simp add: deliveries_deliver)
    then show "stage_ok (sql_view (pl_rows ?t)) (pl_locks ?t) (\<lambda>k. deliveries k ?t) j (Answered e r es)"
      using pool_inv_stage [OF inv, of j] unfolding st simps by (rule stage_ok_answered [rotated])
  next
    fix i k assume i: "i \<noteq> j" and k: "k \<in> set (held (pl_stage s i))"
    have "k \<notin> set (held (pl_stage s j))" by (rule held_disjoint [OF inv i k])
    then show "k \<notin> set (held (Answered e r es)) \<and> sql_view (pl_rows ?t) k = sql_view (pl_rows s) k \<and>
        pl_locks ?t k = pl_locks s k \<and> deliveries k ?t = deliveries k s"
      unfolding simps deliveries_deliver st by simp
  next
    fix k i assume "pl_locks ?t k = Some i"
    then show "if i = j then k \<in> set (held (Answered e r es)) \<and> in_tx (Answered e r es) else pl_locks s k = Some i"
      using lock_owner [OF inv, of k i] st unfolding simps by auto
  next
    fix k
    show "row_budget (sql_view (pl_rows ?t) k) (deliveries k ?t)"
    proof (cases "k = q_id e")
      case True
      with row show ?thesis unfolding simps deliveries_deliver by (auto simp: row_budget_def)
    next
      case False
      with budget_at [OF inv, of k] show ?thesis unfolding simps deliveries_deliver by simp
    qed
  qed (use rows_inv [OF inv] simps in simp_all)
qed

text \<open>The mark is the settlement of the event, whatever the clock and the random number.\<close>

lemma mark_answer_view:
  assumes "sql_inv rows" and "sql_view rows (q_id e) = Some (e, st)"
  shows "sql_inv (mark_answer now rnd e r rows) \<and>
    sql_view (mark_answer now rnd e r rows) = (sql_view rows)(q_id e \<mapsto> settlement now rnd e r)"
proof (cases r)
  case None
  with sql.mark_processed [OF assms, of now] show ?thesis
    by (simp add: mark_answer_def settlement_def sql_outbox_def)
next
  case (Some err)
  with sql.mark_failed [OF assms, of now "error_text err"]
    sql.mark_retry [OF assms, of "q_retry e + 1" "now + backoff_with_jitter rnd (q_retry e + 1)" "error_text err"]
  show ?thesis by (simp add: mark_answer_def settlement_def sql_outbox_def Let_def max_retries_def)
qed

lemma handling_tail:
  assumes ok: "stage_ok v locks n j (Answered e r es)"
  shows "stage_ok v locks n j (Handling es)"
proof (rule stage_ok_part [OF ok])
  show "distinct (held (Handling es))" using stage_ok_distinct [OF ok] by simp
  show "slack (Answered e r es) k = 0" if "k \<in> set (held (Handling es))" for k
  proof -
    have "q_id e \<notin> set (held (Handling es))" using stage_ok_distinct [OF ok] by simp
    with that have "k \<noteq> q_id e" by blast
    then show ?thesis by simp
  qed
qed auto

lemma mark_keeps_pool:
  assumes inv: "pool_inv s" and st: "pl_stage s j = Answered e r es"
  shows "pool_inv (put_stage j (Handling es) (s\<lparr>pl_rows := mark_answer now rnd e r (pl_rows s)\<rparr>))" (is "pool_inv ?t")
proof -
  have ok: "stage_ok (sql_view (pl_rows s)) (pl_locks s) (\<lambda>k. deliveries k s) j (Answered e r es)"
    using pool_inv_stage [OF inv, of j] unfolding st .
  have row: "sql_view (pl_rows s) (q_id e) = Some (e, Processing)" by (rule stage_ok_event [OF ok]) simp
  have new: "q_id e \<notin> set (map q_id es)" using stage_ok_distinct [OF ok] by simp
  have lim: "q_retry e \<le> 9" "int (deliveries (q_id e) s) \<le> q_retry e + 1"
    using held_row [OF inv, of "q_id e" j] row unfolding st by auto
  note mark = mark_answer_view [OF rows_inv [OF inv] row, of now rnd r]
  have view: "sql_view (pl_rows ?t) = (sql_view (pl_rows s))(q_id e \<mapsto> settlement now rnd e r)" using mark by simp
  have simps: "pl_locks ?t = pl_locks s" "deliveries k ?t = deliveries k s" for k by simp_all
  show ?thesis
  proof (rule pool_inv_worker [OF inv, where j = j and st = "Handling es"])
    have same: "sql_view (pl_rows ?t) k = sql_view (pl_rows s) k" if "k \<in> set (held (Handling es))" for k
    proof -
      have "k \<noteq> q_id e" using that new unfolding held.simps by blast
      then show ?thesis unfolding view by simp
    qed
    show "stage_ok (sql_view (pl_rows ?t)) (pl_locks ?t) (\<lambda>k. deliveries k ?t) j (Handling es)"
      by (rule stage_ok_cong [OF handling_tail [OF ok]]) (use same in simp)
  next
    fix i k assume i: "i \<noteq> j" and k: "k \<in> set (held (pl_stage s i))"
    have "k \<notin> set (held (pl_stage s j))" by (rule held_disjoint [OF inv i k])
    then show "k \<notin> set (held (Handling es)) \<and> sql_view (pl_rows ?t) k = sql_view (pl_rows s) k \<and>
        pl_locks ?t k = pl_locks s k \<and> deliveries k ?t = deliveries k s"
      unfolding simps view st by simp
  next
    fix k i assume "pl_locks ?t k = Some i"
    then show "if i = j then k \<in> set (held (Handling es)) \<and> in_tx (Handling es) else pl_locks s k = Some i"
      using lock_owner [OF inv, of k i] st unfolding simps by auto
  next
    fix k
    show "row_budget (sql_view (pl_rows ?t) k) (deliveries k ?t)"
    proof (cases "k = q_id e")
      case True
      with lim show ?thesis unfolding view simps by (auto simp: row_budget_def settlement_def)
    next
      case False
      with budget_at [OF inv, of k] show ?thesis unfolding view simps by simp
    qed
  qed (use mark in simp_all)
qed

lemma let_go_keeps_pool:
  assumes inv: "pool_inv s" and "pl_stage s j = Answered e r es"
  shows "pool_inv (put_stage j (Handling es) s)"
proof (rule enter_keeps_pool [OF inv])
  show "stage_ok (sql_view (pl_rows s)) (pl_locks s) (\<lambda>k. deliveries k s) j (Handling es)"
    using pool_inv_stage [OF inv, of j] unfolding assms(2) by (rule handling_tail)
  show "k \<in> set (held (Handling es)) \<and> in_tx (Handling es)" if "pl_locks s k = Some j" for k
    using lock_owner [OF inv that] assms(2) by simp
qed (use assms(2) in auto)

lemma finish_keeps_pool:
  assumes inv: "pool_inv s" and "pl_stage s j = Handling []"
  shows "pool_inv (put_stage j Idle s)"
proof (rule enter_keeps_pool [OF inv])
  show "k \<in> set (held Idle) \<and> in_tx Idle" if "pl_locks s k = Some j" for k
    using lock_owner [OF inv that] assms(2) by simp
qed (simp_all add: stage_ok_def)

lemma step_keeps_pool:
  assumes "pool_step p s t" and "pool_inv s"
  shows "pool_inv t"
  using assms(1)
proof cases
  case (step_insert ip)
  then show ?thesis using insert_keeps_pool [OF assms(2)] by simp
next
  case (step_select j now)
  then show ?thesis using select_keeps_pool [OF assms(2)] by simp
next
  case (step_claim j ids)
  then show ?thesis using claim_keeps_pool [OF assms(2)] by simp
next
  case (step_load j ids)
  then show ?thesis using load_keeps_pool [OF assms(2)] by simp
next
  case (step_commit j ids evs)
  then show ?thesis using commit_keeps_pool [OF assms(2)] by simp
next
  case (step_deliver j e es)
  then show ?thesis using deliver_keeps_pool [OF assms(2)] by simp
next
  case (step_mark j e r es now rnd)
  then show ?thesis using mark_keeps_pool [OF assms(2)] by simp
next
  case (step_mark_lost j e r es)
  then show ?thesis using let_go_keeps_pool [OF assms(2)] by simp
next
  case (step_finish j)
  then show ?thesis using finish_keeps_pool [OF assms(2)] by simp
next
  case (step_abort j)
  then show ?thesis using abort_keeps_pool [OF assms(2)] by simp
qed

lemma run_keeps_pool:
  assumes "pool_run p s t" and "pool_inv s"
  shows "pool_inv t"
  using assms by (induction rule: pool_run.induct) (blast intro: step_keeps_pool)+

lemma pool_inv_start: "pool_inv (pool_start w)"
  by (simp add: pool_inv_def pool_start_def sql_inv_def sql_view_def stage_ok_def row_budget_def deliveries_def)

text \<open>An event that a worker has claimed and nobody holds any more stays as it is.\<close>

definition stranded :: "string \<Rightarrow> 'w pool \<Rightarrow> bool" where
  "stranded k s \<longleftrightarrow> (\<exists>e. sql_view (pl_rows s) k = Some (e, Processing)) \<and> (\<forall>j. k \<notin> set (held (pl_stage s j)))"

lemma moved_settled:
  "v k = Some (e, st) \<Longrightarrow> st \<noteq> a \<Longrightarrow> moved K a b v k = v k"
  by (simp add: moved_def)

lemma stranded_stays:
  assumes inv: "pool_inv s" and k: "stranded k s"
    and row: "sql_view (pl_rows t) k = sql_view (pl_rows s) k"
    and stage: "pl_stage t = (pl_stage s)(j := st)" and out: "k \<notin> set (held st)"
  shows "stranded k t"
  using k unfolding stranded_def row stage by (auto simp: out)

lemma enter_choice:
  "\<exists>st. pl_stage (if b then put_stage j Idle s else put_stage j (Selected ids) (s\<lparr>pl_locks := f\<rparr>)) = (pl_stage s)(j := st) \<and>
    (st = Idle \<or> (\<exists>x. st = Selected x))"
  by (cases b) auto

lemma select_stage:
  "\<exists>st. pl_stage (select_skip_locked batch now j s) = (pl_stage s)(j := st) \<and> (st = Idle \<or> (\<exists>x. st = Selected x))"
  unfolding select_skip_locked_def Let_def by (rule enter_choice)

lemma step_keeps_stranded:
  assumes step: "pool_step p s t" and inv: "pool_inv s" and k: "stranded k s"
  shows "stranded k t \<and> sql_view (pl_rows t) k = sql_view (pl_rows s) k \<and> deliveries k t = deliveries k s"
  using step
proof cases
  case (step_insert ip)
  obtain e where e: "sql_view (pl_rows s) k = Some (e, Processing)" using k unfolding stranded_def by blast
  have "sql_view (snd (sql_insert ip (pl_rows s))) k = sql_view (pl_rows s) k"
    using e by (simp add: sql_insert_def sql_view_def map_add_def)
  with step_insert k show ?thesis by (simp add: stranded_def)
next
  case (step_select j now)
  let ?u = "select_skip_locked (pr_batch p) now j s"
  have rows: "pl_rows ?u = pl_rows s" "deliveries k ?u = deliveries k s"
    by (simp_all add: select_skip_locked_def Let_def)
  have u: "pool_inv ?u" using select_keeps_pool [OF inv step_select(2)] .
  obtain st where st: "pl_stage ?u = (pl_stage s)(j := st)" "st = Idle \<or> (\<exists>x. st = Selected x)"
    using select_stage [of "pr_batch p" now j s] by blast
  have "k \<notin> set (held st)"
  proof
    assume h: "k \<in> set (held st)"
    then have "held_status st = Pending" "k \<in> set (held (pl_stage ?u j))" using st by auto
    with held_row [OF u this(2)] st(1) rows(1) k show False unfolding stranded_def by auto
  qed
  with stranded_stays [OF inv k _ st(1)] rows step_select(1) show ?thesis by simp
next
  case (step_claim j ids)
  have "k \<notin> set ids" using k step_claim(2) unfolding stranded_def by (metis held.simps(2))
  then have "sql_view (claim_rows ids (pl_rows s)) k = sql_view (pl_rows s) k"
    unfolding claim_rows_def update_status_view by (rule moved_outside)
  with \<open>k \<notin> set ids\<close> k step_claim(1) show ?thesis by (simp add: stranded_def)
next
  case (step_load j ids)
  have "k \<notin> set ids" using k step_load(2) unfolding stranded_def by (metis held.simps(3))
  with k step_load(1) show ?thesis by (simp add: stranded_def)
next
  case (step_commit j ids evs)
  have "set (map q_id evs) \<subseteq> set ids"
    using pool_inv_stage [OF inv, of j] unfolding step_commit(2) stage_ok_def by simp
  moreover have "k \<notin> set ids" using k step_commit(2) unfolding stranded_def by (metis held.simps(4))
  ultimately have "k \<notin> set (held (Handling evs))" unfolding held.simps by blast
  with k step_commit(1) show ?thesis by (simp add: stranded_def commit_batch_def)
next
  case (step_deliver j e es)
  have "k \<notin> set (held (Handling (e # es)))" using k step_deliver(2) unfolding stranded_def by metis
  then have "k \<noteq> q_id e" "\<And>r. k \<notin> set (held (Answered e r es))" by simp_all
  with k step_deliver(1) show ?thesis
    by (simp add: deliveries_deliver) (simp add: deliver_def stranded_def split: prod.split)
next
  case (step_mark j e r es now rnd)
  have row: "sql_view (pl_rows s) (q_id e) = Some (e, Processing)"
    using stage_ok_event [OF pool_inv_stage [OF inv, of j]] step_mark(2) by simp
  have "k \<notin> set (held (Answered e r es))" using k step_mark(2) unfolding stranded_def by metis
  then have "k \<noteq> q_id e" "k \<notin> set (held (Handling es))" by simp_all
  with k step_mark(1) mark_answer_view [OF rows_inv [OF inv] row, of now rnd r] show ?thesis
    by (simp add: stranded_def)
next
  case (step_mark_lost j e r es)
  have "k \<notin> set (held (Answered e r es))" using k step_mark_lost(2) unfolding stranded_def by metis
  with k step_mark_lost(1) show ?thesis by (simp add: stranded_def)
next
  case (step_finish j)
  with k show ?thesis by (simp add: stranded_def)
next
  case (step_abort j)
  obtain K where K: "sql_view (pl_rows (roll_back j s)) = moved K Processing Pending (sql_view (pl_rows s))"
      "K = {} \<or> K = set (held (pl_stage s j))"
    using rolled_back_rows [of j s] by blast
  have "k \<notin> K" using K(2) k unfolding stranded_def by blast
  then have row: "sql_view (pl_rows (roll_back j s)) k = sql_view (pl_rows s) k" unfolding K(1) by (rule moved_outside)
  have stage: "pl_stage (roll_back j s) = (pl_stage s)(j := Idle)" and n: "deliveries k (roll_back j s) = deliveries k s"
    by (simp_all add: roll_back_def)
  have "stranded k (roll_back j s)" by (rule stranded_stays [OF inv k row stage]) simp
  with row n step_abort show ?thesis by simp
qed

subsection \<open>Properties\<close>

text \<open>C4: workers on one table never hold the same event. In every interleaving of any number of workers and
  publishers from an empty table, each statement of the claiming transaction, each delivery and each mark a step
  of its own, with statements failing, marks lost and workers dying anywhere: no event is at the same time held
  by two workers, selected in an open transaction or claimed and not yet settled, and each event is handed to a
  handler at most ten times by all workers together.\<close>

theorem workers_never_share:
  assumes "pool_run p (pool_start w) s"
  shows "(\<forall>i j. i \<noteq> j \<longrightarrow> set (held (pl_stage s i)) \<inter> set (held (pl_stage s j)) = {}) \<and> deliveries k s \<le> 10"
proof -
  have inv: "pool_inv s" using assms pool_inv_start by (rule run_keeps_pool)
  have "deliveries k s \<le> 10" using budget_at [OF inv, of k] by (simp add: row_budget_def split: option.splits prod.splits)
  with inv show ?thesis unfolding pool_inv_def by blast
qed

definition wit_table :: "unit pool" where
  "wit_table = (pool_start ())\<lparr>pl_rows := [new_item wit_event, new_item (wit_event\<lparr>ip_id := ''e2''\<rparr>)]\<rparr>"

lemma wit_table_run: "pool_run (new_processor 1) (pool_start ()) wit_table"
proof -
  let ?s = "pool_start () :: unit pool" let ?b = "wit_event\<lparr>ip_id := ''e2''\<rparr>"
  let ?s1 = "?s\<lparr>pl_rows := snd (sql_insert wit_event (pl_rows ?s))\<rparr>"
  have "pool_step (new_processor 1) ?s1 (?s1\<lparr>pl_rows := snd (sql_insert ?b (pl_rows ?s1))\<rparr>)" by (rule step_insert)
  moreover have "?s1\<lparr>pl_rows := snd (sql_insert ?b (pl_rows ?s1))\<rparr> = wit_table"
    by (simp add: wit_table_def pool_start_def sql_insert_def row_id_def new_item_def queued_of_def wit_event_def)
  ultimately show ?thesis by (metis pool_here pool_later step_insert)
qed

lemma run_select:
  assumes "pool_run (new_processor 1) s0 s" and "pl_stage s j = Idle"
  shows "pool_run (new_processor 1) s0 (select_skip_locked 1 now j s)"
  using pool_later [OF assms(1) step_select [OF assms(2), of "new_processor 1" now]] by (simp add: new_processor_def)

theorem workers_never_share_witness:
  "let s = select_skip_locked 1 5 1 (select_skip_locked 1 5 0 wit_table) in
     held (pl_stage s 0) = [''e1''] \<and> held (pl_stage s 1) = [''e2''] \<and>
     set (held (pl_stage s 0)) \<inter> set (held (pl_stage s 1)) = {} \<and> deliveries ''e1'' s \<le> 10"
proof -
  let ?s1 = "select_skip_locked 1 5 0 wit_table" let ?s = "select_skip_locked 1 5 1 ?s1"
  have h: "pl_stage ?s1 1 = Idle" "held (pl_stage ?s 0) = [''e1'']" "held (pl_stage ?s 1) = [''e2'']" by code_simp+
  have "pl_stage wit_table 0 = Idle" by (simp add: wit_table_def pool_start_def)
  then have "pool_run (new_processor 1) (pool_start ()) ?s"
    by (intro run_select wit_table_run h(1))
  from workers_never_share [OF this, of "''e1''"] h(2,3) show ?thesis unfolding Let_def by (metis zero_neq_one)
qed

text \<open>A claimed event that loses its worker is lost. Once an event stands as \<^verbatim>\<open>processing\<close> and no worker holds it
  (its worker died after the commit, or the mark failed, whose error the processor drops), it stays so in
  every continuation: no worker selects it again, it is never handed to a handler again, and no handler's
  answer is ever recorded for it. Nothing in the program takes a row out of \<^verbatim>\<open>processing\<close> but a mark.\<close>

theorem stranded_event_is_lost:
  assumes "pool_run p (pool_start w) s" and "stranded k s" and "pool_run p s t"
  shows "stranded k t \<and> sql_view (pl_rows t) k = sql_view (pl_rows s) k \<and> deliveries k t = deliveries k s"
proof -
  have inv: "pool_inv s" using assms(1) pool_inv_start by (rule run_keeps_pool)
  show ?thesis
    using assms(3)
  proof (induction rule: pool_run.induct)
    case (pool_later t u)
    have "pool_inv t" using pool_later.hyps(1) inv by (rule run_keeps_pool)
    with step_keeps_stranded [OF pool_later.hyps(2)] pool_later.IH show ?case by simp
  qed (use assms(2) in blast)
qed

text \<open>The worker of the witness dies between the commit of its claim and the first handler.\<close>

definition wit_claimed :: "unit pool" where
  "wit_claimed = (let s = select_skip_locked 1 5 0 wit_table; s = put_stage 0 (Claimed [''e1'']) (s\<lparr>pl_rows := claim_rows [''e1''] (pl_rows s)\<rparr>);
       evs = load_rows [''e1''] (pl_rows s)
     in commit_batch 0 evs (put_stage 0 (Loaded [''e1''] evs) s))"

lemma wit_claimed_run: "pool_run (new_processor 1) (pool_start ()) wit_claimed"
proof -
  let ?s = "select_skip_locked 1 5 0 wit_table"
  let ?s1 = "put_stage 0 (Claimed [''e1'']) (?s\<lparr>pl_rows := claim_rows [''e1''] (pl_rows ?s)\<rparr>)"
  let ?evs = "load_rows [''e1''] (pl_rows ?s1)"
  have "pl_stage wit_table 0 = Idle" by (simp add: wit_table_def pool_start_def)
  then have s: "pool_run (new_processor 1) (pool_start ()) ?s" by (rule run_select [OF wit_table_run])
  have "pl_stage ?s 0 = Selected [''e1'']" by code_simp
  from pool_later [OF s step_claim [OF this]]
  have s1: "pool_run (new_processor 1) (pool_start ()) ?s1" .
  have "pool_run (new_processor 1) (pool_start ()) (put_stage 0 (Loaded [''e1''] ?evs) ?s1)"
    by (rule pool_later [OF s1 step_load]) simp
  from pool_later [OF this step_commit] show ?thesis unfolding wit_claimed_def Let_def by simp
qed

theorem stranded_event_is_lost_witness:
  "let s = roll_back 0 wit_claimed; t = select_skip_locked 1 1000 1 s in
     stranded ''e1'' s \<and> stranded ''e1'' t \<and> deliveries ''e1'' t = 0 \<and> held (pl_stage t 1) = [''e2'']"
proof -
  let ?s = "roll_back 0 wit_claimed" let ?t = "select_skip_locked 1 1000 1 ?s"
  have s: "pool_run (new_processor 1) (pool_start ()) ?s"
    by (rule pool_later [OF wit_claimed_run step_abort])
  have v: "sql_view (pl_rows ?s) ''e1'' = Some (queued_of wit_event, Processing)" "deliveries ''e1'' ?s = 0"
      "held (pl_stage ?t 1) = [''e2'']" "pl_stage ?s 1 = Idle"
    by code_simp+
  have "pl_stage ?s j = Idle" for j
    by (simp add: roll_back_def wit_claimed_def Let_def commit_batch_def select_skip_locked_def wit_table_def pool_start_def)
  then have st: "stranded ''e1'' ?s" unfolding stranded_def using v(1) by simp
  have t: "pool_run (new_processor 1) ?s ?t" by (rule run_select [OF pool_here v(4)])
  show ?thesis using stranded_event_is_lost [OF s st t] st v unfolding Let_def by simp
qed

end
