(* ===== verification/Credentials.thy ===== *)
theory Credentials
  imports HttpErrors
begin

section \<open>Identities: password verification, recovery tokens, login attempts\<close>

text \<open>
  Models the identity ports of \<^verbatim>\<open>internal/iam/app/contracts.go\<close> and their two providers: the static
  verifier of \<^verbatim>\<open>iam/infra/inmemory/credentials.go\<close> (a map from login id to user) and the MySQL
  repositories of \<^verbatim>\<open>iam/infra/mysql\<close> (\<^verbatim>\<open>credentials.go\<close>, \<^verbatim>\<open>auth_recovery.go\<close>,
  \<^verbatim>\<open>login_attempts.go\<close>) on lists of rows. Parameters: bcrypt's comparison of a hash with a
  password, and \<open>same\<close>, the database's \<^verbatim>\<open>LOWER(TRIM(column)) = ?\<close>. Statements do not fail
  for reasons outside the data; inserts respect the primary, unique and foreign keys of the
  migrations. The contract of a recovery repository is that a token is redeemed at most once, by
  the user it was stored for and before it expires.
\<close>

subsection \<open>The ports\<close>

record authenticated_user =
  au_id :: string
  au_login :: string
  au_name :: string
  au_status :: string
  au_tier :: string

record recovery_user =
  ru_id :: string
  ru_email :: string
  ru_name :: string
  ru_login :: string

record recovery_token =
  rt_id :: string
  rt_user :: string
  rt_hash :: string
  rt_expires :: int

record 'ci identity_ops =
  io_verify :: "string \<Rightarrow> string \<Rightarrow> 'ci \<Rightarrow> go_error + authenticated_user"
  io_get :: "string \<Rightarrow> 'ci \<Rightarrow> go_error + authenticated_user"

record 'ci recovery_ops =
  ro_find :: "string \<Rightarrow> 'ci \<Rightarrow> go_error + recovery_user option"
  ro_store_reset :: "recovery_token \<Rightarrow> (go_error, 'ci, unit) action"
  ro_consume_reset :: "string \<Rightarrow> int \<Rightarrow> (go_error, 'ci, string) action"
  ro_store_verify :: "recovery_token \<Rightarrow> (go_error, 'ci, unit) action"
  ro_consume_verify :: "string \<Rightarrow> int \<Rightarrow> (go_error, 'ci, string) action"
  ro_update_hash :: "string \<Rightarrow> string \<Rightarrow> int \<Rightarrow> (go_error, 'ci, unit) action"
  ro_mark_verified :: "string \<Rightarrow> int \<Rightarrow> (go_error, 'ci, unit) action"

definition invalid_credentials :: go_error where
  "invalid_credentials = new_http_error 401 CodeInvalidCredentials ''invalid credentials''"

definition coalesce :: "string \<Rightarrow> string \<Rightarrow> string" where
  "coalesce a b = (if trim_space a \<noteq> [] then a else b)"

subsection \<open>The static verifier\<close>

record static_user =
  su_id :: string
  su_login :: string
  su_email :: string
  su_password :: string
  su_name :: string
  su_status :: string
  su_tier :: string
  su_verified :: "int option"

type_synonym static_users = "string \<rightharpoonup> static_user"

definition static_view :: "static_user \<Rightarrow> authenticated_user" where
  "static_view u = \<lparr>au_id = su_id u, au_login = su_login u, au_name = su_name u, au_status = su_status u,
     au_tier = coalesce (trim_space (su_tier u)) ''Free''\<rparr>"

definition static_verify :: "string \<Rightarrow> string \<Rightarrow> static_users \<Rightarrow> go_error + authenticated_user" where
  "static_verify login pw us = (case us (to_lower (trim_space login)) of
      None \<Rightarrow> Inl invalid_credentials
    | Some u \<Rightarrow> if su_password u \<noteq> pw then Inl invalid_credentials else Inr (static_view u))"

text \<open>The first key, in the order a range over the map visits it, whose user satisfies \<open>P\<close>.\<close>

definition first_key :: "(static_users \<Rightarrow> string list) \<Rightarrow> (static_user \<Rightarrow> bool) \<Rightarrow> static_users \<Rightarrow> string option" where
  "first_key order P us = List.find (\<lambda>k. case us k of None \<Rightarrow> False | Some u \<Rightarrow> P u) (order us)"

definition static_get :: "(static_users \<Rightarrow> string list) \<Rightarrow> string \<Rightarrow> static_users \<Rightarrow> go_error + authenticated_user" where
  "static_get order uid us = (case first_key order (\<lambda>u. su_id u = uid) us of
      None \<Rightarrow> Inl (new_http_error 404 CodeMembershipNotFound ''user not found'')
    | Some k \<Rightarrow> Inr (static_view (the (us k))))"

definition static_find_email :: "(static_users \<Rightarrow> string list) \<Rightarrow> string \<Rightarrow> static_users \<Rightarrow> go_error + recovery_user option" where
  "static_find_email order email us =
    (let key = trim_space (to_lower email) in
     case first_key order (\<lambda>u. trim_space (to_lower (su_email u)) = key \<or> trim_space (to_lower (su_login u)) = key) us of
       None \<Rightarrow> Inr None
     | Some k \<Rightarrow> (let u = the (us k) in Inr (Some \<lparr>ru_id = su_id u, ru_email = coalesce (su_email u) (su_login u),
          ru_name = su_name u, ru_login = su_login u\<rparr>)))"

definition static_store :: "recovery_token \<Rightarrow> (go_error, static_users, unit) action" where
  "static_store t us = (Inr (), us)"

definition static_consume :: "string \<Rightarrow> int \<Rightarrow> (go_error, static_users, string) action" where
  "static_consume h now us = (Inr [], us)"

definition static_change :: "(static_users \<Rightarrow> string list) \<Rightarrow> string \<Rightarrow> (static_user \<Rightarrow> static_user) \<Rightarrow> (go_error, static_users, unit) action" where
  "static_change order uid f us = (case first_key order (\<lambda>u. su_id u = uid) us of
      None \<Rightarrow> (Inr (), us) | Some k \<Rightarrow> (Inr (), us(k \<mapsto> f (the (us k)))))"

definition static_update_hash :: "(static_users \<Rightarrow> string list) \<Rightarrow> string \<Rightarrow> string \<Rightarrow> int \<Rightarrow> (go_error, static_users, unit) action" where
  "static_update_hash order uid h now = static_change order uid (\<lambda>u. u\<lparr>su_password := h\<rparr>)"

definition static_mark_verified :: "(static_users \<Rightarrow> string list) \<Rightarrow> string \<Rightarrow> int \<Rightarrow> (go_error, static_users, unit) action" where
  "static_mark_verified order uid now = static_change order uid (\<lambda>u. u\<lparr>su_verified := Some now\<rparr>)"

definition static_identity :: "(static_users \<Rightarrow> string list) \<Rightarrow> static_users identity_ops" where
  "static_identity order = \<lparr>io_verify = static_verify, io_get = static_get order\<rparr>"

definition static_recovery :: "(static_users \<Rightarrow> string list) \<Rightarrow> static_users recovery_ops" where
  "static_recovery order = \<lparr>ro_find = static_find_email order, ro_store_reset = static_store,
     ro_consume_reset = static_consume, ro_store_verify = static_store, ro_consume_verify = static_consume,
     ro_update_hash = static_update_hash order, ro_mark_verified = static_mark_verified order\<rparr>"

text \<open>The accounts the server starts with when no database is configured.\<close>

definition seed_user :: "string \<Rightarrow> string \<Rightarrow> string \<Rightarrow> string \<Rightarrow> string \<Rightarrow> static_user" where
  "seed_user uid login pw name tier = \<lparr>su_id = uid, su_login = login, su_email = [], su_password = pw,
     su_name = name, su_status = ''active'', su_tier = tier, su_verified = None\<rparr>"

definition seed_users :: static_users where
  "seed_users = [
     ''user@example.com'' \<mapsto> seed_user ''u_123'' ''user@example.com'' ''secret'' ''Nguyen Van A'' ''Free'',
     ''single@example.com'' \<mapsto> seed_user ''u_single'' ''single@example.com'' ''secret'' ''Single Company User'' ''Free'',
     ''admin.dn@example.com'' \<mapsto> seed_user ''u_admin'' ''admin.dn@example.com'' ''secret'' ''Enterprise Admin (DN)'' ''Enterprise'',
     ''admin@cobo.vn'' \<mapsto> seed_user ''u_admin'' ''admin@cobo.vn'' ''password123'' ''Enterprise Admin'' ''Enterprise'',
     ''cms.operator@example.com'' \<mapsto> seed_user ''u_cms'' ''cms.operator@example.com'' ''secret'' ''CMS Operator'' ''Enterprise'']"

subsection \<open>The MySQL repositories\<close>

record user_row =
  ur_id :: string
  ur_login :: string
  ur_name :: string
  ur_email :: "string option"
  ur_phone :: "string option"
  ur_status :: string
  ur_verified :: "int option"

record credential_row =
  cr_user :: string
  cr_type :: string
  cr_status :: string
  cr_hash :: string
  cr_changed :: "int option"

record tier_row =
  tr_user :: string
  tr_tier :: string
  tr_from :: "int option"
  tr_to :: "int option"

record token_row =
  kr_id :: string
  kr_user :: string
  kr_hash :: string
  kr_expires :: int
  kr_used :: "int option"

record identity_db =
  id_users :: "user_row list"
  id_credentials :: "credential_row list"
  id_tiers :: "tier_row list"
  id_resets :: "token_row list"
  id_verifies :: "token_row list"

definition load_tier :: "string \<Rightarrow> int \<Rightarrow> identity_db \<Rightarrow> string" where
  "load_tier uid now db = (case List.find (\<lambda>r. tr_user r = uid \<and>
        (case tr_from r of None \<Rightarrow> True | Some f \<Rightarrow> f \<le> now) \<and> (case tr_to r of None \<Rightarrow> True | Some t \<Rightarrow> t > now)) (id_tiers db) of
      None \<Rightarrow> ''Free''
    | Some r \<Rightarrow> if trim_space (tr_tier r) = [] then ''Free'' else trim_space (tr_tier r))"

definition row_user :: "int \<Rightarrow> identity_db \<Rightarrow> user_row \<Rightarrow> authenticated_user" where
  "row_user now db u = \<lparr>au_id = ur_id u, au_login = ur_login u, au_name = ur_name u, au_status = ur_status u,
     au_tier = load_tier (ur_id u) now db\<rparr>"

definition login_rows :: "(string \<Rightarrow> string \<Rightarrow> bool) \<Rightarrow> string \<Rightarrow> identity_db \<Rightarrow> (user_row \<times> credential_row) list" where
  "login_rows same login db = concat (map (\<lambda>u. map (\<lambda>c. (u, c))
      (filter (\<lambda>c. cr_user c = ur_id u \<and> cr_type c = ''password'' \<and> cr_status c = ''active'') (id_credentials db)))
      (filter (\<lambda>u. same (ur_login u) login) (id_users db)))"

definition db_verify :: "(string \<Rightarrow> string \<Rightarrow> bool) \<Rightarrow> (string \<Rightarrow> string \<Rightarrow> bool) \<Rightarrow> int \<Rightarrow> string \<Rightarrow> string \<Rightarrow> identity_db \<Rightarrow> go_error + authenticated_user" where
  "db_verify same cmp now login pw db =
    (let l = trim_space (to_lower login) in
     if l = [] then Inl (bad_request ''login_id required'')
     else case login_rows same l db of
       [] \<Rightarrow> Inl invalid_credentials
     | (u, c) # _ \<Rightarrow> if \<not> cmp (cr_hash c) pw then Inl invalid_credentials else Inr (row_user now db u))"

definition db_get :: "int \<Rightarrow> string \<Rightarrow> identity_db \<Rightarrow> go_error + authenticated_user" where
  "db_get now uid db = (case List.find (\<lambda>u. ur_id u = uid) (id_users db) of
      None \<Rightarrow> Inl (new_http_error 404 CodeMembershipNotFound ''user not found'')
    | Some u \<Rightarrow> Inr (row_user now db u))"

definition db_find_email :: "(string \<Rightarrow> string \<Rightarrow> bool) \<Rightarrow> string \<Rightarrow> identity_db \<Rightarrow> go_error + recovery_user option" where
  "db_find_email same email db =
    (let e = trim_space (to_lower email) in
     case List.find (\<lambda>u. (case ur_email u of None \<Rightarrow> False | Some m \<Rightarrow> same m e) \<or> same (ur_login u) e) (id_users db) of
       None \<Rightarrow> Inr None
     | Some u \<Rightarrow> (let m = (case ur_email u of None \<Rightarrow> [] | Some m \<Rightarrow> m) in
         Inr (Some \<lparr>ru_id = ur_id u, ru_email = (if trim_space m = [] then ur_login u else m),
           ru_name = ur_name u, ru_login = ur_login u\<rparr>)))"

definition insert_token :: "user_row list \<Rightarrow> recovery_token \<Rightarrow> token_row list \<Rightarrow> (go_error + unit) \<times> token_row list" where
  "insert_token users t rows =
    (if list_ex (\<lambda>r. kr_id r = rt_id t \<or> kr_hash r = rt_hash t) rows then (Inl (PlainErr ''duplicate entry''), rows)
     else if \<not> list_ex (\<lambda>u. ur_id u = rt_user t) users then (Inl (PlainErr ''foreign key constraint fails''), rows)
     else (Inr (), rows @ [\<lparr>kr_id = rt_id t, kr_user = rt_user t, kr_hash = rt_hash t, kr_expires = rt_expires t, kr_used = None\<rparr>]))"

definition redeem_token :: "string \<Rightarrow> int \<Rightarrow> token_row list \<Rightarrow> string \<times> token_row list" where
  "redeem_token h now rows = (case List.find (\<lambda>r. kr_hash r = h \<and> kr_used r = None \<and> kr_expires r > now) rows of
      None \<Rightarrow> ([], rows)
    | Some r \<Rightarrow> (kr_user r, map (\<lambda>q. if kr_id q = kr_id r \<and> kr_used q = None then q\<lparr>kr_used := Some now\<rparr> else q) rows))"

definition db_store_reset :: "recovery_token \<Rightarrow> (go_error, identity_db, unit) action" where
  "db_store_reset t db = (case insert_token (id_users db) t (id_resets db) of
      (Inl e, _) \<Rightarrow> (Inl (WrapErr ''store password reset token'' e), db) | (Inr (), rows) \<Rightarrow> (Inr (), db\<lparr>id_resets := rows\<rparr>))"

definition db_consume_reset :: "string \<Rightarrow> int \<Rightarrow> (go_error, identity_db, string) action" where
  "db_consume_reset h now db = (case redeem_token h now (id_resets db) of (u, rows) \<Rightarrow> (Inr u, db\<lparr>id_resets := rows\<rparr>))"

definition db_store_verify :: "recovery_token \<Rightarrow> (go_error, identity_db, unit) action" where
  "db_store_verify t db = (case insert_token (id_users db) t (id_verifies db) of
      (Inl e, _) \<Rightarrow> (Inl (WrapErr ''store email verify token'' e), db) | (Inr (), rows) \<Rightarrow> (Inr (), db\<lparr>id_verifies := rows\<rparr>))"

definition db_consume_verify :: "string \<Rightarrow> int \<Rightarrow> (go_error, identity_db, string) action" where
  "db_consume_verify h now db = (case redeem_token h now (id_verifies db) of (u, rows) \<Rightarrow> (Inr u, db\<lparr>id_verifies := rows\<rparr>))"

definition db_update_hash :: "string \<Rightarrow> string \<Rightarrow> int \<Rightarrow> (go_error, identity_db, unit) action" where
  "db_update_hash uid h now db = (Inr (), db\<lparr>id_credentials := map (\<lambda>c.
      if cr_user c = uid \<and> cr_type c = ''password'' then c\<lparr>cr_hash := h, cr_changed := Some now\<rparr> else c) (id_credentials db)\<rparr>)"

definition db_mark_verified :: "string \<Rightarrow> int \<Rightarrow> (go_error, identity_db, unit) action" where
  "db_mark_verified uid now db = (Inr (), db\<lparr>id_users := map (\<lambda>u.
      if ur_id u = uid then u\<lparr>ur_verified := Some now\<rparr> else u) (id_users db)\<rparr>)"

definition db_identity :: "(string \<Rightarrow> string \<Rightarrow> bool) \<Rightarrow> (string \<Rightarrow> string \<Rightarrow> bool) \<Rightarrow> int \<Rightarrow> identity_db identity_ops" where
  "db_identity same cmp now = \<lparr>io_verify = db_verify same cmp now, io_get = db_get now\<rparr>"

definition db_recovery :: "(string \<Rightarrow> string \<Rightarrow> bool) \<Rightarrow> identity_db recovery_ops" where
  "db_recovery same = \<lparr>ro_find = db_find_email same, ro_store_reset = db_store_reset,
     ro_consume_reset = db_consume_reset, ro_store_verify = db_store_verify, ro_consume_verify = db_consume_verify,
     ro_update_hash = db_update_hash, ro_mark_verified = db_mark_verified\<rparr>"

subsection \<open>Login attempts\<close>

record login_attempt =
  la_login :: string
  la_user :: string
  la_success :: bool
  la_failure :: string
  la_ip :: string
  la_agent :: string

record attempt_row =
  ar_login :: string
  ar_user :: "string option"
  ar_success :: int
  ar_failure :: "string option"
  ar_ip :: string
  ar_agent :: string

definition trunc_str :: "string \<Rightarrow> nat \<Rightarrow> string" where
  "trunc_str s n = (if length s \<le> n then s else take n s)"

definition record_attempt :: "login_attempt \<Rightarrow> attempt_row list \<Rightarrow> attempt_row list" where
  "record_attempt a rows =
    (let l = trim_space (la_login a) in
     if l = [] then rows
     else rows @ [\<lparr>ar_login = l, ar_user = (if la_user a \<noteq> [] then Some (la_user a) else None),
        ar_success = (if la_success a then 1 else 0),
        ar_failure = (if \<not> la_success a \<and> la_failure a \<noteq> [] then Some (la_failure a) else None),
        ar_ip = trunc_str (la_ip a) 64, ar_agent = trunc_str (la_agent a) 512\<rparr>])"

subsection \<open>The contract of a recovery repository\<close>

datatype token_kind = ResetToken | VerifyToken

definition store_token :: "'ci recovery_ops \<Rightarrow> token_kind \<Rightarrow> recovery_token \<Rightarrow> (go_error, 'ci, unit) action" where
  "store_token ops k = (case k of ResetToken \<Rightarrow> ro_store_reset ops | VerifyToken \<Rightarrow> ro_store_verify ops)"

definition consume_token :: "'ci recovery_ops \<Rightarrow> token_kind \<Rightarrow> string \<Rightarrow> int \<Rightarrow> (go_error, 'ci, string) action" where
  "consume_token ops k = (case k of ResetToken \<Rightarrow> ro_consume_reset ops | VerifyToken \<Rightarrow> ro_consume_verify ops)"

text \<open>\<open>pending\<close> gives the user and the expiry of a token not yet redeemed, \<open>spent\<close> the redeemed ones.\<close>

locale recovery_repository =
  fixes ops :: "'ci recovery_ops" and inv :: "'ci \<Rightarrow> bool"
    and pending :: "'ci \<Rightarrow> token_kind \<times> string \<rightharpoonup> string \<times> int" and spent :: "'ci \<Rightarrow> (token_kind \<times> string) set"
  assumes store_law: "inv s \<Longrightarrow> store_token ops k t s = (r, s') \<Longrightarrow> inv s' \<and> spent s' = spent s \<and>
      (pending s' = pending s \<or> (k, rt_hash t) \<notin> spent s \<and>
        pending s' = (pending s)((k, rt_hash t) \<mapsto> (rt_user t, rt_expires t)))"
    and consume_law: "inv s \<Longrightarrow> consume_token ops k h now s = (Inr u, s') \<Longrightarrow> u \<noteq> [] \<Longrightarrow>
      inv s' \<and> (\<exists>e. pending s (k, h) = Some (u, e) \<and> now < e) \<and>
      pending s' = (pending s)((k, h) := None) \<and> spent s' = insert (k, h) (spent s)"
    and consume_miss: "inv s \<Longrightarrow> consume_token ops k h now s = (q, s') \<Longrightarrow> q = Inr [] \<or> isl q \<Longrightarrow> s' = s"
    and consume_live: "inv s \<Longrightarrow> pending s (k, h) = Some (u, e) \<Longrightarrow> now < e \<Longrightarrow>
      \<exists>s'. consume_token ops k h now s = (Inr u, s') \<and> u \<noteq> []"
    and hash_law: "inv s \<Longrightarrow> inv (snd (ro_update_hash ops u pw now s)) \<and>
      pending (snd (ro_update_hash ops u pw now s)) = pending s \<and> spent (snd (ro_update_hash ops u pw now s)) = spent s"
    and mark_law: "inv s \<Longrightarrow> inv (snd (ro_mark_verified ops u now s)) \<and>
      pending (snd (ro_mark_verified ops u now s)) = pending s \<and> spent (snd (ro_mark_verified ops u now s)) = spent s"
    and spent_law: "inv s \<Longrightarrow> x \<in> spent s \<Longrightarrow> pending s x = None"

text \<open>A history of calls and the log of the redemptions that named a user.\<close>

datatype recovery_event =
    Store token_kind recovery_token
  | Consume token_kind string int
  | ChangeHash string string int
  | MarkVerified string int

definition redeemed :: "token_kind \<Rightarrow> string \<Rightarrow> int \<Rightarrow> go_error + string \<Rightarrow> ((token_kind \<times> string) \<times> string \<times> int) list" where
  "redeemed k h now r = (case r of Inl e \<Rightarrow> [] | Inr u \<Rightarrow> if u = [] then [] else [((k, h), u, now)])"

fun recovery_run :: "'ci recovery_ops \<Rightarrow> recovery_event list \<Rightarrow> 'ci \<Rightarrow> ((token_kind \<times> string) \<times> string \<times> int) list \<times> 'ci" where
  "recovery_run ops [] s = ([], s)"
| "recovery_run ops (Store k t # es) s = recovery_run ops es (snd (store_token ops k t s))"
| "recovery_run ops (Consume k h now # es) s = (case consume_token ops k h now s of (r, s1) \<Rightarrow>
     (case recovery_run ops es s1 of (lg, s2) \<Rightarrow> (redeemed k h now r @ lg, s2)))"
| "recovery_run ops (ChangeHash u pw now # es) s = recovery_run ops es (snd (ro_update_hash ops u pw now s))"
| "recovery_run ops (MarkVerified u now # es) s = recovery_run ops es (snd (ro_mark_verified ops u now s))"

definition granted :: "recovery_event list \<Rightarrow> (token_kind \<times> string \<rightharpoonup> string \<times> int) \<Rightarrow> (token_kind \<times> string) \<times> string \<times> int \<Rightarrow> bool" where
  "granted es pen x \<longleftrightarrow> (case x of ((k, h), u, now) \<Rightarrow>
     (\<exists>e. pen (k, h) = Some (u, e) \<and> now < e) \<or>
     (\<exists>t. Store k t \<in> set es \<and> rt_hash t = h \<and> rt_user t = u \<and> now < rt_expires t))"

lemma granted_more: "granted es pen x \<Longrightarrow> granted (e # es) pen x"
  by (auto simp: granted_def split: prod.splits)

lemma granted_store:
  "granted es (pen((k, rt_hash t) \<mapsto> (rt_user t, rt_expires t))) x \<Longrightarrow> granted (Store k t # es) pen x"
  by (auto simp: granted_def split: prod.splits if_splits)

lemma granted_remove: "granted es (pen(y := None)) x \<Longrightarrow> granted (e # es) pen x"
  by (auto simp: granted_def split: prod.splits if_splits)

context recovery_repository
begin

lemma run_sound:
  "inv s \<Longrightarrow> recovery_run ops es s = (lg, s') \<Longrightarrow> inv s' \<and> distinct (map fst lg) \<and>
     (\<forall>x \<in> set lg. fst x \<notin> spent s \<and> granted es (pending s) x)"
proof (induction es arbitrary: s lg)
  case (Cons e es)
  show ?case
  proof (cases e)
    case (Store k t)
    obtain r s1 where 1: "store_token ops k t s = (r, s1)" by fastforce
    note law = store_law [OF Cons.prems(1) 1]
    have run: "recovery_run ops es s1 = (lg, s')" using Cons.prems(2) Store 1 by simp
    note ih = Cons.IH [OF _ run]
    have "granted (e # es) (pending s) x" if "granted es (pending s1) x" for x
      using law that granted_store granted_more unfolding Store by metis
    with ih law show ?thesis by metis
  next
    case (Consume k h now)
    obtain r s1 where 1: "consume_token ops k h now s = (r, s1)" by fastforce
    obtain lg1 where run: "recovery_run ops es s1 = (lg1, s')" and lg: "lg = redeemed k h now r @ lg1"
      using Cons.prems(2) Consume 1 by (auto split: prod.splits)
    note ih = Cons.IH [OF _ run]
    show ?thesis
    proof (cases "r = Inr [] \<or> isl r")
      case True
      with consume_miss [OF Cons.prems(1) 1] have "s1 = s" "lg = lg1"
        using lg by (auto simp: redeemed_def split: sum.splits)
      with ih Cons.prems(1) granted_more show ?thesis by metis
    next
      case False
      then obtain u where u: "r = Inr u" "u \<noteq> []" by (cases r) auto
      note law = consume_law [OF Cons.prems(1) 1 [unfolded u(1)] u(2)]
      have l: "lg = ((k, h), u, now) # lg1" using lg u by (simp add: redeemed_def)
      have "granted (e # es) (pending s) ((k, h), u, now)" using law by (auto simp: granted_def)
      moreover have "(k, h) \<notin> spent s" using law spent_law [OF Cons.prems(1)] by fastforce
      moreover have "granted (e # es) (pending s) x" if "x \<in> set lg1" for x
        using ih law that granted_remove by metis
      moreover have "(k, h) \<notin> fst ` set lg1" "\<forall>x \<in> set lg1. fst x \<notin> spent s" using ih law by auto
      ultimately show ?thesis using l ih law by auto
    qed
  next
    case (ChangeHash u pw now)
    with Cons hash_law [OF Cons.prems(1), of u pw now] granted_more show ?thesis by (metis recovery_run.simps(4))
  next
    case (MarkVerified u now)
    with Cons mark_law [OF Cons.prems(1), of u now] granted_more show ?thesis by (metis recovery_run.simps(5))
  qed
qed simp

end

subsection \<open>Both repositories meet the contract\<close>

interpretation static: recovery_repository "static_recovery order" "\<lambda>_. True" "\<lambda>_. Map.empty" "\<lambda>_. {}" for order
  by unfold_locales
    (auto simp: store_token_def consume_token_def static_recovery_def static_store_def static_consume_def
      split: token_kind.splits)

definition token_rows :: "token_kind \<Rightarrow> identity_db \<Rightarrow> token_row list" where
  "token_rows k db = (case k of ResetToken \<Rightarrow> id_resets db | VerifyToken \<Rightarrow> id_verifies db)"

definition set_token_rows :: "token_kind \<Rightarrow> token_row list \<Rightarrow> identity_db \<Rightarrow> identity_db" where
  "set_token_rows k rows db = (case k of ResetToken \<Rightarrow> db\<lparr>id_resets := rows\<rparr> | VerifyToken \<Rightarrow> db\<lparr>id_verifies := rows\<rparr>)"

definition rows_ok :: "token_row list \<Rightarrow> bool" where
  "rows_ok rows \<longleftrightarrow> distinct (map kr_id rows) \<and> distinct (map kr_hash rows) \<and> (\<forall>r \<in> set rows. kr_user r \<noteq> [])"

definition token_at :: "token_row list \<Rightarrow> string \<Rightarrow> token_row option" where
  "token_at rows h = List.find (\<lambda>r. kr_hash r = h) rows"

definition open_token :: "token_row option \<Rightarrow> (string \<times> int) option" where
  "open_token x = (case x of None \<Rightarrow> None | Some r \<Rightarrow> if kr_used r = None then Some (kr_user r, kr_expires r) else None)"

definition db_ok :: "identity_db \<Rightarrow> bool" where
  "db_ok db \<longleftrightarrow> rows_ok (id_resets db) \<and> rows_ok (id_verifies db) \<and> (\<forall>u \<in> set (id_users db). ur_id u \<noteq> [])"

definition db_pending :: "identity_db \<Rightarrow> token_kind \<times> string \<rightharpoonup> string \<times> int" where
  "db_pending db = (\<lambda>(k, h). open_token (token_at (token_rows k db) h))"

definition db_spent :: "identity_db \<Rightarrow> (token_kind \<times> string) set" where
  "db_spent db = {(k, h). \<exists>r. token_at (token_rows k db) h = Some r \<and> kr_used r \<noteq> None}"

lemma token_rows_set [simp]:
  "token_rows k (set_token_rows k' rows db) = (if k = k' then rows else token_rows k db)"
  "id_users (set_token_rows k' rows db) = id_users db"
  by (cases k; cases k'; simp add: token_rows_def set_token_rows_def)+

lemma db_ok_rows: "db_ok db \<longleftrightarrow> (\<forall>k. rows_ok (token_rows k db)) \<and> (\<forall>u \<in> set (id_users db). ur_id u \<noteq> [])"
proof -
  have "(\<forall>k. rows_ok (token_rows k db)) \<longleftrightarrow> rows_ok (token_rows ResetToken db) \<and> rows_ok (token_rows VerifyToken db)"
    by (metis token_kind.exhaust)
  then show ?thesis by (simp add: db_ok_def token_rows_def)
qed

lemma token_at_iff: "rows_ok rows \<Longrightarrow> token_at rows h = Some r \<longleftrightarrow> r \<in> set rows \<and> kr_hash r = h"
proof (induction rows)
  case (Cons a rows)
  then have "rows_ok rows" "kr_hash a \<notin> kr_hash ` set rows" by (auto simp: rows_ok_def)
  with Cons.IH show ?case by (auto simp: token_at_def)
qed (simp add: token_at_def)

lemma token_at_append: "token_at (rows @ [r]) h = (case token_at rows h of None \<Rightarrow> if kr_hash r = h then Some r else None | x \<Rightarrow> x)"
  by (induction rows) (auto simp: token_at_def)

lemma redeem_token_eq:
  assumes "rows_ok rows"
  shows "redeem_token h now rows = (case token_at rows h of None \<Rightarrow> ([], rows)
    | Some r \<Rightarrow> if kr_used r = None \<and> kr_expires r > now
        then (kr_user r, map (\<lambda>q. if q = r then r\<lparr>kr_used := Some now\<rparr> else q) rows) else ([], rows))"
proof -
  have inj: "q = r" if "q \<in> set rows" "r \<in> set rows" "kr_id q = kr_id r \<or> kr_hash q = kr_hash r" for q r
    using assms that by (auto simp: rows_ok_def distinct_map inj_on_def)
  let ?f = "List.find (\<lambda>r. kr_hash r = h \<and> kr_used r = None \<and> kr_expires r > now) rows"
  show ?thesis
  proof (cases ?f)
    case None
    then have "\<not> (kr_used r = None \<and> kr_expires r > now)" if "token_at rows h = Some r" for r
      using that token_at_iff [OF assms] by (auto simp: find_None_iff)
    with None show ?thesis by (auto simp: redeem_token_def split: option.split)
  next
    case (Some r)
    then have r: "r \<in> set rows" "kr_hash r = h" "kr_used r = None" "kr_expires r > now" by (auto simp: find_Some_iff)
    then have "token_at rows h = Some r" using token_at_iff [OF assms] by blast
    moreover have "map (\<lambda>q. if kr_id q = kr_id r \<and> kr_used q = None then q\<lparr>kr_used := Some now\<rparr> else q) rows =
      map (\<lambda>q. if q = r then r\<lparr>kr_used := Some now\<rparr> else q) rows"
      using inj r by (intro map_cong) auto
    ultimately show ?thesis using Some r by (simp add: redeem_token_def)
  qed
qed

lemma rows_ok_use:
  assumes "rows_ok rows"
  shows "rows_ok (map (\<lambda>q. if q = r then r\<lparr>kr_used := x\<rparr> else q) rows)"
proof -
  have ids: "map kr_id (map (\<lambda>q. if q = r then r\<lparr>kr_used := x\<rparr> else q) rows) = map kr_id rows"
    and hashes: "map kr_hash (map (\<lambda>q. if q = r then r\<lparr>kr_used := x\<rparr> else q) rows) = map kr_hash rows" by auto
  show ?thesis using assms unfolding rows_ok_def ids hashes by (auto split: if_splits)
qed

lemma token_at_use:
  assumes "rows_ok rows" and "token_at rows h = Some r"
  shows "token_at (map (\<lambda>q. if q = r then r\<lparr>kr_used := x\<rparr> else q) rows) h' =
    (if h' = h then Some (r\<lparr>kr_used := x\<rparr>) else token_at rows h')"
proof (cases "h' = h")
  case True
  then show ?thesis using assms token_at_iff [OF rows_ok_use [OF assms(1)]] token_at_iff [OF assms(1)] by force
next
  case False
  then have "kr_hash r \<noteq> h'" using assms token_at_iff by blast
  then have "token_at (map (\<lambda>q. if q = r then r\<lparr>kr_used := x\<rparr> else q) rows) h' = token_at rows h'"
    by (induction rows) (auto simp: token_at_def)
  with False show ?thesis by simp
qed

lemma db_store:
  "store_token (db_recovery same) k t db = (case insert_token (id_users db) t (token_rows k db) of
      (Inl e, _) \<Rightarrow> (Inl (WrapErr (case k of ResetToken \<Rightarrow> ''store password reset token'' | VerifyToken \<Rightarrow> ''store email verify token'') e), db)
    | (Inr (), rows) \<Rightarrow> (Inr (), set_token_rows k rows db))"
  by (cases k) (simp_all only: store_token_def db_recovery_def recovery_ops.select_convs db_store_reset_def db_store_verify_def
    token_rows_def set_token_rows_def token_kind.case)

lemma db_consume:
  "consume_token (db_recovery same) k h now db =
    (Inr (fst (redeem_token h now (token_rows k db))), set_token_rows k (snd (redeem_token h now (token_rows k db))) db)"
  by (cases k) (simp_all add: consume_token_def db_recovery_def db_consume_reset_def db_consume_verify_def token_rows_def
    set_token_rows_def split: prod.splits)

lemma set_token_rows_self [simp]: "set_token_rows k (token_rows k db) db = db"
  by (cases k) (simp_all add: set_token_rows_def token_rows_def)

lemma db_store_law:
  assumes ok: "db_ok db" and st: "store_token (db_recovery same) k t db = (r, db')"
  shows "db_ok db' \<and> db_spent db' = db_spent db \<and> (db_pending db' = db_pending db \<or> (k, rt_hash t) \<notin> db_spent db \<and>
    db_pending db' = (db_pending db)((k, rt_hash t) \<mapsto> (rt_user t, rt_expires t)))"
proof (cases "list_ex (\<lambda>r. kr_id r = rt_id t \<or> kr_hash r = rt_hash t) (token_rows k db) \<or>
    \<not> list_ex (\<lambda>u. ur_id u = rt_user t) (id_users db)")
  case True
  then have "db' = db" using st by (auto simp: db_store insert_token_def split: if_splits)
  with ok show ?thesis by blast
next
  case False
  let ?r = "\<lparr>kr_id = rt_id t, kr_user = rt_user t, kr_hash = rt_hash t, kr_expires = rt_expires t, kr_used = None\<rparr>"
  have db': "db' = set_token_rows k (token_rows k db @ [?r]) db"
  proof -
    have "insert_token (id_users db) t (token_rows k db) = (Inr (), token_rows k db @ [?r])"
      using False by (simp only: insert_token_def de_Morgan_disj not_not if_False simp_thms)
    then show ?thesis using st by (simp only: db_store prod.case sum.case unit.case prod.inject)
  qed
  have rows: "rows_ok (token_rows k db)" using ok by (simp add: db_ok_rows)
  have new: "token_at (token_rows k db) (rt_hash t) = None"
    using False token_at_iff [OF rows] unfolding list_ex_iff by (metis option.exhaust)
  have "rt_user t \<noteq> []" using ok False by (auto simp: db_ok_def list_ex_iff)
  then have "rows_ok (token_rows k db @ [?r])" using rows False by (auto simp: rows_ok_def list_ex_iff)
  then have "db_ok db'" using ok unfolding db' db_ok_rows by simp
  moreover have "(k, rt_hash t) \<notin> db_spent db" using new by (simp add: db_spent_def)
  moreover have "db_spent db' = db_spent db"
  proof -
    have "(\<exists>r. token_at (token_rows j db') h = Some r \<and> kr_used r \<noteq> None) \<longleftrightarrow>
      (\<exists>r. token_at (token_rows j db) h = Some r \<and> kr_used r \<noteq> None)" for j h
      using new by (cases "token_at (token_rows j db) h") (auto simp: db' token_at_append)
    then show ?thesis by (simp add: db_spent_def)
  qed
  moreover have "db_pending db' = (db_pending db)((k, rt_hash t) \<mapsto> (rt_user t, rt_expires t))"
  proof (rule ext)
    fix x :: "token_kind \<times> string"
    obtain j h where x: "x = (j, h)" by fastforce
    show "db_pending db' x = ((db_pending db)((k, rt_hash t) \<mapsto> (rt_user t, rt_expires t))) x"
      using new by (cases "token_at (token_rows j db) h") (auto simp: x db_pending_def db' token_at_append open_token_def)
  qed
  ultimately show ?thesis by blast
qed

lemma db_redeem:
  assumes ok: "db_ok db" and use: "consume_token (db_recovery same) k h now db = (Inr u, db')"
  obtains (hit) r where "token_at (token_rows k db) h = Some r" and "kr_used r = None" and "now < kr_expires r"
      and "u = kr_user r" and "u \<noteq> []"
      and "db' = set_token_rows k (map (\<lambda>q. if q = r then r\<lparr>kr_used := Some now\<rparr> else q) (token_rows k db)) db"
    | (miss) "u = []" and "db' = db" and "\<And>r. token_at (token_rows k db) h = Some r \<Longrightarrow> kr_used r \<noteq> None \<or> kr_expires r \<le> now"
proof -
  have rows: "rows_ok (token_rows k db)" using ok by (simp add: db_ok_rows)
  show thesis
  proof (cases "token_at (token_rows k db) h")
    case None
    then show thesis using use miss by (simp add: db_consume redeem_token_eq [OF rows])
  next
    case (Some r)
    then have "kr_user r \<noteq> []" using rows token_at_iff [OF rows] by (auto simp: rows_ok_def)
    then show thesis using use hit [OF Some] miss Some
      by (cases "kr_used r = None \<and> now < kr_expires r") (auto simp: db_consume redeem_token_eq [OF rows])
  qed
qed

lemma db_consume_law:
  assumes ok: "db_ok db" and use: "consume_token (db_recovery same) k h now db = (Inr u, db')" and u: "u \<noteq> []"
  shows "db_ok db' \<and> (\<exists>e. db_pending db (k, h) = Some (u, e) \<and> now < e) \<and>
    db_pending db' = (db_pending db)((k, h) := None) \<and> db_spent db' = insert (k, h) (db_spent db)"
  using ok use
proof (cases rule: db_redeem)
  case (hit r)
  have rows: "rows_ok (token_rows k db)" using ok by (simp add: db_ok_rows)
  note at' = token_at_use [OF rows hit(1), of "Some now"]
  have "db_ok db'" using ok rows_ok_use [OF rows] unfolding hit(6) db_ok_rows by simp
  moreover have "db_pending db (k, h) = Some (u, kr_expires r)" using hit by (simp add: db_pending_def open_token_def)
  moreover have "db_pending db' = (db_pending db)((k, h) := None)"
    unfolding hit(6) db_pending_def by (auto simp: fun_eq_iff at' open_token_def)
  moreover have "db_spent db' = insert (k, h) (db_spent db)"
    unfolding hit(6) db_spent_def by (auto simp: at' split: if_splits)
  ultimately show ?thesis using hit(3) by blast
qed (use u in blast)

interpretation db: recovery_repository "db_recovery same" db_ok db_pending db_spent for same
proof unfold_locales
  fix db k t r db' assume "db_ok db" "store_token (db_recovery same) k t db = (r, db')"
  then show "db_ok db' \<and> db_spent db' = db_spent db \<and> (db_pending db' = db_pending db \<or> (k, rt_hash t) \<notin> db_spent db \<and>
    db_pending db' = (db_pending db)((k, rt_hash t) \<mapsto> (rt_user t, rt_expires t)))" by (rule db_store_law)
next
  fix db k h now u db' assume "db_ok db" "consume_token (db_recovery same) k h now db = (Inr u, db')" "u \<noteq> []"
  then show "db_ok db' \<and> (\<exists>e. db_pending db (k, h) = Some (u, e) \<and> now < e) \<and>
    db_pending db' = (db_pending db)((k, h) := None) \<and> db_spent db' = insert (k, h) (db_spent db)" by (rule db_consume_law)
next
  fix db k h now q db' assume ok: "db_ok db" and use: "consume_token (db_recovery same) k h now db = (q, db')"
    and q: "q = Inr [] \<or> isl q"
  have "q = Inr []" using q use by (auto simp: db_consume)
  with use have "consume_token (db_recovery same) k h now db = (Inr [], db')" by simp
  with ok show "db' = db" by (cases rule: db_redeem) simp_all
next
  fix db k h u e now assume ok: "db_ok db" and pen: "db_pending db (k, h) = Some (u, e)" and now: "(now :: int) < e"
  obtain v db' where use: "consume_token (db_recovery same) k h now db = (Inr v, db')" by (simp add: db_consume)
  from ok this show "\<exists>db'. consume_token (db_recovery same) k h now db = (Inr u, db') \<and> u \<noteq> []"
    using pen now use by (cases rule: db_redeem) (auto simp: db_pending_def open_token_def split: option.splits if_splits)
next
  fix db x assume "db_ok db" "x \<in> db_spent db"
  then show "db_pending db x = None" by (auto simp: db_spent_def db_pending_def open_token_def)
qed (auto simp: db_recovery_def db_update_hash_def db_mark_verified_def db_ok_def db_pending_def db_spent_def token_rows_def fun_eq_iff
  split: token_kind.splits)

subsection \<open>Properties\<close>

text \<open>C34: single use of recovery tokens: in any history of stores, redemptions, password changes and
  verifications over the MySQL tables, no reset or verification token names a user twice, none that was
  already used before the history does, and each redemption names the user the token was stored for,
  strictly before the token expires.\<close>

theorem recovery_token_single_use:
  assumes "db_ok db" and "recovery_run (db_recovery same) es db = (lg, db')"
  shows "distinct (map fst lg) \<and> list_all (\<lambda>x. fst x \<notin> db_spent db \<and> granted es (db_pending db) x) lg"
  using db.run_sound [OF assms] by (simp only: list_all_iff) blast

definition wit_identity :: identity_db where
  "wit_identity = \<lparr>id_users = [\<lparr>ur_id = ''u1'', ur_login = ''a@b.c'', ur_name = ''A'', ur_email = Some ''a@b.c'',
       ur_phone = None, ur_status = ''active'', ur_verified = None\<rparr>],
     id_credentials = [\<lparr>cr_user = ''u1'', cr_type = ''password'', cr_status = ''active'', cr_hash = ''#old'', cr_changed = None\<rparr>],
     id_tiers = [], id_resets = [], id_verifies = []\<rparr>"

lemma wit_identity_ok: "db_ok wit_identity"
  by (simp add: db_ok_def wit_identity_def rows_ok_def)

definition wit_recovery :: "recovery_event list" where
  "wit_recovery = [Store ResetToken \<lparr>rt_id = ''t1'', rt_user = ''u1'', rt_hash = ''h1'', rt_expires = 100\<rparr>,
     Store VerifyToken \<lparr>rt_id = ''t2'', rt_user = ''u1'', rt_hash = ''h1'', rt_expires = 10\<rparr>,
     Consume ResetToken ''h1'' 50, Consume ResetToken ''h1'' 51, Consume VerifyToken ''h1'' 60]"

theorem recovery_token_single_use_witness:
  "fst (recovery_run (db_recovery (=)) wit_recovery wit_identity) = [((ResetToken, ''h1''), ''u1'', 50)] \<and>
   distinct (map fst (fst (recovery_run (db_recovery (=)) wit_recovery wit_identity)))"
proof -
  have "fst (recovery_run (db_recovery (=)) wit_recovery wit_identity) = [((ResetToken, ''h1''), ''u1'', 50)]"
    by code_simp
  with recovery_token_single_use [OF wit_identity_ok prod.collapse [symmetric], of "(=)" wit_recovery]
  show ?thesis by blast
qed

end
