(* ===== verification/Memberships.thy ===== *)
theory Memberships
  imports HttpErrors
begin

section \<open>Memberships: who belongs to which company\<close>

text \<open>
  Models the read port \<open>MembershipQueryService\<close> of \<^verbatim>\<open>internal/companyaccess/app/contracts.go\<close>
  and its two providers: the fixture of \<^verbatim>\<open>infra/inmemory/membership_query.go\<close> and the joins of
  \<^verbatim>\<open>infra/mysql/membership_query.go\<close> on lists of rows. Parameters of the latter: \<open>rank\<close>, the
  collation key the database sorts names by, and \<open>lower_is\<close>, its \<^verbatim>\<open>LOWER(column) = constant\<close>.
  The contract (locale \<open>membership_query\<close>) ties the single lookup to the listing.
\<close>

subsection \<open>The port\<close>

record membership_view =
  mv_id :: string
  mv_user :: string
  mv_company :: string
  mv_name :: string
  mv_status :: string

record department_view =
  dv_id :: string
  dv_name :: string

record membership_query =
  mq_by_user :: "string \<Rightarrow> go_error + membership_view list"
  mq_active :: "string \<Rightarrow> string \<Rightarrow> go_error + membership_view option"
  mq_roles :: "string \<Rightarrow> go_error + string list"
  mq_departments :: "string \<Rightarrow> go_error + department_view list"
  mq_titles :: "string \<Rightarrow> go_error + string list"

definition no_membership :: go_error where
  "no_membership = new_http_error 403 CodeMembershipNotFound ''membership not found''"

subsection \<open>The in-memory fixture\<close>

record member_fixture =
  mf_by_user :: "string \<rightharpoonup> membership_view list"
  mf_roles :: "string \<rightharpoonup> string list"
  mf_deps :: "string \<rightharpoonup> department_view list"
  mf_titles :: "string \<rightharpoonup> string list"

definition entries_at :: "(string \<rightharpoonup> 'a list) \<Rightarrow> string \<Rightarrow> 'a list" where
  "entries_at m k = (case m k of None \<Rightarrow> [] | Some xs \<Rightarrow> xs)"

definition fixture_active :: "member_fixture \<Rightarrow> string \<Rightarrow> string \<Rightarrow> go_error + membership_view option" where
  "fixture_active f u c = (case List.find (\<lambda>m. mv_company m = c \<and> equal_fold (mv_status m) ''active'') (entries_at (mf_by_user f) u) of
      None \<Rightarrow> Inl no_membership | Some m \<Rightarrow> Inr (Some m))"

definition fixture_query :: "member_fixture \<Rightarrow> membership_query" where
  "fixture_query f = \<lparr>mq_by_user = (\<lambda>u. Inr (entries_at (mf_by_user f) u)), mq_active = fixture_active f,
     mq_roles = (\<lambda>m. Inr (entries_at (mf_roles f) m)), mq_departments = (\<lambda>m. Inr (entries_at (mf_deps f) m)),
     mq_titles = (\<lambda>m. Inr (entries_at (mf_titles f) m))\<rparr>"

definition member :: "string \<Rightarrow> string \<Rightarrow> string \<Rightarrow> string \<Rightarrow> membership_view" where
  "member i u c n = \<lparr>mv_id = i, mv_user = u, mv_company = c, mv_name = n, mv_status = ''active''\<rparr>"

definition department :: "string \<Rightarrow> string \<Rightarrow> department_view" where
  "department i n = \<lparr>dv_id = i, dv_name = n\<rparr>"

definition seed_members :: member_fixture where
  "seed_members = \<lparr>
     mf_by_user = [''u_123'' \<mapsto> [member ''m_001'' ''u_123'' ''c_001'' ''Company X'', member ''m_002'' ''u_123'' ''c_002'' ''Company Y''],
       ''u_single'' \<mapsto> [member ''m_010'' ''u_single'' ''c_010'' ''Solo Company''],
       ''u_admin'' \<mapsto> [member ''m_admin_001'' ''u_admin'' ''c_001'' ''Company X''],
       ''u_cms'' \<mapsto> [member ''m_cms_001'' ''u_cms'' ''c_001'' ''Company X'']],
     mf_roles = [''m_001'' \<mapsto> [''department_staff'', ''disclosure_approver''],
       ''m_admin_001'' \<mapsto> [''company_admin'', ''disclosure_approver''],
       ''m_cms_001'' \<mapsto> [''cms_operator'', ''company_admin'', ''disclosure_approver'']],
     mf_deps = [''m_001'' \<mapsto> [department ''d_legal'' ''Legal'', department ''d_ir'' ''IR''],
       ''m_admin_001'' \<mapsto> [department ''d_legal'' ''Legal''], ''m_cms_001'' \<mapsto> [department ''d_legal'' ''Legal'']],
     mf_titles = [''m_001'' \<mapsto> [''Dau moi CBTT''], ''m_admin_001'' \<mapsto> [''Enterprise Admin''], ''m_cms_001'' \<mapsto> [''CMS Operator'']]\<rparr>"

subsection \<open>The MySQL joins\<close>

record membership_row =
  mb_id :: string
  mb_user :: string
  mb_company :: string
  mb_status :: string

text \<open>A role, department or title with its status, and its assignment to a membership.\<close>

record named_row =
  nr_id :: string
  nr_name :: string
  nr_status :: string

record link_row =
  lk_membership :: string
  lk_target :: string
  lk_status :: string

record member_db =
  md_companies :: "(string \<times> string) list"
  md_memberships :: "membership_row list"
  md_roles :: "named_row list"
  md_role_links :: "link_row list"
  md_deps :: "named_row list"
  md_dep_links :: "link_row list"
  md_titles :: "named_row list"
  md_title_links :: "link_row list"

definition joined :: "membership_row \<Rightarrow> string \<times> string \<Rightarrow> membership_view" where
  "joined m c = \<lparr>mv_id = mb_id m, mv_user = mb_user m, mv_company = mb_company m, mv_name = snd c, mv_status = mb_status m\<rparr>"

definition membership_join :: "member_db \<Rightarrow> (membership_row \<Rightarrow> bool) \<Rightarrow> membership_view list" where
  "membership_join db P = concat (map (\<lambda>m. map (joined m) (filter (\<lambda>c. fst c = mb_company m) (md_companies db)))
      (filter P (md_memberships db)))"

definition linked_rows :: "named_row list \<Rightarrow> link_row list \<Rightarrow> string \<Rightarrow> named_row list" where
  "linked_rows rows links m = concat (map (\<lambda>l. filter (\<lambda>r. nr_id r = lk_target l \<and> nr_status r = ''active'') rows)
      (filter (\<lambda>l. lk_membership l = m \<and> lk_status l = ''active'') links))"

definition by_name :: "(string \<Rightarrow> string) \<Rightarrow> named_row list \<Rightarrow> named_row list" where
  "by_name rank = sort_key (\<lambda>r. rank (nr_name r))"

definition db_by_user :: "(string \<Rightarrow> string) \<Rightarrow> member_db \<Rightarrow> string \<Rightarrow> go_error + membership_view list" where
  "db_by_user rank db u = Inr (sort_key (\<lambda>v. rank (mv_name v)) (membership_join db (\<lambda>m. mb_user m = u)))"

definition db_active :: "(string \<Rightarrow> string \<Rightarrow> bool) \<Rightarrow> member_db \<Rightarrow> string \<Rightarrow> string \<Rightarrow> go_error + membership_view option" where
  "db_active lower_is db u c =
    (case membership_join db (\<lambda>m. mb_user m = u \<and> mb_company m = c \<and> lower_is (mb_status m) ''active'') of
       [] \<Rightarrow> Inl no_membership | v # _ \<Rightarrow> Inr (Some v))"

definition db_roles :: "(string \<Rightarrow> string) \<Rightarrow> member_db \<Rightarrow> string \<Rightarrow> go_error + string list" where
  "db_roles rank db m = Inr (map nr_name (by_name rank (linked_rows (md_roles db) (md_role_links db) m)))"

definition db_departments :: "(string \<Rightarrow> string) \<Rightarrow> member_db \<Rightarrow> string \<Rightarrow> go_error + department_view list" where
  "db_departments rank db m = Inr (map (\<lambda>r. \<lparr>dv_id = nr_id r, dv_name = nr_name r\<rparr>)
     (by_name rank (linked_rows (md_deps db) (md_dep_links db) m)))"

definition db_titles :: "(string \<Rightarrow> string) \<Rightarrow> member_db \<Rightarrow> string \<Rightarrow> go_error + string list" where
  "db_titles rank db m = Inr (map nr_name (by_name rank (linked_rows (md_titles db) (md_title_links db) m)))"

definition db_query :: "(string \<Rightarrow> string) \<Rightarrow> (string \<Rightarrow> string \<Rightarrow> bool) \<Rightarrow> member_db \<Rightarrow> membership_query" where
  "db_query rank lower_is db = \<lparr>mq_by_user = db_by_user rank db, mq_active = db_active lower_is db,
     mq_roles = db_roles rank db, mq_departments = db_departments rank db, mq_titles = db_titles rank db\<rparr>"

subsection \<open>The contract\<close>

text \<open>\<open>listed u\<close> are the memberships of the user \<open>u\<close>, \<open>active\<close> the statuses that count as active.\<close>

locale membership_query =
  fixes q :: membership_query and active :: "string \<Rightarrow> bool" and listed :: "string \<Rightarrow> membership_view set"
  assumes by_user_law: "mq_by_user q u = Inr ms \<Longrightarrow> set ms \<subseteq> listed u"
    and active_law: "mq_active q u c = Inr (Some m) \<Longrightarrow> m \<in> listed u \<and> mv_company m = c \<and> active (mv_status m)"
    and listed_law: "m \<in> listed u \<Longrightarrow> mv_user m = u"
    and fold_law: "equal_fold st ''active'' \<Longrightarrow> active st"
    and active_total: "m \<in> listed u \<Longrightarrow> equal_fold (mv_status m) ''active'' \<Longrightarrow> \<exists>m'. mq_active q u (mv_company m) = Inr (Some m')"

definition fixture_ok :: "member_fixture \<Rightarrow> bool" where
  "fixture_ok f \<longleftrightarrow> (\<forall>u ms m. mf_by_user f u = Some ms \<longrightarrow> m \<in> set ms \<longrightarrow> mv_user m = u)"

lemma seed_members_ok: "fixture_ok seed_members"
  by (auto simp: fixture_ok_def seed_members_def member_def split: if_splits)

lemma fixture_contract:
  assumes "fixture_ok f"
  shows "membership_query (fixture_query f) (\<lambda>st. equal_fold st ''active'') (\<lambda>u. set (entries_at (mf_by_user f) u))"
proof unfold_locales
  fix u c m assume "mq_active (fixture_query f) u c = Inr (Some m)"
  then show "m \<in> set (entries_at (mf_by_user f) u) \<and> mv_company m = c \<and> equal_fold (mv_status m) ''active''"
    by (auto simp: fixture_query_def fixture_active_def find_Some_iff split: option.splits)
next
  fix m u assume "m \<in> set (entries_at (mf_by_user f) u)"
  with assms show "mv_user m = u" by (cases "mf_by_user f u") (auto simp: fixture_ok_def entries_at_def)
next
  fix m u assume "m \<in> set (entries_at (mf_by_user f) u)" "equal_fold (mv_status m) ''active''"
  then show "\<exists>m'. mq_active (fixture_query f) u (mv_company m) = Inr (Some m')"
    by (cases "List.find (\<lambda>x. mv_company x = mv_company m \<and> equal_fold (mv_status x) ''active'') (entries_at (mf_by_user f) u)")
      (auto simp: fixture_query_def fixture_active_def find_None_iff)
qed (simp_all add: fixture_query_def)

interpretation seeded: membership_query "fixture_query seed_members" "\<lambda>st. equal_fold st ''active''"
  "\<lambda>u. set (entries_at (mf_by_user seed_members) u)"
  by (rule fixture_contract [OF seed_members_ok])

text \<open>The database compares the lower-cased status at least as loosely as the code does.\<close>

definition folds_active :: "(string \<Rightarrow> string \<Rightarrow> bool) \<Rightarrow> bool" where
  "folds_active lower_is \<longleftrightarrow> (\<forall>st. equal_fold st ''active'' \<longrightarrow> lower_is st ''active'')"

lemma set_membership_join:
  "v \<in> set (membership_join db P) \<longleftrightarrow> (\<exists>m c. m \<in> set (md_memberships db) \<and> P m \<and> c \<in> set (md_companies db) \<and>
     fst c = mb_company m \<and> v = joined m c)"
  unfolding membership_join_def by force

lemma joined_simps [simp]: "mv_user (joined m c) = mb_user m" "mv_company (joined m c) = mb_company m"
  "mv_status (joined m c) = mb_status m"
  by (simp_all add: joined_def)

lemma db_contract:
  assumes "folds_active lower_is"
  shows "membership_query (db_query rank lower_is db) (\<lambda>st. lower_is st ''active'') (\<lambda>u. set (membership_join db (\<lambda>m. mb_user m = u)))"
proof unfold_locales
  fix u c v assume "mq_active (db_query rank lower_is db) u c = Inr (Some v)"
  then have "v \<in> set (membership_join db (\<lambda>m. mb_user m = u \<and> mb_company m = c \<and> lower_is (mb_status m) ''active''))"
    by (auto simp: db_query_def db_active_def split: list.splits)
  then show "v \<in> set (membership_join db (\<lambda>m. mb_user m = u)) \<and> mv_company v = c \<and> lower_is (mv_status v) ''active''"
    unfolding set_membership_join by auto
next
  fix v u assume "v \<in> set (membership_join db (\<lambda>m. mb_user m = u))" "equal_fold (mv_status v) ''active''"
  then have "v \<in> set (membership_join db (\<lambda>m. mb_user m = u \<and> mb_company m = mv_company v \<and> lower_is (mb_status m) ''active''))"
    using assms unfolding set_membership_join folds_active_def by fastforce
  then show "\<exists>v'. mq_active (db_query rank lower_is db) u (mv_company v) = Inr (Some v')"
    by (auto simp: db_query_def db_active_def split: list.split)
qed (use assms in \<open>auto simp: db_query_def db_by_user_def set_membership_join folds_active_def\<close>)

end
