(* ===== verification/IamService.thy ===== *)
theory IamService
  imports Sessions Outbox Credentials Memberships
begin

section \<open>The IAM service: login, tokens, company context, recovery\<close>

text \<open>
  Models \<^verbatim>\<open>internal/iam/app/service.go\<close> and \<^verbatim>\<open>hooks.go\<close> over the ports of the theories
  \<open>Tokens\<close>, \<open>Sessions\<close>, \<open>Credentials\<close>, \<open>Memberships\<close> and \<open>Outbox\<close>. The state \<open>iam_state\<close> is
  what stands behind the ports plus the id generator; the environment \<open>iam_env\<close> holds the ports,
  the options and what a call reads from outside: the clock (one reading per call), 32 random
  bytes, SHA-256 as \<open>ie_sha\<close> and bcrypt as \<open>ie_bcrypt\<close>. The token manager and the service draw ids
  from the same generator in the code; here each keeps its own supply.
\<close>

subsection \<open>Base64 and query escaping, as the action links use them\<close>

definition url_alphabet :: string where
  "url_alphabet = ''ABCDEFGHIJKLMNOPQRSTUVWXYZabcdefghijklmnopqrstuvwxyz0123456789-_''"

definition b64_char :: "int \<Rightarrow> char" where
  "b64_char i = url_alphabet ! nat i"

fun b64url :: "int list \<Rightarrow> string" where
  "b64url [] = []"
| "b64url [a] = [b64_char (a div 4), b64_char (a mod 4 * 16)]"
| "b64url [a, b] = [b64_char (a div 4), b64_char (a mod 4 * 16 + b div 16), b64_char (b mod 16 * 4)]"
| "b64url (a # b # c # r) = b64_char (a div 4) # b64_char (a mod 4 * 16 + b div 16) #
     b64_char (b mod 16 * 4 + c div 64) # b64_char (c mod 64) # b64url r"

definition unreserved :: "char \<Rightarrow> bool" where
  "unreserved c \<longleftrightarrow> (let b = byte c in 97 \<le> b \<and> b \<le> 122 \<or> 65 \<le> b \<and> b \<le> 90 \<or> 48 \<le> b \<and> b \<le> 57 \<or>
     c \<in> set ''-_.~'')"

definition hex_upper :: "int \<Rightarrow> char" where
  "hex_upper d = (if d < 10 then char_of (48 + d) else char_of (55 + d))"

definition query_escape :: "string \<Rightarrow> string" where
  "query_escape s = concat (map (\<lambda>c. if unreserved c then [c] else if c = CHR '' '' then ''+''
     else [CHR ''%'', hex_upper (byte c div 16), hex_upper (byte c mod 16)]) s)"

text \<open>A base64 token needs no escaping and no trimming: the link carries it verbatim.\<close>

definition plain_char :: "char \<Rightarrow> bool" where
  "plain_char c \<longleftrightarrow> byte c < 128 \<and> \<not> ascii_space c"

lemma trim_space_plain:
  assumes "list_all plain_char s"
  shows "trim_space s = s"
proof -
  have fix_left: "head_space space2 space3 t = 0" if "list_all plain_char t" for t
    using that by (cases t) (auto simp: head_space_zero_Cons plain_char_def space2_def space3_def)
  have fix_right: "head_space (\<lambda>b a. space2 a b) (\<lambda>c b a. space3 a b c) t = 0" if "list_all plain_char t" for t
    using that by (cases t) (auto simp: head_space_zero_Cons plain_char_def space2_def space3_def)
  have "list_all plain_char (rev s)" using assms by simp
  then show ?thesis using assms fix_left fix_right
    by (simp add: trim_space_def trim_left_space_def trim_right_space_def trim_by_fix)
qed

lemma alphabet_ok: "list_all (\<lambda>c. unreserved c \<and> plain_char c) url_alphabet"
  unfolding url_alphabet_def by (simp add: unreserved_def plain_char_def ascii_space_def byte_def Let_def)

definition sextet :: "int \<Rightarrow> bool" where
  "sextet i \<longleftrightarrow> 0 \<le> i \<and> i < 64"

definition octet :: "int \<Rightarrow> bool" where
  "octet b \<longleftrightarrow> 0 \<le> b \<and> b < 256"

lemma b64_char_ok:
  assumes "sextet i"
  shows "unreserved (b64_char i) \<and> plain_char (b64_char i)"
proof -
  have "length url_alphabet = 64" by (simp add: url_alphabet_def)
  then have "url_alphabet ! nat i \<in> set url_alphabet" using assms by (intro nth_mem) (simp add: sextet_def nat_less_iff)
  then show ?thesis using alphabet_ok by (auto simp: b64_char_def list_all_iff)
qed

lemma sextet_parts:
  "0 \<le> x \<Longrightarrow> x < 4 \<Longrightarrow> sextet (x * 16)" "0 \<le> x \<Longrightarrow> x < 4 \<Longrightarrow> 0 \<le> y \<Longrightarrow> y < 16 \<Longrightarrow> sextet (x * 16 + y)"
  "0 \<le> y \<Longrightarrow> y < 16 \<Longrightarrow> sextet (y * 4)" "0 \<le> y \<Longrightarrow> y < 16 \<Longrightarrow> 0 \<le> z \<Longrightarrow> z < 4 \<Longrightarrow> sextet (y * 4 + z)"
  by (simp_all add: sextet_def)

lemma octet_parts:
  assumes "octet b"
  shows "sextet (b div 4)" "0 \<le> b div 16" "b div 16 < 16" "0 \<le> b div 64" "b div 64 < 4"
proof -
  have b: "0 \<le> b" "b < 256" using assms by (simp_all add: octet_def)
  then show "0 \<le> b div 16" "b div 16 < 16" "0 \<le> b div 64" "b div 64 < 4" by linarith+
  have "0 \<le> b div 4" "b div 4 < 64" using b by linarith+
  then show "sextet (b div 4)" by (simp add: sextet_def)
qed

lemma sextets:
  assumes "octet a" "octet b"
  shows "sextet (a div 4)" "sextet (a mod 4 * 16)" "sextet (a mod 4 * 16 + b div 16)" "sextet (a mod 16 * 4)"
    "sextet (a mod 16 * 4 + b div 64)" "sextet (a mod 64)"
proof -
  have m: "0 \<le> a mod 4" "a mod 4 < 4" "0 \<le> a mod 16" "a mod 16 < 16" by simp_all
  show "sextet (a div 4)" by (rule octet_parts [OF assms(1)])
  show "sextet (a mod 4 * 16)" using m(1,2) by (rule sextet_parts)
  show "sextet (a mod 4 * 16 + b div 16)" using m(1,2) octet_parts(2,3) [OF assms(2)] by (rule sextet_parts)
  show "sextet (a mod 16 * 4)" using m(3,4) by (rule sextet_parts)
  show "sextet (a mod 16 * 4 + b div 64)" using m(3,4) octet_parts(4,5) [OF assms(2)] by (rule sextet_parts)
  show "sextet (a mod 64)" by (simp add: sextet_def)
qed

definition octets :: "int list \<Rightarrow> bool" where
  "octets bs \<longleftrightarrow> list_all octet bs"

lemma b64url_ok: "octets bs \<Longrightarrow> list_all (\<lambda>c. unreserved c \<and> plain_char c) (b64url bs)"
  unfolding octets_def
proof (induction bs rule: b64url.induct)
  case (2 a)
  then show ?case by (simp add: b64_char_ok sextets)
next
  case (3 a b)
  then have "octet a" "octet b" by simp_all
  with sextets [of a b] sextets [of b b] show ?case by (simp add: b64_char_ok)
next
  case (4 a b c r)
  then have "octet a" "octet b" "octet c" by simp_all
  with sextets [of a b] sextets [of b c] sextets [of c c] 4 show ?case by (simp add: b64_char_ok)
qed simp

lemma b64url_verbatim:
  assumes "octets bs"
  shows "query_escape (b64url bs) = b64url bs" and "trim_space (b64url bs) = b64url bs"
proof -
  have "list_all unreserved (b64url bs)" "list_all plain_char (b64url bs)"
    using b64url_ok [OF assms] by (simp_all add: list_all_iff)
  moreover have "concat (map (\<lambda>c. if unreserved c then [c] else f c) s) = s" if "list_all unreserved s" for f s
    using that by (induction s) auto
  ultimately show "query_escape (b64url bs) = b64url bs" and "trim_space (b64url bs) = b64url bs"
    by (simp_all add: query_escape_def trim_space_plain)
qed

lemma b64url_Nil_iff: "b64url bs = [] \<longleftrightarrow> bs = []"
  by (cases bs rule: b64url.cases) auto

subsection \<open>Requests and responses\<close>

record password_cipher =
  pw_alg :: string
  pw_kid :: string
  pw_text :: string

record login_request =
  lr_login :: string
  lr_email :: string
  lr_password :: string
  lr_cipher :: "password_cipher option"
  lr_remember :: bool
  lr_ip :: string
  lr_agent :: string
  lr_otp :: string
  lr_extensions :: attrs

record login_context =
  lc_company :: string
  lc_membership :: string
  lc_auto :: bool

record login_response =
  lo_user :: string
  lo_name :: string
  lo_access :: string
  lo_pre :: string
  lo_refresh :: string
  lo_expires :: int
  lo_context :: "login_context option"
  lo_memberships :: "(string \<times> string \<times> string) list"
  lo_hint :: bool
  lo_next :: string

record refresh_response =
  rr_access :: string
  rr_refresh :: string
  rr_expires :: int
  rr_company :: string
  rr_membership :: string

record bound_response =
  br_access :: string
  br_expires :: int
  br_company :: string
  br_membership :: string

record session_view =
  sv_id :: string
  sv_company :: string
  sv_membership :: string
  sv_ip :: string
  sv_agent :: string
  sv_current :: bool
  sv_revoked :: bool

subsection \<open>Environment and state\<close>

record ('tk, 'se, 'ci, 'ob) iam_env =
  ie_tokens :: "'tk token_ops"
  ie_sessions :: "'se session_ops"
  ie_identity :: "'ci identity_ops"
  ie_members :: membership_query
  ie_mfa :: "(authenticated_user \<Rightarrow> login_request \<Rightarrow> go_error option) option"
  ie_sso :: "(login_request \<Rightarrow> go_error + authenticated_user option \<times> bool) option"
  ie_attempts :: bool
  ie_recovery :: "'ci recovery_ops option"
  ie_outbox :: "'ob outbox_ops option"
  ie_web :: string
  ie_reset_ttl :: int
  ie_verify_ttl :: int
  ie_now :: int
  ie_random :: "go_error + int list"
  ie_sha :: "string \<Rightarrow> string"
  ie_bcrypt :: "string \<Rightarrow> go_error + string"

record ('tk, 'se, 'ci, 'ob) iam_state =
  st_tokens :: 'tk
  st_sessions :: 'se
  st_identity :: 'ci
  st_outbox :: 'ob
  st_attempts :: "attempt_row list"
  st_ids :: idgen

text \<open>\<open>WithAuthFlowConfig\<close> keeps the defaults for values that are not set.\<close>

definition auth_flow_config :: "string \<Rightarrow> int \<Rightarrow> int \<Rightarrow> ('tk, 'se, 'ci, 'ob) iam_env \<Rightarrow> ('tk, 'se, 'ci, 'ob) iam_env" where
  "auth_flow_config web reset_ttl verify_ttl env =
     env\<lparr>ie_web := (if web \<noteq> [] then web else ie_web env),
         ie_reset_ttl := (if reset_ttl > 0 then reset_ttl else ie_reset_ttl env),
         ie_verify_ttl := (if verify_ttl > 0 then verify_ttl else ie_verify_ttl env)\<rparr>"

definition new_iam :: "'tk token_ops \<Rightarrow> 'se session_ops \<Rightarrow> 'ci identity_ops \<Rightarrow> membership_query \<Rightarrow> ('tk, 'se, 'ci, 'ob) iam_env" where
  "new_iam tok ses idn mem = \<lparr>ie_tokens = tok, ie_sessions = ses, ie_identity = idn, ie_members = mem,
     ie_mfa = None, ie_sso = None, ie_attempts = False, ie_recovery = None, ie_outbox = None,
     ie_web = ''http://localhost:5173'', ie_reset_ttl = 30 * 60 * 1000000000, ie_verify_ttl = 24 * 3600 * 1000000000,
     ie_now = 0, ie_random = Inr (replicate 32 0), ie_sha = id, ie_bcrypt = Inr\<rparr>"

definition on_tokens :: "(go_error, 'tk, 'a) action \<Rightarrow> (go_error, ('tk, 'se, 'ci, 'ob) iam_state, 'a) action" where
  "on_tokens f st = (case f (st_tokens st) of (r, m) \<Rightarrow> (r, st\<lparr>st_tokens := m\<rparr>))"

definition on_sessions :: "(go_error, 'se, 'a) action \<Rightarrow> (go_error, ('tk, 'se, 'ci, 'ob) iam_state, 'a) action" where
  "on_sessions f st = (case f (st_sessions st) of (r, m) \<Rightarrow> (r, st\<lparr>st_sessions := m\<rparr>))"

definition on_identity :: "(go_error, 'ci, 'a) action \<Rightarrow> (go_error, ('tk, 'se, 'ci, 'ob) iam_state, 'a) action" where
  "on_identity f st = (case f (st_identity st) of (r, m) \<Rightarrow> (r, st\<lparr>st_identity := m\<rparr>))"

definition draw_id :: "('e, ('tk, 'se, 'ci, 'ob) iam_state, string) action" where
  "draw_id st = (case new_uuid (st_ids st) of (u, g) \<Rightarrow> (Inr u, st\<lparr>st_ids := g\<rparr>))"

definition account_locked :: go_error where
  "account_locked = new_http_error 403 CodeAccountLocked ''account is not active''"

definition no_active_company :: go_error where
  "no_active_company = new_http_error 403 CodeNoActiveCompanyAccess ''User does not have any active company membership.''"

subsection \<open>Login\<close>

text \<open>
  A step of \<open>Login\<close> that fails names the user known so far, the error it records as the failure
  of the attempt and the error it returns (which wraps the recorded one in some branches).
\<close>

type_synonym login_failure = "authenticated_user option \<times> go_error \<times> go_error"

definition login_fail :: "authenticated_user option \<Rightarrow> go_error \<Rightarrow> login_failure" where
  "login_fail u e = (u, e, e)"

definition failing_as :: "authenticated_user option \<Rightarrow> string \<Rightarrow> (go_error, 's, 'a) action \<Rightarrow> (login_failure, 's, 'a) action" where
  "failing_as u msg f s = (case f s of (Inl e, s') \<Rightarrow> (Inl (u, e, WrapErr msg e), s') | (Inr x, s') \<Rightarrow> (Inr x, s'))"

definition login_key :: "login_request \<Rightarrow> string" where
  "login_key req = (if trim_space (lr_login req) = [] then trim_space (lr_email req) else trim_space (lr_login req))"

definition password_auth :: "('tk, 'se, 'ci, 'ob) iam_env \<Rightarrow> login_request \<Rightarrow> 'ci \<Rightarrow> login_failure + authenticated_user" where
  "password_auth env req ci =
    (if login_key req = [] \<or> trim_space (lr_password req) = []
     then Inl (login_fail None (bad_request ''login_id and password are required''))
     else case io_verify (ie_identity env) (login_key req) (lr_password req) ci of
       Inl e \<Rightarrow> Inl (login_fail None e) | Inr u \<Rightarrow> Inr u)"

definition primary_auth :: "('tk, 'se, 'ci, 'ob) iam_env \<Rightarrow> login_request \<Rightarrow> 'ci \<Rightarrow> login_failure + authenticated_user" where
  "primary_auth env req ci = (case ie_sso env of
      None \<Rightarrow> password_auth env req ci
    | Some try_external \<Rightarrow> (case try_external req of
        Inl e \<Rightarrow> Inl (login_fail None e)
      | Inr (u, taken) \<Rightarrow> if taken
          then (case u of None \<Rightarrow> Inl (login_fail None (new_http_error 500 CodeInternal ''sso bridge returned no user'')) | Some x \<Rightarrow> Inr x)
          else password_auth env req ci))"

text \<open>Everything before a session is opened: authentication, account status, second factor, memberships.\<close>

definition admit :: "('tk, 'se, 'ci, 'ob) iam_env \<Rightarrow> login_request \<Rightarrow> 'ci \<Rightarrow> login_failure + authenticated_user \<times> membership_view list" where
  "admit env req ci = bindR (primary_auth env req ci) (\<lambda>u.
     if to_lower (au_status u) \<noteq> ''active'' then Inl (login_fail (Some u) account_locked)
     else case (case ie_mfa env of None \<Rightarrow> None | Some check \<Rightarrow> check u req) of
       Some e \<Rightarrow> Inl (login_fail (Some u) e)
     | None \<Rightarrow> (case mq_by_user (ie_members env) (au_id u) of
         Inl e \<Rightarrow> Inl (Some u, e, WrapErr ''list memberships'' e)
       | Inr ms \<Rightarrow> (let act = filter (\<lambda>m. equal_fold (mv_status m) ''active'') ms in
           if act = [] then Inl (login_fail (Some u) no_active_company) else Inr (u, act))))"

definition platform_hint :: "membership_query \<Rightarrow> membership_view list \<Rightarrow> bool" where
  "platform_hint q ms = list_ex (\<lambda>m. case mq_roles q (mv_id m) of
      Inl e \<Rightarrow> False
    | Inr roles \<Rightarrow> list_ex (\<lambda>r. trim_space (to_lower r) \<in> {''company_admin'', ''super_admin''}) roles) ms"

definition session_params :: "login_request \<Rightarrow> string \<Rightarrow> string \<Rightarrow> string \<Rightarrow> string \<Rightarrow> string \<Rightarrow> create_params" where
  "session_params req sid uid m c refresh = \<lparr>cp_session = sid, cp_user = uid, cp_membership = m, cp_company = c,
     cp_token = refresh, cp_ip = lr_ip req, cp_agent = lr_agent req\<rparr>"

definition open_single :: "('tk, 'se, 'ci, 'ob) iam_env \<Rightarrow> login_request \<Rightarrow> authenticated_user \<Rightarrow> membership_view \<Rightarrow> string \<Rightarrow> string \<Rightarrow>
    (login_failure, ('tk, 'se, 'ci, 'ob) iam_state, login_response) action" where
  "open_single env req u m sid refresh =
    seqE (failing_as (Some u) ''issue access token'' (on_tokens (to_issue_access (ie_tokens env)
       \<lparr>ac_sub = au_id u, ac_session = sid, ac_membership = mv_id m, ac_company = mv_company m\<rparr>)))
    (\<lambda>(access, ttl). seqE (failing_as (Some u) ''create session'' (on_sessions (so_create (ie_sessions env)
       (session_params req sid (au_id u) (mv_id m) (mv_company m) refresh))))
    (\<lambda>_. okE \<lparr>lo_user = au_id u, lo_name = au_name u, lo_access = access, lo_pre = [], lo_refresh = refresh,
       lo_expires = ttl, lo_context = Some \<lparr>lc_company = mv_company m, lc_membership = mv_id m, lc_auto = True\<rparr>,
       lo_memberships = [], lo_hint = platform_hint (ie_members env) [m], lo_next = ''load_effective_access''\<rparr>))"

definition open_choice :: "('tk, 'se, 'ci, 'ob) iam_env \<Rightarrow> login_request \<Rightarrow> authenticated_user \<Rightarrow> membership_view list \<Rightarrow> string \<Rightarrow> string \<Rightarrow>
    (login_failure, ('tk, 'se, 'ci, 'ob) iam_state, login_response) action" where
  "open_choice env req u ms sid refresh =
    seqE (failing_as (Some u) ''issue pre-company token'' (on_tokens (to_issue_pre (ie_tokens env) (au_id u) sid)))
    (\<lambda>(pre, ttl). seqE (failing_as (Some u) ''create session'' (on_sessions (so_create (ie_sessions env)
       (session_params req sid (au_id u) [] [] refresh))))
    (\<lambda>_. okE \<lparr>lo_user = au_id u, lo_name = au_name u, lo_access = [], lo_pre = pre, lo_refresh = refresh,
       lo_expires = ttl, lo_context = None, lo_memberships = map (\<lambda>m. (mv_company m, mv_name m, mv_id m)) ms,
       lo_hint = platform_hint (ie_members env) ms, lo_next = ''select_company''\<rparr>))"

definition open_session :: "('tk, 'se, 'ci, 'ob) iam_env \<Rightarrow> login_request \<Rightarrow> authenticated_user \<Rightarrow> membership_view list \<Rightarrow>
    (login_failure, ('tk, 'se, 'ci, 'ob) iam_state, login_response) action" where
  "open_session env req u ms =
    seqE draw_id (\<lambda>sid.
    seqE (failing_as (Some u) ''issue refresh token'' (on_tokens (to_issue_refresh (ie_tokens env) sid (au_id u)))) (\<lambda>refresh.
    case ms of [m] \<Rightarrow> open_single env req u m sid refresh | _ \<Rightarrow> open_choice env req u ms sid refresh))"

definition login_steps :: "('tk, 'se, 'ci, 'ob) iam_env \<Rightarrow> login_request \<Rightarrow>
    (login_failure, ('tk, 'se, 'ci, 'ob) iam_state, authenticated_user \<times> login_response) action" where
  "login_steps env req = seqE (liftE (\<lambda>st. admit env req (st_identity st)))
     (\<lambda>(u, ms). seqE (open_session env req u ms) (\<lambda>resp. okE (u, resp)))"

definition attempt_key :: "login_request \<Rightarrow> authenticated_user option \<Rightarrow> string" where
  "attempt_key req u = (case u of
      Some x \<Rightarrow> if trim_space (au_login x) \<noteq> [] then trim_space (to_lower (au_login x)) else trim_space (to_lower (lr_login req))
    | None \<Rightarrow> trim_space (to_lower (lr_login req)))"

definition failure_code :: "go_error option \<Rightarrow> string" where
  "failure_code e = (case e of None \<Rightarrow> []
     | Some d \<Rightarrow> (case as_http_error d of Some (HTTPErr st code msg det cause) \<Rightarrow> code | _ \<Rightarrow> ''UNKNOWN''))"

definition record_login :: "('tk, 'se, 'ci, 'ob) iam_env \<Rightarrow> login_request \<Rightarrow> authenticated_user option \<Rightarrow> go_error option \<Rightarrow>
    ('tk, 'se, 'ci, 'ob) iam_state \<Rightarrow> ('tk, 'se, 'ci, 'ob) iam_state" where
  "record_login env req u err st =
    (if \<not> ie_attempts env \<or> attempt_key req u = [] then st
     else st\<lparr>st_attempts := record_attempt \<lparr>la_login = attempt_key req u, la_user = (case u of None \<Rightarrow> [] | Some x \<Rightarrow> au_id x),
        la_success = (err = None), la_failure = failure_code err, la_ip = lr_ip req, la_agent = lr_agent req\<rparr> (st_attempts st)\<rparr>)"

definition login :: "('tk, 'se, 'ci, 'ob) iam_env \<Rightarrow> login_request \<Rightarrow>
    (go_error, ('tk, 'se, 'ci, 'ob) iam_state, login_response) action" where
  "login env req st = (case login_steps env req st of
      (Inl (u, e, r), st') \<Rightarrow> (Inl r, record_login env req u (Some e) st')
    | (Inr (u, resp), st') \<Rightarrow> (Inr resp, record_login env req (Some u) None st'))"

subsection \<open>Refresh and logout\<close>

definition context_required :: go_error where
  "context_required = new_http_error 422 CodeCompanyContextRequired ''company context is required''"

definition refresh :: "('tk, 'se, 'ci, 'ob) iam_env \<Rightarrow> string \<Rightarrow> (go_error, ('tk, 'se, 'ci, 'ob) iam_state, refresh_response) action" where
  "refresh env tok =
    seqE (chkE (trim_space tok \<noteq> []) (bad_request ''refresh_token is required'')) (\<lambda>_.
    seqE (liftE (\<lambda>st. so_find (ie_sessions env) tok (st_sessions st))) (\<lambda>ss.
    seqE (chkE (\<not> sn_revoked ss) session_gone) (\<lambda>_.
    seqE (chkE (sn_company ss \<noteq> [] \<and> sn_membership ss \<noteq> []) context_required) (\<lambda>_.
    seqE (wrapE (WrapErr ''issue access token'') (on_tokens (to_issue_access (ie_tokens env)
       \<lparr>ac_sub = sn_user ss, ac_session = sn_id ss, ac_membership = sn_membership ss, ac_company = sn_company ss\<rparr>))) (\<lambda>(access, ttl).
    seqE (wrapE (WrapErr ''issue refresh token'') (on_tokens (to_issue_refresh (ie_tokens env) (sn_id ss) (sn_user ss)))) (\<lambda>new.
    seqE (wrapE (WrapErr ''rotate refresh token'') (on_sessions (so_rotate (ie_sessions env) (sn_id ss) new))) (\<lambda>_.
    okE \<lparr>rr_access = access, rr_refresh = new, rr_expires = ttl, rr_company = sn_company ss, rr_membership = sn_membership ss\<rparr>)))))))"

definition logout :: "('tk, 'se, 'ci, 'ob) iam_env \<Rightarrow> string \<Rightarrow> (go_error, ('tk, 'se, 'ci, 'ob) iam_state, unit) action" where
  "logout env tok =
    seqE (chkE (trim_space tok \<noteq> []) (bad_request ''refresh_token is required''))
      (\<lambda>_. on_sessions (so_revoke_token (ie_sessions env) tok))"

subsection \<open>Recovery\<close>

definition raw_token :: "('tk, 'se, 'ci, 'ob) iam_env \<Rightarrow> go_error + string \<times> string" where
  "raw_token env = bindR (ie_random env) (\<lambda>bytes. Inr (b64url bytes, ie_sha env (b64url bytes)))"

definition action_link :: "('tk, 'se, 'ci, 'ob) iam_env \<Rightarrow> string \<Rightarrow> string \<Rightarrow> string" where
  "action_link env path tok = trim_right_char (CHR ''/'') (ie_web env) @ path @ ''?token='' @ query_escape tok"

definition newline :: string where "newline = [char_of (10 :: nat)]"

definition publish_email :: "('tk, 'se, 'ci, 'ob) iam_env \<Rightarrow> string \<Rightarrow> string \<Rightarrow> attrs \<Rightarrow>
    ('tk, 'se, 'ci, 'ob) iam_state \<Rightarrow> ('tk, 'se, 'ci, 'ob) iam_state" where
  "publish_email env typ uid payload st = (case ie_outbox env of None \<Rightarrow> st
     | Some ob \<Rightarrow> (case new_uuid (st_ids st) of (u, g) \<Rightarrow>
         st\<lparr>st_ids := g, st_outbox := snd (publish ob \<lparr>ev_id = u, ev_agg_type = ''user'', ev_agg_id = uid, ev_type = typ,
           ev_payload = payload, ev_occurred = ie_now env\<rparr> (st_outbox st))\<rparr>))"

definition reset_mail :: "('tk, 'se, 'ci, 'ob) iam_env \<Rightarrow> recovery_user \<Rightarrow> string \<Rightarrow> attrs" where
  "reset_mail env u raw = [(''to'', AStr (ru_email u)), (''subject'', AStr ''Reset your password''),
     (''body'', AStr (''Xin chao '' @ coalesce (ru_name u) (ru_login u) @ '','' @ newline @ newline @
        ''Vui long dat lai mat khau qua link sau:'' @ newline @ action_link env ''/reset-password'' raw @ newline @ newline @
        ''Link het han sau '' @ itoa (ie_reset_ttl env div 60000000000) @ '' phut.''))]"

definition verify_mail :: "('tk, 'se, 'ci, 'ob) iam_env \<Rightarrow> recovery_user \<Rightarrow> string \<Rightarrow> attrs" where
  "verify_mail env u raw = [(''to'', AStr (ru_email u)), (''subject'', AStr ''Verify your email''),
     (''body'', AStr (''Xin chao '' @ coalesce (ru_name u) (ru_login u) @ '','' @ newline @ newline @
        ''Vui long xac thuc email qua link sau:'' @ newline @ action_link env ''/verify-email'' raw @ newline @ newline @
        ''Link het han trong '' @ itoa (ie_verify_ttl env div 3600000000000) @ '' gio.''))]"

text \<open>The two mails differ in the texts, the lifetime of the token and the table that keeps it.\<close>

definition request_mail :: "('tk, 'se, 'ci, 'ob) iam_env \<Rightarrow> string \<Rightarrow> int \<Rightarrow> (recovery_token \<Rightarrow> (go_error, 'ci, unit) action) \<Rightarrow>
    string \<Rightarrow> (recovery_user \<Rightarrow> string \<Rightarrow> attrs) \<Rightarrow> recovery_user \<Rightarrow> (go_error, ('tk, 'se, 'ci, 'ob) iam_state, unit) action" where
  "request_mail env what ttl store typ mail u =
    seqE (wrapE (WrapErr (''generate '' @ what @ '' token'')) (liftE (\<lambda>_. raw_token env))) (\<lambda>(raw, h).
    seqE draw_id (\<lambda>tid.
    seqE (wrapE (WrapErr (''store '' @ (if what = ''reset'' then ''password reset'' else ''email verification'') @ '' token''))
       (on_identity (store \<lparr>rt_id = tid, rt_user = ru_id u, rt_hash = h, rt_expires = ie_now env + ttl\<rparr>))) (\<lambda>_ st.
    (Inr (), publish_email env typ (ru_id u) (mail u raw) st))))"

definition forgot_password :: "('tk, 'se, 'ci, 'ob) iam_env \<Rightarrow> string \<Rightarrow> (go_error, ('tk, 'se, 'ci, 'ob) iam_state, unit) action" where
  "forgot_password env email st =
    (let e = trim_space (to_lower email) in
     if e = [] then (Inl (bad_request ''email is required''), st)
     else case ie_recovery env of None \<Rightarrow> (Inr (), st)
     | Some rec \<Rightarrow> (case ro_find rec e (st_identity st) of
          Inr (Some u) \<Rightarrow> request_mail env ''reset'' (ie_reset_ttl env) (ro_store_reset rec)
             ''auth.password_reset_requested'' (reset_mail env) u st
        | _ \<Rightarrow> (Inr (), st)))"

definition resend_verification :: "('tk, 'se, 'ci, 'ob) iam_env \<Rightarrow> string \<Rightarrow> (go_error, ('tk, 'se, 'ci, 'ob) iam_state, unit) action" where
  "resend_verification env email st =
    (let e = trim_space (to_lower email) in
     if e = [] then (Inl (bad_request ''email is required''), st)
     else case ie_recovery env of None \<Rightarrow> (Inr (), st)
     | Some rec \<Rightarrow> (case ro_find rec e (st_identity st) of
          Inr (Some u) \<Rightarrow> request_mail env ''verification'' (ie_verify_ttl env) (ro_store_verify rec)
             ''auth.email_verification_requested'' (verify_mail env) u st
        | _ \<Rightarrow> (Inr (), st)))"

definition reset_invalid :: go_error where
  "reset_invalid = new_http_error 401 CodePasswordResetTokenInvalid ''reset token invalid or expired''"

definition verify_invalid :: go_error where
  "verify_invalid = new_http_error 401 CodeEmailVerificationTokenInvalid ''verification token invalid or expired''"

text \<open>Redeeming a token: an error, or a blank user, is an invalid token.\<close>

definition redeem :: "go_error \<Rightarrow> (go_error, 'ci, string) action \<Rightarrow> (go_error, ('tk, 'se, 'ci, 'ob) iam_state, string) action" where
  "redeem invalid use st = (case on_identity use st of
      (Inl e, st') \<Rightarrow> (Inl invalid, st')
    | (Inr u, st') \<Rightarrow> if trim_space u = [] then (Inl invalid, st') else (Inr u, st'))"

definition reset_password :: "('tk, 'se, 'ci, 'ob) iam_env \<Rightarrow> string \<Rightarrow> string \<Rightarrow> (go_error, ('tk, 'se, 'ci, 'ob) iam_state, unit) action" where
  "reset_password env tok pw =
    seqE (chkE (trim_space tok \<noteq> [] \<and> trim_space pw \<noteq> []) (bad_request ''token and new_password are required'')) (\<lambda>_.
    case ie_recovery env of
      None \<Rightarrow> chkE (has_prefix (trim_space tok) ''mock-reset-'') reset_invalid
    | Some rec \<Rightarrow>
       seqE (redeem reset_invalid (ro_consume_reset rec (ie_sha env (trim_space tok)) (ie_now env))) (\<lambda>uid.
       seqE (chkE (12 \<le> length (trim_space pw)) (new_http_error 422 CodeInvalidRequest ''new_password must be at least 12 characters'')) (\<lambda>_.
       seqE (wrapE (WrapErr ''hash password'') (liftE (\<lambda>_. ie_bcrypt env pw))) (\<lambda>h.
       seqE (wrapE (WrapErr ''update password hash'') (on_identity (ro_update_hash rec uid h (ie_now env)))) (\<lambda>_ st.
       (Inr (), snd (on_sessions (so_revoke_user (ie_sessions env) uid ''password_reset'') st)))))))"

definition verify_email :: "('tk, 'se, 'ci, 'ob) iam_env \<Rightarrow> string \<Rightarrow> (go_error, ('tk, 'se, 'ci, 'ob) iam_state, unit) action" where
  "verify_email env tok =
    seqE (chkE (trim_space tok \<noteq> []) (bad_request ''token is required'')) (\<lambda>_.
    case ie_recovery env of
      None \<Rightarrow> chkE (has_prefix (trim_space tok) ''mock-verify-'') verify_invalid
    | Some rec \<Rightarrow>
       seqE (redeem verify_invalid (ro_consume_verify rec (ie_sha env (trim_space tok)) (ie_now env))) (\<lambda>uid.
       wrapE (WrapErr ''mark email verified'') (on_identity (ro_mark_verified rec uid (ie_now env)))))"

subsection \<open>Sessions and company context\<close>

definition view_session :: "string \<Rightarrow> session_state \<Rightarrow> session_view" where
  "view_session cur s = \<lparr>sv_id = sn_id s, sv_company = sn_company s, sv_membership = sn_membership s, sv_ip = sn_ip s,
     sv_agent = sn_agent s, sv_current = (sn_id s = cur), sv_revoked = sn_revoked s\<rparr>"

definition list_sessions :: "('tk, 'se, 'ci, 'ob) iam_env \<Rightarrow> string \<Rightarrow> string \<Rightarrow> (go_error, ('tk, 'se, 'ci, 'ob) iam_state, session_view list) action" where
  "list_sessions env uid cur st =
    (if trim_space uid = [] then (Inl (session_expired ''invalid session token''), st)
     else (Inr (map (view_session cur) (so_list (ie_sessions env) uid (st_sessions st))), st))"

definition revoke_session :: "('tk, 'se, 'ci, 'ob) iam_env \<Rightarrow> string \<Rightarrow> string \<Rightarrow> (go_error, ('tk, 'se, 'ci, 'ob) iam_state, unit) action" where
  "revoke_session env uid sid =
    seqE (chkE (trim_space uid \<noteq> [] \<and> trim_space sid \<noteq> []) (bad_request ''user_id and session_id are required''))
      (\<lambda>_. on_sessions (so_revoke_id (ie_sessions env) uid sid))"

definition bind_company :: "('tk, 'se, 'ci, 'ob) iam_env \<Rightarrow> string \<Rightarrow> string \<Rightarrow> string \<Rightarrow> (go_error, ('tk, 'se, 'ci, 'ob) iam_state, bound_response) action" where
  "bind_company env uid sid company =
    seqE (chkE (uid \<noteq> [] \<and> sid \<noteq> []) (session_expired ''invalid session token'')) (\<lambda>_.
    seqE (chkE (trim_space company \<noteq> []) (bad_request ''company_id is required'')) (\<lambda>_.
    seqE (liftE (\<lambda>_. mq_active (ie_members env) uid company)) (\<lambda>found.
    case found of
      None \<Rightarrow> failE (new_http_error 403 CodeMembershipNotFound ''membership not found in company'')
    | Some m \<Rightarrow>
       seqE (wrapE (WrapErr ''update session context'') (on_sessions (so_update (ie_sessions env) sid (mv_id m) (mv_company m)))) (\<lambda>_.
       seqE (wrapE (WrapErr ''issue access token'') (on_tokens (to_issue_access (ie_tokens env)
          \<lparr>ac_sub = uid, ac_session = sid, ac_membership = mv_id m, ac_company = mv_company m\<rparr>))) (\<lambda>(access, ttl).
       okE \<lparr>br_access = access, br_expires = ttl, br_company = mv_company m, br_membership = mv_id m\<rparr>)))))"

definition select_company :: "('tk, 'se, 'ci, 'ob) iam_env \<Rightarrow> string \<Rightarrow> string \<Rightarrow> string \<Rightarrow> (go_error, ('tk, 'se, 'ci, 'ob) iam_state, bound_response) action" where
  "select_company = bind_company"

definition switch_company :: "('tk, 'se, 'ci, 'ob) iam_env \<Rightarrow> string \<Rightarrow> string \<Rightarrow> string \<Rightarrow> (go_error, ('tk, 'se, 'ci, 'ob) iam_state, bound_response) action" where
  "switch_company = bind_company"

subsection \<open>The parts together\<close>

text \<open>
  The service is proved against the contracts of its ports. The invariant links them: a token the
  sessions know was issued, and a session id was drawn from the generator.
\<close>

locale iam_parts =
  refresh_tokens tops tinv issued + session_repository sops sinv used_id used_token + membership_query q active listed
  for tops :: "'tk token_ops" and tinv :: "'tk \<Rightarrow> bool" and issued :: "'tk \<Rightarrow> string \<Rightarrow> bool"
    and sops :: "'se session_ops" and sinv :: "'se \<Rightarrow> bool"
    and used_id :: "'se \<Rightarrow> string \<Rightarrow> bool" and used_token :: "'se \<Rightarrow> string \<Rightarrow> bool"
    and q :: membership_query and active :: "string \<Rightarrow> bool" and listed :: "string \<Rightarrow> membership_view set"
begin

definition uses :: "('tk, 'se, 'ci, 'ob) iam_env \<Rightarrow> bool" where
  "uses env \<longleftrightarrow> ie_tokens env = tops \<and> ie_sessions env = sops \<and> ie_members env = q"

definition linked :: "'tk \<Rightarrow> 'se \<Rightarrow> idgen \<Rightarrow> bool" where
  "linked tk se g \<longleftrightarrow> tinv tk \<and> sinv se \<and> fresh_ids g \<and> (\<forall>t. used_token se t \<longrightarrow> issued tk t) \<and>
     (\<forall>i. used_id se i \<longrightarrow> issued_as [] g i)"

definition parts_ok :: "('tk, 'se, 'ci, 'ob) iam_state \<Rightarrow> bool" where
  "parts_ok st \<longleftrightarrow> linked (st_tokens st) (st_sessions st) (st_ids st)"

definition alive :: "('tk, 'se, 'ci, 'ob) iam_state \<Rightarrow> string \<rightharpoonup> live_session" where
  "alive st = live sops (st_sessions st)"

lemma linked_tokens: "linked tk se g \<Longrightarrow> issues tops tk tk' \<Longrightarrow> linked tk' se g"
  using issue_inv issued_kept unfolding linked_def by blast

lemma linked_draw:
  assumes "linked tk se g"
  shows "linked tk se (snd (new_uuid g)) \<and> \<not> used_id se (fst (new_uuid g)) \<and> issued_as [] (snd (new_uuid g)) (fst (new_uuid g))"
proof -
  have g: "fresh_ids g" and u: "\<And>i. used_id se i \<Longrightarrow> issued_as [] g i" using assms by (auto simp: linked_def)
  have "fst (new_uuid g) = next_token [] g" by (simp add: next_token_def)
  then have "\<not> issued_as [] g (fst (new_uuid g))" "issued_as [] (snd (new_uuid g)) (fst (new_uuid g))"
    using next_token_unissued [OF g] by simp_all
  moreover have "issued_as [] (snd (new_uuid g)) i" if "used_id se i" for i using u [OF that] by simp
  ultimately show ?thesis using assms u unfolding linked_def by auto
qed

lemma linked_same:
  "linked tk se g \<Longrightarrow> sinv se' \<Longrightarrow> used_token se' = used_token se \<Longrightarrow> used_id se' = used_id se \<Longrightarrow> linked tk se' g"
  by (simp add: linked_def)

lemma linked_create:
  assumes "linked tk se g" and "issued tk (cp_token p)" "\<not> used_token se (cp_token p)"
    and "issued_as [] g (cp_session p)" "\<not> used_id se (cp_session p)"
  obtains se' where "so_create sops p se = (Inr (), se')" "linked tk se' g"
    "live sops se' = (live sops se)(cp_token p \<mapsto> (cp_session p, cp_user p, cp_membership p, cp_company p))"
proof -
  have "sinv se" using assms(1) by (simp add: linked_def)
  from create_live [OF this assms(5,3)] obtain se' where 1: "so_create sops p se = (Inr (), se')" "sinv se'"
      "live sops se' = (live sops se)(cp_token p \<mapsto> (cp_session p, cp_user p, cp_membership p, cp_company p))"
    and 2: "\<And>t. used_token se' t \<Longrightarrow> used_token se t \<or> t = cp_token p" "\<And>i. used_id se' i \<Longrightarrow> used_id se i \<or> i = cp_session p"
    by blast
  have "linked tk se' g" using assms 1(2) 2 unfolding linked_def by blast
  with 1 that show thesis by blast
qed

lemma new_refresh:
  assumes "linked tk se g" and "to_issue_refresh tops i u tk = (Inr t, tk')"
  shows "linked tk' se g \<and> issued tk' t \<and> \<not> used_token se t \<and> live sops se t = None"
proof -
  have tk: "tinv tk" "sinv se" "\<And>t. used_token se t \<Longrightarrow> issued tk t" using assms(1) by (auto simp: linked_def)
  have "issues tops tk tk'" using assms(2) unfolding issues_def by blast
  moreover have "\<not> issued tk t \<and> issued tk' t" using refresh_new [OF tk(1) assms(2)] .
  moreover have "live sops se t = None" if "\<not> used_token se t"
    using that live_used [OF tk(2), of t] by (cases "live sops se t") auto
  ultimately show ?thesis using linked_tokens [OF assms(1)] tk(3) by blast
qed

lemma draw_id_run: "draw_id st = (Inr (fst (new_uuid (st_ids st))), st\<lparr>st_ids := snd (new_uuid (st_ids st))\<rparr>)"
  by (simp add: draw_id_def new_uuid_def)

lemma draw_id_ok:
  assumes "parts_ok st" and "st' = st\<lparr>st_ids := snd (new_uuid (st_ids st))\<rparr>"
  shows "parts_ok st'" and "\<not> used_id (st_sessions st) (fst (new_uuid (st_ids st)))"
    and "issued_as [] (st_ids st') (fst (new_uuid (st_ids st)))"
  using linked_draw [OF assms(1) [unfolded parts_ok_def]] unfolding assms(2) parts_ok_def
  by (simp_all only: iam_state.select_convs iam_state.update_convs iam_state.surjective) simp_all

lemma on_tokens_frame:
  assumes "on_tokens f st = (r, st')"
  shows "\<exists>tk'. f (st_tokens st) = (r, tk') \<and> st' = st\<lparr>st_tokens := tk'\<rparr>"
  using assms unfolding on_tokens_def by (auto split: prod.splits)

lemma on_sessions_frame:
  assumes "on_sessions f st = (r, st')"
  shows "\<exists>se'. f (st_sessions st) = (r, se') \<and> st' = st\<lparr>st_sessions := se'\<rparr>"
  using assms unfolding on_sessions_def by (auto split: prod.splits)

lemma failing_as_ok: "failing_as u msg f st = (Inr x, st') \<longleftrightarrow> f st = (Inr x, st')"
  by (auto simp: failing_as_def split: prod.splits sum.splits)

lemma failing_as_err: "failing_as u msg f st = (Inl x, st') \<longleftrightarrow> (\<exists>e. f st = (Inl e, st') \<and> x = (u, e, WrapErr msg e))"
  by (auto simp: failing_as_def split: prod.splits sum.splits)

lemma issue_access_step:
  assumes "parts_ok st" and "on_tokens (to_issue_access tops cl) st = (r, st')"
  shows "parts_ok st' \<and> st' = st\<lparr>st_tokens := st_tokens st'\<rparr> \<and> issues tops (st_tokens st) (st_tokens st') \<and>
    (\<forall>t e. r = Inr (t, e) \<longrightarrow> to_inspect_access tops t (st_tokens st') = Inr cl)"
proof -
  obtain tk' where tk: "to_issue_access tops cl (st_tokens st) = (r, tk')" "st' = st\<lparr>st_tokens := tk'\<rparr>"
    using on_tokens_frame [OF assms(2)] by blast
  then have "issues tops (st_tokens st) tk'" unfolding issues_def by blast
  moreover have "tinv (st_tokens st)" using assms(1) by (simp add: parts_ok_def linked_def)
  ultimately show ?thesis using assms(1) linked_tokens tk access_round [OF \<open>tinv (st_tokens st)\<close>]
    unfolding parts_ok_def by auto
qed

lemma issue_pre_step:
  assumes "parts_ok st" and "on_tokens (to_issue_pre tops u s) st = (r, st')"
  shows "parts_ok st' \<and> st' = st\<lparr>st_tokens := st_tokens st'\<rparr> \<and> issues tops (st_tokens st) (st_tokens st') \<and>
    (\<forall>t e. r = Inr (t, e) \<longrightarrow> to_inspect_pre tops t (st_tokens st') = Inr \<lparr>pc_sub = u, pc_session = s\<rparr>)"
proof -
  obtain tk' where tk: "to_issue_pre tops u s (st_tokens st) = (r, tk')" "st' = st\<lparr>st_tokens := tk'\<rparr>"
    using on_tokens_frame [OF assms(2)] by blast
  then have "issues tops (st_tokens st) tk'" unfolding issues_def by blast
  moreover have "tinv (st_tokens st)" using assms(1) by (simp add: parts_ok_def linked_def)
  ultimately show ?thesis using assms(1) linked_tokens tk pre_round [OF \<open>tinv (st_tokens st)\<close>]
    unfolding parts_ok_def by auto
qed

lemma issue_refresh_step:
  assumes "parts_ok st" and "on_tokens (to_issue_refresh tops s u) st = (r, st')"
  obtains t where "r = Inr t" and "parts_ok st'" and "st' = st\<lparr>st_tokens := st_tokens st'\<rparr>"
    and "issues tops (st_tokens st) (st_tokens st')" and "issued (st_tokens st') t"
    and "\<not> used_token (st_sessions st) t" and "alive st t = None"
proof -
  obtain tk' where tk: "to_issue_refresh tops s u (st_tokens st) = (r, tk')" "st' = st\<lparr>st_tokens := tk'\<rparr>"
    using on_tokens_frame [OF assms(2)] by blast
  have "tinv (st_tokens st)" using assms(1) by (simp add: parts_ok_def linked_def)
  then obtain t where r: "r = Inr t" using refresh_total [of "st_tokens st" s u] tk(1) by auto
  have "linked tk' (st_sessions st) (st_ids st) \<and> issued tk' t \<and> \<not> used_token (st_sessions st) t \<and> live sops (st_sessions st) t = None"
    using new_refresh assms(1) tk(1) r unfolding parts_ok_def by blast
  moreover have "issues tops (st_tokens st) tk'" using tk(1) unfolding issues_def by blast
  ultimately show thesis using that [OF r] tk(2) by (simp add: parts_ok_def alive_def)
qed

text \<open>Opening a session: the new refresh token names it, and the token of the response names its principal.\<close>

lemma create_step:
  assumes ok: "parts_ok st" and tok: "issued (st_tokens st) (cp_token p)" "\<not> used_token (st_sessions st) (cp_token p)"
    and sid: "issued_as [] (st_ids st) (cp_session p)" "\<not> used_id (st_sessions st) (cp_session p)"
  obtains st' where "on_sessions (so_create sops p) st = (Inr (), st')" and "parts_ok st'"
    and "st' = st\<lparr>st_sessions := st_sessions st'\<rparr>"
    and "alive st' = (alive st)(cp_token p \<mapsto> (cp_session p, cp_user p, cp_membership p, cp_company p))"
proof -
  obtain se' where se: "so_create sops p (st_sessions st) = (Inr (), se')" "linked (st_tokens st) se' (st_ids st)"
      "live sops se' = (live sops (st_sessions st))(cp_token p \<mapsto> (cp_session p, cp_user p, cp_membership p, cp_company p))"
    using linked_create [OF ok [unfolded parts_ok_def] tok sid] by blast
  show thesis
    by (rule that [of "st\<lparr>st_sessions := se'\<rparr>"]) (simp_all add: on_sessions_def se parts_ok_def alive_def)
qed

definition session_context :: "membership_view list \<Rightarrow> string \<times> string" where
  "session_context ms = (case ms of [m] \<Rightarrow> (mv_id m, mv_company m) | _ \<Rightarrow> ([], []))"

definition opened :: "authenticated_user \<Rightarrow> membership_view list \<Rightarrow> string \<Rightarrow> login_response \<Rightarrow> 'tk \<Rightarrow> bool" where
  "opened u ms sid resp tk \<longleftrightarrow> lo_user resp = au_id u \<and> (case ms of
      [m] \<Rightarrow> lo_context resp = Some \<lparr>lc_company = mv_company m, lc_membership = mv_id m, lc_auto = True\<rparr> \<and>
        lo_next resp = ''load_effective_access'' \<and> to_inspect_access tops (lo_access resp) tk =
          Inr \<lparr>ac_sub = au_id u, ac_session = sid, ac_membership = mv_id m, ac_company = mv_company m\<rparr>
    | _ \<Rightarrow> lo_context resp = None \<and> lo_next resp = ''select_company'' \<and> lo_access resp = [] \<and>
        to_inspect_pre tops (lo_pre resp) tk = Inr \<lparr>pc_sub = au_id u, pc_session = sid\<rparr>)"

lemma open_single_step:
  assumes env: "uses env" and ok: "parts_ok st" and tok: "issued (st_tokens st) t" "\<not> used_token (st_sessions st) t"
    and sid: "issued_as [] (st_ids st) sid" "\<not> used_id (st_sessions st) sid"
    and run: "open_single env req u m sid t st = (r, st')"
  shows "parts_ok st' \<and> (case r of Inl e \<Rightarrow> alive st' = alive st
     | Inr resp \<Rightarrow> lo_refresh resp = t \<and> opened u [m] sid resp (st_tokens st') \<and>
        alive st' = (alive st)(t \<mapsto> (sid, au_id u, mv_id m, mv_company m)))"
proof -
  let ?cl = "\<lparr>ac_sub = au_id u, ac_session = sid, ac_membership = mv_id m, ac_company = mv_company m\<rparr>"
  let ?p = "session_params req sid (au_id u) (mv_id m) (mv_company m) t"
  have env': "ie_tokens env = tops" "ie_sessions env = sops" using env by (auto simp: uses_def)
  obtain q st1 where 1: "on_tokens (to_issue_access tops ?cl) st = (q, st1)" by fastforce
  note i = issue_access_step [OF ok 1]
  have keep: "st_sessions st1 = st_sessions st" "st_ids st1 = st_ids st" using i by (metis iam_state.ext_inject iam_state.surjective iam_state.update_convs(1))+
  show ?thesis
  proof (cases q)
    case (Inl e)
    with run 1 have "r = Inl (Some u, e, WrapErr ''issue access token'' e)" "st' = st1"
      by (simp_all add: open_single_def env' seqE_def failing_as_def)
    with i keep show ?thesis by (simp add: alive_def)
  next
    case (Inr p)
    obtain a e where p: "p = (a, e)" by fastforce
    have at1: "to_inspect_access tops a (st_tokens st1) = Inr ?cl" using i Inr p by blast
    have "issued (st_tokens st1) (cp_token ?p)" "\<not> used_token (st_sessions st1) (cp_token ?p)"
      "issued_as [] (st_ids st1) (cp_session ?p)" "\<not> used_id (st_sessions st1) (cp_session ?p)"
      using tok sid keep i issued_kept ok by (auto simp: session_params_def parts_ok_def linked_def)
    then obtain st2 where 2: "on_sessions (so_create sops ?p) st1 = (Inr (), st2)" "parts_ok st2"
        "st2 = st1\<lparr>st_sessions := st_sessions st2\<rparr>"
        "alive st2 = (alive st1)(cp_token ?p \<mapsto> (cp_session ?p, cp_user ?p, cp_membership ?p, cp_company ?p))"
      using create_step i by metis
    have "st_tokens st2 = st_tokens st1" using 2(3) by (metis iam_state.ext_inject iam_state.surjective iam_state.update_convs(2))
    moreover have "st' = st2" "isl r = False" "lo_refresh (projr r) = t" "lo_access (projr r) = a" "lo_user (projr r) = au_id u"
      "lo_context (projr r) = Some \<lparr>lc_company = mv_company m, lc_membership = mv_id m, lc_auto = True\<rparr>"
      "lo_next (projr r) = ''load_effective_access''"
      using run 1 2(1) by (auto simp: open_single_def env' seqE_def failing_as_def Inr p)
    moreover have "alive st1 = alive st" by (simp add: alive_def keep)
    ultimately show ?thesis using 2 at1 by (cases r) (simp_all add: opened_def session_params_def)
  qed
qed

lemma open_choice_step:
  assumes env: "uses env" and ok: "parts_ok st" and tok: "issued (st_tokens st) t" "\<not> used_token (st_sessions st) t"
    and sid: "issued_as [] (st_ids st) sid" "\<not> used_id (st_sessions st) sid" and ms: "\<And>m. ms \<noteq> [m]"
    and run: "open_choice env req u ms sid t st = (r, st')"
  shows "parts_ok st' \<and> (case r of Inl e \<Rightarrow> alive st' = alive st
     | Inr resp \<Rightarrow> lo_refresh resp = t \<and> opened u ms sid resp (st_tokens st') \<and>
        alive st' = (alive st)(t \<mapsto> (sid, au_id u, [], [])))"
proof -
  let ?p = "session_params req sid (au_id u) [] [] t"
  have env': "ie_tokens env = tops" "ie_sessions env = sops" using env by (auto simp: uses_def)
  obtain q st1 where 1: "on_tokens (to_issue_pre tops (au_id u) sid) st = (q, st1)" by fastforce
  note i = issue_pre_step [OF ok 1]
  have keep: "st_sessions st1 = st_sessions st" "st_ids st1 = st_ids st" using i by (metis iam_state.ext_inject iam_state.surjective iam_state.update_convs(1))+
  show ?thesis
  proof (cases q)
    case (Inl e)
    with run 1 have "r = Inl (Some u, e, WrapErr ''issue pre-company token'' e)" "st' = st1"
      by (simp_all add: open_choice_def env' seqE_def failing_as_def)
    with i keep show ?thesis by (simp add: alive_def)
  next
    case (Inr p)
    obtain a e where p: "p = (a, e)" by fastforce
    have at1: "to_inspect_pre tops a (st_tokens st1) = Inr \<lparr>pc_sub = au_id u, pc_session = sid\<rparr>" using i Inr p by blast
    have "issued (st_tokens st1) (cp_token ?p)" "\<not> used_token (st_sessions st1) (cp_token ?p)"
      "issued_as [] (st_ids st1) (cp_session ?p)" "\<not> used_id (st_sessions st1) (cp_session ?p)"
      using tok sid keep i issued_kept ok by (auto simp: session_params_def parts_ok_def linked_def)
    then obtain st2 where 2: "on_sessions (so_create sops ?p) st1 = (Inr (), st2)" "parts_ok st2"
        "st2 = st1\<lparr>st_sessions := st_sessions st2\<rparr>"
        "alive st2 = (alive st1)(cp_token ?p \<mapsto> (cp_session ?p, cp_user ?p, cp_membership ?p, cp_company ?p))"
      using create_step i by metis
    have "st_tokens st2 = st_tokens st1" using 2(3) by (metis iam_state.ext_inject iam_state.surjective iam_state.update_convs(2))
    moreover have "st' = st2" "isl r = False" "lo_refresh (projr r) = t" "lo_pre (projr r) = a" "lo_user (projr r) = au_id u"
      "lo_context (projr r) = None" "lo_next (projr r) = ''select_company''" "lo_access (projr r) = []"
      using run 1 2(1) by (auto simp: open_choice_def env' seqE_def failing_as_def Inr p)
    moreover have "alive st1 = alive st" by (simp add: alive_def keep)
    moreover have "opened u ms sid (projr r) tk \<longleftrightarrow> lo_user (projr r) = au_id u \<and> lo_context (projr r) = None \<and>
        lo_next (projr r) = ''select_company'' \<and> lo_access (projr r) = [] \<and>
        to_inspect_pre tops (lo_pre (projr r)) tk = Inr \<lparr>pc_sub = au_id u, pc_session = sid\<rparr>" for tk
      using ms unfolding opened_def by (simp split: list.split)
    ultimately show ?thesis using 2 at1 by (cases r) (simp_all add: session_params_def)
  qed
qed

lemma open_session_step:
  assumes env: "uses env" and ok: "parts_ok st" and run: "open_session env req u ms st = (r, st')"
  shows "parts_ok st' \<and> (case r of Inl e \<Rightarrow> alive st' = alive st
     | Inr resp \<Rightarrow> (\<exists>sid. alive st (lo_refresh resp) = None \<and> opened u ms sid resp (st_tokens st') \<and>
        \<not> used_id (st_sessions st) sid \<and> sid = fst (new_uuid (st_ids st)) \<and>
        alive st' = (alive st)(lo_refresh resp \<mapsto> (sid, au_id u, session_context ms))))"
proof -
  have env': "ie_tokens env = tops" using env by (auto simp: uses_def)
  define st1 where st1: "st1 = st\<lparr>st_ids := snd (new_uuid (st_ids st))\<rparr>"
  let ?sid = "fst (new_uuid (st_ids st))"
  note draw = draw_id_run [of st, folded st1] st1 draw_id_ok [OF ok st1]
  have same1: "st_sessions st1 = st_sessions st" "st_tokens st1 = st_tokens st" using draw(2) by simp_all
  obtain q st2 where 2: "on_tokens (to_issue_refresh tops ?sid (au_id u)) st1 = (q, st2)" by fastforce
  obtain t where t: "q = Inr t" "parts_ok st2" "st2 = st1\<lparr>st_tokens := st_tokens st2\<rparr>" "issued (st_tokens st2) t"
    "\<not> used_token (st_sessions st1) t" "alive st1 t = None"
    by (rule issue_refresh_step [OF draw(3) 2])
  have same2: "st_sessions st2 = st_sessions st" "st_ids st2 = st_ids st1"
    using t(3) same1 by (metis iam_state.ext_inject iam_state.surjective iam_state.update_convs(1))+
  then have alive: "alive st2 = alive st" by (simp add: alive_def)
  have pre: "issued (st_tokens st2) t" "\<not> used_token (st_sessions st2) t" "issued_as [] (st_ids st2) ?sid"
    "\<not> used_id (st_sessions st2) ?sid" "alive st t = None"
    using t same1 same2 draw by (simp_all add: alive_def)
  have rest: "(case ms of [m] \<Rightarrow> open_single env req u m ?sid t | _ \<Rightarrow> open_choice env req u ms ?sid t) st2 = (r, st')"
    using run 2 unfolding t(1) open_session_def env'
    by (simp only: seqE_def draw_id_run st1 [symmetric] failing_as_def prod.case sum.case)
  show ?thesis
  proof (cases "\<exists>m. ms = [m]")
    case True
    then obtain m where m: "ms = [m]" by blast
    with rest have "open_single env req u m ?sid t st2 = (r, st')" by simp
    from open_single_step [OF env t(2) pre(1-4) this] alive pre(5) draw(4)
    show ?thesis by (cases r) (simp_all add: m session_context_def)
  next
    case False
    then have "open_choice env req u ms ?sid t st2 = (r, st')" using rest by (auto split: list.splits)
    from open_choice_step [OF env t(2) pre(1-4) _ this] False alive pre(5) draw(4)
    show ?thesis by (cases r) (auto simp: session_context_def split: list.split)
  qed
qed

lemma record_login_frame:
  "st_tokens (record_login env req u e st) = st_tokens st" "st_sessions (record_login env req u e st) = st_sessions st"
  "st_identity (record_login env req u e st) = st_identity st" "st_outbox (record_login env req u e st) = st_outbox st"
  "st_ids (record_login env req u e st) = st_ids st"
  "parts_ok (record_login env req u e st) = parts_ok st" "alive (record_login env req u e st) = alive st"
  by (simp_all add: record_login_def parts_ok_def alive_def)

lemma admit_ok:
  assumes "uses env" and "admit env req ci = Inr (u, ms)"
  shows "to_lower (au_status u) = ''active'' \<and> ms \<noteq> [] \<and>
    (\<forall>m \<in> set ms. m \<in> listed (au_id u) \<and> mv_user m = au_id u \<and> active (mv_status m))"
proof -
  have q: "ie_members env = q" using assms(1) by (simp add: uses_def)
  obtain all where all: "mq_by_user q (au_id u) = Inr all" "ms = filter (\<lambda>m. equal_fold (mv_status m) ''active'') all" "ms \<noteq> []"
    and st: "to_lower (au_status u) = ''active''"
    using assms(2) by (auto simp: admit_def q seq_iffs Let_def split: if_splits option.splits sum.splits)
  have "m \<in> listed (au_id u)" if "m \<in> set ms" for m using that all(2) by_user_law [OF all(1)] by auto
  moreover have "equal_fold (mv_status m) ''active''" if "m \<in> set ms" for m using that all(2) by simp
  ultimately show ?thesis using st all(3) listed_law fold_law by blast
qed

lemma login_step:
  assumes env: "uses env" and ok: "parts_ok st" and run: "login env req st = (r, st')"
  shows "parts_ok st' \<and> (case r of Inl e \<Rightarrow> alive st' = alive st
     | Inr resp \<Rightarrow> (\<exists>u ms sid. admit env req (st_identity st) = Inr (u, ms) \<and> alive st (lo_refresh resp) = None \<and>
        opened u ms sid resp (st_tokens st') \<and> \<not> used_id (st_sessions st) sid \<and> sid = fst (new_uuid (st_ids st)) \<and>
        alive st' = (alive st)(lo_refresh resp \<mapsto> (sid, au_id u, session_context ms))))"
proof (cases "admit env req (st_identity st)")
  case (Inl f)
  obtain u e x where f: "f = (u, e, x)" by (cases f)
  have "login_steps env req st = (Inl f, st)" by (simp add: login_steps_def seqE_lift Inl)
  then have "r = Inl x" "st' = record_login env req u (Some e) st" using run by (simp_all add: login_def f)
  then show ?thesis using ok by (simp add: record_login_frame)
next
  case (Inr p)
  obtain u ms where p: "p = (u, ms)" by fastforce
  obtain o' st1 where o': "open_session env req u ms st = (o', st1)" by fastforce
  have steps: "login_steps env req st = (case o' of Inl f \<Rightarrow> (Inl f, st1) | Inr resp \<Rightarrow> (Inr (u, resp), st1))"
    by (simp add: login_steps_def seqE_lift Inr p seqE_def o' split: sum.split)
  note step = open_session_step [OF env ok o']
  show ?thesis
  proof (cases o')
    case (Inl f)
    obtain v e x where f: "f = (v, e, x)" by (cases f)
    have "r = Inl x" "st' = record_login env req v (Some e) st1" using run steps Inl by (simp_all add: login_def f)
    then show ?thesis using step Inl by (simp add: record_login_frame)
  next
    case (Inr resp)
    have "r = Inr resp" "st' = record_login env req (Some u) None st1" using run steps Inr by (simp_all add: login_def)
    then show ?thesis using step \<open>admit env req (st_identity st) = Inr p\<close> p Inr by (auto simp: record_login_frame)
  qed
qed

end

subsection \<open>Refresh, logout and context against the contracts\<close>

context iam_parts
begin

lemma alive_find:
  "alive st t = Some x \<longleftrightarrow> (\<exists>s. so_find sops t (st_sessions st) = Inr s \<and> \<not> sn_revoked s \<and> x = ident s)"
  by (auto simp: alive_def live_def split: sum.splits)

lemma refresh_dead:
  assumes "uses env" and "trim_space t \<noteq> []" and "alive st t = None"
  shows "refresh env t st = (Inl session_gone, st)"
proof (cases "so_find sops t (st_sessions st)")
  case (Inl e)
  then show ?thesis using assms find_gone [OF Inl] by (simp add: refresh_def seqE_lift uses_def)
next
  case (Inr s)
  then have "sn_revoked s" using assms(3) by (simp add: alive_def live_def split: if_splits)
  then show ?thesis using assms Inr by (simp add: refresh_def seqE_lift uses_def)
qed

lemma refresh_ok:
  assumes env: "uses env" and ok: "parts_ok st" and run: "refresh env t st = (Inr resp, st')"
  obtains i u where "alive st t = Some (i, u, rr_membership resp, rr_company resp)"
    and "rr_membership resp \<noteq> []" and "rr_company resp \<noteq> []" and "parts_ok st'" and "rr_refresh resp \<noteq> t"
    and "alive st (rr_refresh resp) = None"
    and "alive st' = (alive st)(t := None, rr_refresh resp \<mapsto> (i, u, rr_membership resp, rr_company resp))"
    and "to_inspect_access tops (rr_access resp) (st_tokens st') =
      Inr \<lparr>ac_sub = u, ac_session = i, ac_membership = rr_membership resp, ac_company = rr_company resp\<rparr>"
    and "st' = st\<lparr>st_tokens := st_tokens st', st_sessions := st_sessions st'\<rparr>"
proof -
  have env': "ie_tokens env = tops" "ie_sessions env = sops" using env by (auto simp: uses_def)
  obtain s where s: "so_find sops t (st_sessions st) = Inr s" "\<not> sn_revoked s" "sn_company s \<noteq> []" "sn_membership s \<noteq> []"
    using run by (auto simp: refresh_def env' seq_iffs split: if_splits)
  let ?cl = "\<lparr>ac_sub = sn_user s, ac_session = sn_id s, ac_membership = sn_membership s, ac_company = sn_company s\<rparr>"
  have "trim_space t \<noteq> []" using run by (auto simp: refresh_def seq_iffs split: if_splits)
  then obtain a e st1 new st2 se where r: "on_tokens (to_issue_access tops ?cl) st = (Inr (a, e), st1)"
      "on_tokens (to_issue_refresh tops (sn_id s) (sn_user s)) st1 = (Inr new, st2)"
      "on_sessions (so_rotate sops (sn_id s) new) st2 = (Inr (), st')"
      "resp = \<lparr>rr_access = a, rr_refresh = new, rr_expires = e, rr_company = sn_company s, rr_membership = sn_membership s\<rparr>"
    using run s by (auto simp: refresh_def env' seq_iffs split: prod.splits)
  have live: "alive st t = Some (ident s)" using s alive_find by blast
  note i = issue_access_step [OF ok r(1)]
  have at1: "to_inspect_access tops a (st_tokens st1) = Inr ?cl" using i by blast
  have same1: "st_sessions st1 = st_sessions st" "st_ids st1 = st_ids st" "st1 = st\<lparr>st_tokens := st_tokens st1\<rparr>"
    using i by (metis iam_state.ext_inject iam_state.surjective iam_state.update_convs(1))+
  obtain new' where n: "Inr new = Inr new'" "parts_ok st2" "st2 = st1\<lparr>st_tokens := st_tokens st2\<rparr>"
    "issues tops (st_tokens st1) (st_tokens st2)" "issued (st_tokens st2) new'" "\<not> used_token (st_sessions st1) new'" "alive st1 new' = None"
    by (rule issue_refresh_step [OF _ r(2)]) (use i in blast)+
  have same2: "st_sessions st2 = st_sessions st1" "st_ids st2 = st_ids st1"
    using n(3) by (metis iam_state.ext_inject iam_state.surjective iam_state.update_convs(1))+
  have at2: "to_inspect_access tops a (st_tokens st2) = Inr ?cl"
  proof -
    have "tinv (st_tokens st1)" using i unfolding parts_ok_def linked_def by blast
    then show ?thesis using at1 n(4) by (rule access_kept)
  qed
  have inv2: "linked (st_tokens st2) (st_sessions st2) (st_ids st2)" using n(2) by (simp add: parts_ok_def)
  have l2: "live sops (st_sessions st2) t = Some (ident s)" using live by (simp add: alive_def same1(1,2) same2)
  have "\<not> used_token (st_sessions st2) new" using n(1,6) same2 by simp
  from rotate_live [OF _ l2 this] inv2 obtain se where se: "so_rotate sops (fst (ident s)) new (st_sessions st2) = (Inr (), se)"
      "sinv se" "live sops se = (live sops (st_sessions st2))(t := None, new \<mapsto> ident s)"
      "\<And>x. used_token se x \<Longrightarrow> used_token (st_sessions st2) x \<or> x = new" "used_id se = used_id (st_sessions st2)"
    unfolding linked_def by blast
  have st': "st' = st2\<lparr>st_sessions := se\<rparr>" using r(3) se(1) by (simp add: on_sessions_def ident_def)
  have "linked (st_tokens st2) se (st_ids st2)" using inv2 se(2,4,5) n(1,5) unfolding linked_def by auto
  then have "parts_ok st'" by (simp add: parts_ok_def st')
  moreover have "alive st' = (alive st)(t := None, new \<mapsto> ident s)" by (simp add: alive_def st' se(3) same1(1,2) same2)
  moreover have "new \<noteq> t" using live n(1,7) same1(1) by (auto simp: alive_def)
  moreover have "alive st new = None" using n(1,7) same1(1) by (simp add: alive_def)
  moreover have "st' = st\<lparr>st_tokens := st_tokens st', st_sessions := st_sessions st'\<rparr>"
    using st' n(3) same1(3) by (cases st; cases st1; cases st2) simp
  ultimately show thesis using that [of "sn_id s" "sn_user s"] live s(3,4) at2 by (simp add: r(4) st' ident_def)
qed

lemma logout_step:
  assumes "uses env" and "parts_ok st" and "trim_space t \<noteq> []" and "logout env t st = (r, st')"
  shows "parts_ok st' \<and> alive st' = (alive st)(t := None) \<and> st' = st\<lparr>st_sessions := st_sessions st'\<rparr> \<and>
    (alive st t \<noteq> None \<longrightarrow> r = Inr ())"
proof -
  have run: "on_sessions (so_revoke_token sops t) st = (r, st')" using assms by (simp add: logout_def uses_def)
  obtain se where se: "so_revoke_token sops t (st_sessions st) = (r, se)" "st' = st\<lparr>st_sessions := se\<rparr>"
    using on_sessions_frame [OF run] by blast
  have inv: "linked (st_tokens st) (st_sessions st) (st_ids st)" using assms(2) by (simp add: parts_ok_def)
  then have "sinv se \<and> live sops se = (live sops (st_sessions st))(t := None) \<and> used_token se = used_token (st_sessions st) \<and> used_id se = used_id (st_sessions st)"
    using revoke_any [of "st_sessions st" t] se(1) by (simp add: linked_def)
  moreover have "r = Inr ()" if "alive st t \<noteq> None"
    using that revoke_live [of "st_sessions st" t] inv se(1) by (auto simp: alive_def linked_def)
  ultimately show ?thesis using linked_same [OF inv, of se] se(2) by (simp add: parts_ok_def alive_def)
qed

lemma revoke_session_step:
  assumes "uses env" and "parts_ok st" and "revoke_session env u i st = (r, st')"
  shows "parts_ok st' \<and> st' = st\<lparr>st_sessions := st_sessions st'\<rparr> \<and>
    (if trim_space u \<noteq> [] \<and> trim_space i \<noteq> [] then alive st' = drop_session u i \<circ> alive st
     else st' = st)"
proof (cases "trim_space u \<noteq> [] \<and> trim_space i \<noteq> []")
  case True
  then have run: "on_sessions (so_revoke_id sops u i) st = (r, st')" using assms by (simp add: revoke_session_def uses_def)
  obtain se where se: "so_revoke_id sops u i (st_sessions st) = (r, se)" "st' = st\<lparr>st_sessions := se\<rparr>"
    using on_sessions_frame [OF run] by blast
  have inv: "linked (st_tokens st) (st_sessions st) (st_ids st)" using assms(2) by (simp add: parts_ok_def)
  then have "sinv se \<and> live sops se = drop_session u i \<circ> live sops (st_sessions st) \<and> used_token se = used_token (st_sessions st) \<and> used_id se = used_id (st_sessions st)"
    using revoke_id_any [of "st_sessions st" u i] se(1) by (simp add: linked_def)
  then show ?thesis using linked_same [OF inv, of se] se(2) True by (simp add: parts_ok_def alive_def)
next
  case False
  then have "st' = st" using assms by (auto simp: revoke_session_def)
  moreover have "st\<lparr>st_sessions := st_sessions st\<rparr> = st" by simp
  ultimately show ?thesis using assms(2) by (simp only: False if_False simp_thms)
qed

lemma bind_step:
  assumes env: "uses env" and ok: "parts_ok st" and run: "bind_company env u i c st = (r, st')"
  shows "parts_ok st' \<and> (alive st' = alive st \<or> (\<exists>m \<in> listed u. mv_company m = c \<and> active (mv_status m) \<and>
        alive st' = rebind i (mv_id m) c \<circ> alive st)) \<and>
     (\<forall>resp. r = Inr resp \<longrightarrow> br_company resp = c \<and> (\<exists>m \<in> listed u. mv_company m = c \<and> active (mv_status m) \<and>
        br_membership resp = mv_id m \<and> alive st' = rebind i (mv_id m) c \<circ> alive st) \<and>
        to_inspect_access tops (br_access resp) (st_tokens st') =
          Inr \<lparr>ac_sub = u, ac_session = i, ac_membership = br_membership resp, ac_company = c\<rparr>)"
proof -
  have env': "ie_tokens env = tops" "ie_sessions env = sops" "ie_members env = q" using env by (auto simp: uses_def)
  show ?thesis
  proof (cases "u \<noteq> [] \<and> i \<noteq> [] \<and> trim_space c \<noteq> [] \<and> (\<exists>m. mq_active q u c = Inr (Some m))")
    case False
    then have "st' = st \<and> isl r"
      using run unfolding bind_company_def env' by (auto simp: seqE_lift split: if_splits sum.splits option.splits)
    with ok show ?thesis by auto
  next
    case True
    then obtain m where m: "mq_active q u c = Inr (Some m)" by blast
    note law = active_law [OF m]
    let ?cl = "\<lparr>ac_sub = u, ac_session = i, ac_membership = mv_id m, ac_company = mv_company m\<rparr>"
    obtain r1 st1 where 1: "on_sessions (so_update sops i (mv_id m) (mv_company m)) st = (r1, st1)" by fastforce
    then obtain se where se: "so_update sops i (mv_id m) (mv_company m) (st_sessions st) = (r1, se)" "st1 = st\<lparr>st_sessions := se\<rparr>"
      using on_sessions_frame by blast
    have inv: "linked (st_tokens st) (st_sessions st) (st_ids st)" using ok by (simp add: parts_ok_def)
    then have up: "sinv se \<and> live sops se = rebind i (mv_id m) c \<circ> live sops (st_sessions st) \<and> used_token se = used_token (st_sessions st) \<and> used_id se = used_id (st_sessions st)"
      using update_any [of "st_sessions st" i "mv_id m" "mv_company m"] se(1) law by (simp add: linked_def)
    then have ok1: "parts_ok st1" and live1: "alive st1 = rebind i (mv_id m) c \<circ> alive st"
      using linked_same [OF inv, of se] se(2) by (simp_all add: parts_ok_def alive_def)
    obtain r2 st2 where 2: "on_tokens (to_issue_access tops ?cl) st1 = (r2, st2)" by fastforce
    note i2 = issue_access_step [OF ok1 2]
    have live2: "alive st2 = alive st1" using i2 unfolding alive_def by (metis iam_state.ext_inject iam_state.surjective iam_state.update_convs(1))
    have rest: "seqE (wrapE (WrapErr ''update session context'') (on_sessions (so_update sops i (mv_id m) (mv_company m)))) (\<lambda>_.
       seqE (wrapE (WrapErr ''issue access token'') (on_tokens (to_issue_access tops ?cl))) (\<lambda>(access, ttl).
       okE \<lparr>br_access = access, br_expires = ttl, br_company = mv_company m, br_membership = mv_id m\<rparr>)) st = (r, st')"
      using run True unfolding bind_company_def env' by (simp add: seqE_lift m)
    show ?thesis
    proof (cases r1)
      case (Inl e)
      then have "st' = st1 \<and> isl r" using rest 1 by (auto simp: seqE_def wrapE_def)
      with ok1 live1 law show ?thesis by auto
    next
      case (Inr x)
      show ?thesis
      proof (cases r2)
        case (Inl e)
        then have "st' = st2 \<and> isl r" using rest 1 2 Inr by (auto simp: seqE_def wrapE_def)
        with i2 live1 live2 law show ?thesis by auto
      next
        fix p assume r2: "r2 = Inr p"
        obtain a e where p: "p = (a, e)" by fastforce
        have "st' = st2 \<and> r = Inr \<lparr>br_access = a, br_expires = e, br_company = mv_company m, br_membership = mv_id m\<rparr>"
          using rest 1 2 Inr r2 p by (auto simp: seqE_def wrapE_def)
        moreover have "to_inspect_access tops a (st_tokens st2) = Inr ?cl" using i2 r2 p by blast
        ultimately show ?thesis using i2 live1 live2 law by auto
      qed
    qed
  qed
qed

end

subsection \<open>Recovery against the contracts\<close>

locale iam_recovery =
  iam_parts tops tinv issued sops sinv used_id used_token q active listed + recovery_repository rops rinv pending spent
  for tops :: "'tk token_ops" and tinv :: "'tk \<Rightarrow> bool" and issued :: "'tk \<Rightarrow> string \<Rightarrow> bool"
    and sops :: "'se session_ops" and sinv :: "'se \<Rightarrow> bool"
    and used_id :: "'se \<Rightarrow> string \<Rightarrow> bool" and used_token :: "'se \<Rightarrow> string \<Rightarrow> bool"
    and q :: membership_query and active :: "string \<Rightarrow> bool" and listed :: "string \<Rightarrow> membership_view set"
    and rops :: "'ci recovery_ops" and rinv :: "'ci \<Rightarrow> bool"
    and pending :: "'ci \<Rightarrow> token_kind \<times> string \<rightharpoonup> string \<times> int" and spent :: "'ci \<Rightarrow> (token_kind \<times> string) set"
begin

definition all_ok :: "('tk, 'se, 'ci, 'ob) iam_state \<Rightarrow> bool" where
  "all_ok st \<longleftrightarrow> parts_ok st \<and> rinv (st_identity st)"

lemma on_identity_frame:
  assumes "on_identity f st = (r, st')"
  shows "\<exists>ci. f (st_identity st) = (r, ci) \<and> st' = st\<lparr>st_identity := ci\<rparr>"
  using assms unfolding on_identity_def by (auto split: prod.splits)

lemma consume_reset_eq: "ro_consume_reset rops h n = consume_token rops ResetToken h n"
  by (simp add: consume_token_def)

lemma redeem_ok:
  assumes ok: "all_ok st" and run: "redeem bad (consume_token rops k h n) st = (Inr u, st')"
  shows "trim_space u \<noteq> [] \<and> (\<exists>e. pending (st_identity st) (k, h) = Some (u, e) \<and> n < e) \<and> all_ok st' \<and>
    st' = st\<lparr>st_identity := st_identity st'\<rparr> \<and> pending (st_identity st') = (pending (st_identity st))((k, h) := None) \<and>
    spent (st_identity st') = insert (k, h) (spent (st_identity st))"
proof -
  obtain ci where ci: "consume_token rops k h n (st_identity st) = (Inr u, ci)" "st' = st\<lparr>st_identity := ci\<rparr>" "trim_space u \<noteq> []"
    using run unfolding redeem_def on_identity_def by (auto split: prod.splits sum.splits if_splits)
  then have "u \<noteq> []" by auto
  with consume_law [OF _ ci(1)] ok ci show ?thesis by (auto simp: all_ok_def parts_ok_def)
qed

lemma redeem_spent:
  assumes ok: "all_ok st" and sp: "(k, h) \<in> spent (st_identity st)"
  shows "redeem bad (consume_token rops k h n) st = (Inl bad, st)"
proof -
  obtain r ci where ci: "consume_token rops k h n (st_identity st) = (r, ci)" by fastforce
  have inv: "rinv (st_identity st)" using ok by (simp add: all_ok_def)
  have none: "pending (st_identity st) (k, h) = None" using spent_law [OF inv sp] .
  have r: "r = Inr [] \<or> isl r"
  proof (cases r)
    case (Inr u)
    then show ?thesis using consume_law [OF inv ci [unfolded Inr]] none by auto
  qed simp
  then have "ci = st_identity st" using consume_miss [OF inv ci] by blast
  then show ?thesis using ci r by (cases r) (auto simp: redeem_def on_identity_def)
qed

lemma reset_ok:
  assumes env: "uses env" "ie_recovery env = Some rops" and ok: "all_ok st"
    and run: "reset_password env tok pw st = (Inr (), st')"
  obtains u e where "pending (st_identity st) (ResetToken, ie_sha env (trim_space tok)) = Some (u, e)" and "ie_now env < e"
    and "12 \<le> length (trim_space pw)" and "all_ok st'" and "alive st' = drop_user u (alive st)"
    and "(ResetToken, ie_sha env (trim_space tok)) \<in> spent (st_identity st')" and "st_tokens st' = st_tokens st"
proof -
  let ?h = "ie_sha env (trim_space tok)"
  have env': "ie_sessions env = sops" using env(1) by (simp add: uses_def)
  obtain u st1 h st2 where r: "redeem reset_invalid (consume_token rops ResetToken ?h (ie_now env)) st = (Inr u, st1)"
      "12 \<le> length (trim_space pw)" "on_identity (ro_update_hash rops u h (ie_now env)) st1 = (Inr (), st2)"
      "st' = snd (on_sessions (so_revoke_user sops u ''password_reset'') st2)"
    using run by (auto simp: reset_password_def env env' seq_iffs consume_reset_eq split: if_splits)
  note red = redeem_ok [OF ok r(1)]
  have same1: "st_sessions st1 = st_sessions st" "st_tokens st1 = st_tokens st" "st_ids st1 = st_ids st"
    using red by (metis iam_state.ext_inject iam_state.surjective iam_state.update_convs(3))+
  obtain ci where ci: "ro_update_hash rops u h (ie_now env) (st_identity st1) = (Inr (), ci)" "st2 = st1\<lparr>st_identity := ci\<rparr>"
    using on_identity_frame [OF r(3)] by blast
  have inv1: "rinv (st_identity st1)" using red by (simp add: all_ok_def)
  have upd: "rinv ci" "spent ci = spent (st_identity st1)" using hash_law [OF inv1, of u h "ie_now env"] ci(1) by auto
  have lk: "linked (st_tokens st2) (st_sessions st2) (st_ids st2)" using red ci(2) by (simp add: all_ok_def parts_ok_def)
  obtain se where se: "so_revoke_user sops u ''password_reset'' (st_sessions st2) = (Inr (), se)" "sinv se"
      "live sops se = drop_user u (live sops (st_sessions st2))" "used_token se = used_token (st_sessions st2)" "used_id se = used_id (st_sessions st2)"
    using revoke_user_live [of "st_sessions st2"] lk unfolding linked_def by blast
  have st': "st' = st2\<lparr>st_sessions := se\<rparr>" using r(4) se(1) by (simp add: on_sessions_def)
  have "all_ok st'" using linked_same [OF lk se(2,4,5)] upd(1) by (simp add: all_ok_def parts_ok_def st' ci(2))
  moreover have "alive st' = drop_user u (alive st)" by (simp add: alive_def st' se(3) ci(2) same1)
  moreover have "(ResetToken, ?h) \<in> spent (st_identity st')" using red upd(2) by (simp add: st' ci(2))
  moreover have "st_tokens st' = st_tokens st" by (simp add: st' ci(2) same1)
  ultimately show thesis using that r(2) red by blast
qed

lemma reset_again:
  assumes "ie_recovery env = Some rops" and "all_ok st" and "trim_space tok \<noteq> []" "trim_space pw \<noteq> []"
    and "(ResetToken, ie_sha env (trim_space tok)) \<in> spent (st_identity st)"
  shows "reset_password env tok pw st = (Inl reset_invalid, st)"
  using redeem_spent [OF assms(2,5), of reset_invalid "ie_now env"] assms
  by (simp add: reset_password_def consume_reset_eq)

text \<open>A password that is too short is refused only after the token has been redeemed.\<close>

lemma reset_short:
  assumes env: "ie_recovery env = Some rops" and ok: "all_ok st" and ne: "trim_space tok \<noteq> []" "trim_space pw \<noteq> []"
    and short: "length (trim_space pw) < 12"
    and tok: "pending (st_identity st) (ResetToken, ie_sha env (trim_space tok)) = Some (u, e)" "ie_now env < e" "trim_space u \<noteq> []"
  shows "\<exists>st'. reset_password env tok pw st = (Inl (new_http_error 422 CodeInvalidRequest ''new_password must be at least 12 characters''), st') \<and>
     all_ok st' \<and> alive st' = alive st \<and> (ResetToken, ie_sha env (trim_space tok)) \<in> spent (st_identity st')"
proof -
  let ?h = "ie_sha env (trim_space tok)"
  have inv: "rinv (st_identity st)" using ok by (simp add: all_ok_def)
  obtain ci where ci: "consume_token rops ResetToken ?h (ie_now env) (st_identity st) = (Inr u, ci)" "u \<noteq> []"
    using consume_live [OF inv tok(1,2)] by blast
  let ?st = "st\<lparr>st_identity := ci\<rparr>"
  have red: "redeem reset_invalid (consume_token rops ResetToken ?h (ie_now env)) st = (Inr u, ?st)"
    using ci tok(3) by (simp add: redeem_def on_identity_def)
  have "reset_password env tok pw st = (Inl (new_http_error 422 CodeInvalidRequest ''new_password must be at least 12 characters''), ?st)"
    using ne short red by (simp add: reset_password_def env consume_reset_eq)
  moreover have "all_ok ?st" "(ResetToken, ?h) \<in> spent (st_identity ?st)" using redeem_ok [OF ok red] by auto
  moreover have "alive ?st = alive st" by (simp add: alive_def)
  ultimately show ?thesis by blast
qed

end

end
