(* ===== verification/IamWiring.thy ===== *)
theory IamWiring
  imports IamService
begin

section \<open>The IAM service as the server wires it\<close>

text \<open>
  The two wirings of \<^verbatim>\<open>internal/httpserver/server.go\<close> with opaque tokens: without a database
  (heap sessions, fixture memberships, static users, no recovery) and over MySQL (session table,
  membership joins, identity tables with recovery and the outbox). Each is an interpretation of
  the contracts of theory \<open>IamService\<close>; the properties below are stated over the concrete parts.
  In the MySQL wiring \<^verbatim>\<open>LOWER(status) = 'active'\<close> is taken to be equality up to case.
\<close>

type_synonym memory_state = "(opaque_manager, session_heap, static_users, outbox_map) iam_state"
type_synonym memory_iam_env = "(opaque_manager, session_heap, static_users, outbox_map) iam_env"
type_synonym sql_state = "(opaque_manager, session_table, identity_db, outbox_table) iam_state"
type_synonym sql_env = "(opaque_manager, session_table, identity_db, outbox_table) iam_env"

subsection \<open>Without a database\<close>

definition memory_env :: "(static_users \<Rightarrow> string list) \<Rightarrow> memory_iam_env" where
  "memory_env order = new_iam opaque_ops (heap_sessions id_order) (static_identity order) (fixture_query seed_members)"

definition memory_start :: memory_state where
  "memory_start = \<lparr>st_tokens = new_opaque tally_ids, st_sessions = empty_heap, st_identity = seed_users,
     st_outbox = Map.empty, st_attempts = [], st_ids = tally_ids\<rparr>"

interpretation memory: iam_parts opaque_ops opaque_ok opaque_issued "heap_sessions id_order" heap_ok
  "\<lambda>h i. sh_by_id h i \<noteq> None" "\<lambda>h t. sh_by_token h t \<noteq> None"
  "fixture_query seed_members" "\<lambda>st. equal_fold st ''active''" "\<lambda>u. set (entries_at (mf_by_user seed_members) u)"
  by unfold_locales

definition memory_ok :: "memory_state \<Rightarrow> bool" where
  "memory_ok st \<longleftrightarrow> opaque_ok (st_tokens st) \<and> heap_ok (st_sessions st) \<and> fresh_ids (st_ids st) \<and>
     (\<forall>t. sh_by_token (st_sessions st) t \<noteq> None \<longrightarrow> opaque_issued (st_tokens st) t) \<and>
     (\<forall>i. sh_by_id (st_sessions st) i \<noteq> None \<longrightarrow> issued_as [] (st_ids st) i)"

definition heap_alive :: "memory_state \<Rightarrow> string \<rightharpoonup> live_session" where
  "heap_alive st = live (heap_sessions id_order) (st_sessions st)"

lemma memory_ok_parts: "memory_ok st = memory.parts_ok st"
  unfolding memory_ok_def memory.parts_ok_def memory.linked_def by blast

lemma heap_alive_parts: "heap_alive st = memory.alive st"
  unfolding heap_alive_def memory.alive_def ..

text \<open>The fields of the environment the wiring fixes; the clock, random bytes and options are free.\<close>

definition memory_wired :: "memory_iam_env \<Rightarrow> bool" where
  "memory_wired env \<longleftrightarrow> ie_tokens env = opaque_ops \<and> ie_sessions env = heap_sessions id_order \<and>
     ie_members env = fixture_query seed_members"

lemma memory_wired_uses: "memory_wired env = memory.uses env"
  unfolding memory_wired_def memory.uses_def ..

lemma memory_env_wired: "memory_wired (memory_env order)"
  by (simp add: memory_env_def memory_wired_def new_iam_def)

lemma memory_start_ok: "memory_ok memory_start"
  by (simp add: memory_ok_def memory_start_def new_opaque_ok fresh_tally_ids heap_ok_def empty_heap_def)

subsection \<open>Over MySQL\<close>

interpretation sql_members: membership_query "db_query rank equal_fold mdb" "\<lambda>st. equal_fold st ''active''"
  "\<lambda>u. set (membership_join mdb (\<lambda>m. mb_user m = u))" for rank mdb
  by (rule db_contract) (simp add: folds_active_def)

interpretation sql: iam_recovery opaque_ops opaque_ok opaque_issued "table_sessions hash ttl now" "table_ok hash" used_sid "used_hash hash"
  "db_query rank equal_fold mdb" "\<lambda>st. equal_fold st ''active''" "\<lambda>u. set (membership_join mdb (\<lambda>m. mb_user m = u))"
  "db_recovery same" db_ok db_pending db_spent
  for hash ttl now rank mdb same
  by unfold_locales

definition sql_ok :: "(string \<Rightarrow> string) \<Rightarrow> sql_state \<Rightarrow> bool" where
  "sql_ok hash st \<longleftrightarrow> opaque_ok (st_tokens st) \<and> table_ok hash (st_sessions st) \<and> fresh_ids (st_ids st) \<and> db_ok (st_identity st) \<and>
     (\<forall>t. used_hash hash (st_sessions st) t \<longrightarrow> opaque_issued (st_tokens st) t) \<and>
     (\<forall>i. used_sid (st_sessions st) i \<longrightarrow> issued_as [] (st_ids st) i)"

definition sql_alive :: "sql_env \<Rightarrow> sql_state \<Rightarrow> string \<rightharpoonup> live_session" where
  "sql_alive env st = live (ie_sessions env) (st_sessions st)"

definition sql_wired :: "(string \<Rightarrow> string) \<Rightarrow> (string \<Rightarrow> string \<Rightarrow> bool) \<Rightarrow> sql_env \<Rightarrow> bool" where
  "sql_wired hash same env \<longleftrightarrow> ie_tokens env = opaque_ops \<and> (\<exists>ttl. ie_sessions env = table_sessions hash ttl (ie_now env)) \<and>
     (\<exists>rank mdb. ie_members env = db_query rank equal_fold mdb) \<and> ie_recovery env = Some (db_recovery same) \<and>
     ie_outbox env = Some sql_outbox \<and> ie_sha env = hash"

lemma sql_ok_all: "sql_ok hash st = sql.all_ok hash st"
  unfolding sql_ok_def sql.all_ok_def sql.parts_ok_def sql.linked_def by blast

lemma sql_wired_uses:
  assumes "sql_wired hash same env"
  obtains ttl rank mdb where "sql.uses hash ttl (ie_now env) rank mdb env" and "ie_sessions env = table_sessions hash ttl (ie_now env)"
    and "ie_recovery env = Some (db_recovery same)" and "ie_sha env = hash" and "ie_members env = db_query rank equal_fold mdb"
  using assms unfolding sql_wired_def sql.uses_def by blast

lemma sql_alive_eq: "ie_sessions env = table_sessions hash ttl n \<Longrightarrow> sql_alive env st = sql.alive hash ttl n st"
  unfolding sql_alive_def sql.alive_def by simp

text \<open>Time only takes sessions away.\<close>

lemma table_live_later:
  assumes "n \<le> n'" and "live (table_sessions hash ttl n) rows t = None"
  shows "live (table_sessions hash ttl' n') rows t = None"
  using assms by (auto simp: table_live row_live_def split: option.splits if_splits)

lemma sql_refresh_dead:
  assumes "sql_wired hash same env" and "trim_space tok \<noteq> []" and "sql_alive env st tok = None"
  shows "refresh env tok st = (Inl session_gone, st)"
proof -
  obtain ttl rank mdb where w: "sql.uses hash ttl (ie_now env) rank mdb env" "ie_sessions env = table_sessions hash ttl (ie_now env)"
    using sql_wired_uses [OF assms(1)] by metis
  show ?thesis using sql.refresh_dead [OF w(1) assms(2)] assms(3) sql_alive_eq [OF w(2)] by simp
qed

lemma sql_alive_later:
  assumes "sql_wired hash same env" "sql_wired hash same env'" "ie_now env \<le> ie_now env'" and "sql_alive env st tok = None"
  shows "sql_alive env' st tok = None"
  using assms table_live_later unfolding sql_wired_def sql_alive_def by metis

lemma identity_frame: "st' = st\<lparr>st_tokens := a, st_sessions := b\<rparr> \<Longrightarrow> st_identity st' = st_identity st"
  by simp

subsection \<open>From the forgotten password to the new one\<close>

text \<open>A reset token can be stored: its id and hash are not in the table yet.\<close>

definition storable :: "string \<Rightarrow> string \<Rightarrow> identity_db \<Rightarrow> bool" where
  "storable tid h db \<longleftrightarrow> list_all (\<lambda>r. kr_id r \<noteq> tid \<and> kr_hash r \<noteq> h) (id_resets db)"

lemma found_user_exists:
  assumes "db_find_email same e db = Inr (Some u)"
  shows "list_ex (\<lambda>x. ur_id x = ru_id u) (id_users db)"
proof -
  let ?P = "\<lambda>x. (case ur_email x of None \<Rightarrow> False | Some m \<Rightarrow> same m (trim_space (to_lower e))) \<or> same (ur_login x) (trim_space (to_lower e))"
  obtain x where x: "List.find ?P (id_users db) = Some x"
    using assms by (cases "List.find ?P (id_users db)") (simp_all add: db_find_email_def Let_def)
  then have "x \<in> set (id_users db)" unfolding find_Some_iff by auto
  moreover have "ru_id u = ur_id x" using assms x by (simp add: db_find_email_def Let_def) fastforce
  ultimately show ?thesis by (auto simp: list_ex_iff)
qed

definition reset_row :: "string \<Rightarrow> string \<Rightarrow> string \<Rightarrow> int \<Rightarrow> token_row" where
  "reset_row tid uid h e = \<lparr>kr_id = tid, kr_user = uid, kr_hash = h, kr_expires = e, kr_used = None\<rparr>"

lemma db_store_reset_ok:
  assumes "storable tid h db" and "list_ex (\<lambda>x. ur_id x = uid) (id_users db)"
  shows "db_store_reset \<lparr>rt_id = tid, rt_user = uid, rt_hash = h, rt_expires = e\<rparr> db =
    (Inr (), db\<lparr>id_resets := id_resets db @ [reset_row tid uid h e]\<rparr>)"
proof -
  have "\<not> list_ex (\<lambda>r. kr_id r = tid \<or> kr_hash r = h) (id_resets db)"
    using assms(1) by (auto simp: storable_def list_all_iff list_ex_iff)
  then show ?thesis using assms(2)
    by (simp only: db_store_reset_def insert_token_def reset_row_def recovery_token.select_convs if_False not_True_eq_False
        prod.case sum.case unit.case)
qed

lemma draw_id_eq: "draw_id st = (Inr (fst (new_uuid (st_ids st))), st\<lparr>st_ids := snd (new_uuid (st_ids st))\<rparr>)"
  by (simp add: draw_id_def new_uuid_def)

lemma publish_email_frame:
  "st_tokens (publish_email env typ uid pl st) = st_tokens st" "st_sessions (publish_email env typ uid pl st) = st_sessions st"
  "st_identity (publish_email env typ uid pl st) = st_identity st"
  by (simp_all add: publish_email_def split: option.split prod.split)

lemma forgot_stores:
  assumes w: "ie_recovery env = Some (db_recovery same)" "ie_random env = Inr bytes"
    and e: "trim_space (to_lower email) \<noteq> []" and u: "db_find_email same (trim_space (to_lower email)) (st_identity st) = Inr (Some u)"
    and fresh: "storable (fst (new_uuid (st_ids st))) (ie_sha env (b64url bytes)) (st_identity st)"
  shows "forgot_password env email st = (Inr (), publish_email env ''auth.password_reset_requested'' (ru_id u) (reset_mail env u (b64url bytes))
    (st\<lparr>st_ids := snd (new_uuid (st_ids st)), st_identity := (st_identity st)\<lparr>id_resets := id_resets (st_identity st) @
       [reset_row (fst (new_uuid (st_ids st))) (ru_id u) (ie_sha env (b64url bytes)) (ie_now env + ie_reset_ttl env)]\<rparr>\<rparr>))"
proof -
  note store = db_store_reset_ok [OF fresh found_user_exists [OF u], of "ie_now env + ie_reset_ttl env"]
  have "ro_find (db_recovery same) = db_find_email same" "ro_store_reset (db_recovery same) = db_store_reset"
    by (simp_all add: db_recovery_def)
  then show ?thesis using e u
    by (simp add: forgot_password_def w request_mail_def raw_token_def seqE_def wrapE_def draw_id_eq [simplified] on_identity_def
        store [simplified])
qed

lemma mail_carries_link:
  assumes "octets bytes"
  shows "\<exists>pre post. attr_str (reset_mail env u (b64url bytes)) ''body'' = pre @ ''/reset-password?token='' @ b64url bytes @ newline @ post"
proof -
  have "attr_str (reset_mail env u (b64url bytes)) ''body'' = (''Xin chao '' @ coalesce (ru_name u) (ru_login u) @ '','' @ newline @ newline @
      ''Vui long dat lai mat khau qua link sau:'' @ newline @ trim_right_char (CHR ''/'') (ie_web env)) @ ''/reset-password?token='' @
      b64url bytes @ newline @ (newline @ ''Link het han sau '' @ itoa (ie_reset_ttl env div 60000000000) @ '' phut.'')"
    by (simp add: reset_mail_def action_link_def b64url_verbatim [OF assms])
  then show ?thesis by blast
qed

text \<open>Login never touches the identities.\<close>

definition keeps :: "('s \<Rightarrow> 'b) \<Rightarrow> ('e, 's, 'a) action \<Rightarrow> bool" where
  "keeps p f \<longleftrightarrow> (\<forall>s. p (snd (f s)) = p s)"

lemma keeps_seqE: "keeps p m \<Longrightarrow> (\<And>x. keeps p (k x)) \<Longrightarrow> keeps p (seqE m k)"
proof -
  assume m: "keeps p m" and k: "\<And>x. keeps p (k x)"
  have "p (snd (seqE m k s)) = p s" for s
  proof (cases "m s")
    case (Pair r t)
    then have t: "p t = p s" using m unfolding keeps_def by (metis snd_conv)
    show ?thesis using k t Pair unfolding keeps_def by (cases r) (simp_all add: seqE_def)
  qed
  then show "keeps p (seqE m k)" unfolding keeps_def by blast
qed

lemma keeps_pair: "(\<And>a b. keeps p (f a b)) \<Longrightarrow> keeps p (case x of (a, b) \<Rightarrow> f a b)"
  by (cases x) simp

lemma keeps_basic: "keeps p (okE x)" "keeps p (liftE g)"
  "keeps st_identity (on_tokens h)" "keeps st_identity (on_sessions k)" "keeps st_identity draw_id"
  by (simp_all add: keeps_def on_tokens_def on_sessions_def draw_id_def split: prod.split)

lemma keeps_failing: "keeps p f \<Longrightarrow> keeps p (failing_as u msg f)"
proof -
  have "snd (failing_as u msg f s) = snd (f s)" for s
    by (cases "f s"; cases "fst (f s)") (simp_all add: failing_as_def)
  then show "keeps p f \<Longrightarrow> keeps p (failing_as u msg f)" by (simp add: keeps_def)
qed

lemmas keeps_intros = keeps_seqE keeps_pair keeps_basic keeps_failing

lemma keeps_login_steps: "keeps st_identity (login_steps env req)"
proof -
  have "keeps st_identity (open_single env req u m sid t)" "keeps st_identity (open_choice env req u ms sid t)" for u m ms sid t
    unfolding open_single_def open_choice_def by (intro keeps_intros)+
  then have "keeps st_identity (open_session env req u ms)" for u ms
    unfolding open_session_def by (intro keeps_intros) (auto split: list.split)
  then show ?thesis unfolding login_steps_def by (intro keeps_intros)
qed

lemma login_identity: "st_identity (snd (login env req st)) = st_identity st"
proof -
  have "st_identity (snd (login_steps env req st)) = st_identity st" using keeps_login_steps unfolding keeps_def by blast
  moreover have "st_identity (snd (login env req st)) = st_identity (snd (login_steps env req st))"
    by (cases "login_steps env req st"; cases "fst (login_steps env req st)") (auto simp: login_def record_login_def)
  ultimately show ?thesis by simp
qed

text \<open>What the recovery mails change: the table of tokens and the ids, never tokens or sessions.\<close>

lemma request_mail_state:
  assumes "request_mail env what ttl store typ mail u st = (r, st')"
  shows "st_tokens st' = st_tokens st \<and> st_sessions st' = st_sessions st \<and>
    (\<exists>n \<ge> ig_next (st_ids st). st_ids st' = (st_ids st)\<lparr>ig_next := n\<rparr>) \<and>
    (st_identity st' = st_identity st \<or> (\<exists>t q. store t (st_identity st) = (q, st_identity st')))"
proof (cases "raw_token env")
  case (Inl e)
  then have "st' = st" using assms by (auto simp: request_mail_def seqE_def wrapE_def)
  then show ?thesis by (auto intro: exI [of _ "ig_next (st_ids st)"])
next
  case (Inr p)
  obtain raw h where p: "p = (raw, h)" by fastforce
  let ?st1 = "st\<lparr>st_ids := snd (new_uuid (st_ids st))\<rparr>"
  let ?t = "\<lparr>rt_id = fst (new_uuid (st_ids st)), rt_user = ru_id u, rt_hash = h, rt_expires = ie_now env + ttl\<rparr>"
  obtain q ci where q: "store ?t (st_identity st) = (q, ci)" by fastforce
  let ?st2 = "?st1\<lparr>st_identity := ci\<rparr>"
  have "st' = ?st2 \<or> st' = publish_email env typ (ru_id u) (mail u raw) ?st2"
    using assms q unfolding request_mail_def
    by (cases q) (auto simp: seqE_def wrapE_def Inr p draw_id_eq [simplified] on_identity_def)
  moreover have "\<exists>n \<ge> ig_next (st_ids st). st_ids (publish_email env typ (ru_id u) (mail u raw) ?st2) = (st_ids st)\<lparr>ig_next := n\<rparr>"
    by (cases "ie_outbox env") (auto simp: publish_email_def new_uuid_def intro: exI [of _ "Suc (ig_next (st_ids st))"]
      exI [of _ "Suc (Suc (ig_next (st_ids st)))"])
  moreover have "\<exists>n \<ge> ig_next (st_ids st). st_ids ?st2 = (st_ids st)\<lparr>ig_next := n\<rparr>"
    by (auto simp: new_uuid_def intro: exI [of _ "Suc (ig_next (st_ids st))"])
  moreover have "st_identity ?st2 = ci" "st_tokens ?st2 = st_tokens st" "st_sessions ?st2 = st_sessions st" by simp_all
  ultimately show ?thesis using q publish_email_frame by metis
qed

lemma sql_ok_mail:
  assumes ok: "sql_ok hash st" and "st_tokens st' = st_tokens st" "st_sessions st' = st_sessions st"
    and ids: "st_ids st' = (st_ids st)\<lparr>ig_next := n\<rparr>" "ig_next (st_ids st) \<le> n" and "db_ok (st_identity st')"
  shows "sql_ok hash st'"
  using assms issued_as_mono [OF _ ids(2)] by (simp add: sql_ok_def)

lemma sql_forgot_ok:
  assumes "sql_wired hash same env" and ok: "sql_ok hash st"
  shows "sql_ok hash (snd (forgot_password env email st))"
proof -
  have w: "ie_recovery env = Some (db_recovery same)" using assms(1) by (auto simp: sql_wired_def)
  let ?e = "trim_space (to_lower email)"
  show ?thesis
  proof (cases "?e \<noteq> [] \<and> (\<exists>u. ro_find (db_recovery same) ?e (st_identity st) = Inr (Some u))")
    case False
    then have "snd (forgot_password env email st) = st"
      by (cases "ro_find (db_recovery same) ?e (st_identity st)"; cases "projr (ro_find (db_recovery same) ?e (st_identity st))")
        (auto simp: forgot_password_def w Let_def)
    with ok show ?thesis by simp
  next
    case True
    then obtain u where u: "ro_find (db_recovery same) ?e (st_identity st) = Inr (Some u)" by blast
    obtain r st' where r: "request_mail env ''reset'' (ie_reset_ttl env) (ro_store_reset (db_recovery same))
        ''auth.password_reset_requested'' (reset_mail env) u st = (r, st')" by fastforce
    have st': "snd (forgot_password env email st) = st'" using True u r by (simp add: forgot_password_def w Let_def)
    note f = request_mail_state [OF r]
    have "ro_store_reset (db_recovery same) = store_token (db_recovery same) ResetToken" by (simp add: store_token_def)
    moreover have "db_ok (st_identity st)" using ok by (simp add: sql_ok_def)
    ultimately have "db_ok (st_identity st')" using f db.store_law by metis
    with f sql_ok_mail [OF ok] show ?thesis unfolding st' by blast
  qed
qed

subsection \<open>A small instance\<close>

definition wit_hash :: "string \<Rightarrow> string" where
  "wit_hash s = CHR ''h'' # s"

definition wit_members :: member_db where
  "wit_members = \<lparr>md_companies = [(''c1'', ''One'')],
     md_memberships = [\<lparr>mb_id = ''m1'', mb_user = ''u1'', mb_company = ''c1'', mb_status = ''active''\<rparr>],
     md_roles = [], md_role_links = [], md_deps = [], md_dep_links = [], md_titles = [], md_title_links = []\<rparr>"

definition wit_env :: "int \<Rightarrow> sql_env" where
  "wit_env now = \<lparr>ie_tokens = opaque_ops, ie_sessions = table_sessions wit_hash 1000 now,
     ie_identity = db_identity (=) (\<lambda>h p. h = ''#'' @ p) now, ie_members = db_query id equal_fold wit_members,
     ie_mfa = None, ie_sso = None, ie_attempts = True, ie_recovery = Some (db_recovery (=)), ie_outbox = Some sql_outbox,
     ie_web = ''https://w/'', ie_reset_ttl = 100, ie_verify_ttl = 100, ie_now = now, ie_random = Inr [1, 2, 3], ie_sha = wit_hash,
     ie_bcrypt = (\<lambda>p. Inr (''#'' @ p))\<rparr>"

definition wit_start :: sql_state where
  "wit_start = \<lparr>st_tokens = new_opaque tally_ids, st_sessions = [], st_identity = wit_identity, st_outbox = [],
     st_attempts = [], st_ids = tally_ids\<rparr>"

definition wit_login :: login_request where
  "wit_login = \<lparr>lr_login = ''a@b.c'', lr_email = [], lr_password = ''old'', lr_cipher = None, lr_remember = False, lr_ip = [],
     lr_agent = [], lr_otp = [], lr_extensions = []\<rparr>"

definition wit_in :: sql_state where
  "wit_in = snd (login (wit_env 0) wit_login wit_start)"

lemma wit_wired: "sql_wired wit_hash (=) (wit_env now)"
  unfolding sql_wired_def wit_env_def by auto

lemma wit_start_ok: "sql_ok wit_hash wit_start"
  by (simp add: sql_ok_def wit_start_def new_opaque_ok fresh_tally_ids wit_identity_ok table_ok_def wit_hash_def inj_def
    used_hash_def used_sid_def)

lemma sql_login_ok:
  assumes "sql_wired hash same env" and "sql_ok hash st"
  shows "sql_ok hash (snd (login env req st))"
proof -
  obtain ttl rank mdb where w: "sql.uses hash ttl (ie_now env) rank mdb env" using sql_wired_uses [OF assms(1)] by metis
  have "sql.parts_ok hash (snd (login env req st))"
    using sql.login_step [OF w _ prod.collapse [symmetric]] assms(2) by (simp add: sql_ok_all sql.all_ok_def)
  moreover have "st_identity (snd (login env req st)) = st_identity st"
    by (simp add: login_identity)
  ultimately show ?thesis using assms(2) by (simp add: sql_ok_all sql.all_ok_def)
qed

lemma wit_in_ok: "sql_ok wit_hash wit_in"
  unfolding wit_in_def by (rule sql_login_ok [OF wit_wired wit_start_ok])

subsection \<open>Properties\<close>

text \<open>C11: what a login does (in-memory wiring): a failed login, at whatever step, leaves the live sessions as
  they were; a successful one belongs to an active account with at least one active membership, creates
  exactly one session, under a refresh token that named none before, bound to the only active membership
  or to none when there are several, and the token of the response names that user and session.\<close>

theorem login_opens_one_session:
  assumes "memory_wired env" and "memory_ok st" and "login env req st = (r, st')"
  shows "memory_ok st' \<and> (case r of Inl e \<Rightarrow> heap_alive st' = heap_alive st
    | Inr resp \<Rightarrow> \<exists>u ms sid. admit env req (st_identity st) = Inr (u, ms) \<and> to_lower (au_status u) = ''active'' \<and> ms \<noteq> [] \<and>
        list_all (\<lambda>m. mv_user m = au_id u \<and> equal_fold (mv_status m) ''active'') ms \<and>
        heap_alive st (lo_refresh resp) = None \<and>
        heap_alive st' = (heap_alive st)(lo_refresh resp \<mapsto> (sid, au_id u, case ms of [m] \<Rightarrow> (mv_id m, mv_company m) | _ \<Rightarrow> ([], []))) \<and>
        (case ms of
           [m] \<Rightarrow> opaque_inspect_access (lo_access resp) (st_tokens st') =
             Inr \<lparr>ac_sub = au_id u, ac_session = sid, ac_membership = mv_id m, ac_company = mv_company m\<rparr>
         | _ \<Rightarrow> opaque_inspect_pre (lo_pre resp) (st_tokens st') = Inr \<lparr>pc_sub = au_id u, pc_session = sid\<rparr>))"
proof -
  note uses = assms(1) [unfolded memory_wired_uses]
  note step = memory.login_step [OF uses assms(2) [unfolded memory_ok_parts] assms(3)]
  have ops: "to_inspect_access opaque_ops = opaque_inspect_access" "to_inspect_pre opaque_ops = opaque_inspect_pre"
    by (simp_all add: opaque_ops_def)
  show ?thesis
  proof (cases r)
    case (Inl e)
    with step show ?thesis by (simp add: memory_ok_parts heap_alive_parts)
  next
    case (Inr resp)
    from step [unfolded Inr sum.case] obtain u ms sid where l: "memory.parts_ok st'" "admit env req (st_identity st) = Inr (u, ms)" "memory.alive st (lo_refresh resp) = None"
        "memory.opened u ms sid resp (st_tokens st')" "memory.alive st' = (memory.alive st)(lo_refresh resp \<mapsto> (sid, au_id u, memory.session_context ms))"
      by blast
    have "case ms of [m] \<Rightarrow> opaque_inspect_access (lo_access resp) (st_tokens st') =
             Inr \<lparr>ac_sub = au_id u, ac_session = sid, ac_membership = mv_id m, ac_company = mv_company m\<rparr>
         | _ \<Rightarrow> opaque_inspect_pre (lo_pre resp) (st_tokens st') = Inr \<lparr>pc_sub = au_id u, pc_session = sid\<rparr>"
      using l(4) unfolding memory.opened_def ops by (auto split: list.splits)
    moreover have "list_all (\<lambda>m. mv_user m = au_id u \<and> equal_fold (mv_status m) ''active'') ms" "to_lower (au_status u) = ''active''" "ms \<noteq> []"
      using memory.admit_ok [OF uses l(2)] by (auto simp: list_all_iff)
    ultimately show ?thesis using l unfolding memory_ok_parts heap_alive_parts Inr sum.case memory.session_context_def by blast
  qed
qed

theorem login_opens_one_session_witness:
  "\<exists>resp. fst (login (memory_env (\<lambda>_. [])) (wit_login\<lparr>lr_login := ''single@example.com'', lr_password := ''secret''\<rparr>) memory_start) = Inr resp \<and>
     lo_context resp = Some \<lparr>lc_company = ''c_010'', lc_membership = ''m_010'', lc_auto = True\<rparr> \<and>
     heap_alive (snd (login (memory_env (\<lambda>_. [])) (wit_login\<lparr>lr_login := ''single@example.com'', lr_password := ''secret''\<rparr>) memory_start))
       (lo_refresh resp) \<noteq> None"
proof -
  let ?p = "login (memory_env (\<lambda>_. [])) (wit_login\<lparr>lr_login := ''single@example.com'', lr_password := ''secret''\<rparr>) memory_start"
  have ok: "?p = (Inr (projr (fst ?p)), snd ?p)" by (rule run_projr) code_simp
  have "lo_context (projr (fst ?p)) = Some \<lparr>lc_company = ''c_010'', lc_membership = ''m_010'', lc_auto = True\<rparr>" by code_simp
  moreover have "fst ?p = Inr (projr (fst ?p))" using ok by (metis fst_conv)
  moreover have "heap_alive (snd ?p) (lo_refresh (projr (fst ?p))) \<noteq> None"
    using login_opens_one_session [OF memory_env_wired memory_start_ok ok] unfolding sum.case by auto
  ultimately show ?thesis by blast
qed

text \<open>C12: refresh tokens are single use (MySQL wiring): a successful refresh consumes the presented token, the
  session lives on under a new token only, with the same user, membership and company, the new access
  token names them, and presenting the old token again at any later time is answered with
  SESSION_EXPIRED and changes nothing.\<close>

theorem refresh_single_use:
  assumes "sql_wired hash same env" and "sql_ok hash st" and "refresh env tok st = (Inr resp, st')"
    and "sql_wired hash same env'" and "ie_now env \<le> ie_now env'"
  shows "refresh env' tok st' = (Inl session_gone, st') \<and> sql_ok hash st' \<and> (\<exists>i u.
     sql_alive env st tok = Some (i, u, rr_membership resp, rr_company resp) \<and> rr_refresh resp \<noteq> tok \<and>
     sql_alive env st' = (sql_alive env st)(tok := None, rr_refresh resp \<mapsto> (i, u, rr_membership resp, rr_company resp)) \<and>
     opaque_inspect_access (rr_access resp) (st_tokens st') =
       Inr \<lparr>ac_sub = u, ac_session = i, ac_membership = rr_membership resp, ac_company = rr_company resp\<rparr>)"
proof -
  obtain ttl rank mdb where w: "sql.uses hash ttl (ie_now env) rank mdb env" "ie_sessions env = table_sessions hash ttl (ie_now env)"
    using sql_wired_uses [OF assms(1)] by metis
  note alive = sql_alive_eq [OF w(2)]
  have ok: "sql.parts_ok hash st" "db_ok (st_identity st)" using assms(2) by (simp_all add: sql_ok_all sql.all_ok_def)
  obtain i u where l: "sql.alive hash ttl (ie_now env) st tok = Some (i, u, rr_membership resp, rr_company resp)"
    "sql.parts_ok hash st'" "rr_refresh resp \<noteq> tok"
    "sql.alive hash ttl (ie_now env) st' = (sql.alive hash ttl (ie_now env) st)(tok := None, rr_refresh resp \<mapsto> (i, u, rr_membership resp, rr_company resp))"
    "to_inspect_access opaque_ops (rr_access resp) (st_tokens st') =
       Inr \<lparr>ac_sub = u, ac_session = i, ac_membership = rr_membership resp, ac_company = rr_company resp\<rparr>"
    "st' = st\<lparr>st_tokens := st_tokens st', st_sessions := st_sessions st'\<rparr>"
    by (rule sql.refresh_ok [OF w(1) ok(1) assms(3)]) blast
  have "st_identity st' = st_identity st" by (rule identity_frame [OF l(6)])
  then have "sql_ok hash st'" using l(2) ok(2) by (simp add: sql_ok_all sql.all_ok_def)
  moreover have "sql_alive env st' tok = None" using l(3,4) alive by simp
  then have "sql_alive env' st' tok = None" using sql_alive_later assms(1,4,5) by blast
  moreover have "trim_space tok \<noteq> []" using assms(3) by (auto simp: refresh_def seq_iffs split: if_splits)
  ultimately have "refresh env' tok st' = (Inl session_gone, st') \<and> sql_ok hash st'" using sql_refresh_dead [OF assms(4)] by blast
  moreover have "opaque_inspect_access (rr_access resp) (st_tokens st') =
       Inr \<lparr>ac_sub = u, ac_session = i, ac_membership = rr_membership resp, ac_company = rr_company resp\<rparr>"
    using l(5) by (simp add: opaque_ops_def)
  ultimately show ?thesis using l(1,3,4) unfolding alive by blast
qed

theorem refresh_single_use_witness:
  "\<exists>resp. fst (refresh (wit_env 1) ''rtk_id'' wit_in) = Inr resp \<and> rr_company resp = ''c1'' \<and>
     fst (refresh (wit_env 2) ''rtk_id'' (snd (refresh (wit_env 1) ''rtk_id'' wit_in))) = Inl session_gone"
proof -
  let ?p = "refresh (wit_env 1) ''rtk_id'' wit_in"
  have ok: "?p = (Inr (projr (fst ?p)), snd ?p)" by (rule run_projr) code_simp
  have "rr_company (projr (fst ?p)) = ''c1''" by code_simp
  moreover have "ie_now (wit_env 1) \<le> ie_now (wit_env 2)" by (simp add: wit_env_def)
  then have "fst (refresh (wit_env 2) ''rtk_id'' (snd ?p)) = Inl session_gone"
    using refresh_single_use [OF wit_wired wit_in_ok ok wit_wired] by (metis fst_conv)
  moreover have "fst ?p = Inr (projr (fst ?p))" using ok by (metis fst_conv)
  ultimately show ?thesis by blast
qed

text \<open>C21: logout ends the session (MySQL wiring): whatever logout answers, the presented refresh token is dead
  from then on, a refresh with it is answered with SESSION_EXPIRED at any later time, and every other
  session is untouched.\<close>

theorem logout_ends_session:
  assumes "sql_wired hash same env" and "sql_ok hash st" and "trim_space tok \<noteq> []" and "logout env tok st = (r, st')"
    and "sql_wired hash same env'" and "ie_now env \<le> ie_now env'"
  shows "refresh env' tok st' = (Inl session_gone, st') \<and> sql_alive env st' = (sql_alive env st)(tok := None) \<and>
    sql_ok hash st' \<and> (sql_alive env st tok \<noteq> None \<longrightarrow> r = Inr ())"
proof -
  obtain ttl rank mdb where w: "sql.uses hash ttl (ie_now env) rank mdb env" "ie_sessions env = table_sessions hash ttl (ie_now env)"
    using sql_wired_uses [OF assms(1)] by metis
  note alive = sql_alive_eq [OF w(2)]
  have ok: "sql.parts_ok hash st" "db_ok (st_identity st)" using assms(2) by (simp_all add: sql_ok_all sql.all_ok_def)
  have l: "sql.parts_ok hash st'" "sql.alive hash ttl (ie_now env) st' = (sql.alive hash ttl (ie_now env) st)(tok := None)"
    "st' = st\<lparr>st_sessions := st_sessions st'\<rparr>" "sql.alive hash ttl (ie_now env) st tok \<noteq> None \<longrightarrow> r = Inr ()"
    using sql.logout_step [OF w(1) ok(1) assms(3,4)] by blast+
  have "st_identity st' = st_identity st" by (rule identity_frame [of _ _ "st_tokens st"]) (use l(3) in simp)
  then have "sql_ok hash st'" using l(1) ok(2) by (simp add: sql_ok_all sql.all_ok_def)
  moreover have "sql_alive env st' tok = None" using l(2) alive by simp
  then have "sql_alive env' st' tok = None" using sql_alive_later assms(1,5,6) by blast
  then have "refresh env' tok st' = (Inl session_gone, st')" using sql_refresh_dead [OF assms(5,3)] by blast
  ultimately show ?thesis using l(2,4) unfolding alive by blast
qed

theorem logout_ends_session_witness:
  "fst (logout (wit_env 1) ''rtk_id'' wit_in) = Inr () \<and>
   fst (refresh (wit_env 2) ''rtk_id'' (snd (logout (wit_env 1) ''rtk_id'' wit_in))) = Inl session_gone"
proof -
  have "trim_space ''rtk_id'' \<noteq> []" and "fst (logout (wit_env 1) ''rtk_id'' wit_in) = Inr ()" by code_simp+
  moreover have "ie_now (wit_env 1) \<le> ie_now (wit_env 2)" by (simp add: wit_env_def)
  ultimately show ?thesis
    using logout_ends_session [OF wit_wired wit_in_ok _ prod.collapse [symmetric] wit_wired] by (metis fst_conv)
qed

text \<open>C17: a password reset (MySQL wiring): it succeeds only with a token that is pending for a user and not
  expired and a password of at least twelve characters; afterwards no session of that user is alive,
  sessions of others are as before, and the same token never works again.\<close>

theorem reset_revokes_and_spends:
  assumes "sql_wired hash same env" and "sql_ok hash st" and "reset_password env tok pw st = (Inr (), st')"
    and "sql_wired hash same env'" and "trim_space pw' \<noteq> []"
  shows "12 \<le> length (trim_space pw) \<and> sql_ok hash st' \<and> reset_password env' tok pw' st' = (Inl reset_invalid, st') \<and>
    (\<exists>u e. db_pending (st_identity st) (ResetToken, hash (trim_space tok)) = Some (u, e) \<and> ie_now env < e \<and>
       sql_alive env st' = drop_user u (sql_alive env st))"
proof -
  obtain ttl rank mdb where w: "sql.uses hash ttl (ie_now env) rank mdb env" "ie_sessions env = table_sessions hash ttl (ie_now env)"
    "ie_recovery env = Some (db_recovery same)" "ie_sha env = hash"
    using sql_wired_uses [OF assms(1)] by metis
  obtain ttl' rank' mdb' where w': "ie_recovery env' = Some (db_recovery same)" "ie_sha env' = hash"
    using sql_wired_uses [OF assms(4)] by metis
  obtain u e where l: "db_pending (st_identity st) (ResetToken, ie_sha env (trim_space tok)) = Some (u, e)" "ie_now env < e"
    "12 \<le> length (trim_space pw)" "sql.all_ok hash st'" "sql.alive hash ttl (ie_now env) st' = drop_user u (sql.alive hash ttl (ie_now env) st)"
    "(ResetToken, ie_sha env (trim_space tok)) \<in> db_spent (st_identity st')"
    using sql.reset_ok [OF w(1,3) assms(2) [unfolded sql_ok_all] assms(3)] by metis
  have ne: "trim_space tok \<noteq> []" using assms(3) by (auto simp: reset_password_def seq_iffs split: if_splits)
  have "reset_password env' tok pw' st' = (Inl reset_invalid, st')"
    using l(6) unfolding w(4) w'(2) [symmetric] by (rule sql.reset_again [OF w'(1) l(4) ne assms(5)])
  then show ?thesis using l unfolding w(4) sql_ok_all sql_alive_eq [OF w(2)] by blast
qed

theorem reset_revokes_and_spends_witness:
  "fst (reset_password (wit_env 7) (b64url [1, 2, 3]) ''a long password'' (snd (forgot_password (wit_env 1) ''a@b.c'' wit_in))) = Inr () \<and>
   fst (reset_password (wit_env 8) (b64url [1, 2, 3]) ''x'' (snd (reset_password (wit_env 7) (b64url [1, 2, 3]) ''a long password''
     (snd (forgot_password (wit_env 1) ''a@b.c'' wit_in))))) = Inl reset_invalid"
proof -
  let ?st = "snd (forgot_password (wit_env 1) ''a@b.c'' wit_in)"
  have ok: "sql_ok wit_hash ?st" by (rule sql_forgot_ok [OF wit_wired wit_in_ok])
  have run: "reset_password (wit_env 7) (b64url [1, 2, 3]) ''a long password'' ?st =
     (Inr (), snd (reset_password (wit_env 7) (b64url [1, 2, 3]) ''a long password'' ?st))"
  proof -
    have "fst (reset_password (wit_env 7) (b64url [1, 2, 3]) ''a long password'' ?st) = Inr ()" by code_simp
    then show ?thesis by (metis prod.collapse)
  qed
  have "trim_space ''x'' \<noteq> []" by code_simp
  from reset_revokes_and_spends [OF wit_wired ok run wit_wired this] run show ?thesis by (metis fst_conv)
qed

text \<open>C35: a reset with a password that is too short is refused, but only after the token has been redeemed: the
  user cannot try again with the same link (MySQL wiring).\<close>

theorem short_password_burns_token:
  assumes "sql_wired hash same env" and "sql_ok hash st" and "trim_space tok \<noteq> []" and "trim_space pw \<noteq> []"
    and "length (trim_space pw) < 12"
    and "db_pending (st_identity st) (ResetToken, hash (trim_space tok)) = Some (u, e)" and "ie_now env < e" and "trim_space u \<noteq> []"
    and "sql_wired hash same env'" and "trim_space pw' \<noteq> []"
  shows "fst (reset_password env tok pw st) = Inl (new_http_error 422 CodeInvalidRequest ''new_password must be at least 12 characters'') \<and>
    fst (reset_password env' tok pw' (snd (reset_password env tok pw st))) = Inl reset_invalid"
proof -
  have w: "ie_recovery env = Some (db_recovery same)" "ie_sha env = hash" and w': "ie_recovery env' = Some (db_recovery same)" "ie_sha env' = hash"
    using sql_wired_uses [OF assms(1)] sql_wired_uses [OF assms(9)] by metis+
  obtain st' where r: "reset_password env tok pw st = (Inl (new_http_error 422 CodeInvalidRequest ''new_password must be at least 12 characters''), st')"
      "sql.all_ok hash st'" "(ResetToken, hash (trim_space tok)) \<in> db_spent (st_identity st')"
    using sql.reset_short [OF w(1) assms(2) [unfolded sql_ok_all] assms(3,4,5) _ assms(7,8)] assms(6) unfolding w(2) by blast
  have "reset_password env' tok pw' st' = (Inl reset_invalid, st')"
    using r(3) unfolding w'(2) [symmetric] by (rule sql.reset_again [OF w'(1) r(2) assms(3,10)])
  then show ?thesis by (simp add: r(1))
qed

theorem short_password_burns_token_witness:
  "fst (reset_password (wit_env 7) (b64url [1, 2, 3]) ''short'' (snd (forgot_password (wit_env 1) ''a@b.c'' wit_in))) =
     Inl (new_http_error 422 CodeInvalidRequest ''new_password must be at least 12 characters'') \<and>
   fst (reset_password (wit_env 8) (b64url [1, 2, 3]) ''a long password'' (snd (reset_password (wit_env 7) (b64url [1, 2, 3]) ''short''
     (snd (forgot_password (wit_env 1) ''a@b.c'' wit_in))))) = Inl reset_invalid"
proof -
  let ?st = "snd (forgot_password (wit_env 1) ''a@b.c'' wit_in)"
  have "trim_space (b64url [1, 2, 3]) \<noteq> []" "trim_space ''short'' \<noteq> []" "length (trim_space ''short'') < 12"
    "trim_space ''u1'' \<noteq> []" "trim_space ''a long password'' \<noteq> []"
    "db_pending (st_identity ?st) (ResetToken, wit_hash (trim_space (b64url [1, 2, 3]))) = Some (''u1'', 101)" by code_simp+
  moreover have "ie_now (wit_env 7) < 101" by (simp add: wit_env_def)
  ultimately show ?thesis using short_password_burns_token [OF wit_wired sql_forgot_ok [OF wit_wired wit_in_ok], OF _ _ _ _ _ _ wit_wired]
    by blast
qed

text \<open>C18: the recovery round trip (MySQL wiring): for a known e-mail address and a fresh random token,
  ForgotPassword stores the token and queues a mail whose body carries the link with exactly that token,
  and until the token expires the token in the link, with a password of at least twelve characters,
  sets the bcrypt hash of that user's password and ends the user's sessions.\<close>

theorem forgotten_password_roundtrip:
  assumes w: "sql_wired hash same env" "sql_ok hash st" "sql_wired hash same env'"
    and rnd: "ie_random env = Inr bytes" "octets bytes" "bytes \<noteq> []"
    and e: "trim_space (to_lower email) \<noteq> []" and u: "db_find_email same (trim_space (to_lower email)) (st_identity st) = Inr (Some u)"
    and fresh: "storable (fst (new_uuid (st_ids st))) (hash (b64url bytes)) (st_identity st)" and uid: "trim_space (ru_id u) \<noteq> []"
    and time: "ie_now env' < ie_now env + ie_reset_ttl env" and pw: "12 \<le> length (trim_space pw)" "ie_bcrypt env' pw = Inr h"
  shows "\<exists>st1 st2 pre post. forgot_password env email st = (Inr (), st1) \<and>
    attr_str (reset_mail env u (b64url bytes)) ''body'' = pre @ ''/reset-password?token='' @ b64url bytes @ newline @ post \<and>
    st_outbox st1 = snd (publish sql_outbox \<lparr>ev_id = ig_supply (st_ids st) (Suc (ig_next (st_ids st))), ev_agg_type = ''user'', ev_agg_id = ru_id u,
      ev_type = ''auth.password_reset_requested'', ev_payload = reset_mail env u (b64url bytes), ev_occurred = ie_now env\<rparr> (st_outbox st)) \<and>
    reset_password env' (b64url bytes) pw st1 = (Inr (), st2) \<and>
    id_credentials (st_identity st2) = map (\<lambda>c. if cr_user c = ru_id u \<and> cr_type c = ''password''
      then c\<lparr>cr_hash := h, cr_changed := Some (ie_now env')\<rparr> else c) (id_credentials (st_identity st)) \<and>
    sql_alive env' st2 = drop_user (ru_id u) (sql_alive env' st1)"
proof -
  have wr: "ie_recovery env = Some (db_recovery same)" "ie_sha env = hash" "ie_outbox env = Some sql_outbox"
    and wr': "ie_recovery env' = Some (db_recovery same)" "ie_sha env' = hash" using w unfolding sql_wired_def by auto
  obtain ttl where ses: "ie_sessions env' = table_sessions hash ttl (ie_now env')" using w(3) unfolding sql_wired_def by blast
  let ?tid = "fst (new_uuid (st_ids st))" let ?e = "ie_now env + ie_reset_ttl env" let ?db = "st_identity st"
  let ?row = "reset_row ?tid (ru_id u) (hash (b64url bytes)) ?e"
  let ?db1 = "?db\<lparr>id_resets := id_resets ?db @ [?row]\<rparr>"
  let ?st0 = "st\<lparr>st_ids := snd (new_uuid (st_ids st)), st_identity := ?db1\<rparr>"
  define st1 where st1: "st1 = publish_email env ''auth.password_reset_requested'' (ru_id u) (reset_mail env u (b64url bytes)) ?st0"
  have forgot: "forgot_password env email st = (Inr (), st1)"
    using forgot_stores [OF wr(1) rnd(1) e u] fresh unfolding wr(2) st1 by blast
  have id1: "st_identity st1 = ?db1" and se1: "st_sessions st1 = st_sessions st" unfolding st1 publish_email_frame by simp_all
  have ob1: "st_outbox st1 = snd (publish sql_outbox \<lparr>ev_id = ig_supply (st_ids st) (Suc (ig_next (st_ids st))), ev_agg_type = ''user'', ev_agg_id = ru_id u,
      ev_type = ''auth.password_reset_requested'', ev_payload = reset_mail env u (b64url bytes), ev_occurred = ie_now env\<rparr> (st_outbox st))"
    unfolding st1 publish_email_def wr(3) by (simp add: new_uuid_def)
  have rows: "rows_ok (id_resets ?db)" "db_ok ?db" "table_ok hash (st_sessions st)" using w(2) by (simp_all add: sql_ok_def db_ok_def)
  have store: "store_token (db_recovery same) ResetToken \<lparr>rt_id = ?tid, rt_user = ru_id u, rt_hash = hash (b64url bytes), rt_expires = ?e\<rparr> ?db = (Inr (), ?db1)"
    using db_store_reset_ok [OF fresh found_user_exists [OF u]] by (simp add: store_token_def db_recovery_def)
  have pend: "db_pending ?db1 (ResetToken, hash (b64url bytes)) = Some (ru_id u, ?e)"
  proof -
    have "token_at (id_resets ?db) (hash (b64url bytes)) = None"
      using fresh unfolding storable_def token_at_def find_None_iff list_all_iff by blast
    then show ?thesis by (simp add: db_pending_def token_rows_def token_at_append open_token_def reset_row_def)
  qed
  have ok1: "db_ok ?db1" using db.store_law [OF rows(2) store] by blast
  obtain ci where ci: "consume_token (db_recovery same) ResetToken (hash (b64url bytes)) (ie_now env') ?db1 = (Inr (ru_id u), ci)" "ru_id u \<noteq> []"
    using db.consume_live [OF ok1 pend time] by blast
  then have ci': "db_consume_reset (hash (b64url bytes)) (ie_now env') ?db1 = (Inr (ru_id u), ci)" "id_credentials ci = id_credentials ?db"
    by (auto simp: consume_token_def db_recovery_def db_consume_reset_def split: prod.splits)
  obtain se where se: "so_revoke_user (table_sessions hash ttl (ie_now env')) (ru_id u) ''password_reset'' (st_sessions st) = (Inr (), se)"
    "live (table_sessions hash ttl (ie_now env')) se = drop_user (ru_id u) (live (table_sessions hash ttl (ie_now env')) (st_sessions st))"
    using table.revoke_user_live [OF rows(3)] by blast
  let ?ci2 = "snd (db_update_hash (ru_id u) h (ie_now env') ci)"
  let ?st2 = "st1\<lparr>st_identity := ?ci2, st_sessions := se\<rparr>"
  have "b64url bytes \<noteq> []" using rnd(3) by (simp add: b64url_Nil_iff)
  moreover have "pw \<noteq> []" "trim_space pw \<noteq> []" using pw(1) by auto
  moreover have "redeem reset_invalid (ro_consume_reset (db_recovery same) (hash (b64url bytes)) (ie_now env')) st1 = (Inr (ru_id u), st1\<lparr>st_identity := ci\<rparr>)"
    using ci'(1) uid by (simp add: redeem_def on_identity_def id1 db_recovery_def)
  moreover have "on_identity (ro_update_hash (db_recovery same) (ru_id u) h (ie_now env')) (st1\<lparr>st_identity := ci\<rparr>) = (Inr (), st1\<lparr>st_identity := ?ci2\<rparr>)"
    by (simp add: on_identity_def db_recovery_def db_update_hash_def)
  moreover have "snd (on_sessions (so_revoke_user (ie_sessions env') (ru_id u) ''password_reset'') (st1\<lparr>st_identity := ?ci2\<rparr>)) = ?st2"
    by (simp add: on_sessions_def se(1) se1 ses)
  ultimately have "reset_password env' (b64url bytes) pw st1 = (Inr (), ?st2)"
    by (simp add: reset_password_def b64url_verbatim(2) [OF rnd(2)] wr' pw)
  moreover have "id_credentials (st_identity ?st2) = map (\<lambda>c. if cr_user c = ru_id u \<and> cr_type c = ''password''
      then c\<lparr>cr_hash := h, cr_changed := Some (ie_now env')\<rparr> else c) (id_credentials ?db)" by (simp add: db_update_hash_def ci'(2))
  moreover have "sql_alive env' ?st2 = drop_user (ru_id u) (sql_alive env' st1)" by (simp add: sql_alive_def ses se(2) se1)
  ultimately show ?thesis using forgot ob1 mail_carries_link [OF rnd(2), of env u] by blast
qed

theorem forgotten_password_roundtrip_witness:
  "\<exists>st2. reset_password (wit_env 7) (b64url [1, 2, 3]) ''a long password'' (snd (forgot_password (wit_env 1) ''a@b.c'' wit_in)) = (Inr (), st2) \<and>
     map cr_hash (id_credentials (st_identity st2)) = [''#a long password'']"
proof -
  let ?u = "\<lparr>ru_id = ''u1'', ru_email = ''a@b.c'', ru_name = ''A'', ru_login = ''a@b.c''\<rparr>"
  have e: "trim_space (to_lower ''a@b.c'') \<noteq> []" and id: "trim_space (ru_id ?u) \<noteq> []" and pw: "12 \<le> length (trim_space ''a long password'')"
    and st: "storable (fst (new_uuid (st_ids wit_in))) (wit_hash (b64url [1, 2, 3])) (st_identity wit_in)" and oct: "octets [1, 2, 3]"
    and u: "db_find_email (=) (trim_space (to_lower ''a@b.c'')) (st_identity wit_in) = Inr (Some ?u)" by code_simp+
  have env: "ie_random (wit_env 1) = Inr [1, 2, 3]" "ie_now (wit_env 7) < ie_now (wit_env 1) + ie_reset_ttl (wit_env 1)"
    "ie_bcrypt (wit_env 7) ''a long password'' = Inr ''#a long password''" by (simp_all add: wit_env_def)
  have cr: "id_credentials (st_identity wit_in) = [\<lparr>cr_user = ''u1'', cr_type = ''password'', cr_status = ''active'', cr_hash = ''#old'', cr_changed = None\<rparr>]"
    by code_simp
  obtain st1 st2 where "forgot_password (wit_env 1) ''a@b.c'' wit_in = (Inr (), st1)"
      "reset_password (wit_env 7) (b64url [1, 2, 3]) ''a long password'' st1 = (Inr (), st2)"
      "id_credentials (st_identity st2) = map (\<lambda>c. if cr_user c = ru_id ?u \<and> cr_type c = ''password''
      then c\<lparr>cr_hash := ''#a long password'', cr_changed := Some (ie_now (wit_env 7))\<rparr> else c) (id_credentials (st_identity wit_in))"
    using forgotten_password_roundtrip [OF wit_wired wit_in_ok wit_wired env(1) oct _ e u st id env(2) pw env(3)] by auto
  then show ?thesis unfolding cr by simp
qed

text \<open>Selecting the company a session is already bound to fails over MySQL: the update changes no row and the
  driver reports changed rows, so the request is answered with SESSION_EXPIRED although the session is
  alive; the session is left as it was.\<close>

theorem rebind_same_company_fails:
  assumes "sql_wired hash same env" and "sql_ok hash st" and "sql_alive env st tok = Some (i, u, m, c)"
    and "i \<noteq> []" "u \<noteq> []" "trim_space c \<noteq> []" and "mq_active (ie_members env) u c = Inr (Some v)" and "mv_id v = m" and "mv_company v = c"
    and bound: "list_all (\<lambda>r. sr_id r = i \<longrightarrow> sr_membership r = Some m \<and> sr_company r = Some c) (st_sessions st)"
  shows "bind_company env u i c st = (Inl (WrapErr ''update session context'' session_gone), st)"
proof -
  obtain ttl where ses: "ie_sessions env = table_sessions hash ttl (ie_now env)" using assms(1) by (auto simp: sql_wired_def)
  let ?P = "\<lambda>r. sr_id r = i \<and> sr_revoked r = None" let ?f = "\<lambda>r. r\<lparr>sr_membership := Some m, sr_company := Some c\<rparr>"
  have same: "?f r = r" if "r \<in> set (st_sessions st)" "?P r" for r
    using bound that unfolding list_all_iff by (cases r) auto
  have "filter (\<lambda>r. ?P r \<and> ?f r \<noteq> r) (st_sessions st) = []" unfolding filter_empty_conv using same by blast
  moreover have "map (\<lambda>r. if ?P r then ?f r else r) (st_sessions st) = st_sessions st" using same by (intro map_idI) auto
  ultimately have "table_update i m c (st_sessions st) = (Inl session_gone, st_sessions st)"
    by (simp only: table_update_def sql_update_def expect_changed_def fst_conv snd_conv list.size refl if_True)
  then have "on_sessions (so_update (ie_sessions env) i (mv_id v) (mv_company v)) st = (Inl session_gone, st)"
    by (simp add: on_sessions_def ses table_ops assms)
  then show ?thesis using assms(4-7) by (simp add: bind_company_def seqE_lift seqE_def wrapE_def)
qed

theorem rebind_same_company_fails_witness:
  "fst (bind_company (wit_env 1) ''u1'' ''id'' ''c1'' wit_in) = Inl (WrapErr ''update session context'' session_gone)"
proof -
  have "sql_alive (wit_env 1) wit_in ''rtk_id'' = Some (''id'', ''u1'', ''m1'', ''c1'')" "trim_space ''c1'' \<noteq> []"
    "mq_active (ie_members (wit_env 1)) ''u1'' ''c1'' = Inr (Some \<lparr>mv_id = ''m1'', mv_user = ''u1'', mv_company = ''c1'', mv_name = ''One'', mv_status = ''active''\<rparr>)"
    "list_all (\<lambda>r. sr_id r = ''id'' \<longrightarrow> sr_membership r = Some ''m1'' \<and> sr_company r = Some ''c1'') (st_sessions wit_in)" by code_simp+
  from rebind_same_company_fails [OF wit_wired wit_in_ok this(1) _ _ this(2,3) _ _ this(4)] show ?thesis by simp
qed

text \<open>The in-memory sessions do not look at revocation when the context changes: after a logout the session
  can still be bound to a company, and a valid access token for it is issued; the MySQL update refuses.\<close>

theorem revoked_session_switches:
  assumes "memory_wired env" and "memory_ok st" and "heap_alive st tok = Some (i, u, m, c)" and "trim_space tok \<noteq> []"
    and "i \<noteq> []" "u \<noteq> []" "trim_space c' \<noteq> []" and "mq_active (ie_members env) u c' = Inr (Some v)"
  shows "\<exists>resp st2. heap_alive (snd (logout env tok st)) tok = None \<and>
    bind_company env u i c' (snd (logout env tok st)) = (Inr resp, st2) \<and>
    opaque_inspect_access (br_access resp) (st_tokens st2) =
      Inr \<lparr>ac_sub = u, ac_session = i, ac_membership = mv_id v, ac_company = c'\<rparr>"
proof -
  note uses = assms(1) [unfolded memory_wired_uses]
  let ?st = "snd (logout env tok st)"
  have env: "ie_sessions env = heap_sessions id_order" "ie_tokens env = opaque_ops" "ie_members env = fixture_query seed_members"
    using assms(1) by (auto simp: memory_wired_def)
  have l: "memory.parts_ok ?st" "memory.alive ?st = (memory.alive st)(tok := None)" "?st = st\<lparr>st_sessions := st_sessions ?st\<rparr>"
    using memory.logout_step [OF uses assms(2) [unfolded memory_ok_parts] assms(4) prod.collapse [symmetric]] by blast+
  obtain a where a: "sh_by_id (st_sessions st) i = Some a"
    using heap_token_cell [of "st_sessions st" id_order tok "(i, u, m, c)"] assms(2,3) by (metis fst_conv heap_alive_def memory_ok_def)
  have "st_sessions ?st = snd (heap_revoke_token tok (st_sessions st))"
    using assms(4) by (simp add: logout_def on_sessions_def env heap_ops split: prod.split)
  then have "sh_by_id (st_sessions ?st) i = Some a" using a by (simp add: heap_maps_kept)
  then have up: "fst (heap_update i (mv_id v) (mv_company v) (st_sessions ?st)) = Inr ()" by (simp add: heap_update_def)
  have v: "mv_company v = c'" using seeded.active_law assms(8) unfolding env by blast
  have "\<not> isl (fst (bind_company env u i c' ?st))"
    using up assms(5-8) unfolding bind_company_def
    by (simp add: seqE_lift seqE_def wrapE_def on_sessions_def on_tokens_def env heap_ops opaque_ops_def opaque_issue_access_def
        split: prod.split sum.split) (metis fst_conv sum.distinct(1))
  then obtain resp st2 where r: "bind_company env u i c' ?st = (Inr resp, st2)" by (metis run_projr)
  have "to_inspect_access opaque_ops (br_access resp) (st_tokens st2) =
      Inr \<lparr>ac_sub = u, ac_session = i, ac_membership = br_membership resp, ac_company = c'\<rparr>"
    using memory.bind_step [OF uses l(1) r] by blast
  moreover have "br_membership resp = mv_id v"
    using r assms(5-8) unfolding bind_company_def by (auto simp: seqE_lift seq_iffs split: if_splits)
  ultimately show ?thesis using r l(2) by (auto simp: heap_alive_parts opaque_ops_def)
qed

theorem revoked_session_switches_witness:
  "\<exists>resp. fst (bind_company (memory_env (\<lambda>_. [])) ''u_single'' ''id'' ''c_010'' (snd (logout (memory_env (\<lambda>_. [])) ''rtk_id''
     (snd (login (memory_env (\<lambda>_. [])) (wit_login\<lparr>lr_login := ''single@example.com'', lr_password := ''secret''\<rparr>) memory_start))))) = Inr resp"
proof -
  let ?st = "snd (login (memory_env (\<lambda>_. [])) (wit_login\<lparr>lr_login := ''single@example.com'', lr_password := ''secret''\<rparr>) memory_start)"
  have ok: "memory_ok ?st"
    using memory.login_step [OF _ _ prod.collapse [symmetric]] memory_start_ok memory_env_wired
    unfolding memory_ok_parts memory_wired_uses by blast
  have "heap_alive ?st ''rtk_id'' = Some (''id'', ''u_single'', ''m_010'', ''c_010'')" "trim_space ''rtk_id'' \<noteq> []" "trim_space ''c_010'' \<noteq> []"
    "mq_active (ie_members (memory_env (\<lambda>_. []))) ''u_single'' ''c_010'' = Inr (Some (member ''m_010'' ''u_single'' ''c_010'' ''Solo Company''))"
    by code_simp+
  from revoked_session_switches [OF memory_env_wired ok this(1,2) _ _ this(3,4)] show ?thesis by (metis fst_conv list.distinct(1))
qed

end
