(* ===== verification/TemplateSync.thy ===== *)
theory TemplateSync
  imports HttpErrors
begin

section \<open>Disclosure templates: the contract and the synchronisation of its blocks\<close>

text \<open>
  Models the template half of \<^verbatim>\<open>internal/disclosure/app/contracts.go\<close>,
  \<^verbatim>\<open>template_mandatory_blocks.go\<close> and \<^verbatim>\<open>template_flat_block_sync.go\<close>. A
  template has flat narrative columns and a matrix of blocks; six blocks are mandatory and mirror
  six of the columns. The synchronisation puts the mandatory blocks first, numbers all of them and
  copies their descriptions back to the columns. A \<open>nil\<close> map of a block is the empty one.
\<close>

subsection \<open>Contract\<close>

record template_block =
  tb_id :: string
  tb_key :: string
  tb_type :: string
  tb_title :: string
  tb_description :: string
  tb_config :: attrs
  tb_validation :: attrs
  tb_order :: int
  tb_enabled :: bool

record legal_basis_item =
  lb_id :: string
  lb_title :: string
  lb_code :: string
  lb_authority :: string
  lb_issue_date :: string
  lb_summary :: string
  lb_link :: string

record checklist_item =
  ci_id :: string
  ci_title :: string
  ci_owner :: string
  ci_due :: string
  ci_status :: string

text \<open>The fields the upsert request and the stored type have in common.\<close>

record type_body =
  ty_id :: string
  ty_group :: string
  ty_name :: string
  ty_category :: string
  ty_template_category :: string
  ty_deadline_strategy :: string
  ty_description :: string
  ty_legal_basis :: string
  ty_applicability :: string
  ty_impl_content :: string
  ty_impl_notes :: string
  ty_special_cases :: string
  ty_report_content :: string
  ty_required_docs :: string
  ty_deadline_rule :: string
  ty_periodicity :: string
  ty_channels :: string
  ty_beneficiaries :: string
  ty_authorities :: string
  ty_format :: string
  ty_legal_risks :: string
  ty_general_info :: string
  ty_reminders :: "string list"
  ty_legal_bases :: "legal_basis_item list"
  ty_checklist :: "checklist_item list"
  ty_tags :: "string list"
  ty_blocks :: "template_block list"

subsection \<open>The synchronisation\<close>

definition mandatory_keys :: "string list" where
  "mandatory_keys = [''legal_basis'', ''disclosure_content'', ''deadline'', ''channels_and_format'',
     ''legal_risks'', ''enterprise_workflow'']"

definition block_key :: "template_block \<Rightarrow> string" where
  "block_key b = to_lower (trim_space (tb_key b))"

definition any_flat :: "'a type_body_scheme \<Rightarrow> bool" where
  "any_flat req = (trim_space (ty_legal_basis req) \<noteq> [] \<or> trim_space (ty_report_content req) \<noteq> [] \<or>
     trim_space (ty_deadline_rule req) \<noteq> [] \<or> trim_space (ty_channels req) \<noteq> [] \<or>
     trim_space (ty_format req) \<noteq> [] \<or> trim_space (ty_legal_risks req) \<noteq> [] \<or>
     trim_space (ty_impl_content req) \<noteq> [])"

definition channels_and_format :: "'a type_body_scheme \<Rightarrow> string" where
  "channels_and_format req = join [CHR 0x0A]
     ((if trim_space (ty_channels req) \<noteq> [] then [trim_space (ty_channels req)] else []) @
      (if trim_space (ty_format req) \<noteq> [] then [''Format: '' @ trim_space (ty_format req)] else []))"

definition flat_string :: "string \<Rightarrow> 'a type_body_scheme \<Rightarrow> string" where
  "flat_string mk req =
    (if mk = ''legal_basis'' then ty_legal_basis req
     else if mk = ''disclosure_content'' then ty_report_content req
     else if mk = ''deadline'' then ty_deadline_rule req
     else if mk = ''channels_and_format'' then channels_and_format req
     else if mk = ''legal_risks'' then ty_legal_risks req
     else if mk = ''enterprise_workflow'' then ty_impl_content req
     else [])"

definition mandatory_shape :: "string \<Rightarrow> string \<times> string \<times> attrs" where
  "mandatory_shape mk =
    (if mk = ''legal_basis'' then
       (''C'' @ [CHR 0xC6, CHR 0xA1] @ '' s'' @ [CHR 0xE1, CHR 0xBB, CHR 0x9F] @ '' ph'' @ [CHR 0xC3, CHR 0xA1] @ ''p l'' @ [CHR 0xC3, CHR 0xBD],
        ''rich_text'', [(''max_length'', AInt 8000), (''allow_html'', ABool False)])
     else if mk = ''disclosure_content'' then
       (''N'' @ [CHR 0xE1, CHR 0xBB, CHR 0x99] @ ''i dung c'' @ [CHR 0xC3, CHR 0xB4] @ ''ng b'' @ [CHR 0xE1, CHR 0xBB, CHR 0x91] @ ''/b'' @ [CHR 0xC3, CHR 0xA1] @ ''o c'' @ [CHR 0xC3, CHR 0xA1] @ ''o'',
        ''rich_text'', [(''max_length'', AInt 50000), (''allow_html'', ABool True)])
     else if mk = ''deadline'' then
       (''K'' @ [CHR 0xE1, CHR 0xBB, CHR 0xB3] @ '' h'' @ [CHR 0xE1, CHR 0xBA, CHR 0xA1] @ ''n c'' @ [CHR 0xC3, CHR 0xB4] @ ''ng b'' @ [CHR 0xE1, CHR 0xBB, CHR 0x91] @ ''/b'' @ [CHR 0xC3, CHR 0xA1] @ ''o c'' @ [CHR 0xC3, CHR 0xA1] @ ''o'',
        ''text'', [(''max_length'', AInt 4000)])
     else if mk = ''channels_and_format'' then
       (''K'' @ [CHR 0xC3, CHR 0xAA] @ ''nh v'' @ [CHR 0xC3, CHR 0xA0] @ '' h'' @ [CHR 0xC3, CHR 0xAC] @ ''nh th'' @ [CHR 0xE1, CHR 0xBB, CHR 0xA9] @ ''c c'' @ [CHR 0xC3, CHR 0xB4] @ ''ng b'' @ [CHR 0xE1, CHR 0xBB, CHR 0x91] @ ''/b'' @ [CHR 0xC3, CHR 0xA1] @ ''o c'' @ [CHR 0xC3, CHR 0xA1] @ ''o'',
        ''rich_text'', [(''max_length'', AInt 12000), (''allow_html'', ABool False)])
     else if mk = ''legal_risks'' then
       (''R'' @ [CHR 0xE1, CHR 0xBB, CHR 0xA7] @ ''i ro ph'' @ [CHR 0xC3, CHR 0xA1] @ ''p l'' @ [CHR 0xC3, CHR 0xBD] @ '' n'' @ [CHR 0xE1, CHR 0xBA, CHR 0xBF] @ ''u kh'' @ [CHR 0xC3, CHR 0xB4] @ ''ng th'' @ [CHR 0xE1, CHR 0xBB, CHR 0xB1] @ ''c hi'' @ [CHR 0xE1, CHR 0xBB, CHR 0x87] @ ''n '' @ [CHR 0xC4, CHR 0x91, CHR 0xC3, CHR 0xBA] @ ''ng'',
        ''rich_text'', [(''max_length'', AInt 8000), (''allow_html'', ABool False)])
     else if mk = ''enterprise_workflow'' then
       (''Workflow c'' @ [CHR 0xE1, CHR 0xBB, CHR 0xA7] @ ''a doanh nghi'' @ [CHR 0xE1, CHR 0xBB, CHR 0x87] @ ''p'',
        ''rich_text'', [(''max_length'', AInt 12000), (''allow_html'', ABool True)])
     else (mk, ''text'', []))"

definition new_mandatory_block :: "string \<Rightarrow> 'a type_body_scheme \<Rightarrow> int \<Rightarrow> idgen \<Rightarrow> template_block \<times> idgen" where
  "new_mandatory_block mk req ord g =
    (let (title, bt, cfg) = mandatory_shape mk; (uuid, g') = new_uuid g in
     (\<lparr>tb_id = uuid, tb_key = mk, tb_type = bt, tb_title = title,
       tb_description = trim_space (flat_string mk req), tb_config = cfg, tb_validation = [],
       tb_order = ord, tb_enabled = True\<rparr>, g'))"

fun materialize :: "string list \<Rightarrow> 'a type_body_scheme \<Rightarrow> int \<Rightarrow> idgen \<Rightarrow> template_block list \<times> idgen" where
  "materialize [] req ord g = ([], g)"
| "materialize (mk # mks) req ord g =
    (let (b, g1) = new_mandatory_block mk req ord g; (bs, g2) = materialize mks req (ord + 1) g1 in (b # bs, g2))"

definition ensure_blocks :: "'a type_body_scheme \<Rightarrow> idgen \<Rightarrow> 'a type_body_scheme \<times> idgen" where
  "ensure_blocks req g =
    (if ty_blocks req \<noteq> [] \<or> \<not> any_flat req then (req, g)
     else let (bs, g') = materialize mandatory_keys req 1 g in (req\<lparr>ty_blocks := bs\<rparr>, g'))"

fun has_duplicate_keys :: "string list \<Rightarrow> template_block list \<Rightarrow> bool" where
  "has_duplicate_keys seen [] = False"
| "has_duplicate_keys seen (b # bs) =
    (if block_key b = [] then has_duplicate_keys seen bs
     else if List.member seen (block_key b) then True
     else has_duplicate_keys (block_key b # seen) bs)"

definition is_mandatory_key :: "string \<Rightarrow> bool" where
  "is_mandatory_key k = List.member mandatory_keys (to_lower (trim_space k))"

text \<open>A map from keys to blocks filled in order: the last block of a key is the one found.\<close>

fun by_key :: "template_block list \<Rightarrow> string \<Rightarrow> template_block option" where
  "by_key [] k = None"
| "by_key (b # bs) k = (case by_key bs k of Some c \<Rightarrow> Some c | None \<Rightarrow> if block_key b = k then Some b else None)"

definition extra_blocks :: "template_block list \<Rightarrow> template_block list" where
  "extra_blocks bs = filter (\<lambda>b. block_key b \<noteq> [] \<and> \<not> is_mandatory_key (block_key b)) bs"

definition apply_flat :: "string \<Rightarrow> template_block \<Rightarrow> 'a type_body_scheme \<Rightarrow> template_block" where
  "apply_flat mk b req = (if trim_space (flat_string mk req) = [] then b
     else b\<lparr>tb_description := flat_string mk req\<rparr>)"

definition with_id :: "template_block \<Rightarrow> idgen \<Rightarrow> template_block \<times> idgen" where
  "with_id b g = (if trim_space (tb_id b) = [] then let (uuid, g') = new_uuid g in (b\<lparr>tb_id := uuid\<rparr>, g') else (b, g))"

fun place_mandatory :: "string list \<Rightarrow> 'a type_body_scheme \<Rightarrow> int \<Rightarrow> idgen \<Rightarrow> template_block list \<times> idgen" where
  "place_mandatory [] req ord g = ([], g)"
| "place_mandatory (mk # mks) req ord g =
    (let (b, g1) = (case by_key (ty_blocks req) mk of
            None \<Rightarrow> new_mandatory_block mk req ord g
          | Some b \<Rightarrow> with_id (apply_flat mk b req) g);
         (bs, g2) = place_mandatory mks req (ord + 1) g1
     in (b\<lparr>tb_order := ord\<rparr> # bs, g2))"

fun place_extras :: "template_block list \<Rightarrow> int \<Rightarrow> idgen \<Rightarrow> template_block list \<times> idgen" where
  "place_extras [] ord g = ([], g)"
| "place_extras (b # bs) ord g =
    (let (b', g1) = with_id b g; (bs', g2) = place_extras bs (ord + 1) g1 in (b'\<lparr>tb_order := ord\<rparr> # bs', g2))"

definition rebuild_blocks :: "'a type_body_scheme \<Rightarrow> idgen \<Rightarrow> 'a type_body_scheme \<times> idgen" where
  "rebuild_blocks req g =
    (if has_duplicate_keys [] (ty_blocks req) then (req, g)
     else let (ms, g1) = place_mandatory mandatory_keys req 1 g;
              (es, g2) = place_extras (extra_blocks (ty_blocks req)) (1 + int (length mandatory_keys)) g1
          in (req\<lparr>ty_blocks := ms @ es\<rparr>, g2))"

definition set_flat :: "string \<Rightarrow> string \<Rightarrow> 'a type_body_scheme \<Rightarrow> 'a type_body_scheme" where
  "set_flat mk d req =
    (if mk = ''legal_basis'' then req\<lparr>ty_legal_basis := d\<rparr>
     else if mk = ''disclosure_content'' then req\<lparr>ty_report_content := d\<rparr>
     else if mk = ''deadline'' then req\<lparr>ty_deadline_rule := d\<rparr>
     else if mk = ''channels_and_format'' then req\<lparr>ty_channels := d\<rparr>
     else if mk = ''legal_risks'' then req\<lparr>ty_legal_risks := d\<rparr>
     else if mk = ''enterprise_workflow'' then req\<lparr>ty_impl_content := d\<rparr>
     else req)"

definition mirror_step :: "template_block list \<Rightarrow> string \<Rightarrow> 'a type_body_scheme \<Rightarrow> 'a type_body_scheme" where
  "mirror_step bs mk req = (case by_key bs mk of None \<Rightarrow> req | Some b \<Rightarrow> set_flat mk (trim_space (tb_description b)) req)"

definition mirror_flat :: "'a type_body_scheme \<Rightarrow> 'a type_body_scheme" where
  "mirror_flat req = fold (mirror_step (ty_blocks req)) mandatory_keys req"

definition sync_template :: "'a type_body_scheme \<Rightarrow> idgen \<Rightarrow> 'a type_body_scheme \<times> idgen" where
  "sync_template req g =
    (let (req1, g1) = ensure_blocks req g in
     if ty_blocks req1 = [] then (req1, g1)
     else let (req2, g2) = rebuild_blocks req1 g1 in (mirror_flat req2, g2))"

subsection \<open>Facts about the synchronisation\<close>

lemma mandatory_key_normal: "mk \<in> set mandatory_keys \<Longrightarrow> to_lower (trim_space mk) = mk \<and> mk \<noteq> []"
proof -
  have "list_all (\<lambda>mk. to_lower (trim_space mk) = mk \<and> mk \<noteq> []) mandatory_keys" by code_simp
  then show "mk \<in> set mandatory_keys \<Longrightarrow> to_lower (trim_space mk) = mk \<and> mk \<noteq> []" by (simp add: list_all_iff)
qed

lemma distinct_mandatory_keys: "distinct mandatory_keys" "length mandatory_keys = 6"
  by code_simp+

lemma block_key_order [simp]: "block_key (b\<lparr>tb_order := n\<rparr>) = block_key b" "block_key (b\<lparr>tb_id := i\<rparr>) = block_key b"
  "block_key (b\<lparr>tb_description := d\<rparr>) = block_key b"
  by (simp_all add: block_key_def)

lemma block_key_apply_flat [simp]: "block_key (apply_flat mk b req) = block_key b"
  by (simp add: apply_flat_def)

lemma with_id_facts: "with_id b g = (b', g') \<Longrightarrow> fresh_ids g \<Longrightarrow>
  block_key b' = block_key b \<and> tb_id b' \<noteq> [] \<and> tb_description b' = tb_description b \<and> fresh_ids g'"
  by (auto simp: with_id_def new_uuid_def fresh_ids_nonempty split: if_splits)

lemma new_mandatory_facts: "new_mandatory_block mk req ord g = (b, g') \<Longrightarrow> fresh_ids g \<Longrightarrow>
  tb_key b = mk \<and> tb_id b \<noteq> [] \<and> tb_description b = trim_space (flat_string mk req) \<and> tb_order b = ord \<and> fresh_ids g'"
  by (auto simp: new_mandatory_block_def new_uuid_def fresh_ids_nonempty split: prod.splits)

lemma by_key_Some: "by_key bs k = Some b \<Longrightarrow> b \<in> set bs \<and> block_key b = k"
  by (induction bs) (auto split: option.splits if_splits)

lemma by_key_None: "by_key bs k = None \<longleftrightarrow> k \<notin> block_key ` set bs"
  by (induction bs) (auto split: option.splits)

lemma by_key_append: "by_key (bs @ cs) k = (case by_key cs k of Some c \<Rightarrow> Some c | None \<Rightarrow> by_key bs k)"
  by (induction bs) (auto split: option.splits)

lemma by_key_distinct: "distinct (map block_key bs) \<Longrightarrow> b \<in> set bs \<Longrightarrow> by_key bs (block_key b) = Some b"
  by (cases "by_key bs (block_key b)") (auto simp: by_key_None distinct_map inj_on_def dest!: by_key_Some)

lemma no_duplicates: "\<not> has_duplicate_keys seen bs \<Longrightarrow>
  distinct (filter (\<lambda>k. k \<noteq> []) (map block_key bs)) \<and> set seen \<inter> (block_key ` set bs - {[]}) = {}"
proof (induction seen bs rule: has_duplicate_keys.induct)
  case (2 seen b bs)
  then show ?case by (auto split: if_splits)
qed simp

lemma distinct_no_duplicates: "distinct (map block_key bs) \<Longrightarrow> set seen \<inter> block_key ` set bs = {} \<Longrightarrow>
  \<not> has_duplicate_keys seen bs"
  by (induction seen bs rule: has_duplicate_keys.induct) auto

lemma upto_step: "m + int (Suc n) - 1 = m + 1 + int n - 1" "[m..m + int n] = m # [m + 1..m + int n]"
  by (simp_all add: upto_rec1)

text \<open>The blocks placed from an order on: their keys, their numbers and their identifiers.\<close>

definition placed :: "string list \<Rightarrow> int \<Rightarrow> template_block list \<Rightarrow> bool" where
  "placed ks ord bs \<longleftrightarrow> map block_key bs = ks \<and> map tb_order bs = [ord..ord + int (length ks) - 1] \<and>
     list_all (\<lambda>b. tb_id b \<noteq> []) bs"

lemma placed_Nil [simp]: "placed [] ord []"
  by (simp add: placed_def)

lemma placed_Cons: "placed ks (ord + 1) bs \<Longrightarrow> tb_id b \<noteq> [] \<Longrightarrow> placed (block_key b # ks) ord (b\<lparr>tb_order := ord\<rparr> # bs)"
  by (simp add: placed_def upto_step(2) add.commute)

lemma placed_append:
  assumes "placed ks ord bs" and "placed ls (ord + int (length ks)) cs"
  shows "placed (ks @ ls) ord (bs @ cs)"
proof (cases "ls = []")
  case False
  then have "0 < length ls" by simp
  then have "1 \<le> int (length ls)" by linarith
  with False have "[ord..ord + int (length ks) + int (length ls) - 1] =
    [ord..ord + int (length ks) - 1] @ [ord + int (length ks)..ord + int (length ks) + int (length ls) - 1]"
    by (intro upto_split1) simp_all
  with assms show ?thesis by (simp add: placed_def add.assoc)
next
  case True
  with assms show ?thesis by (auto simp: placed_def)
qed

lemma place_mandatory_placed:
  "place_mandatory mks req ord g = (bs, g') \<Longrightarrow> set mks \<subseteq> set mandatory_keys \<Longrightarrow> fresh_ids g \<Longrightarrow>
    placed mks ord bs \<and> fresh_ids g'"
proof (induction mks arbitrary: ord g bs)
  case (Cons mk mks)
  define bg where "bg = (case by_key (ty_blocks req) mk of None \<Rightarrow> new_mandatory_block mk req ord g
    | Some b \<Rightarrow> with_id (apply_flat mk b req) g)"
  obtain b g1 where b: "bg = (b, g1)" by (cases bg)
  with Cons.prems obtain bs' where bs': "place_mandatory mks req (ord + 1) g1 = (bs', g')"
    and bs: "bs = b\<lparr>tb_order := ord\<rparr> # bs'" by (auto simp: bg_def split: prod.splits)
  have "block_key b = mk \<and> tb_id b \<noteq> [] \<and> fresh_ids g1"
  proof (cases "by_key (ty_blocks req) mk")
    case None
    with b Cons.prems mandatory_key_normal [of mk] show ?thesis
      by (auto simp: bg_def block_key_def dest!: new_mandatory_facts)
  next
    case (Some c)
    with b Cons.prems(3) by_key_Some [OF Some] show ?thesis
      by (auto simp: bg_def dest!: with_id_facts)
  qed
  with Cons.IH [OF bs'] Cons.prems(2) bs placed_Cons [of mks ord bs' b] show ?case by auto
qed simp

lemma place_extras_placed:
  "place_extras es ord g = (bs, g') \<Longrightarrow> fresh_ids g \<Longrightarrow> placed (map block_key es) ord bs \<and> fresh_ids g'"
proof (induction es arbitrary: ord g bs)
  case (Cons b es)
  obtain b1 g1 where b: "with_id b g = (b1, g1)" by (cases "with_id b g")
  with Cons.prems obtain bs' where bs': "place_extras es (ord + 1) g1 = (bs', g')"
    and bs: "bs = b1\<lparr>tb_order := ord\<rparr> # bs'" by (auto split: prod.splits)
  with Cons.IH [OF bs'] with_id_facts [OF b Cons.prems(2)] placed_Cons [of _ ord bs' b1] show ?case by auto
qed simp

lemma extra_key_not_mandatory: "b \<in> set (extra_blocks bs) \<Longrightarrow> block_key b \<noteq> [] \<and> block_key b \<notin> set mandatory_keys"
  using mandatory_key_normal by (fastforce simp: extra_blocks_def is_mandatory_key_def)

lemma distinct_extra_keys:
  assumes "\<not> has_duplicate_keys [] bs"
  shows "distinct (mandatory_keys @ map block_key (extra_blocks bs))"
proof -
  have "distinct (filter (\<lambda>k. \<not> is_mandatory_key k) (filter (\<lambda>k. k \<noteq> []) (map block_key bs)))"
    by (rule distinct_filter) (rule no_duplicates [OF assms, THEN conjunct1])
  then have "distinct (map block_key (extra_blocks bs))" by (simp add: filter_map extra_blocks_def o_def)
  then show ?thesis using extra_key_not_mandatory [of _ bs] by (auto simp: distinct_mandatory_keys)
qed

lemma rebuild_placed:
  assumes "rebuild_blocks req g = (r, g')" and "\<not> has_duplicate_keys [] (ty_blocks req)" and "fresh_ids g"
  shows "placed (mandatory_keys @ map block_key (extra_blocks (ty_blocks req))) 1 (ty_blocks r) \<and> fresh_ids g'"
proof -
  obtain ms g1 where ms: "place_mandatory mandatory_keys req 1 g = (ms, g1)"
    by (cases "place_mandatory mandatory_keys req 1 g")
  obtain es where es: "place_extras (extra_blocks (ty_blocks req)) (1 + int (length mandatory_keys)) g1 = (es, g')"
    and r: "r = req\<lparr>ty_blocks := ms @ es\<rparr>"
    using assms(1,2) ms by (auto simp: rebuild_blocks_def split: prod.splits)
  have ms': "placed mandatory_keys 1 ms \<and> fresh_ids g1" by (rule place_mandatory_placed [OF ms]) (use assms in simp_all)
  have "placed (map block_key (extra_blocks (ty_blocks req))) (1 + int (length mandatory_keys)) es \<and> fresh_ids g'"
    using ms' by (intro place_extras_placed [OF es]) simp
  with ms' r show ?thesis by (simp add: placed_append)
qed

lemma materialize_keys:
  "materialize mks req ord g = (bs, g') \<Longrightarrow> set mks \<subseteq> set mandatory_keys \<Longrightarrow> fresh_ids g \<Longrightarrow>
    map block_key bs = mks \<and> fresh_ids g'"
proof (induction mks arbitrary: ord g bs)
  case (Cons mk mks)
  obtain b g1 where b: "new_mandatory_block mk req ord g = (b, g1)" by (cases "new_mandatory_block mk req ord g")
  with Cons.prems obtain bs' where "materialize mks req (ord + 1) g1 = (bs', g')" and "bs = b # bs'"
    by (auto split: prod.splits)
  with Cons.IH [of "ord + 1" g1 bs'] new_mandatory_facts [OF b Cons.prems(3)] Cons.prems(2) mandatory_key_normal [of mk]
  show ?case by (auto simp: block_key_def)
qed simp

lemma extra_blocks_materialized: "map block_key bs = mandatory_keys \<Longrightarrow> extra_blocks bs = []"
proof -
  assume "map block_key bs = mandatory_keys"
  then have "set (map block_key bs) = set mandatory_keys" by simp
  then have k: "block_key ` set bs = set mandatory_keys" by simp
  have False if "b \<in> set (extra_blocks bs)" for b
  proof -
    from that have "b \<in> set bs" by (simp add: extra_blocks_def)
    with k have "block_key b \<in> set mandatory_keys" by blast
    with extra_key_not_mandatory [OF that] show False by simp
  qed
  then show "extra_blocks bs = []" by (metis list.set_sel(1))
qed

lemma ensure_blocks_facts:
  assumes "ensure_blocks req g = (r, g')" and "\<not> has_duplicate_keys [] (ty_blocks req)" and "fresh_ids g"
    and "ty_blocks req \<noteq> [] \<or> any_flat req"
  shows "ty_blocks r \<noteq> [] \<and> \<not> has_duplicate_keys [] (ty_blocks r) \<and> fresh_ids g' \<and>
    extra_blocks (ty_blocks r) = extra_blocks (ty_blocks req) \<and> r = req\<lparr>ty_blocks := ty_blocks r\<rparr>"
proof (cases "ty_blocks req = []")
  case True
  then obtain bs where bs: "materialize mandatory_keys req 1 g = (bs, g')" and r: "r = req\<lparr>ty_blocks := bs\<rparr>"
    using assms(1,4) by (auto simp: ensure_blocks_def split: prod.splits)
  have k: "map block_key bs = mandatory_keys \<and> fresh_ids g'"
    by (rule materialize_keys [OF bs]) (use assms(3) in simp_all)
  then have "bs \<noteq> []" by (auto simp: mandatory_keys_def)
  moreover have "\<not> has_duplicate_keys [] bs"
    using k distinct_mandatory_keys(1) by (intro distinct_no_duplicates) simp_all
  moreover have "extra_blocks bs = []" using k by (simp add: extra_blocks_materialized)
  ultimately show ?thesis using k r True by (simp add: extra_blocks_def)
next
  case False
  with assms show ?thesis by (auto simp: ensure_blocks_def)
qed

text \<open>The column of a mandatory block.\<close>

definition column :: "string \<Rightarrow> 'a type_body_scheme \<Rightarrow> string" where
  "column mk req = (if mk = ''channels_and_format'' then ty_channels req else flat_string mk req)"

lemma ty_blocks_set_flat [simp]: "ty_blocks (set_flat mk d req) = ty_blocks req"
  by (simp add: set_flat_def)

lemma ty_format_set_flat [simp]: "ty_format (set_flat mk d req) = ty_format req"
  by (simp add: set_flat_def)

lemma mirror_step_simps [simp]: "ty_blocks (mirror_step bs mk req) = ty_blocks req" "ty_format (mirror_step bs mk req) = ty_format req"
  by (simp_all add: mirror_step_def split: option.split)

lemma fold_mirror_step [simp]: "ty_blocks (fold (mirror_step bs) mks req) = ty_blocks req"
  "ty_format (fold (mirror_step bs) mks req) = ty_format req"
  by (induction mks arbitrary: req) simp_all

lemma ty_mirror_flat [simp]: "ty_blocks (mirror_flat req) = ty_blocks req" "ty_format (mirror_flat req) = ty_format req"
  by (simp_all add: mirror_flat_def)

lemma column_set_flat: "mk \<in> set mandatory_keys \<Longrightarrow> nk \<in> set mandatory_keys \<Longrightarrow>
  column nk (set_flat mk d req) = (if nk = mk then d else column nk req)"
  by (auto simp: mandatory_keys_def column_def set_flat_def flat_string_def)

lemma column_mirror_step: "mk \<in> set mandatory_keys \<Longrightarrow> nk \<in> set mandatory_keys \<Longrightarrow>
  column nk (mirror_step bs mk req) = (case by_key bs mk of None \<Rightarrow> column nk req
    | Some b \<Rightarrow> if nk = mk then trim_space (tb_description b) else column nk req)"
  by (simp add: mirror_step_def column_set_flat split: option.split)

lemma column_fold_mirror: "nk \<in> set mandatory_keys \<Longrightarrow> set mks \<subseteq> set mandatory_keys \<Longrightarrow> by_key bs nk = Some b \<Longrightarrow>
  column nk (fold (mirror_step bs) mks req) = (if nk \<in> set mks then trim_space (tb_description b) else column nk req)"
  by (induction mks arbitrary: req) (auto simp: column_mirror_step split: option.splits)

lemma column_mirror_flat: "nk \<in> set mandatory_keys \<Longrightarrow> by_key (ty_blocks req) nk = Some b \<Longrightarrow>
  column nk (mirror_flat req) = trim_space (tb_description b)"
  by (simp add: mirror_flat_def column_fold_mirror)

lemma sync_decompose:
  assumes "sync_template req g = (r, g')" and "\<not> has_duplicate_keys [] (ty_blocks req)" and "fresh_ids g"
    and "ty_blocks req \<noteq> [] \<or> any_flat req"
  obtains r1 g1 r2 where "ensure_blocks req g = (r1, g1)" and "rebuild_blocks r1 g1 = (r2, g')"
    and "r = mirror_flat r2" and "fresh_ids g'"
    and "placed (mandatory_keys @ map block_key (extra_blocks (ty_blocks req))) 1 (ty_blocks r2)"
proof -
  obtain r1 g1 where e: "ensure_blocks req g = (r1, g1)" by (cases "ensure_blocks req g")
  note f = ensure_blocks_facts [OF e assms(2-4)]
  obtain r2 g2 where rb: "rebuild_blocks r1 g1 = (r2, g2)" by (cases "rebuild_blocks r1 g1")
  have "g2 = g'" "r = mirror_flat r2" using assms(1) e rb f by (auto simp: sync_template_def)
  with e rb that rebuild_placed [OF rb] f show ?thesis by auto
qed

subsection \<open>Trimming across an ASCII byte\<close>

definition plain_byte :: "char \<Rightarrow> bool" where
  "plain_byte c = (byte c < 0x80)"

lemma plain_byte_spaces: "plain_byte c \<Longrightarrow> \<not> space2 x c \<and> \<not> space2 c x \<and> \<not> space3 x c y \<and> \<not> space3 x y c \<and> \<not> space3 c x y"
  by (auto simp: plain_byte_def space2_def space3_def)

lemma head_space_glue:
  assumes "head_space p2 p3 a = 0" and "a \<noteq> []" and "\<And>x y. \<not> p2 x c \<and> \<not> p3 x c y \<and> \<not> p3 x y c"
  shows "head_space p2 p3 (a @ c # z) = 0"
proof -
  obtain x a' where a: "a = x # a'" using assms(2) by (cases a) auto
  show ?thesis
    using assms(1,3) a by (cases a'; cases "tl a'") (auto simp: head_space_zero_Cons)
qed

lemma trim_space_fixed_heads:
  assumes "trim_space s = s"
  shows "head_space space2 space3 s = 0 \<and> head_space (\<lambda>b a. space2 a b) (\<lambda>c b a. space3 a b c) (rev s) = 0"
proof
  show "head_space space2 space3 s = 0"
    by (metis assms head_space_trim_by trim_left_fix_trim trim_left_space_def)
  show "head_space (\<lambda>b a. space2 a b) (\<lambda>c b a. space3 a b c) (rev s) = 0"
    by (metis assms head_space_trim_by rev_swap trim_right_space_def trim_space_def)
qed

lemma trim_space_glue:
  assumes "trim_space a = a" and "a \<noteq> []" and "trim_space b = b" and "b \<noteq> []" and "plain_byte c"
  shows "trim_space (a @ c # b) = a @ c # b"
proof -
  have "head_space space2 space3 (a @ c # b) = 0"
    by (rule head_space_glue) (use assms trim_space_fixed_heads plain_byte_spaces in auto)
  then have "trim_left_space (a @ c # b) = a @ c # b" by (simp add: trim_left_space_def trim_by_fix)
  moreover have "head_space (\<lambda>b a. space2 a b) (\<lambda>c b a. space3 a b c) (rev b @ c # rev a) = 0"
    by (rule head_space_glue) (use assms trim_space_fixed_heads plain_byte_spaces in auto)
  then have "trim_right_space (a @ c # b) = a @ c # b" by (simp add: trim_right_space_def trim_by_fix)
  ultimately show ?thesis by (simp add: trim_space_def)
qed

definition format_line :: "string \<Rightarrow> string" where
  "format_line f = ''Format: '' @ trim_space f"

lemma trim_format_line: "trim_space f \<noteq> [] \<Longrightarrow> trim_space (format_line f) = format_line f"
proof -
  assume f: "trim_space f \<noteq> []"
  have "trim_space ''Format:'' = ''Format:''" "plain_byte (CHR '' '')" by code_simp+
  then have "trim_space (''Format:'' @ CHR '' '' # trim_space f) = ''Format:'' @ CHR '' '' # trim_space f"
    using f by (intro trim_space_glue) simp_all
  then show "trim_space (format_line f) = format_line f" by (simp add: format_line_def)
qed

lemma channels_with_format:
  assumes "trim_space (ty_format req) \<noteq> []"
  shows "channels_and_format req = (if trim_space (ty_channels req) = [] then format_line (ty_format req)
    else trim_space (ty_channels req) @ CHR 0x0A # format_line (ty_format req))"
    and "trim_space (channels_and_format req) = channels_and_format req"
proof -
  show c: "channels_and_format req = (if trim_space (ty_channels req) = [] then format_line (ty_format req)
    else trim_space (ty_channels req) @ CHR 0x0A # format_line (ty_format req))"
    using assms by (simp add: channels_and_format_def format_line_def)
  have "plain_byte (CHR 0x0A)" by code_simp
  then show "trim_space (channels_and_format req) = channels_and_format req"
    using c trim_format_line [OF assms] assms
    by (auto intro!: trim_space_glue simp: format_line_def)
qed

lemma place_mandatory_description:
  "place_mandatory mks req ord g = (bs, g') \<Longrightarrow> set mks \<subseteq> set mandatory_keys \<Longrightarrow> distinct mks \<Longrightarrow> fresh_ids g \<Longrightarrow>
    mk \<in> set mks \<Longrightarrow> trim_space (flat_string mk req) \<noteq> [] \<Longrightarrow>
    \<exists>b \<in> set bs. block_key b = mk \<and> trim_space (tb_description b) = trim_space (flat_string mk req)"
proof (induction mks arbitrary: ord g bs)
  case (Cons k mks)
  define bg where "bg = (case by_key (ty_blocks req) k of None \<Rightarrow> new_mandatory_block k req ord g
    | Some b \<Rightarrow> with_id (apply_flat k b req) g)"
  obtain b g1 where b: "bg = (b, g1)" by (cases bg)
  with Cons.prems obtain bs' where bs': "place_mandatory mks req (ord + 1) g1 = (bs', g')"
    and bs: "bs = b\<lparr>tb_order := ord\<rparr> # bs'" by (auto simp: bg_def split: prod.splits)
  have "fresh_ids g1 \<and> (k = mk \<longrightarrow> block_key b = mk \<and> trim_space (tb_description b) = trim_space (flat_string mk req))"
  proof (cases "by_key (ty_blocks req) k")
    case None
    with b Cons.prems mandatory_key_normal [of k] show ?thesis
      by (auto simp: bg_def block_key_def dest!: new_mandatory_facts)
  next
    case (Some c)
    with b Cons.prems by_key_Some [OF Some] show ?thesis
      by (auto simp: bg_def apply_flat_def dest!: with_id_facts)
  qed
  with Cons.IH [OF bs'] Cons.prems bs show ?case by (cases "k = mk") auto
qed simp

lemma channels_and_format_blocks [simp]: "channels_and_format (req\<lparr>ty_blocks := bs\<rparr>) = channels_and_format req"
  by (simp add: channels_and_format_def)

lemma ty_format_blocks: "ty_format (req\<lparr>ty_blocks := bs\<rparr>) = ty_format req"
  by simp

lemma rebuild_other [simp]: "rebuild_blocks req g = (r, g') \<Longrightarrow> ty_format r = ty_format req"
  by (auto simp: rebuild_blocks_def split: if_splits prod.splits)

lemma rebuild_description:
  assumes "rebuild_blocks req g = (r, g')" and "\<not> has_duplicate_keys [] (ty_blocks req)" and "fresh_ids g"
    and "mk \<in> set mandatory_keys" and "trim_space (flat_string mk req) \<noteq> []"
  obtains b where "by_key (ty_blocks r) mk = Some b" and "trim_space (tb_description b) = trim_space (flat_string mk req)"
proof -
  obtain ms g1 where ms: "place_mandatory mandatory_keys req 1 g = (ms, g1)"
    by (cases "place_mandatory mandatory_keys req 1 g")
  obtain es where r: "ty_blocks r = ms @ es" using assms(1,2) ms by (auto simp: rebuild_blocks_def split: prod.splits)
  obtain b where b: "b \<in> set ms" "block_key b = mk" "trim_space (tb_description b) = trim_space (flat_string mk req)"
    using place_mandatory_description [OF ms _ distinct_mandatory_keys(1) assms(3,4,5)] by auto
  have "distinct (map block_key (ty_blocks r))"
    using rebuild_placed [OF assms(1-3)] distinct_extra_keys [OF assms(2)] by (simp add: placed_def)
  with b r by_key_distinct [of "ty_blocks r" b] that show ?thesis by simp
qed

lemma sync_channels:
  assumes "sync_template req g = (r, g')" and "\<not> has_duplicate_keys [] (ty_blocks req)" and "fresh_ids g"
    and "trim_space (ty_format req) \<noteq> []"
  shows "ty_channels r = channels_and_format req \<and> ty_format r = ty_format req \<and> ty_channels r \<noteq> [] \<and>
    trim_space (ty_channels r) = ty_channels r \<and> \<not> has_duplicate_keys [] (ty_blocks r) \<and> fresh_ids g'"
proof -
  have nz: "ty_blocks req \<noteq> [] \<or> any_flat req" using assms(4) by (simp add: any_flat_def)
  obtain r1 g1 r2 where e: "ensure_blocks req g = (r1, g1)" and rb: "rebuild_blocks r1 g1 = (r2, g')"
    and r: "r = mirror_flat r2" and fg: "fresh_ids g'"
    and p: "placed (mandatory_keys @ map block_key (extra_blocks (ty_blocks req))) 1 (ty_blocks r2)"
    by (rule sync_decompose [OF assms(1-3) nz])
  note f = ensure_blocks_facts [OF e assms(2,3) nz]
  have c: "channels_and_format r1 = channels_and_format req" "ty_format r1 = ty_format req"
    using f channels_and_format_blocks [of "ty_blocks r1" req] ty_format_blocks [of "ty_blocks r1" req] by metis+
  have k: "''channels_and_format'' \<in> set mandatory_keys" by (simp add: mandatory_keys_def)
  have fl: "flat_string ''channels_and_format'' r1 = channels_and_format req" using c by (simp add: flat_string_def)
  have ne: "channels_and_format req \<noteq> []" using channels_with_format(1) [OF assms(4)] by (simp add: format_line_def)
  note tr = channels_with_format(2) [OF assms(4)]
  obtain b where b: "by_key (ty_blocks r2) ''channels_and_format'' = Some b"
      "trim_space (tb_description b) = channels_and_format req"
    using rebuild_description [OF rb _ _ k] f fl tr ne by metis
  have "column ''channels_and_format'' r = channels_and_format req"
    using column_mirror_flat [OF k b(1)] b(2) r by simp
  then have "ty_channels r = channels_and_format req" by (simp add: column_def)
  moreover have "\<not> has_duplicate_keys [] (ty_blocks r)"
    using p r distinct_extra_keys [OF assms(2)] by (intro distinct_no_duplicates) (simp_all add: placed_def)
  ultimately show ?thesis using r rb c tr ne fg by simp
qed

lemma sync_blocks_normal:
  assumes "\<not> has_duplicate_keys [] (ty_blocks req)" and "ty_blocks req \<noteq> [] \<or> any_flat req" and "fresh_ids g"
    and "sync_template req g = (r, g')"
  shows "map block_key (ty_blocks r) = mandatory_keys @ map block_key (extra_blocks (ty_blocks req)) \<and>
    distinct (map block_key (ty_blocks r)) \<and>
    map tb_order (ty_blocks r) = [1..int (length (ty_blocks r))] \<and>
    list_all (\<lambda>b. tb_id b \<noteq> []) (ty_blocks r) \<and>
    list_all (\<lambda>mk. map_option (\<lambda>b. trim_space (tb_description b)) (by_key (ty_blocks r) mk) = Some (column mk r)) mandatory_keys"
proof -
  obtain r1 g1 r2 where rb: "rebuild_blocks r1 g1 = (r2, g')" and r: "r = mirror_flat r2"
    and p: "placed (mandatory_keys @ map block_key (extra_blocks (ty_blocks req))) 1 (ty_blocks r2)"
    by (rule sync_decompose [OF assms(4,1,3,2)])
  let ?ks = "mandatory_keys @ map block_key (extra_blocks (ty_blocks req))"
  from p have k: "map block_key (ty_blocks r2) = ?ks" and o: "map tb_order (ty_blocks r2) = [1..int (length ?ks)]"
    and i: "list_all (\<lambda>b. tb_id b \<noteq> []) (ty_blocks r2)" by (simp_all add: placed_def)
  have l: "length ?ks = length (ty_blocks r2)" using k by (metis length_map)
  have o': "map tb_order (ty_blocks r2) = [1..int (length (ty_blocks r2))]" using o unfolding l .
  have "map_option (\<lambda>b. trim_space (tb_description b)) (by_key (ty_blocks r2) mk) = Some (column mk r)"
    if mk: "mk \<in> set mandatory_keys" for mk
  proof -
    have "mk \<in> set (map block_key (ty_blocks r2))" using k mk by simp
    then obtain b where b: "by_key (ty_blocks r2) mk = Some b" by (cases "by_key (ty_blocks r2) mk") (auto simp: by_key_None)
    with column_mirror_flat [OF mk b] r show ?thesis by simp
  qed
  then show ?thesis using k o' i r distinct_extra_keys [OF assms(1)] by (simp add: list_all_iff)
qed

subsection \<open>Properties\<close>

text \<open>C13: the synchronisation of a template without repeated block keys, when it has a block or a
  narrative column, leaves the six mandatory blocks first and in their order, then the other
  blocks as they came; the display orders are 1 to n, every block has an identifier, and each of
  the six columns is the trimmed description of its block.\<close>

theorem sync_normal_form:
  assumes "\<not> has_duplicate_keys [] (ty_blocks req)" and "ty_blocks req \<noteq> [] \<or> any_flat req" and "fresh_ids g"
    and "sync_template req g = (r, g')"
  shows "map block_key (ty_blocks r) = mandatory_keys @ map block_key (extra_blocks (ty_blocks req)) \<and>
    distinct (map block_key (ty_blocks r)) \<and>
    map tb_order (ty_blocks r) = [1..int (length (ty_blocks r))] \<and>
    list_all (\<lambda>b. tb_id b \<noteq> []) (ty_blocks r) \<and>
    list_all (\<lambda>mk. map_option (\<lambda>b. trim_space (tb_description b)) (by_key (ty_blocks r) mk) = Some (column mk r)) mandatory_keys"
  by (rule sync_blocks_normal [OF assms])

definition wit_block :: template_block where
  "wit_block = \<lparr>tb_id = [], tb_key = '' Deadline'', tb_type = ''text'', tb_title = ''t'', tb_description = ''soon'',
    tb_config = [], tb_validation = [], tb_order = 9, tb_enabled = True\<rparr>"

definition wit_type :: type_body where
  "wit_type = \<lparr>ty_id = ''dt-1'', ty_group = ''group-001'', ty_name = ''n'', ty_category = [], ty_template_category = ''periodic'',
    ty_deadline_strategy = ''fixed_cycle_days'', ty_description = [], ty_legal_basis = [], ty_applicability = [],
    ty_impl_content = [], ty_impl_notes = [], ty_special_cases = [], ty_report_content = [], ty_required_docs = [],
    ty_deadline_rule = [], ty_periodicity = ''monthly'', ty_channels = ''HOSE'', ty_beneficiaries = [], ty_authorities = [],
    ty_format = ''PDF'', ty_legal_risks = [], ty_general_info = [], ty_reminders = [], ty_legal_bases = [], ty_checklist = [],
    ty_tags = [], ty_blocks = [wit_block\<lparr>tb_key := ''notes''\<rparr>, wit_block]\<rparr>"

theorem sync_normal_form_witness:
  "map block_key (ty_blocks (fst (sync_template wit_type tally_ids))) = mandatory_keys @ [''notes'']"
proof -
  have "\<not> has_duplicate_keys [] (ty_blocks wit_type)" "ty_blocks wit_type \<noteq> [] \<or> any_flat wit_type" by code_simp+
  from sync_normal_form [OF this fresh_tally_ids surjective_pairing]
  have "map block_key (ty_blocks (fst (sync_template wit_type tally_ids))) =
    mandatory_keys @ map block_key (extra_blocks (ty_blocks wit_type))" by blast
  moreover have "map block_key (extra_blocks (ty_blocks wit_type)) = [''notes'']" by code_simp
  ultimately show ?thesis by simp
qed

text \<open>Saving a template that has a format appends the line \<open>Format: ...\<close> to its channels text, and
  saving the result again, unchanged, appends the same line once more: the synchronisation is not
  idempotent, the column grows with every save.\<close>

theorem resave_appends_format:
  assumes "\<not> has_duplicate_keys [] (ty_blocks req)" and "trim_space (ty_format req) \<noteq> []" and "fresh_ids g"
    and "sync_template req g = (r1, g1)" and "sync_template r1 g1 = (r2, g2)"
  shows "ty_channels r2 = ty_channels r1 @ CHR 0x0A # format_line (ty_format req)"
proof -
  note f1 = sync_channels [OF assms(4,1,3,2)]
  have "trim_space (ty_format r1) \<noteq> []" using f1 assms(2) by simp
  note f2 = sync_channels [OF assms(5) _ _ this] and c = channels_with_format(1) [OF this]
  have t: "trim_space (ty_channels r1) = ty_channels r1" "ty_channels r1 \<noteq> []" "ty_format r1 = ty_format req"
    using f1 by blast+
  have "ty_channels r2 = channels_and_format r1" using f1 f2 by blast
  then show ?thesis using t(2,3) unfolding c t(1) by simp
qed

theorem resave_appends_format_witness:
  "ty_channels (fst (sync_template (fst (sync_template wit_type tally_ids)) (snd (sync_template wit_type tally_ids)))) =
    ''HOSE'' @ CHR 0x0A # ''Format: PDF'' @ CHR 0x0A # ''Format: PDF''"
proof -
  have "\<not> has_duplicate_keys [] (ty_blocks wit_type)" "trim_space (ty_format wit_type) \<noteq> []" by code_simp+
  from resave_appends_format [OF this fresh_tally_ids surjective_pairing surjective_pairing]
  have "ty_channels (fst (sync_template (fst (sync_template wit_type tally_ids)) (snd (sync_template wit_type tally_ids)))) =
    ty_channels (fst (sync_template wit_type tally_ids)) @ CHR 0x0A # format_line (ty_format wit_type)" .
  moreover have "ty_channels (fst (sync_template wit_type tally_ids)) = ''HOSE'' @ CHR 0x0A # ''Format: PDF''" by code_simp
  moreover have "format_line (ty_format wit_type) = ''Format: PDF''" by code_simp
  ultimately show ?thesis by simp
qed

end
