(* ===== verification/TemplateValidation.thy ===== *)
theory TemplateValidation
  imports TemplateSync "HOL-Library.AList"
begin

section \<open>Disclosure templates: the validation of an upsert\<close>

text \<open>
  Models \<^verbatim>\<open>internal/disclosure/app/template_validation.go\<close> and
  \<^verbatim>\<open>template_block_schema.go\<close>: the aliases of the enumerations, the matrix of category,
  periodicity and deadline strategy, and the blocks with the schema of their type. The checks write
  messages into a map from field to message, an association list here; the validation fails when
  the map is not empty. \<^verbatim>\<open>strconv.ParseFloat\<close> is the argument \<open>pf\<close>. The main lemmas
  turn the checks into a declarative specification of an acceptable template.
\<close>

subsection \<open>Enumerations\<close>

definition TemplateCategoryPeriodic :: string where "TemplateCategoryPeriodic = ''periodic''"
definition TemplateCategoryIrregular :: string where "TemplateCategoryIrregular = ''irregular''"
definition TemplateCategoryCustom :: string where "TemplateCategoryCustom = ''custom''"
definition PeriodicityMonthly :: string where "PeriodicityMonthly = ''monthly''"
definition PeriodicityQuarterly :: string where "PeriodicityQuarterly = ''quarterly''"
definition PeriodicityYearly :: string where "PeriodicityYearly = ''yearly''"
definition PeriodicityEventBased :: string where "PeriodicityEventBased = ''event_based''"
definition PeriodicityAdHoc :: string where "PeriodicityAdHoc = ''ad_hoc''"
definition DeadlineStrategyFixedCycleDays :: string where "DeadlineStrategyFixedCycleDays = ''fixed_cycle_days''"
definition DeadlineStrategyEventHours :: string where "DeadlineStrategyEventHours = ''event_relative_hours''"
definition DeadlineStrategyConfigurable :: string where "DeadlineStrategyConfigurable = ''configurable''"

lemmas enum_defs = TemplateCategoryPeriodic_def TemplateCategoryIrregular_def TemplateCategoryCustom_def
  PeriodicityMonthly_def PeriodicityQuarterly_def PeriodicityYearly_def PeriodicityEventBased_def
  PeriodicityAdHoc_def DeadlineStrategyFixedCycleDays_def DeadlineStrategyEventHours_def
  DeadlineStrategyConfigurable_def

type_synonym aliases = "(string \<times> string) list"

definition template_category_aliases :: aliases where
  "template_category_aliases =
    [(TemplateCategoryPeriodic, TemplateCategoryPeriodic),
     ([CHR 0xC4, CHR 0x91, CHR 0xE1, CHR 0xBB, CHR 0x8B] @ ''nh k'' @ [CHR 0xE1, CHR 0xBB, CHR 0xB3], TemplateCategoryPeriodic),
     (''dinh ky'', TemplateCategoryPeriodic),
     (TemplateCategoryIrregular, TemplateCategoryIrregular),
     (''b'' @ [CHR 0xE1, CHR 0xBA, CHR 0xA5] @ ''t th'' @ [CHR 0xC6, CHR 0xB0, CHR 0xE1, CHR 0xBB, CHR 0x9D] @ ''ng'', TemplateCategoryIrregular),
     (''bat thuong'', TemplateCategoryIrregular),
     (TemplateCategoryCustom, TemplateCategoryCustom),
     (''t'' @ [CHR 0xC3, CHR 0xB9] @ ''y ch'' @ [CHR 0xE1, CHR 0xBB, CHR 0x89] @ ''nh'', TemplateCategoryCustom),
     (''tuy chinh'', TemplateCategoryCustom)]"

definition periodicity_aliases :: aliases where
  "periodicity_aliases =
    [(PeriodicityMonthly, PeriodicityMonthly),
     (''h'' @ [CHR 0xC3, CHR 0xA0] @ ''ng th'' @ [CHR 0xC3, CHR 0xA1] @ ''ng'', PeriodicityMonthly),
     (''hang thang'', PeriodicityMonthly),
     (PeriodicityQuarterly, PeriodicityQuarterly),
     (''h'' @ [CHR 0xC3, CHR 0xA0] @ ''ng qu'' @ [CHR 0xC3, CHR 0xBD], PeriodicityQuarterly),
     (''hang quy'', PeriodicityQuarterly),
     (PeriodicityYearly, PeriodicityYearly),
     (''h'' @ [CHR 0xC3, CHR 0xA0] @ ''ng n'' @ [CHR 0xC4, CHR 0x83] @ ''m'', PeriodicityYearly),
     (''hang nam'', PeriodicityYearly),
     (PeriodicityEventBased, PeriodicityEventBased),
     (''b'' @ [CHR 0xE1, CHR 0xBA, CHR 0xA5] @ ''t th'' @ [CHR 0xC6, CHR 0xB0, CHR 0xE1, CHR 0xBB, CHR 0x9D] @ ''ng'', PeriodicityEventBased),
     (''bat thuong'', PeriodicityEventBased),
     (PeriodicityAdHoc, PeriodicityAdHoc),
     (''theo y'' @ [CHR 0xC3, CHR 0xAA] @ ''u c'' @ [CHR 0xE1, CHR 0xBA, CHR 0xA7] @ ''u'', PeriodicityAdHoc),
     (''theo yeu cau'', PeriodicityAdHoc)]"

definition deadline_strategy_aliases :: aliases where
  "deadline_strategy_aliases =
    [(DeadlineStrategyFixedCycleDays, DeadlineStrategyFixedCycleDays),
     (DeadlineStrategyEventHours, DeadlineStrategyEventHours),
     (DeadlineStrategyConfigurable, DeadlineStrategyConfigurable)]"

definition normalize_alias :: "string \<Rightarrow> aliases \<Rightarrow> string" where
  "normalize_alias raw al =
    (let key = to_lower (trim_space raw) in
     if key = [] then [] else case map_of al key of Some v \<Rightarrow> v | None \<Rightarrow> key)"

subsection \<open>Field errors\<close>

type_synonym field_errors = "(string \<times> string) list"

definition set_err :: "string \<Rightarrow> string \<Rightarrow> field_errors \<Rightarrow> field_errors" where
  "set_err k msg es = AList.update k msg es"

definition new_validation_error :: "field_errors \<Rightarrow> go_error" where
  "new_validation_error es = HTTPErr 400 CodeInvalidRequest ''template validation failed'' es None"

lemma set_err_not_Nil [simp]: "set_err k msg es \<noteq> []"
  by (cases es) (auto simp: set_err_def split: prod.split)

subsection \<open>The matrix\<close>

definition normalize_enums :: "'a type_body_scheme \<Rightarrow> 'a type_body_scheme" where
  "normalize_enums req = req\<lparr>
     ty_template_category := normalize_alias (ty_template_category req) template_category_aliases,
     ty_periodicity := normalize_alias (ty_periodicity req) periodicity_aliases,
     ty_deadline_strategy := normalize_alias (ty_deadline_strategy req) deadline_strategy_aliases\<rparr>"

definition chk :: "bool \<Rightarrow> string \<Rightarrow> string \<Rightarrow> field_errors \<Rightarrow> field_errors" where
  "chk ok k msg es = (if ok then es else set_err k msg es)"

lemma chk_Nil [simp]: "chk ok k msg es = [] \<longleftrightarrow> ok \<and> es = []"
  by (simp add: chk_def)

definition required_errors :: "'a type_body_scheme \<Rightarrow> field_errors" where
  "required_errors req =
    chk (ty_deadline_strategy req \<noteq> []) ''deadline_strategy'' ''deadline_strategy is required''
     (chk (ty_deadline_rule req \<noteq> []) ''deadline_rule'' ''deadline_rule is required''
      (chk (ty_template_category req \<noteq> []) ''template_category'' ''template_category is required'' []))"

definition matrix_errors :: "'a type_body_scheme \<Rightarrow> field_errors \<Rightarrow> field_errors" where
  "matrix_errors req es =
    (if ty_template_category req = TemplateCategoryPeriodic then
       chk (ty_deadline_strategy req = DeadlineStrategyFixedCycleDays) ''deadline_strategy''
         ''periodic templates require deadline_strategy=fixed_cycle_days''
        (chk (ty_periodicity req = PeriodicityMonthly \<or> ty_periodicity req = PeriodicityQuarterly \<or>
              ty_periodicity req = PeriodicityYearly) ''periodicity''
           ''periodic templates require periodicity in [monthly, quarterly, yearly]'' es)
     else if ty_template_category req = TemplateCategoryIrregular then
       chk (ty_deadline_strategy req = DeadlineStrategyEventHours) ''deadline_strategy''
         ''irregular templates require deadline_strategy=event_relative_hours''
        (chk (ty_periodicity req = PeriodicityEventBased) ''periodicity''
           ''irregular templates require periodicity=event_based'' es)
     else if ty_template_category req = TemplateCategoryCustom then
       chk (ty_deadline_strategy req = DeadlineStrategyConfigurable) ''deadline_strategy''
         ''custom templates require deadline_strategy=configurable''
        (chk (ty_periodicity req = PeriodicityMonthly \<or> ty_periodicity req = PeriodicityQuarterly \<or>
              ty_periodicity req = PeriodicityYearly \<or> ty_periodicity req = PeriodicityAdHoc) ''periodicity''
           ''custom templates require periodicity in [monthly, quarterly, yearly, ad_hoc]'' es)
     else chk (ty_template_category req = []) ''template_category''
       ''template_category must be one of [periodic, irregular, custom]'' es)"

subsection \<open>Numbers of block configurations\<close>

type_synonym parse_float = "string \<Rightarrow> gofloat option"

fun number_from_any :: "parse_float \<Rightarrow> goany \<Rightarrow> gofloat option" where
  "number_from_any pf (AFloat f) = Some f"
| "number_from_any pf (AInt i) = Some (FFin (of_int i))"
| "number_from_any pf (AStr s) = pf (trim_space s)"
| "number_from_any pf _ = None"

text \<open>\<open>math.Trunc(n) == n\<close>, \<open>n <= 0\<close>, \<open>n < 0\<close> and the conversion to \<open>int64\<close> (on amd64 the
  conversion of a value out of range is the least integer).\<close>

fun is_whole :: "gofloat \<Rightarrow> bool" where
  "is_whole (FFin r) = (of_int \<lfloor>r\<rfloor> = r)"
| "is_whole FPosInf = True"
| "is_whole FNegInf = True"
| "is_whole FNaN = False"

fun float_le0 :: "gofloat \<Rightarrow> bool" where
  "float_le0 (FFin r) = (r \<le> 0)"
| "float_le0 FNegInf = True"
| "float_le0 _ = False"

fun float_lt0 :: "gofloat \<Rightarrow> bool" where
  "float_lt0 (FFin r) = (r < 0)"
| "float_lt0 FNegInf = True"
| "float_lt0 _ = False"

fun float_int64 :: "gofloat \<Rightarrow> int" where
  "float_int64 (FFin r) = (if -9223372036854775808 \<le> \<lfloor>r\<rfloor> \<and> \<lfloor>r\<rfloor> < 9223372036854775808 then \<lfloor>r\<rfloor> else -9223372036854775808)"
| "float_int64 _ = -9223372036854775808"

definition non_negative_integer :: "parse_float \<Rightarrow> goany \<Rightarrow> int option" where
  "non_negative_integer pf v = (case number_from_any pf v of None \<Rightarrow> None
     | Some n \<Rightarrow> if \<not> is_whole n \<or> float_lt0 n then None else Some (float_int64 n))"

definition positive_integer :: "parse_float \<Rightarrow> goany \<Rightarrow> int option" where
  "positive_integer pf v = (case number_from_any pf v of None \<Rightarrow> None
     | Some n \<Rightarrow> if float_le0 n \<or> \<not> is_whole n then None else Some (float_int64 n))"

text \<open>\<open>v, ok := m[k]; ok && v != nil\<close>.\<close>

definition present :: "attrs \<Rightarrow> string \<Rightarrow> goany option" where
  "present m k = (case map_of m k of None \<Rightarrow> None | Some ANil \<Rightarrow> None | Some v \<Rightarrow> Some v)"

definition opt_all :: "('a \<Rightarrow> bool) \<Rightarrow> 'a option \<Rightarrow> bool" where
  "opt_all P x = (case x of None \<Rightarrow> True | Some v \<Rightarrow> P v)"

lemma opt_all_simps [simp]: "opt_all P None" "opt_all P (Some v) = P v"
  by (simp_all add: opt_all_def)

subsection \<open>The schema of a block type\<close>

definition canonical_block_type :: "string \<Rightarrow> string" where
  "canonical_block_type t = (let bt = to_lower (trim_space t) in
     if bt = ''textarea'' \<or> bt = ''long_text'' then ''text'' else bt)"

definition block_types_allowed :: "string list" where
  "block_types_allowed = [''text'', ''rich_text'', ''table'', ''checklist'', ''number'', ''date'', ''attachment'', ''section'']"

text \<open>The verb \<open>%q\<close>: runes from U+00A1 on other than the soft hyphen are taken to be printable.\<close>

definition hex_digit :: "int \<Rightarrow> char" where
  "hex_digit n = (if n < 10 then char_of (48 + n) else char_of (87 + n))"

definition hex2 :: "int \<Rightarrow> string" where
  "hex2 n = [hex_digit (n div 16), hex_digit (n mod 16)]"

definition quote_rune :: "int \<Rightarrow> string" where
  "quote_rune r =
    (if r = 34 then [CHR 0x5C, CHR 0x22] else if r = 92 then [CHR 0x5C, CHR 0x5C]
     else if r = 7 then CHR 0x5C # ''a'' else if r = 8 then CHR 0x5C # ''b'' else if r = 9 then CHR 0x5C # ''t''
     else if r = 10 then CHR 0x5C # ''n'' else if r = 11 then CHR 0x5C # ''v'' else if r = 12 then CHR 0x5C # ''f''
     else if r = 13 then CHR 0x5C # ''r''
     else if r < 32 \<or> r = 127 then CHR 0x5C # ''x'' @ hex2 r
     else if (128 \<le> r \<and> r \<le> 160) \<or> r = 173 then CHR 0x5C # ''u00'' @ hex2 r
     else encode_rune r)"

function quote_runes :: "string \<Rightarrow> string" where
  "quote_runes [] = []"
| "quote_runes (c # s) =
    (let (r, n) = decode_rune (c # s) in
     (if n = 1 \<and> r = 0xFFFD then CHR 0x5C # ''x'' @ hex2 (byte c) else quote_rune r) @ quote_runes (drop (n - 1) s))"
  by pat_completeness auto
termination quote_runes
  by (relation "measure length") auto

definition go_quote :: "string \<Rightarrow> string" where
  "go_quote s = CHR 0x22 # quote_runes s @ [CHR 0x22]"

definition positive_field :: "parse_float \<Rightarrow> attrs \<Rightarrow> string \<Rightarrow> bool" where
  "positive_field pf m k = opt_all (\<lambda>v. positive_integer pf v \<noteq> None) (present m k)"

definition text_schema :: "parse_float \<Rightarrow> string \<Rightarrow> attrs \<Rightarrow> field_errors \<Rightarrow> field_errors" where
  "text_schema pf p config = chk (positive_field pf config ''max_length'') (p @ ''.config.max_length'')
     ''max_length must be a positive integer''"

fun is_bool_value :: "goany \<Rightarrow> bool" where
  "is_bool_value (ABool b) = True"
| "is_bool_value _ = False"

definition rich_text_schema :: "parse_float \<Rightarrow> string \<Rightarrow> attrs \<Rightarrow> field_errors \<Rightarrow> field_errors" where
  "rich_text_schema pf p config es =
    chk (opt_all is_bool_value (present config ''allow_html'')) (p @ ''.config.allow_html'')
      ''allow_html must be boolean'' (text_schema pf p config es)"

text \<open>\<open>s, ok := m[k].(string); ok && strings.TrimSpace(s) != ""\<close>\<close>

definition non_blank_str :: "attrs \<Rightarrow> string \<Rightarrow> bool" where
  "non_blank_str m k = (case map_of m k of Some (AStr s) \<Rightarrow> trim_space s \<noteq> [] | _ \<Rightarrow> False)"

fun table_column_valid :: "goany \<Rightarrow> bool" where
  "table_column_valid (AMap tm) = list_ex (non_blank_str tm) [''key'', ''id'', ''field'']"
| "table_column_valid _ = False"

fun checklist_option_valid :: "goany \<Rightarrow> bool" where
  "checklist_option_valid (AStr s) = (trim_space s \<noteq> [])"
| "checklist_option_valid (AMap m) = (non_blank_str m ''label'' \<or> non_blank_str m ''title'' \<or> non_blank_str m ''id'')"
| "checklist_option_valid _ = False"

fun item_errors :: "(goany \<Rightarrow> bool) \<Rightarrow> string \<Rightarrow> string \<Rightarrow> int \<Rightarrow> goany list \<Rightarrow> field_errors \<Rightarrow> field_errors" where
  "item_errors ok p msg i [] es = es"
| "item_errors ok p msg i (v # vs) es =
    item_errors ok p msg (i + 1) vs (chk (ok v) (p @ ''['' @ itoa i @ '']'') msg es)"

definition rows_errors :: "parse_float \<Rightarrow> string \<Rightarrow> attrs \<Rightarrow> field_errors \<Rightarrow> field_errors" where
  "rows_errors pf p config es =
    (let lo = present config ''min_rows''; hi = present config ''max_rows'';
         es1 = chk (opt_all (\<lambda>v. non_negative_integer pf v \<noteq> None) lo) (p @ ''.config.min_rows'')
                 ''min_rows must be a non-negative integer'' es;
         es2 = chk (opt_all (\<lambda>v. positive_integer pf v \<noteq> None) hi) (p @ ''.config.max_rows'')
                 ''max_rows must be a positive integer'' es1
     in case (Option.bind lo (non_negative_integer pf), Option.bind hi (positive_integer pf)) of
          (Some m, Some n) \<Rightarrow> chk (m \<le> n) (p @ ''.config.min_rows'') ''min_rows must be <= max_rows'' es2
        | _ \<Rightarrow> es2)"

definition table_schema :: "parse_float \<Rightarrow> string \<Rightarrow> attrs \<Rightarrow> field_errors \<Rightarrow> field_errors" where
  "table_schema pf p config es =
    (case map_of config ''columns'' of
       Some (AList (v # vs)) \<Rightarrow> rows_errors pf p config
         (item_errors table_column_valid (p @ ''.config.columns'') ''each column needs a non-empty key, id, or field'' 0 (v # vs) es)
     | _ \<Rightarrow> set_err (p @ ''.config.columns'') ''table blocks require config.columns as a non-empty array'' es)"

definition checklist_schema :: "string \<Rightarrow> attrs \<Rightarrow> field_errors \<Rightarrow> field_errors" where
  "checklist_schema p config es =
    (case map_of config ''options'' of
       Some (AList (v # vs)) \<Rightarrow>
         item_errors checklist_option_valid (p @ ''.config.options'') ''each checklist option needs a label, id, or non-empty text'' 0 (v # vs) es
     | _ \<Rightarrow> set_err (p @ ''.config.options'') ''checklist blocks require config.options as a non-empty array'' es)"

fun number_schema :: "parse_float \<Rightarrow> string \<Rightarrow> attrs \<Rightarrow> string list \<Rightarrow> field_errors \<Rightarrow> field_errors" where
  "number_schema pf p validation [] es = es"
| "number_schema pf p validation (k # ks) es = number_schema pf p validation ks
    (chk (opt_all (\<lambda>v. number_from_any pf v \<noteq> None) (present validation k)) (p @ ''.validation.'' @ k)
       (k @ '' must be numeric'') es)"

definition date_schema :: "parse_float \<Rightarrow> string \<Rightarrow> attrs \<Rightarrow> field_errors \<Rightarrow> field_errors" where
  "date_schema pf p validation = chk (positive_field pf validation ''max_future_days'') (p @ ''.validation.max_future_days'')
     ''max_future_days must be a positive integer''"

definition attachment_schema :: "parse_float \<Rightarrow> string \<Rightarrow> attrs \<Rightarrow> field_errors \<Rightarrow> field_errors" where
  "attachment_schema pf p config = chk (positive_field pf config ''max_files'') (p @ ''.config.max_files'')
     ''max_files must be a positive integer''"

definition block_schema :: "parse_float \<Rightarrow> string \<Rightarrow> string \<Rightarrow> attrs \<Rightarrow> attrs \<Rightarrow> field_errors \<Rightarrow> field_errors" where
  "block_schema pf p bt config validation es =
    (if trim_space bt = [] then es
     else let c = canonical_block_type bt in
       if \<not> List.member block_types_allowed c then
         set_err (p @ ''.block_type'') (''unsupported block_type '' @ go_quote bt @ ''; allowed: '' @
           ''attachment, checklist, date, number, rich_text, section, table, text; aliases: textarea|long_text -> text'') es
       else if c = ''text'' then text_schema pf p config es
       else if c = ''rich_text'' then rich_text_schema pf p config es
       else if c = ''table'' then table_schema pf p config es
       else if c = ''checklist'' then checklist_schema p config es
       else if c = ''number'' then number_schema pf p validation [''min'', ''max'', ''step''] es
       else if c = ''date'' then date_schema pf p validation es
       else if c = ''attachment'' then attachment_schema pf p config es
       else es)"

subsection \<open>The blocks\<close>

definition normal_block :: "template_block \<Rightarrow> template_block" where
  "normal_block b = b\<lparr>tb_id := trim_space (tb_id b), tb_key := to_lower (trim_space (tb_key b)),
     tb_type := to_lower (trim_space (tb_type b)), tb_title := trim_space (tb_title b),
     tb_description := trim_space (tb_description b)\<rparr>"

definition block_prefix :: "int \<Rightarrow> string" where
  "block_prefix i = ''blocks.'' @ itoa i"

definition unique_chk :: "bool \<Rightarrow> string \<Rightarrow> string \<Rightarrow> 'k \<Rightarrow> ('k \<rightharpoonup> int) \<Rightarrow> int \<Rightarrow> field_errors \<Rightarrow>
    ('k \<rightharpoonup> int) \<times> field_errors" where
  "unique_chk bad field bad_msg k seen i es =
    (if bad then (seen, set_err (block_prefix i @ ''.'' @ field) bad_msg es)
     else case seen k of
       Some prev \<Rightarrow> (seen, set_err (block_prefix prev @ ''.'' @ field) (field @ '' must be unique'')
                            (set_err (block_prefix i @ ''.'' @ field) (field @ '' must be unique'') es))
     | None \<Rightarrow> (seen(k \<mapsto> i), es))"

fun check_blocks :: "parse_float \<Rightarrow> int \<Rightarrow> template_block list \<Rightarrow> (string \<rightharpoonup> int) \<Rightarrow> (int \<rightharpoonup> int) \<Rightarrow> field_errors \<Rightarrow>
    (string \<rightharpoonup> int) \<times> field_errors" where
  "check_blocks pf i [] ks os es = (ks, es)"
| "check_blocks pf i (b # bs) ks os es =
    (let p = block_prefix i;
         (ks', es1) = unique_chk (tb_key b = []) ''block_key'' ''block_key is required'' (tb_key b) ks i es;
         es2 = chk (tb_type b \<noteq> []) (p @ ''.block_type'') ''block_type is required'' es1;
         es3 = chk (tb_title b \<noteq> []) (p @ ''.title'') ''title is required'' es2;
         (os', es4) = unique_chk (tb_order b \<le> 0) ''display_order'' ''display_order must be > 0'' (tb_order b) os i es3
     in check_blocks pf (i + 1) bs ks' os' (block_schema pf p (tb_type b) (tb_config b) (tb_validation b) es4))"

fun missing_mandatory :: "(string \<rightharpoonup> int) \<Rightarrow> string list \<Rightarrow> field_errors \<Rightarrow> field_errors" where
  "missing_mandatory ks [] es = es"
| "missing_mandatory ks (mk # mks) es = missing_mandatory ks mks
    (chk (ks mk \<noteq> None) (''blocks.missing_'' @ mk) ''required mandatory block_key; additional non-mandatory blocks are allowed'' es)"

definition validate_blocks :: "parse_float \<Rightarrow> template_block list \<Rightarrow> template_block list \<times> field_errors" where
  "validate_blocks pf bs =
    (let ns = map normal_block bs in
     if bs = [] then (bs, [])
     else let (ks, es) = check_blocks pf 0 ns Map.empty Map.empty [] in (ns, missing_mandatory ks mandatory_keys es))"

definition validate_template :: "parse_float \<Rightarrow> 'a type_body_scheme \<Rightarrow> go_error + 'a type_body_scheme" where
  "validate_template pf req0 =
    (let req = normalize_enums req0; es = matrix_errors req (required_errors req) in
     if es \<noteq> [] then Inl (new_validation_error es)
     else let (bs, es2) = validate_blocks pf (ty_blocks req) in
       if es2 \<noteq> [] then Inl (new_validation_error es2) else Inr (req\<lparr>ty_blocks := bs\<rparr>))"

subsection \<open>What an acceptable template is\<close>

definition columns_ok :: "attrs \<Rightarrow> bool" where
  "columns_ok cfg = (case map_of cfg ''columns'' of Some (AList vs) \<Rightarrow> vs \<noteq> [] \<and> list_all table_column_valid vs | _ \<Rightarrow> False)"

definition options_ok :: "attrs \<Rightarrow> bool" where
  "options_ok cfg = (case map_of cfg ''options'' of Some (AList vs) \<Rightarrow> vs \<noteq> [] \<and> list_all checklist_option_valid vs | _ \<Rightarrow> False)"

definition rows_ok :: "parse_float \<Rightarrow> attrs \<Rightarrow> bool" where
  "rows_ok pf cfg =
    (opt_all (\<lambda>v. non_negative_integer pf v \<noteq> None) (present cfg ''min_rows'') \<and>
     opt_all (\<lambda>v. positive_integer pf v \<noteq> None) (present cfg ''max_rows'') \<and>
     opt_all (\<lambda>m. opt_all (\<lambda>n. m \<le> n) (Option.bind (present cfg ''max_rows'') (positive_integer pf)))
       (Option.bind (present cfg ''min_rows'') (non_negative_integer pf)))"

definition schema_ok :: "parse_float \<Rightarrow> string \<Rightarrow> attrs \<Rightarrow> attrs \<Rightarrow> bool" where
  "schema_ok pf bt cfg val =
    (let c = canonical_block_type bt in
     List.member block_types_allowed c \<and>
     (c = ''text'' \<or> c = ''rich_text'' \<longrightarrow> positive_field pf cfg ''max_length'') \<and>
     (c = ''rich_text'' \<longrightarrow> opt_all is_bool_value (present cfg ''allow_html'')) \<and>
     (c = ''table'' \<longrightarrow> columns_ok cfg \<and> rows_ok pf cfg) \<and>
     (c = ''checklist'' \<longrightarrow> options_ok cfg) \<and>
     (c = ''number'' \<longrightarrow> list_all (\<lambda>k. opt_all (\<lambda>v. number_from_any pf v \<noteq> None) (present val k)) [''min'', ''max'', ''step'']) \<and>
     (c = ''date'' \<longrightarrow> positive_field pf val ''max_future_days'') \<and>
     (c = ''attachment'' \<longrightarrow> positive_field pf cfg ''max_files''))"

definition block_ok :: "parse_float \<Rightarrow> template_block \<Rightarrow> bool" where
  "block_ok pf b = (tb_key b \<noteq> [] \<and> tb_type b \<noteq> [] \<and> tb_title b \<noteq> [] \<and> 0 < tb_order b \<and>
     (trim_space (tb_type b) = [] \<or> schema_ok pf (tb_type b) (tb_config b) (tb_validation b)))"

definition valid_blocks :: "parse_float \<Rightarrow> template_block list \<Rightarrow> bool" where
  "valid_blocks pf bs = (bs = [] \<or>
     (list_all (block_ok pf) bs \<and> distinct (map tb_key bs) \<and> distinct (map tb_order bs) \<and>
      set mandatory_keys \<subseteq> set (map tb_key bs)))"

definition accepted_matrix :: "(string \<times> string \<times> string) list" where
  "accepted_matrix =
    [(TemplateCategoryPeriodic, PeriodicityMonthly, DeadlineStrategyFixedCycleDays),
     (TemplateCategoryPeriodic, PeriodicityQuarterly, DeadlineStrategyFixedCycleDays),
     (TemplateCategoryPeriodic, PeriodicityYearly, DeadlineStrategyFixedCycleDays),
     (TemplateCategoryIrregular, PeriodicityEventBased, DeadlineStrategyEventHours),
     (TemplateCategoryCustom, PeriodicityMonthly, DeadlineStrategyConfigurable),
     (TemplateCategoryCustom, PeriodicityQuarterly, DeadlineStrategyConfigurable),
     (TemplateCategoryCustom, PeriodicityYearly, DeadlineStrategyConfigurable),
     (TemplateCategoryCustom, PeriodicityAdHoc, DeadlineStrategyConfigurable)]"

definition valid_matrix :: "'a type_body_scheme \<Rightarrow> bool" where
  "valid_matrix req = (ty_deadline_rule req \<noteq> [] \<and>
     (ty_template_category req, ty_periodicity req, ty_deadline_strategy req) \<in> set accepted_matrix)"

subsection \<open>The checks decide it\<close>

lemma enum_distinct:
  "TemplateCategoryPeriodic \<noteq> []" "TemplateCategoryIrregular \<noteq> []" "TemplateCategoryCustom \<noteq> []"
  "TemplateCategoryPeriodic \<noteq> TemplateCategoryIrregular" "TemplateCategoryPeriodic \<noteq> TemplateCategoryCustom"
  "TemplateCategoryIrregular \<noteq> TemplateCategoryCustom"
  "DeadlineStrategyFixedCycleDays \<noteq> []" "DeadlineStrategyEventHours \<noteq> []" "DeadlineStrategyConfigurable \<noteq> []"
  by (simp_all add: enum_defs)

lemma matrix_errors_Nil: "matrix_errors req (required_errors req) = [] \<longleftrightarrow> valid_matrix req"
proof -
  let ?c = "ty_template_category req"
  consider "?c = TemplateCategoryPeriodic" | "?c = TemplateCategoryIrregular" | "?c = TemplateCategoryCustom"
    | "?c \<notin> {TemplateCategoryPeriodic, TemplateCategoryIrregular, TemplateCategoryCustom}" by blast
  then show ?thesis
    by cases (use enum_distinct in \<open>auto simp: matrix_errors_def required_errors_def valid_matrix_def accepted_matrix_def\<close>)
qed

lemma item_errors_Nil [simp]: "item_errors ok p msg i vs es = [] \<longleftrightarrow> es = [] \<and> list_all ok vs"
  by (induction vs arbitrary: i es) auto

lemma number_schema_Nil [simp]: "number_schema pf p val ks es = [] \<longleftrightarrow>
    es = [] \<and> list_all (\<lambda>k. opt_all (\<lambda>v. number_from_any pf v \<noteq> None) (present val k)) ks"
  by (induction ks arbitrary: es) auto

lemma rows_errors_Nil: "rows_errors pf p cfg es = [] \<longleftrightarrow> es = [] \<and> rows_ok pf cfg"
  by (auto simp: rows_errors_def rows_ok_def Let_def split: option.split)

lemma table_schema_Nil: "table_schema pf p cfg es = [] \<longleftrightarrow> es = [] \<and> columns_ok cfg \<and> rows_ok pf cfg"
  by (auto simp: table_schema_def columns_ok_def rows_errors_Nil split: option.split goany.split list.split)

lemma checklist_schema_Nil: "checklist_schema p cfg es = [] \<longleftrightarrow> es = [] \<and> options_ok cfg"
  by (auto simp: checklist_schema_def options_ok_def split: option.split goany.split list.split)

lemma block_schema_Nil: "block_schema pf p bt cfg val es = [] \<longleftrightarrow> es = [] \<and> (trim_space bt = [] \<or> schema_ok pf bt cfg val)"
  unfolding block_schema_def schema_ok_def Let_def text_schema_def rich_text_schema_def date_schema_def attachment_schema_def
  by (auto simp: table_schema_Nil checklist_schema_Nil)

lemma unique_chk_Nil:
  assumes "unique_chk bad field msg k seen i es = (seen', es')"
  shows "es' = [] \<longleftrightarrow> es = [] \<and> \<not> bad \<and> seen k = None" and "es' = [] \<Longrightarrow> seen' = seen(k \<mapsto> i)"
  using assms by (auto simp: unique_chk_def split: if_splits option.splits)

lemma check_blocks_Nil:
  "check_blocks pf i bs ks os es = (ks', es') \<Longrightarrow>
    (es' = [] \<longleftrightarrow> es = [] \<and> list_all (block_ok pf) bs \<and> distinct (map tb_key bs) \<and> distinct (map tb_order bs) \<and>
       dom ks \<inter> tb_key ` set bs = {} \<and> dom os \<inter> tb_order ` set bs = {}) \<and>
    (es' = [] \<longrightarrow> dom ks' = dom ks \<union> tb_key ` set bs)"
proof (induction bs arbitrary: i ks os es)
  case (Cons b bs)
  define p where "p = block_prefix i"
  obtain ks1 es1 where u1: "unique_chk (tb_key b = []) ''block_key'' ''block_key is required'' (tb_key b) ks i es = (ks1, es1)"
    by fastforce
  define es3 where "es3 = chk (tb_title b \<noteq> []) (p @ ''.title'') ''title is required''
    (chk (tb_type b \<noteq> []) (p @ ''.block_type'') ''block_type is required'' es1)"
  obtain os1 es4 where u2: "unique_chk (tb_order b \<le> 0) ''display_order'' ''display_order must be > 0'' (tb_order b) os i es3 = (os1, es4)"
    by fastforce
  define es5 where "es5 = block_schema pf p (tb_type b) (tb_config b) (tb_validation b) es4"
  have r: "check_blocks pf (i + 1) bs ks1 os1 es5 = (ks', es')"
    using Cons.prems u1 u2 unfolding es5_def es3_def p_def by (simp add: Let_def)
  have e5: "es5 = [] \<longleftrightarrow> es = [] \<and> block_ok pf b \<and> ks (tb_key b) = None \<and> os (tb_order b) = None"
    using unique_chk_Nil(1) [OF u1] unique_chk_Nil(1) [OF u2]
    by (auto simp: es5_def es3_def block_schema_Nil block_ok_def)
  have "ks1 = ks(tb_key b \<mapsto> i)" "os1 = os(tb_order b \<mapsto> i)" if "es5 = []"
    using that unique_chk_Nil [OF u1] unique_chk_Nil [OF u2] by (simp_all add: es5_def es3_def block_schema_Nil)
  then have d: "dom ks1 = insert (tb_key b) (dom ks)" "dom os1 = insert (tb_order b) (dom os)" if "es5 = []"
    using that by simp_all
  show ?case
  proof (cases "es5 = []")
    case True
    define K where "K = tb_key ` set bs"
    define R where "R = tb_order ` set bs"
    have k: "dom ks \<inter> tb_key ` set (b # bs) = {} \<longleftrightarrow> ks (tb_key b) = None \<and> dom ks \<inter> K = {}"
      "dom os \<inter> tb_order ` set (b # bs) = {} \<longleftrightarrow> os (tb_order b) = None \<and> dom os \<inter> R = {}"
      "insert (tb_key b) (dom ks) \<inter> K = {} \<longleftrightarrow> tb_key b \<notin> K \<and> dom ks \<inter> K = {}"
      "insert (tb_order b) (dom os) \<inter> R = {} \<longleftrightarrow> tb_order b \<notin> R \<and> dom os \<inter> R = {}"
      "dom ks \<union> tb_key ` set (b # bs) = insert (tb_key b) (dom ks) \<union> K"
      "distinct (map tb_key (b # bs)) \<longleftrightarrow> tb_key b \<notin> K \<and> distinct (map tb_key bs)"
      "distinct (map tb_order (b # bs)) \<longleftrightarrow> tb_order b \<notin> R \<and> distinct (map tb_order bs)"
      by (auto simp: K_def R_def domIff)
    note ih = Cons.IH [OF r, folded K_def R_def, unfolded d [OF True] k]
    have e: "es = []" "block_ok pf b" "ks (tb_key b) = None" "os (tb_order b) = None" using e5 True by simp_all
    note i1 = ih [THEN conjunct1] and i2 = ih [THEN conjunct2]
    show ?thesis
    proof (rule conjI)
      show "es' = [] \<longleftrightarrow> es = [] \<and> list_all (block_ok pf) (b # bs) \<and> distinct (map tb_key (b # bs)) \<and>
        distinct (map tb_order (b # bs)) \<and> dom ks \<inter> tb_key ` set (b # bs) = {} \<and> dom os \<inter> tb_order ` set (b # bs) = {}"
        unfolding k list.pred_inject(2) i1 by (simp only: True e simp_thms conj_ac)
      show "es' = [] \<longrightarrow> dom ks' = dom ks \<union> tb_key ` set (b # bs)"
        unfolding k by (rule i2)
    qed
  next
    case False
    have n: "es' \<noteq> []" using Cons.IH [OF r, THEN conjunct1] False by (simp only: simp_thms not_False_eq_True)
    have "\<not> (es = [] \<and> block_ok pf b \<and> tb_key b \<notin> dom ks \<and> tb_order b \<notin> dom os)"
      using False unfolding e5 by (simp add: domIff)
    with n show ?thesis by auto
  qed
qed simp

lemma missing_mandatory_Nil [simp]: "missing_mandatory ks mks es = [] \<longleftrightarrow> es = [] \<and> set mks \<subseteq> dom ks"
  by (induction mks arbitrary: es) auto

lemma validate_blocks_Nil:
  "validate_blocks pf bs = (ns, es) \<Longrightarrow> ns = map normal_block bs \<and> (es = [] \<longleftrightarrow> valid_blocks pf (map normal_block bs))"
proof (cases "bs = []")
  case False
  assume v: "validate_blocks pf bs = (ns, es)"
  obtain ks es1 where c: "check_blocks pf 0 (map normal_block bs) Map.empty Map.empty [] = (ks, es1)" by fastforce
  have "ns = map normal_block bs" "es = missing_mandatory ks mandatory_keys es1"
    using v c False by (simp_all add: validate_blocks_def Let_def)
  moreover have "es1 = [] \<longrightarrow> dom ks = set (map tb_key (map normal_block bs))" using check_blocks_Nil [OF c] by (simp add: image_image)
  ultimately show ?thesis using check_blocks_Nil [OF c] False by (simp add: valid_blocks_def image_image) blast
qed (simp add: validate_blocks_def valid_blocks_def)

lemma validate_template_iff:
  "validate_template pf req = Inr r \<longleftrightarrow>
    valid_matrix (normalize_enums req) \<and> valid_blocks pf (map normal_block (ty_blocks req)) \<and>
    r = (normalize_enums req)\<lparr>ty_blocks := map normal_block (ty_blocks req)\<rparr>"
proof -
  obtain ns es where v: "validate_blocks pf (ty_blocks req) = (ns, es)" by (cases "validate_blocks pf (ty_blocks req)")
  have "ty_blocks (normalize_enums req) = ty_blocks req" by (simp add: normalize_enums_def)
  with validate_blocks_Nil [OF v] v show ?thesis
    by (auto simp: validate_template_def Let_def matrix_errors_Nil)
qed

subsection \<open>Synchronised templates\<close>

definition content_ok :: "parse_float \<Rightarrow> template_block \<Rightarrow> bool" where
  "content_ok pf b = (tb_type b \<noteq> [] \<and> tb_title b \<noteq> [] \<and>
     (trim_space (tb_type b) = [] \<or> schema_ok pf (tb_type b) (tb_config b) (tb_validation b)))"

lemma block_ok_content: "block_ok pf b \<longleftrightarrow> tb_key b \<noteq> [] \<and> 0 < tb_order b \<and> content_ok pf b"
  by (auto simp: block_ok_def content_ok_def)

lemma normal_block_simps [simp]: "tb_key (normal_block b) = block_key b" "tb_order (normal_block b) = tb_order b"
  by (simp_all add: normal_block_def block_key_def)

lemma content_ok_frame [simp]:
  "content_ok pf (normal_block (b\<lparr>tb_order := n\<rparr>)) = content_ok pf (normal_block b)"
  "content_ok pf (normal_block (b\<lparr>tb_id := i\<rparr>)) = content_ok pf (normal_block b)"
  "content_ok pf (normal_block (b\<lparr>tb_description := d\<rparr>)) = content_ok pf (normal_block b)"
  by (simp_all add: content_ok_def normal_block_def)

lemma content_ok_apply_flat [simp]: "content_ok pf (normal_block (apply_flat mk b req)) = content_ok pf (normal_block b)"
  by (simp add: apply_flat_def)

lemma content_ok_with_id: "with_id b g = (b', g') \<Longrightarrow> content_ok pf (normal_block b') = content_ok pf (normal_block b)"
  by (auto simp: with_id_def new_uuid_def split: if_splits)

lemma positive_integer_AInt: "0 < i \<Longrightarrow> positive_integer pf (AInt i) \<noteq> None"
  by (simp add: positive_integer_def)

text \<open>The shapes of the mandatory blocks pass the schema of their type.\<close>

lemma mandatory_shape_text:
  "mk \<in> set mandatory_keys \<Longrightarrow> mandatory_shape mk = (title, bt, cfg) \<Longrightarrow>
    trim_space title \<noteq> [] \<and> (bt = ''text'' \<or> bt = ''rich_text'') \<and>
    (\<exists>n. map_of cfg ''max_length'' = Some (AInt n) \<and> 0 < n) \<and>
    opt_all is_bool_value (present cfg ''allow_html'')"
proof -
  have t: "list_all (\<lambda>mk. trim_space (fst (mandatory_shape mk)) \<noteq> []) mandatory_keys" by code_simp
  then have "mk \<in> set mandatory_keys \<Longrightarrow> trim_space (fst (mandatory_shape mk)) \<noteq> []" by (simp add: list_all_iff)
  then show "mk \<in> set mandatory_keys \<Longrightarrow> mandatory_shape mk = (title, bt, cfg) \<Longrightarrow> ?thesis"
    by (auto simp: mandatory_keys_def mandatory_shape_def present_def)
qed

lemma text_types: "trim_space ''text'' = ''text''" "trim_space ''rich_text'' = ''rich_text''"
  "to_lower ''text'' = ''text''" "to_lower ''rich_text'' = ''rich_text''"
  "canonical_block_type ''text'' = ''text''" "canonical_block_type ''rich_text'' = ''rich_text''"
  "''text'' \<in> set block_types_allowed" "''rich_text'' \<in> set block_types_allowed"
  by code_simp+

lemma content_ok_new:
  assumes "mk \<in> set mandatory_keys" and "new_mandatory_block mk req ord g = (b, g')"
  shows "content_ok pf (normal_block b)"
proof -
  obtain title bt cfg where s: "mandatory_shape mk = (title, bt, cfg)" by (cases "mandatory_shape mk")
  from mandatory_shape_text [OF assms(1) s] obtain n where n: "trim_space title \<noteq> []" "bt = ''text'' \<or> bt = ''rich_text''"
    "map_of cfg ''max_length'' = Some (AInt n)" "0 < n"
    "opt_all is_bool_value (present cfg ''allow_html'')" by blast
  have b: "tb_type b = bt" "tb_title b = title" "tb_config b = cfg"
    using assms(2) s by (auto simp: new_mandatory_block_def new_uuid_def)
  have "positive_field pf cfg ''max_length''" using n positive_integer_AInt by (simp add: positive_field_def present_def)
  with n(5) have "schema_ok pf bt cfg val" for val
    using n(2) by (auto simp: schema_ok_def text_types Let_def)
  with b n show ?thesis by (auto simp: content_ok_def normal_block_def text_types)
qed

lemma content_ok_place_mandatory:
  "place_mandatory mks req ord g = (bs, g') \<Longrightarrow> set mks \<subseteq> set mandatory_keys \<Longrightarrow>
    list_all (\<lambda>b. content_ok pf (normal_block b)) (ty_blocks req) \<Longrightarrow> list_all (\<lambda>b. content_ok pf (normal_block b)) bs"
proof (induction mks arbitrary: ord g bs)
  case (Cons mk mks)
  define bg where "bg = (case by_key (ty_blocks req) mk of None \<Rightarrow> new_mandatory_block mk req ord g
    | Some b \<Rightarrow> with_id (apply_flat mk b req) g)"
  obtain b g1 where b: "bg = (b, g1)" by (cases bg)
  with Cons.prems obtain bs' where bs': "place_mandatory mks req (ord + 1) g1 = (bs', g')"
    and bs: "bs = b\<lparr>tb_order := ord\<rparr> # bs'" by (auto simp: bg_def split: prod.splits)
  have "content_ok pf (normal_block b)"
  proof (cases "by_key (ty_blocks req) mk")
    case None
    with b Cons.prems(2) content_ok_new [of mk req ord g b g1 pf] show ?thesis by (simp add: bg_def)
  next
    case (Some c)
    with by_key_Some [OF Some] Cons.prems(3) have "content_ok pf (normal_block c)" by (simp add: list_all_iff)
    with b Some content_ok_with_id [of "apply_flat mk c req" g b g1] show ?thesis by (simp add: bg_def)
  qed
  with Cons.IH [OF bs'] Cons.prems bs show ?case by simp
qed simp

lemma content_ok_place_extras:
  "place_extras es ord g = (bs, g') \<Longrightarrow> list_all (\<lambda>b. content_ok pf (normal_block b)) es \<Longrightarrow>
    list_all (\<lambda>b. content_ok pf (normal_block b)) bs"
proof (induction es arbitrary: ord g bs)
  case (Cons b es)
  obtain b1 g1 where b: "with_id b g = (b1, g1)" by (cases "with_id b g")
  with Cons.prems obtain bs' where "place_extras es (ord + 1) g1 = (bs', g')" and "bs = b1\<lparr>tb_order := ord\<rparr> # bs'"
    by (auto split: prod.splits)
  with Cons.IH [of "ord + 1" g1 bs'] Cons.prems(2) content_ok_with_id [OF b] show ?case by simp
qed simp

lemma content_ok_materialize:
  "materialize mks req ord g = (bs, g') \<Longrightarrow> set mks \<subseteq> set mandatory_keys \<Longrightarrow> list_all (\<lambda>b. content_ok pf (normal_block b)) bs"
proof (induction mks arbitrary: ord g bs)
  case (Cons mk mks)
  obtain b g1 where b: "new_mandatory_block mk req ord g = (b, g1)" by (cases "new_mandatory_block mk req ord g")
  with Cons.prems obtain bs' where "materialize mks req (ord + 1) g1 = (bs', g')" and "bs = b # bs'"
    by (auto split: prod.splits)
  with Cons.IH [of "ord + 1" g1 bs'] Cons.prems(2) content_ok_new [OF _ b] show ?case by simp
qed simp

lemma content_ok_sync:
  assumes "\<not> has_duplicate_keys [] (ty_blocks req)" and "ty_blocks req \<noteq> [] \<or> any_flat req" and "fresh_ids g"
    and "sync_template req g = (r, g')" and "list_all (\<lambda>b. content_ok pf (normal_block b)) (ty_blocks req)"
  shows "list_all (\<lambda>b. content_ok pf (normal_block b)) (ty_blocks r)"
proof -
  obtain r1 g1 r2 where e: "ensure_blocks req g = (r1, g1)" and rb: "rebuild_blocks r1 g1 = (r2, g')" and r: "r = mirror_flat r2"
    by (rule sync_decompose [OF assms(4,1,3,2)])
  note f = ensure_blocks_facts [OF e assms(1,3,2)]
  have c1: "list_all (\<lambda>b. content_ok pf (normal_block b)) (ty_blocks r1)"
  proof (cases "ty_blocks req = []")
    case True
    with e assms(2) obtain bs where "materialize mandatory_keys req 1 g = (bs, g1)" and "r1 = req\<lparr>ty_blocks := bs\<rparr>"
      by (auto simp: ensure_blocks_def split: prod.splits)
    with content_ok_materialize [of mandatory_keys req 1 g bs g1 pf] show ?thesis by simp
  next
    case False
    with e assms(5) show ?thesis by (auto simp: ensure_blocks_def)
  qed
  obtain ms g3 where ms: "place_mandatory mandatory_keys r1 1 g1 = (ms, g3)" by (cases "place_mandatory mandatory_keys r1 1 g1")
  with rb f obtain es where es: "place_extras (extra_blocks (ty_blocks r1)) (1 + int (length mandatory_keys)) g3 = (es, g')"
    and r2: "ty_blocks r2 = ms @ es" by (auto simp: rebuild_blocks_def split: prod.splits)
  have "list_all (\<lambda>b. content_ok pf (normal_block b)) (extra_blocks (ty_blocks r1))"
    using c1 by (simp add: extra_blocks_def list_all_iff)
  with content_ok_place_mandatory [OF ms _ c1] content_ok_place_extras [OF es] r r2 show ?thesis by simp
qed

lemma sync_accepts:
  assumes "\<not> has_duplicate_keys [] (ty_blocks req)" and "ty_blocks req \<noteq> [] \<or> any_flat req" and "fresh_ids g"
    and "sync_template req g = (r, g')" and "list_all (\<lambda>b. content_ok pf (normal_block b)) (ty_blocks req)"
  shows "(\<exists>v. validate_template pf r = Inr v) \<longleftrightarrow> valid_matrix (normalize_enums r)"
proof -
  note n = sync_blocks_normal [OF assms(1-4)] and c = content_ok_sync [OF assms]
  have keys: "map block_key (ty_blocks r) = mandatory_keys @ map block_key (extra_blocks (ty_blocks req))"
    and d: "distinct (map block_key (ty_blocks r))" and o: "map tb_order (ty_blocks r) = [1..int (length (ty_blocks r))]"
    using n by blast+
  have "block_key b \<noteq> []" if "b \<in> set (ty_blocks r)" for b
  proof -
    from that have "block_key b \<in> set (map block_key (ty_blocks r))" by simp
    then show ?thesis unfolding keys using mandatory_key_normal extra_key_not_mandatory by auto
  qed
  moreover have "0 < tb_order b" if "b \<in> set (ty_blocks r)" for b
  proof -
    from that have "tb_order b \<in> set (map tb_order (ty_blocks r))" by simp
    then show ?thesis unfolding o by simp
  qed
  ultimately have "list_all (block_ok pf) (map normal_block (ty_blocks r))"
    using c by (auto simp: block_ok_content list_all_iff)
  moreover have "distinct (map tb_order (map normal_block (ty_blocks r)))" using o by (simp add: o_def)
  moreover have "set mandatory_keys \<subseteq> set (map tb_key (map normal_block (ty_blocks r)))"
    using arg_cong [OF keys, of set] by (simp add: image_image)
  ultimately have "valid_blocks pf (map normal_block (ty_blocks r))" using d by (simp add: valid_blocks_def o_def)
  then show ?thesis by (simp add: validate_template_iff)
qed

subsection \<open>Properties\<close>

text \<open>C9: the validation of an upsert accepts a template exactly when its deadline rule is given, its
  category, periodicity and deadline strategy, after the aliases, are a row of the accepted matrix,
  and its normalised blocks are none or have a key, a known type, a title, a positive order and the
  schema of their type, with distinct keys and orders and all six mandatory keys; it then returns
  the normalised template, and otherwise a 400 with at least one field error.\<close>

theorem validation_decides:
  "(validate_template pf req = Inr r \<longleftrightarrow>
     valid_matrix (normalize_enums req) \<and> valid_blocks pf (map normal_block (ty_blocks req)) \<and>
     r = (normalize_enums req)\<lparr>ty_blocks := map normal_block (ty_blocks req)\<rparr>) \<and>
   (case validate_template pf req of Inl e \<Rightarrow> he_status e = 400 \<and> he_code e = CodeInvalidRequest \<and> he_details e \<noteq> []
      | Inr _ \<Rightarrow> True)"
proof
  show "validate_template pf req = Inr r \<longleftrightarrow>
     valid_matrix (normalize_enums req) \<and> valid_blocks pf (map normal_block (ty_blocks req)) \<and>
     r = (normalize_enums req)\<lparr>ty_blocks := map normal_block (ty_blocks req)\<rparr>"
    by (rule validate_template_iff)
  show "case validate_template pf req of Inl e \<Rightarrow> he_status e = 400 \<and> he_code e = CodeInvalidRequest \<and> he_details e \<noteq> []
      | Inr _ \<Rightarrow> True"
    by (auto simp: validate_template_def Let_def new_validation_error_def split: prod.split)
qed

text \<open>The synchronisation and the validation fit together: when no block key is repeated and every
  block sent has a type, a title and a configuration its type allows, the synchronised template is
  accepted exactly when its matrix is; no mandatory block is missing and no order is taken twice,
  whatever blocks and orders were sent.\<close>

theorem synced_blocks_pass:
  assumes "\<not> has_duplicate_keys [] (ty_blocks req)" and "ty_blocks req \<noteq> [] \<or> any_flat req" and "fresh_ids g"
    and "sync_template req g = (r, g')" and "list_all (\<lambda>b. content_ok pf (normal_block b)) (ty_blocks req)"
  shows "(\<exists>v. validate_template pf r = Inr v) \<longleftrightarrow> valid_matrix (normalize_enums r)"
  by (rule sync_accepts [OF assms])

theorem synced_blocks_pass_witness:
  "\<exists>v. validate_template (\<lambda>_. None) (fst (sync_template (wit_type\<lparr>ty_blocks := [], ty_deadline_rule := ''20 days''\<rparr>) tally_ids)) = Inr v"
proof -
  let ?req = "wit_type\<lparr>ty_blocks := [], ty_deadline_rule := ''20 days''\<rparr>"
  have "\<not> has_duplicate_keys [] (ty_blocks ?req)" "ty_blocks ?req \<noteq> [] \<or> any_flat ?req" by code_simp+
  note s = synced_blocks_pass [OF this fresh_tally_ids surjective_pairing, of "\<lambda>_. None"]
  have "valid_matrix (normalize_enums (fst (sync_template ?req tally_ids)))" by code_simp
  then show ?thesis using s by simp
qed

end
