(* ===== verification/GoTime.thy ===== *)
theory GoTime
  imports HttpErrors
begin

section \<open>Calendar dates as package time reads and prints them\<close>

text \<open>
  The layout \<^verbatim>\<open>2006-01-02\<close> of package \<open>time\<close>: four digits, two digits, two
  digits, each number in range. A point in time is its Unix second in UTC; its date is found by
  counting the years and the months of the Gregorian calendar, in cycles of 400 years. The lemmas
  show that a date of the clock is valid and that printing it is undone by parsing.
\<close>

definition is_leap :: "int \<Rightarrow> bool" where
  "is_leap y = (y mod 4 = 0 \<and> (y mod 100 \<noteq> 0 \<or> y mod 400 = 0))"

definition days_in :: "int \<Rightarrow> int \<Rightarrow> int" where
  "days_in m y = (if m = 2 then if is_leap y then 29 else 28
     else if m = 4 \<or> m = 6 \<or> m = 9 \<or> m = 11 then 30 else 31)"

type_synonym date = "int \<times> int \<times> int"

fun valid_date :: "date \<Rightarrow> bool" where
  "valid_date (y, m, d) = (0 \<le> y \<and> y < 10000 \<and> 1 \<le> m \<and> m \<le> 12 \<and> 1 \<le> d \<and> d \<le> days_in m y)"

definition parse_date :: "string \<Rightarrow> date option" where
  "parse_date s =
    (let y = take 4 s; m = take 2 (drop 5 s); d = drop 8 s; v = (digits_val y, digits_val m, digits_val d) in
     if length s = 10 \<and> list_all is_digit (y @ m @ d) \<and> s ! 4 = CHR ''-'' \<and> s ! 7 = CHR ''-'' \<and> valid_date v
     then Some v else None)"

text \<open>A number printed with leading zeros to a width.\<close>

fun pad_digits :: "nat \<Rightarrow> int \<Rightarrow> string" where
  "pad_digits 0 n = (if n = 0 then [] else pos_digits n)"
| "pad_digits (Suc k) n = pad_digits k (n div 10) @ [digit_char (n mod 10)]"

fun format_date :: "date \<Rightarrow> string" where
  "format_date (y, m, d) = pad_digits 4 y @ ''-'' @ pad_digits 2 m @ ''-'' @ pad_digits 2 d"

lemma pad_digits_shape:
  "0 \<le> n \<Longrightarrow> n < 10 ^ k \<Longrightarrow> length (pad_digits k n) = k \<and> list_all is_digit (pad_digits k n) \<and> digits_val (pad_digits k n) = n"
proof (induction k arbitrary: n)
  case (Suc k)
  from Suc.prems have "0 \<le> n div 10" "n div 10 < 10 ^ k" by auto
  from Suc.IH [OF this] show ?case by (simp add: digits_val_snoc digit_char_digit)
qed (simp add: digits_val_def)

lemma parse_format_date:
  assumes "valid_date dt"
  shows "parse_date (format_date dt) = Some dt"
proof -
  obtain y m d where dt: "dt = (y, m, d)" by (cases dt)
  with assms have "d \<le> 31" by (simp add: days_in_def split: if_splits)
  with assms dt have "0 \<le> y" "y < 10 ^ 4" "0 \<le> m" "m < 10 ^ 2" "0 \<le> d" "d < 10 ^ 2" by simp_all
  note y = pad_digits_shape [OF this(1,2)] and m = pad_digits_shape [OF this(3,4)] and d = pad_digits_shape [OF this(5,6)]
  from y m d assms dt show ?thesis
    by (simp del: pad_digits.simps add: parse_date_def Let_def nth_append)
qed

lemma parse_date_length: "parse_date s = Some dt \<Longrightarrow> length s = 10"
  by (simp add: parse_date_def Let_def split: if_splits)

lemma parse_date_valid: "parse_date s = Some dt \<Longrightarrow> valid_date dt"
  by (auto simp add: parse_date_def Let_def split: if_splits)

subsection \<open>The date of a point in time\<close>

definition year_len :: "int \<Rightarrow> int" where
  "year_len y = (if is_leap y then 366 else 365)"

function year_of :: "int \<Rightarrow> int \<Rightarrow> int \<times> int" where
  "year_of y d = (if d < year_len y then (y, d) else year_of (y + 1) (d - year_len y))"
  by pat_completeness auto
termination year_of
  by (relation "measure (\<lambda>(_, d). nat d)") (auto simp: year_len_def split: if_splits)

declare year_of.simps [simp del]

function month_of :: "int \<Rightarrow> int \<Rightarrow> int \<Rightarrow> int \<times> int" where
  "month_of y m d = (if 12 \<le> m \<or> d < days_in m y then (m, d + 1) else month_of y (m + 1) (d - days_in m y))"
  by pat_completeness auto
termination month_of
  by (relation "measure (\<lambda>(_, m, _). nat (12 - m))") auto

declare month_of.simps [simp del]

definition date_of_days :: "int \<Rightarrow> date" where
  "date_of_days n = (let (y, k) = year_of (1970 + 400 * (n div 146097)) (n mod 146097) in (y, month_of y 1 k))"

definition utc_date :: "int \<Rightarrow> date" where
  "utc_date t = date_of_days (t div 86400)"

lemma year_of_bounds: "0 \<le> d \<Longrightarrow> year_of y d = (y', k) \<Longrightarrow> y \<le> y' \<and> 0 \<le> k \<and> k < year_len y'"
proof (induction y d rule: year_of.induct)
  case (1 y d)
  show ?case
  proof (cases "d < year_len y")
    case True
    with "1.prems" show ?thesis by (simp add: year_of.simps [of y d])
  next
    case False
    with "1.prems" have "year_of (y + 1) (d - year_len y) = (y', k)" by (simp add: year_of.simps [of y d])
    with "1.IH" [OF False] False show ?thesis by simp
  qed
qed

text \<open>The days of the year from a month on.\<close>

definition days_from :: "int \<Rightarrow> int \<Rightarrow> int" where
  "days_from y m = sum_list (map (\<lambda>k. days_in k y) [m..12])"

lemma days_from_step: "m < 12 \<Longrightarrow> days_from y m = days_in m y + days_from y (m + 1)"
  by (subst days_from_def, subst upto.simps) (simp add: days_from_def)

lemma days_from_1: "days_from y 1 = year_len y"
  by (simp add: days_from_def upto.simps days_in_def year_len_def)

lemma month_of_bounds:
  "1 \<le> m \<Longrightarrow> m \<le> 12 \<Longrightarrow> 0 \<le> k \<Longrightarrow> k < days_from y m \<Longrightarrow> month_of y m k = (m', d) \<Longrightarrow>
    1 \<le> m' \<and> m' \<le> 12 \<and> 1 \<le> d \<and> d \<le> days_in m' y"
proof (induction y m k rule: month_of.induct)
  case (1 y m k)
  show ?case
  proof (cases "12 \<le> m \<or> k < days_in m y")
    case True
    with "1.prems" have "m' = m" "d = k + 1" by (simp_all add: month_of.simps [of y m k])
    moreover have "k < days_in m y"
      using True "1.prems"(2,4) by (cases "m = 12") (auto simp: days_from_def)
    ultimately show ?thesis using "1.prems" by simp
  next
    case False
    with "1.prems" have "month_of y (m + 1) (k - days_in m y) = (m', d)" by (simp add: month_of.simps [of y m k])
    with "1.IH" [OF False] False "1.prems" days_from_step [of m y] show ?thesis by simp
  qed
qed

text \<open>The years the layout can print.\<close>

definition printable_time :: "int \<Rightarrow> bool" where
  "printable_time t = (0 \<le> t \<and> fst (utc_date t) < 10000)"

lemma valid_utc_date:
  assumes "printable_time t"
  shows "valid_date (utc_date t)"
proof -
  define n where "n = t div 86400"
  have n: "0 \<le> n" using assms by (simp add: n_def printable_time_def pos_imp_zdiv_nonneg_iff)
  obtain y k where y: "year_of (1970 + 400 * (n div 146097)) (n mod 146097) = (y, k)"
    by (cases "year_of (1970 + 400 * (n div 146097)) (n mod 146097)")
  have b: "1970 + 400 * (n div 146097) \<le> y \<and> 0 \<le> k \<and> k < year_len y"
    by (rule year_of_bounds [OF _ y]) simp
  have n': "0 \<le> n div 146097" using n by (simp add: pos_imp_zdiv_nonneg_iff)
  obtain m d where m: "month_of y 1 k = (m, d)" by (cases "month_of y 1 k")
  have "1 \<le> m \<and> m \<le> 12 \<and> 1 \<le> d \<and> d \<le> days_in m y"
    by (rule month_of_bounds [OF _ _ _ _ m]) (use b in \<open>simp_all add: days_from_1\<close>)
  moreover have dt: "utc_date t = (y, m, d)" using y m by (simp add: utc_date_def date_of_days_def n_def)
  moreover have "0 \<le> y" using b n' by linarith
  ultimately show ?thesis using assms by (simp add: printable_time_def)
qed

lemma utc_date_2026: "utc_date 1767225600 = (2026, 1, 1)" "utc_date 951782400 = (2000, 2, 29)"
  by code_simp+

end
