(* ===== verification/ServiceState.thy ===== *)
theory ServiceState
  imports Authorization
begin

section \<open>The state of an application service\<close>

text \<open>
  The services of disclosure and of the company administration are built alike
  (\<open>NewService(repo, auth, idg)\<close>): they hold a repository, the authorization service and the
  generator of identifiers. The state is the repository's, the generator's and the resolver's.
\<close>

record ('r, 's) svc_state =
  svc_repo :: 'r
  svc_ids :: idgen
  svc_auth :: 's

type_synonym ('r, 's, 'a) svc_action = "(go_error, ('r, 's) svc_state, 'a) action"

definition on_repo :: "(go_error, 'r, 'a) action \<Rightarrow> ('r, 's, 'a) svc_action" where
  "on_repo m s = (let (x, r') = m (svc_repo s) in (x, s\<lparr>svc_repo := r'\<rparr>))"

definition on_auth :: "(go_error, 's, 'a) action \<Rightarrow> ('r, 's, 'a) svc_action" where
  "on_auth m s = (let (x, a') = m (svc_auth s) in (x, s\<lparr>svc_auth := a'\<rparr>))"

definition on_ids :: "(idgen \<Rightarrow> 'a \<times> idgen) \<Rightarrow> ('r, 's, 'a) svc_action" where
  "on_ids f s = (let (x, g') = f (svc_ids s) in (Inr x, s\<lparr>svc_ids := g'\<rparr>))"

end
