(* ===== verification/DisclosureStore.thy ===== *)
theory DisclosureStore
  imports TemplateSync GoTime ServiceState Sql
begin

section \<open>Disclosure repositories: records, template catalog and versions\<close>

text \<open>
  Models the record and catalog types of \<^verbatim>\<open>internal/disclosure/app/contracts.go\<close> and both
  repositories, \<^verbatim>\<open>infra/inmemory/repository.go\<close> (maps, one of them keyed by
  \<open>company:record\<close>) and \<^verbatim>\<open>infra/mysql/repository.go\<close> (rows of the tables of migrations 0004, 0010,
  0012 and 0016, with their primary and foreign keys; a transaction that fails leaves the rows as
  they were; the driver reports changed rows, not matched ones). JSON columns hold their value.
  The interface \<open>record_store\<close> states what the service relies on for records.
\<close>

subsection \<open>Contract\<close>

record attachment =
  att_id :: string
  att_name :: string
  att_type :: string
  att_uploaded :: string

record disclosure_record =
  dr_id :: string
  dr_company :: string
  dr_type :: string
  dr_department :: string
  dr_title :: string
  dr_summary :: string
  dr_content :: string
  dr_planned :: string
  dr_published :: string
  dr_status :: string
  dr_attachments :: "attachment list"
  dr_evidence :: string
  dr_created_by :: string
  dr_updated_by :: string
  dr_created_at :: int
  dr_updated_at :: int

record type_group =
  tg_id :: string
  tg_name :: string
  tg_description :: string
  tg_icon :: string
  tg_order :: int

record type_summary =
  ts_id :: string
  ts_group :: string
  ts_name :: string
  ts_category :: string
  ts_template_category :: string
  ts_description :: string
  ts_deadline_rule :: string
  ts_tags :: "string list"

record type_dto = type_body +
  td_version :: int

record upsert_request = type_body +
  up_subject :: subject_ref
  up_note :: string

record type_version =
  tv_type :: string
  tv_no :: int
  tv_active :: bool
  tv_note :: string
  tv_by :: string
  tv_at :: int

record version_reply =
  vp_type :: string
  vp_version :: int
  vp_active :: bool
  vp_by :: string
  vp_at :: int

record activate_request =
  ac_subject :: subject_ref
  ac_type :: string
  ac_version :: int
  ac_reason :: string

text \<open>The repository of the service: one field per method, writes with the clock they read.\<close>

record 'r disclosure_port =
  dp_create :: "int \<Rightarrow> disclosure_record \<Rightarrow> (go_error, 'r, disclosure_record) action"
  dp_update :: "int \<Rightarrow> disclosure_record \<Rightarrow> (go_error, 'r, disclosure_record) action"
  dp_find :: "string \<Rightarrow> string \<Rightarrow> (go_error, 'r, disclosure_record) action"
  dp_list :: "string \<Rightarrow> (go_error, 'r, disclosure_record list) action"
  dp_groups :: "string \<Rightarrow> (go_error, 'r, type_group list) action"
  dp_types :: "string \<Rightarrow> string \<Rightarrow> string \<Rightarrow> (go_error, 'r, type_summary list) action"
  dp_type :: "string \<Rightarrow> string \<Rightarrow> (go_error, 'r, type_dto) action"
  dp_type_version :: "string \<Rightarrow> string \<Rightarrow> int \<Rightarrow> (go_error, 'r, type_dto) action"
  dp_upsert :: "int \<Rightarrow> upsert_request \<Rightarrow> (go_error, 'r, version_reply) action"
  dp_versions :: "string \<Rightarrow> string \<Rightarrow> (go_error, 'r, type_version list) action"
  dp_activate :: "int \<Rightarrow> activate_request \<Rightarrow> (go_error, 'r, version_reply) action"

definition no_record :: go_error where
  "no_record = not_found ''record not found''"

definition no_type :: go_error where
  "no_type = not_found ''disclosure type not found''"

definition no_type_version :: go_error where
  "no_type_version = not_found ''disclosure type version not found''"

subsection \<open>The in-memory repository\<close>

record disc_mem =
  dm_items :: "string \<rightharpoonup> disclosure_record"
  dm_groups :: "type_group list"
  dm_catalog :: "string \<rightharpoonup> type_dto"
  dm_by_version :: "string \<rightharpoonup> (int \<rightharpoonup> type_dto)"
  dm_versions :: "string \<rightharpoonup> type_version list"
  dm_scope :: "string \<rightharpoonup> string"

definition record_key :: "string \<Rightarrow> string \<Rightarrow> string" where
  "record_key c i = c @ CHR '':'' # i"

definition mem_create :: "int \<Rightarrow> disclosure_record \<Rightarrow> (go_error, disc_mem, disclosure_record) action" where
  "mem_create now r s = (Inr r, s\<lparr>dm_items := (dm_items s)(record_key (dr_company r) (dr_id r) \<mapsto> r)\<rparr>)"

definition mem_update :: "int \<Rightarrow> disclosure_record \<Rightarrow> (go_error, disc_mem, disclosure_record) action" where
  "mem_update now r s =
    (let k = record_key (dr_company r) (dr_id r) in
     case dm_items s k of None \<Rightarrow> (Inl no_record, s)
     | Some _ \<Rightarrow> (Inr r, s\<lparr>dm_items := (dm_items s)(k \<mapsto> r)\<rparr>))"

definition mem_find :: "string \<Rightarrow> string \<Rightarrow> (go_error, disc_mem, disclosure_record) action" where
  "mem_find c i s = (case dm_items s (record_key c i) of None \<Rightarrow> Inl no_record | Some r \<Rightarrow> Inr r, s)"

definition mem_list :: "(string, disclosure_record) visit \<Rightarrow> string \<Rightarrow> (go_error, disc_mem, disclosure_record list) action" where
  "mem_list ord c s = (Inr (filter (\<lambda>r. dr_company r = c) (map_values (dm_items s) (ord (dm_items s)))), s)"

definition mem_groups :: "string \<Rightarrow> (go_error, disc_mem, type_group list) action" where
  "mem_groups c s = (Inr (dm_groups s), s)"

text \<open>\<open>scope := m[typeID]; scope != "global" && scope != companyID\<close>: out of scope.\<close>

definition in_scope :: "disc_mem \<Rightarrow> string \<Rightarrow> string \<Rightarrow> bool" where
  "in_scope s c t = (let sc = (case dm_scope s t of None \<Rightarrow> [] | Some x \<Rightarrow> x) in sc = ''global'' \<or> sc = c)"

definition summary_of :: "'a type_body_scheme \<Rightarrow> type_summary" where
  "summary_of b = \<lparr>ts_id = ty_id b, ts_group = ty_group b, ts_name = ty_name b, ts_category = ty_category b,
     ts_template_category = ty_template_category b, ts_description = ty_description b,
     ts_deadline_rule = ty_deadline_rule b, ts_tags = ty_tags b\<rparr>"

definition mem_types :: "(string, type_dto) visit \<Rightarrow> string \<Rightarrow> string \<Rightarrow> string \<Rightarrow> (go_error, disc_mem, type_summary list) action" where
  "mem_types ord c gid query s =
    (let g = trim_space gid; q = to_lower (trim_space query) in
     (Inr (map summary_of (filter (\<lambda>b. in_scope s c (ty_id b) \<and> (g = [] \<or> ty_group b = g) \<and>
        (q = [] \<or> contains_str (to_lower (ty_name b @ '' '' @ ty_description b)) q))
        (map_values (dm_catalog s) (ord (dm_catalog s))))), s))"

definition mem_type :: "string \<Rightarrow> string \<Rightarrow> (go_error, disc_mem, type_dto) action" where
  "mem_type c t s = (case dm_catalog s t of None \<Rightarrow> Inl no_type
     | Some b \<Rightarrow> if in_scope s c t then Inr b else Inl no_type, s)"

definition mem_type_version :: "string \<Rightarrow> string \<Rightarrow> int \<Rightarrow> (go_error, disc_mem, type_dto) action" where
  "mem_type_version c t n s =
    (if \<not> in_scope s c t then Inl no_type_version
     else case dm_by_version s t of None \<Rightarrow> Inl no_type_version
     | Some m \<Rightarrow> (case m n of None \<Rightarrow> Inl no_type_version | Some b \<Rightarrow> Inr b), s)"

definition dto_of :: "int \<Rightarrow> 'a type_body_scheme \<Rightarrow> type_dto" where
  "dto_of n b = \<lparr>ty_id = ty_id b, ty_group = ty_group b, ty_name = ty_name b, ty_category = ty_category b,
     ty_template_category = ty_template_category b, ty_deadline_strategy = ty_deadline_strategy b,
     ty_description = ty_description b, ty_legal_basis = ty_legal_basis b, ty_applicability = ty_applicability b,
     ty_impl_content = ty_impl_content b, ty_impl_notes = ty_impl_notes b, ty_special_cases = ty_special_cases b,
     ty_report_content = ty_report_content b, ty_required_docs = ty_required_docs b,
     ty_deadline_rule = ty_deadline_rule b, ty_periodicity = ty_periodicity b, ty_channels = ty_channels b,
     ty_beneficiaries = ty_beneficiaries b, ty_authorities = ty_authorities b, ty_format = ty_format b,
     ty_legal_risks = ty_legal_risks b, ty_general_info = ty_general_info b, ty_reminders = ty_reminders b,
     ty_legal_bases = ty_legal_bases b, ty_checklist = ty_checklist b, ty_tags = ty_tags b, ty_blocks = ty_blocks b,
     td_version = n\<rparr>"

definition list_of :: "'v list option \<Rightarrow> 'v list" where
  "list_of x = (case x of None \<Rightarrow> [] | Some vs \<Rightarrow> vs)"

definition deactivate :: "type_version list \<Rightarrow> type_version list" where
  "deactivate vs = map (\<lambda>v. v\<lparr>tv_active := False\<rparr>) vs"

definition mem_upsert :: "int \<Rightarrow> upsert_request \<Rightarrow> (go_error, disc_mem, version_reply) action" where
  "mem_upsert now req s =
    (let t = ty_id req; by = sub_user (up_subject req);
         n = (case dm_catalog s t of None \<Rightarrow> 1 | Some cur \<Rightarrow> td_version cur + 1);
         nxt = dto_of n req;
         byver = (case dm_by_version s t of None \<Rightarrow> Map.empty | Some m \<Rightarrow> m);
         vs = deactivate (list_of (dm_versions s t)) @
           [\<lparr>tv_type = t, tv_no = n, tv_active = True, tv_note = trim_space (up_note req), tv_by = by, tv_at = now\<rparr>]
     in (Inr \<lparr>vp_type = t, vp_version = n, vp_active = True, vp_by = by, vp_at = now\<rparr>,
         s\<lparr>dm_catalog := (dm_catalog s)(t \<mapsto> nxt),
           dm_by_version := (dm_by_version s)(t \<mapsto> byver(n \<mapsto> nxt)),
           dm_scope := (dm_scope s)(t \<mapsto> sub_company (up_subject req)),
           dm_versions := (dm_versions s)(t \<mapsto> vs)\<rparr>))"

definition newest_first :: "type_version list \<Rightarrow> type_version list" where
  "newest_first vs = sort_key (\<lambda>v. - tv_no v) vs"

definition mem_versions :: "string \<Rightarrow> string \<Rightarrow> (go_error, disc_mem, type_version list) action" where
  "mem_versions c t s = (case dm_catalog s t of None \<Rightarrow> Inl no_type
     | Some _ \<Rightarrow> if in_scope s c t then Inr (newest_first (list_of (dm_versions s t))) else Inl no_type, s)"

text \<open>The last version of that number, as the loop of ActivateTypeVersion keeps it.\<close>

fun last_version :: "int \<Rightarrow> nat \<Rightarrow> type_version list \<Rightarrow> nat option" where
  "last_version n i [] = None"
| "last_version n i (v # vs) = (case last_version n (Suc i) vs of Some j \<Rightarrow> Some j
     | None \<Rightarrow> if tv_no v = n then Some i else None)"

definition mem_activate :: "int \<Rightarrow> activate_request \<Rightarrow> (go_error, disc_mem, version_reply) action" where
  "mem_activate now req s =
    (let t = ac_type req; n = ac_version req; by = sub_user (ac_subject req) in
     case dm_catalog s t of None \<Rightarrow> (Inl no_type, s)
     | Some cur \<Rightarrow>
       if \<not> in_scope s (sub_company (ac_subject req)) t then (Inl no_type, s)
       else let vs = deactivate (list_of (dm_versions s t));
                s1 = s\<lparr>dm_versions := (case dm_versions s t of None \<Rightarrow> dm_versions s | Some _ \<Rightarrow> (dm_versions s)(t \<mapsto> vs))\<rparr>
            in case last_version n 0 vs of None \<Rightarrow> (Inl no_type_version, s1)
            | Some j \<Rightarrow>
              let vs' = vs[j := (vs ! j)\<lparr>tv_active := True, tv_by := by, tv_at := now\<rparr>];
                  item = (case dm_by_version s t of None \<Rightarrow> cur\<lparr>td_version := n\<rparr>
                    | Some m \<Rightarrow> (case m n of None \<Rightarrow> cur\<lparr>td_version := n\<rparr> | Some snap \<Rightarrow> snap))
              in (Inr \<lparr>vp_type = t, vp_version = n, vp_active = True, vp_by = by, vp_at = now\<rparr>,
                  s1\<lparr>dm_versions := (dm_versions s)(t \<mapsto> vs'), dm_catalog := (dm_catalog s)(t \<mapsto> item)\<rparr>))"

definition mem_disclosure :: "(string, disclosure_record) visit \<Rightarrow> (string, type_dto) visit \<Rightarrow> disc_mem disclosure_port" where
  "mem_disclosure oi oc = \<lparr>
     dp_create = mem_create, dp_update = mem_update, dp_find = mem_find, dp_list = mem_list oi,
     dp_groups = mem_groups, dp_types = mem_types oc, dp_type = mem_type, dp_type_version = mem_type_version,
     dp_upsert = mem_upsert, dp_versions = mem_versions, dp_activate = mem_activate\<rparr>"

subsection \<open>The MySQL repository\<close>

record type_row =
  tyr_id :: string
  tyr_company :: "string option"
  tyr_group :: string
  tyr_active :: int

text \<open>A row of the versions table: its columns as a \<open>type_body\<close> whose group and blocks are not used.\<close>

record version_row =
  vrow_type :: string
  vrow_no :: int
  vrow_body :: type_body
  vrow_note :: string
  vrow_by :: string
  vrow_at :: int

record block_row =
  brow_type :: string
  brow_no :: int
  brow_block :: template_block

record disc_db =
  dd_records :: "disclosure_record list"
  dd_groups :: "type_group list"
  dd_types :: "type_row list"
  dd_versions :: "version_row list"
  dd_blocks :: "block_row list"

definition db_find :: "string \<Rightarrow> string \<Rightarrow> disc_db \<Rightarrow> disclosure_record option" where
  "db_find c i s = List.find (\<lambda>r. dr_company r = c \<and> dr_id r = i) (dd_records s)"

definition sql_find :: "string \<Rightarrow> string \<Rightarrow> (go_error, disc_db, disclosure_record) action" where
  "sql_find c i s = (case db_find c i s of None \<Rightarrow> Inl no_record | Some r \<Rightarrow> Inr r, s)"

definition sql_create :: "int \<Rightarrow> disclosure_record \<Rightarrow> (go_error, disc_db, disclosure_record) action" where
  "sql_create now r s =
    (if list_ex (\<lambda>x. dr_id x = dr_id r) (dd_records s) then (Inl (WrapErr ''disclosure insert'' duplicate_key), s)
     else let s' = s\<lparr>dd_records := dd_records s @ [r\<lparr>dr_created_at := now, dr_updated_at := now\<rparr>]\<rparr>
          in sql_find (dr_company r) (dr_id r) s')"

text \<open>The assignments of the UPDATE statement: \<open>created_by\<close> and \<open>created_at\<close> keep their value.\<close>

definition assign_record :: "disclosure_record \<Rightarrow> disclosure_record \<Rightarrow> disclosure_record" where
  "assign_record r row = row\<lparr>dr_type := dr_type r, dr_department := dr_department r, dr_title := dr_title r,
     dr_summary := dr_summary r, dr_content := dr_content r, dr_planned := dr_planned r,
     dr_published := dr_published r, dr_status := dr_status r, dr_attachments := dr_attachments r,
     dr_evidence := dr_evidence r, dr_updated_by := dr_updated_by r\<rparr>"

definition sql_save :: "int \<Rightarrow> disclosure_record \<Rightarrow> (go_error, disc_db, disclosure_record) action" where
  "sql_save now r s =
    (case db_find (dr_company r) (dr_id r) s of None \<Rightarrow> (Inl no_record, s)
     | Some row \<Rightarrow> if assign_record r row = row then (Inl no_record, s)
       else sql_find (dr_company r) (dr_id r) (s\<lparr>dd_records := map (\<lambda>x.
         if dr_id x = dr_id r \<and> dr_company x = dr_company r then (assign_record r x)\<lparr>dr_updated_at := now\<rparr> else x)
         (dd_records s)\<rparr>))"

definition sql_list :: "string \<Rightarrow> (go_error, disc_db, disclosure_record list) action" where
  "sql_list c s = (Inr (sort_key (\<lambda>r. - dr_created_at r) (filter (\<lambda>r. dr_company r = c) (dd_records s))), s)"

definition sql_groups :: "string \<Rightarrow> (go_error, disc_db, type_group list) action" where
  "sql_groups c s = (Inr (sort_key (\<lambda>g. (tg_order g, tg_id g)) (dd_groups s)), s)"

definition visible :: "string \<Rightarrow> type_row \<Rightarrow> bool" where
  "visible c t = (tyr_company t = None \<or> tyr_company t = Some c)"

definition version_of :: "disc_db \<Rightarrow> string \<Rightarrow> int \<Rightarrow> version_row option" where
  "version_of s t n = List.find (\<lambda>v. vrow_type v = t \<and> vrow_no v = n) (dd_versions s)"

definition type_of_id :: "disc_db \<Rightarrow> string \<Rightarrow> type_row option" where
  "type_of_id s t = List.find (\<lambda>r. tyr_id r = t) (dd_types s)"

text \<open>\<open>lower_like x p\<close> is the condition \<^verbatim>\<open>LOWER(x) LIKE p\<close> of the server.\<close>

definition sql_types :: "(string \<Rightarrow> string \<Rightarrow> bool) \<Rightarrow> string \<Rightarrow> string \<Rightarrow> string \<Rightarrow>
    (go_error, disc_db, type_summary list) action" where
  "sql_types lower_like c gid query s =
    (let g = trim_space gid; q = trim_space query; p = ''%'' @ to_lower q @ ''%'';
         ts = sort_key tyr_id (filter (\<lambda>t. visible c t \<and> (g = [] \<or> tyr_group t = g)) (dd_types s)) in
     (Inr (concat (map (\<lambda>t. case version_of s (tyr_id t) (tyr_active t) of
          None \<Rightarrow> []
        | Some v \<Rightarrow> if q = [] \<or> lower_like (ty_name (vrow_body v)) p \<or> lower_like (ty_description (vrow_body v)) p
            then [summary_of ((vrow_body v)\<lparr>ty_id := tyr_id t, ty_group := tyr_group t\<rparr>)] else []) ts)), s))"

definition list_template_blocks :: "disc_db \<Rightarrow> string \<Rightarrow> int \<Rightarrow> template_block list" where
  "list_template_blocks s t n = sort_key (\<lambda>b. (tb_order b, tb_id b))
     (map brow_block (filter (\<lambda>r. brow_type r = t \<and> brow_no r = n) (dd_blocks s)))"

definition type_detail :: "disc_db \<Rightarrow> type_row \<Rightarrow> version_row \<Rightarrow> type_dto" where
  "type_detail s t v = dto_of (vrow_no v) ((vrow_body v)\<lparr>ty_id := tyr_id t, ty_group := tyr_group t,
     ty_blocks := list_template_blocks s (tyr_id t) (vrow_no v)\<rparr>)"

definition sql_type_version :: "string \<Rightarrow> string \<Rightarrow> int \<Rightarrow> (go_error, disc_db, type_dto) action" where
  "sql_type_version c t n s =
    (case (type_of_id s t, version_of s t n) of
       (Some row, Some v) \<Rightarrow> if visible c row then Inr (type_detail s row v) else Inl no_type_version
     | _ \<Rightarrow> Inl no_type_version, s)"

definition sql_type :: "string \<Rightarrow> string \<Rightarrow> (go_error, disc_db, type_dto) action" where
  "sql_type c t s =
    (case type_of_id s t of None \<Rightarrow> Inl no_type
     | Some row \<Rightarrow> (case version_of s t (tyr_active row) of None \<Rightarrow> Inl no_type
       | Some v \<Rightarrow> if visible c row then Inr (type_detail s row v) else Inl no_type), s)"

definition foreign_company :: "string option \<Rightarrow> string \<Rightarrow> bool" where
  "foreign_company co c = (case co of None \<Rightarrow> False | Some x \<Rightarrow> x \<noteq> [] \<and> x \<noteq> c)"

definition other_company :: go_error where
  "other_company = new_http_error 403 CodePermissionDenied ''cannot modify type from another company''"

text \<open>The statements of the transaction; a violated key is the error of the statement.\<close>

definition insert_type :: "type_row \<Rightarrow> disc_db \<Rightarrow> go_error + disc_db" where
  "insert_type r s =
    (if type_of_id s (tyr_id r) \<noteq> None then Inl duplicate_key
     else if \<not> list_ex (\<lambda>g. tg_id g = tyr_group r) (dd_groups s) then Inl foreign_key
     else Inr (s\<lparr>dd_types := dd_types s @ [r]\<rparr>))"

definition insert_version :: "version_row \<Rightarrow> disc_db \<Rightarrow> go_error + disc_db" where
  "insert_version v s =
    (if version_of s (vrow_type v) (vrow_no v) \<noteq> None then Inl duplicate_key
     else Inr (s\<lparr>dd_versions := dd_versions s @ [v]\<rparr>))"

definition block_clash :: "block_row \<Rightarrow> block_row \<Rightarrow> bool" where
  "block_clash a b = (brow_type a = brow_type b \<and> brow_no a = brow_no b \<and>
     (tb_id (brow_block a) = tb_id (brow_block b) \<or> tb_key (brow_block a) = tb_key (brow_block b) \<or>
      tb_order (brow_block a) = tb_order (brow_block b)))"

fun insert_blocks :: "string \<Rightarrow> int \<Rightarrow> template_block list \<Rightarrow> disc_db \<Rightarrow> go_error + disc_db" where
  "insert_blocks t n [] s = Inr s"
| "insert_blocks t n (b # bs) s =
    (let row = \<lparr>brow_type = t, brow_no = n, brow_block = b\<rparr> in
     if list_ex (block_clash row) (dd_blocks s) then Inl duplicate_key
     else insert_blocks t n bs (s\<lparr>dd_blocks := dd_blocks s @ [row]\<rparr>))"

definition activate_row :: "string \<Rightarrow> string option \<Rightarrow> int \<Rightarrow> disc_db \<Rightarrow> go_error + disc_db" where
  "activate_row t g n s =
    (if (case g of None \<Rightarrow> False | Some x \<Rightarrow> \<not> list_ex (\<lambda>y. tg_id y = x) (dd_groups s)) then Inl foreign_key
     else Inr (s\<lparr>dd_types := map (\<lambda>r. if tyr_id r = t then
        r\<lparr>tyr_group := (case g of None \<Rightarrow> tyr_group r | Some x \<Rightarrow> x), tyr_active := n\<rparr> else r) (dd_types s)\<rparr>))"

definition body_columns :: "'a type_body_scheme \<Rightarrow> type_body" where
  "body_columns b = type_body.truncate b\<lparr>ty_group := [], ty_blocks := []\<rparr>"

definition transact :: "(disc_db \<Rightarrow> go_error + disc_db) \<Rightarrow> 'a \<Rightarrow> (go_error, disc_db, 'a) action" where
  "transact body res s = (case body s of Inl e \<Rightarrow> (Inl e, s) | Inr s' \<Rightarrow> (Inr res, s'))"

definition sql_upsert :: "int \<Rightarrow> upsert_request \<Rightarrow> (go_error, disc_db, version_reply) action" where
  "sql_upsert now req s =
    (let t = ty_id req; c = trim_space (sub_company (up_subject req)); g = trim_space (ty_group req);
         by = sub_user (up_subject req); cur = type_of_id s t;
         co = Option.bind cur tyr_company;
         n = (case cur of None \<Rightarrow> 1 | Some row \<Rightarrow> if 0 < tyr_active row then tyr_active row + 1 else 1)
     in if foreign_company co c then (Inl other_company, s)
        else transact (\<lambda>s0.
          bindR (if co = None then insert_type \<lparr>tyr_id = t, tyr_company = Some c, tyr_group = g, tyr_active = 0\<rparr> s0 else Inr s0) (\<lambda>s1.
          bindR (insert_version \<lparr>vrow_type = t, vrow_no = n, vrow_body = body_columns req,
             vrow_note = trim_space (up_note req), vrow_by = by, vrow_at = now\<rparr> s1) (\<lambda>s2.
          bindR (insert_blocks t n (ty_blocks req) s2) (\<lambda>s3.
          activate_row t (Some g) n s3))))
          \<lparr>vp_type = t, vp_version = n, vp_active = True, vp_by = by, vp_at = now\<rparr> s)"

definition sql_versions :: "string \<Rightarrow> string \<Rightarrow> (go_error, disc_db, type_version list) action" where
  "sql_versions c t s =
    (let vs = (case type_of_id s t of None \<Rightarrow> []
         | Some row \<Rightarrow> if visible c row then map (\<lambda>v. \<lparr>tv_type = vrow_type v, tv_no = vrow_no v,
             tv_active = (vrow_no v = tyr_active row), tv_note = vrow_note v, tv_by = vrow_by v, tv_at = vrow_at v\<rparr>)
             (filter (\<lambda>v. vrow_type v = t) (dd_versions s)) else [])
     in (if vs = [] then Inl no_type else Inr (newest_first vs), s))"

definition sql_activate :: "int \<Rightarrow> activate_request \<Rightarrow> (go_error, disc_db, version_reply) action" where
  "sql_activate now req s =
    (let t = ac_type req; n = ac_version req; by = sub_user (ac_subject req) in
     case type_of_id s t of None \<Rightarrow> (Inl no_type, s)
     | Some row \<Rightarrow>
       if foreign_company (tyr_company row) (sub_company (ac_subject req)) then (Inl other_company, s)
       else if version_of s t n = None then (Inl no_type_version, s)
       else transact (\<lambda>s0. activate_row t None n (s0\<lparr>dd_versions := map (\<lambda>v.
           if vrow_type v = t \<and> vrow_no v = n then v\<lparr>vrow_by := by, vrow_at := now\<rparr> else v) (dd_versions s0)\<rparr>))
         \<lparr>vp_type = t, vp_version = n, vp_active = True, vp_by = by, vp_at = now\<rparr> s)"

definition sql_disclosure :: "(string \<Rightarrow> string \<Rightarrow> bool) \<Rightarrow> disc_db disclosure_port" where
  "sql_disclosure lower_like = \<lparr>
     dp_create = sql_create, dp_update = sql_save, dp_find = sql_find, dp_list = sql_list,
     dp_groups = sql_groups, dp_types = sql_types lower_like, dp_type = sql_type, dp_type_version = sql_type_version,
     dp_upsert = sql_upsert, dp_versions = sql_versions, dp_activate = sql_activate\<rparr>"

subsection \<open>What the service relies on for records\<close>

text \<open>The record written and the record read back agree except for the time stamps.\<close>

definition same_content :: "disclosure_record \<Rightarrow> disclosure_record \<Rightarrow> bool" where
  "same_content a b \<longleftrightarrow> a\<lparr>dr_created_at := 0, dr_updated_at := 0\<rparr> = b\<lparr>dr_created_at := 0, dr_updated_at := 0\<rparr>"

lemma same_content_fields:
  assumes "same_content a b"
  shows "dr_id a = dr_id b" "dr_company a = dr_company b" "dr_type a = dr_type b" "dr_department a = dr_department b"
    "dr_title a = dr_title b" "dr_summary a = dr_summary b" "dr_content a = dr_content b" "dr_planned a = dr_planned b"
    "dr_published a = dr_published b" "dr_status a = dr_status b" "dr_attachments a = dr_attachments b"
    "dr_evidence a = dr_evidence b" "dr_created_by a = dr_created_by b" "dr_updated_by a = dr_updated_by b"
  using assms by (cases a, cases b, simp add: same_content_def)+

lemma same_contentD: "same_content a b \<Longrightarrow> dr_id b = dr_id a \<and> dr_company b = dr_company a \<and> dr_type b = dr_type a \<and>
    dr_department b = dr_department a \<and> dr_title b = dr_title a \<and> dr_summary b = dr_summary a \<and>
    dr_content b = dr_content a \<and> dr_planned b = dr_planned a \<and> dr_published b = dr_published a \<and>
    dr_status b = dr_status a \<and> dr_attachments b = dr_attachments a \<and> dr_evidence b = dr_evidence a \<and>
    dr_created_by b = dr_created_by a \<and> dr_updated_by b = dr_updated_by a"
  using same_content_fields [of a b] by simp

lemma same_content_refl [simp]: "same_content a a"
  by (simp add: same_content_def)

type_synonym record_view = "string \<Rightarrow> string \<rightharpoonup> disclosure_record"

definition put_record :: "disclosure_record \<Rightarrow> record_view \<Rightarrow> record_view" where
  "put_record r m = (\<lambda>c i. if c = dr_company r \<and> i = dr_id r then Some r else m c i)"

locale record_store =
  fixes port :: "'r disclosure_port"
    and recs :: "'r \<Rightarrow> record_view"
    and ok :: "'r \<Rightarrow> bool"
    and wf_company :: "string \<Rightarrow> bool"
  assumes find_law: "ok s \<Longrightarrow> wf_company c \<Longrightarrow>
      dp_find port c i s = (case recs s c i of None \<Rightarrow> Inl no_record | Some r \<Rightarrow> Inr r, s)"
    and view_key: "ok s \<Longrightarrow> recs s c i = Some r \<Longrightarrow> dr_company r = c \<and> dr_id r = i"
    and create_ok: "ok s \<Longrightarrow> wf_company (dr_company r) \<Longrightarrow> dp_create port now r s = (Inr r', s') \<Longrightarrow>
      ok s' \<and> same_content r r' \<and> recs s' = put_record r' (recs s)"
    and create_err: "ok s \<Longrightarrow> wf_company (dr_company r) \<Longrightarrow> dp_create port now r s = (Inl e, s') \<Longrightarrow> s' = s"
    and create_fresh: "ok s \<Longrightarrow> wf_company (dr_company r) \<Longrightarrow> (\<And>c. recs s c (dr_id r) = None) \<Longrightarrow>
      \<not> isl (fst (dp_create port now r s))"
    and update_ok: "ok s \<Longrightarrow> wf_company (dr_company r) \<Longrightarrow> recs s (dr_company r) (dr_id r) = Some old \<Longrightarrow>
      dr_created_by r = dr_created_by old \<Longrightarrow> dp_update port now r s = (Inr r', s') \<Longrightarrow>
      ok s' \<and> same_content r r' \<and> recs s' = put_record r' (recs s)"
    and update_err: "ok s \<Longrightarrow> wf_company (dr_company r) \<Longrightarrow> dp_update port now r s = (Inl e, s') \<Longrightarrow> s' = s"
begin

lemma find_some: "ok s \<Longrightarrow> wf_company c \<Longrightarrow> dp_find port c i s = (Inr r, t) \<Longrightarrow>
    t = s \<and> recs s c i = Some r \<and> dr_company r = c \<and> dr_id r = i"
  using find_law [of s c i] view_key [of s c i r] by (auto split: option.splits)

lemma find_frame: "ok s \<Longrightarrow> wf_company c \<Longrightarrow> snd (dp_find port c i s) = s"
  by (simp add: find_law)

end

subsection \<open>The in-memory repository keeps the contract\<close>

definition colon_free :: "string \<Rightarrow> bool" where
  "colon_free c = (CHR '':'' \<notin> set c)"

definition mem_view :: "disc_mem \<Rightarrow> record_view" where
  "mem_view s c i = (if colon_free c then dm_items s (record_key c i) else None)"

definition mem_items_ok :: "disc_mem \<Rightarrow> bool" where
  "mem_items_ok s \<longleftrightarrow> finite (dom (dm_items s)) \<and> (\<forall>k r. dm_items s k = Some r \<longrightarrow> k = record_key (dr_company r) (dr_id r) \<and> colon_free (dr_company r))"

lemma record_key_inject: "colon_free c \<Longrightarrow> colon_free c' \<Longrightarrow> record_key c i = record_key c' i' \<longleftrightarrow> c = c' \<and> i = i'"
  by (simp add: record_key_def colon_free_def append_sep_inject)

lemma mem_view_update:
  assumes "colon_free (dr_company r)"
  shows "mem_view (s\<lparr>dm_items := (dm_items s)(record_key (dr_company r) (dr_id r) \<mapsto> r)\<rparr>) = put_record r (mem_view s)"
  using assms by (auto simp: mem_view_def put_record_def record_key_inject fun_eq_iff)

lemma mem_items_ok_update: "mem_items_ok s \<Longrightarrow> colon_free (dr_company r) \<Longrightarrow>
    mem_items_ok (s\<lparr>dm_items := (dm_items s)(record_key (dr_company r) (dr_id r) \<mapsto> r)\<rparr>)"
  by (auto simp: mem_items_ok_def)

lemma mem_view_key: "mem_items_ok s \<Longrightarrow> mem_view s c i = Some r \<Longrightarrow> dr_company r = c \<and> dr_id r = i"
  by (auto simp: mem_view_def mem_items_ok_def record_key_inject split: if_splits) (metis record_key_inject)+

lemma mem_list_set:
  assumes "visits oi" and "mem_items_ok s" and "colon_free c"
  shows "set (filter (\<lambda>r. dr_company r = c) (map_values (dm_items s) (oi (dm_items s)))) = {r. \<exists>i. mem_view s c i = Some r}"
proof -
  have "set (map_values (dm_items s) (oi (dm_items s))) = ran (dm_items s)"
    using assms(1,2) by (intro set_map_values_order) (simp add: visits_def mem_items_ok_def)
  moreover have "r \<in> ran (dm_items s) \<and> dr_company r = c \<longleftrightarrow> (\<exists>i. mem_view s c i = Some r)" for r
  proof
    assume l: "r \<in> ran (dm_items s) \<and> dr_company r = c"
    then obtain k where "dm_items s k = Some r" by (auto simp: ran_def)
    with l assms(2) have "dm_items s (record_key c (dr_id r)) = Some r" by (auto simp: mem_items_ok_def)
    with assms(3) show "\<exists>i. mem_view s c i = Some r" by (auto simp: mem_view_def)
  next
    assume "\<exists>i. mem_view s c i = Some r"
    then obtain i where i: "mem_view s c i = Some r" ..
    with mem_view_key [OF assms(2) i] show "r \<in> ran (dm_items s) \<and> dr_company r = c"
      by (auto simp: mem_view_def intro: ranI split: if_splits)
  qed
  ultimately show ?thesis by auto
qed

interpretation mem_records: record_store "mem_disclosure oi oc" mem_view mem_items_ok colon_free
  for oi oc
proof
  fix s :: disc_mem and c i r r' s' now e old
  show "mem_items_ok s \<Longrightarrow> colon_free c \<Longrightarrow> dp_find (mem_disclosure oi oc) c i s =
      (case mem_view s c i of None \<Rightarrow> Inl no_record | Some r \<Rightarrow> Inr r, s)"
    by (simp add: mem_disclosure_def mem_find_def mem_view_def)
  show "mem_items_ok s \<Longrightarrow> mem_view s c i = Some r \<Longrightarrow> dr_company r = c \<and> dr_id r = i"
    by (rule mem_view_key)
  show "mem_items_ok s \<Longrightarrow> colon_free (dr_company r) \<Longrightarrow> dp_create (mem_disclosure oi oc) now r s = (Inr r', s') \<Longrightarrow>
      mem_items_ok s' \<and> same_content r r' \<and> mem_view s' = put_record r' (mem_view s)"
    by (auto simp: mem_disclosure_def mem_create_def mem_view_update mem_items_ok_update)
  show "mem_items_ok s \<Longrightarrow> colon_free (dr_company r) \<Longrightarrow> dp_create (mem_disclosure oi oc) now r s = (Inl e, s') \<Longrightarrow> s' = s"
    by (simp add: mem_disclosure_def mem_create_def)
  show "mem_items_ok s \<Longrightarrow> colon_free (dr_company r) \<Longrightarrow> (\<And>c. mem_view s c (dr_id r) = None) \<Longrightarrow>
      \<not> isl (fst (dp_create (mem_disclosure oi oc) now r s))"
    by (simp add: mem_disclosure_def mem_create_def)
  show "mem_items_ok s \<Longrightarrow> colon_free (dr_company r) \<Longrightarrow> mem_view s (dr_company r) (dr_id r) = Some old \<Longrightarrow>
      dr_created_by r = dr_created_by old \<Longrightarrow> dp_update (mem_disclosure oi oc) now r s = (Inr r', s') \<Longrightarrow>
      mem_items_ok s' \<and> same_content r r' \<and> mem_view s' = put_record r' (mem_view s)"
    by (auto simp: mem_disclosure_def mem_update_def mem_view_update mem_items_ok_update Let_def split: option.splits)
  show "mem_items_ok s \<Longrightarrow> colon_free (dr_company r) \<Longrightarrow> dp_update (mem_disclosure oi oc) now r s = (Inl e, s') \<Longrightarrow> s' = s"
    by (auto simp: mem_disclosure_def mem_update_def Let_def split: option.splits)
qed

subsection \<open>The MySQL repository keeps it\<close>

definition db_view :: "disc_db \<Rightarrow> record_view" where
  "db_view s c i = db_find c i s"

definition db_records_ok :: "disc_db \<Rightarrow> bool" where
  "db_records_ok s \<longleftrightarrow> distinct (map dr_id (dd_records s))"

lemma find_append: "List.find P (xs @ ys) = (case List.find P xs of Some x \<Rightarrow> Some x | None \<Rightarrow> List.find P ys)"
  by (induction xs) simp_all

lemma find_map_keep: "(\<And>x. P (f x) = P x) \<Longrightarrow> List.find P (map f xs) = map_option f (List.find P xs)"
  by (induction xs) simp_all

lemma db_find_key: "db_find c i s = Some r \<Longrightarrow> dr_company r = c \<and> dr_id r = i"
  by (auto simp: db_find_def find_Some_iff)

lemma sql_create_ok:
  assumes "db_records_ok s" and "sql_create now r s = (Inr r', s')"
  shows "db_records_ok s' \<and> same_content r r' \<and> db_view s' = put_record r' (db_view s)"
proof -
  let ?r = "r\<lparr>dr_created_at := now, dr_updated_at := now\<rparr>"
  have new: "\<not> list_ex (\<lambda>x. dr_id x = dr_id r) (dd_records s)" using assms(2) by (auto simp: sql_create_def split: if_splits)
  then have none: "db_find c (dr_id r) s = None" for c
    by (auto simp: db_find_def find_None_iff list_ex_iff)
  have s': "s' = s\<lparr>dd_records := dd_records s @ [?r]\<rparr>"
    using assms(2) new by (simp add: sql_create_def Let_def sql_find_def)
  have v: "db_view s' = put_record ?r (db_view s)"
    using none by (auto simp: s' db_view_def db_find_def put_record_def find_append fun_eq_iff split: option.splits)
  have "db_view s' (dr_company r) (dr_id r) = Some ?r" by (simp add: v put_record_def)
  with assms(2) new s' have "r' = ?r" by (simp add: sql_create_def Let_def sql_find_def db_view_def)
  moreover have "db_records_ok s'" using assms(1) new by (auto simp: s' db_records_ok_def list_ex_iff)
  ultimately show ?thesis using v by (simp add: same_content_def)
qed

lemma assign_record_key [simp]: "dr_id (assign_record r x) = dr_id x" "dr_company (assign_record r x) = dr_company x"
  "dr_created_by (assign_record r x) = dr_created_by x"
  by (simp_all add: assign_record_def)

lemma assign_same_content:
  "dr_id x = dr_id r \<Longrightarrow> dr_company x = dr_company r \<Longrightarrow> dr_created_by x = dr_created_by r \<Longrightarrow>
    same_content r ((assign_record r x)\<lparr>dr_updated_at := n\<rparr>)"
  by (simp add: same_content_def assign_record_def)

lemma sql_update_ok:
  assumes "db_records_ok s" and "db_view s (dr_company r) (dr_id r) = Some old" and "dr_created_by r = dr_created_by old"
    and "sql_save now r s = (Inr r', s')"
  shows "db_records_ok s' \<and> same_content r r' \<and> db_view s' = put_record r' (db_view s)"
proof -
  define f where "f = (\<lambda>x. if dr_id x = dr_id r \<and> dr_company x = dr_company r
    then (assign_record r x)\<lparr>dr_updated_at := now\<rparr> else x)"
  have f: "dr_id (f x) = dr_id x" "dr_company (f x) = dr_company x" for x by (simp_all add: f_def)
  have k: "dr_company old = dr_company r" "dr_id old = dr_id r"
    using assms(2) db_find_key by (auto simp: db_view_def)
  have u: "sql_find (dr_company r) (dr_id r) (s\<lparr>dd_records := map f (dd_records s)\<rparr>) = (Inr r', s')"
    using assms(2,4) by (simp add: sql_save_def db_view_def f_def split: if_splits)
  then have s': "s' = s\<lparr>dd_records := map f (dd_records s)\<rparr>" by (simp add: sql_find_def)
  have m: "db_find c i s' = map_option f (db_find c i s)" for c i
    unfolding db_find_def s' by (simp add: find_map_keep f)
  have r': "r' = f old" using u m assms(2) by (simp add: sql_find_def s' [symmetric] db_view_def)
  have "db_view s' c i = put_record r' (db_view s) c i" for c i
  proof (cases "c = dr_company r \<and> i = dr_id r")
    case True
    with m [of c i] r' assms(2) k f show ?thesis by (simp add: db_view_def put_record_def)
  next
    case False
    have "db_find c i s = Some x \<Longrightarrow> f x = x" for x using db_find_key [of c i s x] False by (auto simp: f_def)
    with m [of c i] False r' k f show ?thesis by (cases "db_find c i s") (auto simp: db_view_def put_record_def)
  qed
  moreover have "same_content r r'"
    using k assms(3) unfolding r' f_def by (simp add: assign_same_content)
  moreover have "db_records_ok s'" using assms(1) f by (simp add: db_records_ok_def s' o_def)
  ultimately show ?thesis by (simp add: fun_eq_iff)
qed

interpretation sql_records: record_store "sql_disclosure lower_like" db_view db_records_ok "\<lambda>_. True"
  for lower_like
proof
  fix s :: disc_db and c i r r' s' now e old
  show "db_records_ok s \<Longrightarrow> True \<Longrightarrow> dp_find (sql_disclosure lower_like) c i s =
      (case db_view s c i of None \<Rightarrow> Inl no_record | Some r \<Rightarrow> Inr r, s)"
    by (simp add: sql_disclosure_def sql_find_def db_view_def)
  show "db_records_ok s \<Longrightarrow> db_view s c i = Some r \<Longrightarrow> dr_company r = c \<and> dr_id r = i"
    by (simp add: db_view_def db_find_key)
  show "db_records_ok s \<Longrightarrow> True \<Longrightarrow> dp_create (sql_disclosure lower_like) now r s = (Inr r', s') \<Longrightarrow>
      db_records_ok s' \<and> same_content r r' \<and> db_view s' = put_record r' (db_view s)"
    by (rule sql_create_ok) (simp_all add: sql_disclosure_def)
  show "db_records_ok s \<Longrightarrow> True \<Longrightarrow> dp_create (sql_disclosure lower_like) now r s = (Inl e, s') \<Longrightarrow> s' = s"
    by (auto simp: sql_disclosure_def sql_create_def sql_find_def db_find_def find_append Let_def split: if_splits option.splits)
  show "db_records_ok s \<Longrightarrow> True \<Longrightarrow> (\<And>c. db_view s c (dr_id r) = None) \<Longrightarrow>
      \<not> isl (fst (dp_create (sql_disclosure lower_like) now r s))"
    by (auto simp: sql_disclosure_def sql_create_def sql_find_def db_view_def db_find_def find_append find_None_iff
      list_ex_iff Let_def split: option.splits)
  show "db_records_ok s \<Longrightarrow> True \<Longrightarrow> db_view s (dr_company r) (dr_id r) = Some old \<Longrightarrow>
      dr_created_by r = dr_created_by old \<Longrightarrow> dp_update (sql_disclosure lower_like) now r s = (Inr r', s') \<Longrightarrow>
      db_records_ok s' \<and> same_content r r' \<and> db_view s' = put_record r' (db_view s)"
    by (rule sql_update_ok) (simp_all add: sql_disclosure_def)
  show "db_records_ok s \<Longrightarrow> True \<Longrightarrow> dp_update (sql_disclosure lower_like) now r s = (Inl e, s') \<Longrightarrow> s' = s"
  proof -
    assume "dp_update (sql_disclosure lower_like) now r s = (Inl e, s')"
    then have u: "sql_save now r s = (Inl e, s')" by (simp add: sql_disclosure_def)
    show "s' = s"
    proof (cases "db_find (dr_company r) (dr_id r) s")
      case (Some row)
      then have "List.find (\<lambda>x. dr_company x = dr_company r \<and> dr_id x = dr_id r) (map (\<lambda>x.
         if dr_id x = dr_id r \<and> dr_company x = dr_company r then (assign_record r x)\<lparr>dr_updated_at := now\<rparr> else x)
         (dd_records s)) \<noteq> None" by (subst find_map_keep) (auto simp: db_find_def)
      with u Some show ?thesis by (auto simp: sql_save_def sql_find_def db_find_def split: if_splits)
    qed (use u in \<open>simp add: sql_save_def\<close>)
  qed
qed

end
