(* ===== verification/DisclosureCatalog.thy ===== *)
theory DisclosureCatalog
  imports DisclosureStore
begin

section \<open>The template catalog: versions, activation and roll-back\<close>

text \<open>
  The interface \<open>type_catalog\<close> states what a catalog promises: an upsert that succeeds makes its
  content the detail of the type and of the new version, and activating a version makes the stored
  content of that version the detail again. Both repositories keep it. The properties below show
  it for the MySQL tables and the three places where the repositories differ from it or from each
  other: a failed activation, a global type, and an upsert after a roll-back.
\<close>

text \<open>A request as the service sends it: ids without blanks around them, blocks in display order.\<close>

definition sendable :: "upsert_request \<Rightarrow> bool" where
  "sendable req \<longleftrightarrow> trim_space (ty_group req) = ty_group req \<and> sub_company (up_subject req) \<noteq> [] \<and>
     trim_space (sub_company (up_subject req)) = sub_company (up_subject req) \<and>
     sorted_wrt (\<lambda>a b. tb_order a < tb_order b) (ty_blocks req)"

locale type_catalog =
  fixes port :: "'r disclosure_port"
    and ok :: "'r \<Rightarrow> bool"
  assumes upsert_detail: "ok s \<Longrightarrow> sendable req \<Longrightarrow> dp_upsert port now req s = (Inr rp, s') \<Longrightarrow>
      ok s' \<and> dp_type port (sub_company (up_subject req)) (ty_id req) s' = (Inr (dto_of (vp_version rp) req), s') \<and>
      dp_type_version port (sub_company (up_subject req)) (ty_id req) (vp_version rp) s' = (Inr (dto_of (vp_version rp) req), s')"
    and activate_detail: "ok s \<Longrightarrow>
      dp_type_version port (sub_company (ac_subject act)) (ac_type act) (ac_version act) s = (Inr d, s) \<Longrightarrow>
      dp_activate port now act s = (Inr rp, s') \<Longrightarrow>
      ok s' \<and> dp_type port (sub_company (ac_subject act)) (ac_type act) s' = (Inr d, s')"
    and upsert_keeps: "ok s \<Longrightarrow> sendable req \<Longrightarrow> dp_upsert port now req s = (Inr rp, s') \<Longrightarrow>
      dp_type_version port (sub_company (up_subject req)) (ty_id req) n s = (Inr d, s) \<Longrightarrow> n \<noteq> vp_version rp \<Longrightarrow>
      ty_group d = ty_group req \<Longrightarrow>
      dp_type_version port (sub_company (up_subject req)) (ty_id req) n s' = (Inr d, s')"
begin

text \<open>Saving a second version and activating the first again restores the first.\<close>

lemma rollback_restores:
  assumes "ok s" and "sendable req" and "sendable req'" and "ty_id req' = ty_id req"
    and "sub_company (up_subject req') = sub_company (up_subject req)" and "ty_group req' = ty_group req"
    and "dp_upsert port t1 req s = (Inr rp, s1)" and "dp_upsert port t2 req' s1 = (Inr rp', s2)"
    and "vp_version rp \<noteq> vp_version rp'"
    and "ac_type act = ty_id req" and "ac_version act = vp_version rp"
    and "sub_company (ac_subject act) = sub_company (up_subject req)"
    and "dp_activate port t3 act s2 = (Inr rq, s3)"
  shows "dp_type port (sub_company (up_subject req)) (ty_id req) s3 = (Inr (dto_of (vp_version rp) req), s3)"
proof -
  note u1 = upsert_detail [OF assms(1,2,7)]
  have ok1: "ok s1" and d1: "dp_type_version port (sub_company (up_subject req)) (ty_id req) (vp_version rp) s1 =
      (Inr (dto_of (vp_version rp) req), s1)" using u1 by blast+
  have ok2: "ok s2" using upsert_detail [OF ok1 assms(3,8)] by blast
  have "ty_group (dto_of (vp_version rp) req) = ty_group req'" by (simp add: dto_of_def assms(6))
  then have "dp_type_version port (sub_company (up_subject req)) (ty_id req) (vp_version rp) s2 =
      (Inr (dto_of (vp_version rp) req), s2)"
    using upsert_keeps [OF ok1 assms(3,8) _ assms(9)] d1 assms(4,5) by simp
  then show ?thesis using activate_detail [OF ok2 _ assms(13)] assms(10,11,12) by simp
qed

end

subsection \<open>The in-memory catalog\<close>

lemma in_scope_upsert: "in_scope (s\<lparr>dm_catalog := a, dm_by_version := b, dm_scope := (dm_scope s)(t \<mapsto> c), dm_versions := v\<rparr>) c t"
  by (simp add: in_scope_def)

interpretation mem_catalog: type_catalog "mem_disclosure oi oc" "\<lambda>_. True" for oi oc
proof
  fix s s' :: disc_mem and req req' now rp act d n
  show "True \<Longrightarrow> sendable req \<Longrightarrow> dp_upsert (mem_disclosure oi oc) now req s = (Inr rp, s') \<Longrightarrow>
      True \<and> dp_type (mem_disclosure oi oc) (sub_company (up_subject req)) (ty_id req) s' = (Inr (dto_of (vp_version rp) req), s') \<and>
      dp_type_version (mem_disclosure oi oc) (sub_company (up_subject req)) (ty_id req) (vp_version rp) s' =
        (Inr (dto_of (vp_version rp) req), s')"
    by (auto simp: mem_disclosure_def mem_upsert_def mem_type_def mem_type_version_def in_scope_upsert Let_def)
  show "True \<Longrightarrow> dp_type_version (mem_disclosure oi oc) (sub_company (ac_subject act)) (ac_type act) (ac_version act) s = (Inr d, s) \<Longrightarrow>
      dp_activate (mem_disclosure oi oc) now act s = (Inr rp, s') \<Longrightarrow>
      True \<and> dp_type (mem_disclosure oi oc) (sub_company (ac_subject act)) (ac_type act) s' = (Inr d, s')"
    by (auto simp: mem_disclosure_def mem_activate_def mem_type_def mem_type_version_def in_scope_def Let_def
      split: option.splits if_splits)
  show "True \<Longrightarrow> sendable req \<Longrightarrow> dp_upsert (mem_disclosure oi oc) now req s = (Inr rp, s') \<Longrightarrow>
      dp_type_version (mem_disclosure oi oc) (sub_company (up_subject req)) (ty_id req) n s = (Inr d, s) \<Longrightarrow> n \<noteq> vp_version rp \<Longrightarrow>
      ty_group d = ty_group req \<Longrightarrow> dp_type_version (mem_disclosure oi oc) (sub_company (up_subject req)) (ty_id req) n s' = (Inr d, s')"
    by (auto simp: mem_disclosure_def mem_upsert_def mem_type_version_def in_scope_upsert Let_def
      split: option.splits if_splits)
qed

subsection \<open>The MySQL catalog\<close>

definition db_catalog_ok :: "disc_db \<Rightarrow> bool" where
  "db_catalog_ok s \<longleftrightarrow> (\<forall>b \<in> set (dd_blocks s). version_of s (brow_type b) (brow_no b) \<noteq> None) \<and>
     (\<forall>r \<in> set (dd_types s). tyr_company r \<noteq> Some [])"

lemma version_of_append: "version_of (s\<lparr>dd_versions := dd_versions s @ [v]\<rparr>) t n =
    (case version_of s t n of Some x \<Rightarrow> Some x | None \<Rightarrow> if vrow_type v = t \<and> vrow_no v = n then Some v else None)"
  by (simp add: version_of_def find_append split: option.split)

lemma version_of_key: "version_of s t n = Some v \<Longrightarrow> vrow_type v = t \<and> vrow_no v = n"
  by (auto simp: version_of_def find_Some_iff)

lemma type_of_id_key: "type_of_id s t = Some r \<Longrightarrow> tyr_id r = t \<and> r \<in> set (dd_types s)"
  by (auto simp: type_of_id_def find_Some_iff)

lemma view_frames [simp]:
  "version_of (s\<lparr>dd_types := ts\<rparr>) = version_of s" "version_of (s\<lparr>dd_blocks := bs\<rparr>) = version_of s"
  "type_of_id (s\<lparr>dd_versions := vs\<rparr>) = type_of_id s" "type_of_id (s\<lparr>dd_blocks := bs\<rparr>) = type_of_id s"
  "list_template_blocks (s\<lparr>dd_types := ts\<rparr>) = list_template_blocks s"
  "list_template_blocks (s\<lparr>dd_versions := vs\<rparr>) = list_template_blocks s"
  by (simp_all add: version_of_def type_of_id_def list_template_blocks_def fun_eq_iff)

lemma insert_blocks_rows: "insert_blocks t n bs s = Inr s' \<Longrightarrow>
    s' = s\<lparr>dd_blocks := dd_blocks s @ map (\<lambda>b. \<lparr>brow_type = t, brow_no = n, brow_block = b\<rparr>) bs\<rparr>"
  by (induction t n bs s rule: insert_blocks.induct) (auto simp: Let_def split: if_splits)

lemma sort_blocks_id:
  assumes "sorted_wrt (\<lambda>a b. tb_order a < tb_order b) bs"
  shows "sort_key (\<lambda>b. (tb_order b, tb_id b)) bs = bs"
proof (rule sort_key_id_if_sorted)
  have "sorted_wrt (\<lambda>a b. (tb_order a, tb_id a) \<le> (tb_order b, tb_id b)) bs"
    by (rule sorted_wrt_mono_rel [OF _ assms]) (simp add: less_eq_prod_def)
  then show "sorted (map (\<lambda>b. (tb_order b, tb_id b)) bs)" by (simp add: sorted_wrt_map)
qed

definition new_type_row :: "upsert_request \<Rightarrow> type_row" where
  "new_type_row req = \<lparr>tyr_id = ty_id req, tyr_company = Some (trim_space (sub_company (up_subject req))),
     tyr_group = trim_space (ty_group req), tyr_active = 0\<rparr>"

definition new_version_row :: "int \<Rightarrow> int \<Rightarrow> upsert_request \<Rightarrow> version_row" where
  "new_version_row now n req = \<lparr>vrow_type = ty_id req, vrow_no = n, vrow_body = body_columns req,
     vrow_note = trim_space (up_note req), vrow_by = sub_user (up_subject req), vrow_at = now\<rparr>"

lemma insert_type_Inr: "insert_type r s = Inr s1 \<Longrightarrow>
    type_of_id s (tyr_id r) = None \<and> s1 = s\<lparr>dd_types := dd_types s @ [r]\<rparr>"
  by (auto simp: insert_type_def split: if_splits)

lemma insert_version_Inr: "insert_version v s = Inr s1 \<Longrightarrow>
    version_of s (vrow_type v) (vrow_no v) = None \<and> s1 = s\<lparr>dd_versions := dd_versions s @ [v]\<rparr>"
  by (auto simp: insert_version_def split: if_splits)

lemma activate_row_Inr: "activate_row t g n s = Inr s1 \<Longrightarrow>
    s1 = s\<lparr>dd_types := map (\<lambda>r. if tyr_id r = t then
      r\<lparr>tyr_group := (case g of None \<Rightarrow> tyr_group r | Some x \<Rightarrow> x), tyr_active := n\<rparr> else r) (dd_types s)\<rparr>"
  by (simp add: activate_row_def split: if_splits)

text \<open>The rows after an upsert that succeeds.\<close>

lemma sql_upsert_cases:
  assumes "sql_upsert now req s = (Inr rp, s')"
  obtains ts where "\<not> foreign_company (Option.bind (type_of_id s (ty_id req)) tyr_company) (trim_space (sub_company (up_subject req)))"
    and "Option.bind (type_of_id s (ty_id req)) tyr_company \<noteq> None \<and> ts = dd_types s \<or>
      type_of_id s (ty_id req) = None \<and> ts = dd_types s @ [new_type_row req]"
    and "version_of s (ty_id req) (vp_version rp) = None"
    and "s' = s\<lparr>dd_types := map (\<lambda>r. if tyr_id r = ty_id req then r\<lparr>tyr_group := trim_space (ty_group req), tyr_active := vp_version rp\<rparr> else r) ts,
        dd_versions := dd_versions s @ [new_version_row now (vp_version rp) req],
        dd_blocks := dd_blocks s @ map (\<lambda>b. \<lparr>brow_type = ty_id req, brow_no = vp_version rp, brow_block = b\<rparr>) (ty_blocks req)\<rparr>"
proof -
  let ?t = "ty_id req" and ?c = "trim_space (sub_company (up_subject req))" and ?g = "trim_space (ty_group req)"
  let ?co = "Option.bind (type_of_id s ?t) tyr_company"
  obtain n where n: "n = (case type_of_id s ?t of None \<Rightarrow> 1 | Some row \<Rightarrow> if 0 < tyr_active row then tyr_active row + 1 else 1)" by simp
  have f: "\<not> foreign_company ?co ?c" using assms by (auto simp: sql_upsert_def Let_def split: if_splits)
  obtain s1 s2 s3 where s1: "(if ?co = None then insert_type (new_type_row req) s else Inr s) = Inr s1"
    and s2: "insert_version (new_version_row now n req) s1 = Inr s2"
    and s3: "insert_blocks ?t n (ty_blocks req) s2 = Inr s3" and s4: "activate_row ?t (Some ?g) n s3 = Inr s'"
    and rp: "vp_version rp = n"
    using assms f unfolding sql_upsert_def Let_def n [symmetric] new_type_row_def [symmetric] new_version_row_def [symmetric]
    by (auto simp: transact_def seq_iffs split: sum.splits)
  obtain ts where ts: "?co \<noteq> None \<and> ts = dd_types s \<or> type_of_id s ?t = None \<and> ts = dd_types s @ [new_type_row req]"
    and e1: "s1 = s\<lparr>dd_types := ts\<rparr>"
  proof (cases "?co = None")
    case True
    with s1 have "insert_type (new_type_row req) s = Inr s1" by simp
    from insert_type_Inr [OF this] that [of "dd_types s @ [new_type_row req]"] show ?thesis by (simp add: new_type_row_def)
  next
    case False
    with s1 have "s1 = s" by simp
    then show ?thesis using False by (intro that [of "dd_types s"]) simp_all
  qed
  have none: "version_of s ?t n = None" and e2: "s2 = s1\<lparr>dd_versions := dd_versions s1 @ [new_version_row now n req]\<rparr>"
    using insert_version_Inr [OF s2] by (simp_all add: e1 new_version_row_def)
  have "s' = s3\<lparr>dd_types := map (\<lambda>r. if tyr_id r = ?t then r\<lparr>tyr_group := ?g, tyr_active := n\<rparr> else r) (dd_types s3)\<rparr>"
    using activate_row_Inr [OF s4] by simp
  then show ?thesis
    using that [OF f ts] none unfolding rp insert_blocks_rows [OF s3] e2 e1 by simp
qed

lemma find_type_step:
  "List.find (\<lambda>r. tyr_id r = t) (map (\<lambda>r. if tyr_id r = t then h r\<lparr>tyr_active := n\<rparr> else r) ts) =
    map_option (\<lambda>r. h r\<lparr>tyr_active := n\<rparr>) (List.find (\<lambda>r. tyr_id r = t) ts)"
  if "\<And>r. tyr_id (h r) = tyr_id r"
proof -
  have e: "List.find (\<lambda>r. tyr_id r = t) (map (\<lambda>r. if tyr_id r = t then h r\<lparr>tyr_active := n\<rparr> else r) ts) =
    map_option (\<lambda>r. if tyr_id r = t then h r\<lparr>tyr_active := n\<rparr> else r) (List.find (\<lambda>r. tyr_id r = t) ts)"
    by (rule find_map_keep) (simp add: that)
  show ?thesis
  proof (cases "List.find (\<lambda>r. tyr_id r = t) ts")
    case (Some r)
    then have "tyr_id r = t" by (auto simp: find_Some_iff)
    then show ?thesis unfolding e Some by simp
  qed (simp add: e)
qed

lemma dto_of_columns: "dto_of n ((body_columns b)\<lparr>ty_id := ty_id b, ty_group := ty_group b, ty_blocks := ty_blocks b\<rparr>) = dto_of n b"
  by (simp add: dto_of_def body_columns_def type_body.truncate_def)

text \<open>What the rows of an upsert show.\<close>

lemma sql_upsert_rows:
  assumes "db_catalog_ok s" and "sendable req" and "sql_upsert now req s = (Inr rp, s')"
  obtains row where "type_of_id s' (ty_id req) = Some row" and "tyr_id row = ty_id req"
    and "tyr_company row = Some (sub_company (up_subject req))" and "tyr_group row = ty_group req" and "tyr_active row = vp_version rp"
    and "version_of s (ty_id req) (vp_version rp) = None"
    and "\<And>t n. version_of s' t n = (case version_of s t n of Some x \<Rightarrow> Some x | None \<Rightarrow>
           if t = ty_id req \<and> n = vp_version rp then Some (new_version_row now n req) else None)"
    and "list_template_blocks s' (ty_id req) (vp_version rp) = ty_blocks req"
    and "\<And>n. n \<noteq> vp_version rp \<Longrightarrow> list_template_blocks s' (ty_id req) n = list_template_blocks s (ty_id req) n"
    and "db_catalog_ok s'"
    and "\<And>r. type_of_id s (ty_id req) = Some r \<Longrightarrow> tyr_company r = Some (sub_company (up_subject req))"
proof -
  let ?t = "ty_id req" and ?n = "vp_version rp" and ?c = "sub_company (up_subject req)"
  from assms(2) have tr: "trim_space ?c = ?c" "?c \<noteq> []" "trim_space (ty_group req) = ty_group req"
    and so: "sorted_wrt (\<lambda>a b. tb_order a < tb_order b) (ty_blocks req)" by (simp_all add: sendable_def)
  obtain ts where f: "\<not> foreign_company (Option.bind (type_of_id s ?t) tyr_company) ?c"
    and ts: "Option.bind (type_of_id s ?t) tyr_company \<noteq> None \<and> ts = dd_types s \<or>
      type_of_id s ?t = None \<and> ts = dd_types s @ [new_type_row req]"
    and none: "version_of s ?t ?n = None"
    and s': "s' = s\<lparr>dd_types := map (\<lambda>r. if tyr_id r = ?t then r\<lparr>tyr_group := ty_group req, tyr_active := ?n\<rparr> else r) ts,
        dd_versions := dd_versions s @ [new_version_row now ?n req],
        dd_blocks := dd_blocks s @ map (\<lambda>b. \<lparr>brow_type = ?t, brow_no = ?n, brow_block = b\<rparr>) (ty_blocks req)\<rparr>"
    by (rule sql_upsert_cases [OF assms(3), unfolded tr])
  have own: "tyr_company r = Some ?c" if "type_of_id s ?t = Some r" for r
    using f ts that type_of_id_key [OF that] assms(1)
    by (auto simp: foreign_company_def db_catalog_ok_def split: option.splits)
  obtain r0 where r0: "List.find (\<lambda>r. tyr_id r = ?t) ts = Some r0" "tyr_company r0 = Some ?c" "tyr_id r0 = ?t"
  proof (cases "type_of_id s ?t")
    case None
    with ts have "ts = dd_types s @ [new_type_row req]" by simp
    with None that [of "new_type_row req"] tr show ?thesis by (simp add: type_of_id_def find_append new_type_row_def)
  next
    case (Some r)
    with ts have "ts = dd_types s" by simp
    with Some that [of r] own [OF Some] type_of_id_key [OF Some] show ?thesis by (simp add: type_of_id_def)
  qed
  have row: "type_of_id s' ?t = Some (r0\<lparr>tyr_group := ty_group req, tyr_active := ?n\<rparr>)"
    using r0 find_type_step [of "\<lambda>r. r\<lparr>tyr_group := ty_group req\<rparr>" ?t ?n ts] by (simp add: s' type_of_id_def)
  have vs: "version_of s' t n = (case version_of s t n of Some x \<Rightarrow> Some x | None \<Rightarrow>
           if t = ?t \<and> n = ?n then Some (new_version_row now n req) else None)" for t n
    by (auto simp: s' version_of_def find_append new_version_row_def split: option.splits)
  have "filter (\<lambda>r. brow_type r = ?t \<and> brow_no r = ?n) (dd_blocks s) = []"
    using assms(1) none by (auto simp: db_catalog_ok_def filter_empty_conv)
  then have bs: "list_template_blocks s' ?t ?n = ty_blocks req"
    by (simp add: s' list_template_blocks_def filter_map o_def sort_blocks_id [OF so])
  have bs': "list_template_blocks s' ?t n = list_template_blocks s ?t n" if "n \<noteq> ?n" for n
    using that by (simp add: s' list_template_blocks_def filter_map o_def)
  have "db_catalog_ok s'"
    using assms(1) ts tr vs unfolding db_catalog_ok_def
    by (auto simp: s' new_type_row_def split: option.splits if_splits)
  with row r0 vs none bs bs' own show ?thesis by (intro that [of "r0\<lparr>tyr_group := ty_group req, tyr_active := ?n\<rparr>"]) simp_all
qed

lemma visible_own: "tyr_company r = Some c \<Longrightarrow> visible c r"
  by (simp add: visible_def)

lemma sql_upsert_detail:
  assumes "db_catalog_ok s" and "sendable req" and "sql_upsert now req s = (Inr rp, s')"
  shows "db_catalog_ok s' \<and> sql_type (sub_company (up_subject req)) (ty_id req) s' = (Inr (dto_of (vp_version rp) req), s') \<and>
    sql_type_version (sub_company (up_subject req)) (ty_id req) (vp_version rp) s' = (Inr (dto_of (vp_version rp) req), s')"
proof -
  obtain row where row: "type_of_id s' (ty_id req) = Some row" "tyr_id row = ty_id req"
      "tyr_company row = Some (sub_company (up_subject req))" "tyr_group row = ty_group req" "tyr_active row = vp_version rp"
    and none: "version_of s (ty_id req) (vp_version rp) = None"
    and vs: "\<And>t n. version_of s' t n = (case version_of s t n of Some x \<Rightarrow> Some x | None \<Rightarrow>
           if t = ty_id req \<and> n = vp_version rp then Some (new_version_row now n req) else None)"
    and bs: "list_template_blocks s' (ty_id req) (vp_version rp) = ty_blocks req" and ok: "db_catalog_ok s'"
    using sql_upsert_rows [OF assms] by metis
  have v: "version_of s' (ty_id req) (vp_version rp) = Some (new_version_row now (vp_version rp) req)"
    by (simp add: vs none)
  have "type_detail s' row (new_version_row now (vp_version rp) req) = dto_of (vp_version rp) req"
    using row bs dto_of_columns [of "vp_version rp" req] by (simp add: type_detail_def new_version_row_def)
  with row v ok visible_own [OF row(3)] show ?thesis by (simp add: sql_type_def sql_type_version_def)
qed

lemma sql_upsert_keeps:
  assumes "db_catalog_ok s" and "sendable req" and "sql_upsert now req s = (Inr rp, s')"
    and "sql_type_version (sub_company (up_subject req)) (ty_id req) n s = (Inr d, s)" and "n \<noteq> vp_version rp"
    and "ty_group d = ty_group req"
  shows "sql_type_version (sub_company (up_subject req)) (ty_id req) n s' = (Inr d, s')"
proof -
  obtain row where row: "type_of_id s' (ty_id req) = Some row" "tyr_id row = ty_id req"
      "tyr_company row = Some (sub_company (up_subject req))" "tyr_group row = ty_group req"
    and vs: "\<And>t n. version_of s' t n = (case version_of s t n of Some x \<Rightarrow> Some x | None \<Rightarrow>
           if t = ty_id req \<and> n = vp_version rp then Some (new_version_row now n req) else None)"
    and bs: "\<And>n. n \<noteq> vp_version rp \<Longrightarrow> list_template_blocks s' (ty_id req) n = list_template_blocks s (ty_id req) n"
    using sql_upsert_rows [OF assms(1-3)] by metis
  obtain r v where r: "type_of_id s (ty_id req) = Some r" and v: "version_of s (ty_id req) n = Some v"
    and d: "d = type_detail s r v"
    using assms(4) by (auto simp: sql_type_version_def split: option.splits if_splits)
  have k: "vrow_no v = n" "tyr_id r = ty_id req" using version_of_key [OF v] type_of_id_key [OF r] by simp_all
  have "tyr_group r = ty_group req" using assms(6) d by (simp add: type_detail_def dto_of_def)
  then have "type_detail s' row v = d" using d k row bs [OF assms(5)] by (simp add: type_detail_def)
  with row v visible_own [OF row(3)] show ?thesis by (simp add: sql_type_version_def vs)
qed

lemma sql_activate_detail:
  assumes "db_catalog_ok s"
    and "sql_type_version (sub_company (ac_subject act)) (ac_type act) (ac_version act) s = (Inr d, s)"
    and "sql_activate now act s = (Inr rp, s')"
  shows "db_catalog_ok s' \<and> sql_type (sub_company (ac_subject act)) (ac_type act) s' = (Inr d, s')"
proof -
  let ?t = "ac_type act" and ?n = "ac_version act" and ?c = "sub_company (ac_subject act)"
  define h where "h = (\<lambda>v :: version_row. if vrow_type v = ?t \<and> vrow_no v = ?n then v\<lparr>vrow_by := sub_user (ac_subject act), vrow_at := now\<rparr> else v)"
  obtain r v where r: "type_of_id s ?t = Some r" and v: "version_of s ?t ?n = Some v" and vi: "visible ?c r"
    and d: "d = type_detail s r v"
    using assms(2) by (auto simp: sql_type_version_def split: option.splits if_splits)
  have k: "vrow_no v = ?n" "vrow_type v = ?t" "tyr_id r = ?t" using version_of_key [OF v] type_of_id_key [OF r] by simp_all
  have "\<not> foreign_company (tyr_company r) ?c" using assms(3) r by (auto simp: sql_activate_def Let_def split: if_splits)
  then have "activate_row ?t None ?n (s\<lparr>dd_versions := map h (dd_versions s)\<rparr>) = Inr s'"
    using assms(3) r v by (simp add: sql_activate_def Let_def transact_def h_def split: sum.splits)
  from activate_row_Inr [OF this] have s': "s' = s\<lparr>dd_versions := map h (dd_versions s),
      dd_types := map (\<lambda>r. if tyr_id r = ?t then r\<lparr>tyr_active := ?n\<rparr> else r) (dd_types s)\<rparr>" by simp
  have vs: "version_of s' t n = map_option h (version_of s t n)" for t n
    unfolding s' version_of_def by (simp, rule find_map_keep) (simp add: h_def)
  have ts: "type_of_id s' ?t = Some (r\<lparr>tyr_active := ?n\<rparr>)"
    using r find_type_step [of "\<lambda>r. r" ?t ?n "dd_types s"] by (simp add: s' type_of_id_def)
  have bs: "list_template_blocks s' = list_template_blocks s" by (simp add: s' list_template_blocks_def fun_eq_iff)
  have "type_detail s' (r\<lparr>tyr_active := ?n\<rparr>) (h v) = d" using d k bs by (simp add: type_detail_def h_def)
  moreover have "visible ?c (r\<lparr>tyr_active := ?n\<rparr>)" using vi by (simp add: visible_def)
  moreover have "db_catalog_ok s'" using assms(1) vs unfolding db_catalog_ok_def by (auto simp: s')
  ultimately show ?thesis using ts v by (simp add: sql_type_def vs)
qed

interpretation sql_catalog: type_catalog "sql_disclosure lower_like" db_catalog_ok for lower_like
proof
  fix s s' :: disc_db and req now rp act d n
  show "db_catalog_ok s \<Longrightarrow> sendable req \<Longrightarrow> dp_upsert (sql_disclosure lower_like) now req s = (Inr rp, s') \<Longrightarrow>
      db_catalog_ok s' \<and> dp_type (sql_disclosure lower_like) (sub_company (up_subject req)) (ty_id req) s' = (Inr (dto_of (vp_version rp) req), s') \<and>
      dp_type_version (sql_disclosure lower_like) (sub_company (up_subject req)) (ty_id req) (vp_version rp) s' =
        (Inr (dto_of (vp_version rp) req), s')"
    using sql_upsert_detail by (simp add: sql_disclosure_def)
  show "db_catalog_ok s \<Longrightarrow> dp_type_version (sql_disclosure lower_like) (sub_company (ac_subject act)) (ac_type act) (ac_version act) s = (Inr d, s) \<Longrightarrow>
      dp_activate (sql_disclosure lower_like) now act s = (Inr rp, s') \<Longrightarrow>
      db_catalog_ok s' \<and> dp_type (sql_disclosure lower_like) (sub_company (ac_subject act)) (ac_type act) s' = (Inr d, s')"
    using sql_activate_detail by (simp add: sql_disclosure_def)
  show "db_catalog_ok s \<Longrightarrow> sendable req \<Longrightarrow> dp_upsert (sql_disclosure lower_like) now req s = (Inr rp, s') \<Longrightarrow>
      dp_type_version (sql_disclosure lower_like) (sub_company (up_subject req)) (ty_id req) n s = (Inr d, s) \<Longrightarrow> n \<noteq> vp_version rp \<Longrightarrow>
      ty_group d = ty_group req \<Longrightarrow> dp_type_version (sql_disclosure lower_like) (sub_company (up_subject req)) (ty_id req) n s' = (Inr d, s')"
    using sql_upsert_keeps by (simp add: sql_disclosure_def)
qed

subsection \<open>Properties\<close>

definition wit_request :: upsert_request where
  "wit_request = type_body.extend (wit_type\<lparr>ty_blocks := [wit_block\<lparr>tb_id := ''b1'', tb_order := 1\<rparr>]\<rparr>)
     (upsert_request.fields wit_subject ''first'')"

definition wit_db :: disc_db where
  "wit_db = \<lparr>dd_records = [], dd_groups = [\<lparr>tg_id = ''group-001'', tg_name = ''g'', tg_description = [], tg_icon = [], tg_order = 1\<rparr>],
     dd_types = [], dd_versions = [], dd_blocks = []\<rparr>"

abbreviation wit_sql :: "disc_db disclosure_port" where
  "wit_sql \<equiv> sql_disclosure (\<lambda>x p. True)"

lemma wit_db_ok: "db_catalog_ok wit_db"
  by (simp add: db_catalog_ok_def wit_db_def)

lemma wit_request_sendable: "sendable wit_request"
  unfolding sendable_def by code_simp

definition wit_second :: upsert_request where
  "wit_second = wit_request\<lparr>ty_name := ''m'', up_note := ''second''\<rparr>"

lemma wit_second_sendable: "sendable wit_second"
  unfolding sendable_def by code_simp

definition wit_db1 :: disc_db where "wit_db1 = snd (sql_upsert 10 wit_request wit_db)"
definition wit_db2 :: disc_db where "wit_db2 = snd (sql_upsert 20 wit_second wit_db1)"

definition wit_activate :: activate_request where
  "wit_activate = \<lparr>ac_subject = wit_subject, ac_type = ''dt-1'', ac_version = 1, ac_reason = []\<rparr>"

definition wit_db3 :: disc_db where "wit_db3 = snd (sql_activate 30 wit_activate wit_db2)"

definition wit_reply :: "int \<Rightarrow> int \<Rightarrow> version_reply" where
  "wit_reply n t = \<lparr>vp_type = ''dt-1'', vp_version = n, vp_active = True, vp_by = ''u_123'', vp_at = t\<rparr>"

lemma wit_runs: "sql_upsert 10 wit_request wit_db = (Inr (wit_reply 1 10), wit_db1)"
  "sql_upsert 20 wit_second wit_db1 = (Inr (wit_reply 2 20), wit_db2)"
  "sql_activate 30 wit_activate wit_db2 = (Inr (wit_reply 1 30), wit_db3)"
proof -
  have "fst (sql_upsert 10 wit_request wit_db) = Inr (wit_reply 1 10)" by code_simp
  then show "sql_upsert 10 wit_request wit_db = (Inr (wit_reply 1 10), wit_db1)" by (metis wit_db1_def prod.collapse)
  have "fst (sql_upsert 20 wit_second wit_db1) = Inr (wit_reply 2 20)" by code_simp
  then show "sql_upsert 20 wit_second wit_db1 = (Inr (wit_reply 2 20), wit_db2)" by (metis wit_db2_def prod.collapse)
  have "fst (sql_activate 30 wit_activate wit_db2) = Inr (wit_reply 1 30)" by code_simp
  then show "sql_activate 30 wit_activate wit_db2 = (Inr (wit_reply 1 30), wit_db3)" by (metis wit_db3_def prod.collapse)
qed

text \<open>C14: versions are kept apart: saving a type, saving it again in the same group and activating the
  first version makes GetTypeDetail answer with the content of the first save again, field for field.\<close>

theorem rollback_restores_version:
  assumes "db_catalog_ok s" and "sendable req" and "sendable req'" and "ty_id req' = ty_id req"
    and "sub_company (up_subject req') = sub_company (up_subject req)" and "ty_group req' = ty_group req"
    and "dp_upsert (sql_disclosure lower_like) t1 req s = (Inr rp, s1)"
    and "dp_upsert (sql_disclosure lower_like) t2 req' s1 = (Inr rp', s2)"
    and "vp_version rp \<noteq> vp_version rp'"
    and "ac_type act = ty_id req" and "ac_version act = vp_version rp"
    and "sub_company (ac_subject act) = sub_company (up_subject req)"
    and "dp_activate (sql_disclosure lower_like) t3 act s2 = (Inr rq, s3)"
  shows "dp_type (sql_disclosure lower_like) (sub_company (up_subject req)) (ty_id req) s3 = (Inr (dto_of (vp_version rp) req), s3)"
  by (rule sql_catalog.rollback_restores [OF assms])

theorem rollback_restores_version_witness:
  "fst (dp_type wit_sql ''c_001'' ''dt-1'' wit_db3) = Inr (dto_of 1 wit_request)"
proof -
  have r: "dp_upsert wit_sql 10 wit_request wit_db = (Inr (wit_reply 1 10), wit_db1)"
    "dp_upsert wit_sql 20 wit_second wit_db1 = (Inr (wit_reply 2 20), wit_db2)"
    "dp_activate wit_sql 30 wit_activate wit_db2 = (Inr (wit_reply 1 30), wit_db3)"
    by (simp_all add: sql_disclosure_def wit_runs)
  have f: "sub_company (up_subject wit_request) = ''c_001''" "ty_id wit_request = ''dt-1''" "vp_version (wit_reply 1 10) = 1"
    by code_simp+
  have c: "ty_id wit_second = ty_id wit_request" "sub_company (up_subject wit_second) = sub_company (up_subject wit_request)"
    "ty_group wit_second = ty_group wit_request" "vp_version (wit_reply 1 10) \<noteq> vp_version (wit_reply 2 20)"
    "ac_type wit_activate = ty_id wit_request" "ac_version wit_activate = vp_version (wit_reply 1 10)"
    "sub_company (ac_subject wit_activate) = sub_company (up_subject wit_request)"
    by code_simp+
  from rollback_restores_version [OF wit_db_ok wit_request_sendable wit_second_sendable c(1-3) r(1,2) c(4-7) r(3)]
  show ?thesis by (simp add: f)
qed

text \<open>On the MySQL tables an upsert cannot follow a roll-back: the next number is the active one plus
  one, so once an older version is active and its successor exists the insert violates the primary key;
  a global type (no company) cannot be saved at all, because its row is taken for missing and inserted
  again. Both answers are the opaque database error, and nothing is stored.\<close>

theorem upsert_blocked:
  assumes "type_of_id s (ty_id req) = Some row"
    and "\<not> foreign_company (tyr_company row) (trim_space (sub_company (up_subject req)))"
    and "tyr_company row = None \<or> 0 < tyr_active row \<and> version_of s (ty_id req) (tyr_active row + 1) \<noteq> None"
  shows "sql_upsert now req s = (Inl duplicate_key, s)"
  using assms by (cases "tyr_company row") (auto simp: sql_upsert_def Let_def transact_def insert_type_def insert_version_def)

theorem upsert_blocked_witness: "sql_upsert 40 wit_second wit_db3 = (Inl duplicate_key, wit_db3)"
proof -
  have t: "type_of_id wit_db3 (ty_id wit_second) = Some \<lparr>tyr_id = ''dt-1'', tyr_company = Some ''c_001'', tyr_group = ''group-001'', tyr_active = 1\<rparr>"
    by code_simp
  have v: "version_of wit_db3 (ty_id wit_second) 2 \<noteq> None" by code_simp
  have c: "trim_space (sub_company (up_subject wit_second)) = ''c_001''" by code_simp
  show ?thesis by (rule upsert_blocked [OF t]) (use v in \<open>simp_all add: c foreign_company_def\<close>)
qed

text \<open>In the in-memory repository an activation that fails for a version that does not exist has
  already deactivated every version of the type: afterwards none is marked active.\<close>

theorem failed_activation_deactivates:
  assumes "dm_catalog s (ac_type act) = Some cur" and "in_scope s (sub_company (ac_subject act)) (ac_type act)"
    and "dm_versions s (ac_type act) = Some vs" and "last_version (ac_version act) 0 (deactivate vs) = None"
  shows "fst (mem_activate now act s) = Inl no_type_version \<and>
    map_option (list_all (\<lambda>v. \<not> tv_active v)) (dm_versions (snd (mem_activate now act s)) (ac_type act)) = Some True"
  using assms by (simp add: mem_activate_def Let_def list_of_def deactivate_def list_all_iff)

definition wit_mem :: disc_mem where
  "wit_mem = snd (mem_upsert 10 wit_request \<lparr>dm_items = Map.empty, dm_groups = [], dm_catalog = Map.empty,
     dm_by_version = Map.empty, dm_versions = Map.empty, dm_scope = Map.empty\<rparr>)"

theorem failed_activation_deactivates_witness:
  "map_option (list_all (\<lambda>v. \<not> tv_active v)) (dm_versions (snd (mem_activate 30 (wit_activate\<lparr>ac_version := 7\<rparr>) wit_mem)) ''dt-1'') = Some True"
proof -
  let ?a = "wit_activate\<lparr>ac_version := 7\<rparr>"
  have t: "ac_type ?a = ''dt-1''" by code_simp
  have k: "\<not> Option.is_none (dm_catalog wit_mem (ac_type ?a))" "\<not> Option.is_none (dm_versions wit_mem (ac_type ?a))" by code_simp+
  then obtain cur vs where c: "dm_catalog wit_mem (ac_type ?a) = Some cur" "dm_versions wit_mem (ac_type ?a) = Some vs"
    by (auto simp: Option.is_none_def)
  have i: "in_scope wit_mem (sub_company (ac_subject ?a)) (ac_type ?a)" by code_simp
  have "map_option (\<lambda>vs. last_version (ac_version ?a) 0 (deactivate vs)) (dm_versions wit_mem (ac_type ?a)) = Some None" by code_simp
  with c have "last_version (ac_version ?a) 0 (deactivate vs) = None" by simp
  from failed_activation_deactivates [OF c(1) i c(2) this] show ?thesis unfolding t by blast
qed

end
