(* ===== verification/DisclosureService.thy ===== *)
theory DisclosureService
  imports TemplateValidation DisclosureCatalog
begin

section \<open>The disclosure service\<close>

text \<open>
  Models \<^verbatim>\<open>internal/disclosure/app/service.go\<close> over a repository port and the
  authorization service. A record is created as a draft, published by a submit and completed by a
  confirm; every operation first passes the authorizer with the department and the state of the
  record. The state is the repository's, the id generator's and the resolver's; the environment
  holds the ports, the clock (one reading per call) and \<^verbatim>\<open>strconv.ParseFloat\<close>.
\<close>

subsection \<open>Environment and state\<close>

record ('r, 's) disc_env =
  de_port :: "'r disclosure_port"
  de_resolve :: "'s resolver"
  de_policy :: policy_source
  de_parse_float :: parse_float
  de_now :: int

subsection \<open>Requests\<close>

record record_payload =
  py_type :: string
  py_department :: string
  py_title :: string
  py_summary :: string
  py_content :: string
  py_planned :: string
  py_attachments :: "attachment list"
  py_evidence :: string

subsection \<open>Sanitising\<close>

definition normalize_date :: "string \<Rightarrow> go_error + string" where
  "normalize_date raw0 =
    (let raw = trim_space raw0 in
     if raw = [] then Inr []
     else if parse_date raw = None then Inl (bad_request ''planned_date must be YYYY-MM-DD'')
     else Inr raw)"

definition sanitize_attachments :: "attachment list \<Rightarrow> attachment list" where
  "sanitize_attachments items = map (\<lambda>it. \<lparr>att_id = trim_space (att_id it), att_name = trim_space (att_name it),
       att_type = trim_space (att_type it), att_uploaded = trim_space (att_uploaded it)\<rparr>)
     (filter (\<lambda>it. trim_space (att_name it) \<noteq> []) items)"

fun sanitize_strings :: "string list \<Rightarrow> string list \<Rightarrow> string list" where
  "sanitize_strings seen [] = []"
| "sanitize_strings seen (x # xs) =
    (let t = trim_space x in
     if t = [] then sanitize_strings seen xs
     else if List.member seen t then sanitize_strings seen xs
     else t # sanitize_strings (t # seen) xs)"

definition sanitize_legal_bases :: "legal_basis_item list \<Rightarrow> legal_basis_item list" where
  "sanitize_legal_bases items = map (\<lambda>it. \<lparr>lb_id = trim_space (lb_id it), lb_title = trim_space (lb_title it),
       lb_code = trim_space (lb_code it), lb_authority = trim_space (lb_authority it),
       lb_issue_date = trim_space (lb_issue_date it), lb_summary = trim_space (lb_summary it), lb_link = trim_space (lb_link it)\<rparr>)
     (filter (\<lambda>it. \<not> (trim_space (lb_title it) = [] \<and> trim_space (lb_summary it) = [])) items)"

definition sanitize_checklist :: "checklist_item list \<Rightarrow> checklist_item list" where
  "sanitize_checklist items = map (\<lambda>it. \<lparr>ci_id = trim_space (ci_id it), ci_title = trim_space (ci_title it),
       ci_owner = trim_space (ci_owner it), ci_due = trim_space (ci_due it),
       ci_status = (if trim_space (ci_status it) = [] then ''Pending'' else trim_space (ci_status it))\<rparr>)
     (filter (\<lambda>it. trim_space (ci_title it) \<noteq> []) items)"

subsection \<open>Authorization\<close>

definition disclosure_ref :: "string \<Rightarrow> attrs \<Rightarrow> resource_ref" where
  "disclosure_ref i ats = \<lparr>res_type = ''disclosure_record'', res_id = i, res_attrs = ats\<rparr>"

definition record_attrs :: "string \<Rightarrow> string \<Rightarrow> string \<Rightarrow> attrs" where
  "record_attrs dep owner state = [(''department_id'', AStr dep), (''owner_membership_id'', AStr owner), (''workflow_state'', AStr state)]"

definition disc_authorize :: "('r, 's) disc_env \<Rightarrow> subject_ref \<Rightarrow> string \<Rightarrow> resource_ref \<Rightarrow> ('r, 's, unit) svc_action" where
  "disc_authorize env sub action res =
    seqE (wrapE (WrapErr ''authorize disclosure action'') (on_auth (authorize (de_resolve env) (de_policy env)
      \<lparr>rq_subject = sub, rq_action = action, rq_resource = res\<rparr>))) (\<lambda>d.
    chkE (dc_verdict d = Allow)
      (access_denied (case dc_deny d of None \<Rightarrow> CodePermissionDenied | Some c \<Rightarrow> c)))"

definition has_permission :: "('r, 's) disc_env \<Rightarrow> subject_ref \<Rightarrow> string \<Rightarrow> ('r, 's, bool) svc_action" where
  "has_permission env sub p s =
    (case get_effective_access (de_resolve env) (sub_membership sub) (sub_company sub) (svc_auth s) of
       (Inl e, a') \<Rightarrow> (Inr False, s\<lparr>svc_auth := a'\<rparr>)
     | (Inr eff, a') \<Rightarrow> (Inr (List.member (ea_permissions eff) p), s\<lparr>svc_auth := a'\<rparr>))"

definition require_manage :: "('r, 's) disc_env \<Rightarrow> subject_ref \<Rightarrow> ('r, 's, unit) svc_action" where
  "require_manage env sub = seqE (has_permission env sub ''rbac.manage'') (\<lambda>b. chkE b (access_denied CodePermissionDenied))"

definition require_catalog_read :: "('r, 's) disc_env \<Rightarrow> subject_ref \<Rightarrow> ('r, 's, unit) svc_action" where
  "require_catalog_read env sub = disc_authorize env sub ''disclosure.create''
     (disclosure_ref [] (record_attrs ''general'' (sub_membership sub) ''draft''))"

subsection \<open>Records\<close>

definition new_record :: "subject_ref \<Rightarrow> record_payload \<Rightarrow> string \<Rightarrow> string \<Rightarrow> string \<Rightarrow> disclosure_record" where
  "new_record sub pl planned dep rid = \<lparr>dr_id = rid, dr_company = sub_company sub, dr_type = trim_space (py_type pl),
     dr_department = dep, dr_title = trim_space (py_title pl), dr_summary = trim_space (py_summary pl),
     dr_content = trim_space (py_content pl), dr_planned = planned, dr_published = [], dr_status = ''Draft'',
     dr_attachments = sanitize_attachments (py_attachments pl), dr_evidence = trim_space (py_evidence pl),
     dr_created_by = sub_user sub, dr_updated_by = sub_user sub, dr_created_at = 0, dr_updated_at = 0\<rparr>"

definition create_record :: "('r, 's) disc_env \<Rightarrow> subject_ref \<Rightarrow> record_payload \<Rightarrow> ('r, 's, disclosure_record) svc_action" where
  "create_record env sub pl =
    (let dep = (if trim_space (py_department pl) = [] then ''general'' else trim_space (py_department pl)) in
    seqE (chkE (trim_space (py_title pl) \<noteq> []) (bad_request ''title is required'')) (\<lambda>_.
    seqE (chkE (trim_space (py_content pl) \<noteq> []) (bad_request ''content is required'')) (\<lambda>_.
    seqE (liftE (\<lambda>_. normalize_date (py_planned pl))) (\<lambda>planned.
    seqE (disc_authorize env sub ''disclosure.create'' (disclosure_ref [] (record_attrs dep (sub_membership sub) ''draft''))) (\<lambda>_.
    seqE (on_ids new_uuid) (\<lambda>rid.
    on_repo (dp_create (de_port env) (de_now env) (new_record sub pl planned dep rid))))))))"

text \<open>The steps the operations on a stored record share: the id, the lookup, the authorization.\<close>

definition find_record :: "('r, 's) disc_env \<Rightarrow> subject_ref \<Rightarrow> string \<Rightarrow> ('r, 's, disclosure_record) svc_action" where
  "find_record env sub rid =
    seqE (chkE (trim_space rid \<noteq> []) (bad_request ''record_id is required'')) (\<lambda>_.
    on_repo (dp_find (de_port env) (sub_company sub) rid))"

definition authorize_record :: "('r, 's) disc_env \<Rightarrow> subject_ref \<Rightarrow> string \<Rightarrow> string \<Rightarrow> disclosure_record \<Rightarrow> ('r, 's, unit) svc_action" where
  "authorize_record env sub action rid cur = disc_authorize env sub action
     (disclosure_ref rid (record_attrs (dr_department cur) (sub_membership sub) (to_lower (dr_status cur))))"

text \<open>The assignments of UpdateRecord to the record it found.\<close>

definition edited_record :: "subject_ref \<Rightarrow> record_payload \<Rightarrow> string \<Rightarrow> disclosure_record \<Rightarrow> disclosure_record" where
  "edited_record sub pl planned cur =
    (let dep = (if trim_space (py_department pl) = [] then dr_department cur else trim_space (py_department pl)) in
     cur\<lparr>dr_type := trim_space (py_type pl), dr_department := dep, dr_title := trim_space (py_title pl),
       dr_summary := trim_space (py_summary pl), dr_content := trim_space (py_content pl), dr_planned := planned,
       dr_attachments := sanitize_attachments (py_attachments pl), dr_evidence := trim_space (py_evidence pl),
       dr_updated_by := sub_user sub\<rparr>)"

definition update_record :: "('r, 's) disc_env \<Rightarrow> subject_ref \<Rightarrow> string \<Rightarrow> record_payload \<Rightarrow> ('r, 's, disclosure_record) svc_action" where
  "update_record env sub rid pl =
    seqE (find_record env sub rid) (\<lambda>cur.
    seqE (liftE (\<lambda>_. normalize_date (py_planned pl))) (\<lambda>planned.
    seqE (authorize_record env sub ''disclosure.update'' rid cur) (\<lambda>_.
    on_repo (dp_update (de_port env) (de_now env) (edited_record sub pl planned cur)))))"

definition submit_record :: "('r, 's) disc_env \<Rightarrow> subject_ref \<Rightarrow> string \<Rightarrow> ('r, 's, disclosure_record) svc_action" where
  "submit_record env sub rid =
    seqE (find_record env sub rid) (\<lambda>cur.
    seqE (authorize_record env sub ''disclosure.submit'' rid cur) (\<lambda>_.
    on_repo (dp_update (de_port env) (de_now env)
      (cur\<lparr>dr_status := ''Published'', dr_published := format_date (utc_date (de_now env)), dr_updated_by := sub_user sub\<rparr>))))"

definition confirm_record :: "('r, 's) disc_env \<Rightarrow> subject_ref \<Rightarrow> string \<Rightarrow> ('r, 's, disclosure_record) svc_action" where
  "confirm_record env sub rid =
    seqE (find_record env sub rid) (\<lambda>cur.
    seqE (authorize_record env sub ''disclosure.approve'' rid cur) (\<lambda>_.
    seqE (chkE (to_lower (dr_status cur) = ''published'') (new_http_error 409 CodeStateConflict ''record is not in published state'')) (\<lambda>_.
    on_repo (dp_update (de_port env) (de_now env)
      (cur\<lparr>dr_status := ''Completed'', dr_updated_by := sub_user sub\<rparr>)))))"

definition list_records :: "('r, 's) disc_env \<Rightarrow> subject_ref \<Rightarrow> ('r, 's, disclosure_record list) svc_action" where
  "list_records env sub =
    seqE (disc_authorize env sub ''disclosure.view'' (disclosure_ref [] [(''workflow_state'', AStr ''*'')])) (\<lambda>_.
    on_repo (dp_list (de_port env) (sub_company sub)))"

definition get_record :: "('r, 's) disc_env \<Rightarrow> subject_ref \<Rightarrow> string \<Rightarrow> ('r, 's, disclosure_record) svc_action" where
  "get_record env sub rid =
    seqE (find_record env sub rid) (\<lambda>cur.
    seqE (authorize_record env sub ''disclosure.view'' rid cur) (\<lambda>_. okE cur))"

subsection \<open>Templates\<close>

definition list_type_groups :: "('r, 's) disc_env \<Rightarrow> subject_ref \<Rightarrow> ('r, 's, type_group list) svc_action" where
  "list_type_groups env sub =
    seqE (require_catalog_read env sub) (\<lambda>_. on_repo (dp_groups (de_port env) (sub_company sub)))"

definition list_types :: "('r, 's) disc_env \<Rightarrow> subject_ref \<Rightarrow> string \<Rightarrow> string \<Rightarrow> ('r, 's, type_summary list) svc_action" where
  "list_types env sub gid query =
    seqE (require_catalog_read env sub) (\<lambda>_. on_repo (dp_types (de_port env) (sub_company sub) gid query))"

definition get_type_detail :: "('r, 's) disc_env \<Rightarrow> subject_ref \<Rightarrow> string \<Rightarrow> ('r, 's, type_dto) svc_action" where
  "get_type_detail env sub tid =
    seqE (chkE (trim_space tid \<noteq> []) (bad_request ''type_id is required'')) (\<lambda>_.
    seqE (require_catalog_read env sub) (\<lambda>_. on_repo (dp_type (de_port env) (sub_company sub) tid)))"

definition get_type_version_detail :: "('r, 's) disc_env \<Rightarrow> subject_ref \<Rightarrow> string \<Rightarrow> int \<Rightarrow> ('r, 's, type_dto) svc_action" where
  "get_type_version_detail env sub tid n =
    seqE (require_manage env sub) (\<lambda>_.
    seqE (chkE (trim_space tid \<noteq> []) (bad_request ''type_id is required'')) (\<lambda>_.
    seqE (chkE (0 < n) (bad_request ''version_no must be > 0'')) (\<lambda>_.
    on_repo (dp_type_version (de_port env) (sub_company sub) (trim_space tid) n))))"

record reference_data =
  rd_categories :: "string list"
  rd_periodicities :: "string list"
  rd_strategies :: "string list"
  rd_matrix :: "string \<rightharpoonup> string list"

definition template_reference_data :: reference_data where
  "template_reference_data = \<lparr>
     rd_categories = [TemplateCategoryPeriodic, TemplateCategoryIrregular, TemplateCategoryCustom],
     rd_periodicities = [PeriodicityMonthly, PeriodicityQuarterly, PeriodicityYearly, PeriodicityEventBased, PeriodicityAdHoc],
     rd_strategies = [DeadlineStrategyFixedCycleDays, DeadlineStrategyEventHours, DeadlineStrategyConfigurable],
     rd_matrix = [
       TemplateCategoryPeriodic \<mapsto> [''periodicity in [monthly, quarterly, yearly]'', ''deadline_strategy must be fixed_cycle_days''],
       TemplateCategoryIrregular \<mapsto> [''periodicity must be event_based'', ''deadline_strategy must be event_relative_hours''],
       TemplateCategoryCustom \<mapsto> [''periodicity in [monthly, quarterly, yearly, ad_hoc]'', ''deadline_strategy must be configurable'']]\<rparr>"

definition get_template_reference_data :: "('r, 's) disc_env \<Rightarrow> subject_ref \<Rightarrow> ('r, 's, reference_data) svc_action" where
  "get_template_reference_data env sub = seqE (require_manage env sub) (\<lambda>_. okE template_reference_data)"

definition sanitize_request :: "upsert_request \<Rightarrow> upsert_request" where
  "sanitize_request req = req\<lparr>
     ty_id := trim_space (ty_id req), ty_group := trim_space (ty_group req), ty_name := trim_space (ty_name req),
     ty_category := trim_space (ty_category req), ty_template_category := trim_space (ty_template_category req),
     ty_deadline_strategy := trim_space (ty_deadline_strategy req), ty_deadline_rule := trim_space (ty_deadline_rule req),
     ty_periodicity := trim_space (ty_periodicity req), ty_reminders := sanitize_strings [] (ty_reminders req),
     ty_legal_bases := sanitize_legal_bases (ty_legal_bases req), ty_checklist := sanitize_checklist (ty_checklist req)\<rparr>"

definition upsert_type_version :: "('r, 's) disc_env \<Rightarrow> upsert_request \<Rightarrow> ('r, 's, version_reply) svc_action" where
  "upsert_type_version env req0 =
    seqE (require_manage env (up_subject req0)) (\<lambda>_.
    let req = sanitize_request req0 in
    seqE (chkE (ty_id req \<noteq> []) (bad_request ''type_id is required'')) (\<lambda>_.
    seqE (chkE (ty_group req \<noteq> []) (bad_request ''group_id is required'')) (\<lambda>_.
    seqE (chkE (ty_name req \<noteq> []) (bad_request ''name is required'')) (\<lambda>_.
    seqE (on_ids (sync_template req)) (\<lambda>req1.
    seqE (liftE (\<lambda>_. validate_template (de_parse_float env) req1)) (\<lambda>req2.
    on_repo (dp_upsert (de_port env) (de_now env) req2)))))))"

definition list_type_versions :: "('r, 's) disc_env \<Rightarrow> subject_ref \<Rightarrow> string \<Rightarrow> ('r, 's, type_version list) svc_action" where
  "list_type_versions env sub tid =
    seqE (require_manage env sub) (\<lambda>_.
    seqE (chkE (trim_space tid \<noteq> []) (bad_request ''type_id is required'')) (\<lambda>_.
    on_repo (dp_versions (de_port env) (sub_company sub) (trim_space tid))))"

definition activate_type_version :: "('r, 's) disc_env \<Rightarrow> activate_request \<Rightarrow> ('r, 's, version_reply) svc_action" where
  "activate_type_version env req =
    seqE (require_manage env (ac_subject req)) (\<lambda>_.
    seqE (chkE (trim_space (ac_type req) \<noteq> []) (bad_request ''type_id is required'')) (\<lambda>_.
    seqE (chkE (0 < ac_version req) (bad_request ''version_no must be > 0'')) (\<lambda>_.
    on_repo (dp_activate (de_port env) (de_now env)
      (req\<lparr>ac_type := trim_space (ac_type req), ac_reason := trim_space (ac_reason req)\<rparr>)))))"

subsection \<open>The life cycle of a record, abstractly\<close>

text \<open>
  What an operation of a subject of company \<open>c\<close> may do to the records: add a draft of the company,
  edit a record of the company without touching its state, publish it, or complete a published one.
\<close>

definition owned :: "string \<Rightarrow> string \<Rightarrow> disclosure_record \<Rightarrow> disclosure_record \<Rightarrow> bool" where
  "owned c i old r \<longleftrightarrow> dr_company r = c \<and> dr_id r = i \<and> dr_created_by r = dr_created_by old"

definition same_text :: "disclosure_record \<Rightarrow> disclosure_record \<Rightarrow> bool" where
  "same_text a b \<longleftrightarrow> dr_type a = dr_type b \<and> dr_department a = dr_department b \<and> dr_title a = dr_title b \<and>
     dr_summary a = dr_summary b \<and> dr_content a = dr_content b \<and> dr_planned a = dr_planned b \<and>
     dr_attachments a = dr_attachments b \<and> dr_evidence a = dr_evidence b"

inductive record_step :: "string \<Rightarrow> record_view \<Rightarrow> record_view \<Rightarrow> bool" where
  draft: "m c i = None \<Longrightarrow> dr_company r = c \<Longrightarrow> dr_id r = i \<Longrightarrow> dr_status r = ''Draft'' \<Longrightarrow> dr_published r = [] \<Longrightarrow>
    dr_title r \<noteq> [] \<Longrightarrow> dr_content r \<noteq> [] \<Longrightarrow> record_step c m (put_record r m)"
| edit: "m c i = Some old \<Longrightarrow> owned c i old r \<Longrightarrow> dr_status r = dr_status old \<Longrightarrow> dr_published r = dr_published old \<Longrightarrow>
    record_step c m (put_record r m)"
| publish: "m c i = Some old \<Longrightarrow> owned c i old r \<Longrightarrow> same_text old r \<Longrightarrow> dr_status r = ''Published'' \<Longrightarrow>
    parse_date (dr_published r) \<noteq> None \<Longrightarrow> record_step c m (put_record r m)"
| complete: "m c i = Some old \<Longrightarrow> owned c i old r \<Longrightarrow> same_text old r \<Longrightarrow> to_lower (dr_status old) = ''published'' \<Longrightarrow>
    dr_status r = ''Completed'' \<Longrightarrow> dr_published r = dr_published old \<Longrightarrow> record_step c m (put_record r m)"

inductive_cases record_stepE: "record_step c m m'"

lemma record_step_foreign: "record_step c m m' \<Longrightarrow> c' \<noteq> c \<Longrightarrow> m' c' = m c'"
  by (auto elim!: record_stepE simp: put_record_def owned_def fun_eq_iff)

definition lifecycle_ok :: "record_view \<Rightarrow> bool" where
  "lifecycle_ok m \<longleftrightarrow> (\<forall>c i r. m c i = Some r \<longrightarrow> dr_company r = c \<and> dr_id r = i \<and>
     (dr_status r = ''Draft'' \<and> dr_published r = [] \<or>
      dr_status r \<in> {''Published'', ''Completed''} \<and> parse_date (dr_published r) \<noteq> None))"

lemma lifecycle_put:
  assumes "lifecycle_ok m"
    and "dr_status r = ''Draft'' \<and> dr_published r = [] \<or>
      dr_status r \<in> {''Published'', ''Completed''} \<and> parse_date (dr_published r) \<noteq> None"
  shows "lifecycle_ok (put_record r m)"
  using assms by (auto simp: lifecycle_ok_def put_record_def)

lemma lifecycleD: "lifecycle_ok m \<Longrightarrow> m c i = Some r \<Longrightarrow> dr_status r = ''Draft'' \<and> dr_published r = [] \<or>
      dr_status r \<in> {''Published'', ''Completed''} \<and> parse_date (dr_published r) \<noteq> None"
  by (simp add: lifecycle_ok_def)

lemma lower_draft: "to_lower ''Draft'' \<noteq> ''published''" "to_lower ''Published'' = ''published''"
  by code_simp+

lemma lifecycle_step: "record_step c m m' \<Longrightarrow> lifecycle_ok m \<Longrightarrow> lifecycle_ok m'"
proof (induction rule: record_step.induct)
  case (complete m c i old r)
  with lifecycleD [OF complete.prems complete.hyps(1)] lower_draft show ?case by (intro lifecycle_put) auto
next
  case (edit m c i old r)
  with lifecycleD [OF edit.prems edit.hyps(1)] show ?case by (intro lifecycle_put) auto
qed (auto intro: lifecycle_put)

subsection \<open>Operations as steps\<close>

datatype disc_op =
    OpCreate subject_ref record_payload
  | OpUpdate subject_ref string record_payload
  | OpSubmit subject_ref string
  | OpConfirm subject_ref string
  | OpGet subject_ref string

fun op_subject :: "disc_op \<Rightarrow> subject_ref" where
  "op_subject (OpCreate sub pl) = sub"
| "op_subject (OpUpdate sub i pl) = sub"
| "op_subject (OpSubmit sub i) = sub"
| "op_subject (OpConfirm sub i) = sub"
| "op_subject (OpGet sub i) = sub"

definition op_company :: "disc_op \<Rightarrow> string" where
  "op_company op = sub_company (op_subject op)"

fun run_op :: "('r, 's) disc_env \<Rightarrow> disc_op \<Rightarrow> ('r, 's, disclosure_record) svc_action" where
  "run_op env (OpCreate sub pl) = create_record env sub pl"
| "run_op env (OpUpdate sub i pl) = update_record env sub i pl"
| "run_op env (OpSubmit sub i) = submit_record env sub i"
| "run_op env (OpConfirm sub i) = confirm_record env sub i"
| "run_op env (OpGet sub i) = get_record env sub i"

inductive disc_run :: "('r, 's) disc_env \<Rightarrow> (string \<Rightarrow> bool) \<Rightarrow> ('r, 's) svc_state \<Rightarrow> ('r, 's) svc_state \<Rightarrow> bool"
  for env wfc s where
  refl: "disc_run env wfc s s"
| step: "disc_run env wfc s t \<Longrightarrow> wfc (op_company op) \<Longrightarrow> printable_time now \<Longrightarrow>
    run_op (env\<lparr>de_now := now\<rparr>) op t = (res, u) \<Longrightarrow> disc_run env wfc s u"

lemma disc_run_snoc: "disc_run env wfc s t \<Longrightarrow> wfc (op_company op) \<Longrightarrow> printable_time now \<Longrightarrow>
    disc_run env wfc s (snd (run_op (env\<lparr>de_now := now\<rparr>) op t))"
  by (erule disc_run.step [where op = op and res = "fst (run_op (env\<lparr>de_now := now\<rparr>) op t)"]) simp_all

subsection \<open>What the operations do to the store\<close>

lemma on_repo_run: "on_repo m s = (x, s') \<longleftrightarrow> (\<exists>r'. m (svc_repo s) = (x, r') \<and> s' = s\<lparr>svc_repo := r'\<rparr>)"
  by (auto simp: on_repo_def split: prod.splits)

lemma on_auth_frame: "on_auth m s = (x, s') \<Longrightarrow> svc_repo s' = svc_repo s \<and> svc_ids s' = svc_ids s"
  by (auto simp: on_auth_def split: prod.splits)

lemma disc_authorize_frame:
  "disc_authorize env sub action res s = (x, s') \<Longrightarrow> svc_repo s' = svc_repo s \<and> svc_ids s' = svc_ids s"
  by (cases x) (auto simp: disc_authorize_def seq_iffs dest!: on_auth_frame split: if_splits)

lemma disc_authorize_ok:
  "disc_authorize env sub action res s = (Inr x, s') \<Longrightarrow>
    \<exists>d. authorize (de_resolve env) (de_policy env) \<lparr>rq_subject = sub, rq_action = action, rq_resource = res\<rparr> (svc_auth s) =
      (Inr d, svc_auth s') \<and> dc_verdict d = Allow"
  by (auto simp: disc_authorize_def seq_iffs on_auth_def split: if_splits prod.splits)

text \<open>The records are in order, and their identifiers are among those drawn so far.\<close>

definition disc_state_ok :: "('r \<Rightarrow> bool) \<Rightarrow> ('r \<Rightarrow> record_view) \<Rightarrow> ('r, 's) svc_state \<Rightarrow> bool" where
  "disc_state_ok ok recs s \<longleftrightarrow> ok (svc_repo s) \<and> fresh_ids (svc_ids s) \<and>
     (\<forall>c i r. recs (svc_repo s) c i = Some r \<longrightarrow> issued_as [] (svc_ids s) i)"

definition disc_steps :: "('r \<Rightarrow> bool) \<Rightarrow> ('r \<Rightarrow> record_view) \<Rightarrow> string \<Rightarrow> ('r, 's) svc_state \<Rightarrow> ('r, 's) svc_state \<Rightarrow> bool" where
  "disc_steps ok recs c s s' \<longleftrightarrow> disc_state_ok ok recs s' \<and>
     (recs (svc_repo s') = recs (svc_repo s) \<or> record_step c (recs (svc_repo s)) (recs (svc_repo s')))"

context record_store
begin

lemma find_record_ok:
  assumes "ok (svc_repo s)" and "wf_company (sub_company sub)" and "de_port env = port"
    and "find_record env sub rid s = (Inr cur, s')"
  shows "s' = s \<and> recs (svc_repo s) (sub_company sub) rid = Some cur \<and> dr_company cur = sub_company sub \<and> dr_id cur = rid"
  using assms(3,4) find_some [OF assms(1,2)]
  by (auto simp: find_record_def seq_iffs on_repo_run split: if_splits)

lemma find_record_err:
  assumes "ok (svc_repo s)" and "wf_company (sub_company sub)" and "de_port env = port"
    and "find_record env sub rid s = (Inl e, s')"
  shows "svc_repo s' = svc_repo s \<and> svc_ids s' = svc_ids s"
  using assms(3,4) find_frame [OF assms(1,2), of rid]
  by (auto simp: find_record_def seq_iffs on_repo_run split: if_splits)

lemma write_back:
  assumes "ok (svc_repo s)" and "wf_company c" and "recs (svc_repo s) c i = Some cur" and "owned c i cur r"
    and "on_repo (dp_update port now r) s = (res, s')"
  shows "svc_ids s' = svc_ids s \<and> (case res of Inl e \<Rightarrow> svc_repo s' = svc_repo s
    | Inr r' \<Rightarrow> ok (svc_repo s') \<and> same_content r r' \<and> recs (svc_repo s') = put_record r' (recs (svc_repo s)))"
proof -
  from assms(4) have k: "dr_company r = c" "dr_id r = i" "dr_created_by r = dr_created_by cur" by (simp_all add: owned_def)
  from assms(5) obtain t where u: "dp_update port now r (svc_repo s) = (res, t)" and s': "s' = s\<lparr>svc_repo := t\<rparr>"
    by (auto simp: on_repo_run)
  show ?thesis
  proof (cases res)
    case (Inl e)
    with u update_err [OF assms(1) _ u [unfolded Inl]] assms(2) k s' show ?thesis by simp
  next
    case (Inr r')
    from update_ok [OF assms(1) _ _ _ u [unfolded Inr], of cur] assms(2,3) k s' Inr show ?thesis by simp
  qed
qed

lemma state_ok_frame: "disc_state_ok ok recs s \<Longrightarrow> svc_repo s' = svc_repo s \<Longrightarrow> svc_ids s' = svc_ids s \<Longrightarrow> disc_state_ok ok recs s'"
  by (simp add: disc_state_ok_def)

lemma state_ok_put:
  assumes "disc_state_ok ok recs s" and "recs (svc_repo s) c i = Some cur" and "owned c i cur r'"
    and "ok (svc_repo s')" and "recs (svc_repo s') = put_record r' (recs (svc_repo s))" and "svc_ids s' = svc_ids s"
  shows "disc_state_ok ok recs s'"
  using assms by (auto simp: disc_state_ok_def put_record_def owned_def)

lemma steps_frame: "disc_state_ok ok recs s \<Longrightarrow> svc_repo s' = svc_repo s \<Longrightarrow> svc_ids s' = svc_ids s \<Longrightarrow> disc_steps ok recs c s s'"
  by (simp add: disc_steps_def state_ok_frame)

text \<open>One shape covers update, submit and confirm: find, check, authorize, check, write back.\<close>

lemma edit_step:
  assumes "disc_state_ok ok recs s" and "wf_company c" and "recs (svc_repo s) c i = Some cur"
    and "owned c i cur r" and "on_repo (dp_update port now r) s1 = (res, s')"
    and "svc_repo s1 = svc_repo s" and "svc_ids s1 = svc_ids s"
    and "\<And>r'. same_content r r' \<Longrightarrow> record_step c (recs (svc_repo s)) (put_record r' (recs (svc_repo s)))"
  shows "disc_steps ok recs c s s'"
proof -
  have s1: "disc_state_ok ok recs s1" by (rule state_ok_frame [OF assms(1,6,7)])
  then have "ok (svc_repo s1)" by (simp add: disc_state_ok_def)
  note w = write_back [OF this assms(2) assms(3) [folded assms(6)] assms(4,5)]
  show ?thesis
  proof (cases res)
    case (Inl e)
    with w assms(6,7) steps_frame [OF assms(1), of s'] show ?thesis by simp
  next
    case (Inr r')
    with w have r': "ok (svc_repo s')" "same_content r r'" "recs (svc_repo s') = put_record r' (recs (svc_repo s))"
      "svc_ids s' = svc_ids s" using assms(6,7) by simp_all
    have "owned c i cur r'" using assms(4) same_content_fields [OF r'(2)] by (simp add: owned_def)
    from state_ok_put [OF assms(1,3) this r'(1,3,4)] assms(8) [OF r'(2)] r'(3) show ?thesis by (simp add: disc_steps_def)
  qed
qed

lemma with_record:
  assumes "disc_state_ok ok recs s" and "wf_company (sub_company sub)" and "de_port env = port"
    and "seqE (find_record env sub i) k s = (res, s')"
    and "\<And>cur. recs (svc_repo s) (sub_company sub) i = Some cur \<Longrightarrow> dr_company cur = sub_company sub \<Longrightarrow> dr_id cur = i \<Longrightarrow>
      k cur s = (res, s') \<Longrightarrow> disc_steps ok recs c s s'"
  shows "disc_steps ok recs c s s'"
proof (cases "find_record env sub i s")
  case (Pair x s0)
  have ok: "ok (svc_repo s)" using assms(1) by (simp add: disc_state_ok_def)
  show ?thesis
  proof (cases x)
    case (Inl e)
    with assms(4) Pair have "s' = s0" by simp
    with find_record_err [OF ok assms(2,3) Pair [unfolded Inl]] steps_frame [OF assms(1), of s'] show ?thesis by simp
  next
    case (Inr cur)
    with find_record_ok [OF ok assms(2,3) Pair [unfolded Inr]] assms(4,5) Pair show ?thesis by simp
  qed
qed

lemma with_authorized:
  assumes "disc_state_ok ok recs s" and "seqE (authorize_record env sub a i cur) k s = (res, s')"
    and "\<And>s1. svc_repo s1 = svc_repo s \<Longrightarrow> svc_ids s1 = svc_ids s \<Longrightarrow> k () s1 = (res, s') \<Longrightarrow> disc_steps ok recs c s s'"
  shows "disc_steps ok recs c s s'"
proof (cases "authorize_record env sub a i cur s")
  case (Pair x s1)
  note fr = disc_authorize_frame [OF Pair [unfolded authorize_record_def]]
  show ?thesis
  proof (cases x)
    case (Inl e)
    with assms(2) Pair have "s' = s1" by simp
    with fr steps_frame [OF assms(1), of s'] show ?thesis by simp
  next
    case (Inr u)
    with assms(2) Pair have "k () s1 = (res, s')" by simp
    with assms(3) [of s1] fr show ?thesis by blast
  qed
qed

lemma update_step:
  assumes "disc_state_ok ok recs s" and "wf_company (sub_company sub)" and "de_port env = port"
    and "update_record env sub i pl s = (res, s')"
  shows "disc_steps ok recs (sub_company sub) s s'"
proof (rule with_record [OF assms(1-3) assms(4) [unfolded update_record_def]])
  fix cur
  assume cur: "recs (svc_repo s) (sub_company sub) i = Some cur" "dr_company cur = sub_company sub" "dr_id cur = i"
    and k: "seqE (liftE (\<lambda>_. normalize_date (py_planned pl))) (\<lambda>planned.
      seqE (authorize_record env sub ''disclosure.update'' i cur) (\<lambda>_.
      on_repo (dp_update (de_port env) (de_now env) (edited_record sub pl planned cur)))) s = (res, s')"
  show "disc_steps ok recs (sub_company sub) s s'"
  proof (cases "normalize_date (py_planned pl)")
    case (Inl e)
    with k have "s' = s" by (simp add: seqE_lift)
    then show ?thesis by (simp add: steps_frame [OF assms(1)])
  next
    case (Inr planned)
    with k have a: "seqE (authorize_record env sub ''disclosure.update'' i cur) (\<lambda>_.
      on_repo (dp_update (de_port env) (de_now env) (edited_record sub pl planned cur))) s = (res, s')" by (simp add: seqE_lift)
    show ?thesis
    proof (rule with_authorized [OF assms(1) a])
      fix s1
      assume fr: "svc_repo s1 = svc_repo s" "svc_ids s1 = svc_ids s"
        and r: "on_repo (dp_update (de_port env) (de_now env) (edited_record sub pl planned cur)) s1 = (res, s')"
      show ?thesis
        by (intro edit_step [OF assms(1,2) cur(1) _ r [unfolded assms(3)] fr] record_step.edit [of _ _ i cur])
          (use cur in \<open>auto simp: owned_def edited_record_def Let_def dest!: same_contentD\<close>)
    qed
  qed
qed

lemma submit_step:
  assumes "disc_state_ok ok recs s" and "wf_company (sub_company sub)" and "de_port env = port"
    and "printable_time (de_now env)" and "submit_record env sub i s = (res, s')"
  shows "disc_steps ok recs (sub_company sub) s s'"
proof (rule with_record [OF assms(1-3) assms(5) [unfolded submit_record_def]], rule with_authorized [OF assms(1)])
  fix cur s1
  assume cur: "recs (svc_repo s) (sub_company sub) i = Some cur" "dr_company cur = sub_company sub" "dr_id cur = i"
    and fr: "svc_repo s1 = svc_repo s" "svc_ids s1 = svc_ids s"
    and r: "on_repo (dp_update (de_port env) (de_now env) (cur\<lparr>dr_status := ''Published'',
      dr_published := format_date (utc_date (de_now env)), dr_updated_by := sub_user sub\<rparr>)) s1 = (res, s')"
  have "parse_date (format_date (utc_date (de_now env))) \<noteq> None"
    by (simp add: parse_format_date [OF valid_utc_date [OF assms(4)]])
  then show "disc_steps ok recs (sub_company sub) s s'"
    by (intro edit_step [OF assms(1,2) cur(1) _ r [unfolded assms(3)] fr] record_step.publish [of _ _ i cur])
      (use cur in \<open>auto simp: owned_def same_text_def dest!: same_contentD\<close>)
qed assumption

lemma confirm_step:
  assumes "disc_state_ok ok recs s" and "wf_company (sub_company sub)" and "de_port env = port"
    and "confirm_record env sub i s = (res, s')"
  shows "disc_steps ok recs (sub_company sub) s s'"
proof (rule with_record [OF assms(1-3) assms(4) [unfolded confirm_record_def]], rule with_authorized [OF assms(1)])
  fix cur s1
  assume cur: "recs (svc_repo s) (sub_company sub) i = Some cur" "dr_company cur = sub_company sub" "dr_id cur = i"
    and fr: "svc_repo s1 = svc_repo s" "svc_ids s1 = svc_ids s"
    and k: "seqE (chkE (to_lower (dr_status cur) = ''published'') (new_http_error 409 CodeStateConflict ''record is not in published state''))
      (\<lambda>_. on_repo (dp_update (de_port env) (de_now env) (cur\<lparr>dr_status := ''Completed'', dr_updated_by := sub_user sub\<rparr>))) s1 = (res, s')"
  show "disc_steps ok recs (sub_company sub) s s'"
  proof (cases "to_lower (dr_status cur) = ''published''")
    case True
    with k have r: "on_repo (dp_update (de_port env) (de_now env) (cur\<lparr>dr_status := ''Completed'', dr_updated_by := sub_user sub\<rparr>)) s1 = (res, s')"
      by simp
    show ?thesis
      by (intro edit_step [OF assms(1,2) cur(1) _ r [unfolded assms(3)] fr] record_step.complete [of _ _ i cur])
        (use cur True in \<open>auto simp: owned_def same_text_def dest!: same_contentD\<close>)
  next
    case False
    with k have "s' = s1" by simp
    with fr show ?thesis by (simp add: steps_frame [OF assms(1)])
  qed
qed assumption

lemma get_step:
  assumes "disc_state_ok ok recs s" and "wf_company (sub_company sub)" and "de_port env = port"
    and "get_record env sub i s = (res, s')"
  shows "disc_steps ok recs (sub_company sub) s s'"
proof (rule with_record [OF assms(1-3) assms(4) [unfolded get_record_def]], rule with_authorized [OF assms(1)])
  fix cur s1
  assume "svc_repo s1 = svc_repo s" "svc_ids s1 = svc_ids s" and "okE cur s1 = (res, s')"
  then show "disc_steps ok recs (sub_company sub) s s'" by (auto intro: steps_frame [OF assms(1)])
qed assumption

end

lemma on_ids_uuid: "on_ids new_uuid s = (Inr (ig_supply (svc_ids s) (ig_next (svc_ids s))),
    s\<lparr>svc_ids := (svc_ids s)\<lparr>ig_next := Suc (ig_next (svc_ids s))\<rparr>\<rparr>)"
  by (simp add: on_ids_def new_uuid_def)

text \<open>A create either stops before the repository or hands it a fresh draft.\<close>

lemma create_record_cases:
  assumes "create_record env sub pl s = (res, s')"
  obtains (stopped) "svc_repo s' = svc_repo s" "svc_ids s' = svc_ids s"
  | (stored) planned dep s1 where "svc_repo s1 = svc_repo s"
      and "svc_ids s1 = (svc_ids s)\<lparr>ig_next := Suc (ig_next (svc_ids s))\<rparr>"
      and "trim_space (py_title pl) \<noteq> []" and "trim_space (py_content pl) \<noteq> []"
      and "on_repo (dp_create (de_port env) (de_now env) (new_record sub pl planned dep
        (ig_supply (svc_ids s) (ig_next (svc_ids s))))) s1 = (res, s')"
proof -
  define dep where "dep = (if trim_space (py_department pl) = [] then ''general'' else trim_space (py_department pl))"
  obtain y s0 where a: "disc_authorize env sub ''disclosure.create''
      (disclosure_ref [] (record_attrs dep (sub_membership sub) ''draft'')) s = (y, s0)" by fastforce
  note fr = disc_authorize_frame [OF a]
  show ?thesis
  proof (cases "trim_space (py_title pl) \<noteq> [] \<and> trim_space (py_content pl) \<noteq> [] \<and>
      \<not> isl (normalize_date (py_planned pl)) \<and> \<not> isl y")
    case False
    have "s' = s \<or> s' = s0"
      using assms False a unfolding create_record_def Let_def dep_def [symmetric]
      by (cases y) (auto simp: seqE_lift split: if_splits sum.splits)
    with fr stopped show ?thesis by auto
  next
    case True
    then obtain planned where p: "normalize_date (py_planned pl) = Inr planned"
      by (cases "normalize_date (py_planned pl)") auto
    obtain u where "y = Inr u" using True by (cases y) auto
    then have "on_repo (dp_create (de_port env) (de_now env) (new_record sub pl planned dep
        (ig_supply (svc_ids s) (ig_next (svc_ids s))))) (s0\<lparr>svc_ids := (svc_ids s0)\<lparr>ig_next := Suc (ig_next (svc_ids s0))\<rparr>\<rparr>) = (res, s')"
      using assms True p a fr unfolding create_record_def Let_def dep_def [symmetric] by (simp add: seqE_lift on_ids_uuid)
    with True fr show ?thesis by (intro stored) auto
  qed
qed

context record_store
begin

lemma create_step:
  assumes "disc_state_ok ok recs s" and "wf_company (sub_company sub)" and "de_port env = port"
    and "create_record env sub pl s = (res, s')"
  shows "disc_steps ok recs (sub_company sub) s s'"
  using assms(4)
proof (cases rule: create_record_cases)
  case stopped
  then show ?thesis by (rule steps_frame [OF assms(1)])
next
  case (stored planned dep s1)
  define i where "i = ig_supply (svc_ids s) (ig_next (svc_ids s))"
  define r where "r = new_record sub pl planned dep i"
  have ok: "ok (svc_repo s)" and fresh: "fresh_ids (svc_ids s)" using assms(1) by (simp_all add: disc_state_ok_def)
  have new: "\<not> issued_as [] (svc_ids s) i" using next_token_unissued [OF fresh, of "[]"] by (simp add: next_token_def i_def)
  have none: "recs (svc_repo s) c i = None" for c
    using assms(1) new by (cases "recs (svc_repo s) c i") (auto simp: disc_state_ok_def)
  have k: "dr_company r = sub_company sub" "dr_id r = i" by (simp_all add: r_def new_record_def)
  from stored(5) obtain t where c: "dp_create port (de_now env) r (svc_repo s) = (res, t)" and s': "s' = s1\<lparr>svc_repo := t\<rparr>"
    using stored(1) assms(3) by (auto simp: on_repo_run i_def r_def)
  have ids: "svc_ids s' = (svc_ids s)\<lparr>ig_next := Suc (ig_next (svc_ids s))\<rparr>" using s' stored(2) by simp
  have issued: "issued_as [] (svc_ids s') j \<longleftrightarrow> issued_as [] (svc_ids s) j \<or> j = i" for j
    by (simp add: ids i_def next_token_def)
  show ?thesis
  proof (cases res)
    case (Inl e)
    with create_err [OF ok _ c [unfolded Inl]] k assms(2) have "t = svc_repo s" by simp
    with assms(1) s' issued ids show ?thesis by (simp add: disc_steps_def disc_state_ok_def)
  next
    case (Inr r')
    have t: "ok t" "same_content r r'" "recs t = put_record r' (recs (svc_repo s))"
      using create_ok [OF ok _ c [unfolded Inr]] k assms(2) by simp_all
    have "record_step (sub_company sub) (recs (svc_repo s)) (recs t)"
      unfolding t(3) by (rule record_step.draft [of _ _ i])
        (use none k stored(3,4) same_contentD [OF t(2)] in \<open>auto simp: r_def new_record_def\<close>)
    moreover have "disc_state_ok ok recs s'"
      using assms(1) t same_contentD [OF t(2)] k s' issued fresh ids by (auto simp: disc_state_ok_def put_record_def)
    ultimately show ?thesis using s' by (simp add: disc_steps_def)
  qed
qed

lemma run_op_step:
  assumes "disc_state_ok ok recs s" and "wf_company (op_company op)" and "de_port env = port"
    and "printable_time (de_now env)" and "run_op env op s = (res, s')"
  shows "disc_steps ok recs (op_company op) s s'"
  using assms by (cases op) (auto simp: op_company_def intro: create_step update_step submit_step confirm_step get_step)

lemma run_state_ok:
  assumes "disc_run env wf_company s t" and "disc_state_ok ok recs s" and "de_port env = port"
  shows "disc_state_ok ok recs t \<and> (\<lambda>m m'. \<exists>c. record_step c m m')\<^sup>*\<^sup>* (recs (svc_repo s)) (recs (svc_repo t))"
  using assms(1)
proof (induction rule: disc_run.induct)
  case (step t op now res u)
  have "disc_steps ok recs (op_company op) t u"
    by (rule run_op_step [OF _ step.hyps(2) _ _ step.hyps(4)]) (use step assms(3) in simp_all)
  with step.IH show ?case unfolding disc_steps_def
    by (metis (mono_tags, lifting) rtranclp.rtrancl_into_rtrancl)
qed (use assms(2) in simp)

lemma run_lifecycle:
  assumes "disc_run env wf_company s t" and "disc_state_ok ok recs s" and "de_port env = port"
    and "lifecycle_ok (recs (svc_repo s))"
  shows "lifecycle_ok (recs (svc_repo t))"
proof -
  have "(\<lambda>m m'. \<exists>c. record_step c m m')\<^sup>*\<^sup>* (recs (svc_repo s)) (recs (svc_repo t))"
    using run_state_ok [OF assms(1-3)] by blast
  then show ?thesis using assms(4) by induction (blast intro: lifecycle_step)+
qed

lemma run_op_foreign:
  assumes "disc_state_ok ok recs s" and "wf_company (op_company op)" and "de_port env = port"
    and "printable_time (de_now env)" and "run_op env op s = (res, s')" and "c \<noteq> op_company op"
  shows "recs (svc_repo s') c = recs (svc_repo s) c"
  using run_op_step [OF assms(1-5)] record_step_foreign [OF _ assms(6)] by (auto simp: disc_steps_def)

text \<open>What an operation answers is a record of the subject's company.\<close>

lemma written_own:
  assumes "ok (svc_repo s)" and "wf_company c" and "recs (svc_repo s) c i = Some cur" and "owned c i cur r"
    and "on_repo (dp_update port now r) s = (Inr r', s')"
  shows "dr_company r' = c"
  using write_back [OF assms(1-5)] assms(4) by (auto simp: owned_def dest: same_contentD)

lemma found_own:
  assumes "ok (svc_repo s)" and "wf_company (sub_company sub)" and "de_port env = port"
    and "seqE (find_record env sub i) k s = (Inr r, s')"
  obtains cur where "recs (svc_repo s) (sub_company sub) i = Some cur" and "dr_company cur = sub_company sub" and "dr_id cur = i"
    and "k cur s = (Inr r, s')"
  using assms(4) find_record_ok [OF assms(1-3)] that by (auto simp: seq_iffs)

lemma authorized_own:
  assumes "seqE (authorize_record env sub a i cur) k s = (Inr r, s')"
  obtains s1 where "svc_repo s1 = svc_repo s" and "k () s1 = (Inr r, s')"
  using assms that by (auto simp: seq_iffs authorize_record_def dest!: disc_authorize_frame)

lemma run_op_own:
  assumes st: "disc_state_ok ok recs s" and wf: "wf_company (op_company op)" and port: "de_port env = port"
    and run: "run_op env op s = (Inr r, s')"
  shows "dr_company r = op_company op"
proof -
  have ok: "ok (svc_repo s)" using st by (simp add: disc_state_ok_def)
  show ?thesis
  proof (cases op)
    case (OpCreate sub pl)
    from run have "create_record env sub pl s = (Inr r, s')" by (simp add: OpCreate)
    then obtain planned dep rid u ids where u: "svc_repo u = svc_repo s"
        "on_repo (dp_create (de_port env) (de_now env) (new_record sub pl planned dep rid)) (u\<lparr>svc_ids := ids\<rparr>) = (Inr r, s')"
      by (auto simp: create_record_def Let_def seq_iffs on_ids_uuid dest!: disc_authorize_frame split: if_splits)
    then obtain t where "dp_create port (de_now env) (new_record sub pl planned dep rid) (svc_repo s) = (Inr r, t)"
      using port by (auto simp: on_repo_run)
    moreover have "wf_company (dr_company (new_record sub pl planned dep rid))"
      using wf by (simp add: OpCreate op_company_def new_record_def)
    ultimately have "same_content (new_record sub pl planned dep rid) r" using create_ok [OF ok] by blast
    then show ?thesis by (simp add: OpCreate op_company_def new_record_def same_contentD)
  next
    case (OpUpdate sub i pl)
    have w: "wf_company (sub_company sub)" using wf by (simp add: OpUpdate op_company_def)
    from run have u: "seqE (find_record env sub i) (\<lambda>cur.
      seqE (liftE (\<lambda>_. normalize_date (py_planned pl))) (\<lambda>planned.
      seqE (authorize_record env sub ''disclosure.update'' i cur) (\<lambda>_.
      on_repo (dp_update (de_port env) (de_now env) (edited_record sub pl planned cur))))) s = (Inr r, s')"
      by (simp add: OpUpdate update_record_def)
    obtain cur where cur: "recs (svc_repo s) (sub_company sub) i = Some cur" "dr_company cur = sub_company sub" "dr_id cur = i"
      and k: "seqE (liftE (\<lambda>_. normalize_date (py_planned pl))) (\<lambda>planned.
      seqE (authorize_record env sub ''disclosure.update'' i cur) (\<lambda>_.
      on_repo (dp_update (de_port env) (de_now env) (edited_record sub pl planned cur)))) s = (Inr r, s')"
      by (rule found_own [OF ok w port u])
    obtain planned where "seqE (authorize_record env sub ''disclosure.update'' i cur) (\<lambda>_.
      on_repo (dp_update (de_port env) (de_now env) (edited_record sub pl planned cur))) s = (Inr r, s')"
      using k by (auto simp: seqE_lift split: sum.splits)
    then obtain s1 where s1: "svc_repo s1 = svc_repo s"
      and up: "on_repo (dp_update (de_port env) (de_now env) (edited_record sub pl planned cur)) s1 = (Inr r, s')"
      by (rule authorized_own)
    have "owned (sub_company sub) i cur (edited_record sub pl planned cur)"
      using cur(2,3) by (simp add: owned_def edited_record_def Let_def)
    from written_own [OF _ w _ this up [unfolded port]] ok cur(1) s1 show ?thesis by (simp add: OpUpdate op_company_def)
  next
    case (OpSubmit sub i)
    have w: "wf_company (sub_company sub)" using wf by (simp add: OpSubmit op_company_def)
    define r0 :: "disclosure_record \<Rightarrow> disclosure_record" where "r0 = (\<lambda>cur. cur\<lparr>dr_status := ''Published'',
      dr_published := format_date (utc_date (de_now env)), dr_updated_by := sub_user sub\<rparr>)"
    from run have u: "seqE (find_record env sub i) (\<lambda>cur. seqE (authorize_record env sub ''disclosure.submit'' i cur) (\<lambda>_.
      on_repo (dp_update (de_port env) (de_now env) (r0 cur)))) s = (Inr r, s')"
      by (simp add: OpSubmit submit_record_def r0_def)
    obtain cur where cur: "recs (svc_repo s) (sub_company sub) i = Some cur" "dr_company cur = sub_company sub" "dr_id cur = i"
      and k: "seqE (authorize_record env sub ''disclosure.submit'' i cur) (\<lambda>_.
      on_repo (dp_update (de_port env) (de_now env) (r0 cur))) s = (Inr r, s')"
      by (rule found_own [OF ok w port u])
    obtain s1 where s1: "svc_repo s1 = svc_repo s" and up: "on_repo (dp_update (de_port env) (de_now env) (r0 cur)) s1 = (Inr r, s')"
      by (rule authorized_own [OF k])
    have "owned (sub_company sub) i cur (r0 cur)" using cur(2,3) by (simp add: owned_def r0_def)
    from written_own [OF _ w _ this up [unfolded port]] ok cur(1) s1 show ?thesis by (simp add: OpSubmit op_company_def)
  next
    case (OpConfirm sub i)
    have w: "wf_company (sub_company sub)" using wf by (simp add: OpConfirm op_company_def)
    define r0 :: "disclosure_record \<Rightarrow> disclosure_record" where "r0 = (\<lambda>cur. cur\<lparr>dr_status := ''Completed'', dr_updated_by := sub_user sub\<rparr>)"
    from run have u: "seqE (find_record env sub i) (\<lambda>cur. seqE (authorize_record env sub ''disclosure.approve'' i cur) (\<lambda>_.
      seqE (chkE (to_lower (dr_status cur) = ''published'') (new_http_error 409 CodeStateConflict ''record is not in published state''))
      (\<lambda>_. on_repo (dp_update (de_port env) (de_now env) (r0 cur))))) s = (Inr r, s')"
      by (simp add: OpConfirm confirm_record_def r0_def)
    obtain cur where cur: "recs (svc_repo s) (sub_company sub) i = Some cur" "dr_company cur = sub_company sub" "dr_id cur = i"
      and k: "seqE (authorize_record env sub ''disclosure.approve'' i cur) (\<lambda>_.
      seqE (chkE (to_lower (dr_status cur) = ''published'') (new_http_error 409 CodeStateConflict ''record is not in published state''))
      (\<lambda>_. on_repo (dp_update (de_port env) (de_now env) (r0 cur)))) s = (Inr r, s')"
      by (rule found_own [OF ok w port u])
    obtain s1 where s1: "svc_repo s1 = svc_repo s"
      and u1: "seqE (chkE (to_lower (dr_status cur) = ''published'') (new_http_error 409 CodeStateConflict ''record is not in published state''))
      (\<lambda>_. on_repo (dp_update (de_port env) (de_now env) (r0 cur))) s1 = (Inr r, s')"
      by (rule authorized_own [OF k])
    then have up: "on_repo (dp_update (de_port env) (de_now env) (r0 cur)) s1 = (Inr r, s')" by (simp split: if_splits)
    have "owned (sub_company sub) i cur (r0 cur)" using cur(2,3) by (simp add: owned_def r0_def)
    from written_own [OF _ w _ this up [unfolded port]] ok cur(1) s1 show ?thesis by (simp add: OpConfirm op_company_def)
  next
    case (OpGet sub i)
    have w: "wf_company (sub_company sub)" using wf by (simp add: OpGet op_company_def)
    from run have u: "seqE (find_record env sub i) (\<lambda>cur.
      seqE (authorize_record env sub ''disclosure.view'' i cur) (\<lambda>_. okE cur)) s = (Inr r, s')"
      by (simp add: OpGet get_record_def)
    obtain cur where "dr_company cur = sub_company sub" "seqE (authorize_record env sub ''disclosure.view'' i cur) (\<lambda>_. okE cur) s = (Inr r, s')"
      by (rule found_own [OF ok w port u])
    then show ?thesis by (auto simp: OpGet op_company_def seq_iffs)
  qed
qed

end

subsection \<open>From the form to the stored template\<close>

lemma set_flat_frame [simp]:
  "ty_id (set_flat mk d req) = ty_id req" "ty_group (set_flat mk d req) = ty_group req"
  "up_subject (set_flat mk d ureq) = up_subject ureq"
  by (simp_all add: set_flat_def)

lemma mirror_flat_frame [simp]:
  "ty_id (mirror_flat req) = ty_id req" "ty_group (mirror_flat req) = ty_group req" "up_subject (mirror_flat ureq) = up_subject ureq"
proof -
  have "ty_id (fold (mirror_step bs) mks req) = ty_id req" "ty_group (fold (mirror_step bs) mks req) = ty_group req"
    "up_subject (fold (mirror_step bs) mks ureq) = up_subject ureq" for bs mks
    by (induction mks arbitrary: req ureq) (simp_all add: mirror_step_def split: option.split)
  then show "ty_id (mirror_flat req) = ty_id req" "ty_group (mirror_flat req) = ty_group req"
    "up_subject (mirror_flat ureq) = up_subject ureq"
    by (simp_all add: mirror_flat_def)
qed

lemma sync_frame:
  assumes "sync_template (req :: upsert_request) g = (r, g')"
  shows "ty_id r = ty_id req \<and> ty_group r = ty_group req \<and> up_subject r = up_subject req"
proof -
  obtain r1 g1 where e: "ensure_blocks req g = (r1, g1)" by (cases "ensure_blocks req g")
  have 1: "ty_id r1 = ty_id req \<and> ty_group r1 = ty_group req \<and> up_subject r1 = up_subject req"
    using e by (auto simp: ensure_blocks_def split: if_splits prod.splits)
  obtain r2 g2 where b: "rebuild_blocks r1 g1 = (r2, g2)" by (cases "rebuild_blocks r1 g1")
  have 2: "ty_id r2 = ty_id r1 \<and> ty_group r2 = ty_group r1 \<and> up_subject r2 = up_subject r1"
    using b by (auto simp: rebuild_blocks_def split: if_splits prod.splits)
  have "r = r1 \<or> r = mirror_flat r2" using assms e b by (auto simp: sync_template_def split: if_splits)
  then show ?thesis
  proof
    assume "r = mirror_flat r2"
    then show ?thesis by (simp add: 1 2)
  qed (simp add: 1)
qed

text \<open>A template that passes the validation has its blocks in display order.\<close>

lemma accepted_sorted:
  assumes "sync_template req g = (r, g')" and "validate_template pf r = Inr v" and "fresh_ids g"
  shows "sorted_wrt (\<lambda>a b. tb_order a < tb_order b) (ty_blocks v) \<and>
    (ty_blocks v = [] \<or> take 6 (map tb_key (ty_blocks v)) = mandatory_keys)"
proof (cases "ty_blocks req \<noteq> [] \<or> any_flat req")
  case False
  with assms(1) have "ty_blocks r = []" by (auto simp: sync_template_def ensure_blocks_def)
  with assms(2) show ?thesis by (simp add: validate_template_iff)
next
  case True
  have v: "ty_blocks v = map normal_block (ty_blocks r)" "valid_blocks pf (ty_blocks v)"
    using assms(2) by (simp_all add: validate_template_iff)
  have nodup: "\<not> has_duplicate_keys [] (ty_blocks req)"
  proof
    assume dup: "has_duplicate_keys [] (ty_blocks req)"
    then have "ty_blocks req \<noteq> []" by auto
    with assms(1) dup have "ty_blocks r = ty_blocks req" by (auto simp: sync_template_def ensure_blocks_def rebuild_blocks_def)
    with v \<open>ty_blocks req \<noteq> []\<close> have "distinct (map block_key (ty_blocks req))" by (simp add: valid_blocks_def o_def)
    with dup distinct_no_duplicates [of "ty_blocks req" "[]"] show False by simp
  qed
  note n = sync_blocks_normal [OF nodup True assms(3,1)]
  then have o: "map tb_order (ty_blocks v) = [1..int (length (ty_blocks r))]" by (simp add: v(1) o_def)
  have "sorted_wrt (<) (map tb_order (ty_blocks v))" unfolding o by (rule sorted_wrt_upto)
  moreover have "map tb_key (ty_blocks v) = mandatory_keys @ map block_key (extra_blocks (ty_blocks req))"
    using n by (simp add: v(1) o_def)
  then have "take 6 (map tb_key (ty_blocks v)) = mandatory_keys" using distinct_mandatory_keys(2) by simp
  ultimately show ?thesis by (simp add: sorted_wrt_map)
qed

lemma require_manage_frame:
  "require_manage env sub s = (x, s') \<Longrightarrow> svc_repo s' = svc_repo s \<and> svc_ids s' = svc_ids s"
  by (cases x) (auto simp: require_manage_def has_permission_def seq_iffs split: prod.splits sum.splits if_splits)

lemma upsert_decompose:
  assumes "upsert_type_version env req0 s = (Inr rp, s')"
  obtains req1 g' req2 t where "sync_template (sanitize_request req0) (svc_ids s) = (req1, g')"
    and "validate_template (de_parse_float env) req1 = Inr req2"
    and "dp_upsert (de_port env) (de_now env) req2 (svc_repo s) = (Inr rp, t)" and "svc_repo s' = t"
proof -
  obtain x s0 where m: "require_manage env (up_subject req0) s = (x, s0)" by fastforce
  then obtain u where "x = Inr u" using assms by (cases x) (auto simp: upsert_type_version_def)
  note fr = require_manage_frame [OF m]
  obtain req1 g' where sy: "sync_template (sanitize_request req0) (svc_ids s) = (req1, g')" by fastforce
  have "seqE (liftE (\<lambda>_. validate_template (de_parse_float env) req1))
     (\<lambda>req2. on_repo (dp_upsert (de_port env) (de_now env) req2)) (s0\<lparr>svc_ids := g'\<rparr>) = (Inr rp, s')"
    using assms m \<open>x = Inr u\<close> sy fr
    by (auto simp: upsert_type_version_def Let_def on_ids_def seqE_def split: if_splits)
  with sy fr that show ?thesis by (auto simp: seqE_lift on_repo_run split: sum.splits)
qed

lemma upsert_compose:
  assumes "require_manage env (up_subject req0) s = (Inr (), s)"
    and "ty_id (sanitize_request req0) \<noteq> []" and "ty_group (sanitize_request req0) \<noteq> []" and "ty_name (sanitize_request req0) \<noteq> []"
    and "sync_template (sanitize_request req0) (svc_ids s) = (req1, g')"
    and "validate_template (de_parse_float env) req1 = Inr req2"
    and "dp_upsert (de_port env) (de_now env) req2 (svc_repo s) = (Inr rp, t)"
  shows "\<exists>s'. upsert_type_version env req0 s = (Inr rp, s') \<and> svc_repo s' = t"
  using assms by (simp add: upsert_type_version_def Let_def seqE_lift on_ids_def on_repo_def)

lemma sendable_upsert:
  assumes "sync_template (sanitize_request req0) g = (req1, g')" and "validate_template pf req1 = Inr req2" and "fresh_ids g"
    and "sub_company (up_subject req0) \<noteq> []" and "trim_space (sub_company (up_subject req0)) = sub_company (up_subject req0)"
  shows "sendable req2 \<and> up_subject req2 = up_subject req0 \<and> ty_id req2 = trim_space (ty_id req0)"
proof -
  have "ty_group req2 = ty_group req1" "ty_id req2 = ty_id req1" "up_subject req2 = up_subject req1"
    using assms(2) by (simp_all add: validate_template_iff normalize_enums_def)
  with sync_frame [OF assms(1)] accepted_sorted [OF assms(1,2,3)] assms(4,5)
  show ?thesis by (simp add: sendable_def sanitize_request_def)
qed

lemma valid_blocks_normalised: "valid_blocks pf bs \<Longrightarrow> validate_template pf req = Inr v \<Longrightarrow>
    valid_matrix (dto_of n v) \<and> valid_blocks pf (ty_blocks (dto_of n v)) \<and> td_version (dto_of n v) = n"
  by (auto simp: validate_template_iff dto_of_def valid_matrix_def)

subsection \<open>Properties\<close>

definition wit_grants :: "string \<Rightarrow> string \<Rightarrow> effective_access" where
  "wit_grants m c = \<lparr>ea_company = c, ea_membership = m, ea_permissions = [''rbac.manage''],
     ea_scope = \<lparr>ds_scope_type = ''mixed'', ds_departments = [], ds_assignments = [], ds_company_wide = True,
       ds_org_units = [], ds_org_subtree = [], ds_positions = []\<rparr>, ea_responsibilities = [''workflow_approver:disclosure'']\<rparr>"

definition wit_disc_env :: "(disc_db, unit) disc_env" where
  "wit_disc_env = \<lparr>de_port = sql_disclosure (\<lambda>x p. True), de_resolve = (\<lambda>m c s. (Inr (wit_grants m c), s)),
     de_policy = (\<lambda>c a. Inr (mk_policy a ''rbac.manage'' ''*'' ''permission_denied'')), de_parse_float = (\<lambda>_. None), de_now = 1767225600\<rparr>"

definition wit_admin :: subject_ref where
  "wit_admin = \<lparr>sub_user = ''u_admin'', sub_membership = ''m_admin_001'', sub_company = ''c_001''\<rparr>"

definition wit_disc_state :: "(disc_db, unit) svc_state" where
  "wit_disc_state = \<lparr>svc_repo = wit_db, svc_ids = tally_ids, svc_auth = ()\<rparr>"

text \<open>C8: the disclosure service over the MySQL tables refines the abstract life cycle: every run of
  its record operations, in any order and by any subjects, is a sequence of abstract steps (a draft is
  added, a record edited without touching its state, published, or completed from published), and the
  stored records keep their invariant.\<close>

theorem records_refine_lifecycle:
  assumes "disc_run env (\<lambda>_. True) s t" and "disc_state_ok db_records_ok db_view s" and "de_port env = sql_disclosure lower_like"
  shows "disc_state_ok db_records_ok db_view t \<and>
    (\<lambda>m m'. \<exists>c. record_step c m m')\<^sup>*\<^sup>* (db_view (svc_repo s)) (db_view (svc_repo t))"
  using assms by (rule sql_records.run_state_ok)

lemma wit_disc_state_ok: "disc_state_ok db_records_ok db_view wit_disc_state"
  by (simp add: disc_state_ok_def wit_disc_state_def wit_db_def db_records_ok_def db_view_def db_find_def fresh_tally_ids)

definition wit_payload :: record_payload where
  "wit_payload = \<lparr>py_type = ''dt-1'', py_department = [], py_title = ''Q1'', py_summary = [], py_content = ''text'',
     py_planned = '' 2026-02-28'', py_attachments = [], py_evidence = []\<rparr>"

definition wit_created :: "(disc_db, unit) svc_state" where
  "wit_created = snd (create_record wit_disc_env wit_admin wit_payload wit_disc_state)"

lemma printable_2026: "printable_time 1767225600"
  by code_simp

lemma wit_run: "disc_run wit_disc_env (\<lambda>_. True) wit_disc_state wit_created"
proof (rule disc_run.step [OF disc_run.refl])
  show "printable_time 1767225600" by (rule printable_2026)
  show "run_op (wit_disc_env\<lparr>de_now := 1767225600\<rparr>) (OpCreate wit_admin wit_payload) wit_disc_state =
    (fst (create_record wit_disc_env wit_admin wit_payload wit_disc_state), wit_created)"
    by (simp add: wit_created_def wit_disc_env_def)
qed simp

theorem records_refine_lifecycle_witness:
  "disc_state_ok db_records_ok db_view wit_created \<and>
    map_option dr_status (db_view (svc_repo wit_created) ''c_001'' ''id'') = Some ''Draft''"
proof -
  have e: "de_port wit_disc_env = sql_disclosure (\<lambda>x p. True)" by (simp add: wit_disc_env_def)
  have "map_option dr_status (db_view (svc_repo wit_created) ''c_001'' ''id'') = Some ''Draft''" by code_simp
  with records_refine_lifecycle [OF wit_run wit_disc_state_ok e] show ?thesis by blast
qed

text \<open>C15: over the in-memory repository, whatever operations run, every stored record lies under its own
  company and identifier, and it is a draft without publication date or a published or completed record
  whose publication date parses as a calendar date.\<close>

theorem lifecycle_invariant:
  assumes "disc_run env colon_free s t" and "disc_state_ok mem_items_ok mem_view s" and "de_port env = mem_disclosure oi oc"
    and "lifecycle_ok (mem_view (svc_repo s))"
  shows "lifecycle_ok (mem_view (svc_repo t))"
  using assms by (rule mem_records.run_lifecycle)

definition wit_mem_env :: "int \<Rightarrow> (disc_mem, unit) disc_env" where
  "wit_mem_env now = \<lparr>de_port = mem_disclosure (\<lambda>m. []) (\<lambda>m. []), de_resolve = (\<lambda>m c s. (Inr (wit_grants m c), s)),
     de_policy = (\<lambda>c a. Inr (mk_policy a ''rbac.manage'' ''*'' ''permission_denied'')), de_parse_float = (\<lambda>_. None), de_now = now\<rparr>"

definition empty_mem :: disc_mem where
  "empty_mem = \<lparr>dm_items = Map.empty, dm_groups = [], dm_catalog = Map.empty, dm_by_version = Map.empty,
     dm_versions = Map.empty, dm_scope = Map.empty\<rparr>"

definition wit_mem0 :: "(disc_mem, unit) svc_state" where
  "wit_mem0 = \<lparr>svc_repo = empty_mem, svc_ids = tally_ids, svc_auth = ()\<rparr>"

definition wit_mem1 :: "(disc_mem, unit) svc_state" where
  "wit_mem1 = snd (create_record (wit_mem_env 0) wit_admin wit_payload wit_mem0)"

definition wit_mem2 :: "(disc_mem, unit) svc_state" where
  "wit_mem2 = snd (submit_record (wit_mem_env 1767225600) wit_admin ''id'' wit_mem1)"

definition wit_mem3 :: "(disc_mem, unit) svc_state" where
  "wit_mem3 = snd (confirm_record (wit_mem_env 0) wit_admin ''id'' wit_mem2)"

lemma wit_mem0_ok: "disc_state_ok mem_items_ok mem_view wit_mem0" "lifecycle_ok (mem_view (svc_repo wit_mem0))"
  by (simp_all add: disc_state_ok_def mem_items_ok_def wit_mem0_def empty_mem_def mem_view_def fresh_tally_ids lifecycle_ok_def)

lemma wit_mem_env_port: "de_port (wit_mem_env now) = mem_disclosure (\<lambda>m. []) (\<lambda>m. [])"
  by (simp add: wit_mem_env_def)

lemma wit_mem_run: "disc_run (wit_mem_env 0) colon_free wit_mem0 wit_mem3"
proof -
  have c: "colon_free (op_company (OpCreate wit_admin wit_payload))" "colon_free (op_company (OpSubmit wit_admin ''id''))"
    "colon_free (op_company (OpConfirm wit_admin ''id''))" by code_simp+
  have p: "printable_time 0" by code_simp
  have e: "wit_mem_env 0\<lparr>de_now := n\<rparr> = wit_mem_env n" for n by (simp add: wit_mem_env_def)
  note 1 = disc_run_snoc [where env = "wit_mem_env 0" and wfc = colon_free, OF disc_run.refl c(1) p, of wit_mem0]
  note 2 = disc_run_snoc [where env = "wit_mem_env 0" and wfc = colon_free, OF 1 c(2) printable_2026]
  note 3 = disc_run_snoc [where env = "wit_mem_env 0" and wfc = colon_free, OF 2 c(3) p]
  then show ?thesis by (simp add: e wit_mem3_def wit_mem2_def wit_mem1_def)
qed

theorem lifecycle_invariant_witness:
  "lifecycle_ok (mem_view (svc_repo wit_mem3)) \<and>
    map_option (\<lambda>r. (dr_status r, dr_published r)) (mem_view (svc_repo wit_mem3) ''c_001'' ''id'') = Some (''Completed'', ''2026-01-01'')"
proof -
  have "map_option (\<lambda>r. (dr_status r, dr_published r)) (mem_view (svc_repo wit_mem3) ''c_001'' ''id'') = Some (''Completed'', ''2026-01-01'')"
    by code_simp
  with lifecycle_invariant [OF wit_mem_run wit_mem0_ok(1) wit_mem_env_port wit_mem0_ok(2)] show ?thesis by blast
qed


lemma wit_mem3_ok: "disc_state_ok mem_items_ok mem_view wit_mem3"
  using mem_records.run_state_ok [OF wit_mem_run wit_mem0_ok(1) wit_mem_env_port] by blast


text \<open>C36: submitting has no guard on the state: a submit of a completed record that the authorizer allows
  puts it back to published, with a new publication date.\<close>

theorem submit_reopens_completed:
  assumes "de_port env = mem_disclosure oi oc" and "colon_free (sub_company sub)" and "disc_state_ok mem_items_ok mem_view s"
    and "mem_view (svc_repo s) (sub_company sub) i = Some cur" and "dr_status cur = ''Completed''"
    and "submit_record env sub i s = (Inr r, s')"
  shows "dr_status r = ''Published'' \<and> dr_published r = format_date (utc_date (de_now env)) \<and>
    mem_view (svc_repo s') (sub_company sub) i = Some r"
proof -
  have ok: "mem_items_ok (svc_repo s)" using assms(3) by (simp add: disc_state_ok_def)
  obtain x s0 where f: "find_record env sub i s = (x, s0)" by fastforce
  then obtain cur' where x: "x = Inr cur'" using assms(6) by (cases x) (auto simp: submit_record_def)
  from mem_records.find_record_ok [OF ok assms(2,1) f [unfolded x]] assms(4)
  have c: "cur' = cur" "s0 = s" "dr_company cur = sub_company sub" "dr_id cur = i" by auto
  obtain y s1 where a: "authorize_record env sub ''disclosure.submit'' i cur s = (y, s1)" by fastforce
  then obtain u where y: "y = Inr u" using assms(6) f x c by (cases y) (auto simp: submit_record_def)
  have fr: "svc_repo s1 = svc_repo s" using disc_authorize_frame [OF a [unfolded authorize_record_def]] by simp
  let ?r = "cur\<lparr>dr_status := ''Published'', dr_published := format_date (utc_date (de_now env)), dr_updated_by := sub_user sub\<rparr>"
  have u: "on_repo (mem_update (de_now env) ?r) s1 = (Inr r, s')"
    using assms(1,6) f x c a y by (simp add: submit_record_def mem_disclosure_def)
  have "dm_items (svc_repo s) (record_key (sub_company sub) i) = Some cur"
    using assms(2,4) by (simp add: mem_view_def)
  with u fr c have "r = ?r" "svc_repo s' = (svc_repo s)\<lparr>dm_items := (dm_items (svc_repo s))(record_key (sub_company sub) i \<mapsto> ?r)\<rparr>"
    by (auto simp: on_repo_run mem_update_def Let_def)
  then show ?thesis using assms(2) by (simp add: mem_view_def)
qed

theorem submit_reopens_completed_witness:
  "map_option dr_status (mem_view (svc_repo (snd (submit_record (wit_mem_env 1767225600) wit_admin ''id'' wit_mem3))) ''c_001'' ''id'') = Some ''Published''"
proof -
  let ?p = "submit_record (wit_mem_env 1767225600) wit_admin ''id'' wit_mem3"
  have run: "?p = (Inr (projr (fst ?p)), snd ?p)" by (rule run_projr) code_simp
  have m: "map_option dr_status (mem_view (svc_repo wit_mem3) (sub_company wit_admin) ''id'') = Some ''Completed''" by code_simp
  then obtain cur where c: "mem_view (svc_repo wit_mem3) (sub_company wit_admin) ''id'' = Some cur" "dr_status cur = ''Completed''" by auto
  have "colon_free (sub_company wit_admin)" "sub_company wit_admin = ''c_001''" by code_simp+
  with submit_reopens_completed [OF wit_mem_env_port _ wit_mem3_ok c run] show ?thesis by simp
qed

text \<open>C37: on the MySQL tables an update that changes nothing is answered with 404: a second submit of the
  same record by the same user on the same day, allowed by the authorizer, reports that the record does
  not exist.\<close>

theorem resubmit_not_found:
  assumes "de_port env = sql_disclosure lower_like" and "db_view (svc_repo s) (sub_company sub) i = Some cur"
    and "trim_space i \<noteq> []" and "dr_status cur = ''Published''" and "dr_published cur = format_date (utc_date (de_now env))"
    and "dr_updated_by cur = sub_user sub" and "authorize_record env sub ''disclosure.submit'' i cur s = (Inr (), s1)"
  shows "submit_record env sub i s = (Inl no_record, s1)"
proof -
  have k: "dr_company cur = sub_company sub" "dr_id cur = i" using assms(2) db_find_key by (auto simp: db_view_def)
  have fr: "svc_repo s1 = svc_repo s" using disc_authorize_frame [OF assms(7) [unfolded authorize_record_def]] by simp
  have f: "find_record env sub i s = (Inr cur, s)"
    using assms(1-3) by (simp add: find_record_def on_repo_def sql_disclosure_def sql_find_def db_view_def)
  have e: "cur\<lparr>dr_status := ''Published'', dr_published := format_date (utc_date (de_now env)), dr_updated_by := sub_user sub\<rparr> = cur"
    using assms(4-6) by (cases cur) simp
  have "assign_record cur cur = cur" by (simp add: assign_record_def)
  then have "sql_save (de_now env) cur (svc_repo s1) = (Inl no_record, svc_repo s1)"
    using assms(2) k fr by (simp add: sql_save_def db_view_def)
  then show ?thesis using f e assms(1,7) by (simp add: submit_record_def on_repo_def sql_disclosure_def)
qed

definition wit_published :: "(disc_db, unit) svc_state" where
  "wit_published = snd (submit_record wit_disc_env wit_admin ''id'' wit_created)"

theorem resubmit_not_found_witness:
  "fst (submit_record wit_disc_env wit_admin ''id'' wit_published) = Inl no_record"
proof -
  have e: "de_port wit_disc_env = sql_disclosure (\<lambda>x p. True)" by (simp add: wit_disc_env_def)
  have "map_option (\<lambda>r. (dr_status r, dr_published r, dr_updated_by r)) (db_view (svc_repo wit_published) (sub_company wit_admin) ''id'') =
    Some (''Published'', format_date (utc_date (de_now wit_disc_env)), sub_user wit_admin)" by code_simp
  then obtain cur where c: "db_view (svc_repo wit_published) (sub_company wit_admin) ''id'' = Some cur"
    "dr_status cur = ''Published''" "dr_published cur = format_date (utc_date (de_now wit_disc_env))" "dr_updated_by cur = sub_user wit_admin"
    by auto
  have t: "trim_space ''id'' \<noteq> []" by code_simp
  let ?p = "\<lambda>r. authorize_record wit_disc_env wit_admin ''disclosure.submit'' ''id'' r wit_published"
  have "map_option (\<lambda>r. fst (?p r)) (db_view (svc_repo wit_published) (sub_company wit_admin) ''id'') = Some (Inr ())" by code_simp
  with c(1) have "fst (?p cur) = Inr ()" by simp
  then have "?p cur = (Inr (), snd (?p cur))" by (metis prod.collapse)
  from resubmit_not_found [OF e c(1) t c(2-4) this] show ?thesis by simp
qed

end
