(* ===== verification/DisclosureSeed.thy ===== *)
theory DisclosureSeed
  imports DisclosureService
begin

section \<open>The seeded template catalog\<close>

text \<open>
  The tables of \<^verbatim>\<open>internal/disclosure/app/catalog.go\<close> and the in-memory repository they
  start, \<^verbatim>\<open>infra/inmemory/repository.go\<close> \<open>NewRepository\<close>: every seeded type is global and
  at version 1. Texts are in UTF-8, one character per byte.
\<close>

definition disclosure_type_groups :: "type_group list" where
  "disclosure_type_groups = [
     \<lparr>tg_id = ''group-001'', tg_name = [CHR 0xC4, CHR 0x90, CHR 0xE1, CHR 0xBB, CHR 0x8B] @ ''nh k'' @ [CHR 0xE1, CHR 0xBB, CHR 0xB3],
       tg_description = ''Ngh'' @ [CHR 0xC4, CHR 0xA9] @ ''a v'' @ [CHR 0xE1, CHR 0xBB, CHR 0xA5] @ '' c'' @ [CHR 0xC3, CHR 0xB4] @ ''ng b'' @ [CHR 0xE1, CHR 0xBB, CHR 0x91] @ '' theo chu k'' @ [CHR 0xE1, CHR 0xBB, CHR 0xB3] @ ''.'',
       tg_icon = ''Calendar'', tg_order = 1\<rparr>,
     \<lparr>tg_id = ''group-002'', tg_name = ''B'' @ [CHR 0xE1, CHR 0xBA, CHR 0xA5] @ ''t th'' @ [CHR 0xC6, CHR 0xB0, CHR 0xE1, CHR 0xBB, CHR 0x9D] @ ''ng'',
       tg_description = ''Ngh'' @ [CHR 0xC4, CHR 0xA9] @ ''a v'' @ [CHR 0xE1, CHR 0xBB, CHR 0xA5] @ '' c'' @ [CHR 0xC3, CHR 0xB4] @ ''ng b'' @ [CHR 0xE1, CHR 0xBB, CHR 0x91] @ '' theo s'' @ [CHR 0xE1, CHR 0xBB, CHR 0xB1] @ '' ki'' @ [CHR 0xE1, CHR 0xBB, CHR 0x87] @ ''n ph'' @ [CHR 0xC3, CHR 0xA1] @ ''t sinh.'',
       tg_icon = ''AlertCircle'', tg_order = 2\<rparr>,
     \<lparr>tg_id = ''group-006'', tg_name = ''T'' @ [CHR 0xC3, CHR 0xB9] @ ''y ch'' @ [CHR 0xE1, CHR 0xBB, CHR 0x89] @ ''nh doanh nghi'' @ [CHR 0xE1, CHR 0xBB, CHR 0x87] @ ''p'',
       tg_description = ''Template n'' @ [CHR 0xE1, CHR 0xBB, CHR 0x99] @ ''i b'' @ [CHR 0xE1, CHR 0xBB, CHR 0x99] @ '' do doanh nghi'' @ [CHR 0xE1, CHR 0xBB, CHR 0x87] @ ''p c'' @ [CHR 0xE1, CHR 0xBA, CHR 0xA5] @ ''u h'' @ [CHR 0xC3, CHR 0xAC] @ ''nh.'',
       tg_icon = ''Settings'', tg_order = 3\<rparr>]"

definition disclosure_type_catalog :: "type_body list" where
  "disclosure_type_catalog = [
     \<lparr>ty_id = ''dt-periodic-financial'',
       ty_group = ''group-001'',
       ty_name = ''B'' @ [CHR 0xC3, CHR 0xA1] @ ''o c'' @ [CHR 0xC3, CHR 0xA1] @ ''o t'' @ [CHR 0xC3, CHR 0xA0] @ ''i ch'' @ [CHR 0xC3, CHR 0xAD] @ ''nh '' @ [CHR 0xC4, CHR 0x91, CHR 0xE1, CHR 0xBB, CHR 0x8B] @ ''nh k'' @ [CHR 0xE1, CHR 0xBB, CHR 0xB3],
       ty_category = [CHR 0xC4, CHR 0x90, CHR 0xE1, CHR 0xBB, CHR 0x8B] @ ''nh k'' @ [CHR 0xE1, CHR 0xBB, CHR 0xB3],
       ty_template_category = TemplateCategoryPeriodic,
       ty_deadline_strategy = DeadlineStrategyFixedCycleDays,
       ty_description = ''C'' @ [CHR 0xC3, CHR 0xB4] @ ''ng b'' @ [CHR 0xE1, CHR 0xBB, CHR 0x91] @ '' b'' @ [CHR 0xC3, CHR 0xA1] @ ''o c'' @ [CHR 0xC3, CHR 0xA1] @ ''o t'' @ [CHR 0xC3, CHR 0xA0] @ ''i ch'' @ [CHR 0xC3, CHR 0xAD] @ ''nh theo qu'' @ [CHR 0xC3, CHR 0xBD] @ ''.'',
       ty_legal_basis = ''Th'' @ [CHR 0xC3, CHR 0xB4] @ ''ng t'' @ [CHR 0xC6, CHR 0xB0] @ '' 96/2020/TT-BTC'',
       ty_applicability = ''Doanh nghi'' @ [CHR 0xE1, CHR 0xBB, CHR 0x87] @ ''p ni'' @ [CHR 0xC3, CHR 0xAA] @ ''m y'' @ [CHR 0xE1, CHR 0xBA, CHR 0xBF] @ ''t'',
       ty_impl_content = ''T'' @ [CHR 0xE1, CHR 0xBB, CHR 0x95] @ ''ng h'' @ [CHR 0xE1, CHR 0xBB, CHR 0xA3] @ ''p d'' @ [CHR 0xE1, CHR 0xBB, CHR 0xAF] @ '' li'' @ [CHR 0xE1, CHR 0xBB, CHR 0x87] @ ''u v'' @ [CHR 0xC3, CHR 0xA0] @ '' l'' @ [CHR 0xE1, CHR 0xBA, CHR 0xAD] @ ''p b'' @ [CHR 0xC3, CHR 0xA1] @ ''o c'' @ [CHR 0xC3, CHR 0xA1] @ ''o t'' @ [CHR 0xC3, CHR 0xA0] @ ''i ch'' @ [CHR 0xC3, CHR 0xAD] @ ''nh qu'' @ [CHR 0xC3, CHR 0xBD] @ ''.'',
       ty_impl_notes = ''Ki'' @ [CHR 0xE1, CHR 0xBB, CHR 0x83] @ ''m tra s'' @ [CHR 0xE1, CHR 0xBB, CHR 0x91] @ '' li'' @ [CHR 0xE1, CHR 0xBB, CHR 0x87] @ ''u tr'' @ [CHR 0xC6, CHR 0xB0, CHR 0xE1, CHR 0xBB, CHR 0x9B] @ ''c khi n'' @ [CHR 0xE1, CHR 0xBB, CHR 0x99] @ ''p.'',
       ty_special_cases = [CHR 0xC4, CHR 0x90] @ ''i'' @ [CHR 0xE1, CHR 0xBB, CHR 0x81] @ ''u ch'' @ [CHR 0xE1, CHR 0xBB, CHR 0x89] @ ''nh khi c'' @ [CHR 0xC3, CHR 0xB3] @ '' ki'' @ [CHR 0xE1, CHR 0xBB, CHR 0x83] @ ''m to'' @ [CHR 0xC3, CHR 0xA1] @ ''n ngo'' @ [CHR 0xE1, CHR 0xBA, CHR 0xA1] @ ''i l'' @ [CHR 0xE1, CHR 0xBB, CHR 0x87] @ ''.'',
       ty_report_content = ''B'' @ [CHR 0xC3, CHR 0xA1] @ ''o c'' @ [CHR 0xC3, CHR 0xA1] @ ''o t'' @ [CHR 0xC3, CHR 0xA0] @ ''i ch'' @ [CHR 0xC3, CHR 0xAD] @ ''nh qu'' @ [CHR 0xC3, CHR 0xBD] @ '' + thuy'' @ [CHR 0xE1, CHR 0xBA, CHR 0xBF] @ ''t minh.'',
       ty_required_docs = ''BCTC qu'' @ [CHR 0xC3, CHR 0xBD] @ '', bi'' @ [CHR 0xC3, CHR 0xAA] @ ''n b'' @ [CHR 0xE1, CHR 0xBA, CHR 0xA3] @ ''n ph'' @ [CHR 0xC3, CHR 0xAA] @ '' duy'' @ [CHR 0xE1, CHR 0xBB, CHR 0x87] @ ''t.'',
       ty_deadline_rule = ''Trong v'' @ [CHR 0xC3, CHR 0xB2] @ ''ng 20 ng'' @ [CHR 0xC3, CHR 0xA0] @ ''y k'' @ [CHR 0xE1, CHR 0xBB, CHR 0x83] @ '' t'' @ [CHR 0xE1, CHR 0xBB, CHR 0xAB] @ '' khi k'' @ [CHR 0xE1, CHR 0xBA, CHR 0xBF] @ ''t th'' @ [CHR 0xC3, CHR 0xBA] @ ''c qu'' @ [CHR 0xC3, CHR 0xBD] @ ''.'',
       ty_periodicity = PeriodicityQuarterly,
       ty_channels = ''UBCKNN, S'' @ [CHR 0xE1, CHR 0xBB, CHR 0x9F] @ '' GDCK'',
       ty_beneficiaries = ''Nh'' @ [CHR 0xC3, CHR 0xA0] @ '' '' @ [CHR 0xC4, CHR 0x91, CHR 0xE1, CHR 0xBA, CHR 0xA7] @ ''u t'' @ [CHR 0xC6, CHR 0xB0] @ '', c'' @ [CHR 0xC6, CHR 0xA1] @ '' quan qu'' @ [CHR 0xE1, CHR 0xBA, CHR 0xA3] @ ''n l'' @ [CHR 0xC3, CHR 0xBD],
       ty_authorities = ''UBCKNN, HOSE/HNX'',
       ty_format = ''PDF'',
       ty_legal_risks = ''Ph'' @ [CHR 0xE1, CHR 0xBA, CHR 0xA1] @ ''t ch'' @ [CHR 0xE1, CHR 0xBA, CHR 0xAD] @ ''m c'' @ [CHR 0xC3, CHR 0xB4] @ ''ng b'' @ [CHR 0xE1, CHR 0xBB, CHR 0x91] @ '' theo quy '' @ [CHR 0xC4, CHR 0x91, CHR 0xE1, CHR 0xBB, CHR 0x8B] @ ''nh hi'' @ [CHR 0xE1, CHR 0xBB, CHR 0x87] @ ''n h'' @ [CHR 0xC3, CHR 0xA0] @ ''nh.'',
       ty_general_info = [CHR 0xC3, CHR 0x81] @ ''p d'' @ [CHR 0xE1, CHR 0xBB, CHR 0xA5] @ ''ng m'' @ [CHR 0xE1, CHR 0xBA, CHR 0xB7] @ ''c '' @ [CHR 0xC4, CHR 0x91, CHR 0xE1, CHR 0xBB, CHR 0x8B] @ ''nh cho t'' @ [CHR 0xE1, CHR 0xBA, CHR 0xA5] @ ''t c'' @ [CHR 0xE1, CHR 0xBA, CHR 0xA3] @ '' c'' @ [CHR 0xC3, CHR 0xB4] @ ''ng ty ni'' @ [CHR 0xC3, CHR 0xAA] @ ''m y'' @ [CHR 0xE1, CHR 0xBA, CHR 0xBF] @ ''t.'',
       ty_reminders = [],
       ty_legal_bases = [],
       ty_checklist = [],
       ty_tags = [[CHR 0xC4, CHR 0x90, CHR 0xE1, CHR 0xBB, CHR 0x8B] @ ''nh k'' @ [CHR 0xE1, CHR 0xBB, CHR 0xB3], ''T'' @ [CHR 0xC3, CHR 0xA0] @ ''i ch'' @ [CHR 0xC3, CHR 0xAD] @ ''nh''],
       ty_blocks = []\<rparr>,
     \<lparr>ty_id = ''dt-event-major-change'',
       ty_group = ''group-002'',
       ty_name = ''C'' @ [CHR 0xC3, CHR 0xB4] @ ''ng b'' @ [CHR 0xE1, CHR 0xBB, CHR 0x91] @ '' s'' @ [CHR 0xE1, CHR 0xBB, CHR 0xB1] @ '' ki'' @ [CHR 0xE1, CHR 0xBB, CHR 0x87] @ ''n b'' @ [CHR 0xE1, CHR 0xBA, CHR 0xA5] @ ''t th'' @ [CHR 0xC6, CHR 0xB0, CHR 0xE1, CHR 0xBB, CHR 0x9D] @ ''ng'',
       ty_category = ''B'' @ [CHR 0xE1, CHR 0xBA, CHR 0xA5] @ ''t th'' @ [CHR 0xC6, CHR 0xB0, CHR 0xE1, CHR 0xBB, CHR 0x9D] @ ''ng'',
       ty_template_category = TemplateCategoryIrregular,
       ty_deadline_strategy = DeadlineStrategyEventHours,
       ty_description = ''C'' @ [CHR 0xC3, CHR 0xB4] @ ''ng b'' @ [CHR 0xE1, CHR 0xBB, CHR 0x91] @ '' khi ph'' @ [CHR 0xC3, CHR 0xA1] @ ''t sinh s'' @ [CHR 0xE1, CHR 0xBB, CHR 0xB1] @ '' ki'' @ [CHR 0xE1, CHR 0xBB, CHR 0x87] @ ''n quan tr'' @ [CHR 0xE1, CHR 0xBB, CHR 0x8D] @ ''ng.'',
       ty_legal_basis = ''Lu'' @ [CHR 0xE1, CHR 0xBA, CHR 0xAD] @ ''t ch'' @ [CHR 0xE1, CHR 0xBB, CHR 0xA9] @ ''ng kho'' @ [CHR 0xC3, CHR 0xA1] @ ''n hi'' @ [CHR 0xE1, CHR 0xBB, CHR 0x87] @ ''n h'' @ [CHR 0xC3, CHR 0xA0] @ ''nh'',
       ty_applicability = ''Doanh nghi'' @ [CHR 0xE1, CHR 0xBB, CHR 0x87] @ ''p ni'' @ [CHR 0xC3, CHR 0xAA] @ ''m y'' @ [CHR 0xE1, CHR 0xBA, CHR 0xBF] @ ''t'',
       ty_impl_content = ''T'' @ [CHR 0xE1, CHR 0xBA, CHR 0xA1] @ ''o c'' @ [CHR 0xE1, CHR 0xBA, CHR 0xA3] @ ''nh b'' @ [CHR 0xC3, CHR 0xA1] @ ''o v'' @ [CHR 0xC3, CHR 0xA0] @ '' c'' @ [CHR 0xC3, CHR 0xB4] @ ''ng b'' @ [CHR 0xE1, CHR 0xBB, CHR 0x91] @ '' theo s'' @ [CHR 0xE1, CHR 0xBB, CHR 0xB1] @ '' ki'' @ [CHR 0xE1, CHR 0xBB, CHR 0x87] @ ''n.'',
       ty_impl_notes = ''Ghi nh'' @ [CHR 0xE1, CHR 0xBA, CHR 0xAD] @ ''n th'' @ [CHR 0xE1, CHR 0xBB, CHR 0x9D] @ ''i '' @ [CHR 0xC4, CHR 0x91] @ ''i'' @ [CHR 0xE1, CHR 0xBB, CHR 0x83] @ ''m ph'' @ [CHR 0xC3, CHR 0xA1] @ ''t sinh ch'' @ [CHR 0xC3, CHR 0xAD] @ ''nh x'' @ [CHR 0xC3, CHR 0xA1] @ ''c.'',
       ty_special_cases = ''S'' @ [CHR 0xE1, CHR 0xBB, CHR 0xB1] @ '' ki'' @ [CHR 0xE1, CHR 0xBB, CHR 0x87] @ ''n c'' @ [CHR 0xC3, CHR 0xB3] @ '' y'' @ [CHR 0xE1, CHR 0xBA, CHR 0xBF] @ ''u t'' @ [CHR 0xE1, CHR 0xBB, CHR 0x91] @ '' b'' @ [CHR 0xE1, CHR 0xBA, CHR 0xA3] @ ''o m'' @ [CHR 0xE1, CHR 0xBA, CHR 0xAD] @ ''t n'' @ [CHR 0xE1, CHR 0xBB, CHR 0x99] @ ''i b'' @ [CHR 0xE1, CHR 0xBB, CHR 0x99] @ ''.'',
       ty_report_content = ''Th'' @ [CHR 0xC3, CHR 0xB4] @ ''ng b'' @ [CHR 0xC3, CHR 0xA1] @ ''o s'' @ [CHR 0xE1, CHR 0xBB, CHR 0xB1] @ '' ki'' @ [CHR 0xE1, CHR 0xBB, CHR 0x87] @ ''n v'' @ [CHR 0xC3, CHR 0xA0] @ '' t'' @ [CHR 0xC3, CHR 0xA0] @ ''i li'' @ [CHR 0xE1, CHR 0xBB, CHR 0x87] @ ''u '' @ [CHR 0xC4, CHR 0x91, CHR 0xC3, CHR 0xAD] @ ''nh k'' @ [CHR 0xC3, CHR 0xA8] @ ''m.'',
       ty_required_docs = ''Th'' @ [CHR 0xC3, CHR 0xB4] @ ''ng b'' @ [CHR 0xC3, CHR 0xA1] @ ''o s'' @ [CHR 0xE1, CHR 0xBB, CHR 0xB1] @ '' ki'' @ [CHR 0xE1, CHR 0xBB, CHR 0x87] @ ''n, t'' @ [CHR 0xC3, CHR 0xA0] @ ''i li'' @ [CHR 0xE1, CHR 0xBB, CHR 0x87] @ ''u ph'' @ [CHR 0xC3, CHR 0xA1] @ ''p l'' @ [CHR 0xC3, CHR 0xBD] @ '' li'' @ [CHR 0xC3, CHR 0xAA] @ ''n quan.'',
       ty_deadline_rule = ''Trong v'' @ [CHR 0xC3, CHR 0xB2] @ ''ng 24 gi'' @ [CHR 0xE1, CHR 0xBB, CHR 0x9D] @ '' k'' @ [CHR 0xE1, CHR 0xBB, CHR 0x83] @ '' t'' @ [CHR 0xE1, CHR 0xBB, CHR 0xAB] @ '' khi ph'' @ [CHR 0xC3, CHR 0xA1] @ ''t sinh s'' @ [CHR 0xE1, CHR 0xBB, CHR 0xB1] @ '' ki'' @ [CHR 0xE1, CHR 0xBB, CHR 0x87] @ ''n.'',
       ty_periodicity = PeriodicityEventBased,
       ty_channels = ''UBCKNN, Website c'' @ [CHR 0xC3, CHR 0xB4] @ ''ng ty'',
       ty_beneficiaries = ''Nh'' @ [CHR 0xC3, CHR 0xA0] @ '' '' @ [CHR 0xC4, CHR 0x91, CHR 0xE1, CHR 0xBA, CHR 0xA7] @ ''u t'' @ [CHR 0xC6, CHR 0xB0] @ '', c'' @ [CHR 0xE1, CHR 0xBB, CHR 0x95] @ '' '' @ [CHR 0xC4, CHR 0x91, CHR 0xC3, CHR 0xB4] @ ''ng'',
       ty_authorities = ''UBCKNN'',
       ty_format = ''PDF'',
       ty_legal_risks = ''R'' @ [CHR 0xE1, CHR 0xBB, CHR 0xA7] @ ''i ro x'' @ [CHR 0xE1, CHR 0xBB, CHR 0xAD] @ '' ph'' @ [CHR 0xE1, CHR 0xBA, CHR 0xA1] @ ''t n'' @ [CHR 0xE1, CHR 0xBA, CHR 0xBF] @ ''u ch'' @ [CHR 0xE1, CHR 0xBA, CHR 0xAD] @ ''m ho'' @ [CHR 0xE1, CHR 0xBA, CHR 0xB7] @ ''c sai n'' @ [CHR 0xE1, CHR 0xBB, CHR 0x99] @ ''i dung c'' @ [CHR 0xC3, CHR 0xB4] @ ''ng b'' @ [CHR 0xE1, CHR 0xBB, CHR 0x91] @ ''.'',
       ty_general_info = ''Deadline x'' @ [CHR 0xC3, CHR 0xA1] @ ''c '' @ [CHR 0xC4, CHR 0x91, CHR 0xE1, CHR 0xBB, CHR 0x8B] @ ''nh theo th'' @ [CHR 0xE1, CHR 0xBB, CHR 0x9D] @ ''i '' @ [CHR 0xC4, CHR 0x91] @ ''i'' @ [CHR 0xE1, CHR 0xBB, CHR 0x83] @ ''m s'' @ [CHR 0xE1, CHR 0xBB, CHR 0xB1] @ '' ki'' @ [CHR 0xE1, CHR 0xBB, CHR 0x87] @ ''n.'',
       ty_reminders = [],
       ty_legal_bases = [],
       ty_checklist = [],
       ty_tags = [''B'' @ [CHR 0xE1, CHR 0xBA, CHR 0xA5] @ ''t th'' @ [CHR 0xC6, CHR 0xB0, CHR 0xE1, CHR 0xBB, CHR 0x9D] @ ''ng'', ''S'' @ [CHR 0xE1, CHR 0xBB, CHR 0xB1] @ '' ki'' @ [CHR 0xE1, CHR 0xBB, CHR 0x87] @ ''n''],
       ty_blocks = []\<rparr>,
     \<lparr>ty_id = ''dt-custom-obligation'',
       ty_group = ''group-006'',
       ty_name = ''Template ngh'' @ [CHR 0xC4, CHR 0xA9] @ ''a v'' @ [CHR 0xE1, CHR 0xBB, CHR 0xA5] @ '' t'' @ [CHR 0xC3, CHR 0xB9] @ ''y ch'' @ [CHR 0xE1, CHR 0xBB, CHR 0x89] @ ''nh'',
       ty_category = ''T'' @ [CHR 0xC3, CHR 0xB9] @ ''y ch'' @ [CHR 0xE1, CHR 0xBB, CHR 0x89] @ ''nh'',
       ty_template_category = TemplateCategoryCustom,
       ty_deadline_strategy = DeadlineStrategyConfigurable,
       ty_description = ''Template n'' @ [CHR 0xE1, CHR 0xBB, CHR 0x99] @ ''i b'' @ [CHR 0xE1, CHR 0xBB, CHR 0x99] @ '' cho ngh'' @ [CHR 0xC4, CHR 0xA9] @ ''a v'' @ [CHR 0xE1, CHR 0xBB, CHR 0xA5] @ '' '' @ [CHR 0xC4, CHR 0x91, CHR 0xE1, CHR 0xBA, CHR 0xB7] @ ''c th'' @ [CHR 0xC3, CHR 0xB9] @ '' doanh nghi'' @ [CHR 0xE1, CHR 0xBB, CHR 0x87] @ ''p.'',
       ty_legal_basis = ''Quy ch'' @ [CHR 0xE1, CHR 0xBA, CHR 0xBF] @ '' n'' @ [CHR 0xE1, CHR 0xBB, CHR 0x99] @ ''i b'' @ [CHR 0xE1, CHR 0xBB, CHR 0x99] @ '' doanh nghi'' @ [CHR 0xE1, CHR 0xBB, CHR 0x87] @ ''p'',
       ty_applicability = ''Theo ph'' @ [CHR 0xC3, CHR 0xA2] @ ''n quy'' @ [CHR 0xE1, CHR 0xBB, CHR 0x81] @ ''n n'' @ [CHR 0xE1, CHR 0xBB, CHR 0x99] @ ''i b'' @ [CHR 0xE1, CHR 0xBB, CHR 0x99],
       ty_impl_content = ''Thi'' @ [CHR 0xE1, CHR 0xBA, CHR 0xBF] @ ''t l'' @ [CHR 0xE1, CHR 0xBA, CHR 0xAD] @ ''p workflow v'' @ [CHR 0xC3, CHR 0xA0] @ '' checklist t'' @ [CHR 0xC3, CHR 0xA0] @ ''i li'' @ [CHR 0xE1, CHR 0xBB, CHR 0x87] @ ''u.'',
       ty_impl_notes = [CHR 0xC4, CHR 0x90] @ ''i'' @ [CHR 0xE1, CHR 0xBB, CHR 0x81] @ ''u ch'' @ [CHR 0xE1, CHR 0xBB, CHR 0x89] @ ''nh theo ch'' @ [CHR 0xC3, CHR 0xAD] @ ''nh s'' @ [CHR 0xC3, CHR 0xA1] @ ''ch n'' @ [CHR 0xE1, CHR 0xBB, CHR 0x99] @ ''i b'' @ [CHR 0xE1, CHR 0xBB, CHR 0x99] @ ''.'',
       ty_special_cases = ''Thay '' @ [CHR 0xC4, CHR 0x91, CHR 0xE1, CHR 0xBB, CHR 0x95] @ ''i quy tr'' @ [CHR 0xC3, CHR 0xAC] @ ''nh theo phi'' @ [CHR 0xC3, CHR 0xAA] @ ''n b'' @ [CHR 0xE1, CHR 0xBA, CHR 0xA3] @ ''n template.'',
       ty_report_content = ''N'' @ [CHR 0xE1, CHR 0xBB, CHR 0x99] @ ''i dung theo template n'' @ [CHR 0xE1, CHR 0xBB, CHR 0x99] @ ''i b'' @ [CHR 0xE1, CHR 0xBB, CHR 0x99] @ ''.'',
       ty_required_docs = ''Checklist h'' @ [CHR 0xE1, CHR 0xBB, CHR 0x93] @ '' s'' @ [CHR 0xC6, CHR 0xA1] @ '' theo c'' @ [CHR 0xE1, CHR 0xBA, CHR 0xA5] @ ''u h'' @ [CHR 0xC3, CHR 0xAC] @ ''nh template.'',
       ty_deadline_rule = ''Theo c'' @ [CHR 0xE1, CHR 0xBA, CHR 0xA5] @ ''u h'' @ [CHR 0xC3, CHR 0xAC] @ ''nh c'' @ [CHR 0xE1, CHR 0xBB, CHR 0xA7] @ ''a admin.'',
       ty_periodicity = PeriodicityMonthly,
       ty_channels = ''N'' @ [CHR 0xE1, CHR 0xBB, CHR 0x99] @ ''i b'' @ [CHR 0xE1, CHR 0xBB, CHR 0x99],
       ty_beneficiaries = ''Ban '' @ [CHR 0xC4, CHR 0x91] @ ''i'' @ [CHR 0xE1, CHR 0xBB, CHR 0x81] @ ''u h'' @ [CHR 0xC3, CHR 0xA0] @ ''nh'',
       ty_authorities = ''N'' @ [CHR 0xE1, CHR 0xBB, CHR 0x99] @ ''i b'' @ [CHR 0xE1, CHR 0xBB, CHR 0x99],
       ty_format = ''PDF'',
       ty_legal_risks = ''R'' @ [CHR 0xE1, CHR 0xBB, CHR 0xA7] @ ''i ro tu'' @ [CHR 0xC3, CHR 0xA2] @ ''n th'' @ [CHR 0xE1, CHR 0xBB, CHR 0xA7] @ '' n'' @ [CHR 0xE1, CHR 0xBB, CHR 0x99] @ ''i b'' @ [CHR 0xE1, CHR 0xBB, CHR 0x99] @ '' n'' @ [CHR 0xE1, CHR 0xBA, CHR 0xBF] @ ''u kh'' @ [CHR 0xC3, CHR 0xB4] @ ''ng th'' @ [CHR 0xE1, CHR 0xBB, CHR 0xB1] @ ''c hi'' @ [CHR 0xE1, CHR 0xBB, CHR 0x87] @ ''n '' @ [CHR 0xC4, CHR 0x91, CHR 0xC3, CHR 0xBA] @ ''ng quy tr'' @ [CHR 0xC3, CHR 0xAC] @ ''nh.'',
       ty_general_info = ''D'' @ [CHR 0xC3, CHR 0xB9] @ ''ng cho ngh'' @ [CHR 0xC4, CHR 0xA9] @ ''a v'' @ [CHR 0xE1, CHR 0xBB, CHR 0xA5] @ '' n'' @ [CHR 0xE1, CHR 0xBB, CHR 0x99] @ ''i b'' @ [CHR 0xE1, CHR 0xBB, CHR 0x99] @ '' ch'' @ [CHR 0xC6, CHR 0xB0] @ ''a c'' @ [CHR 0xC3, CHR 0xB3] @ '' m'' @ [CHR 0xE1, CHR 0xBA, CHR 0xAB] @ ''u chu'' @ [CHR 0xE1, CHR 0xBA, CHR 0xA9] @ ''n ngo'' @ [CHR 0xC3, CHR 0xA0] @ ''i th'' @ [CHR 0xE1, CHR 0xBB, CHR 0x8B] @ '' tr'' @ [CHR 0xC6, CHR 0xB0, CHR 0xE1, CHR 0xBB, CHR 0x9D] @ ''ng.'',
       ty_reminders = [],
       ty_legal_bases = [],
       ty_checklist = [],
       ty_tags = [''T'' @ [CHR 0xC3, CHR 0xB9] @ ''y ch'' @ [CHR 0xE1, CHR 0xBB, CHR 0x89] @ ''nh''],
       ty_blocks = []\<rparr>,
     \<lparr>ty_id = ''dt-obligation-report'',
       ty_group = ''group-001'',
       ty_name = ''B'' @ [CHR 0xC3, CHR 0xA1] @ ''o c'' @ [CHR 0xC3, CHR 0xA1] @ ''o ngh'' @ [CHR 0xC4, CHR 0xA9] @ ''a v'' @ [CHR 0xE1, CHR 0xBB, CHR 0xA5],
       ty_category = [CHR 0xC4, CHR 0x90, CHR 0xE1, CHR 0xBB, CHR 0x8B] @ ''nh k'' @ [CHR 0xE1, CHR 0xBB, CHR 0xB3],
       ty_template_category = TemplateCategoryPeriodic,
       ty_deadline_strategy = DeadlineStrategyFixedCycleDays,
       ty_description = ''M'' @ [CHR 0xE1, CHR 0xBA, CHR 0xAB] @ ''u b'' @ [CHR 0xC3, CHR 0xA1] @ ''o c'' @ [CHR 0xC3, CHR 0xA1] @ ''o ngh'' @ [CHR 0xC4, CHR 0xA9] @ ''a v'' @ [CHR 0xE1, CHR 0xBB, CHR 0xA5] @ '' tu'' @ [CHR 0xC3, CHR 0xA2] @ ''n th'' @ [CHR 0xE1, CHR 0xBB, CHR 0xA7] @ '' '' @ [CHR 0xC4, CHR 0x91, CHR 0xE1, CHR 0xBB, CHR 0x8B] @ ''nh k'' @ [CHR 0xE1, CHR 0xBB, CHR 0xB3] @ '' theo y'' @ [CHR 0xC3, CHR 0xAA] @ ''u c'' @ [CHR 0xE1, CHR 0xBA, CHR 0xA7] @ ''u qu'' @ [CHR 0xE1, CHR 0xBA, CHR 0xA3] @ ''n tr'' @ [CHR 0xE1, CHR 0xBB, CHR 0x8B] @ ''.'',
       ty_legal_basis = ''Quy ch'' @ [CHR 0xE1, CHR 0xBA, CHR 0xBF] @ '' c'' @ [CHR 0xC3, CHR 0xB4] @ ''ng b'' @ [CHR 0xE1, CHR 0xBB, CHR 0x91] @ '' th'' @ [CHR 0xC3, CHR 0xB4] @ ''ng tin v'' @ [CHR 0xC3, CHR 0xA0] @ '' tu'' @ [CHR 0xC3, CHR 0xA2] @ ''n th'' @ [CHR 0xE1, CHR 0xBB, CHR 0xA7] @ '' n'' @ [CHR 0xE1, CHR 0xBB, CHR 0x99] @ ''i b'' @ [CHR 0xE1, CHR 0xBB, CHR 0x99],
       ty_applicability = [CHR 0xC4, CHR 0x90, CHR 0xC6, CHR 0xA1] @ ''n v'' @ [CHR 0xE1, CHR 0xBB, CHR 0x8B] @ ''/ph'' @ [CHR 0xC3, CHR 0xB2] @ ''ng ban c'' @ [CHR 0xC3, CHR 0xB3] @ '' ngh'' @ [CHR 0xC4, CHR 0xA9] @ ''a v'' @ [CHR 0xE1, CHR 0xBB, CHR 0xA5] @ '' b'' @ [CHR 0xC3, CHR 0xA1] @ ''o c'' @ [CHR 0xC3, CHR 0xA1] @ ''o'',
       ty_impl_content = ''T'' @ [CHR 0xE1, CHR 0xBB, CHR 0x95] @ ''ng h'' @ [CHR 0xE1, CHR 0xBB, CHR 0xA3] @ ''p t'' @ [CHR 0xC3, CHR 0xAC] @ ''nh tr'' @ [CHR 0xE1, CHR 0xBA, CHR 0xA1] @ ''ng th'' @ [CHR 0xE1, CHR 0xBB, CHR 0xB1] @ ''c hi'' @ [CHR 0xE1, CHR 0xBB, CHR 0x87] @ ''n ngh'' @ [CHR 0xC4, CHR 0xA9] @ ''a v'' @ [CHR 0xE1, CHR 0xBB, CHR 0xA5] @ '' v'' @ [CHR 0xC3, CHR 0xA0] @ '' h'' @ [CHR 0xC3, CHR 0xA0] @ ''nh '' @ [CHR 0xC4, CHR 0x91, CHR 0xE1, CHR 0xBB, CHR 0x99] @ ''ng kh'' @ [CHR 0xE1, CHR 0xBA, CHR 0xAF] @ ''c ph'' @ [CHR 0xE1, CHR 0xBB, CHR 0xA5] @ ''c.'',
       ty_impl_notes = [CHR 0xC4, CHR 0x90, CHR 0xE1, CHR 0xBB, CHR 0x91] @ ''i chi'' @ [CHR 0xE1, CHR 0xBA, CHR 0xBF] @ ''u checklist ngh'' @ [CHR 0xC4, CHR 0xA9] @ ''a v'' @ [CHR 0xE1, CHR 0xBB, CHR 0xA5] @ '' tr'' @ [CHR 0xC6, CHR 0xB0, CHR 0xE1, CHR 0xBB, CHR 0x9B] @ ''c khi tr'' @ [CHR 0xC3, CHR 0xAC] @ ''nh duy'' @ [CHR 0xE1, CHR 0xBB, CHR 0x87] @ ''t.'',
       ty_special_cases = ''Ngh'' @ [CHR 0xC4, CHR 0xA9] @ ''a v'' @ [CHR 0xE1, CHR 0xBB, CHR 0xA5] @ '' ph'' @ [CHR 0xC3, CHR 0xA1] @ ''t sinh '' @ [CHR 0xC4, CHR 0x91, CHR 0xE1, CHR 0xBB, CHR 0x99] @ ''t xu'' @ [CHR 0xE1, CHR 0xBA, CHR 0xA5] @ ''t '' @ [CHR 0xC4, CHR 0x91, CHR 0xC6, CHR 0xB0, CHR 0xE1, CHR 0xBB, CHR 0xA3] @ ''c chuy'' @ [CHR 0xE1, CHR 0xBB, CHR 0x83] @ ''n sang template b'' @ [CHR 0xE1, CHR 0xBA, CHR 0xA5] @ ''t th'' @ [CHR 0xC6, CHR 0xB0, CHR 0xE1, CHR 0xBB, CHR 0x9D] @ ''ng.'',
       ty_report_content = ''B'' @ [CHR 0xC3, CHR 0xA1] @ ''o c'' @ [CHR 0xC3, CHR 0xA1] @ ''o t'' @ [CHR 0xE1, CHR 0xBB, CHR 0x95] @ ''ng h'' @ [CHR 0xE1, CHR 0xBB, CHR 0xA3] @ ''p t'' @ [CHR 0xC3, CHR 0xAC] @ ''nh tr'' @ [CHR 0xE1, CHR 0xBA, CHR 0xA1] @ ''ng ngh'' @ [CHR 0xC4, CHR 0xA9] @ ''a v'' @ [CHR 0xE1, CHR 0xBB, CHR 0xA5] @ '', c'' @ [CHR 0xC3, CHR 0xA1] @ ''c m'' @ [CHR 0xE1, CHR 0xBB, CHR 0xA5] @ ''c ch'' @ [CHR 0xC6, CHR 0xB0] @ ''a ho'' @ [CHR 0xC3, CHR 0xA0] @ ''n th'' @ [CHR 0xC3, CHR 0xA0] @ ''nh v'' @ [CHR 0xC3, CHR 0xA0] @ '' k'' @ [CHR 0xE1, CHR 0xBA, CHR 0xBF] @ '' ho'' @ [CHR 0xE1, CHR 0xBA, CHR 0xA1] @ ''ch x'' @ [CHR 0xE1, CHR 0xBB, CHR 0xAD] @ '' l'' @ [CHR 0xC3, CHR 0xBD] @ ''.'',
       ty_required_docs = ''Checklist ngh'' @ [CHR 0xC4, CHR 0xA9] @ ''a v'' @ [CHR 0xE1, CHR 0xBB, CHR 0xA5] @ '', bi'' @ [CHR 0xC3, CHR 0xAA] @ ''n b'' @ [CHR 0xE1, CHR 0xBA, CHR 0xA3] @ ''n r'' @ [CHR 0xC3, CHR 0xA0] @ '' so'' @ [CHR 0xC3, CHR 0xA1] @ ''t n'' @ [CHR 0xE1, CHR 0xBB, CHR 0x99] @ ''i b'' @ [CHR 0xE1, CHR 0xBB, CHR 0x99] @ ''.'',
       ty_deadline_rule = ''Trong v'' @ [CHR 0xC3, CHR 0xB2] @ ''ng 05 ng'' @ [CHR 0xC3, CHR 0xA0] @ ''y l'' @ [CHR 0xC3, CHR 0xA0] @ ''m vi'' @ [CHR 0xE1, CHR 0xBB, CHR 0x87] @ ''c k'' @ [CHR 0xE1, CHR 0xBB, CHR 0x83] @ '' t'' @ [CHR 0xE1, CHR 0xBB, CHR 0xAB] @ '' k'' @ [CHR 0xE1, CHR 0xBB, CHR 0xB3] @ '' ch'' @ [CHR 0xE1, CHR 0xBB, CHR 0x91] @ ''t b'' @ [CHR 0xC3, CHR 0xA1] @ ''o c'' @ [CHR 0xC3, CHR 0xA1] @ ''o.'',
       ty_periodicity = PeriodicityMonthly,
       ty_channels = ''N'' @ [CHR 0xE1, CHR 0xBB, CHR 0x99] @ ''i b'' @ [CHR 0xE1, CHR 0xBB, CHR 0x99] @ '', email qu'' @ [CHR 0xE1, CHR 0xBA, CHR 0xA3] @ ''n tr'' @ [CHR 0xE1, CHR 0xBB, CHR 0x8B],
       ty_beneficiaries = ''Ban '' @ [CHR 0xC4, CHR 0x91] @ ''i'' @ [CHR 0xE1, CHR 0xBB, CHR 0x81] @ ''u h'' @ [CHR 0xC3, CHR 0xA0] @ ''nh, b'' @ [CHR 0xE1, CHR 0xBB, CHR 0x99] @ '' ph'' @ [CHR 0xE1, CHR 0xBA, CHR 0xAD] @ ''n ki'' @ [CHR 0xE1, CHR 0xBB, CHR 0x83] @ ''m so'' @ [CHR 0xC3, CHR 0xA1] @ ''t'',
       ty_authorities = ''N'' @ [CHR 0xE1, CHR 0xBB, CHR 0x99] @ ''i b'' @ [CHR 0xE1, CHR 0xBB, CHR 0x99],
       ty_format = ''PDF'',
       ty_legal_risks = ''R'' @ [CHR 0xE1, CHR 0xBB, CHR 0xA7] @ ''i ro vi ph'' @ [CHR 0xE1, CHR 0xBA, CHR 0xA1] @ ''m n'' @ [CHR 0xE1, CHR 0xBB, CHR 0x99] @ ''i b'' @ [CHR 0xE1, CHR 0xBB, CHR 0x99] @ '' v'' @ [CHR 0xC3, CHR 0xA0] @ '' ch'' @ [CHR 0xE1, CHR 0xBA, CHR 0xAD] @ ''m x'' @ [CHR 0xE1, CHR 0xBB, CHR 0xAD] @ '' l'' @ [CHR 0xC3, CHR 0xBD] @ '' ngh'' @ [CHR 0xC4, CHR 0xA9] @ ''a v'' @ [CHR 0xE1, CHR 0xBB, CHR 0xA5] @ ''.'',
       ty_general_info = ''D'' @ [CHR 0xC3, CHR 0xB9] @ ''ng cho c'' @ [CHR 0xC3, CHR 0xA1] @ ''c ngh'' @ [CHR 0xC4, CHR 0xA9] @ ''a v'' @ [CHR 0xE1, CHR 0xBB, CHR 0xA5] @ '' v'' @ [CHR 0xE1, CHR 0xBA, CHR 0xAD] @ ''n h'' @ [CHR 0xC3, CHR 0xA0] @ ''nh/tu'' @ [CHR 0xC3, CHR 0xA2] @ ''n th'' @ [CHR 0xE1, CHR 0xBB, CHR 0xA7] @ '' c'' @ [CHR 0xE1, CHR 0xBA, CHR 0xA7] @ ''n theo d'' @ [CHR 0xC3, CHR 0xB5] @ ''i '' @ [CHR 0xC4, CHR 0x91, CHR 0xE1, CHR 0xBB, CHR 0x8B] @ ''nh k'' @ [CHR 0xE1, CHR 0xBB, CHR 0xB3] @ ''.'',
       ty_reminders = [],
       ty_legal_bases = [],
       ty_checklist = [],
       ty_tags = [''Ngh'' @ [CHR 0xC4, CHR 0xA9] @ ''a v'' @ [CHR 0xE1, CHR 0xBB, CHR 0xA5], [CHR 0xC4, CHR 0x90, CHR 0xE1, CHR 0xBB, CHR 0x8B] @ ''nh k'' @ [CHR 0xE1, CHR 0xBB, CHR 0xB3]],
       ty_blocks = []\<rparr>,
     \<lparr>ty_id = ''dt-shareholder-meeting'',
       ty_group = ''group-001'',
       ty_name = ''T'' @ [CHR 0xE1, CHR 0xBB, CHR 0x95] @ '' ch'' @ [CHR 0xE1, CHR 0xBB, CHR 0xA9] @ ''c '' @ [CHR 0xC4, CHR 0x91, CHR 0xE1, CHR 0xBA, CHR 0xA1] @ ''i h'' @ [CHR 0xE1, CHR 0xBB, CHR 0x99] @ ''i c'' @ [CHR 0xE1, CHR 0xBB, CHR 0x95] @ '' '' @ [CHR 0xC4, CHR 0x91, CHR 0xC3, CHR 0xB4] @ ''ng'',
       ty_category = [CHR 0xC4, CHR 0x90, CHR 0xE1, CHR 0xBB, CHR 0x8B] @ ''nh k'' @ [CHR 0xE1, CHR 0xBB, CHR 0xB3],
       ty_template_category = TemplateCategoryPeriodic,
       ty_deadline_strategy = DeadlineStrategyFixedCycleDays,
       ty_description = ''Template '' @ [CHR 0xC4, CHR 0x91] @ ''i'' @ [CHR 0xE1, CHR 0xBB, CHR 0x81] @ ''u ph'' @ [CHR 0xE1, CHR 0xBB, CHR 0x91] @ ''i c'' @ [CHR 0xC3, CHR 0xB4] @ ''ng b'' @ [CHR 0xE1, CHR 0xBB, CHR 0x91] @ '' th'' @ [CHR 0xC3, CHR 0xB4] @ ''ng tin li'' @ [CHR 0xC3, CHR 0xAA] @ ''n quan t'' @ [CHR 0xE1, CHR 0xBB, CHR 0x95] @ '' ch'' @ [CHR 0xE1, CHR 0xBB, CHR 0xA9] @ ''c '' @ [CHR 0xC4, CHR 0x91, CHR 0xE1, CHR 0xBA, CHR 0xA1] @ ''i h'' @ [CHR 0xE1, CHR 0xBB, CHR 0x99] @ ''i c'' @ [CHR 0xE1, CHR 0xBB, CHR 0x95] @ '' '' @ [CHR 0xC4, CHR 0x91, CHR 0xC3, CHR 0xB4] @ ''ng.'',
       ty_legal_basis = ''Lu'' @ [CHR 0xE1, CHR 0xBA, CHR 0xAD] @ ''t Doanh nghi'' @ [CHR 0xE1, CHR 0xBB, CHR 0x87] @ ''p v'' @ [CHR 0xC3, CHR 0xA0] @ '' quy ch'' @ [CHR 0xE1, CHR 0xBA, CHR 0xBF] @ '' c'' @ [CHR 0xC3, CHR 0xB4] @ ''ng b'' @ [CHR 0xE1, CHR 0xBB, CHR 0x91] @ '' th'' @ [CHR 0xC3, CHR 0xB4] @ ''ng tin hi'' @ [CHR 0xE1, CHR 0xBB, CHR 0x87] @ ''n h'' @ [CHR 0xC3, CHR 0xA0] @ ''nh'',
       ty_applicability = ''Doanh nghi'' @ [CHR 0xE1, CHR 0xBB, CHR 0x87] @ ''p c'' @ [CHR 0xE1, CHR 0xBB, CHR 0x95] @ '' ph'' @ [CHR 0xE1, CHR 0xBA, CHR 0xA7] @ ''n/ni'' @ [CHR 0xC3, CHR 0xAA] @ ''m y'' @ [CHR 0xE1, CHR 0xBA, CHR 0xBF] @ ''t'',
       ty_impl_content = ''L'' @ [CHR 0xE1, CHR 0xBA, CHR 0xAD] @ ''p k'' @ [CHR 0xE1, CHR 0xBA, CHR 0xBF] @ '' ho'' @ [CHR 0xE1, CHR 0xBA, CHR 0xA1] @ ''ch, th'' @ [CHR 0xC3, CHR 0xB4] @ ''ng b'' @ [CHR 0xC3, CHR 0xA1] @ ''o m'' @ [CHR 0xE1, CHR 0xBB, CHR 0x9D] @ ''i h'' @ [CHR 0xE1, CHR 0xBB, CHR 0x8D] @ ''p, c'' @ [CHR 0xC3, CHR 0xB4] @ ''ng b'' @ [CHR 0xE1, CHR 0xBB, CHR 0x91] @ '' t'' @ [CHR 0xC3, CHR 0xA0] @ ''i li'' @ [CHR 0xE1, CHR 0xBB, CHR 0x87] @ ''u '' @ [CHR 0xC4, CHR 0x91, CHR 0xE1, CHR 0xBA, CHR 0xA1] @ ''i h'' @ [CHR 0xE1, CHR 0xBB, CHR 0x99] @ ''i theo timeline.'',
       ty_impl_notes = ''Ki'' @ [CHR 0xE1, CHR 0xBB, CHR 0x83] @ ''m tra th'' @ [CHR 0xE1, CHR 0xBB, CHR 0x9D] @ ''i h'' @ [CHR 0xE1, CHR 0xBA, CHR 0xA1] @ ''n ch'' @ [CHR 0xE1, CHR 0xBB, CHR 0x91] @ ''t danh s'' @ [CHR 0xC3, CHR 0xA1] @ ''ch c'' @ [CHR 0xE1, CHR 0xBB, CHR 0x95] @ '' '' @ [CHR 0xC4, CHR 0x91, CHR 0xC3, CHR 0xB4] @ ''ng v'' @ [CHR 0xC3, CHR 0xA0] @ '' h'' @ [CHR 0xE1, CHR 0xBA, CHR 0xA1] @ ''n c'' @ [CHR 0xC3, CHR 0xB4] @ ''ng b'' @ [CHR 0xE1, CHR 0xBB, CHR 0x91] @ '' t'' @ [CHR 0xC3, CHR 0xA0] @ ''i li'' @ [CHR 0xE1, CHR 0xBB, CHR 0x87] @ ''u.'',
       ty_special_cases = [CHR 0xC4, CHR 0x90, CHR 0xE1, CHR 0xBA, CHR 0xA1] @ ''i h'' @ [CHR 0xE1, CHR 0xBB, CHR 0x99] @ ''i b'' @ [CHR 0xE1, CHR 0xBA, CHR 0xA5] @ ''t th'' @ [CHR 0xC6, CHR 0xB0, CHR 0xE1, CHR 0xBB, CHR 0x9D] @ ''ng theo ngh'' @ [CHR 0xE1, CHR 0xBB, CHR 0x8B] @ '' quy'' @ [CHR 0xE1, CHR 0xBA, CHR 0xBF] @ ''t '' @ [CHR 0xC4, CHR 0x91, CHR 0xE1, CHR 0xBB, CHR 0x99] @ ''t xu'' @ [CHR 0xE1, CHR 0xBA, CHR 0xA5] @ ''t c'' @ [CHR 0xC3, CHR 0xB3] @ '' th'' @ [CHR 0xE1, CHR 0xBB, CHR 0x83] @ '' d'' @ [CHR 0xC3, CHR 0xB9] @ ''ng template b'' @ [CHR 0xE1, CHR 0xBA, CHR 0xA5] @ ''t th'' @ [CHR 0xC6, CHR 0xB0, CHR 0xE1, CHR 0xBB, CHR 0x9D] @ ''ng b'' @ [CHR 0xE1, CHR 0xBB, CHR 0x95] @ '' sung.'',
       ty_report_content = ''Th'' @ [CHR 0xC3, CHR 0xB4] @ ''ng b'' @ [CHR 0xC3, CHR 0xA1] @ ''o m'' @ [CHR 0xE1, CHR 0xBB, CHR 0x9D] @ ''i h'' @ [CHR 0xE1, CHR 0xBB, CHR 0x8D] @ ''p, ch'' @ [CHR 0xC6, CHR 0xB0, CHR 0xC6, CHR 0xA1] @ ''ng tr'' @ [CHR 0xC3, CHR 0xAC] @ ''nh h'' @ [CHR 0xE1, CHR 0xBB, CHR 0x8D] @ ''p, t'' @ [CHR 0xC3, CHR 0xA0] @ ''i li'' @ [CHR 0xE1, CHR 0xBB, CHR 0x87] @ ''u '' @ [CHR 0xC4, CHR 0x91, CHR 0xE1, CHR 0xBA, CHR 0xA1] @ ''i h'' @ [CHR 0xE1, CHR 0xBB, CHR 0x99] @ ''i v'' @ [CHR 0xC3, CHR 0xA0] @ '' ngh'' @ [CHR 0xE1, CHR 0xBB, CHR 0x8B] @ '' quy'' @ [CHR 0xE1, CHR 0xBA, CHR 0xBF] @ ''t.'',
       ty_required_docs = ''Th'' @ [CHR 0xC3, CHR 0xB4] @ ''ng b'' @ [CHR 0xC3, CHR 0xA1] @ ''o h'' @ [CHR 0xE1, CHR 0xBB, CHR 0x8D] @ ''p, t'' @ [CHR 0xC3, CHR 0xA0] @ ''i li'' @ [CHR 0xE1, CHR 0xBB, CHR 0x87] @ ''u '' @ [CHR 0xC4, CHR 0x91, CHR 0xE1, CHR 0xBA, CHR 0xA1] @ ''i h'' @ [CHR 0xE1, CHR 0xBB, CHR 0x99] @ ''i, danh s'' @ [CHR 0xC3, CHR 0xA1] @ ''ch c'' @ [CHR 0xE1, CHR 0xBB, CHR 0x95] @ '' '' @ [CHR 0xC4, CHR 0x91, CHR 0xC3, CHR 0xB4] @ ''ng, bi'' @ [CHR 0xC3, CHR 0xAA] @ ''n b'' @ [CHR 0xE1, CHR 0xBA, CHR 0xA3] @ ''n v'' @ [CHR 0xC3, CHR 0xA0] @ '' ngh'' @ [CHR 0xE1, CHR 0xBB, CHR 0x8B] @ '' quy'' @ [CHR 0xE1, CHR 0xBA, CHR 0xBF] @ ''t.'',
       ty_deadline_rule = [CHR 0xC3, CHR 0x8D] @ ''t nh'' @ [CHR 0xE1, CHR 0xBA, CHR 0xA5] @ ''t 21 ng'' @ [CHR 0xC3, CHR 0xA0] @ ''y tr'' @ [CHR 0xC6, CHR 0xB0, CHR 0xE1, CHR 0xBB, CHR 0x9B] @ ''c ng'' @ [CHR 0xC3, CHR 0xA0] @ ''y h'' @ [CHR 0xE1, CHR 0xBB, CHR 0x8D] @ ''p (ho'' @ [CHR 0xE1, CHR 0xBA, CHR 0xB7] @ ''c theo '' @ [CHR 0xC4, CHR 0x91] @ ''i'' @ [CHR 0xE1, CHR 0xBB, CHR 0x81] @ ''u l'' @ [CHR 0xE1, CHR 0xBB, CHR 0x87] @ ''/quy '' @ [CHR 0xC4, CHR 0x91, CHR 0xE1, CHR 0xBB, CHR 0x8B] @ ''nh '' @ [CHR 0xC3, CHR 0xA1] @ ''p d'' @ [CHR 0xE1, CHR 0xBB, CHR 0xA5] @ ''ng).'',
       ty_periodicity = PeriodicityYearly,
       ty_channels = ''UBCKNN, S'' @ [CHR 0xE1, CHR 0xBB, CHR 0x9F] @ '' GDCK, Website c'' @ [CHR 0xC3, CHR 0xB4] @ ''ng ty'',
       ty_beneficiaries = ''C'' @ [CHR 0xE1, CHR 0xBB, CHR 0x95] @ '' '' @ [CHR 0xC4, CHR 0x91, CHR 0xC3, CHR 0xB4] @ ''ng, nh'' @ [CHR 0xC3, CHR 0xA0] @ '' '' @ [CHR 0xC4, CHR 0x91, CHR 0xE1, CHR 0xBA, CHR 0xA7] @ ''u t'' @ [CHR 0xC6, CHR 0xB0] @ '', c'' @ [CHR 0xC6, CHR 0xA1] @ '' quan qu'' @ [CHR 0xE1, CHR 0xBA, CHR 0xA3] @ ''n l'' @ [CHR 0xC3, CHR 0xBD],
       ty_authorities = ''UBCKNN, HOSE/HNX'',
       ty_format = ''PDF'',
       ty_legal_risks = ''R'' @ [CHR 0xE1, CHR 0xBB, CHR 0xA7] @ ''i ro khi'' @ [CHR 0xE1, CHR 0xBA, CHR 0xBF] @ ''u ki'' @ [CHR 0xE1, CHR 0xBB, CHR 0x87] @ ''n v'' @ [CHR 0xC3, CHR 0xA0] @ '' x'' @ [CHR 0xE1, CHR 0xBB, CHR 0xAD] @ '' ph'' @ [CHR 0xE1, CHR 0xBA, CHR 0xA1] @ ''t n'' @ [CHR 0xE1, CHR 0xBA, CHR 0xBF] @ ''u c'' @ [CHR 0xC3, CHR 0xB4] @ ''ng b'' @ [CHR 0xE1, CHR 0xBB, CHR 0x91] @ '' kh'' @ [CHR 0xC3, CHR 0xB4] @ ''ng '' @ [CHR 0xC4, CHR 0x91, CHR 0xC3, CHR 0xBA] @ ''ng h'' @ [CHR 0xE1, CHR 0xBA, CHR 0xA1] @ ''n ho'' @ [CHR 0xE1, CHR 0xBA, CHR 0xB7] @ ''c thi'' @ [CHR 0xE1, CHR 0xBA, CHR 0xBF] @ ''u h'' @ [CHR 0xE1, CHR 0xBB, CHR 0x93] @ '' s'' @ [CHR 0xC6, CHR 0xA1] @ ''.'',
       ty_general_info = [CHR 0xC3, CHR 0x81] @ ''p d'' @ [CHR 0xE1, CHR 0xBB, CHR 0xA5] @ ''ng cho k'' @ [CHR 0xE1, CHR 0xBA, CHR 0xBF] @ '' ho'' @ [CHR 0xE1, CHR 0xBA, CHR 0xA1] @ ''ch v'' @ [CHR 0xC3, CHR 0xA0] @ '' c'' @ [CHR 0xC3, CHR 0xB4] @ ''ng b'' @ [CHR 0xE1, CHR 0xBB, CHR 0x91] @ '' th'' @ [CHR 0xC3, CHR 0xB4] @ ''ng tin '' @ [CHR 0xC4, CHR 0x90, CHR 0xE1, CHR 0xBA, CHR 0xA1] @ ''i h'' @ [CHR 0xE1, CHR 0xBB, CHR 0x99] @ ''i c'' @ [CHR 0xE1, CHR 0xBB, CHR 0x95] @ '' '' @ [CHR 0xC4, CHR 0x91, CHR 0xC3, CHR 0xB4] @ ''ng th'' @ [CHR 0xC6, CHR 0xB0, CHR 0xE1, CHR 0xBB, CHR 0x9D] @ ''ng ni'' @ [CHR 0xC3, CHR 0xAA] @ ''n.'',
       ty_reminders = [],
       ty_legal_bases = [],
       ty_checklist = [],
       ty_tags = [[CHR 0xC4, CHR 0x90, CHR 0xE1, CHR 0xBA, CHR 0xA1] @ ''i h'' @ [CHR 0xE1, CHR 0xBB, CHR 0x99] @ ''i c'' @ [CHR 0xE1, CHR 0xBB, CHR 0x95] @ '' '' @ [CHR 0xC4, CHR 0x91, CHR 0xC3, CHR 0xB4] @ ''ng'', [CHR 0xC4, CHR 0x90, CHR 0xE1, CHR 0xBB, CHR 0x8B] @ ''nh k'' @ [CHR 0xE1, CHR 0xBB, CHR 0xB3]],
       ty_blocks = []\<rparr>,
     \<lparr>ty_id = ''dt-disclosure-transaction'',
       ty_group = ''group-002'',
       ty_name = ''C'' @ [CHR 0xC3, CHR 0xB4] @ ''ng b'' @ [CHR 0xE1, CHR 0xBB, CHR 0x91] @ '' th'' @ [CHR 0xC3, CHR 0xB4] @ ''ng tin v'' @ [CHR 0xE1, CHR 0xBB, CHR 0x81] @ '' giao d'' @ [CHR 0xE1, CHR 0xBB, CHR 0x8B] @ ''ch'',
       ty_category = ''B'' @ [CHR 0xE1, CHR 0xBA, CHR 0xA5] @ ''t th'' @ [CHR 0xC6, CHR 0xB0, CHR 0xE1, CHR 0xBB, CHR 0x9D] @ ''ng'',
       ty_template_category = TemplateCategoryIrregular,
       ty_deadline_strategy = DeadlineStrategyEventHours,
       ty_description = ''Template c'' @ [CHR 0xC3, CHR 0xB4] @ ''ng b'' @ [CHR 0xE1, CHR 0xBB, CHR 0x91] @ '' th'' @ [CHR 0xC3, CHR 0xB4] @ ''ng tin khi ph'' @ [CHR 0xC3, CHR 0xA1] @ ''t sinh giao d'' @ [CHR 0xE1, CHR 0xBB, CHR 0x8B] @ ''ch thu'' @ [CHR 0xE1, CHR 0xBB, CHR 0x99] @ ''c di'' @ [CHR 0xE1, CHR 0xBB, CHR 0x87] @ ''n ph'' @ [CHR 0xE1, CHR 0xBA, CHR 0xA3] @ ''i c'' @ [CHR 0xC3, CHR 0xB4] @ ''ng b'' @ [CHR 0xE1, CHR 0xBB, CHR 0x91] @ ''.'',
       ty_legal_basis = ''Lu'' @ [CHR 0xE1, CHR 0xBA, CHR 0xAD] @ ''t Ch'' @ [CHR 0xE1, CHR 0xBB, CHR 0xA9] @ ''ng kho'' @ [CHR 0xC3, CHR 0xA1] @ ''n v'' @ [CHR 0xC3, CHR 0xA0] @ '' c'' @ [CHR 0xC3, CHR 0xA1] @ ''c quy '' @ [CHR 0xC4, CHR 0x91, CHR 0xE1, CHR 0xBB, CHR 0x8B] @ ''nh c'' @ [CHR 0xC3, CHR 0xB4] @ ''ng b'' @ [CHR 0xE1, CHR 0xBB, CHR 0x91] @ '' giao d'' @ [CHR 0xE1, CHR 0xBB, CHR 0x8B] @ ''ch hi'' @ [CHR 0xE1, CHR 0xBB, CHR 0x87] @ ''n h'' @ [CHR 0xC3, CHR 0xA0] @ ''nh'',
       ty_applicability = ''Doanh nghi'' @ [CHR 0xE1, CHR 0xBB, CHR 0x87] @ ''p ni'' @ [CHR 0xC3, CHR 0xAA] @ ''m y'' @ [CHR 0xE1, CHR 0xBA, CHR 0xBF] @ ''t v'' @ [CHR 0xC3, CHR 0xA0] @ '' ch'' @ [CHR 0xE1, CHR 0xBB, CHR 0xA7] @ '' th'' @ [CHR 0xE1, CHR 0xBB, CHR 0x83] @ '' li'' @ [CHR 0xC3, CHR 0xAA] @ ''n quan giao d'' @ [CHR 0xE1, CHR 0xBB, CHR 0x8B] @ ''ch'',
       ty_impl_content = ''Ti'' @ [CHR 0xE1, CHR 0xBA, CHR 0xBF] @ ''p nh'' @ [CHR 0xE1, CHR 0xBA, CHR 0xAD] @ ''n th'' @ [CHR 0xC3, CHR 0xB4] @ ''ng tin giao d'' @ [CHR 0xE1, CHR 0xBB, CHR 0x8B] @ ''ch, ki'' @ [CHR 0xE1, CHR 0xBB, CHR 0x83] @ ''m tra '' @ [CHR 0xC4, CHR 0x91] @ ''i'' @ [CHR 0xE1, CHR 0xBB, CHR 0x81] @ ''u ki'' @ [CHR 0xE1, CHR 0xBB, CHR 0x87] @ ''n c'' @ [CHR 0xC3, CHR 0xB4] @ ''ng b'' @ [CHR 0xE1, CHR 0xBB, CHR 0x91] @ '' v'' @ [CHR 0xC3, CHR 0xA0] @ '' ph'' @ [CHR 0xC3, CHR 0xA1] @ ''t h'' @ [CHR 0xC3, CHR 0xA0] @ ''nh th'' @ [CHR 0xC3, CHR 0xB4] @ ''ng b'' @ [CHR 0xC3, CHR 0xA1] @ ''o.'',
       ty_impl_notes = ''Ghi nh'' @ [CHR 0xE1, CHR 0xBA, CHR 0xAD] @ ''n ch'' @ [CHR 0xC3, CHR 0xAD] @ ''nh x'' @ [CHR 0xC3, CHR 0xA1] @ ''c th'' @ [CHR 0xE1, CHR 0xBB, CHR 0x9D] @ ''i '' @ [CHR 0xC4, CHR 0x91] @ ''i'' @ [CHR 0xE1, CHR 0xBB, CHR 0x83] @ ''m ph'' @ [CHR 0xC3, CHR 0xA1] @ ''t sinh giao d'' @ [CHR 0xE1, CHR 0xBB, CHR 0x8B] @ ''ch v'' @ [CHR 0xC3, CHR 0xA0] @ '' th'' @ [CHR 0xC3, CHR 0xB4] @ ''ng tin ch'' @ [CHR 0xE1, CHR 0xBB, CHR 0xA7] @ '' th'' @ [CHR 0xE1, CHR 0xBB, CHR 0x83] @ '' li'' @ [CHR 0xC3, CHR 0xAA] @ ''n quan.'',
       ty_special_cases = ''Giao d'' @ [CHR 0xE1, CHR 0xBB, CHR 0x8B] @ ''ch c'' @ [CHR 0xC3, CHR 0xB3] @ '' y'' @ [CHR 0xE1, CHR 0xBA, CHR 0xBF] @ ''u t'' @ [CHR 0xE1, CHR 0xBB, CHR 0x91] @ '' b'' @ [CHR 0xE1, CHR 0xBA, CHR 0xA3] @ ''o m'' @ [CHR 0xE1, CHR 0xBA, CHR 0xAD] @ ''t c'' @ [CHR 0xE1, CHR 0xBA, CHR 0xA7] @ ''n ki'' @ [CHR 0xE1, CHR 0xBB, CHR 0x83] @ ''m tra ph'' @ [CHR 0xE1, CHR 0xBA, CHR 0xA1] @ ''m vi c'' @ [CHR 0xC3, CHR 0xB4] @ ''ng b'' @ [CHR 0xE1, CHR 0xBB, CHR 0x91] @ '' tr'' @ [CHR 0xC6, CHR 0xB0, CHR 0xE1, CHR 0xBB, CHR 0x9B] @ ''c khi ph'' @ [CHR 0xC3, CHR 0xA1] @ ''t h'' @ [CHR 0xC3, CHR 0xA0] @ ''nh.'',
       ty_report_content = ''Th'' @ [CHR 0xC3, CHR 0xB4] @ ''ng tin giao d'' @ [CHR 0xE1, CHR 0xBB, CHR 0x8B] @ ''ch, gi'' @ [CHR 0xC3, CHR 0xA1] @ '' tr'' @ [CHR 0xE1, CHR 0xBB, CHR 0x8B] @ '', '' @ [CHR 0xC4, CHR 0x91, CHR 0xE1, CHR 0xBB, CHR 0x91] @ ''i t'' @ [CHR 0xC6, CHR 0xB0, CHR 0xE1, CHR 0xBB, CHR 0xA3] @ ''ng li'' @ [CHR 0xC3, CHR 0xAA] @ ''n quan v'' @ [CHR 0xC3, CHR 0xA0] @ '' t'' @ [CHR 0xC3, CHR 0xA0] @ ''i li'' @ [CHR 0xE1, CHR 0xBB, CHR 0x87] @ ''u x'' @ [CHR 0xC3, CHR 0xA1] @ ''c nh'' @ [CHR 0xE1, CHR 0xBA, CHR 0xAD] @ ''n.'',
       ty_required_docs = ''Th'' @ [CHR 0xC3, CHR 0xB4] @ ''ng b'' @ [CHR 0xC3, CHR 0xA1] @ ''o giao d'' @ [CHR 0xE1, CHR 0xBB, CHR 0x8B] @ ''ch, t'' @ [CHR 0xC3, CHR 0xA0] @ ''i li'' @ [CHR 0xE1, CHR 0xBB, CHR 0x87] @ ''u ph'' @ [CHR 0xC3, CHR 0xA1] @ ''p l'' @ [CHR 0xC3, CHR 0xBD] @ ''/ch'' @ [CHR 0xE1, CHR 0xBB, CHR 0xA9] @ ''ng t'' @ [CHR 0xE1, CHR 0xBB, CHR 0xAB] @ '' li'' @ [CHR 0xC3, CHR 0xAA] @ ''n quan.'',
       ty_deadline_rule = ''Trong v'' @ [CHR 0xC3, CHR 0xB2] @ ''ng 24 gi'' @ [CHR 0xE1, CHR 0xBB, CHR 0x9D] @ '' k'' @ [CHR 0xE1, CHR 0xBB, CHR 0x83] @ '' t'' @ [CHR 0xE1, CHR 0xBB, CHR 0xAB] @ '' khi ph'' @ [CHR 0xC3, CHR 0xA1] @ ''t sinh ho'' @ [CHR 0xE1, CHR 0xBA, CHR 0xB7] @ ''c nh'' @ [CHR 0xE1, CHR 0xBA, CHR 0xAD] @ ''n '' @ [CHR 0xC4, CHR 0x91, CHR 0xC6, CHR 0xB0, CHR 0xE1, CHR 0xBB, CHR 0xA3] @ ''c th'' @ [CHR 0xC3, CHR 0xB4] @ ''ng tin giao d'' @ [CHR 0xE1, CHR 0xBB, CHR 0x8B] @ ''ch thu'' @ [CHR 0xE1, CHR 0xBB, CHR 0x99] @ ''c di'' @ [CHR 0xE1, CHR 0xBB, CHR 0x87] @ ''n c'' @ [CHR 0xC3, CHR 0xB4] @ ''ng b'' @ [CHR 0xE1, CHR 0xBB, CHR 0x91] @ ''.'',
       ty_periodicity = PeriodicityEventBased,
       ty_channels = ''UBCKNN, S'' @ [CHR 0xE1, CHR 0xBB, CHR 0x9F] @ '' GDCK, Website c'' @ [CHR 0xC3, CHR 0xB4] @ ''ng ty'',
       ty_beneficiaries = ''Nh'' @ [CHR 0xC3, CHR 0xA0] @ '' '' @ [CHR 0xC4, CHR 0x91, CHR 0xE1, CHR 0xBA, CHR 0xA7] @ ''u t'' @ [CHR 0xC6, CHR 0xB0] @ '', c'' @ [CHR 0xE1, CHR 0xBB, CHR 0x95] @ '' '' @ [CHR 0xC4, CHR 0x91, CHR 0xC3, CHR 0xB4] @ ''ng, c'' @ [CHR 0xC6, CHR 0xA1] @ '' quan qu'' @ [CHR 0xE1, CHR 0xBA, CHR 0xA3] @ ''n l'' @ [CHR 0xC3, CHR 0xBD],
       ty_authorities = ''UBCKNN, HOSE/HNX'',
       ty_format = ''PDF'',
       ty_legal_risks = ''R'' @ [CHR 0xE1, CHR 0xBB, CHR 0xA7] @ ''i ro x'' @ [CHR 0xE1, CHR 0xBB, CHR 0xAD] @ '' ph'' @ [CHR 0xE1, CHR 0xBA, CHR 0xA1] @ ''t v'' @ [CHR 0xC3, CHR 0xA0] @ '' '' @ [CHR 0xE1, CHR 0xBA, CHR 0xA3] @ ''nh h'' @ [CHR 0xC6, CHR 0xB0, CHR 0xE1, CHR 0xBB, CHR 0x9F] @ ''ng uy t'' @ [CHR 0xC3, CHR 0xAD] @ ''n khi c'' @ [CHR 0xC3, CHR 0xB4] @ ''ng b'' @ [CHR 0xE1, CHR 0xBB, CHR 0x91] @ '' sai/ch'' @ [CHR 0xE1, CHR 0xBA, CHR 0xAD] @ ''m.'',
       ty_general_info = ''S'' @ [CHR 0xE1, CHR 0xBB, CHR 0xAD] @ '' d'' @ [CHR 0xE1, CHR 0xBB, CHR 0xA5] @ ''ng cho c'' @ [CHR 0xC3, CHR 0xA1] @ ''c giao d'' @ [CHR 0xE1, CHR 0xBB, CHR 0x8B] @ ''ch ph'' @ [CHR 0xE1, CHR 0xBA, CHR 0xA3] @ ''i c'' @ [CHR 0xC3, CHR 0xB4] @ ''ng b'' @ [CHR 0xE1, CHR 0xBB, CHR 0x91] @ '' theo c'' @ [CHR 0xC6, CHR 0xA1] @ '' ch'' @ [CHR 0xE1, CHR 0xBA, CHR 0xBF] @ '' b'' @ [CHR 0xE1, CHR 0xBA, CHR 0xA5] @ ''t th'' @ [CHR 0xC6, CHR 0xB0, CHR 0xE1, CHR 0xBB, CHR 0x9D] @ ''ng.'',
       ty_reminders = [],
       ty_legal_bases = [],
       ty_checklist = [],
       ty_tags = [''Giao d'' @ [CHR 0xE1, CHR 0xBB, CHR 0x8B] @ ''ch'', ''B'' @ [CHR 0xE1, CHR 0xBA, CHR 0xA5] @ ''t th'' @ [CHR 0xC6, CHR 0xB0, CHR 0xE1, CHR 0xBB, CHR 0x9D] @ ''ng''],
       ty_blocks = []\<rparr>]"

definition seed_version :: "int \<Rightarrow> string \<Rightarrow> type_version" where
  "seed_version now t = \<lparr>tv_type = t, tv_no = 1, tv_active = True, tv_note = ''seed'', tv_by = ''system'', tv_at = now\<rparr>"

definition seed_type :: "int \<Rightarrow> type_body \<Rightarrow> disc_mem \<Rightarrow> disc_mem" where
  "seed_type now b m = m\<lparr>
     dm_catalog := (dm_catalog m)(ty_id b \<mapsto> dto_of 1 b),
     dm_by_version := (dm_by_version m)(ty_id b \<mapsto> [1 \<mapsto> dto_of 1 b]),
     dm_scope := (dm_scope m)(ty_id b \<mapsto> ''global''),
     dm_versions := (dm_versions m)(ty_id b \<mapsto> [seed_version now (ty_id b)])\<rparr>"

definition new_disc_mem :: "int \<Rightarrow> disc_mem" where
  "new_disc_mem now = fold (seed_type now) disclosure_type_catalog
     \<lparr>dm_items = Map.empty, dm_groups = disclosure_type_groups, dm_catalog = Map.empty, dm_by_version = Map.empty,
      dm_versions = Map.empty, dm_scope = Map.empty\<rparr>"

subsection \<open>What the repository holds after its start\<close>

definition seeded_as :: "int \<Rightarrow> type_body \<Rightarrow> disc_mem \<Rightarrow> bool" where
  "seeded_as now b m \<longleftrightarrow> dm_catalog m (ty_id b) = Some (dto_of 1 b) \<and> dm_by_version m (ty_id b) = Some [1 \<mapsto> dto_of 1 b] \<and>
     dm_scope m (ty_id b) = Some ''global'' \<and> dm_versions m (ty_id b) = Some [seed_version now (ty_id b)]"

lemma seeded_step: "seeded_as now b (seed_type now b m)"
  "ty_id b \<noteq> ty_id x \<Longrightarrow> seeded_as now b m \<Longrightarrow> seeded_as now b (seed_type now x m)"
  by (simp_all add: seeded_as_def seed_type_def)

lemma seeded_fold: "distinct (map ty_id bs) \<Longrightarrow> b \<in> set bs \<Longrightarrow> seeded_as now b (fold (seed_type now) bs m)"
proof (induction bs rule: rev_induct)
  case (snoc x bs)
  show ?case
  proof (cases "b = x")
    case True
    then show ?thesis by (simp add: seeded_step)
  next
    case False
    with snoc.prems have b1: "b \<in> set bs" by simp
    have "ty_id x \<notin> ty_id ` set bs" using snoc.prems(1) by simp
    with b1 have b: "b \<in> set bs" "ty_id b \<noteq> ty_id x" by (auto intro: rev_image_eqI)
    have "seeded_as now b (fold (seed_type now) bs m)" using snoc.IH snoc.prems(1) b(1) by simp
    with b(2) show ?thesis by (simp add: seeded_step)
  qed
qed simp

lemma seed_ids_distinct: "distinct (map ty_id disclosure_type_catalog)"
  by (simp add: disclosure_type_catalog_def)

text \<open>Every company reads every seeded type, at its only version.\<close>

lemma seed_served:
  assumes "b \<in> set disclosure_type_catalog"
  shows "mem_type c (ty_id b) (new_disc_mem now) = (Inr (dto_of 1 b), new_disc_mem now)"
    and "mem_type_version c (ty_id b) 1 (new_disc_mem now) = (Inr (dto_of 1 b), new_disc_mem now)"
    and "mem_versions c (ty_id b) (new_disc_mem now) = (Inr [seed_version now (ty_id b)], new_disc_mem now)"
  using seeded_fold [OF seed_ids_distinct assms, of now]
  by (simp_all add: seeded_as_def new_disc_mem_def mem_type_def mem_type_version_def mem_versions_def in_scope_def list_of_def
    newest_first_def)

text \<open>The seed obeys the matrix the validation asks for.\<close>

definition matrix_row :: "'a type_body_scheme \<Rightarrow> string \<times> string \<times> string" where
  "matrix_row b = (normalize_alias (ty_template_category b) template_category_aliases,
     normalize_alias (ty_periodicity b) periodicity_aliases, normalize_alias (ty_deadline_strategy b) deadline_strategy_aliases)"

lemma enums_normal:
  "normalize_alias TemplateCategoryPeriodic template_category_aliases = TemplateCategoryPeriodic"
  "normalize_alias TemplateCategoryIrregular template_category_aliases = TemplateCategoryIrregular"
  "normalize_alias TemplateCategoryCustom template_category_aliases = TemplateCategoryCustom"
  "normalize_alias PeriodicityMonthly periodicity_aliases = PeriodicityMonthly"
  "normalize_alias PeriodicityQuarterly periodicity_aliases = PeriodicityQuarterly"
  "normalize_alias PeriodicityYearly periodicity_aliases = PeriodicityYearly"
  "normalize_alias PeriodicityEventBased periodicity_aliases = PeriodicityEventBased"
  "normalize_alias DeadlineStrategyFixedCycleDays deadline_strategy_aliases = DeadlineStrategyFixedCycleDays"
  "normalize_alias DeadlineStrategyEventHours deadline_strategy_aliases = DeadlineStrategyEventHours"
  "normalize_alias DeadlineStrategyConfigurable deadline_strategy_aliases = DeadlineStrategyConfigurable"
  by code_simp+

lemma seed_valid_matrix:
  assumes "b \<in> set disclosure_type_catalog"
  shows "valid_matrix (normalize_enums b)"
proof -
  have "list_all (\<lambda>b. ty_deadline_rule b \<noteq> [] \<and> matrix_row b \<in> set accepted_matrix) disclosure_type_catalog"
    unfolding disclosure_type_catalog_def accepted_matrix_def
    by (simp only: list.pred_inject matrix_row_def type_body.select_convs enums_normal list.distinct append_is_Nil_conv list.set
      insertI1 insertI2 simp_thms not_False_eq_True)
  with assms have "ty_deadline_rule b \<noteq> []" "matrix_row b \<in> set accepted_matrix" by (simp_all add: list_all_iff)
  then show ?thesis by (simp add: valid_matrix_def normalize_enums_def matrix_row_def)
qed

end
