(* ===== verification/SavedTemplates.thy ===== *)
theory SavedTemplates
  imports DisclosureService
begin

section \<open>From the template form to the served template\<close>

text \<open>
  What \<^verbatim>\<open>UpsertTypeVersion\<close> of \<^verbatim>\<open>internal/disclosure/app/service.go\<close> promises of a form, field by field and
  block by block, stated on the form alone: the text of each mandatory block, the blocks that the form did not
  give, the other blocks as they came. The promise is then proved of what \<^verbatim>\<open>GetTypeDetail\<close> serves after the
  save over the MySQL tables.
\<close>

subsection \<open>The promise\<close>

text \<open>The narrative a form gives for a mandatory block: its column when that is not blank, else the text of the
  block of that key.\<close>

definition block_text :: "'a type_body_scheme \<Rightarrow> string \<Rightarrow> string" where
  "block_text req mk = (if trim_space (flat_string mk req) \<noteq> [] then trim_space (flat_string mk req)
     else case by_key (ty_blocks req) mk of None \<Rightarrow> [] | Some b \<Rightarrow> trim_space (tb_description b))"

definition blank_block :: "string \<Rightarrow> string \<Rightarrow> template_block" where
  "blank_block mk d = (case mandatory_shape mk of (title, bt, cfg) \<Rightarrow>
     \<lparr>tb_id = [], tb_key = mk, tb_type = bt, tb_title = title, tb_description = d, tb_config = cfg,
      tb_validation = [], tb_order = 0, tb_enabled = True\<rparr>)"

definition promised_block :: "'a type_body_scheme \<Rightarrow> string \<Rightarrow> template_block" where
  "promised_block req mk = (case by_key (ty_blocks req) mk of
       None \<Rightarrow> blank_block mk (block_text req mk)
     | Some b \<Rightarrow> (normal_block b)\<lparr>tb_description := block_text req mk\<rparr>)"

definition narrated :: "'a type_body_scheme \<Rightarrow> bool" where
  "narrated req = (ty_blocks req \<noteq> [] \<or> any_flat req)"

definition promised_blocks :: "'a type_body_scheme \<Rightarrow> template_block list" where
  "promised_blocks req = (if narrated req
     then map (promised_block req) mandatory_keys @ map normal_block (extra_blocks (ty_blocks req)) else [])"

text \<open>A block realises a promised one: the same content, the same identifier where one was given.\<close>

definition realises :: "template_block \<Rightarrow> template_block \<Rightarrow> bool" where
  "realises p b \<longleftrightarrow> tb_key b = tb_key p \<and> tb_type b = tb_type p \<and> tb_title b = tb_title p \<and>
     tb_description b = tb_description p \<and> tb_config b = tb_config p \<and> tb_validation b = tb_validation p \<and>
     tb_enabled b = tb_enabled p \<and> (tb_id p \<noteq> [] \<longrightarrow> tb_id b = tb_id p)"

definition promised_column :: "upsert_request \<Rightarrow> string \<Rightarrow> string \<Rightarrow> string" where
  "promised_column req mk raw = (if narrated req then block_text req mk else raw)"

definition promised_type :: "int \<Rightarrow> upsert_request \<Rightarrow> type_dto" where
  "promised_type n req = \<lparr>
     ty_id = trim_space (ty_id req), ty_group = trim_space (ty_group req), ty_name = trim_space (ty_name req),
     ty_category = trim_space (ty_category req),
     ty_template_category = normalize_alias (ty_template_category req) template_category_aliases,
     ty_deadline_strategy = normalize_alias (ty_deadline_strategy req) deadline_strategy_aliases,
     ty_description = ty_description req,
     ty_legal_basis = promised_column req ''legal_basis'' (ty_legal_basis req),
     ty_applicability = ty_applicability req,
     ty_impl_content = promised_column req ''enterprise_workflow'' (ty_impl_content req),
     ty_impl_notes = ty_impl_notes req, ty_special_cases = ty_special_cases req,
     ty_report_content = promised_column req ''disclosure_content'' (ty_report_content req),
     ty_required_docs = ty_required_docs req,
     ty_deadline_rule = promised_column req ''deadline'' [],
     ty_periodicity = normalize_alias (ty_periodicity req) periodicity_aliases,
     ty_channels = promised_column req ''channels_and_format'' (ty_channels req),
     ty_beneficiaries = ty_beneficiaries req, ty_authorities = ty_authorities req, ty_format = ty_format req,
     ty_legal_risks = promised_column req ''legal_risks'' (ty_legal_risks req),
     ty_general_info = ty_general_info req, ty_reminders = sanitize_strings [] (ty_reminders req),
     ty_legal_bases = sanitize_legal_bases (ty_legal_bases req), ty_checklist = sanitize_checklist (ty_checklist req),
     ty_tags = ty_tags req, ty_blocks = [], td_version = n\<rparr>"

subsection \<open>The blocks\<close>

lemma shape_normal:
  assumes "mk \<in> set mandatory_keys"
  shows "normal_block (blank_block mk d) = (blank_block mk d)\<lparr>tb_description := trim_space d\<rparr>"
proof -
  have "list_all (\<lambda>mk. case mandatory_shape mk of (title, bt, cfg) \<Rightarrow> trim_space title = title \<and> to_lower (trim_space bt) = bt)
    mandatory_keys" by code_simp
  with assms mandatory_key_normal [OF assms] show ?thesis
    by (auto simp: list_all_iff blank_block_def normal_block_def split: prod.splits)
qed

lemma new_mandatory_shape:
  "new_mandatory_block mk req ord g = (b, g') \<Longrightarrow>
    b = (blank_block mk (trim_space (flat_string mk req)))\<lparr>tb_id := tb_id b, tb_order := ord\<rparr>"
  by (auto simp: new_mandatory_block_def blank_block_def split: prod.splits)

lemma normal_block_fields [simp]:
  "normal_block (b\<lparr>tb_order := n\<rparr>) = (normal_block b)\<lparr>tb_order := n\<rparr>"
  "normal_block (b\<lparr>tb_id := i\<rparr>) = (normal_block b)\<lparr>tb_id := trim_space i\<rparr>"
  "normal_block (b\<lparr>tb_description := d\<rparr>) = (normal_block b)\<lparr>tb_description := trim_space d\<rparr>"
  by (simp_all add: normal_block_def)

lemma realises_refl: "realises b (b\<lparr>tb_order := n\<rparr>)"
  by (simp add: realises_def)

lemma blank_block_fields [simp]: "tb_id (blank_block mk d) = []" "tb_description (blank_block mk d) = d"
  "(blank_block mk d)\<lparr>tb_description := d'\<rparr> = blank_block mk d'" "tb_key (blank_block mk d) = mk"
  by (simp_all add: blank_block_def split: prod.split)

lemma with_id_realises:
  assumes "with_id b g = (b', g')"
  shows "realises (normal_block b) (normal_block (b'\<lparr>tb_order := n\<rparr>))"
proof (cases "trim_space (tb_id b) = []")
  case True
  then have "tb_id (normal_block b) = []" by (simp add: normal_block_def)
  moreover have "b' = b\<lparr>tb_id := tb_id b'\<rparr>" using assms True by (auto simp: with_id_def split: prod.splits)
  then have "normal_block b' = (normal_block b)\<lparr>tb_id := trim_space (tb_id b')\<rparr>" by (metis normal_block_fields(2))
  ultimately show ?thesis by (simp add: realises_def)
next
  case False
  with assms show ?thesis by (simp add: with_id_def realises_refl)
qed

lemma place_extras_realise:
  "place_extras es ord g = (bs, g') \<Longrightarrow> list_all2 realises (map normal_block es) (map normal_block bs)"
proof (induction es arbitrary: ord g bs)
  case (Cons b es)
  obtain b1 g1 where b: "with_id b g = (b1, g1)" by (cases "with_id b g")
  with Cons.prems obtain bs' where bs': "place_extras es (ord + 1) g1 = (bs', g')"
    and bs: "bs = b1\<lparr>tb_order := ord\<rparr> # bs'" by (auto split: prod.splits)
  show ?case unfolding bs using Cons.IH [OF bs'] with_id_realises [OF b] by simp
qed simp

lemma apply_flat_text:
  "by_key (ty_blocks req) mk = Some b \<Longrightarrow>
    normal_block (apply_flat mk b req) = (normal_block b)\<lparr>tb_description := block_text req mk\<rparr>"
  by (auto simp: apply_flat_def block_text_def normal_block_def)

lemma place_mandatory_realise:
  "place_mandatory mks req ord g = (bs, g') \<Longrightarrow> set mks \<subseteq> set mandatory_keys \<Longrightarrow>
    list_all2 realises (map (promised_block req) mks) (map normal_block bs)"
proof (induction mks arbitrary: ord g bs)
  case (Cons mk mks)
  define bg where "bg = (case by_key (ty_blocks req) mk of None \<Rightarrow> new_mandatory_block mk req ord g
    | Some b \<Rightarrow> with_id (apply_flat mk b req) g)"
  obtain b g1 where b: "bg = (b, g1)" by (cases bg)
  with Cons.prems obtain bs' where bs': "place_mandatory mks req (ord + 1) g1 = (bs', g')"
    and bs: "bs = b\<lparr>tb_order := ord\<rparr> # bs'" by (auto simp: bg_def split: prod.splits)
  have "realises (promised_block req mk) (normal_block (b\<lparr>tb_order := ord\<rparr>))"
  proof (cases "by_key (ty_blocks req) mk")
    case None
    then have "new_mandatory_block mk req ord g = (b, g1)" using b by (simp add: bg_def)
    from new_mandatory_shape [OF this] obtain i where
      i: "b = (blank_block mk (trim_space (flat_string mk req)))\<lparr>tb_id := i, tb_order := ord\<rparr>" by blast
    have "promised_block req mk = blank_block mk (trim_space (flat_string mk req))"
      using None by (simp add: promised_block_def block_text_def)
    then show ?thesis using shape_normal [of mk] Cons.prems(2) by (simp add: i realises_def)
  next
    case (Some c)
    then have "with_id (apply_flat mk c req) g = (b, g1)" using b by (simp add: bg_def)
    from with_id_realises [OF this, of ord] show ?thesis
      unfolding apply_flat_text [OF Some] promised_block_def Some option.case .
  qed
  then show ?case unfolding bs using Cons.IH [OF bs'] Cons.prems(2) by simp
qed simp

text \<open>Blocks made from the columns alone promise nothing more than the columns.\<close>

lemma materialized_blocks:
  "materialize mks req ord g = (bs, g') \<Longrightarrow> b \<in> set bs \<Longrightarrow>
    \<exists>mk i n. mk \<in> set mks \<and> b = (blank_block mk (trim_space (flat_string mk req)))\<lparr>tb_id := i, tb_order := n\<rparr>"
proof (induction mks arbitrary: ord g bs)
  case (Cons mk mks)
  obtain c g1 where c: "new_mandatory_block mk req ord g = (c, g1)" by (cases "new_mandatory_block mk req ord g")
  with Cons.prems(1) obtain bs' where bs': "materialize mks req (ord + 1) g1 = (bs', g')" and bs: "bs = c # bs'"
    by (auto split: prod.splits)
  show ?case
  proof (cases "b = c")
    case True
    with new_mandatory_shape [OF c] show ?thesis by (metis list.set_intros(1))
  next
    case False
    with Cons.prems(2) bs have "b \<in> set bs'" by simp
    with Cons.IH [OF bs'] show ?thesis by (meson list.set_intros(2))
  qed
qed simp

lemma flat_string_blocks: "flat_string mk (req\<lparr>ty_blocks := bs\<rparr>) = flat_string mk req"
  by (simp add: flat_string_def)

lemma promised_materialized:
  assumes "materialize mandatory_keys req 1 g = (bs, g')" and "ty_blocks req = []" and "fresh_ids g" and "mk \<in> set mandatory_keys"
    and "realises (promised_block (req\<lparr>ty_blocks := bs\<rparr>) mk) b"
  shows "realises (promised_block req mk) b"
proof -
  let ?r = "req\<lparr>ty_blocks := bs\<rparr>" let ?t = "trim_space (flat_string mk req)"
  have keys: "map block_key bs = mandatory_keys" using materialize_keys [OF assms(1) _ assms(3)] by simp
  then have "mk \<in> block_key ` set bs" using assms(4) by (metis image_set)
  then obtain c where c: "by_key bs mk = Some c" by (cases "by_key bs mk") (auto simp: by_key_None)
  then have "c \<in> set bs" "block_key c = mk" using by_key_Some by blast+
  from materialized_blocks [OF assms(1) this(1)] obtain k i n where
    k: "k \<in> set mandatory_keys" "c = (blank_block k (trim_space (flat_string k req)))\<lparr>tb_id := i, tb_order := n\<rparr>" by blast
  have "k = mk" using \<open>block_key c = mk\<close> mandatory_key_normal [OF k(1)] by (simp add: k(2) block_key_def)
  then have n: "normal_block c = (blank_block mk ?t)\<lparr>tb_id := trim_space i, tb_order := n\<rparr>"
    using k shape_normal [OF assms(4), of "?t"] by simp
  have "block_text ?r mk = ?t"
    using c by (simp add: block_text_def flat_string_blocks k(2) \<open>k = mk\<close>)
  then have "promised_block ?r mk = (blank_block mk ?t)\<lparr>tb_id := trim_space i, tb_order := n\<rparr>"
    using c n by (simp add: promised_block_def)
  moreover have "promised_block req mk = blank_block mk ?t"
    using assms(2) by (simp add: promised_block_def block_text_def)
  ultimately show ?thesis using assms(5) by (simp add: realises_def)
qed

lemma sync_realises:
  assumes "\<not> has_duplicate_keys [] (ty_blocks req)" and "narrated req" and "fresh_ids g"
    and "sync_template req g = (r, g')"
  shows "list_all2 realises (promised_blocks req) (map normal_block (ty_blocks r))"
proof -
  obtain r1 g1 r2 where e: "ensure_blocks req g = (r1, g1)" and rb: "rebuild_blocks r1 g1 = (r2, g')" and r: "r = mirror_flat r2"
    by (rule sync_decompose [OF assms(4,1,3) assms(2) [unfolded narrated_def]])
  note f = ensure_blocks_facts [OF e assms(1,3) assms(2) [unfolded narrated_def]]
  obtain ms g3 where ms: "place_mandatory mandatory_keys r1 1 g1 = (ms, g3)" by (cases "place_mandatory mandatory_keys r1 1 g1")
  with rb f obtain es where es: "place_extras (extra_blocks (ty_blocks r1)) (1 + int (length mandatory_keys)) g3 = (es, g')"
    and r2: "ty_blocks r2 = ms @ es" by (auto simp: rebuild_blocks_def split: prod.splits)
  have m: "list_all2 realises (map (promised_block r1) mandatory_keys) (map normal_block ms)"
    by (rule place_mandatory_realise [OF ms]) simp
  have "list_all2 realises (map (promised_block req) mandatory_keys) (map normal_block ms)"
  proof (cases "ty_blocks req = []")
    case True
    with e assms(2) obtain bs where b: "materialize mandatory_keys req 1 g = (bs, g1)" "r1 = req\<lparr>ty_blocks := bs\<rparr>"
      by (auto simp: ensure_blocks_def narrated_def split: prod.splits)
    show ?thesis
      using m unfolding b(2) list_all2_map1
      by (rule list.rel_mono_strong) (rule promised_materialized [OF b(1) True assms(3)])
  next
    case False
    with e have "r1 = req" by (auto simp: ensure_blocks_def)
    with m show ?thesis by simp
  qed
  moreover have "list_all2 realises (map normal_block (extra_blocks (ty_blocks req))) (map normal_block es)"
    using place_extras_realise [OF es] f by simp
  ultimately show ?thesis using assms(2) r r2 by (simp add: promised_blocks_def list_all2_appendI)
qed

subsection \<open>The columns\<close>

lemma promised_block_key: "mk \<in> set mandatory_keys \<Longrightarrow> tb_key (promised_block req mk) = mk"
  by (auto simp: promised_block_def dest: by_key_Some split: option.split)

lemma promised_block_text [simp]: "tb_description (promised_block req mk) = block_text req mk"
  by (simp add: promised_block_def split: option.split)

lemma sync_column:
  assumes "\<not> has_duplicate_keys [] (ty_blocks req)" and "narrated req" and "fresh_ids g"
    and "sync_template req g = (r, g')" and mk: "mk \<in> set mandatory_keys"
  shows "column mk r = block_text req mk"
proof -
  note n = sync_blocks_normal [OF assms(1) assms(2) [unfolded narrated_def] assms(3,4)]
  obtain i where i: "i < 6" "mandatory_keys ! i = mk"
    using mk distinct_mandatory_keys(2) by (metis in_set_conv_nth)
  have l: "list_all2 realises (promised_blocks req) (map normal_block (ty_blocks r))" by (rule sync_realises [OF assms(1-4)])
  then have len: "length (ty_blocks r) = length (promised_blocks req)" by (simp add: list_all2_lengthD)
  have "i < length (promised_blocks req)" using i(1) assms(2) distinct_mandatory_keys(2) by (simp add: promised_blocks_def)
  then have b: "realises (promised_blocks req ! i) (normal_block (ty_blocks r ! i))" "i < length (ty_blocks r)"
    using l len by (simp_all add: list_all2_conv_all_nth)
  have "promised_blocks req ! i = promised_block req mk"
    using i assms(2) distinct_mandatory_keys(2) by (simp add: promised_blocks_def nth_append)
  then have k: "block_key (ty_blocks r ! i) = mk" "trim_space (tb_description (ty_blocks r ! i)) = block_text req mk"
    using b(1) promised_block_key [OF mk, of req] by (simp_all add: realises_def normal_block_def block_key_def)
  have "by_key (ty_blocks r) mk = Some (ty_blocks r ! i)"
  proof -
    have "distinct (map block_key (ty_blocks r))" using n by blast
    from by_key_distinct [OF this nth_mem [OF b(2)]] show ?thesis unfolding k(1) .
  qed
  with n mk k(2) show ?thesis by (auto simp: list_all_iff)
qed

subsection \<open>The other fields\<close>

text \<open>A request without its narrative columns and its blocks, the only fields the synchronisation writes.\<close>

definition plain :: "upsert_request \<Rightarrow> upsert_request" where
  "plain req = req\<lparr>ty_legal_basis := [], ty_report_content := [], ty_deadline_rule := [], ty_channels := [],
     ty_legal_risks := [], ty_impl_content := [], ty_blocks := []\<rparr>"

lemma plain_fields:
  "ty_id (plain req) = ty_id req" "ty_group (plain req) = ty_group req" "ty_name (plain req) = ty_name req"
  "ty_category (plain req) = ty_category req" "ty_template_category (plain req) = ty_template_category req" "ty_deadline_strategy (plain req) = ty_deadline_strategy req"
  "ty_description (plain req) = ty_description req" "ty_applicability (plain req) = ty_applicability req" "ty_impl_notes (plain req) = ty_impl_notes req"
  "ty_special_cases (plain req) = ty_special_cases req" "ty_required_docs (plain req) = ty_required_docs req" "ty_periodicity (plain req) = ty_periodicity req"
  "ty_beneficiaries (plain req) = ty_beneficiaries req" "ty_authorities (plain req) = ty_authorities req" "ty_format (plain req) = ty_format req"
  "ty_general_info (plain req) = ty_general_info req" "ty_reminders (plain req) = ty_reminders req" "ty_legal_bases (plain req) = ty_legal_bases req"
  "ty_checklist (plain req) = ty_checklist req" "ty_tags (plain req) = ty_tags req" "up_subject (plain req) = up_subject req"
  "up_note (plain req) = up_note req"
  by (simp_all add: plain_def)

lemma plain_fieldsD:
  assumes "plain r = plain req"
  shows "ty_id r = ty_id req" and "ty_group r = ty_group req" and "ty_name r = ty_name req" and
    "ty_category r = ty_category req" and "ty_template_category r = ty_template_category req" and "ty_deadline_strategy r = ty_deadline_strategy req" and
    "ty_description r = ty_description req" and "ty_applicability r = ty_applicability req" and "ty_impl_notes r = ty_impl_notes req" and
    "ty_special_cases r = ty_special_cases req" and "ty_required_docs r = ty_required_docs req" and "ty_periodicity r = ty_periodicity req" and
    "ty_beneficiaries r = ty_beneficiaries req" and "ty_authorities r = ty_authorities req" and "ty_format r = ty_format req" and
    "ty_general_info r = ty_general_info req" and "ty_reminders r = ty_reminders req" and "ty_legal_bases r = ty_legal_bases req" and
    "ty_checklist r = ty_checklist req" and "ty_tags r = ty_tags req" and "up_subject r = up_subject req" and
    "up_note r = up_note req"
  by (metis assms plain_fields)+

lemma plain_set_flat: "plain (set_flat mk d req) = plain req"
  by (simp add: set_flat_def plain_def)

lemma plain_blocks: "plain (req\<lparr>ty_blocks := bs\<rparr>) = plain req"
  by (simp add: plain_def)

lemma plain_mirror: "plain (mirror_flat req) = plain req"
proof -
  have "plain (fold (mirror_step bs) mks r) = plain r" for bs mks r
    by (induction mks arbitrary: r) (simp_all add: mirror_step_def plain_set_flat split: option.split)
  then show ?thesis by (simp add: mirror_flat_def)
qed

lemma plain_sync:
  assumes "sync_template req g = (r, g')"
  shows "plain r = plain req"
proof -
  obtain r1 g1 where e: "ensure_blocks req g = (r1, g1)" by (cases "ensure_blocks req g")
  have 1: "plain r1 = plain req"
    using e by (auto simp: ensure_blocks_def plain_blocks split: if_splits prod.splits)
  obtain r2 g2 where b: "rebuild_blocks r1 g1 = (r2, g2)" by (cases "rebuild_blocks r1 g1")
  have 2: "plain r2 = plain r1"
    using b by (auto simp: rebuild_blocks_def plain_blocks split: if_splits prod.splits)
  have "r = r1 \<or> r = mirror_flat r2" using assms e b by (auto simp: sync_template_def split: if_splits)
  then show ?thesis using 1 2 plain_mirror by metis
qed

text \<open>The sanitised form promises what the form promises.\<close>

lemma sanitized_texts:
  "ty_blocks (sanitize_request req) = ty_blocks req"
  "trim_space (flat_string mk (sanitize_request req)) = trim_space (flat_string mk req)"
  "any_flat (sanitize_request req) = any_flat req"
  by (simp_all add: sanitize_request_def flat_string_def channels_and_format_def any_flat_def)

lemma sanitized_promise:
  "block_text (sanitize_request req) mk = block_text req mk" "narrated (sanitize_request req) = narrated req"
  "promised_blocks (sanitize_request req) = promised_blocks req"
  by (simp_all add: block_text_def narrated_def promised_blocks_def promised_block_def sanitized_texts cong: option.case_cong)

lemma accepted_distinct:
  assumes "sync_template req g = (r, g')" and "validate_template pf r = Inr v"
  shows "\<not> has_duplicate_keys [] (ty_blocks req)"
proof
  assume dup: "has_duplicate_keys [] (ty_blocks req)"
  then have "ty_blocks req \<noteq> []" by auto
  with assms(1) dup have "ty_blocks r = ty_blocks req" by (auto simp: sync_template_def ensure_blocks_def rebuild_blocks_def)
  with assms(2) \<open>ty_blocks req \<noteq> []\<close> have "distinct (map block_key (ty_blocks req))"
    by (simp add: validate_template_iff valid_blocks_def o_def)
  with dup distinct_no_duplicates [of "ty_blocks req" "[]"] show False by simp
qed

lemma accepted_columns:
  assumes sy: "sync_template (sanitize_request req) g = (r, g')" and nd: "\<not> has_duplicate_keys [] (ty_blocks req)" and "fresh_ids g"
  shows "ty_legal_basis r = promised_column req ''legal_basis'' (ty_legal_basis req)"
    "ty_report_content r = promised_column req ''disclosure_content'' (ty_report_content req)"
    "ty_deadline_rule r = promised_column req ''deadline'' []"
    "ty_channels r = promised_column req ''channels_and_format'' (ty_channels req)"
    "ty_legal_risks r = promised_column req ''legal_risks'' (ty_legal_risks req)"
    "ty_impl_content r = promised_column req ''enterprise_workflow'' (ty_impl_content req)"
proof -
  have "ty_legal_basis r = promised_column req ''legal_basis'' (ty_legal_basis req) \<and>
    ty_report_content r = promised_column req ''disclosure_content'' (ty_report_content req) \<and>
    ty_deadline_rule r = promised_column req ''deadline'' [] \<and>
    ty_channels r = promised_column req ''channels_and_format'' (ty_channels req) \<and>
    ty_legal_risks r = promised_column req ''legal_risks'' (ty_legal_risks req) \<and>
    ty_impl_content r = promised_column req ''enterprise_workflow'' (ty_impl_content req)"
  proof (cases "narrated req")
    case True
    have "column mk r = block_text req mk" if "mk \<in> set mandatory_keys" for mk
      using sync_column [OF _ _ assms(3) sy that] nd True by (simp add: sanitized_promise sanitized_texts)
    note c = this [of "''legal_basis''"] this [of "''disclosure_content''"] this [of "''deadline''"]
      this [of "''channels_and_format''"] this [of "''legal_risks''"] this [of "''enterprise_workflow''"]
    show ?thesis using c True by (simp add: mandatory_keys_def column_def flat_string_def promised_column_def)
  next
    case False
    then have "\<not> narrated (sanitize_request req)" by (simp add: sanitized_promise)
    then have "r = sanitize_request req" using sy by (auto simp: sync_template_def ensure_blocks_def narrated_def)
    moreover have "trim_space (ty_deadline_rule req) = []" using False by (simp add: narrated_def any_flat_def)
    ultimately show ?thesis using False by (simp add: promised_column_def sanitize_request_def)
  qed
  then show "ty_legal_basis r = promised_column req ''legal_basis'' (ty_legal_basis req)"
    "ty_report_content r = promised_column req ''disclosure_content'' (ty_report_content req)"
    "ty_deadline_rule r = promised_column req ''deadline'' []"
    "ty_channels r = promised_column req ''channels_and_format'' (ty_channels req)"
    "ty_legal_risks r = promised_column req ''legal_risks'' (ty_legal_risks req)"
    "ty_impl_content r = promised_column req ''enterprise_workflow'' (ty_impl_content req)"
    by blast+
qed

lemma normalize_alias_trim: "normalize_alias (trim_space x) al = normalize_alias x al"
  by (simp add: normalize_alias_def)

lemma sanitized_fields:
  "ty_id (sanitize_request req) = trim_space (ty_id req)" "ty_group (sanitize_request req) = trim_space (ty_group req)"
  "ty_name (sanitize_request req) = trim_space (ty_name req)" "ty_category (sanitize_request req) = trim_space (ty_category req)"
  "ty_template_category (sanitize_request req) = trim_space (ty_template_category req)"
  "ty_deadline_strategy (sanitize_request req) = trim_space (ty_deadline_strategy req)"
  "ty_periodicity (sanitize_request req) = trim_space (ty_periodicity req)"
  "ty_reminders (sanitize_request req) = sanitize_strings [] (ty_reminders req)"
  "ty_legal_bases (sanitize_request req) = sanitize_legal_bases (ty_legal_bases req)"
  "ty_checklist (sanitize_request req) = sanitize_checklist (ty_checklist req)"
  "ty_description (sanitize_request req) = ty_description req" "ty_applicability (sanitize_request req) = ty_applicability req"
  "ty_impl_notes (sanitize_request req) = ty_impl_notes req" "ty_special_cases (sanitize_request req) = ty_special_cases req"
  "ty_required_docs (sanitize_request req) = ty_required_docs req" "ty_beneficiaries (sanitize_request req) = ty_beneficiaries req"
  "ty_authorities (sanitize_request req) = ty_authorities req" "ty_format (sanitize_request req) = ty_format req"
  "ty_general_info (sanitize_request req) = ty_general_info req" "ty_tags (sanitize_request req) = ty_tags req"
  by (simp_all add: sanitize_request_def)

lemma accepted_type:
  assumes sy: "sync_template (sanitize_request req) g = (req1, g')" and va: "validate_template pf req1 = Inr req2" and "fresh_ids g"
  shows "(dto_of n req2)\<lparr>ty_blocks := []\<rparr> = promised_type n req"
    and "list_all2 realises (promised_blocks req) (ty_blocks req2)"
    and "map tb_order (ty_blocks req2) = [1..int (length (ty_blocks req2))]"
proof -
  have v: "req2 = (normalize_enums req1)\<lparr>ty_blocks := map normal_block (ty_blocks req1)\<rparr>"
    using va by (simp add: validate_template_iff)
  have nd: "\<not> has_duplicate_keys [] (ty_blocks req)"
    using accepted_distinct [OF sy va] by (simp add: sanitized_texts)
  note f = plain_fieldsD [OF plain_sync [OF sy]] and c = accepted_columns [OF sy nd assms(3)]
  show "(dto_of n req2)\<lparr>ty_blocks := []\<rparr> = promised_type n req"
    unfolding v by (simp add: dto_of_def promised_type_def normalize_enums_def f c sanitized_fields normalize_alias_trim)
  have b: "ty_blocks req2 = map normal_block (ty_blocks req1)" by (simp add: v)
  have "list_all2 realises (promised_blocks req) (ty_blocks req2) \<and>
    map tb_order (ty_blocks req2) = [1..int (length (ty_blocks req2))]"
  proof (cases "narrated req")
    case True
    then have n: "narrated (sanitize_request req)" by (simp add: sanitized_promise)
    have d: "\<not> has_duplicate_keys [] (ty_blocks (sanitize_request req))" using nd by (simp add: sanitized_texts)
    have "list_all2 realises (promised_blocks req) (ty_blocks req2)"
      using sync_realises [OF d n assms(3) sy] unfolding b by (simp add: sanitized_promise)
    moreover have "map tb_order (ty_blocks req1) = [1..int (length (ty_blocks req1))]"
      using sync_blocks_normal [OF d n [unfolded narrated_def] assms(3) sy] by blast
    ultimately show ?thesis by (simp add: b o_def)
  next
    case False
    then have "\<not> narrated (sanitize_request req)" by (simp add: sanitized_promise)
    then have "ty_blocks req1 = []" using sy by (auto simp: sync_template_def ensure_blocks_def narrated_def)
    with False show ?thesis by (simp add: b promised_blocks_def)
  qed
  then show "list_all2 realises (promised_blocks req) (ty_blocks req2)"
    and "map tb_order (ty_blocks req2) = [1..int (length (ty_blocks req2))]" by blast+
qed

subsection \<open>Properties\<close>

text \<open>C10: what the template editor saves is what the catalog serves. After UpsertTypeVersion of a form succeeds
  on the MySQL tables, GetTypeDetail answers the same company with the new version of that form, field by
  field: name, group, category, free texts and lists as given (trimmed, lists without blanks and repeats,
  enumerations by their canonical name), each narrative column with the text of its mandatory block (the
  form's column, or the block's text where the column is blank), the six mandatory blocks first, kept from the
  form or made from its columns, then the other blocks of the form with their content, in order, numbered
  from 1; the whole satisfies the declarative specification of a template, and every call of GetTypeDetail by a
  subject of the company that is answered gets exactly it.\<close>

theorem saved_template_is_served:
  assumes "db_catalog_ok (svc_repo s)" and "fresh_ids (svc_ids s)" and "de_port env = sql_disclosure lower_like"
    and "sub_company (up_subject req) \<noteq> []" and "trim_space (sub_company (up_subject req)) = sub_company (up_subject req)"
    and "upsert_type_version env req s = (Inr rp, s')"
  shows "\<exists>d. sql_type (sub_company (up_subject req)) (trim_space (ty_id req)) (svc_repo s') = (Inr d, svc_repo s') \<and>
    d\<lparr>ty_blocks := []\<rparr> = promised_type (vp_version rp) req \<and>
    list_all2 realises (promised_blocks req) (ty_blocks d) \<and>
    map tb_order (ty_blocks d) = [1..int (length (ty_blocks d))] \<and>
    valid_matrix d \<and> valid_blocks (de_parse_float env) (ty_blocks d) \<and>
    (\<forall>sub d' u. sub_company sub = sub_company (up_subject req) \<longrightarrow>
      get_type_detail env sub (trim_space (ty_id req)) s' = (Inr d', u) \<longrightarrow> d' = d)"
proof -
  obtain req1 g' req2 t where sy: "sync_template (sanitize_request req) (svc_ids s) = (req1, g')"
    and va: "validate_template (de_parse_float env) req1 = Inr req2"
    and up: "dp_upsert (de_port env) (de_now env) req2 (svc_repo s) = (Inr rp, t)" and s': "svc_repo s' = t"
    by (rule upsert_decompose [OF assms(6)])
  have snd: "sendable req2" "up_subject req2 = up_subject req" "ty_id req2 = trim_space (ty_id req)"
    using sendable_upsert [OF sy va assms(2,4,5)] by simp_all
  have "sql_upsert (de_now env) req2 (svc_repo s) = (Inr rp, t)" using up assms(3) by (simp add: sql_disclosure_def)
  then have "sql_type (sub_company (up_subject req)) (trim_space (ty_id req)) t = (Inr (dto_of (vp_version rp) req2), t)"
    using sql_upsert_detail [OF assms(1) snd(1)] snd(2,3) by simp
  moreover have "valid_blocks (de_parse_float env) (ty_blocks req2)" using va by (simp add: validate_template_iff)
  note valid_blocks_normalised [OF this va, of "vp_version rp"]
  moreover have "ty_blocks (dto_of (vp_version rp) req2) = ty_blocks req2" by (simp add: dto_of_def)
  moreover have "d' = dto_of (vp_version rp) req2"
    if "sub_company sub = sub_company (up_subject req)" and "get_type_detail env sub (trim_space (ty_id req)) s' = (Inr d', u)"
    for sub d' u
    using that calculation(1) s' assms(3)
    by (auto simp: get_type_detail_def require_catalog_read_def seq_iffs on_repo_run sql_disclosure_def
      dest!: disc_authorize_frame split: if_splits)
  ultimately show ?thesis using s' accepted_type [OF sy va assms(2)] by auto
qed

definition wit_form :: upsert_request where
  "wit_form = wit_request\<lparr>up_subject := wit_admin, ty_deadline_rule := ''20 days'', ty_blocks := []\<rparr>"

definition wit_synced :: upsert_request where
  "wit_synced = fst (sync_template (sanitize_request wit_form) tally_ids)"

definition wit_sent :: upsert_request where
  "wit_sent = (normalize_enums wit_synced)\<lparr>ty_blocks := map normal_block (ty_blocks wit_synced)\<rparr>"

lemma wit_validated: "validate_template (\<lambda>_. None) wit_synced = Inr wit_sent"
proof -
  let ?req = "sanitize_request wit_form"
  have "\<not> has_duplicate_keys [] (ty_blocks ?req)" "ty_blocks ?req \<noteq> [] \<or> any_flat ?req" "ty_blocks ?req = []" by code_simp+
  note s = sync_accepts [OF this(1,2) fresh_tally_ids surjective_pairing, of "\<lambda>_. None", folded wit_synced_def]
  have "valid_matrix (normalize_enums wit_synced)" by code_simp
  with s \<open>ty_blocks ?req = []\<close> show ?thesis by (auto simp: validate_template_iff wit_sent_def)
qed

lemma wit_stored: "sql_upsert 1767225600 wit_sent wit_db =
  (Inr (wit_reply 1 1767225600\<lparr>vp_by := ''u_admin''\<rparr>), snd (sql_upsert 1767225600 wit_sent wit_db))"
proof -
  have "fst (sql_upsert 1767225600 wit_sent wit_db) = Inr (wit_reply 1 1767225600\<lparr>vp_by := ''u_admin''\<rparr>)" by code_simp
  then show ?thesis by (metis prod.collapse)
qed

lemma wit_saved: "\<exists>t. upsert_type_version wit_disc_env wit_form wit_disc_state =
  (Inr (wit_reply 1 1767225600\<lparr>vp_by := ''u_admin''\<rparr>), t)"
proof -
  let ?req = "sanitize_request wit_form"
  have a: "up_subject wit_form = wit_admin" "trim_space (sub_membership wit_admin) \<noteq> []" "trim_space (sub_company wit_admin) \<noteq> []"
    by code_simp+
  then have m: "require_manage wit_disc_env (up_subject wit_form) wit_disc_state = (Inr (), wit_disc_state)"
    by (simp add: require_manage_def has_permission_def get_effective_access_def seqE_def wit_disc_env_def wit_grants_def)
  have c: "ty_id ?req \<noteq> []" "ty_group ?req \<noteq> []" "ty_name ?req \<noteq> []" by code_simp+
  obtain g' where g: "sync_template ?req (svc_ids wit_disc_state) = (wit_synced, g')"
    by (simp add: wit_disc_state_def) (metis wit_synced_def prod.collapse)
  have v: "validate_template (de_parse_float wit_disc_env) wit_synced = Inr wit_sent"
    by (simp add: wit_disc_env_def wit_validated)
  have u: "dp_upsert (de_port wit_disc_env) (de_now wit_disc_env) wit_sent (svc_repo wit_disc_state) =
    (Inr (wit_reply 1 1767225600\<lparr>vp_by := ''u_admin''\<rparr>), snd (sql_upsert 1767225600 wit_sent wit_db))"
    by (simp add: wit_disc_env_def wit_disc_state_def sql_disclosure_def wit_stored [symmetric])
  show ?thesis using upsert_compose [OF m c g v u] by blast
qed

theorem saved_template_is_served_witness:
  "\<exists>t d. fst (sql_type ''c_001'' ''dt-1'' t) = Inr d \<and> td_version d = 1 \<and> ty_name d = ty_name wit_form \<and>
    ty_deadline_rule d = ''20 days'' \<and> length (ty_blocks d) = 6 \<and> valid_matrix d \<and> valid_blocks (\<lambda>_. None) (ty_blocks d)"
proof -
  obtain t where run: "upsert_type_version wit_disc_env wit_form wit_disc_state =
    (Inr (wit_reply 1 1767225600\<lparr>vp_by := ''u_admin''\<rparr>), t)" using wit_saved by blast
  have c: "sub_company (up_subject wit_form) = ''c_001''" "trim_space (ty_id wit_form) = ''dt-1''"
    "trim_space (sub_company (up_subject wit_form)) = sub_company (up_subject wit_form)"
    "trim_space (ty_name wit_form) = ty_name wit_form" "length (promised_blocks wit_form) = 6"
    "promised_column wit_form ''deadline'' [] = ''20 days''" by code_simp+
  have i: "db_catalog_ok (svc_repo wit_disc_state)" "fresh_ids (svc_ids wit_disc_state)"
    by (simp_all add: wit_disc_state_def wit_db_ok fresh_tally_ids)
  have e: "de_port wit_disc_env = sql_disclosure (\<lambda>x p. True)" "de_parse_float wit_disc_env = (\<lambda>_. None)"
    by (simp_all add: wit_disc_env_def)
  from saved_template_is_served [OF i e(1) _ c(3) run] obtain d where
    d: "sql_type ''c_001'' ''dt-1'' (svc_repo t) = (Inr d, svc_repo t)" "d\<lparr>ty_blocks := []\<rparr> = promised_type 1 wit_form"
    "list_all2 realises (promised_blocks wit_form) (ty_blocks d)" "valid_matrix d" "valid_blocks (\<lambda>_. None) (ty_blocks d)"
    by (auto simp: c(1,2) e(2) wit_reply_def)
  have "ty_name d = ty_name (d\<lparr>ty_blocks := []\<rparr>)" "ty_deadline_rule d = ty_deadline_rule (d\<lparr>ty_blocks := []\<rparr>)"
    "td_version d = td_version (d\<lparr>ty_blocks := []\<rparr>)" by simp_all
  then have "ty_name d = ty_name wit_form" "ty_deadline_rule d = ''20 days''" "td_version d = 1"
    unfolding d(2) by (simp_all add: promised_type_def c)
  moreover have "length (ty_blocks d) = 6" using list_all2_lengthD [OF d(3)] c(5) by simp
  ultimately show ?thesis using d by (intro exI [of _ "svc_repo t"] exI [of _ d]) simp
qed

end
