(* ===== verification/OrgTables.thy ===== *)
theory OrgTables
  imports Memberships Sql Authorization
begin

section \<open>The organisation tables and what the authorizer reads from them\<close>

text \<open>
  The rows of companies, memberships, roles, departments, titles and grants, and the MySQL reads of
  \<^verbatim>\<open>internal/authorization/infra/mysql/repository.go\<close>, which collect the effective access of a
  membership. A role without a company is global. Parameters: \<open>rank\<close>, the collation key the
  database sorts and compares text by, and \<open>lower\<close>, its LOWER. No migration creates the table of
  action policies: \<open>None\<close> stands for the missing table, on which the code falls back to a fixed map.
  Statements do not fail for reasons outside the data.
\<close>

subsection \<open>Rows\<close>

text \<open>A role, department or title.\<close>

record org_row =
  og_id :: string
  og_company :: "string option"
  og_code :: string
  og_name :: string
  og_status :: string

record permission_row =
  pm_id :: string
  pm_code :: string
  pm_status :: string

record grant_row =
  gr_role :: string
  gr_permission :: string
  gr_status :: string

record assignment_row =
  as_company :: string
  as_kind :: string
  as_assignee :: string
  as_type :: string
  as_resource :: string
  as_status :: string

record duty_row =
  du_company :: string
  du_membership :: string
  du_code :: string

record unit_row =
  un_id :: string
  un_company :: string
  un_status :: string

record policy_row =
  pl_company :: "string option"
  pl_status :: string
  pl_policy :: action_policy

record org_db =
  od_companies :: "(string \<times> string) list"
  od_memberships :: "membership_row list"
  od_roles :: "org_row list"
  od_deps :: "org_row list"
  od_titles :: "org_row list"
  od_role_links :: "link_row list"
  od_dep_links :: "link_row list"
  od_title_links :: "link_row list"
  od_permissions :: "permission_row list"
  od_grants :: "grant_row list"
  od_assignments :: "assignment_row list"
  od_duties :: "duty_row list"
  od_units :: "unit_row list"
  od_unit_links :: "link_row list"
  od_closure :: "(string \<times> string) list"
  od_policies :: "policy_row list option"

text \<open>The columns the membership queries read.\<close>

definition members_of :: "org_db \<Rightarrow> member_db" where
  "members_of db = (let by_code = map (\<lambda>r. \<lparr>nr_id = og_id r, nr_name = og_code r, nr_status = og_status r\<rparr>);
       named = map (\<lambda>r. \<lparr>nr_id = og_id r, nr_name = og_name r, nr_status = og_status r\<rparr>) in
     \<lparr>md_companies = od_companies db, md_memberships = od_memberships db, md_roles = by_code (od_roles db),
      md_role_links = od_role_links db, md_deps = named (od_deps db), md_dep_links = od_dep_links db,
      md_titles = named (od_titles db), md_title_links = od_title_links db\<rparr>)"

subsection \<open>The reads of the authorizer\<close>

definition active_links :: "link_row list \<Rightarrow> string \<Rightarrow> string list" where
  "active_links links m = map lk_target (filter (\<lambda>l. lk_membership l = m \<and> lk_status l = ''active'') links)"

definition active_roles :: "org_db \<Rightarrow> string \<Rightarrow> string \<Rightarrow> string list" where
  "active_roles db m c = map og_id (concat (map (\<lambda>i. filter (\<lambda>r. og_id r = i \<and> og_status r = ''active'' \<and>
       (og_company r = None \<or> og_company r = Some c)) (od_roles db)) (active_links (od_role_links db) m)))"

definition role_permissions :: "org_db \<Rightarrow> string \<Rightarrow> string list" where
  "role_permissions db r = map pm_code (concat (map (\<lambda>g. filter (\<lambda>p. pm_id p = gr_permission g \<and> pm_status p = ''active'')
       (od_permissions db)) (filter (\<lambda>g. gr_role g = r \<and> gr_status g = ''active'') (od_grants db))))"

definition has_membership :: "org_db \<Rightarrow> string \<Rightarrow> string \<Rightarrow> bool" where
  "has_membership db m c = list_ex (\<lambda>x. mb_id x = m \<and> mb_company x = c) (od_memberships db)"

definition sql_permission_codes :: "(string \<Rightarrow> string) \<Rightarrow> org_db \<Rightarrow> string \<Rightarrow> string \<Rightarrow> go_error + string list" where
  "sql_permission_codes rank db m c = Inr (if has_membership db m c
     then sort_key rank (remdups (concat (map (role_permissions db) (active_roles db m c)))) else [])"

definition sql_department_scopes :: "(string \<Rightarrow> string) \<Rightarrow> org_db \<Rightarrow> string \<Rightarrow> string \<Rightarrow> go_error + department_scope list" where
  "sql_department_scopes rank db m c = Inr (map (\<lambda>r. \<lparr>dep_id = og_id r, dep_name = og_name r\<rparr>)
     (sort_key (\<lambda>r. rank (og_name r)) (concat (map (\<lambda>i. filter (\<lambda>r. og_id r = i \<and> og_company r = Some c \<and> og_status r = ''active'')
       (od_deps db)) (active_links (od_dep_links db) m)))))"

definition sql_assignments :: "(string \<Rightarrow> string) \<Rightarrow> org_db \<Rightarrow> string \<Rightarrow> string \<Rightarrow> go_error + assignment list" where
  "sql_assignments rank db m c = Inr (map (\<lambda>a. \<lparr>asg_type = as_type a, asg_id = as_resource a\<rparr>)
     (sort_key (\<lambda>a. (rank (as_type a), rank (as_resource a))) (filter (\<lambda>a. as_company a = c \<and> as_kind a = ''membership'' \<and>
       as_assignee a = m \<and> as_status a = ''active'') (od_assignments db))))"

definition sql_responsibilities :: "(string \<Rightarrow> string) \<Rightarrow> org_db \<Rightarrow> string \<Rightarrow> string \<Rightarrow> go_error + string list" where
  "sql_responsibilities rank db m c = Inr (sort_key rank (map du_code
     (filter (\<lambda>d. du_company d = c \<and> du_membership d = m) (od_duties db))))"

definition sql_positions :: "(string \<Rightarrow> string) \<Rightarrow> (string \<Rightarrow> string) \<Rightarrow> org_db \<Rightarrow> string \<Rightarrow> string \<Rightarrow> go_error + string list" where
  "sql_positions rank lower db m c = Inr (sort_key rank (remdups (map (\<lambda>t. lower (og_code t))
     (concat (map (\<lambda>i. filter (\<lambda>t. og_id t = i \<and> og_company t = Some c \<and> og_status t = ''active'') (od_titles db))
       (active_links (od_title_links db) m))))))"

definition live_unit :: "org_db \<Rightarrow> string \<Rightarrow> string \<Rightarrow> bool" where
  "live_unit db c u = list_ex (\<lambda>x. un_id x = u \<and> un_company x = c \<and> un_status x = ''active'') (od_units db)"

definition sql_org_units :: "(string \<Rightarrow> string) \<Rightarrow> org_db \<Rightarrow> string \<Rightarrow> string \<Rightarrow> go_error + string list" where
  "sql_org_units rank db m c = Inr (sort_key rank (remdups (filter (live_unit db c) (active_links (od_unit_links db) m))))"

definition sql_org_subtree :: "(string \<Rightarrow> string) \<Rightarrow> org_db \<Rightarrow> string \<Rightarrow> string \<Rightarrow> go_error + string list" where
  "sql_org_subtree rank db m c = Inr (sort_key rank (remdups (filter (live_unit db c)
     (concat (map (\<lambda>u. map snd (filter (\<lambda>e. fst e = u) (od_closure db))) (active_links (od_unit_links db) m))))))"

subsection \<open>Action policies\<close>

definition admin_actions :: "string list" where
  "admin_actions = [''admin.membership.create'', ''admin.membership.update'', ''admin.membership.delete'',
     ''admin.membership.list'', ''admin.membership.role.assign'', ''admin.membership.role.remove'',
     ''admin.membership.department.assign'', ''admin.membership.department.remove'',
     ''admin.membership.title.assign'', ''admin.membership.title.remove'', ''admin.permissions.list'',
     ''admin.roles.list'', ''admin.role.permission.assign'', ''admin.role.permission.remove'',
     ''admin.resource_scope_rule.create'', ''admin.workflow_assignee_rule.create'', ''admin.notification_rule.create'']"

definition legacy_required :: "(string \<times> string) list" where
  "legacy_required = [
     (''disclosure.approve'', ''disclosure.approve''), (''disclosure.view'', ''disclosure.view''),
     (''disclosure.create'', ''disclosure.create''), (''disclosure.update'', ''disclosure.edit''),
     (''disclosure.edit'', ''disclosure.edit''), (''disclosure.submit'', ''disclosure.publish''),
     (''workflow.create'', ''deadline.create''), (''workflow.review'', ''deadline.assign''),
     (''workflow.confirm'', ''workflow.step.confirm''), (''workflow.override'', ''workflow.step.override''),
     (''workflow.resolve_assignees'', ''deadline.create''), (''notification.enqueue'', ''alert.channels.manage''),
     (''notification.dispatch'', ''alert.channels.manage''), (''notification.resolve_recipients'', ''alert.channels.manage''),
     (''dashboard.view'', ''dashboard.view'')] @ map (\<lambda>a. (a, ''rbac.manage'')) admin_actions"

definition legacy_policy :: "string \<Rightarrow> action_policy" where
  "legacy_policy action = mk_policy action (case map_of legacy_required action of None \<Rightarrow> ''system.settings'' | Some p \<Rightarrow> p)
     ''*'' ''permission_denied''"

text \<open>The row of the company comes before the global one.\<close>

definition sql_action_policy :: "org_db \<Rightarrow> policy_source" where
  "sql_action_policy db c action =
    (let a = trim_space action in
     case od_policies db of None \<Rightarrow> Inr (legacy_policy a)
     | Some rows \<Rightarrow>
       (let hits = filter (\<lambda>p. pl_status p = ''active'' \<and> ap_action (pl_policy p) = a) rows in
        case filter (\<lambda>p. pl_company p = Some c) hits @ filter (\<lambda>p. pl_company p = None) hits of
          [] \<Rightarrow> Inr (legacy_policy a)
        | p # _ \<Rightarrow> Inr (pl_policy p)))"

definition sql_authz :: "(string \<Rightarrow> string) \<Rightarrow> (string \<Rightarrow> string) \<Rightarrow> org_db \<Rightarrow> authz_repo" where
  "sql_authz rank lower db = \<lparr>ar_permissions = sql_permission_codes rank db, ar_departments = sql_department_scopes rank db,
     ar_assignments = sql_assignments rank db, ar_responsibilities = sql_responsibilities rank db,
     ar_positions = sql_positions rank lower db, ar_org_units = sql_org_units rank db, ar_org_subtree = sql_org_subtree rank db,
     ar_policy = sql_action_policy db\<rparr>"

subsection \<open>What the reads depend on\<close>

lemma legacy_admin:
  assumes "a \<in> set admin_actions"
  shows "ap_required (legacy_policy a) = ''rbac.manage''"
proof -
  have "list_all (\<lambda>a. map_of legacy_required a = Some ''rbac.manage'') admin_actions" by code_simp
  with assms show ?thesis by (simp add: list_all_iff legacy_policy_def mk_policy_def)
qed

lemma set_active_links: "i \<in> set (active_links links m) \<longleftrightarrow> (\<exists>l \<in> set links. lk_membership l = m \<and> lk_status l = ''active'' \<and> lk_target l = i)"
  by (auto simp: active_links_def)

lemma set_active_roles: "r \<in> set (active_roles db m c) \<longleftrightarrow> r \<in> set (active_links (od_role_links db) m) \<and>
    (\<exists>x \<in> set (od_roles db). og_id x = r \<and> og_status x = ''active'' \<and> (og_company x = None \<or> og_company x = Some c))"
  by (auto simp: active_roles_def)

lemma set_permission_codes: "sql_permission_codes rank db m c = Inr ps \<Longrightarrow> has_membership db m c \<Longrightarrow>
    set ps = (\<Union>r \<in> set (active_roles db m c). set (role_permissions db r))"
  by (auto simp: sql_permission_codes_def)

end
