(* ===== verification/AdminStore.thy ===== *)
theory AdminStore
  imports OrgTables Credentials
begin

section \<open>The repositories of the company administration\<close>

text \<open>
  Models the port \<open>AdminRepository\<close> of \<^verbatim>\<open>internal/companyaccess/app/admin.go\<close> and its two
  providers: the maps of \<^verbatim>\<open>infra/inmemory/admin_repository.go\<close> and the statements of
  \<^verbatim>\<open>infra/mysql/admin_repository.go\<close> on the organisation tables. Parameters: the orders in which
  a range visits the maps, the collation key \<open>rank\<close>, and \<open>fmtv\<close>, which prints a payload value
  that is neither a string nor nil. Identifiers of credentials and rules are random and do not
  clash. The locale \<open>admin_store\<close> states what both promise about memberships and their links.
\<close>

subsection \<open>The port\<close>

record user_view =
  uv_id :: string
  uv_login :: string
  uv_name :: string
  uv_email :: string
  uv_phone :: string
  uv_status :: string
  uv_membership :: string
  uv_mstatus :: string
  uv_company :: string
  uv_cname :: string

record user_options =
  uo_membership :: string
  uo_company :: string
  uo_status :: string

record 'r admin_port =
  an_create_user :: "int \<Rightarrow> user_view \<Rightarrow> string \<Rightarrow> user_options \<Rightarrow> (go_error, 'r, user_view) action"
  an_create_membership :: "membership_view \<Rightarrow> (go_error, 'r, membership_view) action"
  an_update_status :: "string \<Rightarrow> string \<Rightarrow> (go_error, 'r, membership_view) action"
  an_delete :: "string \<Rightarrow> (go_error, 'r, unit) action"
  an_list :: "string \<Rightarrow> (go_error, 'r, membership_view list) action"
  an_add_role :: "string \<Rightarrow> string \<Rightarrow> (go_error, 'r, unit) action"
  an_remove_role :: "string \<Rightarrow> string \<Rightarrow> (go_error, 'r, unit) action"
  an_add_dep :: "string \<Rightarrow> string \<Rightarrow> (go_error, 'r, unit) action"
  an_remove_dep :: "string \<Rightarrow> string \<Rightarrow> (go_error, 'r, unit) action"
  an_add_title :: "string \<Rightarrow> string \<Rightarrow> (go_error, 'r, unit) action"
  an_remove_title :: "string \<Rightarrow> string \<Rightarrow> (go_error, 'r, unit) action"
  an_permissions :: "(go_error, 'r, string list) action"
  an_roles :: "string \<Rightarrow> (go_error, 'r, string list) action"
  an_add_permission :: "string \<Rightarrow> string \<Rightarrow> (go_error, 'r, unit) action"
  an_remove_permission :: "string \<Rightarrow> string \<Rightarrow> (go_error, 'r, unit) action"
  an_scope_rule :: "attrs \<Rightarrow> (go_error, 'r, unit) action"
  an_assignee_rule :: "attrs \<Rightarrow> (go_error, 'r, unit) action"
  an_notice_rule :: "attrs \<Rightarrow> (go_error, 'r, unit) action"

definition missing_membership :: go_error where
  "missing_membership = new_http_error 404 CodeMembershipNotFound ''membership not found''"

definition state_conflict :: "string \<Rightarrow> go_error" where
  "state_conflict msg = new_http_error 409 CodeStateConflict msg"

subsection \<open>In memory\<close>

text \<open>A map of sets: an absent set is the empty one.\<close>

type_synonym link_map = "string \<Rightarrow> string set"

record admin_mem =
  am_users :: "string \<rightharpoonup> user_view"
  am_logins :: "string \<rightharpoonup> string"
  am_hashes :: "string \<rightharpoonup> string"
  am_members :: "string \<rightharpoonup> membership_view"
  am_roles :: link_map
  am_deps :: link_map
  am_titles :: link_map
  am_permissions :: "string set"
  am_role_ids :: "string set"
  am_grants :: link_map
  am_scope_rules :: "attrs list"
  am_assignee_rules :: "attrs list"
  am_notice_rules :: "attrs list"

definition new_admin_mem :: admin_mem where
  "new_admin_mem = \<lparr>am_users = Map.empty, am_logins = Map.empty, am_hashes = Map.empty, am_members = Map.empty,
     am_roles = (\<lambda>_. {}), am_deps = (\<lambda>_. {}), am_titles = (\<lambda>_. {}),
     am_permissions = {''dashboard.view'', ''disclosure.view'', ''disclosure.approve'', ''rbac.manage'', ''system.settings''},
     am_role_ids = {''company_admin'', ''disclosure_approver'', ''department_staff''}, am_grants = (\<lambda>_. {}),
     am_scope_rules = [], am_assignee_rules = [], am_notice_rules = []\<rparr>"

definition mem_create_user :: "user_view \<Rightarrow> string \<Rightarrow> user_options \<Rightarrow> (go_error, admin_mem, user_view) action" where
  "mem_create_user u h opts s =
    (if (case am_logins s (uv_login u) of None \<Rightarrow> False | Some i \<Rightarrow> i \<noteq> []) then (Inl (state_conflict ''login_id already exists''), s)
     else let s1 = s\<lparr>am_users := (am_users s)(uv_id u \<mapsto> u), am_logins := (am_logins s)(uv_login u \<mapsto> uv_id u),
                     am_hashes := (am_hashes s)(uv_id u \<mapsto> h)\<rparr> in
       if uo_company opts = [] then (Inr u, s1)
       else let st = (if uo_status opts = [] then ''active'' else uo_status opts);
                m = \<lparr>mv_id = uo_membership opts, mv_user = uv_id u, mv_company = uo_company opts, mv_name = uo_company opts, mv_status = st\<rparr>
            in (Inr (u\<lparr>uv_membership := mv_id m, uv_mstatus := st, uv_company := mv_company m, uv_cname := mv_name m\<rparr>),
                s1\<lparr>am_members := (am_members s1)(mv_id m \<mapsto> m)\<rparr>))"

definition mem_create_membership :: "membership_view \<Rightarrow> (go_error, admin_mem, membership_view) action" where
  "mem_create_membership m s = (Inr m, s\<lparr>am_members := (am_members s)(mv_id m \<mapsto> m)\<rparr>)"

text \<open>An absent key reads as the zero value, which is then stored.\<close>

definition zero_membership :: membership_view where
  "zero_membership = \<lparr>mv_id = [], mv_user = [], mv_company = [], mv_name = [], mv_status = []\<rparr>"

definition mem_update_status :: "string \<Rightarrow> string \<Rightarrow> (go_error, admin_mem, membership_view) action" where
  "mem_update_status i st s =
    (let m = (case am_members s i of None \<Rightarrow> zero_membership | Some m \<Rightarrow> m)\<lparr>mv_status := st\<rparr>
     in (Inr m, s\<lparr>am_members := (am_members s)(i \<mapsto> m)\<rparr>))"

definition mem_delete :: "string \<Rightarrow> (go_error, admin_mem, unit) action" where
  "mem_delete i s = (Inr (), s\<lparr>am_members := (am_members s)(i := None)\<rparr>)"

definition mem_company_members :: "((string \<rightharpoonup> membership_view) \<Rightarrow> string list) \<Rightarrow> string \<Rightarrow>
    (go_error, admin_mem, membership_view list) action" where
  "mem_company_members order c s =
    (Inr (filter (\<lambda>m. mv_company m = c) (map_values (am_members s) (order (am_members s)))), s)"

definition add_set :: "string \<Rightarrow> string \<Rightarrow> link_map \<Rightarrow> link_map" where
  "add_set k v m = m(k := insert v (m k))"

definition del_set :: "string \<Rightarrow> string \<Rightarrow> link_map \<Rightarrow> link_map" where
  "del_set k v m = m(k := m k - {v})"

definition mem_add_role :: "string \<Rightarrow> string \<Rightarrow> (go_error, admin_mem, unit) action" where
  "mem_add_role i r s = (Inr (), s\<lparr>am_roles := add_set i r (am_roles s)\<rparr>)"

definition mem_remove_role :: "string \<Rightarrow> string \<Rightarrow> (go_error, admin_mem, unit) action" where
  "mem_remove_role i r s = (Inr (), s\<lparr>am_roles := del_set i r (am_roles s)\<rparr>)"

definition mem_add_dep :: "string \<Rightarrow> string \<Rightarrow> (go_error, admin_mem, unit) action" where
  "mem_add_dep i d s = (Inr (), s\<lparr>am_deps := add_set i d (am_deps s)\<rparr>)"

definition mem_remove_dep :: "string \<Rightarrow> string \<Rightarrow> (go_error, admin_mem, unit) action" where
  "mem_remove_dep i d s = (Inr (), s\<lparr>am_deps := del_set i d (am_deps s)\<rparr>)"

definition mem_add_title :: "string \<Rightarrow> string \<Rightarrow> (go_error, admin_mem, unit) action" where
  "mem_add_title i t s = (Inr (), s\<lparr>am_titles := add_set i t (am_titles s)\<rparr>)"

definition mem_remove_title :: "string \<Rightarrow> string \<Rightarrow> (go_error, admin_mem, unit) action" where
  "mem_remove_title i t s = (Inr (), s\<lparr>am_titles := del_set i t (am_titles s)\<rparr>)"

definition mem_permissions :: "(string set \<Rightarrow> string list) \<Rightarrow> (go_error, admin_mem, string list) action" where
  "mem_permissions order s = (Inr (order (am_permissions s)), s)"

definition mem_role_ids :: "(string set \<Rightarrow> string list) \<Rightarrow> string \<Rightarrow> (go_error, admin_mem, string list) action" where
  "mem_role_ids order c s = (Inr (order (am_role_ids s)), s)"

definition mem_add_permission :: "string \<Rightarrow> string \<Rightarrow> (go_error, admin_mem, unit) action" where
  "mem_add_permission r p s = (Inr (), s\<lparr>am_grants := add_set r p (am_grants s),
     am_permissions := insert p (am_permissions s), am_role_ids := insert r (am_role_ids s)\<rparr>)"

definition mem_remove_permission :: "string \<Rightarrow> string \<Rightarrow> (go_error, admin_mem, unit) action" where
  "mem_remove_permission r p s = (Inr (), s\<lparr>am_grants := del_set r p (am_grants s)\<rparr>)"

definition mem_scope_rule :: "attrs \<Rightarrow> (go_error, admin_mem, unit) action" where
  "mem_scope_rule r s = (Inr (), s\<lparr>am_scope_rules := am_scope_rules s @ [r]\<rparr>)"

definition mem_assignee_rule :: "attrs \<Rightarrow> (go_error, admin_mem, unit) action" where
  "mem_assignee_rule r s = (Inr (), s\<lparr>am_assignee_rules := am_assignee_rules s @ [r]\<rparr>)"

definition mem_notice_rule :: "attrs \<Rightarrow> (go_error, admin_mem, unit) action" where
  "mem_notice_rule r s = (Inr (), s\<lparr>am_notice_rules := am_notice_rules s @ [r]\<rparr>)"

definition mem_admin :: "((string \<rightharpoonup> membership_view) \<Rightarrow> string list) \<Rightarrow> (string set \<Rightarrow> string list) \<Rightarrow> admin_mem admin_port" where
  "mem_admin om os = \<lparr>an_create_user = (\<lambda>now. mem_create_user), an_create_membership = mem_create_membership,
     an_update_status = mem_update_status, an_delete = mem_delete, an_list = mem_company_members om,
     an_add_role = mem_add_role, an_remove_role = mem_remove_role, an_add_dep = mem_add_dep, an_remove_dep = mem_remove_dep,
     an_add_title = mem_add_title, an_remove_title = mem_remove_title, an_permissions = mem_permissions os,
     an_roles = mem_role_ids os, an_add_permission = mem_add_permission, an_remove_permission = mem_remove_permission,
     an_scope_rule = mem_scope_rule, an_assignee_rule = mem_assignee_rule, an_notice_rule = mem_notice_rule\<rparr>"

subsection \<open>The tables\<close>

record scope_rule_row =
  sr_company_id :: string
  sr_code :: string
  sr_resource :: string
  sr_scope :: string
  sr_subject :: string
  sr_ref :: string
  sr_meta :: attrs

record rule_row =
  rl_company :: string
  rl_code :: string
  rl_payload :: attrs

record admin_db =
  ad_ident :: identity_db
  ad_org :: org_db
  ad_scope_rules :: "scope_rule_row list"
  ad_assignee_rules :: "rule_row list"
  ad_notice_rules :: "rule_row list"

definition is_duplicate :: "go_error \<Rightarrow> bool" where
  "is_duplicate e = contains_str (to_lower (error_text e)) ''duplicate''"

definition parent_row :: go_error where
  "parent_row = PlainErr ''Error 1451: Cannot delete or update a parent row''"

text \<open>The inserts of the transactions.\<close>

definition insert_user :: "(string \<Rightarrow> string) \<Rightarrow> user_view \<Rightarrow> admin_db \<Rightarrow> go_error + admin_db" where
  "insert_user rank u s =
    (if list_ex (\<lambda>r. ur_id r = uv_id u \<or> rank (ur_login r) = rank (uv_login u)) (id_users (ad_ident s)) then Inl duplicate_key
     else Inr (s\<lparr>ad_ident := (ad_ident s)\<lparr>id_users := id_users (ad_ident s) @ [\<lparr>ur_id = uv_id u, ur_login = uv_login u,
       ur_name = uv_name u, ur_email = null_if_empty (uv_email u), ur_phone = null_if_empty (uv_phone u),
       ur_status = uv_status u, ur_verified = None\<rparr>]\<rparr>\<rparr>))"

definition insert_credential :: "int \<Rightarrow> string \<Rightarrow> string \<Rightarrow> admin_db \<Rightarrow> go_error + admin_db" where
  "insert_credential now uid h s =
    (if list_ex (\<lambda>c. cr_user c = uid \<and> cr_type c = ''password'') (id_credentials (ad_ident s)) then Inl duplicate_key
     else Inr (s\<lparr>ad_ident := (ad_ident s)\<lparr>id_credentials := id_credentials (ad_ident s) @ [\<lparr>cr_user = uid, cr_type = ''password'',
       cr_status = ''active'', cr_hash = h, cr_changed = Some now\<rparr>]\<rparr>\<rparr>))"

definition insert_membership :: "membership_row \<Rightarrow> admin_db \<Rightarrow> go_error + admin_db" where
  "insert_membership m s =
    (if list_ex (\<lambda>r. mb_id r = mb_id m \<or> mb_user r = mb_user m \<and> mb_company r = mb_company m) (od_memberships (ad_org s))
     then Inl duplicate_key
     else if \<not> list_ex (\<lambda>u. ur_id u = mb_user m) (id_users (ad_ident s)) \<or> map_of (od_companies (ad_org s)) (mb_company m) = None
     then Inl foreign_key
     else Inr (s\<lparr>ad_org := (ad_org s)\<lparr>od_memberships := od_memberships (ad_org s) @ [m]\<rparr>\<rparr>))"

text \<open>What the statement answers on an error: a duplicate key is a conflict, the rest is wrapped.\<close>

definition insert_failure :: "go_error \<Rightarrow> string \<Rightarrow> go_error \<Rightarrow> go_error" where
  "insert_failure conflict what e = (if is_duplicate e then conflict else WrapErr what e)"

definition get_user_view :: "string \<Rightarrow> admin_db \<Rightarrow> go_error + user_view" where
  "get_user_view uid s = (case List.find (\<lambda>u. ur_id u = uid) (id_users (ad_ident s)) of
      None \<Rightarrow> Inl (not_found ''user not found'')
    | Some u \<Rightarrow> Inr \<lparr>uv_id = ur_id u, uv_login = ur_login u, uv_name = ur_name u, uv_email = if_null (ur_email u),
        uv_phone = if_null (ur_phone u), uv_status = ur_status u, uv_membership = [], uv_mstatus = [], uv_company = [], uv_cname = []\<rparr>)"

definition get_membership_view :: "string \<Rightarrow> admin_db \<Rightarrow> go_error + membership_view" where
  "get_membership_view i s = (case membership_join (members_of (ad_org s)) (\<lambda>m. mb_id m = i) of
      [] \<Rightarrow> Inl missing_membership | v # _ \<Rightarrow> Inr v)"

definition user_reply :: "user_view \<Rightarrow> (go_error, admin_db, user_view) action" where
  "user_reply u s = (if uv_membership u \<noteq> [] then Inr u else get_user_view (uv_id u) s, s)"

definition sql_create_user :: "(string \<Rightarrow> string) \<Rightarrow> int \<Rightarrow> user_view \<Rightarrow> string \<Rightarrow> user_options \<Rightarrow> (go_error, admin_db, user_view) action" where
  "sql_create_user rank now u h opts s =
    (case insert_user rank u s of
       Inl e \<Rightarrow> (Inl (insert_failure (state_conflict ''login_id already exists'') ''create user'' e), s)
     | Inr s1 \<Rightarrow> (case insert_credential now (uv_id u) h s1 of
         Inl e \<Rightarrow> (Inl (WrapErr ''create credential'' e), s)
       | Inr s2 \<Rightarrow>
           if trim_space (uo_company opts) = [] then user_reply u s2
           else case map_of (od_companies (ad_org s2)) (uo_company opts) of
               None \<Rightarrow> (Inl (bad_request ''company not found''), s)
             | Some cname \<Rightarrow>
                let st = (if trim_space (uo_status opts) = [] then ''active'' else trim_space (uo_status opts)) in
                (case insert_membership \<lparr>mb_id = uo_membership opts, mb_user = uv_id u, mb_company = uo_company opts, mb_status = st\<rparr> s2 of
                   Inl e \<Rightarrow> (Inl (insert_failure (state_conflict ''membership already exists for user and company'')
                      ''create membership'' e), s)
                 | Inr s3 \<Rightarrow> user_reply (u\<lparr>uv_membership := uo_membership opts, uv_mstatus := st,
                      uv_company := uo_company opts, uv_cname := cname\<rparr>) s3)))"

definition sql_create_membership :: "membership_view \<Rightarrow> (go_error, admin_db, membership_view) action" where
  "sql_create_membership m s =
    (if \<not> list_ex (\<lambda>u. ur_id u = mv_user m) (id_users (ad_ident s)) then (Inl (bad_request ''user not found''), s)
     else if map_of (od_companies (ad_org s)) (mv_company m) = None then (Inl (bad_request ''company not found''), s)
     else case insert_membership \<lparr>mb_id = mv_id m, mb_user = mv_user m, mb_company = mv_company m, mb_status = mv_status m\<rparr> s of
         Inl e \<Rightarrow> (Inl (insert_failure (new_http_error 409 CodeInvalidRequest ''membership already exists for user and company'')
            ''create membership'' e), s)
       | Inr s1 \<Rightarrow> (get_membership_view (mv_id m) s1, s1))"

definition sql_set_status :: "string \<Rightarrow> string \<Rightarrow> (go_error, admin_db, membership_view) action" where
  "sql_set_status i st s =
    (let res = sql_update (\<lambda>r. mb_id r = i) (\<lambda>r. r\<lparr>mb_status := st\<rparr>) (od_memberships (ad_org s));
         s' = s\<lparr>ad_org := (ad_org s)\<lparr>od_memberships := snd res\<rparr>\<rparr>
     in if fst res = 0 then (Inl missing_membership, s') else (get_membership_view i s', s'))"

definition unlink :: "string \<Rightarrow> link_row list \<Rightarrow> link_row list" where
  "unlink i links = snd (sql_delete (\<lambda>l. lk_membership l = i) links)"

text \<open>The rows of org unit memberships refer to the membership and are not deleted.\<close>

definition sql_delete_membership :: "string \<Rightarrow> (go_error, admin_db, unit) action" where
  "sql_delete_membership i s =
    (let org = ad_org s; res = sql_delete (\<lambda>r. mb_id r = i) (od_memberships org) in
     if fst res \<noteq> 0 \<and> list_ex (\<lambda>l. lk_membership l = i) (od_unit_links org) then (Inl parent_row, s)
     else if fst res = 0 then (Inl missing_membership, s)
     else (Inr (), s\<lparr>ad_org := org\<lparr>od_role_links := unlink i (od_role_links org), od_dep_links := unlink i (od_dep_links org),
       od_title_links := unlink i (od_title_links org), od_memberships := snd res\<rparr>\<rparr>))"

definition sql_company_members :: "string \<Rightarrow> (go_error, admin_db, membership_view list) action" where
  "sql_company_members c s = (Inr (rev (membership_join (members_of (ad_org s)) (\<lambda>m. mb_company m = c))), s)"

subsubsection \<open>Links\<close>

definition membership_of :: "string \<Rightarrow> admin_db \<Rightarrow> membership_row option" where
  "membership_of i s = List.find (\<lambda>m. mb_id m = i) (od_memberships (ad_org s))"

definition active_row :: "org_row list \<Rightarrow> string \<Rightarrow> org_row option" where
  "active_row rows i = List.find (\<lambda>r. og_id r = i \<and> og_status r = ''active'') rows"

definition ensure_role :: "string \<Rightarrow> string \<Rightarrow> admin_db \<Rightarrow> go_error + unit" where
  "ensure_role i rid s =
    (case membership_of i s of None \<Rightarrow> Inl missing_membership
     | Some m \<Rightarrow> (case active_row (od_roles (ad_org s)) rid of
         None \<Rightarrow> Inl (bad_request ''role not found'')
       | Some r \<Rightarrow> if (case og_company r of None \<Rightarrow> False | Some c \<Rightarrow> c \<noteq> [] \<and> c \<noteq> mb_company m)
           then Inl (bad_request ''role does not belong to membership company'') else Inr ()))"

definition ensure_same_company :: "org_row list \<Rightarrow> string \<Rightarrow> string \<Rightarrow> string \<Rightarrow> admin_db \<Rightarrow> go_error + unit" where
  "ensure_same_company rows what i t s =
    (case membership_of i s of None \<Rightarrow> Inl missing_membership
     | Some m \<Rightarrow> (case active_row rows t of
         None \<Rightarrow> Inl (bad_request (what @ '' not found''))
       | Some r \<Rightarrow> if og_company r \<noteq> Some (mb_company m) then Inl (bad_request (what @ '' company mismatch'')) else Inr ()))"

text \<open>\<open>INSERT ... ON DUPLICATE KEY UPDATE status = 'active'\<close>.\<close>

definition upsert_link :: "string \<Rightarrow> string \<Rightarrow> link_row list \<Rightarrow> link_row list" where
  "upsert_link i t links =
    (if list_ex (\<lambda>l. lk_membership l = i \<and> lk_target l = t) links
     then snd (sql_update (\<lambda>l. lk_membership l = i \<and> lk_target l = t) (\<lambda>l. l\<lparr>lk_status := ''active''\<rparr>) links)
     else links @ [\<lparr>lk_membership = i, lk_target = t, lk_status = ''active''\<rparr>])"

definition drop_link :: "string \<Rightarrow> string \<Rightarrow> link_row list \<Rightarrow> nat \<times> link_row list" where
  "drop_link i t links = sql_delete (\<lambda>l. lk_membership l = i \<and> lk_target l = t) links"

definition sql_add_role :: "string \<Rightarrow> string \<Rightarrow> (go_error, admin_db, unit) action" where
  "sql_add_role i r s = (case ensure_role i r s of Inl e \<Rightarrow> (Inl e, s)
     | Inr _ \<Rightarrow> (Inr (), s\<lparr>ad_org := (ad_org s)\<lparr>od_role_links := upsert_link i r (od_role_links (ad_org s))\<rparr>\<rparr>))"

definition sql_remove_role :: "string \<Rightarrow> string \<Rightarrow> (go_error, admin_db, unit) action" where
  "sql_remove_role i r s = (let res = drop_link i r (od_role_links (ad_org s)) in
     if fst res = 0 then (Inl (not_found ''membership role not found''), s)
     else (Inr (), s\<lparr>ad_org := (ad_org s)\<lparr>od_role_links := snd res\<rparr>\<rparr>))"

definition sql_add_dep :: "string \<Rightarrow> string \<Rightarrow> (go_error, admin_db, unit) action" where
  "sql_add_dep i d s = (case ensure_same_company (od_deps (ad_org s)) ''department'' i d s of Inl e \<Rightarrow> (Inl e, s)
     | Inr _ \<Rightarrow> (Inr (), s\<lparr>ad_org := (ad_org s)\<lparr>od_dep_links := upsert_link i d (od_dep_links (ad_org s))\<rparr>\<rparr>))"

definition sql_remove_dep :: "string \<Rightarrow> string \<Rightarrow> (go_error, admin_db, unit) action" where
  "sql_remove_dep i d s = (let res = drop_link i d (od_dep_links (ad_org s)) in
     if fst res = 0 then (Inl (not_found ''department membership not found''), s)
     else (Inr (), s\<lparr>ad_org := (ad_org s)\<lparr>od_dep_links := snd res\<rparr>\<rparr>))"

definition sql_add_title :: "string \<Rightarrow> string \<Rightarrow> (go_error, admin_db, unit) action" where
  "sql_add_title i t s = (case ensure_same_company (od_titles (ad_org s)) ''title'' i t s of Inl e \<Rightarrow> (Inl e, s)
     | Inr _ \<Rightarrow> (Inr (), s\<lparr>ad_org := (ad_org s)\<lparr>od_title_links := upsert_link i t (od_title_links (ad_org s))\<rparr>\<rparr>))"

definition sql_remove_title :: "string \<Rightarrow> string \<Rightarrow> (go_error, admin_db, unit) action" where
  "sql_remove_title i t s = (let res = drop_link i t (od_title_links (ad_org s)) in
     if fst res = 0 then (Inl (not_found ''membership title not found''), s)
     else (Inr (), s\<lparr>ad_org := (ad_org s)\<lparr>od_title_links := snd res\<rparr>\<rparr>))"

subsubsection \<open>Roles, permissions and rules\<close>

definition sql_list_permissions :: "(string \<Rightarrow> string) \<Rightarrow> (go_error, admin_db, string list) action" where
  "sql_list_permissions rank s = (Inr (sort_key rank (map pm_code (filter (\<lambda>p. pm_status p = ''active'')
     (od_permissions (ad_org s))))), s)"

definition sql_list_roles :: "(string \<Rightarrow> string) \<Rightarrow> string \<Rightarrow> (go_error, admin_db, string list) action" where
  "sql_list_roles rank c s = (Inr (map og_id (sort_key (\<lambda>r. rank (og_code r)) (filter (\<lambda>r. og_status r = ''active'' \<and>
     (og_company r = None \<or> trim_space c \<noteq> [] \<and> og_company r = Some c)) (od_roles (ad_org s))))), s)"

definition sql_add_permission :: "string \<Rightarrow> string \<Rightarrow> (go_error, admin_db, unit) action" where
  "sql_add_permission r p s =
    (let org = ad_org s; hit = (\<lambda>g. gr_role g = r \<and> gr_permission g = p) in
     if \<not> list_ex (\<lambda>x. og_id x = r) (od_roles org) \<or> \<not> list_ex (\<lambda>x. pm_id x = p) (od_permissions org) then (Inl foreign_key, s)
     else (Inr (), s\<lparr>ad_org := org\<lparr>od_grants :=
       (if list_ex hit (od_grants org) then snd (sql_update hit (\<lambda>g. g\<lparr>gr_status := ''active''\<rparr>) (od_grants org))
        else od_grants org @ [\<lparr>gr_role = r, gr_permission = p, gr_status = ''active''\<rparr>])\<rparr>\<rparr>))"

definition sql_remove_permission :: "string \<Rightarrow> string \<Rightarrow> (go_error, admin_db, unit) action" where
  "sql_remove_permission r p s =
    (let res = sql_delete (\<lambda>g. gr_role g = r \<and> gr_permission g = p) (od_grants (ad_org s)) in
     if fst res = 0 then (Inl (not_found ''role permission binding not found''), s)
     else (Inr (), s\<lparr>ad_org := (ad_org s)\<lparr>od_grants := snd res\<rparr>\<rparr>))"

definition str_from_map :: "(goany \<Rightarrow> string) \<Rightarrow> attrs \<Rightarrow> string \<Rightarrow> string option" where
  "str_from_map fmtv m k =
    (let text = (\<lambda>s. if trim_space s = [] then None else Some (trim_space s)) in
     case map_of m k of None \<Rightarrow> None | Some ANil \<Rightarrow> None | Some (AStr x) \<Rightarrow> text x | Some v \<Rightarrow> text (fmtv v))"

definition rule_field :: "(goany \<Rightarrow> string) \<Rightarrow> attrs \<Rightarrow> string \<Rightarrow> go_error + string" where
  "rule_field fmtv m k = (case str_from_map fmtv m k of None \<Rightarrow> Inl (bad_request (k @ '' required'')) | Some v \<Rightarrow> Inr v)"

definition rule_clash :: go_error where
  "rule_clash = new_http_error 409 CodeInvalidRequest ''rule_code already exists for company''"

definition has_company :: "admin_db \<Rightarrow> string \<Rightarrow> bool" where
  "has_company s c = (map_of (od_companies (ad_org s)) c \<noteq> None)"

definition scope_rule_of :: "(goany \<Rightarrow> string) \<Rightarrow> attrs \<Rightarrow> go_error + scope_rule_row" where
  "scope_rule_of fmtv rule =
    bindR (rule_field fmtv rule ''company_id'') (\<lambda>c. bindR (rule_field fmtv rule ''rule_code'') (\<lambda>code.
    bindR (rule_field fmtv rule ''resource_type'') (\<lambda>rt. bindR (rule_field fmtv rule ''scope_type'') (\<lambda>st.
    bindR (rule_field fmtv rule ''subject_type'') (\<lambda>su. bindR (rule_field fmtv rule ''subject_ref_id'') (\<lambda>ref.
    Inr \<lparr>sr_company_id = c, sr_code = code, sr_resource = rt, sr_scope = st, sr_subject = su, sr_ref = ref, sr_meta = rule\<rparr>))))))"

definition sql_scope_rule :: "(goany \<Rightarrow> string) \<Rightarrow> attrs \<Rightarrow> (go_error, admin_db, unit) action" where
  "sql_scope_rule fmtv rule s =
    (case scope_rule_of fmtv rule of Inl e \<Rightarrow> (Inl e, s)
     | Inr r \<Rightarrow>
       if list_ex (\<lambda>x. sr_company_id x = sr_company_id r \<and> sr_code x = sr_code r) (ad_scope_rules s) then (Inl rule_clash, s)
       else if \<not> has_company s (sr_company_id r) then (Inl (WrapErr ''insert resource_scope_rule'' foreign_key), s)
       else (Inr (), s\<lparr>ad_scope_rules := ad_scope_rules s @ [r]\<rparr>))"

text \<open>\<open>rnd n\<close> is the random identifier drawn when the table has \<open>n\<close> rows.\<close>

definition rule_of :: "(goany \<Rightarrow> string) \<Rightarrow> string \<Rightarrow> attrs \<Rightarrow> go_error + rule_row" where
  "rule_of fmtv code rule = bindR (rule_field fmtv rule ''company_id'') (\<lambda>c. Inr \<lparr>rl_company = c,
     rl_code = (case str_from_map fmtv rule ''rule_code'' of None \<Rightarrow> code | Some k \<Rightarrow> k), rl_payload = rule\<rparr>)"

definition insert_rule :: "string \<Rightarrow> rule_row \<Rightarrow> admin_db \<Rightarrow> rule_row list \<Rightarrow> go_error + rule_row list" where
  "insert_rule what r s rows =
    (if list_ex (\<lambda>x. rl_company x = rl_company r \<and> rl_code x = rl_code r) rows then Inl rule_clash
     else if \<not> has_company s (rl_company r) then Inl (WrapErr what foreign_key) else Inr (rows @ [r]))"

definition sql_assignee_rule :: "(goany \<Rightarrow> string) \<Rightarrow> (nat \<Rightarrow> string) \<Rightarrow> attrs \<Rightarrow> (go_error, admin_db, unit) action" where
  "sql_assignee_rule fmtv rnd rule s =
    (case bindR (rule_of fmtv (rnd (length (ad_assignee_rules s))) rule)
        (\<lambda>r. insert_rule ''insert workflow_assignee_rule'' r s (ad_assignee_rules s)) of
       Inl e \<Rightarrow> (Inl e, s) | Inr rows \<Rightarrow> (Inr (), s\<lparr>ad_assignee_rules := rows\<rparr>))"

definition sql_notice_rule :: "(goany \<Rightarrow> string) \<Rightarrow> (nat \<Rightarrow> string) \<Rightarrow> attrs \<Rightarrow> (go_error, admin_db, unit) action" where
  "sql_notice_rule fmtv rnd rule s =
    (case bindR (rule_of fmtv (rnd (length (ad_notice_rules s))) rule)
        (\<lambda>r. insert_rule ''insert notification_rule'' r s (ad_notice_rules s)) of
       Inl e \<Rightarrow> (Inl e, s) | Inr rows \<Rightarrow> (Inr (), s\<lparr>ad_notice_rules := rows\<rparr>))"

definition sql_admin :: "(string \<Rightarrow> string) \<Rightarrow> (goany \<Rightarrow> string) \<Rightarrow> (nat \<Rightarrow> string) \<Rightarrow> admin_db admin_port" where
  "sql_admin rank fmtv rnd = \<lparr>an_create_user = sql_create_user rank, an_create_membership = sql_create_membership,
     an_update_status = sql_set_status, an_delete = sql_delete_membership, an_list = sql_company_members,
     an_add_role = sql_add_role, an_remove_role = sql_remove_role, an_add_dep = sql_add_dep, an_remove_dep = sql_remove_dep,
     an_add_title = sql_add_title, an_remove_title = sql_remove_title, an_permissions = sql_list_permissions rank,
     an_roles = sql_list_roles rank, an_add_permission = sql_add_permission, an_remove_permission = sql_remove_permission,
     an_scope_rule = sql_scope_rule fmtv, an_assignee_rule = sql_assignee_rule fmtv rnd, an_notice_rule = sql_notice_rule fmtv rnd\<rparr>"

end
