(* ===== verification/AdminContract.thy ===== *)
theory AdminContract
  imports AdminStore
begin

section \<open>What the administration repositories promise\<close>

text \<open>
  The abstract state of an administration repository: who is a member, with which status, and which
  roles, departments and titles are linked to a membership. The locale \<open>admin_store\<close> gives the
  effect of each operation that succeeds, and that one that fails leaves nothing behind; both
  repositories interpret it. The second part is the typing of the MySQL tables: keys are unique,
  references resolve, and every link stays inside the company of its membership.
\<close>

record admin_view =
  aw_members :: "string \<rightharpoonup> string \<times> string \<times> string"
  aw_roles :: "(string \<times> string) set"
  aw_deps :: "(string \<times> string) set"
  aw_titles :: "(string \<times> string) set"

definition member_entry :: "membership_view \<Rightarrow> string \<times> string \<times> string" where
  "member_entry v = (mv_user v, mv_company v, mv_status v)"

definition links_without :: "string \<Rightarrow> (string \<times> string) set \<Rightarrow> (string \<times> string) set \<Rightarrow> bool" where
  "links_without i old new \<longleftrightarrow> new \<subseteq> old \<and> {x \<in> old. fst x \<noteq> i} \<subseteq> new"

definition add_member :: "string \<Rightarrow> string \<times> string \<times> string \<Rightarrow> admin_view \<Rightarrow> admin_view" where
  "add_member i e w = w\<lparr>aw_members := (aw_members w)(i \<mapsto> e)\<rparr>"

locale admin_store =
  fixes port :: "'r admin_port" and ok :: "'r \<Rightarrow> bool" and view :: "'r \<Rightarrow> admin_view"
  assumes user_law: "ok s \<Longrightarrow> an_create_user port now u h opts s = (Inr uv, s') \<Longrightarrow> ok s' \<and>
      (view s' = view s \<or> uo_company opts \<noteq> [] \<and> (\<exists>st. view s' = add_member (uo_membership opts) (uv_id u, uo_company opts, st) (view s)))"
    and member_law: "ok s \<Longrightarrow> an_create_membership port m s = (Inr v, s') \<Longrightarrow>
      ok s' \<and> view s' = add_member (mv_id m) (member_entry m) (view s)"
    and status_law: "ok s \<Longrightarrow> an_update_status port i st s = (Inr v, s') \<Longrightarrow>
      ok s' \<and> view s' = add_member i (member_entry v) (view s) \<and> mv_status v = st \<and>
      (\<forall>u c st0. aw_members (view s) i = Some (u, c, st0) \<longrightarrow> mv_user v = u \<and> mv_company v = c)"
    and delete_law: "ok s \<Longrightarrow> an_delete port i s = (Inr (), s') \<Longrightarrow>
      ok s' \<and> aw_members (view s') = (aw_members (view s))(i := None) \<and> links_without i (aw_roles (view s)) (aw_roles (view s')) \<and>
      links_without i (aw_deps (view s)) (aw_deps (view s')) \<and> links_without i (aw_titles (view s)) (aw_titles (view s'))"
    and role_law: "ok s \<Longrightarrow> an_add_role port i r s = (Inr (), s') \<Longrightarrow>
      ok s' \<and> view s' = (view s)\<lparr>aw_roles := insert (i, r) (aw_roles (view s))\<rparr>"
    and unrole_law: "ok s \<Longrightarrow> an_remove_role port i r s = (Inr (), s') \<Longrightarrow>
      ok s' \<and> view s' = (view s)\<lparr>aw_roles := aw_roles (view s) - {(i, r)}\<rparr>"
    and dep_law: "ok s \<Longrightarrow> an_add_dep port i d s = (Inr (), s') \<Longrightarrow>
      ok s' \<and> view s' = (view s)\<lparr>aw_deps := insert (i, d) (aw_deps (view s))\<rparr>"
    and undep_law: "ok s \<Longrightarrow> an_remove_dep port i d s = (Inr (), s') \<Longrightarrow>
      ok s' \<and> view s' = (view s)\<lparr>aw_deps := aw_deps (view s) - {(i, d)}\<rparr>"
    and title_law: "ok s \<Longrightarrow> an_add_title port i t s = (Inr (), s') \<Longrightarrow>
      ok s' \<and> view s' = (view s)\<lparr>aw_titles := insert (i, t) (aw_titles (view s))\<rparr>"
    and untitle_law: "ok s \<Longrightarrow> an_remove_title port i t s = (Inr (), s') \<Longrightarrow>
      ok s' \<and> view s' = (view s)\<lparr>aw_titles := aw_titles (view s) - {(i, t)}\<rparr>"
    and grant_law: "ok s \<Longrightarrow> an_add_permission port r p s = (Inr (), s') \<Longrightarrow> ok s' \<and> view s' = view s"
    and ungrant_law: "ok s \<Longrightarrow> an_remove_permission port r p s = (Inr (), s') \<Longrightarrow> ok s' \<and> view s' = view s"
    and scope_rule_law: "ok s \<Longrightarrow> an_scope_rule port x s = (Inr (), s') \<Longrightarrow> ok s' \<and> view s' = view s"
    and assignee_rule_law: "ok s \<Longrightarrow> an_assignee_rule port x s = (Inr (), s') \<Longrightarrow> ok s' \<and> view s' = view s"
    and notice_rule_law: "ok s \<Longrightarrow> an_notice_rule port x s = (Inr (), s') \<Longrightarrow> ok s' \<and> view s' = view s"
    and list_law: "an_list port c s = (ms, s') \<Longrightarrow> s' = s"
    and permissions_law: "an_permissions port s = (y, s') \<Longrightarrow> s' = s"
    and roles_law: "an_roles port c s = (y, s') \<Longrightarrow> s' = s"
    and fail_law: "ok s \<Longrightarrow> an_create_user port now u h opts s = (Inl e, s') \<Longrightarrow> s' = s"
      "ok s \<Longrightarrow> an_create_membership port m s = (Inl e, s') \<Longrightarrow> s' = s"
      "ok s \<Longrightarrow> an_update_status port i st s = (Inl e, s') \<Longrightarrow> s' = s"
      "ok s \<Longrightarrow> an_delete port i s = (Inl e, s') \<Longrightarrow> s' = s"
      "ok s \<Longrightarrow> an_add_role port i r s = (Inl e, s') \<Longrightarrow> s' = s"
      "ok s \<Longrightarrow> an_remove_role port i r s = (Inl e, s') \<Longrightarrow> s' = s"
      "ok s \<Longrightarrow> an_add_dep port i r s = (Inl e, s') \<Longrightarrow> s' = s"
      "ok s \<Longrightarrow> an_remove_dep port i r s = (Inl e, s') \<Longrightarrow> s' = s"
      "ok s \<Longrightarrow> an_add_title port i r s = (Inl e, s') \<Longrightarrow> s' = s"
      "ok s \<Longrightarrow> an_remove_title port i r s = (Inl e, s') \<Longrightarrow> s' = s"
      "ok s \<Longrightarrow> an_add_permission port r p s = (Inl e, s') \<Longrightarrow> s' = s"
      "ok s \<Longrightarrow> an_remove_permission port r p s = (Inl e, s') \<Longrightarrow> s' = s"
      "ok s \<Longrightarrow> an_scope_rule port x s = (Inl e, s') \<Longrightarrow> s' = s"
      "ok s \<Longrightarrow> an_assignee_rule port x s = (Inl e, s') \<Longrightarrow> s' = s"
      "ok s \<Longrightarrow> an_notice_rule port x s = (Inl e, s') \<Longrightarrow> s' = s"

subsection \<open>In memory\<close>

definition pairs_of :: "link_map \<Rightarrow> (string \<times> string) set" where
  "pairs_of m = {(i, t). t \<in> m i}"

definition mem_admin_view :: "admin_mem \<Rightarrow> admin_view" where
  "mem_admin_view s = \<lparr>aw_members = map_option member_entry \<circ> am_members s, aw_roles = pairs_of (am_roles s),
     aw_deps = pairs_of (am_deps s), aw_titles = pairs_of (am_titles s)\<rparr>"

lemma pairs_of_simps [simp]: "pairs_of (add_set i t m) = insert (i, t) (pairs_of m)"
  "pairs_of (del_set i t m) = pairs_of m - {(i, t)}"
  by (auto simp: pairs_of_def add_set_def del_set_def split: if_splits)

lemma links_without_refl [simp]: "links_without i x x"
  by (auto simp: links_without_def)

lemmas mem_admin_defs = mem_admin_def mem_create_user_def mem_create_membership_def mem_update_status_def mem_delete_def
  mem_company_members_def mem_add_role_def mem_remove_role_def mem_add_dep_def mem_remove_dep_def mem_add_title_def
  mem_remove_title_def mem_permissions_def mem_role_ids_def mem_add_permission_def mem_remove_permission_def
  mem_scope_rule_def mem_assignee_rule_def mem_notice_rule_def

interpretation mem_adm: admin_store "mem_admin om os" "\<lambda>_. True" mem_admin_view for om os
proof (unfold_locales, goal_cases)
  case (1 s now u h opts v s')
  then show ?case
    by (simp add: mem_admin_defs Let_def split: if_splits)
      (auto simp: mem_admin_view_def add_member_def member_entry_def fun_upd_comp)
next
  case (2 s m v s')
  then show ?case by (auto simp: mem_admin_defs mem_admin_view_def add_member_def fun_upd_comp)
next
  case (3 s i st v s')
  then show ?case
    by (cases "am_members s i") (auto simp: mem_admin_defs Let_def mem_admin_view_def add_member_def member_entry_def fun_upd_comp)
next
  case (4 s i s')
  then show ?case by (auto simp: mem_admin_defs mem_admin_view_def fun_upd_comp)
qed (auto simp: mem_admin_defs mem_admin_view_def Let_def split: if_splits)

subsection \<open>The typing of the tables\<close>

definition role_fits :: "membership_row \<Rightarrow> org_row \<Rightarrow> bool" where
  "role_fits m r \<longleftrightarrow> og_company r = None \<or> og_company r = Some [] \<or> og_company r = Some (mb_company m)"

definition own_company :: "membership_row \<Rightarrow> org_row \<Rightarrow> bool" where
  "own_company m r \<longleftrightarrow> og_company r = Some (mb_company m)"

definition link_key :: "link_row \<Rightarrow> string \<times> string" where
  "link_key l = (lk_membership l, lk_target l)"

definition link_ok :: "(membership_row \<Rightarrow> org_row \<Rightarrow> bool) \<Rightarrow> membership_row list \<Rightarrow> org_row list \<Rightarrow> string \<times> string \<Rightarrow> bool" where
  "link_ok P ms rows k \<longleftrightarrow> (\<exists>m \<in> set ms. \<exists>r \<in> set rows. mb_id m = fst k \<and> og_id r = snd k \<and> P m r)"

definition links_ok :: "(membership_row \<Rightarrow> org_row \<Rightarrow> bool) \<Rightarrow> membership_row list \<Rightarrow> org_row list \<Rightarrow> link_row list \<Rightarrow> bool" where
  "links_ok P ms rows links \<longleftrightarrow> distinct (map link_key links) \<and> (\<forall>k \<in> link_key ` set links. link_ok P ms rows k)"

definition users_ok :: "(string \<Rightarrow> string) \<Rightarrow> identity_db \<Rightarrow> bool" where
  "users_ok rank d \<longleftrightarrow> distinct (map ur_id (id_users d)) \<and> distinct (map (\<lambda>u. rank (ur_login u)) (id_users d)) \<and>
     distinct (map (\<lambda>c. (cr_user c, cr_type c)) (id_credentials d)) \<and> (\<forall>c \<in> set (id_credentials d). cr_user c \<in> ur_id ` set (id_users d))"

definition members_ok :: "user_row list \<Rightarrow> org_db \<Rightarrow> bool" where
  "members_ok us org \<longleftrightarrow> distinct (map fst (od_companies org)) \<and> distinct (map mb_id (od_memberships org)) \<and>
     distinct (map (\<lambda>m. (mb_user m, mb_company m)) (od_memberships org)) \<and>
     (\<forall>m \<in> set (od_memberships org). mb_user m \<in> ur_id ` set us \<and> mb_company m \<in> fst ` set (od_companies org))"

definition tenant_links :: "org_db \<Rightarrow> bool" where
  "tenant_links org \<longleftrightarrow> links_ok role_fits (od_memberships org) (od_roles org) (od_role_links org) \<and>
     links_ok own_company (od_memberships org) (od_deps org) (od_dep_links org) \<and>
     links_ok own_company (od_memberships org) (od_titles org) (od_title_links org)"

definition grants_ok :: "org_db \<Rightarrow> bool" where
  "grants_ok org \<longleftrightarrow> distinct (map (\<lambda>g. (gr_role g, gr_permission g)) (od_grants org)) \<and>
     gr_role ` set (od_grants org) \<subseteq> og_id ` set (od_roles org) \<and> gr_permission ` set (od_grants org) \<subseteq> pm_id ` set (od_permissions org)"

definition rules_ok :: "org_db \<Rightarrow> (string \<times> string) list \<Rightarrow> bool" where
  "rules_ok org keys \<longleftrightarrow> distinct keys \<and> fst ` set keys \<subseteq> fst ` set (od_companies org)"

definition rule_key :: "rule_row \<Rightarrow> string \<times> string" where
  "rule_key r = (rl_company r, rl_code r)"

definition scope_rule_key :: "scope_rule_row \<Rightarrow> string \<times> string" where
  "scope_rule_key r = (sr_company_id r, sr_code r)"

definition tables_typed :: "(string \<Rightarrow> string) \<Rightarrow> admin_db \<Rightarrow> bool" where
  "tables_typed rank s \<longleftrightarrow> users_ok rank (ad_ident s) \<and> members_ok (id_users (ad_ident s)) (ad_org s) \<and> tenant_links (ad_org s) \<and>
     grants_ok (ad_org s) \<and> rules_ok (ad_org s) (map scope_rule_key (ad_scope_rules s)) \<and>
     rules_ok (ad_org s) (map rule_key (ad_assignee_rules s)) \<and> rules_ok (ad_org s) (map rule_key (ad_notice_rules s))"

subsubsection \<open>Links\<close>

definition live_links :: "link_row list \<Rightarrow> (string \<times> string) set" where
  "live_links links = link_key ` {l \<in> set links. lk_status l = ''active''}"

lemma at_key: "lk_membership l = i \<and> lk_target l = t \<longleftrightarrow> link_key l = (i, t)"
  by (simp add: link_key_def)

lemma link_key_status [simp]: "link_key (l\<lparr>lk_status := st\<rparr>) = link_key l"
  by (simp add: link_key_def)

definition relinked :: "string \<times> string \<Rightarrow> link_row \<Rightarrow> link_row" where
  "relinked k l = (if link_key l = k then l\<lparr>lk_status := ''active''\<rparr> else l)"

lemma relinked_simps [simp]: "link_key (relinked k l) = link_key l"
  "lk_status (relinked k l) = (if link_key l = k then ''active'' else lk_status l)"
  by (simp_all add: relinked_def)

lemma upsert_link_eq: "upsert_link i t links = (if (i, t) \<in> link_key ` set links then map (relinked (i, t)) links
     else links @ [\<lparr>lk_membership = i, lk_target = t, lk_status = ''active''\<rparr>])"
  by (auto simp: upsert_link_def list_ex_iff at_key relinked_def image_iff eq_commute [of "(i, t)"])

lemma in_live_links: "k \<in> live_links links \<longleftrightarrow> (\<exists>l \<in> set links. link_key l = k \<and> lk_status l = ''active'')"
  by (auto simp: live_links_def)

lemma upsert_link_keys: "link_key ` set (upsert_link i t links) = insert (i, t) (link_key ` set links)"
proof (cases "(i, t) \<in> link_key ` set links")
  case True
  have "link_key ` set (map (relinked (i, t)) links) = link_key ` set links" by (simp add: image_image)
  with True show ?thesis by (simp add: upsert_link_eq insert_absorb)
next
  case False
  then show ?thesis by (simp add: upsert_link_eq) (simp add: link_key_def)
qed

lemma upsert_link_distinct: "distinct (map link_key links) \<Longrightarrow> distinct (map link_key (upsert_link i t links))"
  by (auto simp: upsert_link_eq comp_def) (auto simp: link_key_def)

lemma upsert_link_live: "live_links (upsert_link i t links) = insert (i, t) (live_links links)"
proof (rule set_eqI)
  fix k
  show "k \<in> live_links (upsert_link i t links) \<longleftrightarrow> k \<in> insert (i, t) (live_links links)"
  proof (cases "(i, t) \<in> link_key ` set links")
    case True
    then show ?thesis by (cases "k = (i, t)") (auto simp: in_live_links upsert_link_eq)
  next
    case False
    have "link_key \<lparr>lk_membership = i, lk_target = t, lk_status = ''active''\<rparr> = (i, t)" by (simp add: link_key_def)
    with False show ?thesis by (auto simp: in_live_links upsert_link_eq)
  qed
qed

lemma drop_link_eq: "snd (drop_link i t links) = filter (\<lambda>l. link_key l \<noteq> (i, t)) links"
  unfolding drop_link_def sql_delete_simps at_key ..

lemma drop_link_live: "live_links (snd (drop_link i t links)) = live_links links - {(i, t)}"
  by (auto simp: drop_link_eq in_live_links)

lemma unlink_eq: "unlink i links = filter (\<lambda>l. fst (link_key l) \<noteq> i) links"
  by (simp add: unlink_def link_key_def)

lemma unlink_live: "links_without i (live_links links) (live_links (unlink i links))"
  by (fastforce simp: unlink_eq in_live_links links_without_def)

lemma links_ok_upsert:
  assumes "links_ok P ms rows links" and "link_ok P ms rows (i, t)"
  shows "links_ok P ms rows (upsert_link i t links)"
  using assms by (simp add: links_ok_def upsert_link_keys upsert_link_distinct)

lemma links_ok_filter: "links_ok P ms rows links \<Longrightarrow> links_ok P ms rows (filter Q links)"
  by (auto simp: links_ok_def distinct_map_filter)

lemma links_ok_drop: "links_ok P ms rows links \<Longrightarrow> links_ok P ms rows (snd (drop_link i t links))"
  by (simp add: drop_link_eq links_ok_filter)

lemma links_ok_members:
  assumes "links_ok P ms rows links" and "\<And>m r. P m r \<Longrightarrow> m \<in> set ms \<Longrightarrow> \<exists>m' \<in> set ms'. mb_id m' = mb_id m \<and> P m' r"
  shows "links_ok P ms' rows links"
proof -
  have "link_ok P ms' rows k" if "link_ok P ms rows k" for k
    using that assms(2) unfolding link_ok_def by metis
  with assms(1) show ?thesis by (simp add: links_ok_def)
qed

lemma links_ok_more: "links_ok P ms rows links \<Longrightarrow> set ms \<subseteq> set ms' \<Longrightarrow> links_ok P ms' rows links"
  by (blast intro: links_ok_members)

lemma links_ok_unlink:
  assumes "links_ok P ms rows links"
  shows "links_ok P (filter (\<lambda>m. mb_id m \<noteq> i) ms) rows (unlink i links)"
proof -
  have "link_ok P (filter (\<lambda>m. mb_id m \<noteq> i) ms) rows k" if "link_ok P ms rows k" "fst k \<noteq> i" for k
    using that by (force simp: link_ok_def)
  with assms show ?thesis by (simp add: links_ok_def unlink_eq distinct_map_filter)
qed

subsubsection \<open>Memberships\<close>

definition row_entry :: "membership_row \<Rightarrow> string \<times> string \<times> string" where
  "row_entry m = (mb_user m, mb_company m, mb_status m)"

definition members_map :: "membership_row list \<Rightarrow> string \<rightharpoonup> string \<times> string \<times> string" where
  "members_map ms = map_of (map (\<lambda>m. (mb_id m, row_entry m)) ms)"

lemma members_map_eq_None: "members_map ms i = None \<longleftrightarrow> i \<notin> mb_id ` set ms"
  by (induction ms) (auto simp: members_map_def)

lemma members_map_snoc: "mb_id m \<notin> mb_id ` set ms \<Longrightarrow> members_map (ms @ [m]) = (members_map ms)(mb_id m \<mapsto> row_entry m)"
  by (rule ext) (induction ms, auto simp: members_map_def map_add_def)

lemma members_map_delete: "members_map (filter (\<lambda>m. mb_id m \<noteq> i) ms) = (members_map ms)(i := None)"
  by (induction ms) (auto simp: members_map_def fun_eq_iff)

definition restated :: "string \<Rightarrow> string \<Rightarrow> membership_row \<Rightarrow> membership_row" where
  "restated i st r = (if mb_id r = i then r\<lparr>mb_status := st\<rparr> else r)"

lemma restated_simps [simp]: "mb_id (restated i st r) = mb_id r" "mb_user (restated i st r) = mb_user r"
  "mb_company (restated i st r) = mb_company r" "role_fits (restated i st r) x = role_fits r x"
  "own_company (restated i st r) x = own_company r x"
  by (simp_all add: restated_def role_fits_def own_company_def)

lemma members_map_status:
  "members_map (map (restated i st) ms) =
    (case members_map ms i of None \<Rightarrow> members_map ms | Some (u, c, st0) \<Rightarrow> (members_map ms)(i \<mapsto> (u, c, st)))"
proof (rule ext)
  fix j
  show "members_map (map (restated i st) ms) j =
    (case members_map ms i of None \<Rightarrow> members_map ms | Some (u, c, st0) \<Rightarrow> (members_map ms)(i \<mapsto> (u, c, st))) j"
    by (induction ms) (auto simp: members_map_def row_entry_def restated_def split: option.splits)
qed

lemma members_map_row: "distinct (map mb_id ms) \<Longrightarrow> m \<in> set ms \<Longrightarrow> members_map ms (mb_id m) = Some (row_entry m)"
  by (auto simp: members_map_def comp_def intro!: map_of_is_SomeI)

definition sql_admin_view :: "admin_db \<Rightarrow> admin_view" where
  "sql_admin_view s = \<lparr>aw_members = members_map (od_memberships (ad_org s)), aw_roles = live_links (od_role_links (ad_org s)),
     aw_deps = live_links (od_dep_links (ad_org s)), aw_titles = live_links (od_title_links (ad_org s))\<rparr>"

lemma has_row_company: "members_ok us org \<Longrightarrow> m \<in> set (od_memberships org) \<Longrightarrow> map_of (od_companies org) (mb_company m) \<noteq> None"
  by (auto simp: members_ok_def map_of_eq_None_iff)

lemma view_of_row:
  assumes "members_ok us (ad_org s)" and "m \<in> set (od_memberships (ad_org s))"
  shows "\<exists>v. get_membership_view (mb_id m) s = Inr v \<and> member_entry v = row_entry m"
proof -
  let ?J = "membership_join (members_of (ad_org s)) (\<lambda>x. mb_id x = mb_id m)"
  have tables: "md_memberships (members_of (ad_org s)) = od_memberships (ad_org s)" "md_companies (members_of (ad_org s)) = od_companies (ad_org s)"
    by (simp_all add: members_of_def Let_def)
  obtain c where c: "c \<in> set (od_companies (ad_org s))" "fst c = mb_company m"
    using assms by (auto simp: members_ok_def)
  then have "joined m c \<in> set ?J" unfolding set_membership_join using assms(2) tables by (intro exI [of _ m] exI [of _ c]) simp
  then obtain v rest where v: "?J = v # rest" by (cases ?J) auto
  then have "v \<in> set ?J" by simp
  then obtain m' c' where m': "m' \<in> set (od_memberships (ad_org s))" "mb_id m' = mb_id m" "v = joined m' c'"
    using tables by (auto simp: set_membership_join)
  then have "m' = m" using assms by (auto simp: members_ok_def distinct_map dest: inj_onD)
  with m' v show ?thesis by (simp add: get_membership_view_def member_entry_def row_entry_def)
qed

subsubsection \<open>Preservation\<close>

lemma list_ex_key: "list_ex (\<lambda>x. f x = k) xs \<longleftrightarrow> k \<in> f ` set xs"
  by (auto simp: list_ex_iff)

lemma typed_org:
  assumes "tables_typed rank s" and "members_ok (id_users (ad_ident s)) org" and "tenant_links org" and "grants_ok org"
    and "od_companies org = od_companies (ad_org s)"
  shows "tables_typed rank (s\<lparr>ad_org := org\<rparr>)"
  using assms by (simp add: tables_typed_def rules_ok_def)

lemma typed_links:
  assumes "tables_typed rank s"
  shows "links_ok role_fits (od_memberships (ad_org s)) (od_roles (ad_org s)) rl \<Longrightarrow>
      tables_typed rank (s\<lparr>ad_org := (ad_org s)\<lparr>od_role_links := rl\<rparr>\<rparr>)"
    and "links_ok own_company (od_memberships (ad_org s)) (od_deps (ad_org s)) dl \<Longrightarrow>
      tables_typed rank (s\<lparr>ad_org := (ad_org s)\<lparr>od_dep_links := dl\<rparr>\<rparr>)"
    and "links_ok own_company (od_memberships (ad_org s)) (od_titles (ad_org s)) ttl \<Longrightarrow>
      tables_typed rank (s\<lparr>ad_org := (ad_org s)\<lparr>od_title_links := ttl\<rparr>\<rparr>)"
  using assms by (auto simp: tables_typed_def members_ok_def tenant_links_def grants_ok_def rules_ok_def)

lemma typed_grants:
  "tables_typed rank s \<Longrightarrow> grants_ok ((ad_org s)\<lparr>od_grants := gs\<rparr>) \<Longrightarrow> tables_typed rank (s\<lparr>ad_org := (ad_org s)\<lparr>od_grants := gs\<rparr>\<rparr>)"
  by (simp add: tables_typed_def members_ok_def tenant_links_def rules_ok_def)

lemma insert_user_typed:
  assumes "tables_typed rank s" and "insert_user rank u s = Inr s'"
  shows "tables_typed rank s' \<and> ad_org s' = ad_org s \<and> uv_id u \<in> ur_id ` set (id_users (ad_ident s')) \<and>
    id_credentials (ad_ident s') = id_credentials (ad_ident s)"
proof -
  let ?us = "id_users (ad_ident s)"
  let ?new = "\<lparr>ur_id = uv_id u, ur_login = uv_login u, ur_name = uv_name u, ur_email = null_if_empty (uv_email u),
    ur_phone = null_if_empty (uv_phone u), ur_status = uv_status u, ur_verified = None\<rparr>"
  have "list_ex (\<lambda>r. ur_id r = uv_id u \<or> rank (ur_login r) = rank (uv_login u)) ?us \<longleftrightarrow>
      uv_id u \<in> ur_id ` set ?us \<or> rank (uv_login u) \<in> (\<lambda>u. rank (ur_login u)) ` set ?us"
    by (auto simp: list_ex_iff image_iff) (metis | simp add: eq_commute)+
  with assms(2) have n: "uv_id u \<notin> ur_id ` set ?us" "rank (uv_login u) \<notin> (\<lambda>u. rank (ur_login u)) ` set ?us"
    and s': "s' = s\<lparr>ad_ident := (ad_ident s)\<lparr>id_users := ?us @ [?new]\<rparr>\<rparr>"
    by (simp_all add: insert_user_def split: if_splits)
  from assms(1) n have "tables_typed rank s'" unfolding s' by (simp add: tables_typed_def users_ok_def members_ok_def)
  then show ?thesis unfolding s' by simp
qed

lemma insert_credential_typed:
  assumes "tables_typed rank s" and "insert_credential now uid h s = Inr s'" and "uid \<in> ur_id ` set (id_users (ad_ident s))"
  shows "tables_typed rank s' \<and> ad_org s' = ad_org s \<and> id_users (ad_ident s') = id_users (ad_ident s)"
proof -
  let ?cs = "id_credentials (ad_ident s)"
  let ?key = "\<lambda>c. (cr_user c, cr_type c)"
  have "list_ex (\<lambda>c. cr_user c = uid \<and> cr_type c = ''password'') ?cs \<longleftrightarrow> (uid, ''password'') \<in> ?key ` set ?cs"
    by (auto simp: list_ex_iff image_iff)
  with assms(2) have "(uid, ''password'') \<notin> ?key ` set ?cs"
    and "s' = s\<lparr>ad_ident := (ad_ident s)\<lparr>id_credentials := ?cs @ [\<lparr>cr_user = uid, cr_type = ''password'',
       cr_status = ''active'', cr_hash = h, cr_changed = Some now\<rparr>]\<rparr>\<rparr>"
    by (simp_all add: insert_credential_def split: if_splits)
  with assms(1,3) show ?thesis by (simp add: tables_typed_def users_ok_def)
qed

lemma insert_membership_typed:
  assumes "tables_typed rank s" and "insert_membership m s = Inr s'"
  shows "tables_typed rank s' \<and> ad_ident s' = ad_ident s \<and> m \<in> set (od_memberships (ad_org s')) \<and>
    sql_admin_view s' = add_member (mb_id m) (row_entry m) (sql_admin_view s)"
proof -
  let ?org = "ad_org s" and ?us = "id_users (ad_ident s)"
  let ?org' = "?org\<lparr>od_memberships := od_memberships ?org @ [m]\<rparr>"
  have s': "s' = s\<lparr>ad_org := ?org'\<rparr>"
    and fresh: "mb_id m \<notin> mb_id ` set (od_memberships ?org)"
      "(mb_user m, mb_company m) \<notin> (\<lambda>m. (mb_user m, mb_company m)) ` set (od_memberships ?org)"
    and refs: "mb_user m \<in> ur_id ` set ?us" "mb_company m \<in> fst ` set (od_companies ?org)"
    using assms(2) by (auto simp: insert_membership_def list_ex_key map_of_eq_None_iff split: if_splits) (auto simp: list_ex_iff)
  have t: "members_ok ?us ?org" "tenant_links ?org" "grants_ok ?org" using assms(1) by (simp_all add: tables_typed_def)
  have 1: "members_ok ?us ?org'" using t(1) fresh refs by (auto simp: members_ok_def)
  have 2: "tenant_links ?org'" using t(2) by (simp add: tenant_links_def links_ok_more [of _ "od_memberships ?org"] subset_insertI)
  have 3: "grants_ok ?org'" using t(3) by (simp add: grants_ok_def)
  have "tables_typed rank s'" unfolding s' by (rule typed_org [OF assms(1) 1 2 3]) simp
  with s' fresh show ?thesis by (simp add: sql_admin_view_def add_member_def members_map_snoc)
qed

subsubsection \<open>The operations\<close>

lemma get_user_view_some: "uid \<in> ur_id ` set (id_users (ad_ident s)) \<Longrightarrow> \<exists>v. get_user_view uid s = Inr v"
  by (cases "List.find (\<lambda>u. ur_id u = uid) (id_users (ad_ident s))") (auto simp: get_user_view_def find_None_iff)

lemma user_reply_ok: "uv_id u \<in> ur_id ` set (id_users (ad_ident s)) \<Longrightarrow> \<exists>v. user_reply u s = (Inr v, s)"
  using get_user_view_some by (auto simp: user_reply_def)

lemma view_of_ident: "ad_org s' = ad_org s \<Longrightarrow> sql_admin_view s' = sql_admin_view s"
  by (simp add: sql_admin_view_def)

text \<open>What a CreateUser that passes its two inserts does.\<close>

lemma sql_create_user_cases:
  assumes "tables_typed rank s" and "sql_create_user rank now u h opts s = (res, s')"
  obtains e where "res = Inl e" and "s' = s"
  | v s1 s2 where "res = Inr v" and "insert_user rank u s = Inr s1" and "insert_credential now (uv_id u) h s1 = Inr s2"
      and "tables_typed rank s2" and "ad_org s2 = ad_org s" and "trim_space (uo_company opts) = []" and "s' = s2"
  | v s1 s2 st where "res = Inr v" and "insert_user rank u s = Inr s1" and "insert_credential now (uv_id u) h s1 = Inr s2"
      and "tables_typed rank s2" and "ad_org s2 = ad_org s" and "trim_space (uo_company opts) \<noteq> []"
      and "st = (if trim_space (uo_status opts) = [] then ''active'' else trim_space (uo_status opts))"
      and "insert_membership \<lparr>mb_id = uo_membership opts, mb_user = uv_id u, mb_company = uo_company opts, mb_status = st\<rparr> s2 = Inr s'"
proof (cases "insert_user rank u s")
  case (Inl e)
  then show thesis using assms(2) by (intro that(1)) (auto simp: sql_create_user_def)
next
  case s1: (Inr s1)
  note u1 = insert_user_typed [OF assms(1) s1]
  show thesis
  proof (cases "insert_credential now (uv_id u) h s1")
    case (Inl e)
    then show thesis using assms(2) s1 by (intro that(1)) (auto simp: sql_create_user_def)
  next
    case s2: (Inr s2)
    note u2 = insert_credential_typed [OF conjunct1 [OF u1] s2]
    have t: "tables_typed rank s2" "ad_org s2 = ad_org s" "uv_id u \<in> ur_id ` set (id_users (ad_ident s2))" using u1 u2 by simp_all
    show thesis
    proof (cases "trim_space (uo_company opts) = []")
      case True
      from user_reply_ok [OF t(3)] obtain v where "user_reply u s2 = (Inr v, s2)" by blast
      with True assms(2) s1 s2 have "res = Inr v" "s' = s2" by (simp_all add: sql_create_user_def)
      then show thesis using that(2) s1 s2 t True by blast
    next
      case False
      let ?st = "if trim_space (uo_status opts) = [] then ''active'' else trim_space (uo_status opts)"
      let ?m = "\<lparr>mb_id = uo_membership opts, mb_user = uv_id u, mb_company = uo_company opts, mb_status = ?st\<rparr>"
      show thesis
      proof (cases "map_of (od_companies (ad_org s2)) (uo_company opts)")
        case None
        then show thesis using assms(2) s1 s2 False by (intro that(1)) (auto simp: sql_create_user_def)
      next
        case cname: (Some cname)
        show thesis
        proof (cases "insert_membership ?m s2")
          case (Inl e)
          then show thesis using assms(2) s1 s2 False cname by (intro that(1)) (auto simp: sql_create_user_def Let_def)
        next
          case s3: (Inr s3)
          let ?u = "u\<lparr>uv_membership := uo_membership opts, uv_mstatus := ?st, uv_company := uo_company opts, uv_cname := cname\<rparr>"
          have "uv_id ?u \<in> ur_id ` set (id_users (ad_ident s3))" using insert_membership_typed [OF t(1) s3] t(3) by simp
          from user_reply_ok [OF this] obtain v where "user_reply ?u s3 = (Inr v, s3)" by blast
          with False cname s3 assms(2) s1 s2 have "res = Inr v" "s' = s3" by (simp_all add: sql_create_user_def Let_def)
          then show thesis using that(3) s1 s2 t False s3 by blast
        qed
      qed
    qed
  qed
qed

lemma sql_create_user_law:
  assumes "tables_typed rank s" and "sql_create_user rank now u h opts s = (Inr v, s')"
  shows "tables_typed rank s' \<and> (sql_admin_view s' = sql_admin_view s \<or> uo_company opts \<noteq> [] \<and>
    (\<exists>st. sql_admin_view s' = add_member (uo_membership opts) (uv_id u, uo_company opts, st) (sql_admin_view s)))"
  using sql_create_user_cases [OF assms]
proof cases
  case 1
  then show ?thesis by simp
next
  case (2 w s1 s2)
  with view_of_ident [OF 2(5)] show ?thesis by simp
next
  case (3 w s1 s2 st)
  note m = insert_membership_typed [OF 3(4) 3(8)]
  from 3(6) have "uo_company opts \<noteq> []" by auto
  with m view_of_ident [OF 3(5)] show ?thesis by (auto simp: row_entry_def)
qed

lemma sql_create_membership_law:
  assumes "tables_typed rank s" and "sql_create_membership m s = (res, s')"
  shows "case res of Inl e \<Rightarrow> s' = s | Inr v \<Rightarrow> tables_typed rank s' \<and> sql_admin_view s' = add_member (mv_id m) (member_entry m) (sql_admin_view s)"
proof (cases "insert_membership \<lparr>mb_id = mv_id m, mb_user = mv_user m, mb_company = mv_company m, mb_status = mv_status m\<rparr> s")
  case (Inl e)
  then show ?thesis using assms(2) by (auto simp: sql_create_membership_def split: if_splits)
next
  case (Inr s1)
  note m = insert_membership_typed [OF assms(1) Inr]
  have "members_ok (id_users (ad_ident s1)) (ad_org s1)" using conjunct1 [OF m] unfolding tables_typed_def by blast
  from view_of_row [OF this conjunct1 [OF conjunct2 [OF conjunct2 [OF m]]]]
  obtain v where "get_membership_view (mv_id m) s1 = Inr v" by auto
  with assms(2) Inr have "s' = s \<and> isl res \<or> res = Inr v \<and> s' = s1" by (auto simp: sql_create_membership_def split: if_splits)
  with m show ?thesis by (auto simp: row_entry_def member_entry_def isl_def)
qed

lemma sql_set_status_law:
  assumes "tables_typed rank s" and "sql_set_status i st s = (res, s')"
  shows "case res of Inl e \<Rightarrow> s' = s | Inr v \<Rightarrow> tables_typed rank s' \<and> sql_admin_view s' = add_member i (member_entry v) (sql_admin_view s) \<and>
    mv_status v = st \<and> (\<forall>u c st0. aw_members (sql_admin_view s) i = Some (u, c, st0) \<longrightarrow> mv_user v = u \<and> mv_company v = c)"
proof -
  let ?org = "ad_org s" and ?us = "id_users (ad_ident s)"
  let ?ms = "od_memberships ?org"
  let ?org' = "?org\<lparr>od_memberships := map (restated i st) ?ms\<rparr>"
  have re: "(\<lambda>r. if mb_id r = i then r\<lparr>mb_status := st\<rparr> else r) = restated i st" by (rule ext) (simp add: restated_def)
  have t: "members_ok ?us ?org" "tenant_links ?org" "grants_ok ?org" using assms(1) by (simp_all add: tables_typed_def)
  show ?thesis
  proof (cases "\<forall>r \<in> set ?ms. mb_id r = i \<longrightarrow> r\<lparr>mb_status := st\<rparr> = r")
    case True
    then have "map (restated i st) ?ms = ?ms" by (intro map_idI) (auto simp: restated_def)
    with True assms(2) show ?thesis by (auto simp: sql_set_status_def Let_def re)
  next
    case False
    then obtain r where r: "r \<in> set ?ms" "mb_id r = i" by blast
    have 1: "members_ok ?us ?org'" using t(1) by (simp add: members_ok_def comp_def)
    have "links_ok P (map (restated i st) ?ms) rows l" if "links_ok P ?ms rows l" "\<And>m x. P (restated i st m) x = P m x" for P rows l
      using that(2) by (intro links_ok_members [OF that(1)]) (auto intro: rev_bexI)
    with t(2) have 2: "tenant_links ?org'" by (simp add: tenant_links_def)
    have 3: "grants_ok ?org'" using t(3) by (simp add: grants_ok_def)
    let ?s = "s\<lparr>ad_org := ?org'\<rparr>"
    have typed: "tables_typed rank ?s" by (rule typed_org [OF assms(1) 1 2 3]) simp
    have "restated i st r \<in> set (od_memberships (ad_org ?s))" using r by simp
    from view_of_row [of ?us ?s, OF _ this] 1 r
    obtain v where v: "get_membership_view i ?s = Inr v" "member_entry v = (mb_user r, mb_company r, st)"
      by (auto simp: row_entry_def restated_def)
    have old: "members_map ?ms i = Some (mb_user r, mb_company r, mb_status r)"
      using t(1) r members_map_row by (auto simp: members_ok_def row_entry_def)
    have "sql_admin_view ?s = add_member i (member_entry v) (sql_admin_view s)"
      using old v by (simp add: sql_admin_view_def add_member_def members_map_status)
    moreover have "res = Inr v" "s' = ?s" using assms(2) False v by (auto simp: sql_set_status_def Let_def re)
    ultimately show ?thesis using typed v old by (simp add: sql_admin_view_def member_entry_def)
  qed
qed

lemma sql_delete_membership_law:
  assumes "tables_typed rank s" and "sql_delete_membership i s = (res, s')"
  shows "case res of Inl e \<Rightarrow> s' = s | Inr _ \<Rightarrow> tables_typed rank s' \<and>
    aw_members (sql_admin_view s') = (aw_members (sql_admin_view s))(i := None) \<and>
    links_without i (aw_roles (sql_admin_view s)) (aw_roles (sql_admin_view s')) \<and>
    links_without i (aw_deps (sql_admin_view s)) (aw_deps (sql_admin_view s')) \<and>
    links_without i (aw_titles (sql_admin_view s)) (aw_titles (sql_admin_view s'))"
proof -
  let ?org = "ad_org s"
  let ?ms = "filter (\<lambda>r. mb_id r \<noteq> i) (od_memberships ?org)"
  let ?org' = "?org\<lparr>od_role_links := unlink i (od_role_links ?org), od_dep_links := unlink i (od_dep_links ?org),
    od_title_links := unlink i (od_title_links ?org), od_memberships := ?ms\<rparr>"
  have t: "members_ok (id_users (ad_ident s)) ?org" "tenant_links ?org" "grants_ok ?org" using assms(1) by (simp_all add: tables_typed_def)
  have 1: "members_ok (id_users (ad_ident s)) ?org'" using t(1) by (auto simp: members_ok_def distinct_map_filter)
  have 2: "tenant_links ?org'" using t(2) by (simp add: tenant_links_def links_ok_unlink)
  have 3: "grants_ok ?org'" using t(3) by (simp add: grants_ok_def)
  have typed: "tables_typed rank (s\<lparr>ad_org := ?org'\<rparr>)" by (rule typed_org [OF assms(1) 1 2 3]) simp
  show ?thesis
  proof (cases res)
    case (Inl e)
    with assms(2) show ?thesis by (auto simp: sql_delete_membership_def Let_def split: if_splits)
  next
    case (Inr x)
    with assms(2) have s': "s' = s\<lparr>ad_org := ?org'\<rparr>" by (auto simp: sql_delete_membership_def Let_def split: if_splits)
    from Inr typed show ?thesis unfolding s' by (simp add: sql_admin_view_def members_map_delete unlink_live)
  qed
qed

lemma membership_of_Some: "membership_of i s = Some m \<Longrightarrow> m \<in> set (od_memberships (ad_org s)) \<and> mb_id m = i"
  by (auto simp: membership_of_def find_Some_iff)

lemma active_row_Some: "active_row rows i = Some r \<Longrightarrow> r \<in> set rows \<and> og_id r = i \<and> og_status r = ''active''"
  by (auto simp: active_row_def find_Some_iff)

lemma ensure_role_fits:
  assumes "ensure_role i t s = Inr u"
  obtains m r where "m \<in> set (od_memberships (ad_org s))" and "mb_id m = i" and "r \<in> set (od_roles (ad_org s))"
    and "og_id r = t" and "og_status r = ''active''" and "role_fits m r"
proof -
  obtain m r where mr: "membership_of i s = Some m" "active_row (od_roles (ad_org s)) t = Some r" "role_fits m r"
    using assms by (auto simp: ensure_role_def role_fits_def split: option.splits if_splits)
  show thesis using membership_of_Some [OF mr(1)] active_row_Some [OF mr(2)] mr(3) by (intro that [of m r]) simp_all
qed

lemma ensure_role_ok:
  assumes "ensure_role i t s = Inr u"
  shows "link_ok role_fits (od_memberships (ad_org s)) (od_roles (ad_org s)) (i, t)"
proof (rule ensure_role_fits [OF assms])
  fix m r
  assume "m \<in> set (od_memberships (ad_org s))" "mb_id m = i" "r \<in> set (od_roles (ad_org s))" "og_id r = t" "role_fits m r"
  then show ?thesis unfolding link_ok_def by (intro bexI [of _ m] bexI [of _ r]) simp_all
qed

lemma ensure_same_company_ok:
  assumes "ensure_same_company rows what i t s = Inr u"
  shows "link_ok own_company (od_memberships (ad_org s)) rows (i, t)"
proof -
  obtain m r where "membership_of i s = Some m" "active_row rows t = Some r" "own_company m r"
    using assms by (auto simp: ensure_same_company_def own_company_def split: option.splits if_splits)
  with membership_of_Some active_row_Some show ?thesis unfolding link_ok_def by (metis fst_conv snd_conv)
qed

lemma sql_link_laws:
  assumes "tables_typed rank s"
  shows "sql_add_role i t s = (Inr (), s') \<Longrightarrow> tables_typed rank s' \<and> sql_admin_view s' = (sql_admin_view s)\<lparr>aw_roles := insert (i, t) (aw_roles (sql_admin_view s))\<rparr>"
    and "sql_remove_role i t s = (Inr (), s') \<Longrightarrow> tables_typed rank s' \<and> sql_admin_view s' = (sql_admin_view s)\<lparr>aw_roles := aw_roles (sql_admin_view s) - {(i, t)}\<rparr>"
    and "sql_add_dep i t s = (Inr (), s') \<Longrightarrow> tables_typed rank s' \<and> sql_admin_view s' = (sql_admin_view s)\<lparr>aw_deps := insert (i, t) (aw_deps (sql_admin_view s))\<rparr>"
    and "sql_remove_dep i t s = (Inr (), s') \<Longrightarrow> tables_typed rank s' \<and> sql_admin_view s' = (sql_admin_view s)\<lparr>aw_deps := aw_deps (sql_admin_view s) - {(i, t)}\<rparr>"
    and "sql_add_title i t s = (Inr (), s') \<Longrightarrow> tables_typed rank s' \<and> sql_admin_view s' = (sql_admin_view s)\<lparr>aw_titles := insert (i, t) (aw_titles (sql_admin_view s))\<rparr>"
    and "sql_remove_title i t s = (Inr (), s') \<Longrightarrow> tables_typed rank s' \<and> sql_admin_view s' = (sql_admin_view s)\<lparr>aw_titles := aw_titles (sql_admin_view s) - {(i, t)}\<rparr>"
proof -
  have t: "links_ok role_fits (od_memberships (ad_org s)) (od_roles (ad_org s)) (od_role_links (ad_org s))"
    "links_ok own_company (od_memberships (ad_org s)) (od_deps (ad_org s)) (od_dep_links (ad_org s))"
    "links_ok own_company (od_memberships (ad_org s)) (od_titles (ad_org s)) (od_title_links (ad_org s))"
    using assms by (simp_all add: tables_typed_def tenant_links_def)
  show "tables_typed rank s' \<and> sql_admin_view s' = (sql_admin_view s)\<lparr>aw_roles := insert (i, t) (aw_roles (sql_admin_view s))\<rparr>"
    if "sql_add_role i t s = (Inr (), s')"
  proof -
    from that have e: "ensure_role i t s = Inr ()" and s': "s' = s\<lparr>ad_org := (ad_org s)\<lparr>od_role_links := upsert_link i t (od_role_links (ad_org s))\<rparr>\<rparr>"
      by (simp_all add: sql_add_role_def split: sum.splits)
    show ?thesis unfolding s' using typed_links(1) [OF assms links_ok_upsert [OF t(1) ensure_role_ok [OF e]]]
      by (simp add: sql_admin_view_def upsert_link_live)
  qed
  show "tables_typed rank s' \<and> sql_admin_view s' = (sql_admin_view s)\<lparr>aw_roles := aw_roles (sql_admin_view s) - {(i, t)}\<rparr>"
    if "sql_remove_role i t s = (Inr (), s')"
  proof -
    from that have s': "s' = s\<lparr>ad_org := (ad_org s)\<lparr>od_role_links := snd (drop_link i t (od_role_links (ad_org s)))\<rparr>\<rparr>"
      by (simp add: sql_remove_role_def Let_def split: if_splits)
    show ?thesis unfolding s' using typed_links(1) [OF assms links_ok_drop [OF t(1)]]
      by (simp add: sql_admin_view_def drop_link_live)
  qed
  show "tables_typed rank s' \<and> sql_admin_view s' = (sql_admin_view s)\<lparr>aw_deps := insert (i, t) (aw_deps (sql_admin_view s))\<rparr>"
    if "sql_add_dep i t s = (Inr (), s')"
  proof -
    from that have e: "ensure_same_company (od_deps (ad_org s)) ''department'' i t s = Inr ()" and s': "s' = s\<lparr>ad_org := (ad_org s)\<lparr>od_dep_links := upsert_link i t (od_dep_links (ad_org s))\<rparr>\<rparr>"
      by (simp_all add: sql_add_dep_def split: sum.splits)
    show ?thesis unfolding s' using typed_links(2) [OF assms links_ok_upsert [OF t(2) ensure_same_company_ok [OF e]]]
      by (simp add: sql_admin_view_def upsert_link_live)
  qed
  show "tables_typed rank s' \<and> sql_admin_view s' = (sql_admin_view s)\<lparr>aw_deps := aw_deps (sql_admin_view s) - {(i, t)}\<rparr>"
    if "sql_remove_dep i t s = (Inr (), s')"
  proof -
    from that have s': "s' = s\<lparr>ad_org := (ad_org s)\<lparr>od_dep_links := snd (drop_link i t (od_dep_links (ad_org s)))\<rparr>\<rparr>"
      by (simp add: sql_remove_dep_def Let_def split: if_splits)
    show ?thesis unfolding s' using typed_links(2) [OF assms links_ok_drop [OF t(2)]]
      by (simp add: sql_admin_view_def drop_link_live)
  qed
  show "tables_typed rank s' \<and> sql_admin_view s' = (sql_admin_view s)\<lparr>aw_titles := insert (i, t) (aw_titles (sql_admin_view s))\<rparr>"
    if "sql_add_title i t s = (Inr (), s')"
  proof -
    from that have e: "ensure_same_company (od_titles (ad_org s)) ''title'' i t s = Inr ()" and s': "s' = s\<lparr>ad_org := (ad_org s)\<lparr>od_title_links := upsert_link i t (od_title_links (ad_org s))\<rparr>\<rparr>"
      by (simp_all add: sql_add_title_def split: sum.splits)
    show ?thesis unfolding s' using typed_links(3) [OF assms links_ok_upsert [OF t(3) ensure_same_company_ok [OF e]]]
      by (simp add: sql_admin_view_def upsert_link_live)
  qed
  show "tables_typed rank s' \<and> sql_admin_view s' = (sql_admin_view s)\<lparr>aw_titles := aw_titles (sql_admin_view s) - {(i, t)}\<rparr>"
    if "sql_remove_title i t s = (Inr (), s')"
  proof -
    from that have s': "s' = s\<lparr>ad_org := (ad_org s)\<lparr>od_title_links := snd (drop_link i t (od_title_links (ad_org s)))\<rparr>\<rparr>"
      by (simp add: sql_remove_title_def Let_def split: if_splits)
    show ?thesis unfolding s' using typed_links(3) [OF assms links_ok_drop [OF t(3)]]
      by (simp add: sql_admin_view_def drop_link_live)
  qed
qed

definition regranted :: "string \<Rightarrow> string \<Rightarrow> grant_row \<Rightarrow> grant_row" where
  "regranted r p g = (if gr_role g = r \<and> gr_permission g = p then g\<lparr>gr_status := ''active''\<rparr> else g)"

lemma regranted_simps [simp]: "gr_role (regranted r p g) = gr_role g" "gr_permission (regranted r p g) = gr_permission g"
  by (simp_all add: regranted_def)

lemma sql_add_permission_law:
  assumes "tables_typed rank s" and "sql_add_permission r p s = (Inr (), s')"
  shows "tables_typed rank s' \<and> sql_admin_view s' = sql_admin_view s"
proof -
  let ?org = "ad_org s"
  let ?hit = "\<lambda>g. gr_role g = r \<and> gr_permission g = p"
  have re: "(\<lambda>g. if ?hit g then g\<lparr>gr_status := ''active''\<rparr> else g) = regranted r p" by (rule ext) (simp add: regranted_def)
  have refs: "r \<in> og_id ` set (od_roles ?org)" "p \<in> pm_id ` set (od_permissions ?org)"
    using assms(2) by (simp_all add: sql_add_permission_def Let_def list_ex_key split: if_splits)
  have g: "grants_ok ?org" using assms(1) by (simp add: tables_typed_def)
  show ?thesis
  proof (cases "list_ex ?hit (od_grants ?org)")
    case True
    with assms(2) refs have s': "s' = s\<lparr>ad_org := ?org\<lparr>od_grants := map (regranted r p) (od_grants ?org)\<rparr>\<rparr>"
      by (simp add: sql_add_permission_def Let_def list_ex_key re split: if_splits)
    have "grants_ok (?org\<lparr>od_grants := map (regranted r p) (od_grants ?org)\<rparr>)"
      using g by (simp add: grants_ok_def comp_def image_image)
    from typed_grants [OF assms(1) this] show ?thesis unfolding s' by (simp add: sql_admin_view_def)
  next
    case False
    let ?gs = "od_grants ?org @ [\<lparr>gr_role = r, gr_permission = p, gr_status = ''active''\<rparr>]"
    from False assms(2) refs have s': "s' = s\<lparr>ad_org := ?org\<lparr>od_grants := ?gs\<rparr>\<rparr>"
      by (simp add: sql_add_permission_def Let_def list_ex_key split: if_splits)
    have "(r, p) \<notin> (\<lambda>g. (gr_role g, gr_permission g)) ` set (od_grants ?org)" using False by (auto simp: list_ex_iff image_iff)
    with g refs have "grants_ok (?org\<lparr>od_grants := ?gs\<rparr>)" by (simp add: grants_ok_def)
    from typed_grants [OF assms(1) this] show ?thesis unfolding s' by (simp add: sql_admin_view_def)
  qed
qed

lemma sql_remove_permission_law:
  assumes "tables_typed rank s" and "sql_remove_permission r p s = (Inr (), s')"
  shows "tables_typed rank s' \<and> sql_admin_view s' = sql_admin_view s"
proof -
  let ?org = "ad_org s"
  let ?gs = "filter (\<lambda>g. \<not> (gr_role g = r \<and> gr_permission g = p)) (od_grants ?org)"
  have "grants_ok ?org" using assms(1) by (simp add: tables_typed_def)
  then have "grants_ok (?org\<lparr>od_grants := ?gs\<rparr>)" unfolding grants_ok_def
    by (simp add: distinct_map_filter image_subset_iff)
  note typed = typed_grants [OF assms(1) this]
  have s': "s' = s\<lparr>ad_org := ?org\<lparr>od_grants := ?gs\<rparr>\<rparr>" using assms(2) by (simp add: sql_remove_permission_def Let_def split: if_splits)
  show ?thesis using typed unfolding s' by (simp add: sql_admin_view_def)
qed

text \<open>The rules.\<close>

lemma rules_ok_snoc: "rules_ok org keys \<Longrightarrow> k \<notin> set keys \<Longrightarrow> fst k \<in> fst ` set (od_companies org) \<Longrightarrow> rules_ok org (keys @ [k])"
  by (auto simp: rules_ok_def)

lemma sql_scope_rule_law:
  assumes "tables_typed rank s" and "sql_scope_rule fmtv x s = (Inr (), s')"
  shows "tables_typed rank s' \<and> sql_admin_view s' = sql_admin_view s"
proof -
  obtain r where r: "scope_rule_of fmtv x = Inr r" using assms(2) by (cases "scope_rule_of fmtv x") (auto simp: sql_scope_rule_def)
  let ?rs = "ad_scope_rules s"
  have s': "s' = s\<lparr>ad_scope_rules := ?rs @ [r]\<rparr>" and c: "has_company s (sr_company_id r)"
    and n: "\<not> list_ex (\<lambda>x. sr_company_id x = sr_company_id r \<and> sr_code x = sr_code r) ?rs"
    using assms(2) r by (simp_all add: sql_scope_rule_def split: if_splits)
  have "scope_rule_key r \<notin> set (map scope_rule_key ?rs)" using n by (auto simp: list_ex_iff scope_rule_key_def)
  with c assms(1) show ?thesis unfolding s'
    by (simp add: tables_typed_def rules_ok_snoc has_company_def map_of_eq_None_iff scope_rule_key_def sql_admin_view_def)
qed

lemma insert_rule_ok:
  assumes "insert_rule what r s rows = Inr rows'" and "rules_ok (ad_org s) (map rule_key rows)"
  shows "rules_ok (ad_org s) (map rule_key rows')"
proof -
  have "rows' = rows @ [r]" "has_company s (rl_company r)" "\<not> list_ex (\<lambda>x. rl_company x = rl_company r \<and> rl_code x = rl_code r) rows"
    using assms(1) by (simp_all add: insert_rule_def split: if_splits)
  moreover from this have "rule_key r \<notin> set (map rule_key rows)" by (auto simp: list_ex_iff rule_key_def)
  ultimately show ?thesis using assms(2) by (simp add: rules_ok_snoc has_company_def map_of_eq_None_iff rule_key_def)
qed

lemma sql_rule_laws:
  assumes "tables_typed rank s"
  shows "sql_assignee_rule fmtv rnd x s = (Inr (), s') \<Longrightarrow> tables_typed rank s' \<and> sql_admin_view s' = sql_admin_view s"
    and "sql_notice_rule fmtv rnd x s = (Inr (), s') \<Longrightarrow> tables_typed rank s' \<and> sql_admin_view s' = sql_admin_view s"
proof -
  have t: "rules_ok (ad_org s) (map rule_key (ad_assignee_rules s))" "rules_ok (ad_org s) (map rule_key (ad_notice_rules s))"
    using assms by (simp_all add: tables_typed_def)
  show "tables_typed rank s' \<and> sql_admin_view s' = sql_admin_view s" if run: "sql_assignee_rule fmtv rnd x s = (Inr (), s')"
  proof -
    from run obtain r rows where r: "insert_rule ''insert workflow_assignee_rule'' r s (ad_assignee_rules s) = Inr rows"
      and s': "s' = s\<lparr>ad_assignee_rules := rows\<rparr>"
      by (auto simp: sql_assignee_rule_def seq_iffs split: sum.splits)
    from insert_rule_ok [OF r t(1)] assms show ?thesis unfolding s' by (simp add: tables_typed_def sql_admin_view_def)
  qed
  show "tables_typed rank s' \<and> sql_admin_view s' = sql_admin_view s" if run: "sql_notice_rule fmtv rnd x s = (Inr (), s')"
  proof -
    from run obtain r rows where r: "insert_rule ''insert notification_rule'' r s (ad_notice_rules s) = Inr rows"
      and s': "s' = s\<lparr>ad_notice_rules := rows\<rparr>"
      by (auto simp: sql_notice_rule_def seq_iffs split: sum.splits)
    from insert_rule_ok [OF r t(2)] assms show ?thesis unfolding s' by (simp add: tables_typed_def sql_admin_view_def)
  qed
qed

text \<open>A failed statement leaves the tables as they were.\<close>

lemma sql_fail_laws:
  "sql_add_role i t s = (Inl e, s') \<Longrightarrow> s' = s" "sql_remove_role i t s = (Inl e, s') \<Longrightarrow> s' = s"
  "sql_add_dep i t s = (Inl e, s') \<Longrightarrow> s' = s" "sql_remove_dep i t s = (Inl e, s') \<Longrightarrow> s' = s"
  "sql_add_title i t s = (Inl e, s') \<Longrightarrow> s' = s" "sql_remove_title i t s = (Inl e, s') \<Longrightarrow> s' = s"
  "sql_add_permission i t s = (Inl e, s') \<Longrightarrow> s' = s" "sql_remove_permission i t s = (Inl e, s') \<Longrightarrow> s' = s"
  "sql_scope_rule fmtv x s = (Inl e, s') \<Longrightarrow> s' = s" "sql_assignee_rule fmtv rnd x s = (Inl e, s') \<Longrightarrow> s' = s"
  "sql_notice_rule fmtv rnd x s = (Inl e, s') \<Longrightarrow> s' = s"
  by (simp_all add: sql_add_role_def sql_remove_role_def sql_add_dep_def sql_remove_dep_def sql_add_title_def sql_remove_title_def
      sql_add_permission_def sql_remove_permission_def sql_scope_rule_def sql_assignee_rule_def sql_notice_rule_def Let_def
      split: sum.splits if_splits)

lemma sql_create_user_fail:
  assumes "tables_typed rank s" and "sql_create_user rank now u h opts s = (Inl e, s')"
  shows "s' = s"
  using sql_create_user_cases [OF assms] by cases simp_all

interpretation sql_adm: admin_store "sql_admin rank fmtv rnd" "tables_typed rank" sql_admin_view for rank fmtv rnd
proof (unfold_locales, goal_cases)
  case (1 s now u h opts uv s')
  then show ?case by (intro sql_create_user_law) (simp_all add: sql_admin_def)
next
  case (2 s m v s')
  with sql_create_membership_law [of rank s m "Inr v" s'] show ?case by (simp add: sql_admin_def)
next
  case (3 s i st v s')
  with sql_set_status_law [of rank s i st "Inr v" s'] show ?case by (simp add: sql_admin_def)
next
  case (4 s i s')
  with sql_delete_membership_law [of rank s i "Inr ()" s'] show ?case by (simp add: sql_admin_def)
next
  case (19 s now u h opts e s')
  then show ?case by (intro sql_create_user_fail) (simp_all add: sql_admin_def)
next
  case (20 s m e s')
  with sql_create_membership_law [of rank s m "Inl e" s'] show ?case by (simp add: sql_admin_def)
next
  case (21 s i st e s')
  with sql_set_status_law [of rank s i st "Inl e" s'] show ?case by (simp add: sql_admin_def)
next
  case (22 s i e s')
  with sql_delete_membership_law [of rank s i "Inl e" s'] show ?case by (simp add: sql_admin_def)
next
  case (16 c s ms s')
  then show ?case by (simp add: sql_admin_def sql_company_members_def)
next
  case (17 s y s')
  then show ?case by (simp add: sql_admin_def sql_list_permissions_def)
next
  case (18 c s y s')
  then show ?case by (simp add: sql_admin_def sql_list_roles_def)
qed (unfold sql_admin_def admin_port.simps,
    (rule sql_link_laws sql_add_permission_law sql_remove_permission_law sql_scope_rule_law sql_rule_laws sql_fail_laws; assumption)+)

end
