(* ===== verification/AdminService.thy ===== *)
theory AdminService
  imports AdminContract ServiceState
begin

section \<open>The administration service\<close>

text \<open>
  Models \<^verbatim>\<open>internal/companyaccess/app/admin_service.go\<close> over a repository port and the
  authorization service. Every operation first asks the authorizer, naming the caller, the action
  and the identifier of the target, but no attribute of it. Parameters: bcrypt's hash and the clock.
  The repository's contract gives what a history of calls leaves behind; on the MySQL tables the
  effects are followed to the login and to the effective access of the member.
\<close>

subsection \<open>Operations\<close>

record ('r, 's) admin_env =
  ae_port :: "'r admin_port"
  ae_resolve :: "'s resolver"
  ae_policy :: policy_source
  ae_bcrypt :: "string \<Rightarrow> go_error + string"
  ae_now :: int

record create_user_request =
  cu_login :: string
  cu_password :: string
  cu_name :: string
  cu_email :: string
  cu_phone :: string
  cu_status :: string
  cu_company :: string
  cu_mstatus :: string

definition admin_authorize :: "('r, 's) admin_env \<Rightarrow> subject_ref \<Rightarrow> string \<Rightarrow> string \<Rightarrow> ('r, 's, unit) svc_action" where
  "admin_authorize env sub action rid =
    seqE (wrapE (WrapErr ''authorize admin action'') (on_auth (authorize (ae_resolve env) (ae_policy env)
      \<lparr>rq_subject = sub, rq_action = action, rq_resource = \<lparr>res_type = ''admin_access'', res_id = rid, res_attrs = []\<rparr>\<rparr>))) (\<lambda>d.
    chkE (dc_verdict d = Allow) (access_denied (case dc_deny d of None \<Rightarrow> CodePermissionDenied | Some c \<Rightarrow> c)))"

definition admin_has_permission :: "('r, 's) admin_env \<Rightarrow> subject_ref \<Rightarrow> string \<Rightarrow> ('r, 's, bool) svc_action" where
  "admin_has_permission env sub p =
    seqE (wrapE (WrapErr ''load effective access'') (on_auth (get_effective_access (ae_resolve env) (sub_membership sub) (sub_company sub))))
      (\<lambda>eff. okE (List.member (ea_permissions eff) p))"

definition foreign_company_denied :: go_error where
  "foreign_company_denied = new_http_error 403 CodePermissionDenied ''enterprise admin can only create users for current company''"

definition or_active :: "string \<Rightarrow> string" where
  "or_active s = (if s = [] then ''active'' else s)"

definition new_user_view :: "string \<Rightarrow> create_user_request \<Rightarrow> user_view" where
  "new_user_view uid req = \<lparr>uv_id = uid, uv_login = to_lower (trim_space (cu_login req)), uv_name = trim_space (cu_name req),
     uv_email = trim_space (cu_email req), uv_phone = trim_space (cu_phone req), uv_status = or_active (trim_space (cu_status req)),
     uv_membership = [], uv_mstatus = [], uv_company = [], uv_cname = []\<rparr>"

definition admin_create_user :: "('r, 's) admin_env \<Rightarrow> subject_ref \<Rightarrow> create_user_request \<Rightarrow> ('r, 's, user_view) svc_action" where
  "admin_create_user env sub req =
    seqE (admin_authorize env sub ''admin.membership.create'' (sub_company sub)) (\<lambda>_.
    seqE (admin_has_permission env sub ''rbac.manage'') (\<lambda>web.
    let wanted = trim_space (cu_company req) in
    seqE (chkE (web \<or> wanted = [] \<or> wanted = sub_company sub) foreign_company_denied) (\<lambda>_.
    let company = (if web then wanted else sub_company sub);
        mstatus = (if company \<noteq> [] then or_active (trim_space (cu_mstatus req)) else trim_space (cu_mstatus req)) in
    seqE (chkE (to_lower (trim_space (cu_login req)) \<noteq> []) (bad_request ''login_id required'')) (\<lambda>_.
    seqE (chkE (trim_space (cu_name req) \<noteq> []) (bad_request ''full_name required'')) (\<lambda>_.
    seqE (chkE (8 \<le> length (cu_password req)) (bad_request ''password must be at least 8 characters'')) (\<lambda>_.
    seqE (wrapE (WrapErr ''hash password'') (liftE (\<lambda>_. ae_bcrypt env (cu_password req)))) (\<lambda>h.
    seqE (on_ids new_uuid) (\<lambda>uid.
    seqE (if company \<noteq> [] then on_ids new_uuid else okE []) (\<lambda>mid.
    on_repo (an_create_user (ae_port env) (ae_now env) (new_user_view uid req) h
      \<lparr>uo_membership = mid, uo_company = company, uo_status = mstatus\<rparr>))))))))))"

definition create_membership :: "('r, 's) admin_env \<Rightarrow> subject_ref \<Rightarrow> string \<Rightarrow> string \<Rightarrow> string \<Rightarrow> ('r, 's, membership_view) svc_action" where
  "create_membership env sub user company status =
    seqE (admin_authorize env sub ''admin.membership.create'' company) (\<lambda>_.
    seqE (on_ids new_uuid) (\<lambda>i.
    on_repo (an_create_membership (ae_port env)
      \<lparr>mv_id = i, mv_user = user, mv_company = company, mv_name = company, mv_status = or_active status\<rparr>)))"

definition update_membership :: "('r, 's) admin_env \<Rightarrow> subject_ref \<Rightarrow> string \<Rightarrow> string \<Rightarrow> ('r, 's, membership_view) svc_action" where
  "update_membership env sub i status =
    seqE (admin_authorize env sub ''admin.membership.update'' i) (\<lambda>_. on_repo (an_update_status (ae_port env) i status))"

definition delete_membership :: "('r, 's) admin_env \<Rightarrow> subject_ref \<Rightarrow> string \<Rightarrow> ('r, 's, unit) svc_action" where
  "delete_membership env sub i =
    seqE (admin_authorize env sub ''admin.membership.delete'' i) (\<lambda>_. on_repo (an_delete (ae_port env) i))"

definition list_company_memberships :: "('r, 's) admin_env \<Rightarrow> subject_ref \<Rightarrow> string \<Rightarrow> ('r, 's, membership_view list) svc_action" where
  "list_company_memberships env sub c =
    seqE (admin_authorize env sub ''admin.membership.list'' c) (\<lambda>_. on_repo (an_list (ae_port env) c))"

definition assign_role :: "('r, 's) admin_env \<Rightarrow> subject_ref \<Rightarrow> string \<Rightarrow> string \<Rightarrow> ('r, 's, unit) svc_action" where
  "assign_role env sub i r =
    seqE (admin_authorize env sub ''admin.membership.role.assign'' i) (\<lambda>_. on_repo (an_add_role (ae_port env) i r))"

definition remove_role :: "('r, 's) admin_env \<Rightarrow> subject_ref \<Rightarrow> string \<Rightarrow> string \<Rightarrow> ('r, 's, unit) svc_action" where
  "remove_role env sub i r =
    seqE (admin_authorize env sub ''admin.membership.role.remove'' i) (\<lambda>_. on_repo (an_remove_role (ae_port env) i r))"

definition assign_department :: "('r, 's) admin_env \<Rightarrow> subject_ref \<Rightarrow> string \<Rightarrow> string \<Rightarrow> ('r, 's, unit) svc_action" where
  "assign_department env sub i d =
    seqE (admin_authorize env sub ''admin.membership.department.assign'' i) (\<lambda>_. on_repo (an_add_dep (ae_port env) i d))"

definition remove_department :: "('r, 's) admin_env \<Rightarrow> subject_ref \<Rightarrow> string \<Rightarrow> string \<Rightarrow> ('r, 's, unit) svc_action" where
  "remove_department env sub i d =
    seqE (admin_authorize env sub ''admin.membership.department.remove'' i) (\<lambda>_. on_repo (an_remove_dep (ae_port env) i d))"

definition assign_title :: "('r, 's) admin_env \<Rightarrow> subject_ref \<Rightarrow> string \<Rightarrow> string \<Rightarrow> ('r, 's, unit) svc_action" where
  "assign_title env sub i t =
    seqE (admin_authorize env sub ''admin.membership.title.assign'' i) (\<lambda>_. on_repo (an_add_title (ae_port env) i t))"

definition remove_title :: "('r, 's) admin_env \<Rightarrow> subject_ref \<Rightarrow> string \<Rightarrow> string \<Rightarrow> ('r, 's, unit) svc_action" where
  "remove_title env sub i t =
    seqE (admin_authorize env sub ''admin.membership.title.remove'' i) (\<lambda>_. on_repo (an_remove_title (ae_port env) i t))"

definition list_permissions :: "('r, 's) admin_env \<Rightarrow> subject_ref \<Rightarrow> ('r, 's, string list) svc_action" where
  "list_permissions env sub =
    seqE (admin_authorize env sub ''admin.permissions.list'' []) (\<lambda>_. on_repo (an_permissions (ae_port env)))"

definition list_roles :: "('r, 's) admin_env \<Rightarrow> subject_ref \<Rightarrow> ('r, 's, string list) svc_action" where
  "list_roles env sub =
    seqE (admin_authorize env sub ''admin.roles.list'' []) (\<lambda>_. on_repo (an_roles (ae_port env) (sub_company sub)))"

definition assign_role_permission :: "('r, 's) admin_env \<Rightarrow> subject_ref \<Rightarrow> string \<Rightarrow> string \<Rightarrow> ('r, 's, unit) svc_action" where
  "assign_role_permission env sub r p =
    seqE (admin_authorize env sub ''admin.role.permission.assign'' r) (\<lambda>_. on_repo (an_add_permission (ae_port env) r p))"

definition remove_role_permission :: "('r, 's) admin_env \<Rightarrow> subject_ref \<Rightarrow> string \<Rightarrow> string \<Rightarrow> ('r, 's, unit) svc_action" where
  "remove_role_permission env sub r p =
    seqE (admin_authorize env sub ''admin.role.permission.remove'' r) (\<lambda>_. on_repo (an_remove_permission (ae_port env) r p))"

definition create_scope_rule :: "('r, 's) admin_env \<Rightarrow> subject_ref \<Rightarrow> attrs \<Rightarrow> ('r, 's, unit) svc_action" where
  "create_scope_rule env sub x =
    seqE (admin_authorize env sub ''admin.resource_scope_rule.create'' []) (\<lambda>_. on_repo (an_scope_rule (ae_port env) x))"

definition create_assignee_rule :: "('r, 's) admin_env \<Rightarrow> subject_ref \<Rightarrow> attrs \<Rightarrow> ('r, 's, unit) svc_action" where
  "create_assignee_rule env sub x =
    seqE (admin_authorize env sub ''admin.workflow_assignee_rule.create'' []) (\<lambda>_. on_repo (an_assignee_rule (ae_port env) x))"

definition create_notice_rule :: "('r, 's) admin_env \<Rightarrow> subject_ref \<Rightarrow> attrs \<Rightarrow> ('r, 's, unit) svc_action" where
  "create_notice_rule env sub x =
    seqE (admin_authorize env sub ''admin.notification_rule.create'' []) (\<lambda>_. on_repo (an_notice_rule (ae_port env) x))"

subsection \<open>Histories\<close>

datatype admin_call =
    CreateUser create_user_request
  | CreateMember string string string
  | SetStatus string string
  | DeleteMember string
  | ListMembers string
  | AssignRole string string
  | RemoveRole string string
  | AssignDep string string
  | RemoveDep string string
  | AssignTitle string string
  | RemoveTitle string string
  | ListPermissions
  | ListRoles
  | GrantPermission string string
  | RevokePermission string string
  | ScopeRule attrs
  | AssigneeRule attrs
  | NoticeRule attrs

definition forget :: "('r, 's, 'a) svc_action \<Rightarrow> ('r, 's, unit) svc_action" where
  "forget m = seqE m (\<lambda>_. okE ())"

fun run_call :: "('r, 's) admin_env \<Rightarrow> subject_ref \<Rightarrow> admin_call \<Rightarrow> ('r, 's, unit) svc_action" where
  "run_call env sub (CreateUser req) = forget (admin_create_user env sub req)"
| "run_call env sub (CreateMember u c st) = forget (create_membership env sub u c st)"
| "run_call env sub (SetStatus i st) = forget (update_membership env sub i st)"
| "run_call env sub (DeleteMember i) = delete_membership env sub i"
| "run_call env sub (ListMembers c) = forget (list_company_memberships env sub c)"
| "run_call env sub (AssignRole i r) = assign_role env sub i r"
| "run_call env sub (RemoveRole i r) = remove_role env sub i r"
| "run_call env sub (AssignDep i d) = assign_department env sub i d"
| "run_call env sub (RemoveDep i d) = remove_department env sub i d"
| "run_call env sub (AssignTitle i t) = assign_title env sub i t"
| "run_call env sub (RemoveTitle i t) = remove_title env sub i t"
| "run_call env sub ListPermissions = forget (list_permissions env sub)"
| "run_call env sub ListRoles = forget (list_roles env sub)"
| "run_call env sub (GrantPermission r p) = assign_role_permission env sub r p"
| "run_call env sub (RevokePermission r p) = remove_role_permission env sub r p"
| "run_call env sub (ScopeRule x) = create_scope_rule env sub x"
| "run_call env sub (AssigneeRule x) = create_assignee_rule env sub x"
| "run_call env sub (NoticeRule x) = create_notice_rule env sub x"

text \<open>The calls of a history that succeeded, and the state after it.\<close>

fun run_calls :: "('r, 's) admin_env \<Rightarrow> (subject_ref \<times> admin_call) list \<Rightarrow> ('r, 's) svc_state \<Rightarrow> admin_call list \<times> ('r, 's) svc_state" where
  "run_calls env [] s = ([], s)"
| "run_calls env ((sub, call) # h) s = (case run_call env sub call s of
     (Inl e, s1) \<Rightarrow> run_calls env h s1
   | (Inr _, s1) \<Rightarrow> (case run_calls env h s1 of (past, s2) \<Rightarrow> (call # past, s2)))"

text \<open>The roles a list of successful calls leaves linked to a membership, and whether it deletes it.\<close>

fun replay_role :: "string \<Rightarrow> string set \<Rightarrow> admin_call \<Rightarrow> string set" where
  "replay_role i R (AssignRole j r) = (if j = i then insert r R else R)"
| "replay_role i R (RemoveRole j r) = (if j = i then R - {r} else R)"
| "replay_role i R _ = R"

definition keeps_member :: "string \<Rightarrow> admin_call list \<Rightarrow> bool" where
  "keeps_member i calls = list_all (\<lambda>c. c \<noteq> DeleteMember i) calls"

subsection \<open>From the service to the repository\<close>

text \<open>The repository operation a call that passes the authorizer runs.\<close>

fun repo_ran :: "'r admin_port \<Rightarrow> admin_call \<Rightarrow> go_error + unit \<Rightarrow> 'r \<Rightarrow> 'r \<Rightarrow> bool" where
  "repo_ran p (CreateUser req) x r r' = (\<exists>now u h opts y. an_create_user p now u h opts r = (y, r') \<and> isl y = isl x)"
| "repo_ran p (CreateMember u c st) x r r' = (\<exists>m y. an_create_membership p m r = (y, r') \<and> isl y = isl x)"
| "repo_ran p (SetStatus i st) x r r' = (\<exists>y. an_update_status p i st r = (y, r') \<and> isl y = isl x)"
| "repo_ran p (DeleteMember i) x r r' = (an_delete p i r = (x, r'))"
| "repo_ran p (ListMembers c) x r r' = (\<exists>y. an_list p c r = (y, r') \<and> isl y = isl x)"
| "repo_ran p (AssignRole i t) x r r' = (an_add_role p i t r = (x, r'))"
| "repo_ran p (RemoveRole i t) x r r' = (an_remove_role p i t r = (x, r'))"
| "repo_ran p (AssignDep i t) x r r' = (an_add_dep p i t r = (x, r'))"
| "repo_ran p (RemoveDep i t) x r r' = (an_remove_dep p i t r = (x, r'))"
| "repo_ran p (AssignTitle i t) x r r' = (an_add_title p i t r = (x, r'))"
| "repo_ran p (RemoveTitle i t) x r r' = (an_remove_title p i t r = (x, r'))"
| "repo_ran p ListPermissions x r r' = (\<exists>y. an_permissions p r = (y, r') \<and> isl y = isl x)"
| "repo_ran p ListRoles x r r' = (\<exists>c y. an_roles p c r = (y, r') \<and> isl y = isl x)"
| "repo_ran p (GrantPermission t q) x r r' = (an_add_permission p t q r = (x, r'))"
| "repo_ran p (RevokePermission t q) x r r' = (an_remove_permission p t q r = (x, r'))"
| "repo_ran p (ScopeRule a) x r r' = (an_scope_rule p a r = (x, r'))"
| "repo_ran p (AssigneeRule a) x r r' = (an_assignee_rule p a r = (x, r'))"
| "repo_ran p (NoticeRule a) x r r' = (an_notice_rule p a r = (x, r'))"

definition refused :: "go_error + 'a \<Rightarrow> ('r, 's) svc_state \<Rightarrow> ('r, 's) svc_state \<Rightarrow> bool" where
  "refused x s s' \<longleftrightarrow> isl x \<and> svc_repo s' = svc_repo s"

lemma seq_run_cases:
  assumes "seqE m k s = (x, s')"
  obtains e where "m s = (Inl e, s')" and "x = Inl e" | y s1 where "m s = (Inr y, s1)" and "k y s1 = (x, s')"
proof (cases "m s")
  case (Pair z s1)
  then show thesis using assms that by (cases z) auto
qed

text \<open>A step that leaves the repository alone.\<close>

definition repo_frame :: "('r, 's, 'a) svc_action \<Rightarrow> bool" where
  "repo_frame m \<longleftrightarrow> (\<forall>s x s'. m s = (x, s') \<longrightarrow> svc_repo s' = svc_repo s)"

lemma repo_frame_seq:
  assumes "repo_frame m" and "seqE m k s = (x, s')"
  shows "refused x s s' \<or> (\<exists>y s1. svc_repo s1 = svc_repo s \<and> k y s1 = (x, s'))"
  using assms(2)
proof (rule seq_run_cases)
  fix e assume "m s = (Inl e, s')" "x = Inl e"
  with assms(1) show ?thesis by (auto simp: repo_frame_def refused_def)
next
  fix y s1 assume "m s = (Inr y, s1)" "k y s1 = (x, s')"
  with assms(1) show ?thesis by (auto simp: repo_frame_def)
qed

lemma repo_frame_wrap: "repo_frame m \<Longrightarrow> repo_frame (wrapE f m)"
  unfolding repo_frame_def
proof (intro allI impI)
  fix s x s'
  assume m: "\<forall>s x s'. m s = (x, s') \<longrightarrow> svc_repo s' = svc_repo s" and w: "wrapE f m s = (x, s')"
  then show "svc_repo s' = svc_repo s" by (cases x) (auto simp: seq_iffs)
qed

lemma repo_frame_bind:
  assumes "repo_frame m" and "\<And>y. repo_frame (k y)"
  shows "repo_frame (seqE m k)"
  unfolding repo_frame_def
proof (intro allI impI)
  fix s x s'
  assume "seqE m k s = (x, s')"
  from repo_frame_seq [OF assms(1) this] assms(2) show "svc_repo s' = svc_repo s"
    unfolding repo_frame_def refused_def by fastforce
qed

lemma repo_frame_basic: "repo_frame (on_auth a)" "repo_frame (on_ids g)" "repo_frame (okE y)" "repo_frame (chkE b e)" "repo_frame (liftE f)"
  by (auto simp: repo_frame_def on_auth_def on_ids_def split: prod.splits)

lemma repo_frame_authorize: "repo_frame (admin_authorize env sub a i)" "repo_frame (admin_has_permission env sub p)"
  unfolding admin_authorize_def admin_has_permission_def by (intro repo_frame_bind repo_frame_wrap repo_frame_basic)+

text \<open>An action that ends with one operation of the repository, or is refused before it.\<close>

definition repo_last :: "((go_error, 'r, 'a) action \<Rightarrow> bool) \<Rightarrow> ('r, 's, 'a) svc_action \<Rightarrow> bool" where
  "repo_last P m \<longleftrightarrow> (\<forall>s x s'. m s = (x, s') \<longrightarrow> refused x s s' \<or> (\<exists>f. P f \<and> f (svc_repo s) = (x, svc_repo s')))"

lemma repo_last_seq:
  assumes "repo_frame m" and "\<And>y. repo_last P (k y)"
  shows "repo_last P (seqE m k)"
  unfolding repo_last_def
proof (intro allI impI)
  fix s x s'
  assume run: "seqE m k s = (x, s')"
  from repo_frame_seq [OF assms(1) run]
  show "refused x s s' \<or> (\<exists>f. P f \<and> f (svc_repo s) = (x, svc_repo s'))"
  proof (elim disjE exE conjE)
    fix y s1 assume s1: "svc_repo s1 = svc_repo s" "k y s1 = (x, s')"
    with assms(2) [of y] show ?thesis unfolding repo_last_def refused_def by metis
  qed simp
qed

lemma repo_last_repo: "P f \<Longrightarrow> repo_last P (on_repo f)"
  by (auto simp: repo_last_def on_repo_def split: prod.splits)

lemma repo_last_forget:
  assumes "repo_last P m" and "forget m s = (x, s')"
  shows "refused x s s' \<or> (\<exists>f y. P f \<and> f (svc_repo s) = (y, svc_repo s') \<and> isl y = isl x)"
proof -
  obtain y where "m s = (y, s')" "isl y = isl x" using assms(2) unfolding forget_def by (rule seq_run_cases) auto
  with assms(1) show ?thesis unfolding repo_last_def refused_def by metis
qed

lemmas repo_last_intros = repo_last_seq repo_frame_authorize repo_frame_wrap repo_frame_basic repo_last_repo

lemma repo_last_lift: "(\<And>y. c = Inr y \<Longrightarrow> repo_last P (k y)) \<Longrightarrow> repo_last P (seqE (wrapE w (liftE (\<lambda>_. c))) k)"
  by (cases c) (auto simp: repo_last_def refused_def seqE_def wrapE_def)

lemma repo_last_chk: "(b \<Longrightarrow> repo_last P (k ())) \<Longrightarrow> repo_last P (seqE (chkE b e) k)"
  by (cases b) (auto simp: repo_last_def refused_def seqE_def chkE_def)

definition create_user_op :: "('r, 's) admin_env \<Rightarrow> create_user_request \<Rightarrow> (go_error, 'r, user_view) action \<Rightarrow> bool" where
  "create_user_op env req f \<longleftrightarrow> (\<exists>uid h opts. ae_bcrypt env (cu_password req) = Inr h \<and> to_lower (trim_space (cu_login req)) \<noteq> [] \<and>
     f = an_create_user (ae_port env) (ae_now env) (new_user_view uid req) h opts)"

lemma create_user_last: "repo_last (create_user_op env req) (admin_create_user env sub req)"
proof -
  have mid: "repo_frame (if c then on_ids new_uuid else okE [])" for c :: bool by (simp add: repo_frame_basic)
  show ?thesis unfolding admin_create_user_def Let_def
    by (intro repo_last_lift repo_last_chk repo_last_intros mid) (auto simp: create_user_op_def)
qed

lemma create_membership_last: "repo_last (\<lambda>f. \<exists>m. f = an_create_membership (ae_port env) m) (create_membership env sub u c st)"
  unfolding create_membership_def by (intro repo_last_intros) blast

lemma guarded_last: "repo_last (\<lambda>g. g = f) (seqE (admin_authorize env sub a i) (\<lambda>_. on_repo f))"
  by (intro repo_last_intros) simp

lemma guarded_repo:
  "seqE (admin_authorize env sub a i) (\<lambda>_. on_repo f) s = (x, s') \<Longrightarrow> refused x s s' \<or> f (svc_repo s) = (x, svc_repo s')"
  using guarded_last [of f] unfolding repo_last_def by blast

lemma run_call_repo:
  assumes "run_call env sub call s = (x, s')"
  shows "refused x s s' \<or> repo_ran (ae_port env) call x (svc_repo s) (svc_repo s')"
proof (cases call)
  case (CreateUser req)
  with assms repo_last_forget [OF create_user_last, of env sub req s x s'] show ?thesis by (auto simp: create_user_op_def)
next
  case (CreateMember u c st)
  with assms repo_last_forget [OF create_membership_last, of env sub u c st s x s'] show ?thesis by auto
next
  case (SetStatus i st)
  with assms repo_last_forget [OF guarded_last, of env sub _ i _ s x s'] show ?thesis by (simp add: update_membership_def) blast
next
  case (ListMembers c)
  with assms repo_last_forget [OF guarded_last, of env sub _ c _ s x s'] show ?thesis by (simp add: list_company_memberships_def) blast
next
  case ListPermissions
  with assms repo_last_forget [OF guarded_last, of env sub _ _ _ s x s'] show ?thesis by (simp add: list_permissions_def) blast
next
  case ListRoles
  with assms repo_last_forget [OF guarded_last, of env sub _ _ _ s x s'] show ?thesis by (simp add: list_roles_def) blast
qed (use assms in \<open>simp_all add: delete_membership_def assign_role_def remove_role_def assign_department_def remove_department_def
    assign_title_def remove_title_def assign_role_permission_def remove_role_permission_def create_scope_rule_def
    create_assignee_rule_def create_notice_rule_def guarded_repo\<close>)

subsection \<open>Histories over any repository\<close>

definition roles_at :: "string \<Rightarrow> admin_view \<Rightarrow> string set" where
  "roles_at i w = {r. (i, r) \<in> aw_roles w}"

lemma roles_at_simps [simp]:
  "roles_at i (w\<lparr>aw_roles := insert (j, r) (aw_roles w)\<rparr>) = (if j = i then insert r (roles_at i w) else roles_at i w)"
  "roles_at i (w\<lparr>aw_roles := aw_roles w - {(j, r)}\<rparr>) = (if j = i then roles_at i w - {r} else roles_at i w)"
  "roles_at i (w\<lparr>aw_deps := d\<rparr>) = roles_at i w" "roles_at i (w\<lparr>aw_titles := d\<rparr>) = roles_at i w"
  "roles_at i (add_member k e w) = roles_at i w"
  by (auto simp: roles_at_def add_member_def)

lemma roles_at_without: "links_without j (aw_roles w) (aw_roles w') \<Longrightarrow> i \<noteq> j \<Longrightarrow> roles_at i w' = roles_at i w"
  by (auto simp: links_without_def roles_at_def)

lemma keeps_member_Cons: "keeps_member i (c # cs) \<longleftrightarrow> c \<noteq> DeleteMember i \<and> keeps_member i cs"
  by (simp add: keeps_member_def)

lemma not_isl_iff: "\<not> isl y \<longleftrightarrow> (\<exists>v. y = Inr v)"
  by (cases y) auto

context admin_store
begin

lemma ran_failed: "ok r \<Longrightarrow> repo_ran port call x r r' \<Longrightarrow> isl x \<Longrightarrow> r' = r"
  by (cases call; cases x) (auto simp: isl_def dest: fail_law list_law permissions_law roles_law)

lemma ran_ok:
  assumes ok: "ok r" and ran: "repo_ran port call (Inr ()) r r'" and keep: "call \<noteq> DeleteMember i"
  shows "ok r' \<and> roles_at i (view r') = replay_role i (roles_at i (view r)) call"
proof (cases call)
  case (CreateUser req)
  from ran CreateUser obtain now u h opts v where "an_create_user port now u h opts r = (Inr v, r')" by (auto simp: not_isl_iff)
  from user_law [OF ok this] CreateUser show ?thesis by auto
next
  case (CreateMember u c st)
  from ran CreateMember obtain m v where "an_create_membership port m r = (Inr v, r')" by (auto simp: not_isl_iff)
  from member_law [OF ok this] CreateMember show ?thesis by simp
next
  case (SetStatus j st)
  from ran SetStatus obtain v where "an_update_status port j st r = (Inr v, r')" by (auto simp: not_isl_iff)
  from status_law [OF ok this] SetStatus show ?thesis by simp
next
  case (DeleteMember j)
  with ok ran keep DeleteMember delete_law [of r j r'] roles_at_without [of j "view r" "view r'" i] show ?thesis by simp
next
  case (ListMembers c)
  with ok ran ListMembers show ?thesis by (auto dest: list_law)
next
  case ListPermissions
  with ok ran ListPermissions show ?thesis by (auto dest: permissions_law)
next
  case ListRoles
  with ok ran ListRoles show ?thesis by (auto dest: roles_law)
next
  case (AssignRole j t)
  with ok ran AssignRole role_law [of r j t r'] show ?thesis by simp
next
  case (RemoveRole j t)
  with ok ran RemoveRole unrole_law [of r j t r'] show ?thesis by simp
next
  case (AssignDep j t)
  with ok ran AssignDep dep_law [of r j t r'] show ?thesis by simp
next
  case (RemoveDep j t)
  with ok ran RemoveDep undep_law [of r j t r'] show ?thesis by simp
next
  case (AssignTitle j t)
  with ok ran AssignTitle title_law [of r j t r'] show ?thesis by simp
next
  case (RemoveTitle j t)
  with ok ran RemoveTitle untitle_law [of r j t r'] show ?thesis by simp
next
  case (GrantPermission j t)
  with ok ran GrantPermission grant_law [of r j t r'] show ?thesis by simp
next
  case (RevokePermission j t)
  with ok ran RevokePermission ungrant_law [of r j t r'] show ?thesis by simp
next
  case (ScopeRule a)
  with ok ran ScopeRule scope_rule_law [of r a r'] show ?thesis by simp
next
  case (AssigneeRule a)
  with ok ran AssigneeRule assignee_rule_law [of r a r'] show ?thesis by simp
next
  case (NoticeRule a)
  with ok ran NoticeRule notice_rule_law [of r a r'] show ?thesis by simp
qed

lemma call_failed:
  assumes "ok (svc_repo s)" and "ae_port env = port" and "run_call env sub call s = (Inl e, s')"
  shows "svc_repo s' = svc_repo s"
  using run_call_repo [OF assms(3)] ran_failed [OF assms(1), of call "Inl e"] assms(2) by (auto simp: refused_def)

lemma call_ok:
  assumes "ok (svc_repo s)" and "ae_port env = port" and "run_call env sub call s = (Inr (), s')"
  shows "repo_ran port call (Inr ()) (svc_repo s) (svc_repo s')"
  using run_call_repo [OF assms(3)] assms(2) by (simp add: refused_def)

lemma deleted_ok: "ok r \<Longrightarrow> repo_ran port (DeleteMember i) (Inr ()) r r' \<Longrightarrow> ok r'"
  by (auto dest: delete_law)

lemma history:
  assumes "ok (svc_repo s)" and "ae_port env = port" and "run_calls env h s = (past, s')"
  shows "ok (svc_repo s') \<and> (keeps_member i past \<longrightarrow>
    roles_at i (view (svc_repo s')) = foldl (replay_role i) (roles_at i (view (svc_repo s))) past)"
  using assms(1,3)
proof (induction h arbitrary: s past)
  case Nil
  then show ?case by (simp add: keeps_member_def)
next
  case (Cons sc h)
  obtain sub call where sc: "sc = (sub, call)" by (cases sc)
  obtain x s1 where run: "run_call env sub call s = (x, s1)" by fastforce
  show ?case
  proof (cases x)
    case (Inl e)
    with Cons.prems(2) sc run have "run_calls env h s1 = (past, s')" by simp
    with Cons.IH [of s1 past] Cons.prems(1) call_failed [OF Cons.prems(1) assms(2) run [unfolded Inl]] show ?thesis by simp
  next
    case (Inr u)
    with Cons.prems(2) sc run obtain rest where rest: "run_calls env h s1 = (rest, s')" "past = call # rest"
      by (auto split: prod.splits)
    have ran: "repo_ran port call (Inr ()) (svc_repo s) (svc_repo s1)" using call_ok [OF Cons.prems(1) assms(2)] run Inr by simp
    show ?thesis
    proof (cases "call = DeleteMember i")
      case True
      with deleted_ok [OF Cons.prems(1)] ran have "ok (svc_repo s1)" by simp
      from Cons.IH [OF this rest(1)] rest(2) True show ?thesis by (simp add: keeps_member_Cons)
    next
      case False
      note step = ran_ok [OF Cons.prems(1) ran False]
      from Cons.IH [OF conjunct1 [OF step] rest(1)] rest(2) step show ?thesis by (simp add: keeps_member_Cons)
    qed
  qed
qed

end

subsection \<open>A new user on the MySQL tables\<close>

text \<open>The database finds a login id exactly as its unique key compares it.\<close>

definition login_collation :: "(string \<Rightarrow> string \<Rightarrow> bool) \<Rightarrow> (string \<Rightarrow> string) \<Rightarrow> bool" where
  "login_collation same rank \<longleftrightarrow> (\<forall>x y. same x y \<longrightarrow> rank x = rank y) \<and>
     (\<forall>x. same (to_lower (trim_space x)) (to_lower (trim_space x)))"

definition user_row_of :: "user_view \<Rightarrow> user_row" where
  "user_row_of u = \<lparr>ur_id = uv_id u, ur_login = uv_login u, ur_name = uv_name u, ur_email = null_if_empty (uv_email u),
     ur_phone = null_if_empty (uv_phone u), ur_status = uv_status u, ur_verified = None\<rparr>"

lemma insert_user_row:
  assumes "insert_user rank u s = Inr s'"
  shows "id_users (ad_ident s') = id_users (ad_ident s) @ [user_row_of u]"
    and "\<forall>r \<in> set (id_users (ad_ident s)). ur_id r \<noteq> uv_id u \<and> rank (ur_login r) \<noteq> rank (uv_login u)"
    and "id_credentials (ad_ident s') = id_credentials (ad_ident s)"
  using assms by (auto simp: insert_user_def user_row_of_def list_ex_iff split: if_splits)

lemma insert_credential_row:
  assumes "insert_credential now uid h s = Inr s'"
  shows "id_credentials (ad_ident s') = id_credentials (ad_ident s) @ [\<lparr>cr_user = uid, cr_type = ''password'', cr_status = ''active'',
      cr_hash = h, cr_changed = Some now\<rparr>]"
    and "\<forall>c \<in> set (id_credentials (ad_ident s)). \<not> (cr_user c = uid \<and> cr_type c = ''password'')"
    and "id_users (ad_ident s') = id_users (ad_ident s)"
  using assms by (auto simp: insert_credential_def list_ex_iff split: if_splits)

lemma insert_membership_ident: "insert_membership m s = Inr s' \<Longrightarrow> ad_ident s' = ad_ident s"
  by (auto simp: insert_membership_def split: if_splits)

lemma filter_snoc_only: "(\<forall>x \<in> set xs. \<not> P x) \<Longrightarrow> P y \<Longrightarrow> filter P (xs @ [y]) = [y]"
  by (auto simp: filter_empty_conv)

lemma inserted_rows:
  assumes "insert_user rank u s = Inr s1" and "insert_credential now (uv_id u) h s1 = Inr s2" and "login_collation same rank"
    and "uv_login u = to_lower (trim_space login)"
  shows "login_rows same (uv_login u) (ad_ident s2) = [(user_row_of u, \<lparr>cr_user = uv_id u, cr_type = ''password'',
    cr_status = ''active'', cr_hash = h, cr_changed = Some now\<rparr>)]"
proof -
  note u = insert_user_row [OF assms(1)] and c = insert_credential_row [OF assms(2)]
  have "filter (\<lambda>r. same (ur_login r) (uv_login u)) (id_users (ad_ident s) @ [user_row_of u]) = [user_row_of u]"
    using u(2) assms(3,4) by (intro filter_snoc_only) (auto simp: login_collation_def user_row_of_def)
  moreover have "filter (\<lambda>x. cr_user x = uv_id u \<and> cr_type x = ''password'' \<and> cr_status x = ''active'') (id_credentials (ad_ident s2)) =
      [\<lparr>cr_user = uv_id u, cr_type = ''password'', cr_status = ''active'', cr_hash = h, cr_changed = Some now\<rparr>]"
    unfolding c(1) using c(2) by (intro filter_snoc_only) auto
  moreover have "ur_id (user_row_of u) = uv_id u" by (simp add: user_row_of_def)
  ultimately show ?thesis by (simp add: login_rows_def c(3) u(1))
qed

lemma created_user_verifies:
  assumes "insert_user rank u s = Inr s1" and "insert_credential now (uv_id u) h s1 = Inr s2" and "ad_ident s' = ad_ident s2"
    and "login_collation same rank" and "is_ascii login" and "uv_login u = to_lower (trim_space login)" and "uv_login u \<noteq> []" and "cmp h pw"
  shows "\<exists>a. io_verify (db_identity same cmp t) login pw (ad_ident s') = Inr a \<and> au_id a = uv_id u \<and> au_status a = uv_status u"
proof -
  have "trim_space (to_lower login) = uv_login u" by (simp add: trim_space_lower [OF assms(5)] assms(6))
  then have "io_verify (db_identity same cmp t) login pw (ad_ident s') = Inr (row_user t (ad_ident s2) (user_row_of u))"
    using inserted_rows [OF assms(1,2,4,6)] assms(3,7,8) by (simp add: db_identity_def db_verify_def Let_def)
  then show ?thesis by (simp add: row_user_def user_row_of_def)
qed

lemma joined_member:
  assumes "tables_typed rank s" and "m \<in> set (od_memberships (ad_org s))"
  obtains ms v where "mq_by_user (db_query rank lower_is (members_of (ad_org s))) (mb_user m) = Inr ms" and "v \<in> set ms"
    and "mv_id v = mb_id m" and "mv_company v = mb_company m" and "mv_status v = mb_status m"
proof -
  let ?M = "members_of (ad_org s)"
  have tables: "md_memberships ?M = od_memberships (ad_org s)" "md_companies ?M = od_companies (ad_org s)"
    by (simp_all add: members_of_def Let_def)
  have "members_ok (id_users (ad_ident s)) (ad_org s)" using assms(1) by (simp add: tables_typed_def)
  with assms(2) obtain c where c: "c \<in> set (od_companies (ad_org s))" "fst c = mb_company m" by (auto simp: members_ok_def)
  have "joined m c \<in> set (membership_join ?M (\<lambda>x. mb_user x = mb_user m))"
    unfolding set_membership_join using assms(2) c tables by (intro exI [of _ m] exI [of _ c]) simp
  then show thesis
    by (intro that [of "sort_key (\<lambda>v. rank (mv_name v)) (membership_join ?M (\<lambda>x. mb_user x = mb_user m))" "joined m c"])
      (simp_all add: db_query_def db_by_user_def joined_def)
qed

text \<open>What CreateUser answers: the user, and the membership it stored with it, if any.\<close>

definition stored_membership :: "(string \<Rightarrow> string) \<Rightarrow> (string \<Rightarrow> string \<Rightarrow> bool) \<Rightarrow> user_view \<Rightarrow> admin_db \<Rightarrow> bool" where
  "stored_membership rank lower_is v s \<longleftrightarrow> (\<exists>ms m. mq_by_user (db_query rank lower_is (members_of (ad_org s))) (uv_id v) = Inr ms \<and>
     m \<in> set ms \<and> mv_id m = uv_membership v \<and> mv_company m = uv_company v \<and> mv_status m = uv_mstatus v)"

lemma get_user_view_fields: "get_user_view uid s = Inr v \<Longrightarrow> uv_id v = uid \<and> uv_company v = []"
  by (auto simp: get_user_view_def find_Some_iff split: option.splits)

lemma sql_create_user_answer:
  assumes "tables_typed rank s" and "sql_create_user rank now u h opts s = (Inr v, s')" and "uv_membership u = []"
  shows "uv_id v = uv_id u \<and> (uv_company v = [] \<or> stored_membership rank lower_is v s')"
  using sql_create_user_cases [OF assms(1,2)]
proof cases
  case 1
  then show ?thesis by simp
next
  case (2 w s1 s2)
  have "get_user_view (uv_id u) s2 = Inr v" using assms(2,3) 2 by (auto simp: sql_create_user_def user_reply_def)
  with get_user_view_fields show ?thesis by blast
next
  case (3 w s1 s2 st)
  let ?m = "\<lparr>mb_id = uo_membership opts, mb_user = uv_id u, mb_company = uo_company opts, mb_status = st\<rparr>"
  obtain cname where c: "map_of (od_companies (ad_org s2)) (uo_company opts) = Some cname"
    using assms(2) 3 by (auto simp: sql_create_user_def split: option.splits)
  have ans: "user_reply (u\<lparr>uv_membership := uo_membership opts, uv_mstatus := st, uv_company := uo_company opts, uv_cname := cname\<rparr>) s' = (Inr v, s')"
    using assms(2) 3 c by (auto simp: sql_create_user_def Let_def)
  note m = insert_membership_typed [OF 3(4,8)]
  show ?thesis
  proof (cases "uo_membership opts = []")
    case True
    with ans have "get_user_view (uv_id u) s' = Inr v" by (simp add: user_reply_def)
    with get_user_view_fields show ?thesis by blast
  next
    case False
    with ans have v: "v = u\<lparr>uv_membership := uo_membership opts, uv_mstatus := st, uv_company := uo_company opts, uv_cname := cname\<rparr>"
      by (simp add: user_reply_def)
    from m have "tables_typed rank s'" "?m \<in> set (od_memberships (ad_org s'))" by simp_all
    from joined_member [OF this] show ?thesis unfolding stored_membership_def v by simp blast
  qed
qed

end
