(* ===== verification/AdminAccess.thy ===== *)
theory AdminAccess
  imports AdminService
begin

section \<open>What administration does to logins and permissions\<close>

text \<open>
  The administration calls of \<^verbatim>\<open>internal/companyaccess/app/admin_service.go\<close> on the MySQL tables,
  followed to the code that reads those tables: the login (\<^verbatim>\<open>internal/iam/infra/mysql\<close>), the
  membership queries and the resolver over \<^verbatim>\<open>internal/authorization/infra/mysql/repository.go\<close>.
\<close>

subsection \<open>The permissions of a member\<close>





lemma map_eq_self: "map f xs = xs \<Longrightarrow> x \<in> set xs \<Longrightarrow> f x = x"
  by (metis map_ident map_eq_conv)


lemma role_links_frame [simp]:
  "has_membership (org\<lparr>od_role_links := rl\<rparr>) j c = has_membership org j c"
  "role_permissions (org\<lparr>od_role_links := rl\<rparr>) x = role_permissions org x"
  by (auto simp: has_membership_def role_permissions_def)

definition usable_role :: "org_db \<Rightarrow> string \<Rightarrow> string \<Rightarrow> bool" where
  "usable_role org c r \<longleftrightarrow> (\<exists>x \<in> set (od_roles org). og_id x = r \<and> og_status x = ''active'' \<and> (og_company x = None \<or> og_company x = Some c))"

lemma usable_role_frame [simp]: "usable_role (org\<lparr>od_role_links := rl\<rparr>) c r = usable_role org c r"
  by (simp add: usable_role_def)








subsection \<open>Who may administer\<close>

text \<open>On the legacy policies every administration action asks for one permission and nothing of the target.\<close>

lemma admin_action_plain: "a \<in> set admin_actions \<Longrightarrow> trim_space a = a \<and> \<not> is_approval a"
proof -
  have "list_all (\<lambda>a. trim_space a = a \<and> \<not> is_approval a) admin_actions" by code_simp
  then show "a \<in> set admin_actions \<Longrightarrow> trim_space a = a \<and> \<not> is_approval a" by (simp add: list_all_iff)
qed

lemma open_policy: "eval_workflow_state req (mk_policy a p ''*'' d)" "eval_eligible_actor eff (mk_policy a p ''*'' d)"
  "snd (eval_scope req eff (mk_policy a p ''*'' d))"
proof -
  have star: "split_or_star ''*'' = [''*'']" "contains [''*''] ''*''" by code_simp+
  then show "eval_workflow_state req (mk_policy a p ''*'' d)" "eval_eligible_actor eff (mk_policy a p ''*'' d)"
    by (simp_all add: eval_workflow_state_def eval_eligible_actor_def mk_policy_def)
  show "snd (eval_scope req eff (mk_policy a p ''*'' d))"
    using star by (simp add: eval_scope_def mk_policy_def scope_part_def Let_def)
qed

lemma admin_check_allows:
  assumes "a \<in> set admin_actions" and "ea_company eff = sub_company sub" and "ea_membership eff = sub_membership sub"
  shows "dc_verdict (check_access \<lparr>rq_subject = sub, rq_action = a, rq_resource = res\<rparr> eff (legacy_policy a)) = Allow \<longleftrightarrow>
    contains (ea_permissions eff) ''rbac.manage''"
proof -
  have req: "ap_required (legacy_policy a) = ''rbac.manage''" "trim_space ''rbac.manage'' = ''rbac.manage''"
    using legacy_admin [OF assms(1)] by simp code_simp
  show ?thesis using open_policy admin_action_plain [OF assms(1)] req assms(2,3)
    by (simp add: check_allow_gates gates_def) (simp add: legacy_policy_def)
qed

lemma admin_authorized:
  assumes "a \<in> set admin_actions" and "ae_policy env = sql_action_policy org" and "od_policies org = None"
    and "ae_resolve env (sub_membership sub) (sub_company sub) (svc_auth s) = (Inr eff, auth)"
    and "ea_company eff = sub_company sub" and "ea_membership eff = sub_membership sub"
    and "trim_space (sub_membership sub) \<noteq> []" and "trim_space (sub_company sub) \<noteq> []"
  shows "fst (admin_authorize env sub a rid s) =
    (if contains (ea_permissions eff) ''rbac.manage'' then Inr () else Inl (access_denied CodePermissionDenied))"
    and "contains (ea_permissions eff) ''rbac.manage'' \<Longrightarrow> admin_authorize env sub a rid s = (Inr (), s\<lparr>svc_auth := auth\<rparr>)"
proof -
  let ?req = "\<lparr>rq_subject = sub, rq_action = a, rq_resource = \<lparr>res_type = ''admin_access'', res_id = rid, res_attrs = []\<rparr>\<rparr>"
  have pol: "sql_action_policy org c a = Inr (legacy_policy a)" for c
    using admin_action_plain [OF assms(1)] by (simp add: sql_action_policy_def assms(3) Let_def)
  have run: "authorize (ae_resolve env) (ae_policy env) ?req (svc_auth s) = (Inr (check_access ?req eff (legacy_policy a)), auth)"
    using assms(2,4,7,8) pol by (simp add: authorize_def seqE_def chkE_def wrapE_def liftE_def)
  note allow = admin_check_allows [OF assms(1,5,6), of "\<lparr>res_type = ''admin_access'', res_id = rid, res_attrs = []\<rparr>"]
  have code: "dc_deny (check_access ?req eff (legacy_policy a)) = Some CodePermissionDenied" if "\<not> contains (ea_permissions eff) ''rbac.manage''"
  proof -
    have "trim_space ''rbac.manage'' = ''rbac.manage''" by code_simp
    with that assms(5,6) legacy_admin [OF assms(1)] show ?thesis by (simp add: check_access_def deny_def Let_def)
  qed
  show "fst (admin_authorize env sub a rid s) =
    (if contains (ea_permissions eff) ''rbac.manage'' then Inr () else Inl (access_denied CodePermissionDenied))"
    using allow code run by (simp add: admin_authorize_def on_auth_def seqE_def wrapE_def chkE_def)
  show "admin_authorize env sub a rid s = (Inr (), s\<lparr>svc_auth := auth\<rparr>)" if "contains (ea_permissions eff) ''rbac.manage''"
    using that allow run by (simp add: admin_authorize_def on_auth_def seqE_def wrapE_def chkE_def)
qed


subsection \<open>The calls on the tables\<close>



lemma get_membership_view_id: "get_membership_view i s = Inr v \<Longrightarrow> mv_id v = i"
proof -
  assume "get_membership_view i s = Inr v"
  then have "v \<in> set (membership_join (members_of (ad_org s)) (\<lambda>m. mb_id m = i))"
    by (auto simp: get_membership_view_def split: list.splits)
  then show ?thesis by (auto simp: set_membership_join joined_def)
qed

lemma status_reaches:
  assumes "tables_typed rank s" and "m \<in> set (od_memberships (ad_org s))" and "mb_status m \<noteq> st"
  shows "\<exists>v s'. sql_set_status (mb_id m) st s = (Inr v, s') \<and> mv_id v = mb_id m \<and> mv_company v = mb_company m \<and> mv_status v = st"
proof -
  obtain x s' where run: "sql_set_status (mb_id m) st s = (x, s')" by fastforce
  note law = sql_set_status_law [OF assms(1) run]
  show ?thesis
  proof (cases x)
    case (Inl e)
    with law have "s' = s" by simp
    with run have "map (\<lambda>r. if mb_id r = mb_id m then r\<lparr>mb_status := st\<rparr> else r) (od_memberships (ad_org s)) = od_memberships (ad_org s)"
      by (auto simp: sql_set_status_def Let_def split: if_splits dest: arg_cong [of _ _ "\<lambda>s. od_memberships (ad_org s)"])
    from map_eq_self [OF this assms(2)] have "m\<lparr>mb_status := st\<rparr> = m" by simp
    with assms(3) show ?thesis by (cases m) simp
  next
    case (Inr v)
    have "members_map (od_memberships (ad_org s)) (mb_id m) = Some (row_entry m)"
      using assms(1,2) by (intro members_map_row) (simp_all add: tables_typed_def members_ok_def)
    then have "aw_members (sql_admin_view s) (mb_id m) = Some (mb_user m, mb_company m, mb_status m)"
      by (simp add: sql_admin_view_def row_entry_def)
    moreover have "mv_id v = mb_id m"
      using run Inr get_membership_view_id by (auto simp: sql_set_status_def Let_def split: if_splits)
    ultimately show ?thesis using law run Inr by simp
  qed
qed

subsection \<open>Properties\<close>

text \<open>C26: over any history of administration calls on the MySQL tables, successful or refused, the tables stay
  typed: keys are unique, references resolve, and every role, department and title linked to a membership is
  global or of the membership's company.\<close>

theorem admin_tables_stay_typed:
  assumes "tables_typed rank (svc_repo s)" and "ae_port env = sql_admin rank fmtv rnd" and "run_calls env h s = (past, s')"
  shows "tables_typed rank (svc_repo s')"
  using sql_adm.history [OF assms] by blast

text \<open>C27: the roles linked to a membership that a history does not delete are those of the abstract replay of its
  successful calls: assigning inserts, removing deletes, and no other call has an effect, over the maps and over
  the MySQL tables alike.\<close>

theorem roles_follow_history:
  assumes "run_calls env h s = (past, s')" and "keeps_member i past"
    and "tables_typed rank (svc_repo s)" and "ae_port env = sql_admin rank fmtv rnd"
    and "run_calls menv mh ms = (mpast, ms')" and "keeps_member i mpast" and "ae_port menv = mem_admin om os"
  shows "roles_at i (sql_admin_view (svc_repo s')) = foldl (replay_role i) (roles_at i (sql_admin_view (svc_repo s))) past \<and>
    roles_at i (mem_admin_view (svc_repo ms')) = foldl (replay_role i) (roles_at i (mem_admin_view (svc_repo ms))) mpast"
  using sql_adm.history [OF assms(3,4,1)] mem_adm.history [OF TrueI assms(7,5)] assms(2,6) by blast+

text \<open>C23: CreateUser and Login agree on the MySQL tables: the user just created is found and verified under the
  login id and the password of the request, with the answered identifier and the stored status, and when the answer
  names a company the membership queries of the login list that membership.\<close>

theorem new_user_logs_in:
  assumes "tables_typed rank (svc_repo s)" and "ae_port env = sql_admin rank fmtv rnd" and "login_collation same rank"
    and "\<And>h. ae_bcrypt env (cu_password req) = Inr h \<Longrightarrow> cmp h (cu_password req)" and "is_ascii (cu_login req)"
    and "admin_create_user env sub req s = (Inr v, s')"
  shows "\<exists>a. io_verify (db_identity same cmp t) (cu_login req) (cu_password req) (ad_ident (svc_repo s')) = Inr a \<and>
    au_id a = uv_id v \<and> au_status a = or_active (trim_space (cu_status req)) \<and>
    (uv_company v = [] \<or> stored_membership rank lower_is v (svc_repo s'))"
proof -
  have "\<not> refused (Inr v) s s'" by (simp add: refused_def)
  with create_user_last [of env req sub] assms(6) obtain uid h opts where h: "ae_bcrypt env (cu_password req) = Inr h"
    and login: "to_lower (trim_space (cu_login req)) \<noteq> []"
    and run: "sql_create_user rank (ae_now env) (new_user_view uid req) h opts (svc_repo s) = (Inr v, svc_repo s')"
    unfolding repo_last_def create_user_op_def assms(2) by (fastforce simp: sql_admin_def)
  let ?u = "new_user_view uid req"
  have u: "uv_login ?u = to_lower (trim_space (cu_login req))" "uv_membership ?u = []" "uv_status ?u = or_active (trim_space (cu_status req))"
    by (simp_all add: new_user_view_def)
  note ans = sql_create_user_answer [OF assms(1) run u(2)]
  obtain s1 s2 where ins: "insert_user rank ?u (svc_repo s) = Inr s1" "insert_credential (ae_now env) (uv_id ?u) h s1 = Inr s2"
    and id: "ad_ident (svc_repo s') = ad_ident s2"
    using sql_create_user_cases [OF assms(1) run] by (cases; use insert_membership_ident that in blast)
  have "uv_login ?u \<noteq> []" using login u(1) by simp
  from created_user_verifies [where cmp = cmp and pw = "cu_password req", OF ins id assms(3,5) u(1) this assms(4) [OF h]] ans u(3) show ?thesis by metis
qed


text \<open>C28: on the policies the code falls back to, administration looks at the caller only: whoever holds rbac.manage in one
  company passes the authorizer for every administration action and every target, so the status of a membership of
  any other company can be changed, and without rbac.manage every administration action is denied.\<close>

theorem admin_reaches_other_company:
  assumes "ae_port env = sql_admin rank fmtv rnd" and "ae_policy env = sql_action_policy org" and "od_policies org = None"
    and "ae_resolve env (sub_membership sub) (sub_company sub) (svc_auth s) = (Inr eff, auth)"
    and "ea_company eff = sub_company sub" and "ea_membership eff = sub_membership sub"
    and "trim_space (sub_membership sub) \<noteq> []" and "trim_space (sub_company sub) \<noteq> []"
    and "tables_typed rank (svc_repo s)" and "m \<in> set (od_memberships (ad_org (svc_repo s)))" and "mb_status m \<noteq> st"
    and "a \<in> set admin_actions"
  shows "fst (admin_authorize env sub a rid s) =
      (if contains (ea_permissions eff) ''rbac.manage'' then Inr () else Inl (access_denied CodePermissionDenied)) \<and>
    (contains (ea_permissions eff) ''rbac.manage'' \<longrightarrow> (\<exists>v s'. update_membership env sub (mb_id m) st s = (Inr v, s') \<and>
      mv_id v = mb_id m \<and> mv_company v = mb_company m \<and> mv_status v = st))"
proof (intro conjI impI)
  show "fst (admin_authorize env sub a rid s) =
      (if contains (ea_permissions eff) ''rbac.manage'' then Inr () else Inl (access_denied CodePermissionDenied))"
    by (rule admin_authorized(1) [OF assms(12,2-8)])
  have upd: "''admin.membership.update'' \<in> set admin_actions" by code_simp
  assume "contains (ea_permissions eff) ''rbac.manage''"
  from admin_authorized(2) [OF upd assms(2-8) this]
  show "\<exists>v s'. update_membership env sub (mb_id m) st s = (Inr v, s') \<and> mv_id v = mb_id m \<and> mv_company v = mb_company m \<and> mv_status v = st"
    using status_reaches [OF assms(9-11)] by (auto simp: update_membership_def assms(1) sql_admin_def on_repo_def)
qed


subsection \<open>Witnesses\<close>

definition wit_boss :: subject_ref where
  "wit_boss = \<lparr>sub_user = ''u_1'', sub_membership = ''m_1'', sub_company = ''c_1''\<rparr>"

definition wit_org :: org_db where
  "wit_org = \<lparr>od_companies = [(''c_1'', ''One''), (''c_2'', ''Two'')],
     od_memberships = [\<lparr>mb_id = ''m_1'', mb_user = ''u_1'', mb_company = ''c_1'', mb_status = ''active''\<rparr>,
       \<lparr>mb_id = ''m_2'', mb_user = ''u_2'', mb_company = ''c_2'', mb_status = ''active''\<rparr>],
     od_roles = [\<lparr>og_id = ''r_admin'', og_company = None, og_code = ''admin'', og_name = ''Admin'', og_status = ''active''\<rparr>,
       \<lparr>og_id = ''r_staff'', og_company = Some ''c_1'', og_code = ''staff'', og_name = ''Staff'', og_status = ''active''\<rparr>],
     od_deps = [], od_titles = [], od_role_links = [\<lparr>lk_membership = ''m_1'', lk_target = ''r_admin'', lk_status = ''active''\<rparr>],
     od_dep_links = [], od_title_links = [],
     od_permissions = [\<lparr>pm_id = ''p_1'', pm_code = ''rbac.manage'', pm_status = ''active''\<rparr>,
       \<lparr>pm_id = ''p_2'', pm_code = ''disclosure.view'', pm_status = ''active''\<rparr>],
     od_grants = [\<lparr>gr_role = ''r_admin'', gr_permission = ''p_1'', gr_status = ''active''\<rparr>,
       \<lparr>gr_role = ''r_staff'', gr_permission = ''p_2'', gr_status = ''active''\<rparr>],
     od_assignments = [], od_duties = [], od_units = [], od_unit_links = [], od_closure = [], od_policies = None\<rparr>"

definition wit_admin_user :: "string \<Rightarrow> string \<Rightarrow> user_row" where
  "wit_admin_user i l = \<lparr>ur_id = i, ur_login = l, ur_name = l, ur_email = None, ur_phone = None, ur_status = ''active'', ur_verified = None\<rparr>"

definition wit_admin_db :: admin_db where
  "wit_admin_db = \<lparr>ad_ident = \<lparr>id_users = [wit_admin_user ''u_1'' ''ann'', wit_admin_user ''u_2'' ''bob''], id_credentials = [],
     id_tiers = [], id_resets = [], id_verifies = []\<rparr>, ad_org = wit_org, ad_scope_rules = [], ad_assignee_rules = [], ad_notice_rules = []\<rparr>"

definition wit_admin_env :: "(admin_db, unit) admin_env" where
  "wit_admin_env = \<lparr>ae_port = sql_admin (\<lambda>x. x) (\<lambda>_. []) (\<lambda>_. []), ae_resolve = base_resolver (sql_authz (\<lambda>x. x) (\<lambda>x. x) wit_org),
     ae_policy = sql_action_policy wit_org, ae_bcrypt = (\<lambda>p. Inr (''h'' @ p)), ae_now = 1767225600\<rparr>"

definition wit_admin_state :: "(admin_db, unit) svc_state" where
  "wit_admin_state = \<lparr>svc_repo = wit_admin_db, svc_ids = tally_ids, svc_auth = ()\<rparr>"

definition wit_new_user :: create_user_request where
  "wit_new_user = \<lparr>cu_login = '' Eve@x '', cu_password = ''12345678'', cu_name = ''Eve'', cu_email = [], cu_phone = [], cu_status = [],
     cu_company = ''c_2'', cu_mstatus = []\<rparr>"

definition wit_history :: "(subject_ref \<times> admin_call) list" where
  "wit_history = [(wit_boss, AssignRole ''m_2'' ''r_admin''), (wit_boss, AssignRole ''m_2'' ''r_staff''), (wit_boss, RemoveRole ''m_1'' ''r_admin'')]"

lemma wit_admin_typed: "tables_typed (\<lambda>x. x) (svc_repo wit_admin_state)"
  by code_simp


lemma wit_admin_port: "ae_port wit_admin_env = sql_admin (\<lambda>x. x) (\<lambda>_. []) (\<lambda>_. [])" "ae_policy wit_admin_env = sql_action_policy wit_org"
  by (simp_all add: wit_admin_env_def)

theorem admin_tables_stay_typed_witness:
  "tables_typed (\<lambda>x. x) (svc_repo (snd (run_calls wit_admin_env wit_history wit_admin_state)))"
  by (rule admin_tables_stay_typed [OF wit_admin_typed wit_admin_port(1) surjective_pairing])

definition wit_mem_env :: "(admin_mem, unit) admin_env" where
  "wit_mem_env = \<lparr>ae_port = mem_admin (\<lambda>_. []) (\<lambda>_. []), ae_resolve = ae_resolve wit_admin_env, ae_policy = ae_policy wit_admin_env,
     ae_bcrypt = ae_bcrypt wit_admin_env, ae_now = 1767225600\<rparr>"

definition wit_mem_state :: "(admin_mem, unit) svc_state" where
  "wit_mem_state = \<lparr>svc_repo = new_admin_mem, svc_ids = tally_ids, svc_auth = ()\<rparr>"

lemma wit_pasts:
  "fst (run_calls wit_admin_env wit_history wit_admin_state) =
     [AssignRole ''m_2'' ''r_admin'', RemoveRole ''m_1'' ''r_admin'']"
  "fst (run_calls wit_mem_env wit_history wit_mem_state) = map snd wit_history"
  by code_simp+

theorem roles_follow_history_witness:
  "roles_at ''m_2'' (sql_admin_view (svc_repo (snd (run_calls wit_admin_env wit_history wit_admin_state)))) = {''r_admin''} \<and>
   roles_at ''m_2'' (mem_admin_view (svc_repo (snd (run_calls wit_mem_env wit_history wit_mem_state)))) = {''r_admin'', ''r_staff''}"
proof -
  have keep: "keeps_member ''m_2'' (fst (run_calls wit_admin_env wit_history wit_admin_state))"
    "keeps_member ''m_2'' (fst (run_calls wit_mem_env wit_history wit_mem_state))"
    unfolding wit_pasts by (simp_all add: keeps_member_def wit_history_def)
  have port: "ae_port wit_mem_env = mem_admin (\<lambda>_. []) (\<lambda>_. [])" by (simp add: wit_mem_env_def)
  have start: "roles_at ''m_2'' (sql_admin_view (svc_repo wit_admin_state)) = {}" "roles_at ''m_2'' (mem_admin_view (svc_repo wit_mem_state)) = {}"
    by (auto simp: roles_at_def sql_admin_view_def live_links_def link_key_def wit_admin_state_def wit_admin_db_def wit_org_def
      mem_admin_view_def pairs_of_def wit_mem_state_def new_admin_mem_def)
  show ?thesis
    using roles_follow_history [OF surjective_pairing keep(1) wit_admin_typed wit_admin_port(1) surjective_pairing keep(2) port]
    unfolding wit_pasts start by (simp add: wit_history_def insert_commute)
qed

lemma wit_created: "\<not> isl (fst (admin_create_user wit_admin_env wit_boss wit_new_user wit_admin_state))"
  by code_simp


theorem new_user_logs_in_witness:
  "\<exists>a. io_verify (db_identity (=) (\<lambda>h p. h = ''h'' @ p) 1767225600) '' Eve@x '' ''12345678''
      (ad_ident (svc_repo (snd (admin_create_user wit_admin_env wit_boss wit_new_user wit_admin_state)))) = Inr a \<and>
    au_status a = ''active''"
proof -
  let ?p = "admin_create_user wit_admin_env wit_boss wit_new_user wit_admin_state"
  have ok: "?p = (Inr (projr (fst ?p)), snd ?p)" by (rule run_projr [OF wit_created])
  have req: "is_ascii (cu_login wit_new_user)" "or_active (trim_space (cu_status wit_new_user)) = ''active''" by code_simp+
  have hash: "ae_bcrypt wit_admin_env (cu_password wit_new_user) = Inr h \<Longrightarrow> h = ''h'' @ cu_password wit_new_user" for h
    by (simp add: wit_admin_env_def)
  have "login_collation (=) (\<lambda>x. x)" by (simp add: login_collation_def)
  from new_user_logs_in [where cmp = "\<lambda>h p. h = ''h'' @ p", OF wit_admin_typed wit_admin_port(1) this hash req(1) ok] req(2)
  show ?thesis by (auto simp: wit_new_user_def)
qed


theorem admin_reaches_other_company_witness:
  "\<exists>v s'. update_membership wit_admin_env wit_boss ''m_2'' ''suspended'' wit_admin_state = (Inr v, s') \<and> mv_company v = ''c_2''"
proof -
  let ?m = "\<lparr>mb_id = ''m_2'', mb_user = ''u_2'', mb_company = ''c_2'', mb_status = ''active''\<rparr>"
  let ?r = "ae_resolve wit_admin_env (sub_membership wit_boss) (sub_company wit_boss) (svc_auth wit_admin_state)"
  have "\<not> isl (fst ?r)" by code_simp
  then have r: "?r = (Inr (projr (fst ?r)), snd ?r)" by (rule run_projr)
  have eff: "ea_company (projr (fst ?r)) = sub_company wit_boss" "ea_membership (projr (fst ?r)) = sub_membership wit_boss"
    "contains (ea_permissions (projr (fst ?r))) ''rbac.manage''" by code_simp+
  have sub: "trim_space (sub_membership wit_boss) \<noteq> []" "trim_space (sub_company wit_boss) \<noteq> []" by code_simp+
  have none: "od_policies wit_org = None" by (simp add: wit_org_def)
  have m: "?m \<in> set (od_memberships (ad_org (svc_repo wit_admin_state)))" by (simp add: wit_admin_state_def wit_admin_db_def wit_org_def)
  have act: "''admin.membership.update'' \<in> set admin_actions" by code_simp
  from admin_reaches_other_company [where rid = "[]" and st = "''suspended''", OF wit_admin_port none r eff(1,2) sub wit_admin_typed m _ act] eff(3)
  show ?thesis by auto
qed

end
