(* ===== verification/GoTimestamps.thy ===== *)
theory GoTimestamps
  imports GoTime
begin

section \<open>Timestamps of the layout RFC3339\<close>

text \<open>
  \<open>Format\<close> and \<open>Parse\<close> of package \<open>time\<close> for \<^verbatim>\<open>2006-01-02T15:04:05Z07:00\<close>. A time is printed by its
  Unix second in UTC and parsed to nanoseconds since the epoch; as \<open>Parse\<close> does, the reader accepts an
  hour of one digit, a fraction after a full stop or a comma, and a numeric zone.
\<close>

subsection \<open>Days since the epoch\<close>

definition year_start :: "int \<Rightarrow> int" where
  "year_start y = 365 * (y - 1970) + (y - 1) div 4 - (y - 1) div 100 + (y - 1) div 400 - 477"

definition month_start :: "int \<Rightarrow> int \<Rightarrow> int" where
  "month_start y m = sum_list (map (\<lambda>k. days_in k y) [1..m - 1])"

fun days_of_date :: "date \<Rightarrow> int" where
  "days_of_date (y, m, d) = year_start y + month_start y m + d - 1"

lemma div_step: "0 < k \<Longrightarrow> (y::int) div k = (y - 1) div k + (if y mod k = 0 then 1 else 0)"
proof -
  assume k: "0 < k"
  have "y - 1 = k * (y div k) + (y mod k - 1)" by simp
  show ?thesis
  proof (cases "y mod k = 0")
    case True
    then have "y - 1 = k * (y div k - 1) + (k - 1)" using mult_div_mod_eq [of k y] by (simp add: algebra_simps)
    then have "(y - 1) div k = y div k - 1" using k by (intro int_div_pos_eq [where r = "k - 1"]) auto
    with True show ?thesis by simp
  next
    case False
    then have "0 \<le> y mod k - 1" "y mod k - 1 < k" using k pos_mod_sign [of k y] pos_mod_bound [of k y] by linarith+
    with \<open>y - 1 = k * (y div k) + (y mod k - 1)\<close> have "(y - 1) div k = y div k" by (intro int_div_pos_eq) auto
    with False show ?thesis by simp
  qed
qed

lemma leap_mod: "(y::int) mod 400 = 0 \<Longrightarrow> y mod 100 = 0" "(y::int) mod 100 = 0 \<Longrightarrow> y mod 4 = 0"
proof -
  show "y mod 400 = 0 \<Longrightarrow> y mod 100 = 0" using mod_mod_cancel [of 100 400 y] by simp
  show "y mod 100 = 0 \<Longrightarrow> y mod 4 = 0" using mod_mod_cancel [of 4 100 y] by simp
qed

lemma year_start_step: "year_start (y + 1) = year_start y + year_len y"
proof -
  have "year_start (y + 1) = 365 * (y - 1969) + y div 4 - y div 100 + y div 400 - 477" by (simp add: year_start_def)
  also have "\<dots> = year_start y + 365 + (if y mod 4 = 0 then 1 else 0) - (if y mod 100 = 0 then 1 else 0) + (if y mod 400 = 0 then 1 else 0)"
    unfolding div_step [of 4 y, OF zero_less_numeral] div_step [of 100 y, OF zero_less_numeral] div_step [of 400 y, OF zero_less_numeral]
    by (simp add: year_start_def)
  also have "\<dots> = year_start y + year_len y"
    unfolding year_len_def is_leap_def using leap_mod [of y] by (cases "y mod 400 = 0"; cases "y mod 100 = 0"; cases "y mod 4 = 0") simp_all
  finally show ?thesis .
qed

lemma year_start_cycle: "year_start (1970 + 400 * q) = 146097 * q"
  using div_mult_self1 [of 4 1969 "100 * q"] div_mult_self1 [of 100 1969 "4 * q"] div_mult_self1 [of 400 1969 q]
  by (simp add: year_start_def)

lemma year_of_start: "year_of y d = (y', k) \<Longrightarrow> year_start y + d = year_start y' + k"
proof (induction y d rule: year_of.induct)
  case (1 y d)
  show ?case
  proof (cases "d < year_len y")
    case True
    with "1.prems" show ?thesis by (simp add: year_of.simps [of y d])
  next
    case False
    with "1.prems" have "year_of (y + 1) (d - year_len y) = (y', k)" by (simp add: year_of.simps [of y d])
    with "1.IH" [OF False] show ?thesis by (simp add: year_start_step)
  qed
qed

lemma month_start_step: "1 \<le> m \<Longrightarrow> month_start y (m + 1) = month_start y m + days_in m y"
  using upto_rec2 [of 1 m] by (simp add: month_start_def)

lemma month_of_start: "1 \<le> m \<Longrightarrow> month_of y m k = (m', d) \<Longrightarrow> month_start y m + k = month_start y m' + d - 1"
proof (induction y m k rule: month_of.induct)
  case (1 y m k)
  show ?case
  proof (cases "12 \<le> m \<or> k < days_in m y")
    case True
    with "1.prems" show ?thesis by (simp add: month_of.simps [of y m k])
  next
    case False
    with "1.prems" have "month_of y (m + 1) (k - days_in m y) = (m', d)" by (simp add: month_of.simps [of y m k])
    with "1.IH" [OF False] "1.prems"(1) show ?thesis by (simp add: month_start_step)
  qed
qed

lemma days_of_utc_date: "days_of_date (utc_date t) = t div 86400"
proof -
  let ?n = "t div 86400"
  obtain y k where y: "year_of (1970 + 400 * (?n div 146097)) (?n mod 146097) = (y, k)"
    by (cases "year_of (1970 + 400 * (?n div 146097)) (?n mod 146097)")
  obtain m d where m: "month_of y 1 k = (m, d)" by (cases "month_of y 1 k")
  have "year_start y + k = ?n" using year_of_start [OF y] by (simp add: year_start_cycle)
  moreover have "k = month_start y m + d - 1" using month_of_start [OF _ m] by (simp add: month_start_def)
  moreover have "utc_date t = (y, m, d)" using y m by (simp add: utc_date_def date_of_days_def)
  ultimately show ?thesis by simp
qed

subsection \<open>Printing\<close>

definition rfc3339 :: "int \<Rightarrow> string" where
  "rfc3339 t = format_date (utc_date t) @ ''T'' @ pad_digits 2 (t mod 86400 div 3600) @ '':'' @
     pad_digits 2 (t mod 3600 div 60) @ '':'' @ pad_digits 2 (t mod 60) @ ''Z''"

subsection \<open>Parsing\<close>

definition read_char :: "char \<Rightarrow> string \<Rightarrow> string option" where
  "read_char c s = (case s of x # r \<Rightarrow> if x = c then Some r else None | [] \<Rightarrow> None)"

text \<open>A number of two digits, or of one where \<open>Parse\<close> is lenient.\<close>

fun read_num :: "bool \<Rightarrow> string \<Rightarrow> (int \<times> string) option" where
  "read_num fixed (a # b # r) =
    (if \<not> is_digit a then None else if is_digit b then Some (digits_val [a, b], r)
     else if fixed then None else Some (digits_val [a], b # r))"
| "read_num fixed [a] = (if is_digit a \<and> \<not> fixed then Some (digits_val [a], []) else None)"
| "read_num fixed [] = None"

definition read_clock :: "string \<Rightarrow> (int \<times> string) option" where
  "read_clock s0 =
    Option.bind (read_num False s0) (\<lambda>(h, s1). Option.bind (read_char (CHR '':'') s1) (\<lambda>s2.
    Option.bind (read_num True s2) (\<lambda>(m, s3). Option.bind (read_char (CHR '':'') s3) (\<lambda>s4.
    Option.bind (read_num True s4) (\<lambda>(sec, s5).
      if h < 24 \<and> m < 60 \<and> sec < 60 then Some (3600 * h + 60 * m + sec, s5) else None)))))"

text \<open>Nanoseconds: of more than nine digits the first nine count.\<close>

definition read_fraction :: "string \<Rightarrow> int \<times> string" where
  "read_fraction s = (case s of c # d # r \<Rightarrow>
       if (c = CHR ''.'' \<or> c = CHR '','') \<and> is_digit d
       then (let ds = take 9 (takeWhile is_digit (d # r)) in
         (digits_val ds * 10 ^ (9 - length ds), dropWhile is_digit (d # r)))
       else (0, s)
     | _ \<Rightarrow> (0, s))"

text \<open>The offset of the zone in seconds; nothing may follow it.\<close>

definition read_zone :: "string \<Rightarrow> int option" where
  "read_zone s = (if s = ''Z'' then Some 0
     else if length s = 6 \<and> s ! 3 = CHR '':'' then
       Option.bind (read_num True (take 2 (drop 1 s))) (\<lambda>(h, _). Option.bind (read_num True (drop 4 s)) (\<lambda>(m, _).
         if 24 < h \<or> 60 < m then None
         else if s ! 0 = CHR ''+'' then Some (3600 * h + 60 * m)
         else if s ! 0 = CHR ''-'' then Some (- (3600 * h + 60 * m)) else None))
     else None)"

definition parse_rfc3339 :: "string \<Rightarrow> int option" where
  "parse_rfc3339 s =
    Option.bind (parse_date (take 10 s)) (\<lambda>dt. Option.bind (read_char (CHR ''T'') (drop 10 s)) (\<lambda>s1.
    Option.bind (read_clock s1) (\<lambda>(secs, s2). case read_fraction s2 of (ns, s3) \<Rightarrow>
    Option.bind (read_zone s3) (\<lambda>off. Some ((86400 * days_of_date dt + secs - off) * 1000000000 + ns)))))"

subsection \<open>Round trip\<close>

lemma read_num_pad: "0 \<le> n \<Longrightarrow> n < 100 \<Longrightarrow> read_num b (pad_digits 2 n @ r) = Some (n, r)"
proof -
  assume n: "0 \<le> n" "n < 100"
  then have shape: "length (pad_digits 2 n) = 2 \<and> list_all is_digit (pad_digits 2 n) \<and> digits_val (pad_digits 2 n) = n"
    by (intro pad_digits_shape) auto
  then obtain x y where "pad_digits 2 n = [x, y]" by (auto simp: numeral_2_eq_2 length_Suc_conv)
  with shape show ?thesis by simp
qed

lemma read_clock_pad:
  assumes "0 \<le> h" "h < 24" "0 \<le> m" "m < 60" "0 \<le> sec" "sec < 60"
  shows "read_clock (pad_digits 2 h @ '':'' @ pad_digits 2 m @ '':'' @ pad_digits 2 sec @ r) = Some (3600 * h + 60 * m + sec, r)"
  using assms by (simp add: read_clock_def read_num_pad read_char_def)

lemma parse_rfc3339_print:
  assumes "printable_time t"
  shows "parse_rfc3339 (rfc3339 t) = Some (t * 1000000000)"
proof -
  let ?h = "t mod 86400 div 3600" and ?m = "t mod 3600 div 60" and ?s = "t mod 60"
  have date: "length (format_date (utc_date t)) = 10" "parse_date (format_date (utc_date t)) = Some (utc_date t)"
    using parse_format_date [OF valid_utc_date [OF assms]] parse_date_length by auto
  have b: "0 \<le> ?h" "?h < 24" "0 \<le> ?m" "?m < 60" "0 \<le> ?s" "?s < 60" by (auto simp: pos_imp_zdiv_nonneg_iff)
  have clock: "read_clock (pad_digits 2 ?h @ '':'' @ pad_digits 2 ?m @ '':'' @ pad_digits 2 ?s @ ''Z'') =
      Some (3600 * ?h + 60 * ?m + ?s, ''Z'')"
    by (rule read_clock_pad [OF b])
  have "t mod 86400 mod 3600 = t mod 3600" "t mod 3600 mod 60 = t mod 60"
    using mod_mod_cancel [of 3600 86400 t] mod_mod_cancel [of 60 3600 t] by simp_all
  then have "86400 * (t div 86400) + (3600 * ?h + 60 * ?m + ?s) = t"
    using mult_div_mod_eq [of 86400 t] mult_div_mod_eq [of 3600 "t mod 86400"] mult_div_mod_eq [of 60 "t mod 3600"] by linarith
  then have secs: "(86400 * days_of_date (utc_date t) + (3600 * ?h + 60 * ?m + ?s) - 0) * 1000000000 + 0 = t * 1000000000"
    by (simp only: days_of_utc_date) simp
  define D where "D = format_date (utc_date t)"
  define C where "C = pad_digits 2 ?h @ '':'' @ pad_digits 2 ?m @ '':'' @ pad_digits 2 ?s @ ''Z''"
  have shape: "rfc3339 t = D @ CHR ''T'' # C" by (simp add: rfc3339_def D_def C_def)
  have tail: "read_fraction ''Z'' = (0, ''Z'')" "read_zone ''Z'' = Some 0" by (simp_all add: read_fraction_def read_zone_def)
  have "parse_rfc3339 (D @ CHR ''T'' # C) =
      Some ((86400 * days_of_date (utc_date t) + (3600 * ?h + 60 * ?m + ?s) - 0) * 1000000000 + 0)"
    using date clock unfolding D_def [symmetric] C_def [symmetric] by (simp only: parse_rfc3339_def) (simp add: read_char_def tail)
  then show ?thesis unfolding shape secs .
qed

end
