(* ===== verification/AuditLog.thy ===== *)
theory AuditLog
  imports GoTimestamps Sql "HOL-Library.Sublist"
begin

section \<open>The audit log\<close>

text \<open>
  Models \<^verbatim>\<open>internal/audit\<close>: the service that completes an entry and appends it, the slice of
  \<^verbatim>\<open>infra/inmemory/repository.go\<close> and the table of \<^verbatim>\<open>infra/mysql/repository.go\<close>, whose queries
  answer one page of a company's entries, the latest first; a reader passes the time of the last entry
  of a page as the cursor of the next. Parameters of the table: the collation key \<open>rank\<close>,
  \<open>server_time\<close>, the server's reading of a text compared with a TIMESTAMP, and \<open>arrange\<close>, the order in which the
  server meets the rows, which decides among rows of one second. JSON columns are kept by value. Nothing is
  supposed of how the server reads the cursor texts (which end in \<^verbatim>\<open>Z\<close>, a form that MySQL does not document),
  so the facts on whole readings are about the in-memory log.
\<close>

subsection \<open>Entries and the port\<close>

record audit_entry =
  lg_event :: string
  lg_occurred :: string
  lg_actor :: string
  lg_membership :: string
  lg_company :: string
  lg_action :: string
  lg_rtype :: string
  lg_rid :: string
  lg_decision :: string
  lg_request :: string
  lg_ip :: string
  lg_agent :: string
  lg_permissions :: "attrs option"
  lg_scope :: "attrs option"
  lg_meta :: "attrs option"

record audit_query =
  aq_company :: string
  aq_action :: string
  aq_rtype :: string
  aq_rid :: string
  aq_from :: string
  aq_to :: string
  aq_cursor :: string
  aq_limit :: int

record 'r audit_port =
  ap_append :: "audit_entry \<Rightarrow> (go_error, 'r, unit) action"
  ap_list :: "audit_query \<Rightarrow> (go_error, 'r, audit_entry list) action"

record 'r audit_state =
  au_repo :: 'r
  au_ids :: idgen

definition complete_entry :: "int \<Rightarrow> string \<Rightarrow> audit_entry \<Rightarrow> audit_entry" where
  "complete_entry now i e = e\<lparr>lg_event := (if lg_event e = [] then i else lg_event e),
     lg_occurred := (if lg_occurred e = [] then rfc3339 now else lg_occurred e),
     lg_meta := (case lg_meta e of None \<Rightarrow> Some [] | Some m \<Rightarrow> Some m)\<rparr>"

definition append_audit_log :: "'r audit_port \<Rightarrow> int \<Rightarrow> audit_entry \<Rightarrow> (go_error, 'r audit_state, unit) action" where
  "append_audit_log p now e s =
    (let (i, g) = (if lg_event e = [] then new_uuid (au_ids s) else ([], au_ids s)) in
     case ap_append p (complete_entry now i e) (au_repo s) of
       (Inl err, r) \<Rightarrow> (Inl (WrapErr ''append audit log'' err), s\<lparr>au_repo := r, au_ids := g\<rparr>)
     | (Inr _, r) \<Rightarrow> (Inr (), s\<lparr>au_repo := r, au_ids := g\<rparr>))"

subsection \<open>In memory\<close>

definition trimmed_time :: "string \<Rightarrow> int option" where
  "trimmed_time s = (if trim_space s = [] then None else parse_rfc3339 (trim_space s))"

text \<open>A condition on two times that holds when either is missing.\<close>

definition if_both :: "(int \<Rightarrow> int \<Rightarrow> bool) \<Rightarrow> int option \<Rightarrow> int option \<Rightarrow> bool" where
  "if_both P x y = (case (x, y) of (Some a, Some b) \<Rightarrow> P a b | _ \<Rightarrow> True)"

definition text_filter :: "string \<Rightarrow> string \<Rightarrow> bool" where
  "text_filter want have' = (trim_space want = [] \<or> equal_fold (trim_space have') (trim_space want))"

definition mem_audit_match :: "audit_query \<Rightarrow> audit_entry \<Rightarrow> bool" where
  "mem_audit_match q e =
    (let t = trimmed_time (lg_occurred e) in
     if_both (\<le>) (trimmed_time (aq_from q)) t \<and> if_both (\<ge>) (trimmed_time (aq_to q)) t \<and>
     if_both (>) (trimmed_time (aq_cursor q)) t \<and>
     text_filter (aq_company q) (lg_company e) \<and> text_filter (aq_action q) (lg_action e) \<and>
     text_filter (aq_rtype q) (lg_rtype e) \<and> text_filter (aq_rid q) (lg_rid e))"

definition page_limit :: "int \<Rightarrow> nat" where
  "page_limit n = (if n \<le> 0 then 50 else nat n)"

text \<open>The loop over the slice from its end, which stops when the page is full.\<close>

fun scan_back :: "(audit_entry \<Rightarrow> bool) \<Rightarrow> nat \<Rightarrow> audit_entry list \<Rightarrow> audit_entry list \<Rightarrow> audit_entry list" where
  "scan_back P n out [] = out"
| "scan_back P n out (e # es) =
    (if \<not> P e then scan_back P n out es
     else if n \<le> length (out @ [e]) then out @ [e] else scan_back P n (out @ [e]) es)"

definition mem_audit :: "audit_entry list audit_port" where
  "mem_audit = \<lparr>ap_append = (\<lambda>e s. (Inr (), s @ [e])),
     ap_list = (\<lambda>q s. (Inr (scan_back (mem_audit_match q) (page_limit (aq_limit q)) [] (rev s)), s))\<rparr>"

lemma scan_back_eq: "length out < n \<Longrightarrow> scan_back P n out es = out @ take (n - length out) (filter P es)"
  by (induction es arbitrary: out) (auto simp: Suc_diff_Suc take_Cons' less_Suc_eq_le)

lemma page_limit_pos: "0 < page_limit n"
  by (simp add: page_limit_def)

lemma mem_audit_page: "ap_list mem_audit q s = (Inr (take (page_limit (aq_limit q)) (filter (mem_audit_match q) (rev s))), s)"
  by (simp add: mem_audit_def scan_back_eq page_limit_pos)

subsection \<open>In MySQL\<close>

record audit_row =
  ar_event :: string
  ar_at :: int
  ar_cols :: audit_entry

definition byte_trunc :: "nat \<Rightarrow> string \<Rightarrow> string" where
  "byte_trunc n s = (if length s \<le> n then s else take n s)"

text \<open>The row keeps the columns of the entry; a TIMESTAMP is rounded to the second, and NULL and the
  empty text are read back alike.\<close>

definition round_second :: "int \<Rightarrow> int" where
  "round_second ns = (ns + 500000000) div 1000000000"

definition audit_row_of :: "audit_entry \<Rightarrow> int \<Rightarrow> audit_row" where
  "audit_row_of e ns = \<lparr>ar_event = lg_event e, ar_at = round_second ns,
     ar_cols = e\<lparr>lg_ip := byte_trunc 64 (lg_ip e), lg_agent := byte_trunc 512 (lg_agent e)\<rparr>\<rparr>"

definition sql_audit_append :: "audit_entry \<Rightarrow> (go_error, audit_row list, unit) action" where
  "sql_audit_append e s =
    (if lg_event e = [] then (Inl (PlainErr ''audit append: event_id required''), s)
     else case parse_rfc3339 (lg_occurred e) of
         None \<Rightarrow> (Inl (WrapErr ''audit append: parse occurred_at'' (PlainErr ''parsing time'')), s)
       | Some ns \<Rightarrow> if list_ex (\<lambda>r. ar_event r = lg_event e) s then (Inl (WrapErr ''audit insert'' duplicate_key), s)
           else (Inr (), s @ [audit_row_of e ns]))"

definition read_audit_row :: "audit_row \<Rightarrow> audit_entry" where
  "read_audit_row r = (ar_cols r)\<lparr>lg_occurred := rfc3339 (ar_at r)\<rparr>"

definition column_filter :: "(string \<Rightarrow> string) \<Rightarrow> string \<Rightarrow> string \<Rightarrow> bool" where
  "column_filter rank want col = (trim_space want = [] \<or> col \<noteq> [] \<and> rank col = rank (trim_space want))"

definition time_filter :: "(string \<Rightarrow> int option) \<Rightarrow> (int \<Rightarrow> int \<Rightarrow> bool) \<Rightarrow> string \<Rightarrow> int \<Rightarrow> bool" where
  "time_filter server_time P want t =
    (trim_space want = [] \<or> (case server_time (trim_space want) of None \<Rightarrow> False | Some w \<Rightarrow> P w t))"

definition sql_audit_match :: "(string \<Rightarrow> string) \<Rightarrow> (string \<Rightarrow> int option) \<Rightarrow> audit_query \<Rightarrow> audit_row \<Rightarrow> bool" where
  "sql_audit_match rank server_time q r =
    (let e = ar_cols r in
     column_filter rank (aq_company q) (lg_company e) \<and> column_filter rank (aq_action q) (lg_action e) \<and>
     column_filter rank (aq_rtype q) (lg_rtype e) \<and> column_filter rank (aq_rid q) (lg_rid e) \<and>
     time_filter server_time (\<le>) (aq_from q) (ar_at r) \<and> time_filter server_time (\<ge>) (aq_to q) (ar_at r) \<and>
     time_filter server_time (>) (aq_cursor q) (ar_at r))"

definition sql_audit_list :: "(string \<Rightarrow> string) \<Rightarrow> (string \<Rightarrow> int option) \<Rightarrow> (audit_row list \<Rightarrow> audit_row list) \<Rightarrow> audit_query \<Rightarrow>
    (go_error, audit_row list, audit_entry list) action" where
  "sql_audit_list rank server_time arrange q s = (Inr (map read_audit_row (take (page_limit (aq_limit q))
     (sort_key (\<lambda>r. - ar_at r) (arrange (filter (sql_audit_match rank server_time q) s))))), s)"

definition sql_audit :: "(string \<Rightarrow> string) \<Rightarrow> (string \<Rightarrow> int option) \<Rightarrow> (audit_row list \<Rightarrow> audit_row list) \<Rightarrow>
    audit_row list audit_port" where
  "sql_audit rank server_time arrange = \<lparr>ap_append = sql_audit_append, ap_list = sql_audit_list rank server_time arrange\<rparr>"


subsection \<open>Reading page after page\<close>

text \<open>The cursor a reader gets with a page, and the loop that follows the cursors.\<close>

definition next_cursor :: "nat \<Rightarrow> audit_entry list \<Rightarrow> string option" where
  "next_cursor n es = (if length es = n \<and> es \<noteq> [] \<and> trim_space (lg_occurred (last es)) \<noteq> [] then Some (lg_occurred (last es)) else None)"

partial_function (option) read_pages :: "'r audit_port \<Rightarrow> audit_query \<Rightarrow> 'r \<Rightarrow> audit_entry list list option" where
  "read_pages p q r = (case fst (ap_list p q r) of
      Inl e \<Rightarrow> Some []
    | Inr es \<Rightarrow> (case next_cursor (page_limit (aq_limit q)) es of
        None \<Rightarrow> Some [es]
      | Some c \<Rightarrow> Option.bind (read_pages p (q\<lparr>aq_cursor := c\<rparr>) (snd (ap_list p q r))) (\<lambda>ps. Some (es # ps))))"

lemma subseq_elem: "subseq xs ys \<Longrightarrow> x \<in> set xs \<Longrightarrow> x \<in> set ys"
  by (erule list_emb_set) auto

declare read_pages.simps [code]

locale audit_pages =
  fixes port :: "'r audit_port" and ok :: "'r \<Rightarrow> bool" and trail :: "audit_query \<Rightarrow> 'r \<Rightarrow> audit_entry list" and tm :: "audit_entry \<Rightarrow> int"
  assumes page_law: "ok r \<Longrightarrow> ap_list port q r = (Inr (take (page_limit (aq_limit q)) (trail q r)), r)"
    and cursor_law: "ok r \<Longrightarrow> e \<in> set (trail q r) \<Longrightarrow> trail (q\<lparr>aq_cursor := lg_occurred e\<rparr>) r = filter (\<lambda>x. tm x < tm e) (trail q r)"
    and stamp_law: "ok r \<Longrightarrow> e \<in> set (trail q r) \<Longrightarrow> trim_space (lg_occurred e) \<noteq> []"
    and order_law: "ok r \<Longrightarrow> sorted_wrt (\<lambda>a b. tm b \<le> tm a) (trail q r)"
begin

lemma last_page: "ok r \<Longrightarrow> length (trail q r) < page_limit (aq_limit q) \<Longrightarrow> read_pages port q r = Some [trail q r]"
  by (subst read_pages.simps) (simp add: page_law next_cursor_def)

lemma full_page:
  assumes "ok r" and "page_limit (aq_limit q) \<le> length (trail q r)"
  shows "read_pages port q r = Option.bind
    (read_pages port (q\<lparr>aq_cursor := lg_occurred (trail q r ! (page_limit (aq_limit q) - 1))\<rparr>) r)
    (\<lambda>ps. Some (take (page_limit (aq_limit q)) (trail q r) # ps))"
proof -
  let ?n = "page_limit (aq_limit q)"
  obtain i where i: "?n = Suc i" using page_limit_pos [of "aq_limit q"] by (cases ?n) auto
  with assms(2) have "take ?n (trail q r) = take i (trail q r) @ [trail q r ! i]" by (simp add: take_Suc_conv_app_nth)
  then have last: "last (take ?n (trail q r)) = trail q r ! (?n - 1)" "take ?n (trail q r) \<noteq> []" using i by simp_all
  moreover have "trail q r ! (?n - 1) \<in> set (trail q r)" using i assms(2) by (intro nth_mem) simp
  ultimately have "next_cursor ?n (take ?n (trail q r)) = Some (lg_occurred (trail q r ! (?n - 1)))"
    using stamp_law [OF assms(1)] assms(2) by (simp add: next_cursor_def)
  then show ?thesis by (subst read_pages.simps) (simp add: page_law [OF assms(1)])
qed

lemma before_tail:
  assumes "sorted_wrt (\<lambda>a b. tm b \<le> tm a) es" and "i < length es"
  shows "filter (\<lambda>x. tm x < tm (es ! i)) es = filter (\<lambda>x. tm x < tm (es ! i)) (drop (Suc i) es)"
proof -
  have "filter (\<lambda>x. tm x < tm (es ! i)) (take (Suc i) es) = []"
    using assms by (auto simp: filter_empty_conv in_set_conv_nth sorted_wrt_iff_nth_less less_Suc_eq not_less)
  then show ?thesis by (metis append_take_drop_id filter_append append_Nil)
qed

lemma pages_end:
  assumes "ok r"
  shows "\<exists>ps. read_pages port q r = Some ps \<and> subseq (concat ps) (trail q r) \<and> (distinct (map tm (trail q r)) \<longrightarrow> concat ps = trail q r)"
proof (induction "length (trail q r)" arbitrary: q rule: less_induct)
  case less
  let ?n = "page_limit (aq_limit q)" and ?es = "trail q r"
  show ?case
  proof (cases "length ?es < ?n")
    case True
    then show ?thesis using last_page [OF assms] by simp
  next
    case False
    let ?i = "?n - 1"
    let ?q = "q\<lparr>aq_cursor := lg_occurred (?es ! ?i)\<rparr>"
    have i: "?i < length ?es" "Suc ?i = ?n" using False page_limit_pos [of "aq_limit q"] by linarith+
    have rest: "trail ?q r = filter (\<lambda>x. tm x < tm (?es ! ?i)) (drop ?n ?es)"
      using cursor_law [OF assms nth_mem [OF i(1)]] before_tail [OF order_law [OF assms] i(1)] i(2) by simp
    have "length (trail ?q r) \<le> length (drop ?n ?es)" unfolding rest by (rule length_filter_le)
    also have "\<dots> < length ?es" using i by (simp only: length_drop)
    finally obtain ps where ps: "read_pages port ?q r = Some ps" "subseq (concat ps) (trail ?q r)"
        "distinct (map tm (trail ?q r)) \<Longrightarrow> concat ps = trail ?q r"
      using less.hyps [of ?q] by blast
    have run: "read_pages port q r = Some (take ?n ?es # ps)" using full_page [OF assms, of q] ps(1) False by simp
    have "subseq (concat ps) (drop ?n ?es)" using ps(2) unfolding rest by (rule subseq_order.trans) (rule subseq_filter_left)
    then have sub: "subseq (take ?n ?es @ concat ps) ?es"
      using list_emb_append_mono [of "(=)" "take ?n ?es" "take ?n ?es" "concat ps" "drop ?n ?es"] by simp
    have "concat ps = drop ?n ?es" if d: "distinct (map tm ?es)"
    proof -
      have "\<forall>x \<in> set (drop ?n ?es). tm x < tm (?es ! ?i)"
      proof
        fix x assume "x \<in> set (drop ?n ?es)"
        then obtain j where j: "j < length ?es - ?n" "x = ?es ! (?n + j)" by (auto simp: in_set_conv_nth)
        then have "tm x \<le> tm (?es ! ?i)" using order_law [OF assms, of q] i by (auto simp: sorted_wrt_iff_nth_less)
        moreover have "tm x \<noteq> tm (?es ! ?i)"
          using d j i nth_eq_iff_index_eq [OF d, of "?n + j" ?i] by simp
        ultimately show "tm x < tm (?es ! ?i)" by simp
      qed
      then have all: "trail ?q r = drop ?n ?es" unfolding rest by (simp add: filter_id_conv)
      moreover have "distinct (map tm (drop ?n ?es))" using d by (simp add: drop_map [symmetric])
      ultimately show ?thesis using ps(3) by simp
    qed
    then show ?thesis using run sub by simp
  qed
qed

text \<open>An entry of the second in which a full page ends, but not on that page, is on no later page.\<close>

lemma tie_skipped:
  assumes "ok r" and "page_limit (aq_limit q) \<le> length (trail q r)" and "read_pages port q r = Some (p # ps)"
    and "tm e = tm (trail q r ! (page_limit (aq_limit q) - 1))"
  shows "e \<notin> set (concat ps)"
proof -
  let ?n = "page_limit (aq_limit q)"
  let ?q = "q\<lparr>aq_cursor := lg_occurred (trail q r ! (?n - 1))\<rparr>"
  from assms(3) have ps: "read_pages port ?q r = Some ps" unfolding full_page [OF assms(1,2)] by (auto simp: bind_eq_Some_conv)
  have "0 < ?n" by (rule page_limit_pos)
  then have "trail q r ! (?n - 1) \<in> set (trail q r)" using assms(2) by (intro nth_mem) linarith
  with cursor_law [OF assms(1) this] assms(4) have "e \<notin> set (trail ?q r)" by simp
  obtain qs where qs: "read_pages port ?q r = Some qs" "subseq (concat qs) (trail ?q r)"
    using pages_end [OF assms(1), of ?q] by (elim exE conjE)
  have "qs = ps" by (rule option.inject [THEN iffD1, OF trans [OF qs(1) [symmetric] ps]])
  with qs(2) have "x \<in> set (concat ps) \<Longrightarrow> x \<in> set (trail ?q r)" for x by (metis subseq_elem)
  with \<open>e \<notin> set (trail ?q r)\<close> show ?thesis by metis
qed

end


subsection \<open>The pages of the in-memory log\<close>

definition entry_time :: "audit_entry \<Rightarrow> int" where
  "entry_time e = (case trimmed_time (lg_occurred e) of None \<Rightarrow> 0 | Some t \<Rightarrow> t)"

text \<open>Every entry has a time and none is earlier than one before it.\<close>

definition timed_log :: "audit_entry list \<Rightarrow> bool" where
  "timed_log es \<longleftrightarrow> list_all (\<lambda>e. trimmed_time (lg_occurred e) \<noteq> None) es \<and> sorted_wrt (\<lambda>a b. entry_time a \<le> entry_time b) es"

definition mem_trail :: "audit_query \<Rightarrow> audit_entry list \<Rightarrow> audit_entry list" where
  "mem_trail q es = filter (mem_audit_match q) (rev es)"

lemma trimmed_time_Some: "trimmed_time (lg_occurred e) \<noteq> None \<Longrightarrow> trimmed_time (lg_occurred e) = Some (entry_time e)"
  by (auto simp: entry_time_def)

lemma mem_cursor:
  assumes "mem_audit_match q e" and "trimmed_time (lg_occurred e) \<noteq> None" and "trimmed_time (lg_occurred x) \<noteq> None"
  shows "mem_audit_match (q\<lparr>aq_cursor := lg_occurred e\<rparr>) x \<longleftrightarrow> mem_audit_match q x \<and> entry_time x < entry_time e"
  using assms(1) unfolding mem_audit_match_def Let_def trimmed_time_Some [OF assms(2)] trimmed_time_Some [OF assms(3)]
  by (auto simp: if_both_def trimmed_time_Some [OF assms(2)] split: option.splits)

interpretation mem_log: audit_pages mem_audit timed_log mem_trail entry_time
proof (unfold_locales, goal_cases)
  case (1 r q)
  then show ?case by (simp add: mem_audit_page mem_trail_def)
next
  case (2 r e q)
  then have "mem_audit_match (q\<lparr>aq_cursor := lg_occurred e\<rparr>) x \<longleftrightarrow> mem_audit_match q x \<and> entry_time x < entry_time e" if "x \<in> set r" for x
    using that by (intro mem_cursor) (auto simp: mem_trail_def timed_log_def list_all_iff)
  then show ?case unfolding mem_trail_def filter_filter by (intro filter_cong) auto
next
  case (3 r e q)
  then show ?case by (auto simp: mem_trail_def timed_log_def list_all_iff trimmed_time_def split: if_splits)
next
  case (4 r q)
  then show ?case unfolding mem_trail_def timed_log_def by (intro sorted_wrt_filter) (simp add: sorted_wrt_rev)
qed

subsubsection \<open>The timestamps the code prints\<close>





subsection \<open>What the service appends\<close>

fun run_appends :: "'r audit_port \<Rightarrow> (int \<times> audit_entry) list \<Rightarrow> 'r audit_state \<Rightarrow> 'r audit_state" where
  "run_appends p [] s = s"
| "run_appends p ((now, e) # es) s = run_appends p es (snd (append_audit_log p now e s))"







lemma sql_append:
  assumes "lg_occurred e = []" and "printable_time now"
  shows "map ar_at (au_repo (snd (append_audit_log (sql_audit rank st arr) now e s))) \<in> {map ar_at (au_repo s), map ar_at (au_repo s) @ [now]}"
  using assms parse_rfc3339_print [OF assms(2)]
  by (auto simp: append_audit_log_def sql_audit_def sql_audit_append_def complete_entry_def audit_row_of_def round_second_def
    Let_def split: prod.splits if_splits)

lemma sql_appends:
  assumes "list_all (\<lambda>(now, e). lg_occurred e = [] \<and> printable_time now) h"
  shows "subseq (map ar_at (au_repo (run_appends (sql_audit rank st arr) h s))) (map ar_at (au_repo s) @ map fst h)"
  using assms
proof (induction h arbitrary: s)
  case Nil
  then show ?case by simp
next
  case (Cons x h)
  obtain now e where x: "x = (now, e)" by (cases x)
  let ?s = "snd (append_audit_log (sql_audit rank st arr) now e s)"
  have "subseq (map ar_at (au_repo ?s)) (map ar_at (au_repo s) @ [now])"
    using sql_append [of e now rank st arr s] Cons.prems x by auto
  then have "subseq (map ar_at (au_repo ?s) @ map fst h) (map ar_at (au_repo s) @ map fst (x # h))"
    using list_emb_append_mono [of "(=)" _ _ "map fst h" "map fst h"] x by fastforce
  moreover have "subseq (map ar_at (au_repo (run_appends (sql_audit rank st arr) h ?s))) (map ar_at (au_repo ?s) @ map fst h)"
    using Cons x by simp
  ultimately show ?case using x subseq_order.trans by auto
qed

subsection \<open>Properties\<close>


text \<open>C38: the cursor is the time of the last entry and the next page starts strictly before it, so an entry written
  in the same second as the last one of a full page, but not on that page, is on no page at all.\<close>

theorem audit_tie_is_lost:
  assumes "timed_log es" and "page_limit (aq_limit q) \<le> length (mem_trail q es)" and "read_pages mem_audit q es = Some (p # ps)"
    and "entry_time e = entry_time (mem_trail q es ! (page_limit (aq_limit q) - 1))" and "e \<notin> set p"
  shows "e \<notin> set (concat (p # ps))"
  using mem_log.tie_skipped [OF assms(1-4)] assms(5) by simp


definition wit_entry :: "string \<Rightarrow> audit_entry" where
  "wit_entry act = \<lparr>lg_event = [], lg_occurred = [], lg_actor = ''u_1'', lg_membership = ''m_1'', lg_company = ''c_1'', lg_action = act,
     lg_rtype = ''cms'', lg_rid = [], lg_decision = ''allow'', lg_request = [], lg_ip = [], lg_agent = [],
     lg_permissions = None, lg_scope = None, lg_meta = None\<rparr>"

definition wit_audit_query :: audit_query where
  "wit_audit_query = \<lparr>aq_company = ''c_1'', aq_action = [], aq_rtype = [], aq_rid = [], aq_from = [], aq_to = [], aq_cursor = [], aq_limit = 1\<rparr>"



definition wit_tied :: "audit_entry list" where
  "wit_tied = [complete_entry 1767225600 ''e1'' (wit_entry ''a''), complete_entry 1767225600 ''e2'' (wit_entry ''b'')]"

theorem audit_tie_is_lost_witness:
  "\<exists>ps. read_pages mem_audit wit_audit_query wit_tied = Some ps \<and> hd wit_tied \<in> set (mem_trail wit_audit_query wit_tied) \<and> hd wit_tied \<notin> set (concat ps)"
proof -
  have run: "read_pages mem_audit wit_audit_query wit_tied = Some [[last wit_tied], []]" by code_simp
  have h: "timed_log wit_tied" "page_limit (aq_limit wit_audit_query) \<le> length (mem_trail wit_audit_query wit_tied)"
    "entry_time (hd wit_tied) = entry_time (mem_trail wit_audit_query wit_tied ! (page_limit (aq_limit wit_audit_query) - 1))"
    "hd wit_tied \<notin> set [last wit_tied]" "hd wit_tied \<in> set (mem_trail wit_audit_query wit_tied)" by code_simp+
  from audit_tie_is_lost [OF h(1,2) run h(3,4)] run h(5) show ?thesis by blast
qed

end
