(* ===== verification/HttpRequests.thy ===== *)
theory HttpRequests
  imports Authorization Tokens AuditLog
begin

section \<open>Requests and replies of the HTTP handlers\<close>

text \<open>
  What the handlers under \<^verbatim>\<open>internal/*/transport/http\<close> share: the parts of a request they read, the
  bearer token, and the reply, which is a status with a body or the error that \<^verbatim>\<open>httpx.WriteError\<close> writes.
  A handler is an action: where the code writes an error and returns, the action fails with it. A body
  that \<^verbatim>\<open>json.Decoder\<close> reads is given by the outcome of the decoding.
\<close>

record http_request =
  hq_authorization :: string
  hq_idempotency :: string
  hq_request_id :: string
  hq_remote :: string
  hq_agent :: string

type_synonym 'b reply = "error_response + int \<times> 'b"

definition respond :: "(go_error, 's, int \<times> 'b) action \<Rightarrow> 's \<Rightarrow> 'b reply \<times> 's" where
  "respond h s = (case h s of (Inl e, s') \<Rightarrow> (Inl (write_error e), s') | (Inr r, s') \<Rightarrow> (Inr r, s'))"

definition bearer_token :: "string \<Rightarrow> string" where
  "bearer_token h0 =
    (let h = trim_space h0 in
     if h = [] then []
     else case split_first (CHR '' '') h of
         (scheme, Some rest) \<Rightarrow> if equal_fold scheme ''bearer'' then trim_space rest else h
       | (_, None) \<Rightarrow> h)"

text \<open>\<open>strconv.Atoi\<close> on a 64-bit machine.\<close>

definition atoi :: "string \<Rightarrow> int option" where
  "atoi s =
    (let (neg, ds) = (case s of [] \<Rightarrow> (False, []) | c # r \<Rightarrow> if c = CHR ''-'' then (True, r) else if c = CHR ''+'' then (False, r) else (False, s)) in
     if ds = [] \<or> \<not> list_all is_digit ds then None
     else let n = (if neg then - digits_val ds else digits_val ds) in
       if - 9223372036854775808 \<le> n \<and> n \<le> 9223372036854775807 then Some n else None)"

definition claims_subject :: "access_claims \<Rightarrow> subject_ref" where
  "claims_subject c = \<lparr>sub_user = ac_sub c, sub_membership = ac_membership c, sub_company = ac_company c\<rparr>"

definition audit_request :: "http_request \<Rightarrow> subject_ref \<Rightarrow> string \<Rightarrow> string \<Rightarrow> string \<Rightarrow> attrs option \<Rightarrow> audit_entry" where
  "audit_request req sub action rtype rid meta = \<lparr>lg_event = [], lg_occurred = [], lg_actor = sub_user sub,
     lg_membership = sub_membership sub, lg_company = sub_company sub, lg_action = action, lg_rtype = rtype, lg_rid = rid,
     lg_decision = ''allow'', lg_request = hq_request_id req, lg_ip = hq_remote req, lg_agent = hq_agent req,
     lg_permissions = None, lg_scope = None, lg_meta = meta\<rparr>"

end
