(* ===== verification/Idempotency.thy ===== *)
theory Idempotency
  imports Sql "HOL-Library.Sublist"
begin

section \<open>Idempotency keys\<close>

text \<open>
  Models \<^verbatim>\<open>internal/platform/idempotency/store.go\<close> and its MySQL store. A request reserves its key
  with an INSERT that the unique key (scope, key) arbitrates, runs, and then completes the reservation with the
  response or abandons it. The response is a JSON column, kept by its value. Parameters: the collation key
  \<open>rank\<close> of the table and the length in bytes of one day; identifiers come from the generator.
\<close>

record idem_params =
  ip_company :: string
  ip_scope :: string
  ip_key :: string
  ip_hash :: string

text \<open>The row; \<open>None\<close> is NULL.\<close>

record 'b idem_row =
  ik_id :: string
  ik_company :: "string option"
  ik_scope :: string
  ik_key :: string
  ik_hash :: "string option"
  ik_status :: string
  ik_response :: "(int \<times> 'b) option"
  ik_expires :: int

record 'b idem_result =
  ir_reservation :: string
  ir_replay :: bool
  ir_status :: int
  ir_body :: "'b option"
  ir_conflict :: bool

record 'b idem_db =
  ix_rows :: "'b idem_row list"
  ix_companies :: "string list"
  ix_ids :: idgen

definition no_result :: "'b idem_result" where
  "no_result = \<lparr>ir_reservation = [], ir_replay = False, ir_status = 0, ir_body = None, ir_conflict = False\<rparr>"

definition same_key :: "(string \<Rightarrow> string) \<Rightarrow> string \<Rightarrow> string \<Rightarrow> 'b idem_row \<Rightarrow> bool" where
  "same_key rank scope key r \<longleftrightarrow> rank (ik_scope r) = rank scope \<and> rank (ik_key r) = rank key"

definition stored_key :: "string \<Rightarrow> string" where
  "stored_key k = (if 191 < length (trim_space k) then take 191 (trim_space k) else trim_space k)"

definition load_after_conflict :: "(string \<Rightarrow> string) \<Rightarrow> string \<Rightarrow> string \<Rightarrow> string \<Rightarrow> 'b idem_row list \<Rightarrow> go_error + 'b idem_result" where
  "load_after_conflict rank scope key hash rows = (case List.find (same_key rank scope key) rows of
      None \<Rightarrow> Inl (PlainErr ''idempotency: row missing after duplicate'')
    | Some r \<Rightarrow>
        if ik_status r = ''completed'' then
          (if ik_hash r \<noteq> Some hash then Inr (no_result\<lparr>ir_conflict := True\<rparr>)
           else case ik_response r of
               None \<Rightarrow> Inr (no_result\<lparr>ir_conflict := True\<rparr>)
             | Some (st, body) \<Rightarrow> Inr (no_result\<lparr>ir_replay := True, ir_status := (if st = 0 then 200 else st), ir_body := Some body\<rparr>))
        else Inr (no_result\<lparr>ir_conflict := True\<rparr>))"

definition try_reserve :: "(string \<Rightarrow> string) \<Rightarrow> int \<Rightarrow> idem_params \<Rightarrow> (go_error, 'b idem_db, 'b idem_result) action" where
  "try_reserve rank now p s =
    (let scope = trim_space (ip_scope p); key = stored_key (ip_key p) in
     if scope = [] \<or> trim_space (ip_key p) = [] then (Inl (PlainErr ''idempotency: scope and key required''), s)
     else
       (let (i, g) = new_uuid (ix_ids s); s1 = s\<lparr>ix_ids := g\<rparr>; company = null_if_empty (trim_space (ip_company p)) in
        if list_ex (\<lambda>r. ik_id r = i \<or> same_key rank scope key r) (ix_rows s)
        then (load_after_conflict rank scope key (ip_hash p) (ix_rows s), s1)
        else if (case company of None \<Rightarrow> False | Some c \<Rightarrow> \<not> List.member (ix_companies s) c)
        then (Inl (WrapErr ''idempotency insert'' foreign_key), s1)
        else (Inr (no_result\<lparr>ir_reservation := i\<rparr>), s1\<lparr>ix_rows := ix_rows s @ [\<lparr>ik_id = i, ik_company = company, ik_scope = scope,
          ik_key = key, ik_hash = null_if_empty (ip_hash p), ik_status = ''in_progress'', ik_response = None, ik_expires = now + 86400\<rparr>]\<rparr>)))"

definition complete_key :: "string \<Rightarrow> int \<times> 'b \<Rightarrow> (go_error, 'b idem_db, unit) action" where
  "complete_key i env s =
    (if i = [] then (Inr (), s)
     else let res = sql_update (\<lambda>r. ik_id r = i \<and> ik_status r = ''in_progress'')
            (\<lambda>r. r\<lparr>ik_status := ''completed'', ik_response := Some env\<rparr>) (ix_rows s) in
       (if fst res = 0 then Inl (PlainErr ''idempotency: complete affected 0 rows'') else Inr (), s\<lparr>ix_rows := snd res\<rparr>))"

definition abandon_key :: "string \<Rightarrow> (go_error, 'b idem_db, unit) action" where
  "abandon_key i s = (Inr (), if i = [] then s else s\<lparr>ix_rows := snd (sql_delete (\<lambda>r. ik_id r = i) (ix_rows s))\<rparr>)"


subsection \<open>The rows of the store\<close>

definition row_key :: "(string \<Rightarrow> string) \<Rightarrow> 'b idem_row \<Rightarrow> string \<times> string" where
  "row_key rank r = (rank (ik_scope r), rank (ik_key r))"

definition idem_ok :: "(string \<Rightarrow> string) \<Rightarrow> 'b idem_db \<Rightarrow> bool" where
  "idem_ok rank db \<longleftrightarrow> fresh_ids (ix_ids db) \<and> distinct (map ik_id (ix_rows db)) \<and> distinct (map (row_key rank) (ix_rows db)) \<and>
     (\<forall>r \<in> set (ix_rows db). \<exists>n < ig_next (ix_ids db). ik_id r = ig_supply (ix_ids db) n)"

definition taken :: "string \<Rightarrow> string option \<Rightarrow> string \<times> string \<Rightarrow> 'b idem_row \<Rightarrow> (string \<Rightarrow> string) \<Rightarrow> bool" where
  "taken i h k r rank \<longleftrightarrow> ik_id r = i \<and> row_key rank r = k \<and> ik_hash r = h \<and> ik_status r = ''in_progress''"

lemma same_key_row: "same_key rank scope key r \<longleftrightarrow> row_key rank r = (rank scope, rank key)"
  by (simp add: same_key_def row_key_def)

lemma idem_ok_next: "idem_ok rank db \<Longrightarrow> ik_id ` set (ix_rows db) \<subseteq> - {ig_supply (ix_ids db) (ig_next (ix_ids db))}"
  using fresh_ids_eq_iff by (fastforce simp: idem_ok_def)

lemma idem_ok_ids: "idem_ok rank (s\<lparr>ix_ids := (ix_ids s)\<lparr>ig_next := Suc (ig_next (ix_ids s))\<rparr>\<rparr>)" if "idem_ok rank s"
  using that by (auto simp: idem_ok_def) (meson less_Suc_eq)

lemma idem_ok_add:
  assumes "idem_ok rank s" and "ik_id r = ig_supply (ix_ids s) (ig_next (ix_ids s))" and "row_key rank r \<notin> row_key rank ` set (ix_rows s)"
  shows "idem_ok rank (s\<lparr>ix_ids := (ix_ids s)\<lparr>ig_next := Suc (ig_next (ix_ids s))\<rparr>, ix_rows := ix_rows s @ [r]\<rparr>)"
  using assms idem_ok_next [OF assms(1)] idem_ok_ids [OF assms(1)] by (auto simp: idem_ok_def)

text \<open>A reservation adds a row under a new identifier and a new key, or nothing.\<close>

lemma try_reserve_cases:
  assumes "idem_ok rank s" and "trim_space (ip_scope p) = ip_scope p" and "trim_space (ip_key p) = ip_key p" and "ip_key p \<noteq> []" and "ip_scope p \<noteq> []"
    and "try_reserve rank now p s = (x, s')"
  obtains e where "x = Inl e" and "ix_rows s' = ix_rows s" and "idem_ok rank s'"
  | res r where "x = Inr res" and "ix_rows s' = ix_rows s" and "idem_ok rank s'" and "r \<in> set (ix_rows s)"
      and "row_key rank r = (rank (ip_scope p), rank (stored_key (ip_key p)))"
      and "res = no_result\<lparr>ir_conflict := True\<rparr> \<and> \<not> (ik_status r = ''completed'' \<and> ik_hash r = Some (ip_hash p) \<and> ik_response r \<noteq> None) \<or>
        ik_status r = ''completed'' \<and> (\<exists>st body. ik_response r = Some (st, body) \<and>
        res = no_result\<lparr>ir_replay := True, ir_status := (if st = 0 then 200 else st), ir_body := Some body\<rparr>)"
  | r where "x = Inr (no_result\<lparr>ir_reservation := ik_id r\<rparr>)" and "ix_rows s' = ix_rows s @ [r]" and "idem_ok rank s'" and "ik_id r \<noteq> []"
      and "taken (ik_id r) (null_if_empty (ip_hash p)) (rank (ip_scope p), rank (stored_key (ip_key p))) r rank"
      and "ik_id r \<notin> ik_id ` set (ix_rows s)" and "row_key rank r \<notin> row_key rank ` set (ix_rows s)"
proof -
  let ?k = "(rank (ip_scope p), rank (stored_key (ip_key p)))"
  let ?i = "ig_supply (ix_ids s) (ig_next (ix_ids s))"
  let ?s1 = "s\<lparr>ix_ids := (ix_ids s)\<lparr>ig_next := Suc (ig_next (ix_ids s))\<rparr>\<rparr>"
  note ok1 = idem_ok_ids [OF assms(1)]
  have new: "?i \<notin> ik_id ` set (ix_rows s)" using idem_ok_next [OF assms(1)] by auto
  have uuid: "new_uuid (ix_ids s) = (?i, (ix_ids s)\<lparr>ig_next := Suc (ig_next (ix_ids s))\<rparr>)" by (simp add: new_uuid_def)
  show thesis
  proof (cases "?k \<in> row_key rank ` set (ix_rows s)")
    case True
    then have ex: "list_ex (\<lambda>r. ik_id r = ?i \<or> same_key rank (ip_scope p) (stored_key (ip_key p)) r) (ix_rows s)"
      by (auto simp: list_ex_iff same_key_row image_iff)
    have s': "s' = ?s1" "x = load_after_conflict rank (ip_scope p) (stored_key (ip_key p)) (ip_hash p) (ix_rows s)"
      using assms(2-6) ex by (simp_all add: try_reserve_def uuid Let_def)
    obtain r where r: "List.find (same_key rank (ip_scope p) (stored_key (ip_key p))) (ix_rows s) = Some r" "r \<in> set (ix_rows s)" "row_key rank r = ?k"
    proof (cases "List.find (same_key rank (ip_scope p) (stored_key (ip_key p))) (ix_rows s)")
      case None
      with True show thesis by (auto simp: find_None_iff same_key_row)
    next
      case (Some r)
      then show thesis by (intro that [of r]) (auto simp: find_Some_iff same_key_row)
    qed
    show thesis
      using s' r ok1 by (intro that(2) [of "projr x" r]) (auto simp: load_after_conflict_def split: option.splits)
  next
    case False
    then have ex: "\<not> list_ex (\<lambda>r. ik_id r = ?i \<or> same_key rank (ip_scope p) (stored_key (ip_key p)) r) (ix_rows s)"
      using new by (auto simp: list_ex_iff same_key_row image_iff)
    show thesis
    proof (cases "case null_if_empty (trim_space (ip_company p)) of None \<Rightarrow> False | Some c \<Rightarrow> \<not> List.member (ix_companies s) c")
      case True
      then have "x = Inl (WrapErr ''idempotency insert'' foreign_key)" "s' = ?s1"
        using assms(2-6) ex by (simp_all add: try_reserve_def uuid Let_def)
      then show thesis using ok1 by (intro that(1)) auto
    next
      case ok: False
      let ?r = "\<lparr>ik_id = ?i, ik_company = null_if_empty (trim_space (ip_company p)), ik_scope = ip_scope p, ik_key = stored_key (ip_key p),
        ik_hash = null_if_empty (ip_hash p), ik_status = ''in_progress'', ik_response = None, ik_expires = now + 86400\<rparr>"
      have s': "x = Inr (no_result\<lparr>ir_reservation := ?i\<rparr>)" "s' = ?s1\<lparr>ix_rows := ix_rows s @ [?r]\<rparr>"
        using assms(2-6) ex ok by (simp_all add: try_reserve_def uuid Let_def)
      have k: "row_key rank ?r = ?k" by (simp add: row_key_def)
      have "idem_ok rank s'" unfolding s'(2) by (rule idem_ok_add [OF assms(1)]) (use False k in \<open>simp_all add: k\<close>)
      then show thesis using s' new False k fresh_ids_nonempty assms(1)
        by (intro that(3) [of ?r]) (auto simp: taken_def idem_ok_def)
    qed
  qed
qed

definition completed_row :: "string \<Rightarrow> int \<times> 'b \<Rightarrow> 'b idem_row \<Rightarrow> 'b idem_row" where
  "completed_row i env r = (if ik_id r = i \<and> ik_status r = ''in_progress'' then r\<lparr>ik_status := ''completed'', ik_response := Some env\<rparr> else r)"

lemma completed_row_simps [simp]: "ik_id (completed_row i env r) = ik_id r" "row_key rank (completed_row i env r) = row_key rank r"
  "ik_hash (completed_row i env r) = ik_hash r"
  by (simp_all add: completed_row_def row_key_def)

lemma complete_key_rows: "i \<noteq> [] \<Longrightarrow> snd (complete_key i env s) = s\<lparr>ix_rows := map (completed_row i env) (ix_rows s)\<rparr>"
  by (simp add: complete_key_def completed_row_def Let_def)

lemma abandon_key_rows: "i \<noteq> [] \<Longrightarrow> snd (abandon_key i s) = s\<lparr>ix_rows := filter (\<lambda>r. ik_id r \<noteq> i) (ix_rows s)\<rparr>"
  by (simp add: abandon_key_def)

lemma complete_key_ok: "idem_ok rank s \<Longrightarrow> i \<noteq> [] \<Longrightarrow> idem_ok rank (snd (complete_key i env s))"
  by (simp add: complete_key_rows idem_ok_def comp_def)

lemma abandon_key_ok: "idem_ok rank s \<Longrightarrow> i \<noteq> [] \<Longrightarrow> idem_ok rank (snd (abandon_key i s))"
  by (auto simp: abandon_key_rows idem_ok_def distinct_map_filter)

lemma idem_ok_unique:
  assumes "idem_ok rank s" and "r \<in> set (ix_rows s)" and "r' \<in> set (ix_rows s)"
  shows "ik_id r = ik_id r' \<Longrightarrow> r = r'" and "row_key rank r = row_key rank r' \<Longrightarrow> r = r'"
  using assms by (auto simp: idem_ok_def distinct_map dest: inj_onD)

end
