(* ===== verification/DisclosureHttp.thy ===== *)
theory DisclosureHttp
  imports HttpRequests Idempotency DisclosureService
begin

section \<open>The HTTP handlers of disclosure\<close>

text \<open>
  Models \<^verbatim>\<open>internal/disclosure/transport/http/handler.go\<close>: every handler takes the subject from the
  access token and calls one operation of the service. Submit and confirm run under an idempotency key,
  the two handlers that change templates append to the audit log. The state is the service's, the
  idempotency store's and the audit log's; the last two may be absent. Parameters: the token
  inspector, SHA-256, the collation of the key table.
\<close>

subsection \<open>State and environment\<close>

record ('r, 's, 'a) disc_http =
  dh_svc :: "('r, 's) svc_state"
  dh_idem :: "disclosure_record idem_db option"
  dh_audit :: "'a audit_state option"

record ('r, 's, 'a) disc_http_env =
  dx_env :: "('r, 's) disc_env"
  dx_inspect :: "string \<Rightarrow> go_error + access_claims"
  dx_audit :: "'a audit_port"
  dx_rank :: "string \<Rightarrow> string"
  dx_sha :: "string \<Rightarrow> string"

datatype disc_body =
    BRecord disclosure_record
  | BRecords "disclosure_record list"
  | BGroups "type_group list"
  | BTypes "type_summary list"
  | BType type_dto
  | BVersions "type_version list"
  | BVersion version_reply
  | BReference reference_data
  | BConflict string

type_synonym ('r, 's, 'a, 'x) disc_handler = "(go_error, ('r, 's, 'a) disc_http, 'x) action"

definition on_disc :: "('r, 's, 'x) svc_action \<Rightarrow> ('r, 's, 'a, 'x) disc_handler" where
  "on_disc m s = (case m (dh_svc s) of (x, v) \<Rightarrow> (x, s\<lparr>dh_svc := v\<rparr>))"

definition subject_from_token :: "('r, 's, 'a) disc_http_env \<Rightarrow> http_request \<Rightarrow> ('r, 's, 'a, subject_ref) disc_handler" where
  "subject_from_token env req =
    seqE (liftE (\<lambda>_. dx_inspect env (bearer_token (hq_authorization req)))) (\<lambda>c. okE (claims_subject c))"

text \<open>The audit log is absent or its error is dropped.\<close>

definition disc_audit :: "('r, 's, 'a) disc_http_env \<Rightarrow> http_request \<Rightarrow> subject_ref \<Rightarrow> string \<Rightarrow> string \<Rightarrow> string \<Rightarrow> attrs \<Rightarrow>
    ('r, 's, 'a, unit) disc_handler" where
  "disc_audit env req sub action rtype rid meta s =
    (Inr (), s\<lparr>dh_audit := map_option (\<lambda>l. snd (append_audit_log (dx_audit env) (de_now (dx_env env))
       (audit_request req sub action rtype rid (Some meta)) l)) (dh_audit s)\<rparr>)"

subsection \<open>Records\<close>

definition create_record_handler :: "('r, 's, 'a) disc_http_env \<Rightarrow> http_request \<Rightarrow> go_error + record_payload \<Rightarrow>
    ('r, 's, 'a, int \<times> disc_body) disc_handler" where
  "create_record_handler env req body =
    seqE (subject_from_token env req) (\<lambda>sub. seqE (liftE (\<lambda>_. body)) (\<lambda>pl.
    seqE (on_disc (create_record (dx_env env) sub pl)) (\<lambda>r. okE (201, BRecord r))))"

definition update_record_handler :: "('r, 's, 'a) disc_http_env \<Rightarrow> http_request \<Rightarrow> string \<Rightarrow> go_error + record_payload \<Rightarrow>
    ('r, 's, 'a, int \<times> disc_body) disc_handler" where
  "update_record_handler env req rid body =
    seqE (subject_from_token env req) (\<lambda>sub. seqE (liftE (\<lambda>_. body)) (\<lambda>pl.
    seqE (on_disc (update_record (dx_env env) sub rid pl)) (\<lambda>r. okE (200, BRecord r))))"

definition list_records_handler :: "('r, 's, 'a) disc_http_env \<Rightarrow> http_request \<Rightarrow> ('r, 's, 'a, int \<times> disc_body) disc_handler" where
  "list_records_handler env req =
    seqE (subject_from_token env req) (\<lambda>sub. seqE (on_disc (list_records (dx_env env) sub)) (\<lambda>rs. okE (200, BRecords rs)))"

definition get_record_handler :: "('r, 's, 'a) disc_http_env \<Rightarrow> http_request \<Rightarrow> string \<Rightarrow> ('r, 's, 'a, int \<times> disc_body) disc_handler" where
  "get_record_handler env req rid =
    seqE (subject_from_token env req) (\<lambda>sub. seqE (on_disc (get_record (dx_env env) sub rid)) (\<lambda>r. okE (200, BRecord r)))"

subsection \<open>Submit and confirm under an idempotency key\<close>

definition request_hash :: "('r, 's, 'a) disc_http_env \<Rightarrow> subject_ref \<Rightarrow> string \<Rightarrow> string \<Rightarrow> string" where
  "request_hash env sub rid op = dx_sha env (sub_company sub @ ''|'' @ rid @ ''|'' @ sub_user sub @ ''|'' @ op)"

datatype keyed_op = Submit | Confirm

fun op_scope :: "keyed_op \<Rightarrow> string" where
  "op_scope Submit = ''disclosure.submit''"
| "op_scope Confirm = ''disclosure.confirm''"

fun op_name :: "keyed_op \<Rightarrow> string" where
  "op_name Submit = ''submit''"
| "op_name Confirm = ''confirm''"

fun run_keyed :: "('r, 's) disc_env \<Rightarrow> keyed_op \<Rightarrow> subject_ref \<Rightarrow> string \<Rightarrow> ('r, 's, disclosure_record) svc_action" where
  "run_keyed env Submit = submit_record env"
| "run_keyed env Confirm = confirm_record env"

definition reserve :: "('r, 's, 'a) disc_http_env \<Rightarrow> keyed_op \<Rightarrow> subject_ref \<Rightarrow> string \<Rightarrow> string \<Rightarrow>
    ('r, 's, 'a, disclosure_record idem_result) disc_handler" where
  "reserve env op sub rid key s =
    (case dh_idem s of None \<Rightarrow> (Inr no_result, s)
     | Some db \<Rightarrow> if key = [] then (Inr no_result, s)
         else case try_reserve (dx_rank env) (de_now (dx_env env)) \<lparr>ip_company = sub_company sub, ip_scope = op_scope op,
             ip_key = key, ip_hash = request_hash env sub rid (op_name op)\<rparr> db of
           (x, db') \<Rightarrow> (x, s\<lparr>dh_idem := Some db'\<rparr>))"

text \<open>After the operation: complete with its answer or abandon; errors of the store are dropped.\<close>

definition settle :: "string \<Rightarrow> go_error + disclosure_record \<Rightarrow> ('r, 's, 'a) disc_http \<Rightarrow> ('r, 's, 'a) disc_http" where
  "settle i x s = (if i = [] then s else s\<lparr>dh_idem := map_option (\<lambda>db. case x of
      Inl _ \<Rightarrow> snd (abandon_key i db) | Inr r \<Rightarrow> snd (complete_key i (200, r) db)) (dh_idem s)\<rparr>)"

definition early_reply :: "disclosure_record idem_result \<Rightarrow> (int \<times> disc_body) option" where
  "early_reply res =
    (if ir_replay res then Some (ir_status res, case ir_body res of Some r \<Rightarrow> BRecord r | None \<Rightarrow> BConflict [])
     else if ir_conflict res then Some (409, BConflict ''idempotency conflict or request in progress'')
     else None)"

text \<open>The part before the operation: the subject and the reservation.\<close>

definition begin_keyed :: "('r, 's, 'a) disc_http_env \<Rightarrow> keyed_op \<Rightarrow> http_request \<Rightarrow> string \<Rightarrow>
    ('r, 's, 'a, subject_ref \<times> disclosure_record idem_result) disc_handler" where
  "begin_keyed env op req rid =
    seqE (subject_from_token env req) (\<lambda>sub.
    seqE (reserve env op sub rid (trim_space (hq_idempotency req))) (\<lambda>res. okE (sub, res)))"

definition keyed_handler :: "('r, 's, 'a) disc_http_env \<Rightarrow> keyed_op \<Rightarrow> http_request \<Rightarrow> string \<Rightarrow>
    ('r, 's, 'a, int \<times> disc_body) disc_handler" where
  "keyed_handler env op req rid =
    seqE (begin_keyed env op req rid) (\<lambda>(sub, res).
    case early_reply res of
      Some rep \<Rightarrow> okE rep
    | None \<Rightarrow> (\<lambda>s. case on_disc (run_keyed (dx_env env) op sub rid) s of
        (Inl e, s1) \<Rightarrow> (Inl e, settle (ir_reservation res) (Inl e) s1)
      | (Inr r, s1) \<Rightarrow> (Inr (200, BRecord r), settle (ir_reservation res) (Inr r) s1)))"

subsection \<open>Templates\<close>

definition list_type_groups_handler :: "('r, 's, 'a) disc_http_env \<Rightarrow> http_request \<Rightarrow> ('r, 's, 'a, int \<times> disc_body) disc_handler" where
  "list_type_groups_handler env req =
    seqE (subject_from_token env req) (\<lambda>sub. seqE (on_disc (list_type_groups (dx_env env) sub)) (\<lambda>gs. okE (200, BGroups gs)))"

definition list_types_handler :: "('r, 's, 'a) disc_http_env \<Rightarrow> http_request \<Rightarrow> string \<Rightarrow> string \<Rightarrow> ('r, 's, 'a, int \<times> disc_body) disc_handler" where
  "list_types_handler env req gid q =
    seqE (subject_from_token env req) (\<lambda>sub.
    seqE (on_disc (list_types (dx_env env) sub (trim_space gid) (trim_space q))) (\<lambda>ts. okE (200, BTypes ts)))"

definition get_type_detail_handler :: "('r, 's, 'a) disc_http_env \<Rightarrow> http_request \<Rightarrow> string \<Rightarrow> ('r, 's, 'a, int \<times> disc_body) disc_handler" where
  "get_type_detail_handler env req tid =
    seqE (subject_from_token env req) (\<lambda>sub.
    seqE (on_disc (get_type_detail (dx_env env) sub (trim_space tid))) (\<lambda>d. okE (200, BType d)))"

definition reference_data_handler :: "('r, 's, 'a) disc_http_env \<Rightarrow> http_request \<Rightarrow> ('r, 's, 'a, int \<times> disc_body) disc_handler" where
  "reference_data_handler env req =
    seqE (subject_from_token env req) (\<lambda>sub. seqE (on_disc (get_template_reference_data (dx_env env) sub)) (\<lambda>d. okE (200, BReference d)))"

text \<open>The version the catalog serves before a change, 0 when it cannot be read.\<close>

definition previous_version :: "('r, 's, 'a) disc_http_env \<Rightarrow> subject_ref \<Rightarrow> string \<Rightarrow> ('r, 's, 'a, int) disc_handler" where
  "previous_version env sub tid s =
    (case on_disc (get_type_detail (dx_env env) sub tid) s of (Inl _, s1) \<Rightarrow> (Inr 0, s1) | (Inr d, s1) \<Rightarrow> (Inr (td_version d), s1))"

definition upsert_version_handler :: "('r, 's, 'a) disc_http_env \<Rightarrow> http_request \<Rightarrow> string \<Rightarrow> go_error + upsert_request \<Rightarrow>
    ('r, 's, 'a, int \<times> disc_body) disc_handler" where
  "upsert_version_handler env req tid body =
    seqE (subject_from_token env req) (\<lambda>sub. seqE (liftE (\<lambda>_. body)) (\<lambda>p.
    let p1 = p\<lparr>up_subject := sub, ty_id := trim_space tid\<rparr> in
    seqE (previous_version env sub (ty_id p1)) (\<lambda>old.
    seqE (on_disc (upsert_type_version (dx_env env) p1)) (\<lambda>v.
    seqE (disc_audit env req sub ''disclosure.type.version.upsert'' ''disclosure_type'' (ty_id p1)
      [(''old_version_no'', AInt old), (''new_version_no'', AInt (vp_version v)), (''change_note'', AStr (trim_space (up_note p1)))]) (\<lambda>_.
    okE (200, BVersion v))))))"

definition list_versions_handler :: "('r, 's, 'a) disc_http_env \<Rightarrow> http_request \<Rightarrow> string \<Rightarrow> ('r, 's, 'a, int \<times> disc_body) disc_handler" where
  "list_versions_handler env req tid =
    seqE (subject_from_token env req) (\<lambda>sub.
    seqE (on_disc (list_type_versions (dx_env env) sub (trim_space tid))) (\<lambda>vs. okE (200, BVersions vs)))"

definition get_version_handler :: "('r, 's, 'a) disc_http_env \<Rightarrow> http_request \<Rightarrow> string \<Rightarrow> string \<Rightarrow> ('r, 's, 'a, int \<times> disc_body) disc_handler" where
  "get_version_handler env req tid no =
    seqE (subject_from_token env req) (\<lambda>sub.
    seqE (liftE (\<lambda>_. case atoi (trim_space no) of None \<Rightarrow> Inl (bad_request ''version_no must be integer'') | Some n \<Rightarrow> Inr n)) (\<lambda>n.
    seqE (on_disc (get_type_version_detail (dx_env env) sub (trim_space tid) n)) (\<lambda>d. okE (200, BType d))))"

definition activate_version_handler :: "('r, 's, 'a) disc_http_env \<Rightarrow> http_request \<Rightarrow> string \<Rightarrow> go_error + int \<times> string \<Rightarrow>
    ('r, 's, 'a, int \<times> disc_body) disc_handler" where
  "activate_version_handler env req tid0 body =
    seqE (subject_from_token env req) (\<lambda>sub. seqE (liftE (\<lambda>_. body)) (\<lambda>(n, reason).
    let tid = trim_space tid0 in
    seqE (previous_version env sub tid) (\<lambda>old.
    seqE (on_disc (activate_type_version (dx_env env) \<lparr>ac_subject = sub, ac_type = tid, ac_version = n, ac_reason = trim_space reason\<rparr>)) (\<lambda>v.
    seqE (disc_audit env req sub ''disclosure.type.version.activate'' ''disclosure_type'' tid
      [(''old_version_no'', AInt old), (''new_version_no'', AInt (vp_version v)), (''reason'', AStr (trim_space reason))]) (\<lambda>_.
    okE (200, BVersion v))))))"

end
