(* ===== verification/IdempotentRuns.thy ===== *)
theory IdempotentRuns
  imports DisclosureHttp
begin

section \<open>Requests under an idempotency key, interleaved\<close>

text \<open>
  The server runs its handlers concurrently. A keyed request goes through three atomic parts: the
  reservation in the store, the operation of the service, and the settling of the reservation. The step
  relation interleaves the parts of any number of requests with each other and with anything else that
  changes the service, at any time of the clock. The invariant ties the rows of the store to the requests
  under way and to the operations that have succeeded.
\<close>

subsection \<open>The steps\<close>

datatype phase =
    Reserved keyed_op subject_ref string string string
  | Ran keyed_op subject_ref string string string "go_error + disclosure_record"
  | Answered "disc_body reply"

text \<open>A success: the operation, its key and hash, and the record it answered.\<close>

record done_op =
  do_op :: keyed_op
  do_key :: string
  do_hash :: string
  do_record :: disclosure_record

record ('r, 's, 'a) conf =
  cf_state :: "('r, 's, 'a) disc_http"
  cf_phase :: "nat \<Rightarrow> phase option"
  cf_done :: "done_op list"

definition at_time :: "int \<Rightarrow> ('r, 's, 'a) disc_http_env \<Rightarrow> ('r, 's, 'a) disc_http_env" where
  "at_time now env = env\<lparr>dx_env := (dx_env env)\<lparr>de_now := now\<rparr>\<rparr>"

definition arrived :: "keyed_op \<Rightarrow> string \<Rightarrow> string \<Rightarrow> go_error + subject_ref \<times> disclosure_record idem_result \<Rightarrow> phase" where
  "arrived op rid key out = (case out of
      Inl e \<Rightarrow> Answered (Inl (write_error e))
    | Inr (sub, res) \<Rightarrow> (case early_reply res of Some rep \<Rightarrow> Answered (Inr rep) | None \<Rightarrow> Reserved op sub rid key (ir_reservation res)))"

definition answer :: "go_error + disclosure_record \<Rightarrow> disc_body reply" where
  "answer x = (case x of Inl e \<Rightarrow> Inl (write_error e) | Inr r \<Rightarrow> Inr (200, BRecord r))"

definition recorded :: "('r, 's, 'a) disc_http_env \<Rightarrow> keyed_op \<Rightarrow> subject_ref \<Rightarrow> string \<Rightarrow> string \<Rightarrow> go_error + disclosure_record \<Rightarrow> done_op list" where
  "recorded env op sub rid key x = (case x of Inl _ \<Rightarrow> [] | Inr r \<Rightarrow> if key = [] then [] else
     [\<lparr>do_op = op, do_key = key, do_hash = request_hash env sub rid (op_name op), do_record = r\<rparr>])"

inductive conc_step :: "('r, 's, 'a) disc_http_env \<Rightarrow> ('r, 's, 'a) conf \<Rightarrow> ('r, 's, 'a) conf \<Rightarrow> bool" for env where
  arrive: "cf_phase c p = None \<Longrightarrow> begin_keyed (at_time now env) op req rid (cf_state c) = (out, s') \<Longrightarrow>
    conc_step env c (c\<lparr>cf_state := s', cf_phase := (cf_phase c)(p \<mapsto> arrived op rid (trim_space (hq_idempotency req)) out)\<rparr>)"
| run: "cf_phase c p = Some (Reserved op sub rid key i) \<Longrightarrow>
    on_disc (run_keyed (dx_env (at_time now env)) op sub rid) (cf_state c) = (x, s') \<Longrightarrow>
    conc_step env c (c\<lparr>cf_state := s', cf_phase := (cf_phase c)(p \<mapsto> Ran op sub rid key i x),
      cf_done := recorded env op sub rid key x @ cf_done c\<rparr>)"
| settle: "cf_phase c p = Some (Ran op sub rid key i x) \<Longrightarrow>
    conc_step env c (c\<lparr>cf_state := settle i x (cf_state c), cf_phase := (cf_phase c)(p \<mapsto> Answered (answer x))\<rparr>)"
| other: "conc_step env c (c\<lparr>cf_state := (cf_state c)\<lparr>dh_svc := v\<rparr>\<rparr>)"

inductive_cases conc_stepE: "conc_step env c c'"

inductive conc_run :: "('r, 's, 'a) disc_http_env \<Rightarrow> ('r, 's, 'a) conf \<Rightarrow> ('r, 's, 'a) conf \<Rightarrow> bool" for env c where
  refl: "conc_run env c c"
| step: "conc_run env c c' \<Longrightarrow> conc_step env c' c'' \<Longrightarrow> conc_run env c c''"

subsection \<open>The invariant\<close>

text \<open>What a request under way holds: the row, its key and hash, and the record if the operation succeeded.\<close>

definition op_key :: "(string \<Rightarrow> string) \<Rightarrow> keyed_op \<Rightarrow> string \<Rightarrow> string \<times> string" where
  "op_key rank op key = (rank (op_scope op), rank (stored_key key))"

definition done_key :: "(string \<Rightarrow> string) \<Rightarrow> done_op \<Rightarrow> string \<times> string" where
  "done_key rank d = op_key rank (do_op d) (do_key d)"

fun holds :: "('r, 's, 'a) disc_http_env \<Rightarrow> phase option \<Rightarrow> (string \<times> (string \<times> string) \<times> string \<times> disclosure_record option) option" where
  "holds env (Some (Reserved op sub rid key i)) =
    (if i = [] then None else Some (i, op_key (dx_rank env) op key, request_hash env sub rid (op_name op), None))"
| "holds env (Some (Ran op sub rid key i x)) =
    (if i = [] then None else Some (i, op_key (dx_rank env) op key, request_hash env sub rid (op_name op),
       case x of Inl _ \<Rightarrow> None | Inr r \<Rightarrow> Some r))"
| "holds env (Some (Answered rep)) = None"
| "holds env None = None"

fun keyed_right :: "phase option \<Rightarrow> bool" where
  "keyed_right (Some (Reserved op sub rid key i)) = ((i = []) = (key = []))"
| "keyed_right (Some (Ran op sub rid key i x)) = ((i = []) = (key = []))"
| "keyed_right _ = True"

definition rows_hold :: "('r, 's, 'a) disc_http_env \<Rightarrow> disclosure_record idem_row list \<Rightarrow> (nat \<Rightarrow> phase option) \<Rightarrow> bool" where
  "rows_hold env rows ph \<longleftrightarrow> (\<forall>p i k h out. holds env (ph p) = Some (i, k, h, out) \<longrightarrow> (\<exists>r \<in> set rows. taken i (null_if_empty h) k r (dx_rank env)))"

definition held :: "('r, 's, 'a) disc_http_env \<Rightarrow> phase option \<Rightarrow> string option" where
  "held env x = map_option fst (holds env x)"

definition holders_differ :: "('r, 's, 'a) disc_http_env \<Rightarrow> (nat \<Rightarrow> phase option) \<Rightarrow> bool" where
  "holders_differ env ph \<longleftrightarrow> (\<forall>p q i. held env (ph p) = Some i \<longrightarrow> held env (ph q) = Some i \<longrightarrow> p = q)"

definition kept :: "done_op \<Rightarrow> disclosure_record idem_row \<Rightarrow> bool" where
  "kept d r \<longleftrightarrow> ik_status r = ''completed'' \<and> ik_response r = Some (200, do_record d)"

definition done_rows :: "('r, 's, 'a) disc_http_env \<Rightarrow> disclosure_record idem_row list \<Rightarrow> (nat \<Rightarrow> phase option) \<Rightarrow> done_op list \<Rightarrow> bool" where
  "done_rows env rows ph ds \<longleftrightarrow> (\<forall>d \<in> set ds. \<exists>r \<in> set rows. row_key (dx_rank env) r = done_key (dx_rank env) d \<and>
     ik_hash r = null_if_empty (do_hash d) \<and>
     (kept d r \<or> (\<exists>p. holds env (ph p) = Some (ik_id r, done_key (dx_rank env) d, do_hash d, Some (do_record d)))))"

definition conf_ok :: "('r, 's, 'a) disc_http_env \<Rightarrow> ('r, 's, 'a) conf \<Rightarrow> bool" where
  "conf_ok env c \<longleftrightarrow> (\<exists>db. dh_idem (cf_state c) = Some db \<and> idem_ok (dx_rank env) db \<and>
     (\<forall>p. keyed_right (cf_phase c p)) \<and> rows_hold env (ix_rows db) (cf_phase c) \<and> holders_differ env (cf_phase c) \<and>
     done_rows env (ix_rows db) (cf_phase c) (cf_done c) \<and> distinct (map (done_key (dx_rank env)) (cf_done c)))"

subsection \<open>Frames\<close>

lemma at_time_simps [simp]: "dx_rank (at_time now env) = dx_rank env" "dx_sha (at_time now env) = dx_sha env"
  "dx_inspect (at_time now env) = dx_inspect env" "request_hash (at_time now env) = request_hash env"
  by (simp_all add: at_time_def request_hash_def fun_eq_iff)

lemma on_disc_idem: "on_disc m s = (x, s') \<Longrightarrow> dh_idem s' = dh_idem s"
  by (auto simp: on_disc_def split: prod.splits)

lemma holds_idle: "holds env (Some (Answered rep)) = None"
  by simp

text \<open>A phase that holds nothing changes nothing for the rows.\<close>

lemma rows_holdD: "rows_hold env rows ph \<Longrightarrow> holds env (ph p) = Some (i, k, h, out) \<Longrightarrow> \<exists>r \<in> set rows. taken i (null_if_empty h) k r (dx_rank env)"
  unfolding rows_hold_def by blast

lemma rows_hold_held: "rows_hold env rows ph \<Longrightarrow> held env (ph p) = Some i \<Longrightarrow> \<exists>r \<in> set rows. ik_id r = i"
  using rows_holdD [of env rows ph p] by (fastforce simp: held_def taken_def)

lemma rows_hold_upd: "rows_hold env rows ph \<Longrightarrow> (\<And>i k h out. holds env new = Some (i, k, h, out) \<Longrightarrow> \<exists>r \<in> set rows. taken i (null_if_empty h) k r (dx_rank env)) \<Longrightarrow>
    rows_hold env rows (ph(p := new))"
  by (auto simp: rows_hold_def)

lemma holders_differ_upd:
  assumes "holders_differ env ph" and "\<And>q i. held env new = Some i \<Longrightarrow> held env (ph q) = Some i \<Longrightarrow> q = p"
  shows "holders_differ env (ph(p := new))"
  unfolding holders_differ_def
proof (intro allI impI)
  fix a b i assume "held env ((ph(p := new)) a) = Some i" "held env ((ph(p := new)) b) = Some i"
  then show "a = b" using assms unfolding holders_differ_def by (cases "a = p"; cases "b = p") simp_all
qed

lemma done_rows_upd:
  assumes "done_rows env rows ph ds" and "set rows \<subseteq> set rows'"
    and "\<And>i k h r. holds env (ph p) = Some (i, k, h, Some r) \<Longrightarrow> holds env new = Some (i, k, h, Some r)"
  shows "done_rows env rows' (ph(p := new)) ds"
  unfolding done_rows_def
proof
  fix d assume "d \<in> set ds"
  with assms(1) obtain r where r: "r \<in> set rows" "row_key (dx_rank env) r = done_key (dx_rank env) d" "ik_hash r = null_if_empty (do_hash d)"
    "kept d r \<or> (\<exists>p. holds env (ph p) = Some (ik_id r, done_key (dx_rank env) d, do_hash d, Some (do_record d)))"
    unfolding done_rows_def by blast
  have "\<exists>q. holds env ((ph(p := new)) q) = Some (ik_id r, done_key (dx_rank env) d, do_hash d, Some (do_record d))"
    if "holds env (ph q) = Some (ik_id r, done_key (dx_rank env) d, do_hash d, Some (do_record d))" for q
    by (cases "q = p") (use that assms(3) [of "ik_id r" "done_key (dx_rank env) d"] in \<open>auto intro: exI [of _ q]\<close>)
  with r assms(2) show "\<exists>r \<in> set rows'. row_key (dx_rank env) r = done_key (dx_rank env) d \<and> ik_hash r = null_if_empty (do_hash d) \<and>
     (kept d r \<or> (\<exists>p'. holds env ((ph(p := new)) p') = Some (ik_id r, done_key (dx_rank env) d, do_hash d, Some (do_record d))))"
    by blast
qed

subsection \<open>The reservation\<close>

lemma scope_plain: "trim_space (op_scope op) = op_scope op" "op_scope op \<noteq> []"
proof -
  have "trim_space ''disclosure.submit'' = ''disclosure.submit''" "trim_space ''disclosure.confirm'' = ''disclosure.confirm''" by code_simp+
  then show "trim_space (op_scope op) = op_scope op" by (cases op) simp_all
qed (cases op; simp)

lemma begin_cases:
  assumes "dh_idem s = Some db" and "idem_ok (dx_rank env) db" and "begin_keyed (at_time now env) op req rid s = (out, s')"
  obtains db' where "dh_idem s' = Some db'" and "ix_rows db' = ix_rows db" and "idem_ok (dx_rank env) db'" and "dh_svc s' = dh_svc s"
      and "\<exists>rep. arrived op rid (trim_space (hq_idempotency req)) out = Answered rep"
  | sub where "s' = s" and "out = Inr (sub, no_result)" and "trim_space (hq_idempotency req) = []"
  | db' sub r where "dh_idem s' = Some db'" and "ix_rows db' = ix_rows db @ [r]" and "idem_ok (dx_rank env) db'" and "dh_svc s' = dh_svc s"
      and "out = Inr (sub, no_result\<lparr>ir_reservation := ik_id r\<rparr>)" and "ik_id r \<noteq> []" and "trim_space (hq_idempotency req) \<noteq> []"
      and "taken (ik_id r) (null_if_empty (request_hash env sub rid (op_name op))) (op_key (dx_rank env) op (trim_space (hq_idempotency req))) r (dx_rank env)"
      and "ik_id r \<notin> ik_id ` set (ix_rows db)" and "row_key (dx_rank env) r \<notin> row_key (dx_rank env) ` set (ix_rows db)"
proof (cases "dx_inspect env (bearer_token (hq_authorization req))")
  case (Inl e)
  with assms(3) have "out = Inl e" "s' = s" by (simp_all add: begin_keyed_def subject_from_token_def seqE_def)
  with assms(1,2) show thesis by (intro that(1)) (auto simp: arrived_def)
next
  case (Inr c)
  let ?sub = "claims_subject c" and ?key = "trim_space (hq_idempotency req)"
  let ?p = "\<lparr>ip_company = sub_company ?sub, ip_scope = op_scope op, ip_key = ?key, ip_hash = request_hash env ?sub rid (op_name op)\<rparr>"
  have run: "begin_keyed (at_time now env) op req rid s = (case reserve (at_time now env) op ?sub rid ?key s of (Inl e, s1) \<Rightarrow> (Inl e, s1) | (Inr res, s1) \<Rightarrow> (Inr (?sub, res), s1))"
    using Inr by (simp add: begin_keyed_def subject_from_token_def seqE_def split: prod.splits sum.splits)
  show thesis
  proof (cases "?key = []")
    case True
    then have "reserve (at_time now env) op ?sub rid ?key s = (Inr no_result, s)" using assms(1) by (simp add: reserve_def)
    with run assms(3) True show thesis by (intro that(2)) auto
  next
    case False
    obtain x db' where t: "try_reserve (dx_rank env) (de_now (dx_env (at_time now env))) ?p db = (x, db')" by fastforce
    with False assms(1) have res: "reserve (at_time now env) op ?sub rid ?key s = (x, s\<lparr>dh_idem := Some db'\<rparr>)" by (simp add: reserve_def)
    have p: "trim_space (ip_scope ?p) = ip_scope ?p" "trim_space (ip_key ?p) = ip_key ?p" "ip_key ?p \<noteq> []" "ip_scope ?p \<noteq> []"
      using scope_plain False by simp_all
    from assms(2) p t show thesis
    proof (cases rule: try_reserve_cases)
      case (1 e)
      with run res assms(3) have "out = Inl e" "s' = s\<lparr>dh_idem := Some db'\<rparr>" by simp_all
      with 1 show thesis by (intro that(1) [of db']) (simp_all add: arrived_def)
    next
      case (2 res' r)
      with run res assms(3) have "out = Inr (?sub, res')" "s' = s\<lparr>dh_idem := Some db'\<rparr>" by simp_all
      moreover have "early_reply res' \<noteq> None" using 2(6) by (auto simp: early_reply_def no_result_def)
      ultimately show thesis using 2 by (intro that(1) [of db']) (auto simp: arrived_def)
    next
      case (3 r)
      with run res assms(3) have "out = Inr (?sub, no_result\<lparr>ir_reservation := ik_id r\<rparr>)" "s' = s\<lparr>dh_idem := Some db'\<rparr>" by simp_all
      with 3 False show thesis by (intro that(3) [of db' r ?sub]) (simp_all add: op_key_def)
    qed
  qed
qed

subsection \<open>The steps keep the invariant\<close>

lemma conf_ok_arrive:
  assumes "conf_ok env c" and "cf_phase c p = None" and "begin_keyed (at_time now env) op req rid (cf_state c) = (out, s')"
  shows "conf_ok env (c\<lparr>cf_state := s', cf_phase := (cf_phase c)(p \<mapsto> arrived op rid (trim_space (hq_idempotency req)) out)\<rparr>)"
proof -
  let ?key = "trim_space (hq_idempotency req)"
  let ?new = "arrived op rid ?key out"
  from assms(1) obtain db where db: "dh_idem (cf_state c) = Some db" "idem_ok (dx_rank env) db" "\<forall>p. keyed_right (cf_phase c p)"
    "rows_hold env (ix_rows db) (cf_phase c)" "holders_differ env (cf_phase c)" "done_rows env (ix_rows db) (cf_phase c) (cf_done c)"
    "distinct (map (done_key (dx_rank env)) (cf_done c))" by (auto simp: conf_ok_def)
  have old: "holds env (cf_phase c p) = None" using assms(2) by simp
  have idle: "conf_ok env (c\<lparr>cf_state := s', cf_phase := (cf_phase c)(p \<mapsto> ?new)\<rparr>)"
    if "dh_idem s' = Some db'" "ix_rows db' = ix_rows db" "idem_ok (dx_rank env) db'" "holds env (Some ?new) = None" "keyed_right (Some ?new)" for db'
    using that db old unfolding conf_ok_def
    by (intro exI [of _ db']) (auto intro!: rows_hold_upd holders_differ_upd done_rows_upd simp: held_def)
  from db(1) db(2) assms(3) show ?thesis
  proof (cases rule: begin_cases)
    case (1 db')
    then show ?thesis by (intro idle) auto
  next
    case (2 sub)
    then show ?thesis using db by (intro idle) (auto simp: arrived_def early_reply_def no_result_def)
  next
    case (3 db' sub r)
    have new: "?new = Reserved op sub rid ?key (ik_id r)" using 3(5) by (simp add: arrived_def early_reply_def no_result_def)
    have h: "holds env (Some ?new) = Some (ik_id r, op_key (dx_rank env) op ?key, request_hash env sub rid (op_name op), None)"
      using 3(6) by (simp add: new)
    have "rows_hold env (ix_rows db') (cf_phase c)" using db(4) unfolding rows_hold_def 3(2) by fastforce
    then have "rows_hold env (ix_rows db') ((cf_phase c)(p \<mapsto> ?new))" using h 3(2,8) by (intro rows_hold_upd) auto
    moreover have "held env (cf_phase c q) \<noteq> Some (ik_id r)" for q
    proof
      assume "held env (cf_phase c q) = Some (ik_id r)"
      from rows_hold_held [OF db(4) this] obtain w where "w \<in> set (ix_rows db)" "ik_id w = ik_id r" by blast
      with 3(9) show False by (metis imageI)
    qed
    then have "holders_differ env ((cf_phase c)(p \<mapsto> ?new))" using h by (intro holders_differ_upd [OF db(5)]) (simp add: held_def)
    moreover have "done_rows env (ix_rows db') ((cf_phase c)(p \<mapsto> ?new)) (cf_done c)" using old 3(2) by (intro done_rows_upd [OF db(6)]) auto
    moreover have "keyed_right (Some ?new)" using 3(6,7) unfolding new by simp
    ultimately show ?thesis using 3(1,3) db(3,7) unfolding conf_ok_def by (intro exI [of _ db']) simp
  qed
qed

lemma conf_okE:
  assumes "conf_ok env c"
  obtains db where "dh_idem (cf_state c) = Some db" and "idem_ok (dx_rank env) db" and "\<forall>p. keyed_right (cf_phase c p)"
    and "rows_hold env (ix_rows db) (cf_phase c)" and "holders_differ env (cf_phase c)" and "done_rows env (ix_rows db) (cf_phase c) (cf_done c)"
    and "distinct (map (done_key (dx_rank env)) (cf_done c))"
  using assms by (auto simp: conf_ok_def)

lemma holders_differD: "holders_differ env ph \<Longrightarrow> held env (ph p) = Some i \<Longrightarrow> held env (ph q) = Some i \<Longrightarrow> p = q"
  unfolding holders_differ_def by blast

lemma conf_ok_run:
  assumes ok: "conf_ok env c" and ph: "cf_phase c p = Some (Reserved op sub rid key i)"
    and run: "on_disc (run_keyed (dx_env (at_time now env)) op sub rid) (cf_state c) = (x, s')"
  shows "conf_ok env (c\<lparr>cf_state := s', cf_phase := (cf_phase c)(p \<mapsto> Ran op sub rid key i x), cf_done := recorded env op sub rid key x @ cf_done c\<rparr>)"
proof -
  let ?new = "Ran op sub rid key i x" and ?k = "op_key (dx_rank env) op key" and ?h = "request_hash env sub rid (op_name op)"
  from ok obtain db where db: "dh_idem (cf_state c) = Some db" "idem_ok (dx_rank env) db" "\<forall>p. keyed_right (cf_phase c p)"
    "rows_hold env (ix_rows db) (cf_phase c)" "holders_differ env (cf_phase c)" "done_rows env (ix_rows db) (cf_phase c) (cf_done c)"
    "distinct (map (done_key (dx_rank env)) (cf_done c))" by (rule conf_okE)
  have s': "dh_idem s' = Some db" using on_disc_idem [OF run] db(1) by simp
  have ik: "(i = []) = (key = [])" using db(3) [rule_format, of p] ph by simp
  have hn: "held env (Some ?new) = held env (cf_phase c p)" by (simp add: held_def ph)
  have right: "\<forall>q. keyed_right (((cf_phase c)(p \<mapsto> ?new)) q)" using db(3) ik by simp
  have rows: "rows_hold env (ix_rows db) ((cf_phase c)(p \<mapsto> ?new))"
    by (rule rows_hold_upd [OF db(4)]) (use rows_holdD [OF db(4), of p] in \<open>auto simp: ph split: if_splits\<close>)
  have differ: "holders_differ env ((cf_phase c)(p \<mapsto> ?new))"
    by (rule holders_differ_upd [OF db(5)]) (use holders_differD [OF db(5)] in \<open>auto simp: hn\<close>)
  have old: "done_rows env (ix_rows db) ((cf_phase c)(p \<mapsto> ?new)) (cf_done c)"
    by (rule done_rows_upd [OF db(6)]) (auto simp: ph split: if_splits)
  show ?thesis
  proof (cases "recorded env op sub rid key x")
    case Nil
    then show ?thesis using s' db right rows differ old unfolding conf_ok_def by (intro exI [of _ db]) simp
  next
    case (Cons d ds)
    then obtain rec where x: "x = Inr rec" "key \<noteq> []" and d: "ds = []" "d = \<lparr>do_op = op, do_key = key, do_hash = ?h, do_record = rec\<rparr>"
      by (auto simp: recorded_def split: sum.splits if_splits)
    with ik have i: "i \<noteq> []" by simp
    have hold: "holds env (cf_phase c p) = Some (i, ?k, ?h, None)" "holds env (Some ?new) = Some (i, ?k, ?h, Some rec)" using i x by (simp_all add: ph)
    obtain r where r: "r \<in> set (ix_rows db)" "taken i (null_if_empty ?h) ?k r (dx_rank env)" using rows_holdD [OF db(4) hold(1)] by blast
    have dk: "done_key (dx_rank env) d = ?k" by (simp add: d done_key_def)
    have "?k \<noteq> done_key (dx_rank env) e" if e: "e \<in> set (cf_done c)" for e
    proof
      assume k: "?k = done_key (dx_rank env) e"
      from db(6) e obtain r' where r': "r' \<in> set (ix_rows db)" "row_key (dx_rank env) r' = done_key (dx_rank env) e"
        "kept e r' \<or> (\<exists>q. holds env (cf_phase c q) = Some (ik_id r', done_key (dx_rank env) e, do_hash e, Some (do_record e)))"
        unfolding done_rows_def by blast
      have "r' = r" using idem_ok_unique(2) [OF db(2) r'(1) r(1)] r(2) r'(2) k by (simp add: taken_def)
      with r r'(3) obtain q where q: "holds env (cf_phase c q) = Some (i, done_key (dx_rank env) e, do_hash e, Some (do_record e))"
        by (auto simp: kept_def taken_def)
      then have "q = p" using hold(1) by (intro holders_differD [OF db(5)]) (simp_all add: held_def)
      with q hold(1) show False by simp
    qed
    then have "distinct (map (done_key (dx_rank env)) (d # cf_done c))" using db(7) dk by auto
    moreover have "done_rows env (ix_rows db) ((cf_phase c)(p \<mapsto> ?new)) (d # cf_done c)"
    proof -
      have "holds env (((cf_phase c)(p \<mapsto> ?new)) p) = Some (ik_id r, done_key (dx_rank env) d, do_hash d, Some (do_record d))"
        using hold(2) r(2) dk by (simp add: d taken_def)
      moreover have "row_key (dx_rank env) r = done_key (dx_rank env) d" "ik_hash r = null_if_empty (do_hash d)" using r(2) dk by (simp_all add: taken_def d)
      ultimately show ?thesis using old r(1) unfolding done_rows_def set_simps(2) by blast
    qed
    ultimately show ?thesis using s' db right rows differ Cons d(1) unfolding conf_ok_def by (intro exI [of _ db]) simp
  qed
qed

text \<open>Settling: the row of the request is completed or goes, the rows of the others stay.\<close>

definition settled_rows :: "string \<Rightarrow> go_error + 'b \<Rightarrow> 'b idem_row list \<Rightarrow> 'b idem_row list" where
  "settled_rows i x rows = (case x of Inl _ \<Rightarrow> filter (\<lambda>r. ik_id r \<noteq> i) rows | Inr r \<Rightarrow> map (completed_row i (200, r)) rows)"

lemma settle_idem:
  assumes "dh_idem s = Some db" and "idem_ok rank db" and "i \<noteq> []"
  shows "\<exists>db'. dh_idem (settle i x s) = Some db' \<and> idem_ok rank db' \<and> ix_rows db' = settled_rows i x (ix_rows db)"
  using assms complete_key_ok [OF assms(2,3)] abandon_key_ok [OF assms(2,3)]
  by (cases x) (simp_all add: settle_def settled_rows_def complete_key_rows abandon_key_rows)

lemma settled_other: "r \<in> set rows \<Longrightarrow> ik_id r \<noteq> i \<Longrightarrow> r \<in> set (settled_rows i x rows)"
  by (cases x) (force simp: settled_rows_def completed_row_def image_iff)+

lemma settled_completed: "r \<in> set rows \<Longrightarrow> ik_status r = ''completed'' \<Longrightarrow> r \<in> set (settled_rows i (Inr y) rows)"
  by (force simp: settled_rows_def completed_row_def image_iff)

lemma conf_ok_settle:
  assumes ok: "conf_ok env c" and ph: "cf_phase c p = Some (Ran op sub rid key i x)"
  shows "conf_ok env (c\<lparr>cf_state := settle i x (cf_state c), cf_phase := (cf_phase c)(p \<mapsto> Answered (answer x))\<rparr>)"
proof -
  let ?ph = "(cf_phase c)(p \<mapsto> Answered (answer x))" and ?k = "op_key (dx_rank env) op key" and ?h = "request_hash env sub rid (op_name op)"
  from ok obtain db where db: "dh_idem (cf_state c) = Some db" "idem_ok (dx_rank env) db" "\<forall>p. keyed_right (cf_phase c p)"
    "rows_hold env (ix_rows db) (cf_phase c)" "holders_differ env (cf_phase c)" "done_rows env (ix_rows db) (cf_phase c) (cf_done c)"
    "distinct (map (done_key (dx_rank env)) (cf_done c))" by (rule conf_okE)
  have right: "\<forall>q. keyed_right (?ph q)" using db(3) by simp
  have differ: "holders_differ env ?ph" by (rule holders_differ_upd [OF db(5)]) (simp add: held_def)
  show ?thesis
  proof (cases "i = []")
    case True
    then have "done_rows env (ix_rows db) ?ph (cf_done c)" by (intro done_rows_upd [OF db(6)]) (simp_all add: ph)
    moreover have "rows_hold env (ix_rows db) ?ph" by (rule rows_hold_upd [OF db(4)]) simp
    ultimately show ?thesis using True db right differ unfolding conf_ok_def by (intro exI [of _ db]) (simp add: settle_def)
  next
    case False
    obtain db' where db': "dh_idem (settle i x (cf_state c)) = Some db'" "idem_ok (dx_rank env) db'" "ix_rows db' = settled_rows i x (ix_rows db)"
      using settle_idem [OF db(1,2) False] by blast
    have hp: "holds env (cf_phase c p) = Some (i, ?k, ?h, case x of Inl _ \<Rightarrow> None | Inr r \<Rightarrow> Some r)" using False by (simp add: ph)
    have others: "j \<noteq> i" if "holds env (cf_phase c q) = Some (j, k, h, out)" "q \<noteq> p" for q j k h out
      using that hp holders_differD [OF db(5), of q j p] by (auto simp: held_def)
    obtain r where r: "r \<in> set (ix_rows db)" "taken i (null_if_empty ?h) ?k r (dx_rank env)" using rows_holdD [OF db(4) hp] by blast
    have "rows_hold env (ix_rows db') ?ph"
      unfolding rows_hold_def
    proof (intro allI impI)
      fix q j k h out assume q: "holds env (?ph q) = Some (j, k, h, out)"
      then have "q \<noteq> p" by auto
      with q have hq: "holds env (cf_phase c q) = Some (j, k, h, out)" by simp
      obtain w where "w \<in> set (ix_rows db)" "taken j (null_if_empty h) k w (dx_rank env)" using rows_holdD [OF db(4) hq] by blast
      moreover have "j \<noteq> i" by (rule others [OF hq \<open>q \<noteq> p\<close>])
      ultimately show "\<exists>w \<in> set (ix_rows db'). taken j (null_if_empty h) k w (dx_rank env)"
        using settled_other [of w "ix_rows db" i x] unfolding db'(3) by (auto simp: taken_def)
    qed
    moreover have "done_rows env (ix_rows db') ?ph (cf_done c)"
      unfolding done_rows_def
    proof
      fix d assume "d \<in> set (cf_done c)"
      with db(6) obtain w where w: "w \<in> set (ix_rows db)" "row_key (dx_rank env) w = done_key (dx_rank env) d" "ik_hash w = null_if_empty (do_hash d)"
        "kept d w \<or> (\<exists>q. holds env (cf_phase c q) = Some (ik_id w, done_key (dx_rank env) d, do_hash d, Some (do_record d)))"
        unfolding done_rows_def by blast
      let ?goal = "\<exists>w \<in> set (ix_rows db'). row_key (dx_rank env) w = done_key (dx_rank env) d \<and> ik_hash w = null_if_empty (do_hash d) \<and>
        (kept d w \<or> (\<exists>q. holds env (?ph q) = Some (ik_id w, done_key (dx_rank env) d, do_hash d, Some (do_record d))))"
      from w(4) show ?goal
      proof
        assume k: "kept d w"
        then have "ik_id w \<noteq> i" using idem_ok_unique(1) [OF db(2) w(1) r(1)] r(2) by (auto simp: kept_def taken_def)
        with w(1) have "w \<in> set (ix_rows db')" unfolding db'(3) by (rule settled_other)
        with w k show ?goal by blast
      next
        assume "\<exists>q. holds env (cf_phase c q) = Some (ik_id w, done_key (dx_rank env) d, do_hash d, Some (do_record d))"
        then obtain q where q: "holds env (cf_phase c q) = Some (ik_id w, done_key (dx_rank env) d, do_hash d, Some (do_record d))" by blast
        show ?goal
        proof (cases "q = p")
          case True
          with q hp obtain rec where x: "x = Inr rec" "do_record d = rec" and i: "ik_id w = i" by (auto split: sum.splits)
          have "w = r" using idem_ok_unique(1) [OF db(2) w(1) r(1)] i r(2) by (simp add: taken_def)
          then have st: "ik_status w = ''in_progress''" using r(2) by (simp add: taken_def)
          have "completed_row i (200, rec) w \<in> set (ix_rows db')" using w(1) x(1) unfolding db'(3) by (simp add: settled_rows_def)
          moreover have "kept d (completed_row i (200, rec) w)" using st i x by (simp add: kept_def completed_row_def)
          ultimately show ?goal using w(2,3) by (intro bexI [of _ "completed_row i (200, rec) w"]) simp_all
        next
          case False
          have "w \<in> set (ix_rows db')" using others [OF q False] w(1) unfolding db'(3) by (intro settled_other)
          moreover have "holds env (?ph q) = holds env (cf_phase c q)" using False by simp
          ultimately show ?goal using w(2,3) q by metis
        qed
      qed
    qed
    ultimately show ?thesis using db' db(7) right differ unfolding conf_ok_def by (intro exI [of _ db']) simp
  qed
qed

lemma conf_ok_step: "conc_step env c c' \<Longrightarrow> conf_ok env c \<Longrightarrow> conf_ok env c'"
proof (induction rule: conc_step.induct)
  case (other c v)
  then show ?case by (simp add: conf_ok_def)
qed (rule conf_ok_arrive conf_ok_run conf_ok_settle; assumption)+

lemma conf_ok_steps: "conc_run env c c' \<Longrightarrow> conf_ok env c \<Longrightarrow> conf_ok env c'"
  by (induction rule: conc_run.induct) (auto intro: conf_ok_step)

definition quiet :: "('r, 's, 'a) disc_http \<Rightarrow> ('r, 's, 'a) conf" where
  "quiet s = \<lparr>cf_state = s, cf_phase = \<lambda>_. None, cf_done = []\<rparr>"

lemma conf_ok_quiet: "dh_idem s = Some db \<Longrightarrow> idem_ok (dx_rank env) db \<Longrightarrow> conf_ok env (quiet s)"
  by (simp add: conf_ok_def quiet_def rows_hold_def holders_differ_def done_rows_def held_def)

subsection \<open>A key that has been used\<close>

definition replay_of :: "string \<Rightarrow> disclosure_record idem_row \<Rightarrow> int \<times> disc_body" where
  "replay_of hash r = (case ik_response r of
      Some (st, rec) \<Rightarrow> if ik_status r = ''completed'' \<and> ik_hash r = Some hash then (if st = 0 then 200 else st, BRecord rec)
        else (409, BConflict ''idempotency conflict or request in progress'')
    | None \<Rightarrow> (409, BConflict ''idempotency conflict or request in progress''))"

lemma find_by_key:
  assumes "idem_ok rank db" and "r \<in> set (ix_rows db)" and "row_key rank r = (rank scope, rank key)"
  shows "List.find (same_key rank scope key) (ix_rows db) = Some r"
proof -
  have "same_key rank scope key r" using assms(3) by (simp add: same_key_row)
  then obtain w where w: "List.find (same_key rank scope key) (ix_rows db) = Some w"
    using assms(2) by (cases "List.find (same_key rank scope key) (ix_rows db)") (auto simp: find_None_iff)
  then have "w \<in> set (ix_rows db)" "same_key rank scope key w" by (auto simp: find_Some_iff)
  then have "w = r" using idem_ok_unique(2) [OF assms(1) _ assms(2)] assms(3) by (simp add: same_key_row)
  with w show ?thesis by simp
qed

lemma load_replays: "List.find (same_key rank scope key) rows = Some r \<Longrightarrow>
    \<exists>res. load_after_conflict rank scope key hash rows = Inr res \<and> early_reply res = Some (replay_of hash r)"
proof (cases "ik_status r = ''completed'' \<and> ik_hash r = Some hash")
  case False
  then show "List.find (same_key rank scope key) rows = Some r \<Longrightarrow> ?thesis"
    by (auto simp: load_after_conflict_def early_reply_def replay_of_def no_result_def split: option.splits)
next
  case True
  then show "List.find (same_key rank scope key) rows = Some r \<Longrightarrow> ?thesis"
    by (cases "ik_response r") (simp_all add: load_after_conflict_def early_reply_def replay_of_def no_result_def split_beta)
qed

text \<open>A request whose key has a row is answered from that row, and the service is not called.\<close>

lemma keyed_on_row:
  assumes db: "dh_idem s = Some db" "idem_ok (dx_rank env) db" and r: "r \<in> set (ix_rows db)" "row_key (dx_rank env) r = op_key (dx_rank env) op (trim_space (hq_idempotency req))"
    and c: "dx_inspect env (bearer_token (hq_authorization req)) = Inr c" and key: "trim_space (hq_idempotency req) \<noteq> []"
  shows "\<exists>s'. keyed_handler (at_time now env) op req rid s = (Inr (replay_of (request_hash env (claims_subject c) rid (op_name op)) r), s') \<and> dh_svc s' = dh_svc s"
proof -
  let ?sub = "claims_subject c" and ?key = "trim_space (hq_idempotency req)"
  let ?hash = "request_hash env ?sub rid (op_name op)"
  let ?p = "\<lparr>ip_company = sub_company ?sub, ip_scope = op_scope op, ip_key = ?key, ip_hash = ?hash\<rparr>"
  have rk: "row_key (dx_rank env) r = (dx_rank env (op_scope op), dx_rank env (stored_key ?key))" using r(2) by (simp add: op_key_def)
  have hit: "list_ex (\<lambda>w. ik_id w = j \<or> same_key (dx_rank env) (op_scope op) (stored_key ?key) w) (ix_rows db)" for j
    using r(1) rk by (auto simp: list_ex_iff same_key_row)
  obtain db' where t: "try_reserve (dx_rank env) (de_now (dx_env (at_time now env))) ?p db =
      (load_after_conflict (dx_rank env) (op_scope op) (stored_key ?key) ?hash (ix_rows db), db')"
    using hit key scope_plain by (cases "new_uuid (ix_ids db)") (auto simp: try_reserve_def Let_def)
  obtain res where res: "load_after_conflict (dx_rank env) (op_scope op) (stored_key ?key) ?hash (ix_rows db) = Inr res"
      "early_reply res = Some (replay_of ?hash r)"
    using load_replays [OF find_by_key [OF db(2) r(1) rk]] by blast
  have "begin_keyed (at_time now env) op req rid s = (Inr (?sub, res), s\<lparr>dh_idem := Some db'\<rparr>)"
    using db(1) c key t res(1) by (simp add: begin_keyed_def subject_from_token_def reserve_def seqE_def)
  then show ?thesis using res(2) by (simp add: keyed_handler_def seqE_def)
qed

lemma done_replays:
  assumes "conf_ok env c" and "d \<in> set (cf_done c)" and "dx_inspect env (bearer_token (hq_authorization req)) = Inr cl"
    and "trim_space (hq_idempotency req) = do_key d" and "do_key d \<noteq> []"
    and "request_hash env (claims_subject cl) rid (op_name (do_op d)) = do_hash d" and "do_hash d \<noteq> []"
    and "\<And>p. holds env (cf_phase c p) = None"
  shows "\<exists>s'. keyed_handler (at_time now env) (do_op d) req rid (cf_state c) = (Inr (200, BRecord (do_record d)), s') \<and> dh_svc s' = dh_svc (cf_state c)"
proof -
  from assms(1) obtain db where db: "dh_idem (cf_state c) = Some db" "idem_ok (dx_rank env) db" "done_rows env (ix_rows db) (cf_phase c) (cf_done c)"
    by (rule conf_okE)
  from db(3) assms(2,8) obtain r where r: "r \<in> set (ix_rows db)" "row_key (dx_rank env) r = done_key (dx_rank env) d" "ik_hash r = null_if_empty (do_hash d)" "kept d r"
    unfolding done_rows_def by fastforce
  have rk: "row_key (dx_rank env) r = op_key (dx_rank env) (do_op d) (trim_space (hq_idempotency req))" using r(2) by (simp add: assms(4) done_key_def)
  have hash: "ik_hash r = Some (do_hash d)" using r(3) assms(7) by (simp add: null_if_empty_def)
  have "replay_of (do_hash d) r = (200, BRecord (do_record d))" using r(4) hash by (simp add: replay_of_def kept_def)
  with keyed_on_row [OF db(1,2) r(1) rk assms(3), of now rid] show ?thesis using assms(4,5,6) by auto
qed

lemma recorded_key: "d \<in> set (recorded env op sub rid key x) \<Longrightarrow> do_key d \<noteq> []"
  by (auto simp: recorded_def split: sum.splits if_splits)

lemma done_keyed: "conc_run env c c' \<Longrightarrow> \<forall>d \<in> set (cf_done c). do_key d \<noteq> [] \<Longrightarrow> \<forall>d \<in> set (cf_done c'). do_key d \<noteq> []"
proof (induction rule: conc_run.induct)
  case (step c' c'')
  from step.hyps(2) step show ?case by cases (auto dest: recorded_key)
qed simp

subsection \<open>What the keys promise\<close>

text \<open>C7: whatever requests are under way at once, and whatever else changes the service between their steps,
  no two of them carry out a submit, or a confirm, under the same idempotency key.\<close>

theorem idempotent_exactly_once:
  assumes "dh_idem s = Some db" and "idem_ok (dx_rank env) db" and "conc_run env (quiet s) c"
  shows "distinct (map (done_key (dx_rank env)) (cf_done c))"
  using conf_ok_steps [OF assms(3) conf_ok_quiet [OF assms(1,2)]] by (rule conf_okE)

text \<open>A scheduler of the steps, to run examples.\<close>

definition arrive_step :: "('r, 's, 'a) disc_http_env \<Rightarrow> int \<Rightarrow> nat \<Rightarrow> keyed_op \<Rightarrow> http_request \<Rightarrow> string \<Rightarrow> ('r, 's, 'a) conf \<Rightarrow> ('r, 's, 'a) conf" where
  "arrive_step env now p op req rid c = (case cf_phase c p of
      None \<Rightarrow> (case begin_keyed (at_time now env) op req rid (cf_state c) of (out, s') \<Rightarrow>
        c\<lparr>cf_state := s', cf_phase := (cf_phase c)(p \<mapsto> arrived op rid (trim_space (hq_idempotency req)) out)\<rparr>)
    | Some _ \<Rightarrow> c)"

definition go_on :: "('r, 's, 'a) disc_http_env \<Rightarrow> int \<Rightarrow> nat \<Rightarrow> ('r, 's, 'a) conf \<Rightarrow> ('r, 's, 'a) conf" where
  "go_on env now p c = (case cf_phase c p of
      Some (Reserved op sub rid key i) \<Rightarrow> (case on_disc (run_keyed (dx_env (at_time now env)) op sub rid) (cf_state c) of (x, s') \<Rightarrow>
        c\<lparr>cf_state := s', cf_phase := (cf_phase c)(p \<mapsto> Ran op sub rid key i x), cf_done := recorded env op sub rid key x @ cf_done c\<rparr>)
    | Some (Ran op sub rid key i x) \<Rightarrow> c\<lparr>cf_state := settle i x (cf_state c), cf_phase := (cf_phase c)(p \<mapsto> Answered (answer x))\<rparr>
    | _ \<Rightarrow> c)"

lemma run_arrive: "conc_run env c0 c \<Longrightarrow> conc_run env c0 (arrive_step env now p op req rid c)"
  by (auto simp: arrive_step_def split: option.splits prod.splits intro: conc_run.step conc_step.arrive)

lemma run_go_on: "conc_run env c0 c \<Longrightarrow> conc_run env c0 (go_on env now p c)"
  by (auto simp: go_on_def split: option.splits phase.splits prod.splits intro: conc_run.step conc_step.run conc_step.settle)

definition wit_claims :: access_claims where
  "wit_claims = \<lparr>ac_sub = ''u_admin'', ac_session = ''s_1'', ac_membership = ''m_admin_001'', ac_company = ''c_001''\<rparr>"

definition wit_http_env :: "(disc_mem, unit, audit_entry list) disc_http_env" where
  "wit_http_env = \<lparr>dx_env = wit_mem_env 1767225600, dx_inspect = (\<lambda>_. Inr wit_claims), dx_audit = mem_audit, dx_rank = (\<lambda>x. x), dx_sha = (\<lambda>x. x)\<rparr>"

definition wit_idem :: "disclosure_record idem_db" where
  "wit_idem = \<lparr>ix_rows = [], ix_companies = [''c_001''], ix_ids = tally_ids\<rparr>"

definition wit_http :: "(disc_mem, unit, audit_entry list) disc_http" where
  "wit_http = \<lparr>dh_svc = wit_mem1, dh_idem = Some wit_idem, dh_audit = None\<rparr>"

definition wit_keyed_request :: http_request where
  "wit_keyed_request = \<lparr>hq_authorization = ''Bearer t'', hq_idempotency = '' k1 '', hq_request_id = [], hq_remote = [], hq_agent = []\<rparr>"

text \<open>Two submits with the same key, the second while the first is under way.\<close>

definition wit_conf :: "(disc_mem, unit, audit_entry list) conf" where
  "wit_conf = (let now = 1767225600 in go_on wit_http_env now 0 (go_on wit_http_env now 0
     (arrive_step wit_http_env now 1 Submit wit_keyed_request ''id'' (arrive_step wit_http_env now 0 Submit wit_keyed_request ''id'' (quiet wit_http)))))"

lemma wit_conf_run: "conc_run wit_http_env (quiet wit_http) wit_conf"
  unfolding wit_conf_def Let_def by (intro run_go_on run_arrive conc_run.refl)

lemma wit_idem_ok: "dh_idem wit_http = Some wit_idem" "idem_ok (dx_rank wit_http_env) wit_idem"
  by (simp_all add: wit_http_def wit_idem_def idem_ok_def fresh_tally_ids)

definition answered_status :: "phase option \<Rightarrow> int option" where
  "answered_status x = (case x of Some (Answered (Inr (st, _))) \<Rightarrow> Some st | _ \<Rightarrow> None)"

lemma answered_status: "answered_status x = Some st \<Longrightarrow> \<exists>rep. x = Some (Answered rep)"
  by (auto simp: answered_status_def split: option.splits phase.splits)

lemma wit_conf_answers: "(answered_status (cf_phase wit_conf 0), answered_status (cf_phase wit_conf 1),
    map (\<lambda>d. (do_op d = Submit, do_key d, do_hash d, dr_status (do_record d))) (cf_done wit_conf)) =
  (Some 200, Some 409, [(True, ''k1'', ''c_001|id|u_admin|submit'', ''Published'')])"
  by code_simp

theorem idempotent_exactly_once_witness:
  "distinct (map (done_key (dx_rank wit_http_env)) (cf_done wit_conf)) \<and> map do_key (cf_done wit_conf) = [''k1'']"
  using idempotent_exactly_once [OF wit_idem_ok wit_conf_run] wit_conf_answers by auto

text \<open>C19: once the requests under way have settled, a request that repeats a key that succeeded, with the same
  request hash, is answered 200 with the record of the first, and the service is not called.\<close>

theorem keyed_retry_replays:
  assumes "dh_idem s = Some db" and "idem_ok (dx_rank env) db" and "conc_run env (quiet s) c" and "d \<in> set (cf_done c)"
    and "dx_inspect env (bearer_token (hq_authorization req)) = Inr cl" and "trim_space (hq_idempotency req) = do_key d"
    and "request_hash env (claims_subject cl) rid (op_name (do_op d)) = do_hash d" and "do_hash d \<noteq> []"
    and "\<forall>p. case cf_phase c p of None \<Rightarrow> True | Some ph \<Rightarrow> \<exists>rep. ph = Answered rep"
  shows "\<exists>s'. keyed_handler (at_time now env) (do_op d) req rid (cf_state c) = (Inr (200, BRecord (do_record d)), s') \<and> dh_svc s' = dh_svc (cf_state c)"
proof (rule done_replays [OF conf_ok_steps [OF assms(3) conf_ok_quiet [OF assms(1,2)]] assms(4,5,6) _ assms(7,8)])
  show "do_key d \<noteq> []" using done_keyed [OF assms(3)] assms(4) by (simp add: quiet_def)
  show "holds env (cf_phase c p) = None" for p using assms(9) [rule_format, of p] by (auto split: option.splits)
qed

lemma wit_conf_phases: "cf_phase wit_conf p = None" if "1 < p"
  using that by (simp add: wit_conf_def Let_def go_on_def arrive_step_def quiet_def split: option.splits phase.splits prod.splits)

theorem keyed_retry_replays_witness:
  "map_sum id (map_prod id (\<lambda>b. case b of BRecord r \<Rightarrow> Some (dr_status r) | _ \<Rightarrow> None))
     (fst (keyed_handler (at_time 1767225999 wit_http_env) Submit wit_keyed_request ''id'' (cf_state wit_conf))) = Inr (200, Some ''Published'')"
proof -
  obtain d where d: "cf_done wit_conf = [d]" "do_op d = Submit" "do_key d = ''k1''" "dr_status (do_record d) = ''Published''"
    "do_hash d = ''c_001|id|u_admin|submit''" using wit_conf_answers by auto
  have e: "dx_inspect wit_http_env (bearer_token (hq_authorization wit_keyed_request)) = Inr wit_claims" by (simp add: wit_http_env_def)
  have k: "trim_space (hq_idempotency wit_keyed_request) = do_key d" unfolding d by code_simp
  have h: "request_hash wit_http_env (claims_subject wit_claims) ''id'' (op_name (do_op d)) = do_hash d" unfolding d by code_simp
  have "\<exists>r. cf_phase wit_conf 0 = Some (Answered r)" "\<exists>r. cf_phase wit_conf 1 = Some (Answered r)"
    using wit_conf_answers answered_status by blast+
  then have q: "\<forall>p. case cf_phase wit_conf p of None \<Rightarrow> True | Some ph \<Rightarrow> \<exists>rep. ph = Answered rep"
    using wit_conf_phases by (metis (mono_tags, lifting) less_one linorder_neqE_nat option.simps(4) option.simps(5))
  have "d \<in> set (cf_done wit_conf)" "do_hash d \<noteq> []" using d by simp_all
  from keyed_retry_replays [OF wit_idem_ok wit_conf_run this(1) e k h this(2) q, of 1767225999] obtain s' where
    "keyed_handler (at_time 1767225999 wit_http_env) Submit wit_keyed_request ''id'' (cf_state wit_conf) = (Inr (200, BRecord (do_record d)), s')"
    by (auto simp: d)
  then show ?thesis using d(4) by simp
qed

end
