(* ===== verification/FilePaths.thy ===== *)
theory FilePaths
  imports GoStrings HttpErrors
begin

section \<open>File paths\<close>

text \<open>
  \<open>Clean\<close>, \<open>Base\<close> and \<open>Rel\<close> of package \<open>path/filepath\<close> on Unix, on the list of the elements of a path, and
  \<open>resolvePath\<close> of \<^verbatim>\<open>internal/platformcms/transport/http/media_security.go\<close>, which turns the object key of
  a media asset into the path of its file under the storage directory.
\<close>

subsection \<open>Cleaning\<close>

definition dotdot :: string where
  "dotdot = ''..''"

definition rooted :: "string \<Rightarrow> bool" where
  "rooted p = has_prefix p ''/''"

text \<open>One element on the elements kept so far, the last one first.\<close>

definition clean_elem :: "bool \<Rightarrow> string list \<Rightarrow> string \<Rightarrow> string list" where
  "clean_elem ab out e =
    (if e = [] \<or> e = ''.'' then out
     else if e = dotdot then
       (case out of [] \<Rightarrow> (if ab then [] else [dotdot]) | x # xs \<Rightarrow> (if x = dotdot then dotdot # out else xs))
     else e # out)"

definition clean_elems :: "bool \<Rightarrow> string list \<Rightarrow> string list" where
  "clean_elems ab es = rev (foldl (clean_elem ab) [] es)"

definition path_elems :: "string \<Rightarrow> string list" where
  "path_elems p = clean_elems (rooted p) (split_on (CHR ''/'') p)"

definition path_text :: "bool \<Rightarrow> string list \<Rightarrow> string" where
  "path_text ab es = (let t = (if ab then ''/'' else []) @ join ''/'' es in if t = [] then ''.'' else t)"

definition clean_path :: "string \<Rightarrow> string" where
  "clean_path p = path_text (rooted p) (path_elems p)"

text \<open>\<open>filepath.Base\<close>: the last element, after the slashes at the end.\<close>

definition base_name :: "string \<Rightarrow> string" where
  "base_name p =
    (if p = [] then ''.''
     else let q = trim_right_char (CHR ''/'') p; b = rev (takeWhile (\<lambda>c. c \<noteq> CHR ''/'') (rev q)) in
       if b = [] then ''/'' else b)"

text \<open>\<open>filepath.Rel\<close> of two clean paths.\<close>

fun strip_common :: "string list \<Rightarrow> string list \<Rightarrow> string list \<times> string list" where
  "strip_common (b # bs) (t # ts) = (if b = t then strip_common bs ts else (b # bs, t # ts))"
| "strip_common bs ts = (bs, ts)"

definition rel_path :: "string \<Rightarrow> string \<Rightarrow> string option" where
  "rel_path base targ =
    (if clean_path targ = clean_path base then Some ''.''
     else if rooted base \<noteq> rooted targ then None
     else case strip_common (path_elems base) (path_elems targ) of
         (bs, ts) \<Rightarrow> if bs \<noteq> [] \<and> hd bs = dotdot then None else Some (join ''/'' (map (\<lambda>_. dotdot) bs @ ts)))"

definition resolve_path :: "string \<Rightarrow> string \<Rightarrow> go_error + string" where
  "resolve_path dir key =
    (let k = clean_path (trim_space key) in
     if k = [] \<or> k = ''.'' then Inl (PlainErr ''invalid media object_key'')
     else let full = clean_path (dir @ ''/'' @ k) in
       case rel_path dir full of
         None \<Rightarrow> Inl (WrapErr ''resolve media object_key'' (PlainErr ''Rel''))
       | Some rel \<Rightarrow> if has_prefix rel dotdot then Inl (PlainErr ''invalid media object_key path traversal'') else Inr full)"

text \<open>An element that names an entry of a directory.\<close>

definition plain_elem :: "string \<Rightarrow> bool" where
  "plain_elem e \<longleftrightarrow> e \<noteq> [] \<and> e \<noteq> ''.'' \<and> e \<noteq> dotdot \<and> CHR ''/'' \<notin> set e"

subsection \<open>Clean paths\<close>

text \<open>What cleaning leaves: parent steps only at the start of a relative path.\<close>

definition cleaned :: "bool \<Rightarrow> string list \<Rightarrow> bool" where
  "cleaned ab es \<longleftrightarrow> (\<exists>n fs. es = replicate n dotdot @ fs \<and> list_all plain_elem fs \<and> (ab \<longrightarrow> n = 0))"

lemma dotdot_not_plain [simp]: "\<not> plain_elem dotdot"
  by (simp add: plain_elem_def)

lemma dotdot_pair [simp]: "dotdot \<noteq> []" "dotdot \<noteq> ''.''" "CHR ''/'' \<notin> set dotdot"
  by (simp_all add: dotdot_def)

lemma split_on_none: "d \<notin> set s \<Longrightarrow> split_on d s = [s]"
  by (induction s) auto

lemma split_on_append: "split_on d (s @ d # t) = split_on d s @ split_on d t"
proof (induction s)
  case (Cons c s)
  obtain w ws where "split_on d s = w # ws" using split_on_nonempty by (meson list.exhaust)
  with Cons show ?case by simp
qed simp

lemma split_on_sep: "d \<notin> set x \<Longrightarrow> split_on d (x @ d # t) = x # split_on d t"
  by (simp add: split_on_append split_on_none)

lemma split_join: "es \<noteq> [] \<Longrightarrow> \<forall>e \<in> set es. CHR ''/'' \<notin> set e \<Longrightarrow> split_on (CHR ''/'') (join ''/'' es) = es"
  by (induction es rule: induct_list012) (simp_all add: split_on_none split_on_sep)

lemma clean_elem_plain: "plain_elem e \<Longrightarrow> clean_elem ab out e = e # out"
  by (simp add: clean_elem_def plain_elem_def)

lemma foldl_plain: "list_all plain_elem fs \<Longrightarrow> foldl (clean_elem ab) out fs = rev fs @ out"
  by (induction fs arbitrary: out) (simp_all add: clean_elem_plain)

lemma cleaned_step:
  assumes "cleaned ab (rev out)" and "CHR ''/'' \<notin> set e"
  shows "cleaned ab (rev (clean_elem ab out e))"
proof -
  obtain n fs where o: "rev out = replicate n dotdot @ fs" "list_all plain_elem fs" "ab \<longrightarrow> n = 0" using assms(1) by (auto simp: cleaned_def)
  show ?thesis
  proof (cases "e = dotdot")
    case False
    show ?thesis
    proof (cases "e = [] \<or> e = ''.''")
      case True
      with assms(1) show ?thesis by (auto simp: clean_elem_def)
    next
      case e: False
      with False assms(2) have "plain_elem e" by (simp add: plain_elem_def)
      with o have "rev (clean_elem ab out e) = replicate n dotdot @ (fs @ [e]) \<and> list_all plain_elem (fs @ [e])" by (simp add: clean_elem_plain)
      with o(3) show ?thesis unfolding cleaned_def by blast
    qed
  next
    case True
    show ?thesis
    proof (cases fs rule: rev_cases)
      case Nil
      with o have out: "out = replicate n dotdot" by (metis append_Nil2 rev_replicate rev_rev_ident)
      show ?thesis
      proof (cases n)
        case 0
        with out True show ?thesis unfolding cleaned_def clean_elem_def
          by (cases ab) (auto intro: exI [of _ "[]"] exI [of _ 1])
      next
        case (Suc m)
        with out True have "rev (clean_elem ab out e) = replicate (Suc n) dotdot" by (simp add: clean_elem_def replicate_append_same)
        with o(3) Suc show ?thesis unfolding cleaned_def by (intro exI [of _ "Suc n"] exI [of _ "[]"]) simp
      qed
    next
      case (snoc gs g)
      with o have "out = g # rev (replicate n dotdot @ gs)" "g \<noteq> dotdot" by (metis append.assoc rev_append rev_rev_ident rev_eq_Cons_iff, auto)
      with True have "rev (clean_elem ab out e) = replicate n dotdot @ gs" by (simp add: clean_elem_def)
      with o snoc show ?thesis unfolding cleaned_def by (metis list_all_append)
    qed
  qed
qed

lemma cleaned_fold: "cleaned ab (rev out) \<Longrightarrow> \<forall>e \<in> set es. CHR ''/'' \<notin> set e \<Longrightarrow> cleaned ab (rev (foldl (clean_elem ab) out es))"
  by (induction es arbitrary: out) (simp_all add: cleaned_step)

lemma cleaned_path_elems: "cleaned (rooted p) (path_elems p)"
proof -
  have "cleaned (rooted p) (rev [])" by (auto simp: cleaned_def)
  then show ?thesis unfolding path_elems_def clean_elems_def by (rule cleaned_fold) (use split_on_pieces in blast)
qed

lemma clean_cleaned: "cleaned ab es \<Longrightarrow> clean_elems ab es = es"
proof -
  assume "cleaned ab es"
  then obtain n fs where es: "es = replicate n dotdot @ fs" "list_all plain_elem fs" "ab \<longrightarrow> n = 0" by (auto simp: cleaned_def)
  have "foldl (clean_elem ab) (replicate k dotdot) (replicate m dotdot) = replicate (k + m) dotdot" if "\<not> ab \<or> m = 0" for k m
    using that
  proof (induction m arbitrary: k)
    case (Suc m)
    then have "clean_elem ab (replicate k dotdot) dotdot = replicate (Suc k) dotdot" by (cases k) (simp_all add: clean_elem_def)
    with Suc.prems Suc.IH [of "Suc k"] show ?case by simp
  qed simp
  from this [of n 0] this [of 0 n] es show ?thesis by (simp add: clean_elems_def foldl_plain)
qed

lemma cleaned_no_slash: "cleaned ab es \<Longrightarrow> \<forall>e \<in> set es. CHR ''/'' \<notin> set e \<and> e \<noteq> []"
  unfolding cleaned_def by (elim exE conjE) (simp add: list_all_iff plain_elem_def ball_Un)

lemma path_text_back:
  assumes "cleaned ab es"
  shows "rooted (path_text ab es) = ab" and "path_elems (path_text ab es) = es"
proof -
  note slash = cleaned_no_slash [OF assms]
  show r: "rooted (path_text ab es) = ab"
  proof (cases es)
    case Nil
    then show ?thesis by (simp add: path_text_def rooted_def has_prefix_def)
  next
    case (Cons e fs)
    then have e: "e \<noteq> []" "CHR ''/'' \<notin> set e" using slash by auto
    have "hd (join ''/'' (e # fs)) = hd e" "join ''/'' (e # fs) \<noteq> []" using e(1) by (cases fs; simp)+
    then show ?thesis using e Cons by (cases "join ''/'' (e # fs)"; cases e) (auto simp: path_text_def Let_def rooted_def has_prefix_def)
  qed
  have "clean_elems ab (split_on (CHR ''/'') (path_text ab es)) = es"
  proof (cases "es = []")
    case True
    then show ?thesis by (simp add: path_text_def clean_elems_def clean_elem_def)
  next
    case False
    have "join ''/'' es \<noteq> []" using False slash by (cases es; cases "tl es") auto
    moreover have "clean_elems ab ([] # es) = es" "clean_elems ab es = es"
      using clean_cleaned [OF assms] by (simp_all add: clean_elems_def clean_elem_def)
    moreover have "split_on (CHR ''/'') (CHR ''/'' # join ''/'' es) = [] # es" using False slash by (simp add: split_join)
    moreover have "split_on (CHR ''/'') (join ''/'' es) = es" using False slash by (simp add: split_join)
    ultimately show ?thesis by (cases ab) (simp_all add: path_text_def Let_def)
  qed
  then show "path_elems (path_text ab es) = es" using r by (simp add: path_elems_def)
qed

lemma clean_path_simps [simp]: "rooted (clean_path p) = rooted p" "path_elems (clean_path p) = path_elems p"
  unfolding clean_path_def by (simp_all add: path_text_back [OF cleaned_path_elems])

lemma clean_path_idem [simp]: "clean_path (clean_path p) = clean_path p"
  by (subst clean_path_def, simp only: clean_path_simps) (rule clean_path_def [symmetric])

lemma clean_path_eq_iff: "clean_path p = clean_path q \<longleftrightarrow> rooted p = rooted q \<and> path_elems p = path_elems q"
proof
  assume e: "clean_path p = clean_path q"
  from arg_cong [OF e, of rooted] arg_cong [OF e, of path_elems] show "rooted p = rooted q \<and> path_elems p = path_elems q" by simp
qed (simp add: clean_path_def)

lemma clean_nonempty [simp]: "clean_path p \<noteq> []"
  by (simp add: clean_path_def path_text_def Let_def)

lemma path_elems_dot [simp]: "path_elems ''.'' = []"
  by (simp add: path_elems_def clean_elems_def clean_elem_def)

subsection \<open>Resolving an object key\<close>

lemma strip_common_append: "strip_common bs ts = (bs', ts') \<Longrightarrow> \<exists>cs. bs = cs @ bs' \<and> ts = cs @ ts'"
proof (induction bs ts rule: strip_common.induct)
  case (1 b bs t ts)
  show ?case
  proof (cases "b = t")
    case True
    with 1 obtain cs where "bs = cs @ bs'" "ts = cs @ ts'" by auto
    with True show ?thesis by (intro exI [of _ "b # cs"]) simp
  next
    case False
    with 1 show ?thesis by auto
  qed
qed auto

lemma strip_common_self [simp]: "strip_common bs (bs @ ts) = ([], ts)"
  by (induction bs) (auto intro: strip_common.simps(2) simp: strip_common.simps)

lemma prefix_join_dotdot: "es \<noteq> [] \<Longrightarrow> prefix (hd es) (join ''/'' es)"
  by (cases es; cases "tl es") auto

lemma resolved_inside:
  assumes "resolve_path dir key = Inr p"
  shows "rooted p = rooted dir \<and> p = clean_path p \<and> (\<exists>rest. list_all plain_elem rest \<and> path_elems p = path_elems dir @ rest)"
proof -
  obtain rel where p: "p = clean_path (dir @ ''/'' @ clean_path (trim_space key))" and rel: "rel_path dir p = Some rel" "\<not> has_prefix rel dotdot"
    using assms by (auto simp: resolve_path_def Let_def split: option.splits if_splits)
  have clean: "cleaned (rooted p) (path_elems p)" by (rule cleaned_path_elems)
  show ?thesis
  proof (cases "clean_path p = clean_path dir")
    case True
    then show ?thesis using p by (auto simp: clean_path_eq_iff intro: exI [of _ "[]"])
  next
    case False
    obtain bs ts where st: "strip_common (path_elems dir) (path_elems p) = (bs, ts)" by fastforce
    with rel(1) False have r: "rooted dir = rooted p" "rel = join ''/'' (map (\<lambda>_. dotdot) bs @ ts)" by (auto simp: rel_path_def split: if_splits)
    obtain cs where cs: "path_elems dir = cs @ bs" "path_elems p = cs @ ts" using strip_common_append [OF st] by blast
    have nil: "bs = []" using rel(2) prefix_join_dotdot [of "map (\<lambda>_. dotdot) bs @ ts"] by (cases bs) (auto simp: r has_prefix_def)
    have ts: "ts \<noteq> [] \<Longrightarrow> hd ts \<noteq> dotdot" using rel(2) prefix_join_dotdot [of ts] nil by (auto simp: r has_prefix_def)
    obtain n fs where n: "cs @ ts = replicate n dotdot @ fs" "list_all plain_elem fs" using clean cs by (auto simp: cleaned_def)
    have "n \<le> length cs"
    proof (rule ccontr)
      assume "\<not> n \<le> length cs"
      then have "(cs @ ts) ! length cs = dotdot" "ts \<noteq> []" using n(1) by (auto simp: nth_append)
      with ts show False by (simp add: hd_conv_nth nth_append)
    qed
    then have "ts = drop (length cs - n) fs" using arg_cong [OF n(1), of "drop (length cs)"] by simp
    then have "list_all plain_elem ts" using n(2) by (auto simp: list_all_iff dest: in_set_dropD)
    with r(1) cs nil p show ?thesis by auto
  qed
qed

subsection \<open>File names\<close>

text \<open>\<open>strings.ReplaceAll(s, "..", "")\<close>, left to right without overlap.\<close>

fun drop_pairs :: "string \<Rightarrow> string" where
  "drop_pairs (c # d # s) = (if c = CHR ''.'' \<and> d = CHR ''.'' then drop_pairs s else c # drop_pairs (d # s))"
| "drop_pairs s = s"

definition sanitize_file_name :: "string \<Rightarrow> string" where
  "sanitize_file_name name =
    (let b = drop_pairs (map (\<lambda>c. if c = CHR '' '' then CHR ''_'' else c) (trim_space (base_name name))) in
     if b = ''.'' \<or> b = ''/'' \<or> b = [CHR 0x5C] then [] else b)"

definition object_key :: "string \<Rightarrow> string \<Rightarrow> string \<Rightarrow> string" where
  "object_key company asset name = ''company/'' @ company @ ''/cms/media/'' @ asset @ ''/'' @ name"

lemma drop_pairs_set: "set (drop_pairs s) \<subseteq> set s"
  by (induction s rule: drop_pairs.induct) auto

lemma drop_pairs_apart: "drop_pairs s \<noteq> CHR ''.'' # CHR ''.'' # r"
proof (induction s arbitrary: r rule: drop_pairs.induct)
  case (1 c d s)
  then show ?case
    by (cases s) (auto split: if_splits)
qed auto

lemma trim_space_set: "set (trim_space s) \<subseteq> set s"
  using trim_space_substring [of s] by (metis Un_upper1 Un_upper2 set_append subset_trans)

lemma base_name_slash: "CHR ''/'' \<in> set (base_name p) \<Longrightarrow> base_name p = ''/''"
  by (auto simp: base_name_def Let_def split: if_splits dest: set_takeWhileD)

lemma sanitized:
  assumes "sanitize_file_name name \<noteq> []"
  shows "CHR ''/'' \<notin> set (sanitize_file_name name)" and "sanitize_file_name name \<noteq> ''.''" and "sanitize_file_name name \<noteq> CHR ''.'' # CHR ''.'' # r"
proof -
  let ?b = "drop_pairs (map (\<lambda>c. if c = CHR '' '' then CHR ''_'' else c) (trim_space (base_name name)))"
  have b: "sanitize_file_name name = ?b" "?b \<noteq> ''/''" "?b \<noteq> ''.''" using assms by (auto simp: sanitize_file_name_def Let_def split: if_splits)
  show "sanitize_file_name name \<noteq> ''.''" "sanitize_file_name name \<noteq> CHR ''.'' # CHR ''.'' # r" using b drop_pairs_apart by metis+
  show "CHR ''/'' \<notin> set (sanitize_file_name name)"
  proof
    assume "CHR ''/'' \<in> set (sanitize_file_name name)"
    then have "CHR ''/'' \<in> set (map (\<lambda>c. if c = CHR '' '' then CHR ''_'' else c) (trim_space (base_name name)))" using b(1) subsetD [OF drop_pairs_set] by metis
    then have "CHR ''/'' \<in> set (trim_space (base_name name))" by (auto split: if_splits)
    then have "base_name name = ''/''" using base_name_slash trim_space_set by blast
    moreover have "drop_pairs (map (\<lambda>c. if c = CHR '' '' then CHR ''_'' else c) (trim_space ''/'')) = ''/''" by code_simp
    ultimately have "?b = ''/''" by simp
    with b(2) show False by simp
  qed
qed

text \<open>Trimming a key takes nothing but the end of its last element.\<close>

definition solid :: "char \<Rightarrow> bool" where
  "solid c \<longleftrightarrow> \<not> ascii_space c \<and> byte c < 128"

lemma solid_head:
  assumes "solid c" and "\<forall>a b. p2 a b \<longrightarrow> 128 \<le> byte a \<and> 128 \<le> byte b" and "\<forall>a b d. p3 a b d \<longrightarrow> 128 \<le> byte a \<and> 128 \<le> byte b \<and> 128 \<le> byte d"
  shows "head_space p2 p3 (g @ c # r) \<le> length g"
proof (cases g)
  case Nil
  with assms show ?thesis by (force simp: head_space_zero_Cons solid_def)
next
  case (Cons a g1)
  note g = this
  show ?thesis
  proof (cases g1)
    case Nil
    have "\<not> p2 a c" "\<And>d. \<not> p3 a c d" using assms by (force simp: solid_def)+
    then show ?thesis using g Nil by (cases r) simp_all
  next
    case (Cons b g2)
    have "\<not> p3 a b c" using assms by (force simp: solid_def)
    then show ?thesis using g Cons by (cases g2) simp_all
  qed
qed

lemma trim_by_solid:
  assumes "solid c" and "\<forall>a b. p2 a b \<longrightarrow> 128 \<le> byte a \<and> 128 \<le> byte b" and "\<forall>a b d. p3 a b d \<longrightarrow> 128 \<le> byte a \<and> 128 \<le> byte b \<and> 128 \<le> byte d"
  shows "\<exists>n. trim_by p2 p3 (g @ c # r) = drop n g @ c # r"
proof (induction "length g" arbitrary: g rule: less_induct)
  case less
  show ?case
  proof (cases "head_space p2 p3 (g @ c # r)")
    case 0
    then show ?thesis by (intro exI [of _ 0]) (simp add: trim_by_fix)
  next
    case (Suc n)
    then have n: "Suc n \<le> length g" using solid_head [OF assms, of g r] by simp
    then have "length (drop (Suc n) g) < length g" by simp
    from less [OF this] obtain m where "trim_by p2 p3 (drop (Suc n) g @ c # r) = drop m (drop (Suc n) g) @ c # r" by blast
    with Suc n show ?thesis by (intro exI [of _ "m + Suc n"]) (subst trim_by.simps, simp)
  qed
qed

lemma trim_right_solid: "solid c \<Longrightarrow> \<exists>n. trim_right_space (r @ c # g) = r @ c # take n g"
proof -
  assume c: "solid c"
  have two: "\<forall>b a. space2 a b \<longrightarrow> 128 \<le> byte b \<and> 128 \<le> byte a" unfolding space2_def by auto
  have three: "\<forall>d b a. space3 a b d \<longrightarrow> 128 \<le> byte d \<and> 128 \<le> byte b \<and> 128 \<le> byte a" unfolding space3_def by auto
  obtain n where "trim_by (\<lambda>b a. space2 a b) (\<lambda>d b a. space3 a b d) (rev g @ c # rev r) = drop n (rev g) @ c # rev r"
    using trim_by_solid [OF c, of "\<lambda>b a. space2 a b" "\<lambda>d b a. space3 a b d" "rev g" "rev r", OF two three] by blast
  then have "trim_right_space (r @ c # g) = r @ c # rev (drop n (rev g))" by (simp add: trim_right_space_def)
  then show ?thesis by (metis rev_drop rev_rev_ident)
qed

lemma solid_slash: "solid CHR ''/''" "solid CHR ''c''"
  by (simp_all add: solid_def ascii_space_def byte_def)

lemma trim_object_key: "\<exists>n. trim_space (object_key c a f) = object_key c a (take n f)"
proof -
  have "head_space space2 space3 (CHR ''c'' # s) = 0" for s
    using solid_slash(2) by (simp add: head_space_zero_Cons solid_def space2_def space3_def byte_def)
  moreover obtain s where s: "object_key c a f = CHR ''c'' # s" by (simp add: object_key_def)
  ultimately have "trim_left_space (object_key c a f) = object_key c a f" by (simp only: s trim_left_space_def trim_by_fix)
  moreover obtain n where "trim_right_space ((''company/'' @ c @ ''/cms/media/'' @ a) @ CHR ''/'' # f) = (''company/'' @ c @ ''/cms/media/'' @ a) @ CHR ''/'' # take n f"
    using trim_right_solid [OF solid_slash(1)] by blast
  ultimately show ?thesis by (intro exI [of _ n]) (simp add: trim_space_def object_key_def)
qed

text \<open>The path of an object key names the asset.\<close>

definition key_elems :: "string \<Rightarrow> string \<Rightarrow> string list" where
  "key_elems c a = [''company'', c, ''cms'', ''media'', a]"

lemma resolve_object_key:
  assumes "plain_elem c" and "plain_elem a" and "CHR ''/'' \<notin> set f" and "\<And>r. f \<noteq> CHR ''.'' # CHR ''.'' # r" and "dir \<noteq> []"
  shows "\<exists>p fs. resolve_path dir (object_key c a f) = Inr p \<and> path_elems p = path_elems dir @ key_elems c a @ fs"
proof -
  obtain n where key: "trim_space (object_key c a f) = object_key c a (take n f)" using trim_object_key by blast
  define g where "g = take n f"
  have "f = g @ drop n f" by (simp add: g_def)
  then have g: "CHR ''/'' \<notin> set g" "g \<noteq> dotdot" using assms(3) assms(4) [of "drop n f"]
    by (auto simp: dotdot_def) (metis Un_iff set_append)
  define fs where "fs = (if g = [] \<or> g = ''.'' then [] else [g])"
  have fs: "list_all plain_elem fs" using g by (simp add: fs_def plain_elem_def)
  have ks: "list_all plain_elem (key_elems c a)" using assms(1,2) by (simp add: key_elems_def plain_elem_def dotdot_def)
  have elems: "foldl (clean_elem b) out (split_on (CHR ''/'') (object_key c a g)) = rev (key_elems c a @ fs) @ out" for b out
  proof -
    have "CHR ''/'' \<notin> set c" "CHR ''/'' \<notin> set a" using assms(1,2) by (simp_all add: plain_elem_def)
    then have "split_on (CHR ''/'') (join ''/'' (key_elems c a @ [g])) = key_elems c a @ [g]" using g by (intro split_join) (auto simp: key_elems_def)
    moreover have "join ''/'' (key_elems c a @ [g]) = object_key c a g" by (simp add: key_elems_def object_key_def)
    moreover have "clean_elem b out' g = rev fs @ out'" for out' using g by (simp add: fs_def clean_elem_def)
    ultimately show ?thesis using ks by (simp add: foldl_plain)
  qed
  have kp: "\<not> rooted (object_key c a g)" "path_elems (object_key c a g) = key_elems c a @ fs"
    using elems [of False "[]"] by (simp_all add: object_key_def rooted_def has_prefix_def path_elems_def clean_elems_def)
  define k where "k = clean_path (object_key c a g)"
  have k: "\<not> rooted k" "path_elems k = key_elems c a @ fs" "k \<noteq> ''.''" "k \<noteq> []"
    using kp by (auto simp: k_def) (metis append_is_Nil_conv clean_path_simps(2) key_elems_def list.distinct(1) path_elems_dot)
  have kt: "split_on (CHR ''/'') k = key_elems c a @ fs"
  proof -
    have "k = join ''/'' (key_elems c a @ fs)" using kp by (simp add: k_def clean_path_def path_text_def key_elems_def)
    then show ?thesis using ks fs by (simp only:) (intro split_join, auto simp: key_elems_def list_all_iff plain_elem_def)
  qed
  define p where "p = clean_path (dir @ ''/'' @ k)"
  have rd: "rooted (dir @ ''/'' @ k) = rooted dir" using assms(5) by (cases dir) (simp_all add: rooted_def has_prefix_def)
  have "foldl (clean_elem (rooted dir)) [] (split_on (CHR ''/'') (dir @ CHR ''/'' # k)) = rev (path_elems dir @ key_elems c a @ fs)"
    using ks fs by (simp add: split_on_append kt path_elems_def clean_elems_def foldl_plain)
  then have p: "rooted p = rooted dir" "path_elems p = path_elems dir @ key_elems c a @ fs"
    using rd by (simp_all add: p_def path_elems_def [of "dir @ _"] clean_elems_def)
  have "clean_path p \<noteq> clean_path dir" using p by (simp add: clean_path_eq_iff key_elems_def)
  then have "rel_path dir p = Some (join ''/'' (key_elems c a @ fs))" using p by (simp add: rel_path_def)
  moreover have "\<not> has_prefix (join ''/'' (key_elems c a @ fs)) dotdot" by (simp add: key_elems_def has_prefix_def dotdot_def)
  ultimately have "resolve_path dir (object_key c a f) = Inr p" using k(3,4) by (simp add: resolve_path_def key g_def [symmetric] k_def [symmetric] p_def)
  with p show ?thesis by auto
qed

end
