(* ===== verification/CmsMediaStore.thy ===== *)
theory CmsMediaStore
  imports FilePaths GoTimestamps Sql
begin

section \<open>Media assets of the CMS: the repositories and the files\<close>

text \<open>
  Models \<^verbatim>\<open>internal/platformcms/transport/http/media_store.go\<close>, the map and the MySQL table of assets behind
  one interface, and the files of \<^verbatim>\<open>media_security.go\<close>. Times are seconds of the clock. The disk maps the
  paths of the files to their bytes; apart from unusable object keys its calls do not fail. Parameters of
  the table: the collation key \<open>rank\<close> and the server's \<open>LOWER(column) LIKE pattern\<close>.
\<close>

subsection \<open>Assets\<close>

record media_asset =
  ma_id :: string
  ma_company :: string
  ma_name :: string
  ma_type :: string
  ma_size :: int
  ma_context :: string
  ma_key :: string
  ma_url :: string
  ma_method :: string
  ma_state :: string
  ma_created :: int
  ma_completed :: "int option"
  ma_deleted :: "int option"
  ma_updated_by :: string
  ma_etag :: string
  ma_checksum :: string
  ma_expires :: int

text \<open>The filters of a listing: type, query, cursor, limit.\<close>

record media_query =
  mq_type :: string
  mq_text :: string
  mq_cursor :: string
  mq_limit :: nat

record completion =
  mk_actor :: string
  mk_etag :: string
  mk_checksum :: string
  mk_size :: int

record 'm media_port =
  mp_create :: "int \<Rightarrow> media_asset \<Rightarrow> (go_error, 'm, unit) action"
  mp_by_id :: "string \<Rightarrow> (go_error, 'm, media_asset) action"
  mp_by_company :: "string \<Rightarrow> string \<Rightarrow> (go_error, 'm, media_asset) action"
  mp_list :: "int \<Rightarrow> string \<Rightarrow> media_query \<Rightarrow> (go_error, 'm, media_asset list) action"
  mp_complete :: "int \<Rightarrow> string \<Rightarrow> string \<Rightarrow> completion \<Rightarrow> (go_error, 'm, media_asset) action"
  mp_delete :: "int \<Rightarrow> string \<Rightarrow> string \<Rightarrow> string \<Rightarrow> (go_error, 'm, media_asset) action"

definition no_asset :: go_error where
  "no_asset = not_found ''media asset not found''"

definition completed_asset :: "int \<Rightarrow> completion \<Rightarrow> media_asset \<Rightarrow> media_asset" where
  "completed_asset now k a = a\<lparr>ma_state := ''ready'', ma_completed := Some now, ma_updated_by := mk_actor k,
     ma_etag := trim_space (mk_etag k), ma_checksum := trim_space (mk_checksum k)\<rparr>"

definition deleted_asset :: "int \<Rightarrow> string \<Rightarrow> media_asset \<Rightarrow> media_asset" where
  "deleted_asset now actor a = a\<lparr>ma_state := ''deleted'', ma_deleted := Some now, ma_updated_by := actor\<rparr>"

text \<open>The checks both repositories make before an upload is completed.\<close>

definition may_complete :: "completion \<Rightarrow> media_asset \<Rightarrow> go_error option" where
  "may_complete k a =
    (if ma_state a = ''ready'' then Some (new_http_error 409 CodeInvalidRequest ''media asset already completed'')
     else if 0 < mk_size k \<and> ma_size a \<noteq> mk_size k then Some (bad_request ''size_bytes mismatch'')
     else None)"

subsection \<open>In memory\<close>

type_synonym media_map = "string \<rightharpoonup> media_asset"

definition live_asset :: "media_map \<Rightarrow> string \<Rightarrow> string \<Rightarrow> media_asset option" where
  "live_asset m c i = (case m i of None \<Rightarrow> None | Some a \<Rightarrow> if ma_company a \<noteq> c \<or> ma_deleted a \<noteq> None then None else Some a)"

definition mem_media_create :: "int \<Rightarrow> media_asset \<Rightarrow> (go_error, media_map, unit) action" where
  "mem_media_create now a m = (Inr (), m(ma_id a \<mapsto> a))"

definition mem_media_by_id :: "string \<Rightarrow> (go_error, media_map, media_asset) action" where
  "mem_media_by_id i m = (case m i of None \<Rightarrow> Inl no_asset | Some a \<Rightarrow> Inr a, m)"

definition mem_media_by_company :: "string \<Rightarrow> string \<Rightarrow> (go_error, media_map, media_asset) action" where
  "mem_media_by_company c i m = (case live_asset m c i of None \<Rightarrow> Inl no_asset | Some a \<Rightarrow> Inr a, m)"

text \<open>A cursor that does not parse reads as tomorrow.\<close>

definition parse_cursor_fallback :: "int \<Rightarrow> string \<Rightarrow> int" where
  "parse_cursor_fallback now raw = (case parse_rfc3339 (trim_space raw) of None \<Rightarrow> (now + 86400) * 1000000000 | Some ns \<Rightarrow> ns)"

definition mem_media_match :: "int \<Rightarrow> string \<Rightarrow> media_query \<Rightarrow> media_asset \<Rightarrow> bool" where
  "mem_media_match now c q a =
    (ma_company a = c \<and> ma_deleted a = None \<and>
     (to_lower (trim_space (mq_type q)) = [] \<or> to_lower (trim_space (ma_type a)) = to_lower (trim_space (mq_type q))) \<and>
     (to_lower (trim_space (mq_text q)) = [] \<or>
        contains_str (to_lower (ma_name a @ '' '' @ ma_key a @ '' '' @ ma_type a)) (to_lower (trim_space (mq_text q)))) \<and>
     (trim_space (mq_cursor q) = [] \<or> ma_created a * 1000000000 < parse_cursor_fallback now (mq_cursor q)))"

definition page_of :: "nat \<Rightarrow> 'a list \<Rightarrow> 'a list" where
  "page_of n xs = (if 0 < n \<and> n < length xs then take n xs else xs)"

definition mem_media_list :: "(string, media_asset) visit \<Rightarrow> int \<Rightarrow> string \<Rightarrow> media_query \<Rightarrow> (go_error, media_map, media_asset list) action" where
  "mem_media_list ord now c q m =
    (Inr (page_of (mq_limit q) (sort_key (\<lambda>a. - ma_created a) (filter (mem_media_match now c q) (map_values m (ord m))))), m)"

definition mem_media_complete :: "int \<Rightarrow> string \<Rightarrow> string \<Rightarrow> completion \<Rightarrow> (go_error, media_map, media_asset) action" where
  "mem_media_complete now c i k m = (case live_asset m c i of
      None \<Rightarrow> (Inl no_asset, m)
    | Some a \<Rightarrow> (case may_complete k a of Some e \<Rightarrow> (Inl e, m)
        | None \<Rightarrow> (Inr (completed_asset now k a), m(i \<mapsto> completed_asset now k a))))"

definition mem_media_delete :: "int \<Rightarrow> string \<Rightarrow> string \<Rightarrow> string \<Rightarrow> (go_error, media_map, media_asset) action" where
  "mem_media_delete now c i actor m = (case live_asset m c i of
      None \<Rightarrow> (Inl no_asset, m)
    | Some a \<Rightarrow> (Inr (deleted_asset now actor a), m(i \<mapsto> deleted_asset now actor a)))"

definition mem_media :: "(string, media_asset) visit \<Rightarrow> media_map media_port" where
  "mem_media ord = \<lparr>mp_create = mem_media_create, mp_by_id = mem_media_by_id, mp_by_company = mem_media_by_company,
     mp_list = mem_media_list ord, mp_complete = mem_media_complete, mp_delete = mem_media_delete\<rparr>"

subsection \<open>In MySQL\<close>

type_synonym media_table = "media_asset list"

text \<open>The columns of a new row: the upload URL has none, the creation time is the server's.\<close>

definition asset_row :: "int \<Rightarrow> media_asset \<Rightarrow> media_asset" where
  "asset_row now a = a\<lparr>ma_url := [], ma_created := now, ma_completed := None, ma_deleted := None, ma_etag := [], ma_checksum := []\<rparr>"

definition sql_media_create :: "(string \<Rightarrow> string) \<Rightarrow> int \<Rightarrow> media_asset \<Rightarrow> (go_error, media_table, unit) action" where
  "sql_media_create rank now a rows =
    (if list_ex (\<lambda>r. rank (ma_id r) = rank (ma_id a) \<or> rank (ma_key r) = rank (ma_key a)) rows
     then (Inl (WrapErr ''insert media asset'' duplicate_key), rows)
     else (Inr (), rows @ [asset_row now a]))"

definition scan_media_row :: "media_asset option \<Rightarrow> go_error + media_asset" where
  "scan_media_row x = (case x of None \<Rightarrow> Inl no_asset | Some a \<Rightarrow> Inr a)"

definition sql_media_by_id :: "(string \<Rightarrow> string) \<Rightarrow> string \<Rightarrow> (go_error, media_table, media_asset) action" where
  "sql_media_by_id rank i rows = (scan_media_row (List.find (\<lambda>r. rank (ma_id r) = rank i) rows), rows)"

definition live_row :: "(string \<Rightarrow> string) \<Rightarrow> string \<Rightarrow> string \<Rightarrow> media_asset \<Rightarrow> bool" where
  "live_row rank c i r \<longleftrightarrow> rank (ma_id r) = rank i \<and> rank (ma_company r) = rank c \<and> ma_deleted r = None"

definition sql_media_by_company :: "(string \<Rightarrow> string) \<Rightarrow> string \<Rightarrow> string \<Rightarrow> (go_error, media_table, media_asset) action" where
  "sql_media_by_company rank c i rows = (scan_media_row (List.find (live_row rank c i) rows), rows)"

definition sql_media_match :: "(string \<Rightarrow> string) \<Rightarrow> (string \<Rightarrow> string \<Rightarrow> bool) \<Rightarrow> string \<Rightarrow> media_query \<Rightarrow> media_asset \<Rightarrow> bool" where
  "sql_media_match rank lower_like c q r =
    (rank (ma_company r) = rank c \<and> ma_deleted r = None \<and>
     (trim_space (mq_type q) = [] \<or> rank (ma_type r) = rank (to_lower (trim_space (mq_type q)))) \<and>
     (trim_space (mq_text q) = [] \<or> (let p = ''%'' @ to_lower (trim_space (mq_text q)) @ ''%'' in lower_like (ma_name r) p \<or> lower_like (ma_key r) p)) \<and>
     (case parse_rfc3339 (trim_space (mq_cursor q)) of None \<Rightarrow> True | Some ns \<Rightarrow> ma_created r * 1000000000 < ns))"

definition sql_media_list :: "(string \<Rightarrow> string) \<Rightarrow> (string \<Rightarrow> string \<Rightarrow> bool) \<Rightarrow> int \<Rightarrow> string \<Rightarrow> media_query \<Rightarrow> (go_error, media_table, media_asset list) action" where
  "sql_media_list rank lower_like now c q rows =
    (Inr (take (mq_limit q) (sort_key (\<lambda>a. - ma_created a) (filter (sql_media_match rank lower_like c q) rows))), rows)"

definition sql_media_complete :: "(string \<Rightarrow> string) \<Rightarrow> int \<Rightarrow> string \<Rightarrow> string \<Rightarrow> completion \<Rightarrow> (go_error, media_table, media_asset) action" where
  "sql_media_complete rank now c i k =
    seqE (sql_media_by_company rank c i) (\<lambda>a.
    case may_complete k a of Some e \<Rightarrow> failE e
    | None \<Rightarrow> (\<lambda>rows. (Inr (completed_asset now k a), snd (sql_update (live_row rank c i) (completed_asset now k) rows))))"

definition sql_media_delete :: "(string \<Rightarrow> string) \<Rightarrow> int \<Rightarrow> string \<Rightarrow> string \<Rightarrow> string \<Rightarrow> (go_error, media_table, media_asset) action" where
  "sql_media_delete rank now c i actor =
    seqE (sql_media_by_company rank c i) (\<lambda>a rows.
      (Inr (deleted_asset now actor a), snd (sql_update (live_row rank c i) (deleted_asset now actor) rows)))"

definition sql_media :: "(string \<Rightarrow> string) \<Rightarrow> (string \<Rightarrow> string \<Rightarrow> bool) \<Rightarrow> media_table media_port" where
  "sql_media rank lower_like = \<lparr>mp_create = sql_media_create rank, mp_by_id = sql_media_by_id rank, mp_by_company = sql_media_by_company rank,
     mp_list = sql_media_list rank lower_like, mp_complete = sql_media_complete rank, mp_delete = sql_media_delete rank\<rparr>"

subsection \<open>The files\<close>

type_synonym disk = "string \<rightharpoonup> string"

text \<open>What the handler reads of the request body: its bytes, and whether the client sent all it announced.\<close>

record upload_body =
  ub_bytes :: string
  ub_broken :: bool

text \<open>\<open>Write\<close> copies the body through \<open>MaxBytesReader\<close>: the file keeps what was read before an error.\<close>

definition disk_write :: "string \<Rightarrow> string \<Rightarrow> nat \<Rightarrow> upload_body \<Rightarrow> (go_error, disk, nat) action" where
  "disk_write dir key limit body d = (case resolve_path dir key of
      Inl e \<Rightarrow> (Inl e, d)
    | Inr p \<Rightarrow>
        if limit < length (ub_bytes body) then (Inl (WrapErr ''write media file'' (PlainErr ''http: request body too large'')), d(p \<mapsto> take limit (ub_bytes body)))
        else if ub_broken body then (Inl (WrapErr ''write media file'' (PlainErr ''unexpected EOF'')), d(p \<mapsto> ub_bytes body))
        else (Inr (length (ub_bytes body)), d(p \<mapsto> ub_bytes body)))"

definition disk_exists :: "string \<Rightarrow> string \<Rightarrow> disk \<Rightarrow> bool" where
  "disk_exists dir key d = (case resolve_path dir key of Inl _ \<Rightarrow> False | Inr p \<Rightarrow> d p \<noteq> None)"

definition disk_delete :: "string \<Rightarrow> string \<Rightarrow> (go_error, disk, unit) action" where
  "disk_delete dir key d = (case resolve_path dir key of Inl e \<Rightarrow> (Inl e, d) | Inr p \<Rightarrow> (Inr (), d(p := None)))"

definition new_media_dir :: "string \<Rightarrow> string" where
  "new_media_dir raw = clean_path (if trim_space raw = [] then ''./var/cms-media'' else trim_space raw)"

end
