(* ===== verification/CmsHandlers.thy ===== *)
theory CmsHandlers
  imports HttpRequests AdminService DisclosureService IamService CmsMediaStore "HOL-Library.AList"
begin

section \<open>The HTTP handlers of the CMS\<close>

text \<open>
  Models \<^verbatim>\<open>internal/platformcms/transport/http/handler.go\<close> with \<^verbatim>\<open>audit_actions.go\<close> and \<^verbatim>\<open>metrics.go\<close>:
  every handler takes the subject from the access token, requires \<open>platform.cms.view\<close> and usually one
  of some further permissions, and reads or changes the disclosure records, the memberships, the sessions
  or the audit log. The handler shares the disclosure service's repository and the authorizer with the
  services, so one state holds them all. Parameters: the token inspector and the operations of the IAM
  service it calls; the media part of the state is used in \<open>CmsMedia\<close>.
\<close>

subsection \<open>State and environment\<close>

record route_metric =
  rm_requests :: int
  rm_errors :: int
  rm_average :: int
  rm_status :: int
  rm_latency :: int
  rm_request_id :: string

record ('r, 's, 'a, 'd, 'i, 'm) cms_state =
  cm_svc :: "('r, 's) svc_state"
  cm_admin :: 'd
  cm_iam :: 'i
  cm_audit :: "'a audit_state"
  cm_media :: 'm
  cm_disk :: disk
  cm_uuids :: idgen
  cm_metrics :: "(string \<times> route_metric) list"

record ('r, 's, 'a, 'd, 'i, 'm) cms_env =
  ce_disc :: "('r, 's) disc_env"
  ce_admin :: "('d, 's) admin_env"
  ce_inspect :: "string \<Rightarrow> go_error + access_claims"
  ce_audit :: "'a audit_port"
  ce_list_sessions :: "string \<Rightarrow> string \<Rightarrow> (go_error, 'i, session_view list) action"
  ce_revoke_session :: "string \<Rightarrow> string \<Rightarrow> (go_error, 'i, unit) action"
  ce_media :: "'m media_port"
  ce_hmac :: "string \<Rightarrow> string"
  ce_ttl :: int
  ce_dir :: string
  ce_base_url :: string

text \<open>What an envelope carries as its data.\<close>

record collection =
  cl_id :: string
  cl_count :: int
  cl_latest :: string

datatype cms_data =
    CObject attrs
  | CItems "attrs list"
  | CNamed string "attrs list"
  | CCollections "collection list"
  | CRoles "attrs list" "string list"
  | CMembers "membership_view list"
  | CUser user_view
  | CMetrics "(string \<times> route_metric) list" "string list"
  | CRaw string

text \<open>The status, the data and the meta of an envelope.\<close>

type_synonym envelope = "int \<times> cms_data \<times> attrs"

type_synonym ('r, 's, 'a, 'd, 'i, 'm, 'x) cms = "(go_error, ('r, 's, 'a, 'd, 'i, 'm) cms_state, 'x) action"

definition on_svc :: "('r, 's, 'x) svc_action \<Rightarrow> ('r, 's, 'a, 'd, 'i, 'm, 'x) cms" where
  "on_svc m s = (case m (cm_svc s) of (x, v) \<Rightarrow> (x, s\<lparr>cm_svc := v\<rparr>))"

text \<open>The administration service has its own repository; generator and authorizer are shared.\<close>

definition on_admin :: "('d, 's, 'x) svc_action \<Rightarrow> ('r, 's, 'a, 'd, 'i, 'm, 'x) cms" where
  "on_admin m s = (case m \<lparr>svc_repo = cm_admin s, svc_ids = svc_ids (cm_svc s), svc_auth = svc_auth (cm_svc s)\<rparr> of
     (x, v) \<Rightarrow> (x, s\<lparr>cm_admin := svc_repo v, cm_svc := (cm_svc s)\<lparr>svc_ids := svc_ids v, svc_auth := svc_auth v\<rparr>\<rparr>))"

definition on_iam :: "(go_error, 'i, 'x) action \<Rightarrow> ('r, 's, 'a, 'd, 'i, 'm, 'x) cms" where
  "on_iam m s = (case m (cm_iam s) of (x, v) \<Rightarrow> (x, s\<lparr>cm_iam := v\<rparr>))"

definition on_audit :: "(go_error, 'a, 'x) action \<Rightarrow> ('r, 's, 'a, 'd, 'i, 'm, 'x) cms" where
  "on_audit m s = (case m (au_repo (cm_audit s)) of (x, r) \<Rightarrow> (x, s\<lparr>cm_audit := (cm_audit s)\<lparr>au_repo := r\<rparr>\<rparr>))"

subsection \<open>Access\<close>

definition has_any_permission :: "string list \<Rightarrow> string list \<Rightarrow> bool" where
  "has_any_permission items expected =
    list_ex (\<lambda>c. list_ex (\<lambda>i. equal_fold (trim_space i) (trim_space c)) items) expected"

definition require_any_permission :: "('r, 's, 'a, 'd, 'i, 'm) cms_env \<Rightarrow> access_claims \<Rightarrow> string list \<Rightarrow> ('r, 's, 'a, 'd, 'i, 'm, string list) cms" where
  "require_any_permission env sub perms =
    seqE (on_svc (on_auth (get_effective_access (de_resolve (ce_disc env)) (ac_membership sub) (ac_company sub)))) (\<lambda>eff.
    seqE (chkE (has_any_permission (ea_permissions eff) perms) (access_denied CodePermissionDenied)) (\<lambda>_.
    okE (ea_permissions eff)))"

definition require_cms_access :: "('r, 's, 'a, 'd, 'i, 'm) cms_env \<Rightarrow> access_claims \<Rightarrow> ('r, 's, 'a, 'd, 'i, 'm, string list) cms" where
  "require_cms_access env sub = require_any_permission env sub [''platform.cms.view'']"

text \<open>The start of a handler: the subject and access to the CMS; \<open>enter_with\<close> asks for permissions too.\<close>

definition enter :: "('r, 's, 'a, 'd, 'i, 'm) cms_env \<Rightarrow> http_request \<Rightarrow> ('r, 's, 'a, 'd, 'i, 'm, access_claims) cms" where
  "enter env req =
    seqE (liftE (\<lambda>_. ce_inspect env (bearer_token (hq_authorization req)))) (\<lambda>sub.
    seqE (require_cms_access env sub) (\<lambda>_. okE sub))"

definition enter_with :: "('r, 's, 'a, 'd, 'i, 'm) cms_env \<Rightarrow> http_request \<Rightarrow> string list \<Rightarrow> ('r, 's, 'a, 'd, 'i, 'm, access_claims) cms" where
  "enter_with env req perms = seqE (enter env req) (\<lambda>sub. seqE (require_any_permission env sub perms) (\<lambda>_. okE sub))"

definition reader_permissions :: "string list" where
  "reader_permissions = [''disclosure.view'', ''disclosure.create'', ''disclosure.edit'', ''rbac.manage'', ''system.settings'']"

definition reviewer_permissions :: "string list" where
  "reviewer_permissions = [''disclosure.approve'', ''workflow.step.confirm'', ''rbac.manage'', ''system.settings'']"

definition publisher_permissions :: "string list" where
  "publisher_permissions = [''disclosure.publish'', ''rbac.manage'', ''system.settings'']"

definition operator_permissions :: "string list" where
  "operator_permissions = [''rbac.manage'', ''system.settings'', ''platform.cms.view'']"

definition settings_permissions :: "string list" where
  "settings_permissions = [''system.settings'', ''platform.cms.view'']"

definition manager_permissions :: "string list" where
  "manager_permissions = [''rbac.manage'', ''system.settings'']"

text \<open>An audit entry of the CMS has no request id and no address; its error is dropped.\<close>

definition cms_audit :: "('r, 's, 'a, 'd, 'i, 'm) cms_env \<Rightarrow> access_claims \<Rightarrow> string \<Rightarrow> string \<Rightarrow> string \<Rightarrow> attrs option \<Rightarrow> ('r, 's, 'a, 'd, 'i, 'm, unit) cms" where
  "cms_audit env sub action rtype rid meta s =
    (Inr (), s\<lparr>cm_audit := snd (append_audit_log (ce_audit env) (de_now (ce_disc env))
       \<lparr>lg_event = [], lg_occurred = [], lg_actor = ac_sub sub, lg_membership = ac_membership sub, lg_company = ac_company sub,
        lg_action = action, lg_rtype = rtype, lg_rid = rid, lg_decision = ''allow'', lg_request = [], lg_ip = [], lg_agent = [],
        lg_permissions = None, lg_scope = None, lg_meta = meta\<rparr> (cm_audit s))\<rparr>)"

definition cms_records :: "('r, 's, 'a, 'd, 'i, 'm) cms_env \<Rightarrow> access_claims \<Rightarrow> ('r, 's, 'a, 'd, 'i, 'm, disclosure_record list) cms" where
  "cms_records env sub = on_svc (on_repo (dp_list (de_port (ce_disc env)) (ac_company sub)))"

definition total :: "'x list \<Rightarrow> attrs" where
  "total xs = [(''total'', AInt (int (length xs)))]"

text \<open>The path value a handler needs.\<close>

definition need_value :: "string \<Rightarrow> string \<Rightarrow> ('r, 's, 'a, 'd, 'i, 'm, string) cms" where
  "need_value v what = (if trim_space v = [] then failE (bad_request (what @ '' is required'')) else okE (trim_space v))"

text \<open>A body whose decoding failed is answered 400.\<close>

definition decoded :: "string + 'x \<Rightarrow> ('r, 's, 'a, 'd, 'i, 'm, 'x) cms" where
  "decoded body = (case body of Inl e \<Rightarrow> failE (HTTPErr 400 CodeInvalidRequest ''invalid JSON payload'' [] (Some (PlainErr e))) | Inr x \<Rightarrow> okE x)"

subsection \<open>Reading records\<close>

definition state_word :: "disclosure_record \<Rightarrow> string" where
  "state_word r = to_lower (trim_space (dr_status r))"

definition type_or_general :: "disclosure_record \<Rightarrow> string" where
  "type_or_general r = (if trim_space (dr_type r) = [] then ''general'' else trim_space (dr_type r))"

definition count_if :: "('x \<Rightarrow> bool) \<Rightarrow> 'x list \<Rightarrow> goany" where
  "count_if P xs = AInt (int (length (filter P xs)))"

definition dashboard_data :: "disclosure_record list \<Rightarrow> attrs" where
  "dashboard_data rs =
    [(''total'', AInt (int (length rs))), (''draft'', count_if (\<lambda>r. state_word r = ''draft'') rs),
     (''published'', count_if (\<lambda>r. state_word r \<in> {''published'', ''submitted''}) rs),
     (''completed'', count_if (\<lambda>r. state_word r \<in> {''completed'', ''confirmed''}) rs), (''platform_cms'', ABool True)]"

definition dashboard_summary :: "('r, 's, 'a, 'd, 'i, 'm) cms_env \<Rightarrow> http_request \<Rightarrow> ('r, 's, 'a, 'd, 'i, 'm, envelope) cms" where
  "dashboard_summary env req = seqE (enter env req) (\<lambda>sub. seqE (cms_records env sub) (\<lambda>rs. okE (200, CObject (dashboard_data rs), [])))"

text \<open>The map of the collections, an entry per type, and its sorted values.\<close>

definition bump :: "disclosure_record \<Rightarrow> (string \<times> collection) list \<Rightarrow> (string \<times> collection) list" where
  "bump r agg =
    (let k = type_or_general r; u = rfc3339 (dr_updated_at r);
         c = (case map_of agg k of None \<Rightarrow> \<lparr>cl_id = k, cl_count = 0, cl_latest = []\<rparr> | Some c \<Rightarrow> c) in
     AList.update k (c\<lparr>cl_count := cl_count c + 1, cl_latest := (if cl_latest c = [] \<or> cl_latest c < u then u else cl_latest c)\<rparr>) agg)"

definition collection_less :: "collection \<Rightarrow> collection \<Rightarrow> bool" where
  "collection_less a b = (if cl_count a = cl_count b then cl_id a < cl_id b else cl_count b < cl_count a)"

text \<open>\<open>sort.Slice\<close> with a comparison.\<close>

fun insert_by :: "('x \<Rightarrow> 'x \<Rightarrow> bool) \<Rightarrow> 'x \<Rightarrow> 'x list \<Rightarrow> 'x list" where
  "insert_by lt x [] = [x]"
| "insert_by lt x (y # ys) = (if lt y x then y # insert_by lt x ys else x # y # ys)"

definition sort_slice :: "('x \<Rightarrow> 'x \<Rightarrow> bool) \<Rightarrow> 'x list \<Rightarrow> 'x list" where
  "sort_slice lt xs = foldr (insert_by lt) xs []"

definition collect :: "disclosure_record list \<Rightarrow> collection list" where
  "collect rs = sort_slice collection_less (map snd (fold bump rs []))"

definition collections :: "('r, 's, 'a, 'd, 'i, 'm) cms_env \<Rightarrow> http_request \<Rightarrow> ('r, 's, 'a, 'd, 'i, 'm, envelope) cms" where
  "collections env req = seqE (enter_with env req reader_permissions) (\<lambda>sub. seqE (cms_records env sub) (\<lambda>rs.
    okE (200, CCollections (collect rs), total (collect rs))))"

definition entry_row :: "disclosure_record \<Rightarrow> string \<Rightarrow> attrs" where
  "entry_row r tid = [(''entry_id'', AStr (dr_id r)), (''title'', AStr (dr_title r)), (''status'', AStr (dr_status r)),
     (''type_id'', AStr tid), (''updated_at'', AStr (rfc3339 (dr_updated_at r)))]"

definition collection_detail :: "('r, 's, 'a, 'd, 'i, 'm) cms_env \<Rightarrow> http_request \<Rightarrow> string \<Rightarrow> ('r, 's, 'a, 'd, 'i, 'm, envelope) cms" where
  "collection_detail env req cid0 =
    seqE (enter_with env req reader_permissions) (\<lambda>sub. seqE (need_value cid0 ''collection_id'') (\<lambda>cid. seqE (cms_records env sub) (\<lambda>rs.
    let rows = map (\<lambda>r. entry_row r (type_or_general r)) (filter (\<lambda>r. equal_fold (type_or_general r) cid) rs) in
    okE (200, CNamed cid rows, total rows))))"

definition entries :: "('r, 's, 'a, 'd, 'i, 'm) cms_env \<Rightarrow> http_request \<Rightarrow> ('r, 's, 'a, 'd, 'i, 'm, envelope) cms" where
  "entries env req =
    seqE (enter_with env req reader_permissions) (\<lambda>sub. seqE (cms_records env sub) (\<lambda>rs.
    let rows = map (\<lambda>r. entry_row r (type_or_general r) @ [(''company_id'', AStr (dr_company r)), (''record_id'', AStr (dr_id r))]) rs in
    okE (200, CItems rows, total rows)))"

definition cms_find :: "('r, 's, 'a, 'd, 'i, 'm) cms_env \<Rightarrow> access_claims \<Rightarrow> string \<Rightarrow> ('r, 's, 'a, 'd, 'i, 'm, disclosure_record) cms" where
  "cms_find env sub eid = on_svc (on_repo (dp_find (de_port (ce_disc env)) (ac_company sub) eid))"

definition entry_detail :: "('r, 's, 'a, 'd, 'i, 'm) cms_env \<Rightarrow> http_request \<Rightarrow> string \<Rightarrow> ('r, 's, 'a, 'd, 'i, 'm, envelope) cms" where
  "entry_detail env req eid0 =
    seqE (enter_with env req reader_permissions) (\<lambda>sub. seqE (need_value eid0 ''entry_id'') (\<lambda>eid. seqE (cms_find env sub eid) (\<lambda>r.
    okE (200, CObject [(''entry_id'', AStr (dr_id r)), (''title'', AStr (dr_title r)), (''summary'', AStr (dr_summary r)),
      (''content'', AStr (dr_content r)), (''status'', AStr (dr_status r)), (''type_id'', AStr (dr_type r)),
      (''planned_date'', AStr (dr_planned r)), (''published_date'', AStr (dr_published r)), (''updated_at'', AStr (rfc3339 (dr_updated_at r)))], []))))"

definition reviews :: "('r, 's, 'a, 'd, 'i, 'm) cms_env \<Rightarrow> http_request \<Rightarrow> ('r, 's, 'a, 'd, 'i, 'm, envelope) cms" where
  "reviews env req =
    seqE (enter_with env req reviewer_permissions) (\<lambda>sub. seqE (cms_records env sub) (\<lambda>rs.
    let rows = map (\<lambda>r. entry_row r (dr_type r)) (filter (\<lambda>r. state_word r \<in> {''published'', ''submitted''}) rs) in
    okE (200, CItems rows, total rows)))"

definition schedules :: "('r, 's, 'a, 'd, 'i, 'm) cms_env \<Rightarrow> http_request \<Rightarrow> ('r, 's, 'a, 'd, 'i, 'm, envelope) cms" where
  "schedules env req =
    seqE (enter_with env req publisher_permissions) (\<lambda>sub. seqE (cms_records env sub) (\<lambda>rs.
    let rows = map (\<lambda>r. [(''entry_id'', AStr (dr_id r)), (''publish_at'', AStr (dr_planned r)), (''status'', AStr (dr_status r)),
      (''title'', AStr (dr_title r)), (''updated_at'', AStr (rfc3339 (dr_updated_at r)))]) (filter (\<lambda>r. trim_space (dr_planned r) \<noteq> []) rs) in
    okE (200, CItems rows, total rows)))"

definition release_row :: "disclosure_record \<Rightarrow> attrs" where
  "release_row r = [(''entry_id'', AStr (dr_id r)), (''title'', AStr (dr_title r)), (''status'', AStr (dr_status r)), (''type_id'', AStr (dr_type r)),
     (''published_date'', AStr (trim_space (dr_published r))), (''updated_at'', AStr (rfc3339 (dr_updated_at r)))]"

definition release_less :: "attrs \<Rightarrow> attrs \<Rightarrow> bool" where
  "release_less a b =
    (let l = trim_space (attr_str a ''published_date''); r = trim_space (attr_str b ''published_date'') in
     if l = r then attr_str a ''entry_id'' < attr_str b ''entry_id'' else r < l)"

definition release_rows :: "string \<Rightarrow> disclosure_record list \<Rightarrow> attrs list" where
  "release_rows eid rs = sort_slice release_less (map release_row
     (filter (\<lambda>r. state_word r \<in> {''published'', ''completed'', ''confirmed''} \<and> (trim_space eid = [] \<or> equal_fold (trim_space eid) (dr_id r))) rs))"

definition releases :: "('r, 's, 'a, 'd, 'i, 'm) cms_env \<Rightarrow> http_request \<Rightarrow> string \<Rightarrow> ('r, 's, 'a, 'd, 'i, 'm, envelope) cms" where
  "releases env req eid =
    seqE (enter_with env req publisher_permissions) (\<lambda>sub. seqE (cms_records env sub) (\<lambda>rs.
    okE (200, CItems (release_rows eid rs), total (release_rows eid rs))))"

subsection \<open>Changing records\<close>

definition saved_row :: "disclosure_record \<Rightarrow> attrs" where
  "saved_row r = [(''entry_id'', AStr (dr_id r)), (''record_id'', AStr (dr_id r)), (''title'', AStr (dr_title r)), (''status'', AStr (dr_status r)),
     (''type_id'', AStr (dr_type r)), (''updated_at'', AStr (rfc3339 (dr_updated_at r)))]"

definition record_meta :: "disclosure_record \<Rightarrow> attrs option" where
  "record_meta r = Some [(''type_id'', AStr (dr_type r)), (''title'', AStr (dr_title r))]"

definition create_entry :: "('r, 's, 'a, 'd, 'i, 'm) cms_env \<Rightarrow> http_request \<Rightarrow> string + record_payload \<Rightarrow> ('r, 's, 'a, 'd, 'i, 'm, envelope) cms" where
  "create_entry env req body =
    seqE (enter env req) (\<lambda>sub. seqE (decoded body) (\<lambda>pl.
    seqE (on_svc (create_record (ce_disc env) (claims_subject sub) pl)) (\<lambda>r.
    seqE (cms_audit env sub ''cms.entry.create'' ''disclosure_record'' (dr_id r) (record_meta r)) (\<lambda>_.
    okE (201, CObject (saved_row r), [])))))"

definition update_entry :: "('r, 's, 'a, 'd, 'i, 'm) cms_env \<Rightarrow> http_request \<Rightarrow> string \<Rightarrow> string + record_payload \<Rightarrow> ('r, 's, 'a, 'd, 'i, 'm, envelope) cms" where
  "update_entry env req eid0 body =
    seqE (enter env req) (\<lambda>sub. seqE (need_value eid0 ''entry_id'') (\<lambda>eid. seqE (decoded body) (\<lambda>pl.
    seqE (on_svc (update_record (ce_disc env) (claims_subject sub) eid pl)) (\<lambda>r.
    seqE (cms_audit env sub ''cms.entry.update'' ''disclosure_record'' (dr_id r) (record_meta r)) (\<lambda>_.
    okE (200, CObject (saved_row r), []))))))"

text \<open>The changes the handler makes itself go to the repository, not to the service.\<close>

definition cms_save :: "('r, 's, 'a, 'd, 'i, 'm) cms_env \<Rightarrow> disclosure_record \<Rightarrow> ('r, 's, 'a, 'd, 'i, 'm, disclosure_record) cms" where
  "cms_save env r = on_svc (on_repo (dp_update (de_port (ce_disc env)) (de_now (ce_disc env)) r))"

definition decided_row :: "disclosure_record \<Rightarrow> string \<Rightarrow> attrs" where
  "decided_row r decision = [(''entry_id'', AStr (dr_id r)), (''status'', AStr (dr_status r)), (''decision'', AStr decision)]"

definition approve_entry :: "('r, 's, 'a, 'd, 'i, 'm) cms_env \<Rightarrow> access_claims \<Rightarrow> string \<Rightarrow> ('r, 's, 'a, 'd, 'i, 'm, envelope) cms" where
  "approve_entry env sub eid =
    seqE (on_svc (confirm_record (ce_disc env) (claims_subject sub) eid)) (\<lambda>r.
    seqE (cms_audit env sub ''cms.review.approve'' ''disclosure_record'' (dr_id r) None) (\<lambda>_.
    okE (200, CObject (decided_row r ''approve''), [])))"

definition reject_entry :: "('r, 's, 'a, 'd, 'i, 'm) cms_env \<Rightarrow> access_claims \<Rightarrow> string \<Rightarrow> ('r, 's, 'a, 'd, 'i, 'm, envelope) cms" where
  "reject_entry env sub eid =
    seqE (cms_find env sub eid) (\<lambda>r.
    seqE (require_any_permission env sub reviewer_permissions) (\<lambda>_.
    seqE (cms_save env (r\<lparr>dr_status := ''Draft'', dr_updated_by := ac_sub sub\<rparr>)) (\<lambda>next.
    seqE (cms_audit env sub ''cms.review.reject'' ''disclosure_record'' (dr_id next) None) (\<lambda>_.
    okE (200, CObject (decided_row next ''reject''), [])))))"

definition review_action :: "('r, 's, 'a, 'd, 'i, 'm) cms_env \<Rightarrow> http_request \<Rightarrow> string \<Rightarrow> string + string \<Rightarrow> ('r, 's, 'a, 'd, 'i, 'm, envelope) cms" where
  "review_action env req eid0 body =
    seqE (enter env req) (\<lambda>sub. seqE (need_value eid0 ''entry_id'') (\<lambda>eid. seqE (decoded body) (\<lambda>raw.
    let d = to_lower (trim_space raw); decision = (if d = [] then ''approve'' else d) in
    if decision = ''approve'' then approve_entry env sub eid
    else if decision = ''reject'' then reject_entry env sub eid
    else failE (bad_request ''decision must be approve or reject''))))"

definition planned_row :: "disclosure_record \<Rightarrow> attrs" where
  "planned_row r = [(''entry_id'', AStr (dr_id r)), (''publish_at'', AStr (dr_planned r)), (''status'', AStr (dr_status r))]"

text \<open>The body of a new schedule: the entry and the date.\<close>

definition create_schedule :: "('r, 's, 'a, 'd, 'i, 'm) cms_env \<Rightarrow> http_request \<Rightarrow> string + string \<times> string \<Rightarrow> ('r, 's, 'a, 'd, 'i, 'm, envelope) cms" where
  "create_schedule env req body =
    seqE (enter_with env req publisher_permissions) (\<lambda>sub. seqE (decoded body) (\<lambda>(eid0, date0).
    let eid = trim_space eid0; date = trim_space date0 in
    seqE (chkE (eid \<noteq> [] \<and> date \<noteq> []) (bad_request ''entry_id and publish_at are required'')) (\<lambda>_.
    seqE (chkE (parse_date date \<noteq> None) (HTTPErr 400 CodeInvalidRequest ''publish_at must be YYYY-MM-DD'' [] (Some (PlainErr ''parsing time'')))) (\<lambda>_.
    seqE (cms_find env sub eid) (\<lambda>r.
    seqE (cms_save env (r\<lparr>dr_planned := date, dr_updated_by := ac_sub sub\<rparr>)) (\<lambda>next.
    seqE (cms_audit env sub ''cms.schedule.create'' ''disclosure_record'' (dr_id next) (Some [(''publish_at'', AStr (dr_planned next))])) (\<lambda>_.
    okE (201, CObject (planned_row next), []))))))))"

definition delete_schedule :: "('r, 's, 'a, 'd, 'i, 'm) cms_env \<Rightarrow> http_request \<Rightarrow> string \<Rightarrow> ('r, 's, 'a, 'd, 'i, 'm, envelope) cms" where
  "delete_schedule env req eid0 =
    seqE (enter_with env req publisher_permissions) (\<lambda>sub. seqE (need_value eid0 ''entry_id'') (\<lambda>eid.
    seqE (cms_find env sub eid) (\<lambda>r.
    seqE (cms_save env (r\<lparr>dr_planned := [], dr_updated_by := ac_sub sub\<rparr>)) (\<lambda>next.
    seqE (cms_audit env sub ''cms.schedule.delete'' ''disclosure_record'' (dr_id next) None) (\<lambda>_.
    okE (200, CObject (planned_row next), []))))))"

subsection \<open>Administration and operation\<close>

definition role_less :: "attrs \<Rightarrow> attrs \<Rightarrow> bool" where
  "role_less a b = (attr_str a ''role_code'' < attr_str b ''role_code'')"

definition own_access :: "('r, 's, 'a, 'd, 'i, 'm) cms_env \<Rightarrow> access_claims \<Rightarrow> ('r, 's, 'a, 'd, 'i, 'm, effective_access) cms" where
  "own_access env sub = on_svc (on_auth (get_effective_access (de_resolve (ce_disc env)) (ac_membership sub) (ac_company sub)))"

definition cms_roles :: "('r, 's, 'a, 'd, 'i, 'm) cms_env \<Rightarrow> http_request \<Rightarrow> ('r, 's, 'a, 'd, 'i, 'm, envelope) cms" where
  "cms_roles env req =
    seqE (enter_with env req operator_permissions) (\<lambda>sub. seqE (own_access env sub) (\<lambda>eff.
    let rows = sort_slice role_less (map (\<lambda>c. [(''role_code'', AStr c), (''role_name'', AStr c)]) (ea_responsibilities eff)) in
    okE (200, CRoles rows (ea_permissions eff), total rows)))"

definition rule_rows :: "string list \<Rightarrow> attrs list" where
  "rule_rows perms =
    [[(''rule_id'', AStr ''cms-entry-gate''), (''name'', AStr ''CMS Entry Gate''),
      (''description'', AStr ''Require explicit platform.cms.view at route entry-level''), (''enabled'', ABool True),
      (''permissions'', AList [AStr ''platform.cms.view''])],
     [(''rule_id'', AStr ''cms-role-sync''), (''name'', AStr ''Role Sync''),
      (''description'', AStr ''Keep CMS actions bounded by effective access permissions''), (''enabled'', ABool True),
      (''permissions'', AList (map AStr perms))]]"

definition cms_rules :: "('r, 's, 'a, 'd, 'i, 'm) cms_env \<Rightarrow> http_request \<Rightarrow> ('r, 's, 'a, 'd, 'i, 'm, envelope) cms" where
  "cms_rules env req =
    seqE (enter_with env req settings_permissions) (\<lambda>sub. seqE (own_access env sub) (\<lambda>eff.
    okE (200, CItems (rule_rows (ea_permissions eff)), total (rule_rows (ea_permissions eff)))))"

definition validate_rule :: "('r, 's, 'a, 'd, 'i, 'm) cms_env \<Rightarrow> http_request \<Rightarrow> string + string \<times> string list \<Rightarrow> ('r, 's, 'a, 'd, 'i, 'm, envelope) cms" where
  "validate_rule env req body =
    seqE (enter_with env req settings_permissions) (\<lambda>sub. seqE (decoded body) (\<lambda>(name0, perms).
    let name = trim_space name0 in
    seqE (chkE (name \<noteq> []) (bad_request ''name is required'')) (\<lambda>_.
    seqE (chkE (perms \<noteq> []) (bad_request ''permissions are required'')) (\<lambda>_.
    seqE (cms_audit env sub ''cms.rule.validate'' ''cms_rule'' name (Some [(''permission_count'', AInt (int (length perms)))])) (\<lambda>_.
    okE (200, CObject [(''valid'', ABool True), (''name'', AStr name), (''permissions'', AList (map AStr perms))], []))))))"

definition cms_known_actions :: "string list" where
  "cms_known_actions = [''cms.entry.create'', ''cms.entry.update'', ''cms.review.approve'', ''cms.review.reject'', ''cms.schedule.create'',
     ''cms.schedule.delete'', ''cms.rule.validate'', ''cms.session.revoke'', ''cms.media.upload.intent'', ''cms.media.upload.complete'',
     ''cms.media.delete'', ''disclosure.type.version.upsert'', ''disclosure.type.version.activate'']"

definition parse_positive_int :: "string \<Rightarrow> int \<Rightarrow> int \<Rightarrow> int" where
  "parse_positive_int raw fallback most = (case atoi (trim_space raw) of
      None \<Rightarrow> fallback | Some n \<Rightarrow> if n \<le> 0 then fallback else if most < n then most else n)"

definition log_row :: "audit_entry \<Rightarrow> attrs" where
  "log_row e = [(''event_id'', AStr (lg_event e)), (''action'', AStr (lg_action e)), (''actor'', AStr (lg_actor e)), (''company_id'', AStr (lg_company e)),
     (''resource_type'', AStr (lg_rtype e)), (''resource_id'', AStr (lg_rid e)), (''decision'', AStr (lg_decision e)),
     (''request_id'', AStr (lg_request e)), (''created_at'', AStr (lg_occurred e)),
     (''metadata'', case lg_meta e of None \<Rightarrow> ANil | Some m \<Rightarrow> AMap m)]"

definition page_meta :: "'x list \<Rightarrow> int \<Rightarrow> string option \<Rightarrow> attrs" where
  "page_meta xs limit cursor = [(''total'', AInt (int (length xs))), (''limit'', AInt limit),
     (''next_cursor'', case cursor of None \<Rightarrow> ANil | Some c \<Rightarrow> AStr c)]"

definition audit_logs :: "('r, 's, 'a, 'd, 'i, 'm) cms_env \<Rightarrow> http_request \<Rightarrow> audit_query \<Rightarrow> string \<Rightarrow> ('r, 's, 'a, 'd, 'i, 'm, envelope) cms" where
  "audit_logs env req q raw_limit =
    seqE (enter_with env req operator_permissions) (\<lambda>sub.
    let limit = parse_positive_int raw_limit 50 200; action = trim_space (aq_action q) in
    seqE (chkE (action = [] \<or> List.member cms_known_actions action) (bad_request ''unsupported action filter'')) (\<lambda>_.
    seqE (on_audit (ap_list (ce_audit env) \<lparr>aq_company = ac_company sub, aq_action = action, aq_rtype = trim_space (aq_rtype q),
      aq_rid = trim_space (aq_rid q), aq_from = trim_space (aq_from q), aq_to = trim_space (aq_to q), aq_cursor = trim_space (aq_cursor q), aq_limit = limit\<rparr>)) (\<lambda>es.
    okE (200, CItems (map log_row es), page_meta es limit (next_cursor (nat limit) es)))))"

definition system_metrics :: "('r, 's, 'a, 'd, 'i, 'm) cms_env \<Rightarrow> http_request \<Rightarrow> ('r, 's, 'a, 'd, 'i, 'm, envelope) cms" where
  "system_metrics env req =
    seqE (enter_with env req settings_permissions) (\<lambda>_ s. (Inr (200, CMetrics (cm_metrics s) (sort cms_known_actions), []), s))"

definition first_nonempty :: "string \<Rightarrow> string \<Rightarrow> string" where
  "first_nonempty a b = (if trim_space a \<noteq> [] then a else b)"

definition cms_sessions :: "('r, 's, 'a, 'd, 'i, 'm) cms_env \<Rightarrow> http_request \<Rightarrow> ('r, 's, 'a, 'd, 'i, 'm, envelope) cms" where
  "cms_sessions env req =
    seqE (enter_with env req operator_permissions) (\<lambda>sub.
    seqE (on_iam (ce_list_sessions env (ac_sub sub) (ac_session sub))) (\<lambda>vs.
    let rows = map (\<lambda>v. [(''session_id'', AStr (sv_id v)), (''user_id'', AStr (ac_sub sub)), (''company_id'', AStr (first_nonempty (sv_company v) (ac_company sub))),
      (''status'', AStr (if sv_revoked v then ''revoked'' else ''active'')), (''last_seen_at'', AStr (rfc3339 (de_now (ce_disc env))))]) vs in
    okE (200, CItems rows, total rows)))"

definition cms_revoke_session :: "('r, 's, 'a, 'd, 'i, 'm) cms_env \<Rightarrow> http_request \<Rightarrow> string \<Rightarrow> ('r, 's, 'a, 'd, 'i, 'm, envelope) cms" where
  "cms_revoke_session env req sid0 =
    seqE (enter_with env req operator_permissions) (\<lambda>sub. seqE (need_value sid0 ''session_id'') (\<lambda>sid.
    seqE (on_iam (ce_revoke_session env (ac_sub sub) sid)) (\<lambda>_.
    seqE (cms_audit env sub ''cms.session.revoke'' ''session'' sid None) (\<lambda>_.
    okE (200, CObject [(''session_id'', AStr sid), (''status'', AStr ''revoked'')], [])))))"

text \<open>The health probes run and their errors only change the status they report.\<close>

definition probe :: "('r, 's, 'a, 'd, 'i, 'm, 'x) cms \<Rightarrow> ('r, 's, 'a, 'd, 'i, 'm, goany) cms" where
  "probe m s = (case m s of (Inl _, s') \<Rightarrow> (Inr (AStr ''degraded''), s') | (Inr _, s') \<Rightarrow> (Inr (AStr ''healthy''), s'))"

definition system_health :: "('r, 's, 'a, 'd, 'i, 'm) cms_env \<Rightarrow> http_request \<Rightarrow> ('r, 's, 'a, 'd, 'i, 'm, envelope) cms" where
  "system_health env req =
    seqE (enter_with env req settings_permissions) (\<lambda>sub. seqE (probe (own_access env sub)) (\<lambda>api. seqE (probe (cms_records env sub)) (\<lambda>db s.
    (let rows = [[(''component'', AStr ''api''), (''status'', api)], [(''component'', AStr ''db''), (''status'', db)],
       [(''component'', AStr ''cache''), (''status'', AStr ''degraded'')],
       [(''component'', AStr ''cms_observability''), (''status'', AStr ''healthy''),
        (''meta'', AMap [(''trace_header'', AStr ''X-Request-Id''), (''route_count'', AInt (int (length (cm_metrics s))))])]] in
     (Inr (200, CItems rows, total rows), s)))))"

definition admin_users :: "('r, 's, 'a, 'd, 'i, 'm) cms_env \<Rightarrow> http_request \<Rightarrow> string \<Rightarrow> ('r, 's, 'a, 'd, 'i, 'm, envelope) cms" where
  "admin_users env req company =
    seqE (enter_with env req manager_permissions) (\<lambda>sub.
    seqE (on_admin (list_company_memberships (ce_admin env) (claims_subject sub) (if trim_space company = [] then ac_company sub else trim_space company))) (\<lambda>ms.
    okE (200, CMembers ms, total ms)))"

definition create_admin_user :: "('r, 's, 'a, 'd, 'i, 'm) cms_env \<Rightarrow> http_request \<Rightarrow> string + create_user_request \<Rightarrow> ('r, 's, 'a, 'd, 'i, 'm, envelope) cms" where
  "create_admin_user env req body =
    seqE (enter_with env req manager_permissions) (\<lambda>sub. seqE (decoded body) (\<lambda>p.
    seqE (on_admin (admin_create_user (ce_admin env) (claims_subject sub) p)) (\<lambda>u. okE (201, CUser u, []))))"

subsection \<open>Metrics\<close>

definition new_metric :: route_metric where
  "new_metric = \<lparr>rm_requests = 0, rm_errors = 0, rm_average = 0, rm_status = 0, rm_latency = 0, rm_request_id = []\<rparr>"

definition record_route :: "string \<Rightarrow> string \<Rightarrow> int \<Rightarrow> int \<Rightarrow> (string \<times> route_metric) list \<Rightarrow> (string \<times> route_metric) list" where
  "record_route route rid status ms metrics =
    (let m = (case map_of metrics route of None \<Rightarrow> new_metric | Some m \<Rightarrow> m); n = rm_requests m + 1 in
     AList.update route (m\<lparr>rm_requests := n, rm_errors := (if 400 \<le> status then rm_errors m + 1 else rm_errors m),
       rm_status := status, rm_latency := ms, rm_request_id := rid,
       rm_average := (if n = 1 then ms else (rm_average m * (n - 1) + ms) div n)\<rparr>) metrics)"

definition reply_status :: "'b reply \<Rightarrow> int" where
  "reply_status rep = (case rep of Inl er \<Rightarrow> er_status er | Inr (st, _) \<Rightarrow> st)"

text \<open>Every route is served through \<open>observe\<close>; the time it takes is given.\<close>

definition observe :: "string \<Rightarrow> http_request \<Rightarrow> int \<Rightarrow> ('r, 's, 'a, 'd, 'i, 'm, envelope) cms \<Rightarrow>
    ('r, 's, 'a, 'd, 'i, 'm) cms_state \<Rightarrow> (cms_data \<times> attrs) reply \<times> ('r, 's, 'a, 'd, 'i, 'm) cms_state" where
  "observe route req ms h s = (case respond h s of (rep, s') \<Rightarrow>
     (rep, s'\<lparr>cm_metrics := record_route route (hq_request_id req) (reply_status rep) ms (cm_metrics s')\<rparr>))"

end
