(* ===== verification/CmsMedia.thy ===== *)
theory CmsMedia
  imports CmsHandlers
begin

section \<open>Media uploads of the CMS\<close>

text \<open>
  Models \<^verbatim>\<open>internal/platformcms/transport/http/media_handler.go\<close> and the signer of \<^verbatim>\<open>media_security.go\<close>. An
  upload is announced, which stores a pending asset and answers a signed URL; the bytes are put under
  the URL without a token; a second call completes the asset. The HMAC of the signer is a parameter. The
  method is only ever compared with PUT, so its upper case is taken on ASCII; the escaping of an asset
  identifier in the path is the identity, as it holds letters, digits and underscores only.
\<close>

subsection \<open>Signing\<close>

definition to_upper :: "string \<Rightarrow> string" where
  "to_upper = map char_upper"

definition signing_payload :: "string \<Rightarrow> string \<Rightarrow> string \<Rightarrow> string \<Rightarrow> int \<Rightarrow> int \<Rightarrow> string" where
  "signing_payload asset company meth ctype sz expiry =
     trim_space asset @ ''|'' @ trim_space company @ ''|'' @ to_upper (trim_space meth) @ ''|'' @ to_lower (trim_space ctype) @ ''|'' @ itoa sz @ ''|'' @ itoa expiry"

definition sign_upload :: "('r, 's, 'a, 'd, 'i, 'm) cms_env \<Rightarrow> string \<Rightarrow> string \<Rightarrow> string \<Rightarrow> string \<Rightarrow> int \<Rightarrow> int \<Rightarrow> string" where
  "sign_upload env asset company meth ctype sz expiry = ce_hmac env (signing_payload asset company meth ctype sz expiry)"

definition verify_upload :: "('r, 's, 'a, 'd, 'i, 'm) cms_env \<Rightarrow> string \<Rightarrow> string \<Rightarrow> string \<Rightarrow> string \<Rightarrow> string \<Rightarrow> int \<Rightarrow> int \<Rightarrow> bool" where
  "verify_upload env sig asset company meth ctype sz expiry =
     (to_lower (trim_space sig) = sign_upload env asset company meth ctype sz expiry)"

text \<open>The key and the time to live a signer is built with: blank settings read as fixed ones.\<close>

definition signer_secret :: "string \<Rightarrow> string" where
  "signer_secret secret = (if trim_space secret = [] then ''dev-cms-media-secret'' else trim_space secret)"

definition signer_ttl :: "int \<Rightarrow> int" where
  "signer_ttl ttl = (if ttl \<le> 0 then 600 else ttl)"

subsection \<open>Announcing an upload\<close>

definition allowed_types :: "string list" where
  "allowed_types = [''application/pdf'', ''image/gif'', ''image/jpeg'', ''image/png'', ''image/webp'', ''text/plain'']"

definition max_media_size :: int where
  "max_media_size = 20 * 1024 * 1024"

record media_intent =
  mi_name :: string
  mi_type :: string
  mi_size :: int
  mi_context :: string

text \<open>Where the request came to: the headers of a proxy, the host, and whether it came over TLS.\<close>

record origin =
  og_proto :: string
  og_fhost :: string
  og_host :: string
  og_tls :: bool

definition request_base_url :: "string \<Rightarrow> origin \<Rightarrow> string" where
  "request_base_url configured o' =
    (if trim_space configured \<noteq> [] then trim_right_char (CHR ''/'') (trim_space configured)
     else (if equal_fold (trim_space (og_proto o')) ''https'' \<or> og_tls o' then ''https'' else ''http'') @ ''://'' @
       (if trim_space (og_fhost o') = [] then trim_space (og_host o') else trim_space (og_fhost o')))"

definition new_asset_id :: "string \<Rightarrow> string" where
  "new_asset_id u = ''asset_'' @ filter (\<lambda>c. c \<noteq> CHR ''-'') u"

definition upload_url :: "string \<Rightarrow> string \<Rightarrow> int \<Rightarrow> string \<Rightarrow> string \<Rightarrow> string \<Rightarrow> int \<Rightarrow> string" where
  "upload_url base asset expiry sig company ctype sz =
     base @ ''/api/v1/platform/cms/media/upload/'' @ asset @ ''?exp='' @ itoa expiry @ ''&sig='' @ query_escape sig @ ''&company_id='' @ query_escape company @
     ''&method=PUT&content_type='' @ query_escape ctype @ ''&size_bytes='' @ itoa sz"

definition pending_asset :: "('r, 's, 'a, 'd, 'i, 'm) cms_env \<Rightarrow> access_claims \<Rightarrow> origin \<Rightarrow> media_intent \<Rightarrow> string \<Rightarrow> media_asset" where
  "pending_asset env sub o' p asset =
    (let now = de_now (ce_disc env); expiry = now + ce_ttl env; ctype = to_lower (trim_space (mi_type p)); name = sanitize_file_name (mi_name p);
         sig = sign_upload env asset (ac_company sub) ''PUT'' ctype (mi_size p) expiry in
     \<lparr>ma_id = asset, ma_company = ac_company sub, ma_name = name, ma_type = ctype, ma_size = mi_size p, ma_context = trim_space (mi_context p),
      ma_key = object_key (ac_company sub) asset name,
      ma_url = upload_url (request_base_url (ce_base_url env) o') asset expiry sig (ac_company sub) ctype (mi_size p),
      ma_method = ''PUT'', ma_state = ''pending_upload'', ma_created = now, ma_completed = None, ma_deleted = None,
      ma_updated_by = ac_sub sub, ma_etag = [], ma_checksum = [], ma_expires = expiry\<rparr>)"

definition next_asset_id :: "('r, 's, 'a, 'd, 'i, 'm, string) cms" where
  "next_asset_id s = (case new_uuid (cm_uuids s) of (u, g) \<Rightarrow> (Inr (new_asset_id u), s\<lparr>cm_uuids := g\<rparr>))"

definition on_media :: "(go_error, 'm, 'x) action \<Rightarrow> ('r, 's, 'a, 'd, 'i, 'm, 'x) cms" where
  "on_media m s = (case m (cm_media s) of (x, r) \<Rightarrow> (x, s\<lparr>cm_media := r\<rparr>))"

definition on_disk :: "(go_error, disk, 'x) action \<Rightarrow> ('r, 's, 'a, 'd, 'i, 'm, 'x) cms" where
  "on_disk m s = (case m (cm_disk s) of (x, r) \<Rightarrow> (x, s\<lparr>cm_disk := r\<rparr>))"

definition intent_data :: "media_asset \<Rightarrow> attrs" where
  "intent_data a =
    [(''asset_id'', AStr (ma_id a)), (''object_key'', AStr (ma_key a)), (''content_type'', AStr (ma_type a)), (''size_bytes'', AInt (ma_size a)),
     (''state'', AStr (ma_state a)),
     (''upload'', AMap [(''method'', AStr (ma_method a)), (''url'', AStr (ma_url a)), (''headers'', AMap [(''content-type'', AStr (ma_type a))]),
       (''expires_at'', AStr (rfc3339 (ma_expires a)))]),
     (''constraints'', AMap [(''max_size_bytes'', AInt max_media_size), (''allowed_content_type'', AList (map AStr allowed_types))])]"

definition create_media_upload_intent :: "('r, 's, 'a, 'd, 'i, 'm) cms_env \<Rightarrow> http_request \<Rightarrow> origin \<Rightarrow> string + media_intent \<Rightarrow> ('r, 's, 'a, 'd, 'i, 'm, envelope) cms" where
  "create_media_upload_intent env req o' body =
    seqE (enter_with env req manager_permissions) (\<lambda>sub. seqE (decoded body) (\<lambda>p.
    let ctype = to_lower (trim_space (mi_type p)) in
    seqE (chkE (sanitize_file_name (mi_name p) \<noteq> [] \<and> ctype \<noteq> [] \<and> 0 < mi_size p) (bad_request ''file_name, content_type, size_bytes are required'')) (\<lambda>_.
    seqE (chkE (mi_size p \<le> max_media_size) (new_http_error 413 CodeInvalidRequest ''file too large'')) (\<lambda>_.
    seqE (chkE (List.member allowed_types ctype) (bad_request ''unsupported content_type'')) (\<lambda>_.
    seqE next_asset_id (\<lambda>asset.
    let a = pending_asset env sub o' p asset in
    seqE (on_media (mp_create (ce_media env) (de_now (ce_disc env)) a)) (\<lambda>_.
    seqE (cms_audit env sub ''cms.media.upload.intent'' ''cms_media_asset'' asset
      (Some [(''content_type'', AStr ctype), (''size_bytes'', AInt (mi_size p)), (''object_key'', AStr (ma_key a))])) (\<lambda>_.
    okE (201, CObject (intent_data a), []))))))))) "

subsection \<open>Putting the bytes\<close>

text \<open>The query of the signed URL, its numbers as texts.\<close>

record upload_query =
  uq_exp :: string
  uq_sig :: string
  uq_company :: string
  uq_method :: string
  uq_type :: string
  uq_size :: string

definition positive_query :: "string \<Rightarrow> string \<Rightarrow> ('r, 's, 'a, 'd, 'i, 'm, int) cms" where
  "positive_query raw what = (case atoi (trim_space raw) of None \<Rightarrow> failE (bad_request (''invalid '' @ what @ '' query''))
     | Some n \<Rightarrow> if n \<le> 0 then failE (bad_request (''invalid '' @ what @ '' query'')) else okE n)"

definition session_error :: "string \<Rightarrow> go_error" where
  "session_error msg = new_http_error 401 CodeSessionExpired msg"

text \<open>The file is written, and deleted again when it is too short.\<close>

definition store_upload :: "('r, 's, 'a, 'd, 'i, 'm) cms_env \<Rightarrow> string \<Rightarrow> int \<Rightarrow> upload_body \<Rightarrow> ('r, 's, 'a, 'd, 'i, 'm, unit) cms" where
  "store_upload env key sz body s =
    (case on_disk (disk_write (ce_dir env) key (nat sz) body) s of
       (Inl e, s1) \<Rightarrow> (Inl (HTTPErr 500 CodeInternal ''failed to persist media upload'' [] (Some e)), s1)
     | (Inr n, s1) \<Rightarrow>
         if int n \<noteq> sz then (Inl (bad_request ''uploaded payload size mismatch''), snd (on_disk (disk_delete (ce_dir env) key) s1))
         else (Inr (), s1))"

definition upload_media_binary :: "('r, 's, 'a, 'd, 'i, 'm) cms_env \<Rightarrow> string \<Rightarrow> upload_query \<Rightarrow> string \<Rightarrow> upload_body \<Rightarrow> ('r, 's, 'a, 'd, 'i, 'm, envelope) cms" where
  "upload_media_binary env asset0 q meth body =
    seqE (need_value asset0 ''asset_id'') (\<lambda>asset.
    seqE (positive_query (uq_exp q) ''exp'') (\<lambda>expiry.
    let company = trim_space (uq_company q); want = to_upper (trim_space (uq_method q)); ctype = to_lower (trim_space (uq_type q)); sig = trim_space (uq_sig q) in
    seqE (positive_query (uq_size q) ''size_bytes'') (\<lambda>sz.
    seqE (chkE (company \<noteq> [] \<and> want \<noteq> [] \<and> ctype \<noteq> [] \<and> sig \<noteq> []) (bad_request ''missing signed query fields'')) (\<lambda>_.
    seqE (chkE (want = ''PUT'' \<and> meth = ''PUT'') (new_http_error 405 CodeInvalidRequest ''method not allowed for signed upload'')) (\<lambda>_.
    seqE (chkE (de_now (ce_disc env) \<le> expiry) (session_error ''signed upload url expired'')) (\<lambda>_.
    seqE (chkE (verify_upload env sig asset company want ctype sz expiry) (session_error ''invalid upload signature'')) (\<lambda>_.
    seqE (on_media (mp_by_id (ce_media env) asset)) (\<lambda>a.
    seqE (chkE (ma_company a = company) (new_http_error 403 CodePermissionDenied ''company mismatch for signed upload'')) (\<lambda>_.
    seqE (chkE (ma_state a = ''pending_upload'') (new_http_error 409 CodeInvalidRequest ''media asset is not pending upload'')) (\<lambda>_.
    seqE (chkE (de_now (ce_disc env) \<le> ma_expires a) (session_error ''signed upload url expired'')) (\<lambda>_.
    seqE (store_upload env (ma_key a) sz body) (\<lambda>_. okE (200, CRaw ''ok'', [])))))))))))))"

subsection \<open>Completing, listing, deleting\<close>

definition optional_time :: "int option \<Rightarrow> goany" where
  "optional_time x = (case x of None \<Rightarrow> ANil | Some t \<Rightarrow> AStr (rfc3339 t))"

definition complete_media_upload :: "('r, 's, 'a, 'd, 'i, 'm) cms_env \<Rightarrow> http_request \<Rightarrow> string \<Rightarrow> string + string \<times> string \<times> int \<Rightarrow> ('r, 's, 'a, 'd, 'i, 'm, envelope) cms" where
  "complete_media_upload env req asset0 body =
    seqE (enter_with env req manager_permissions) (\<lambda>sub. seqE (need_value asset0 ''asset_id'') (\<lambda>asset. seqE (decoded body) (\<lambda>(etag, checksum, sz).
    seqE (on_media (mp_by_company (ce_media env) (ac_company sub) asset)) (\<lambda>cur.
    seqE (\<lambda>s. chkE (disk_exists (ce_dir env) (ma_key cur) (cm_disk s)) (new_http_error 409 CodeInvalidRequest ''media binary not uploaded yet'') s) (\<lambda>_.
    seqE (on_media (mp_complete (ce_media env) (de_now (ce_disc env)) (ac_company sub) asset \<lparr>mk_actor = ac_sub sub, mk_etag = etag, mk_checksum = checksum, mk_size = sz\<rparr>)) (\<lambda>a.
    seqE (cms_audit env sub ''cms.media.upload.complete'' ''cms_media_asset'' (ma_id a)
      (Some [(''etag'', AStr (trim_space etag)), (''checksum'', AStr (trim_space checksum)), (''object_key'', AStr (ma_key a))])) (\<lambda>_.
    okE (200, CObject [(''asset_id'', AStr (ma_id a)), (''object_key'', AStr (ma_key a)), (''content_type'', AStr (ma_type a)), (''size_bytes'', AInt (ma_size a)),
      (''state'', AStr (ma_state a)), (''completed_at'', optional_time (ma_completed a))], []))))))))"

definition asset_row_data :: "media_asset \<Rightarrow> attrs" where
  "asset_row_data a = [(''asset_id'', AStr (ma_id a)), (''file_name'', AStr (ma_name a)), (''content_type'', AStr (ma_type a)), (''size_bytes'', AInt (ma_size a)),
     (''state'', AStr (ma_state a)), (''object_key'', AStr (ma_key a)), (''context'', AStr (ma_context a)), (''created_at'', AStr (rfc3339 (ma_created a))),
     (''completed_at'', optional_time (ma_completed a)), (''upload_method'', AStr (ma_method a))]"

definition media_cursor :: "nat \<Rightarrow> media_asset list \<Rightarrow> string option" where
  "media_cursor n xs = (if length xs = n \<and> xs \<noteq> [] \<and> trim_space (rfc3339 (ma_created (last xs))) \<noteq> [] then Some (rfc3339 (ma_created (last xs))) else None)"

definition list_media :: "('r, 's, 'a, 'd, 'i, 'm) cms_env \<Rightarrow> http_request \<Rightarrow> media_query \<Rightarrow> string \<Rightarrow> ('r, 's, 'a, 'd, 'i, 'm, envelope) cms" where
  "list_media env req q raw_limit =
    seqE (enter_with env req manager_permissions) (\<lambda>sub.
    let limit = parse_positive_int raw_limit 50 200 in
    seqE (on_media (mp_list (ce_media env) (de_now (ce_disc env)) (ac_company sub)
      \<lparr>mq_type = trim_space (mq_type q), mq_text = trim_space (mq_text q), mq_cursor = trim_space (mq_cursor q), mq_limit = nat limit\<rparr>)) (\<lambda>xs.
    okE (200, CItems (map asset_row_data xs), page_meta xs limit (media_cursor (nat limit) xs))))"

definition delete_media :: "('r, 's, 'a, 'd, 'i, 'm) cms_env \<Rightarrow> http_request \<Rightarrow> string \<Rightarrow> ('r, 's, 'a, 'd, 'i, 'm, envelope) cms" where
  "delete_media env req asset0 =
    seqE (enter_with env req manager_permissions) (\<lambda>sub. seqE (need_value asset0 ''asset_id'') (\<lambda>asset.
    seqE (on_media (mp_by_company (ce_media env) (ac_company sub) asset)) (\<lambda>cur.
    seqE (wrapE (\<lambda>e. HTTPErr 500 CodeInternal ''failed to delete media binary'' [] (Some e)) (on_disk (disk_delete (ce_dir env) (ma_key cur)))) (\<lambda>_.
    seqE (on_media (mp_delete (ce_media env) (de_now (ce_disc env)) (ac_company sub) asset (ac_sub sub))) (\<lambda>a.
    seqE (cms_audit env sub ''cms.media.delete'' ''cms_media_asset'' (ma_id a) (Some [(''object_key'', AStr (ma_key a))])) (\<lambda>_.
    okE (200, CObject [(''asset_id'', AStr (ma_id a)), (''state'', AStr (ma_state a)), (''deleted_at'', optional_time (ma_deleted a))], [])))))))"

end
