(* ===== verification/CmsRoutes.thy ===== *)
theory CmsRoutes
  imports CmsMedia "HOL-Library.Multiset"
begin

section \<open>The routes of the CMS\<close>

text \<open>
  The table of routes of \<^verbatim>\<open>internal/platformcms/transport/http/handler.go\<close> (\<open>Register\<close>): a call is a route with
  what its handler reads of the request. Then what holds of every route: who gets in, which files a
  call can touch, what a listing contains, and what the handlers do to the life cycle of a record.
\<close>

datatype cms_call =
    Dashboard
  | Collections
  | CollectionDetail string
  | Entries
  | EntryDetail string
  | CreateEntry "string + record_payload"
  | UpdateEntry string "string + record_payload"
  | MediaIntent origin "string + media_intent"
  | MediaPut string upload_query string upload_body
  | MediaComplete string "string + string \<times> string \<times> int"
  | MediaList media_query string
  | MediaDelete string
  | Reviews
  | ReviewAction string "string + string"
  | Schedules
  | CreateSchedule "string + string \<times> string"
  | DeleteSchedule string
  | Releases string
  | AdminUsers string
  | CreateAdminUser "string + create_user_request"
  | Roles
  | Rules
  | ValidateRule "string + string \<times> string list"
  | AuditLogs audit_query string
  | CmsSessions
  | RevokeSession string
  | SystemHealth
  | SystemMetrics

fun cms_route :: "cms_call \<Rightarrow> string" where
  "cms_route Dashboard = ''cms.dashboard.summary''"
| "cms_route Collections = ''cms.collections.list''"
| "cms_route (CollectionDetail _) = ''cms.collections.detail''"
| "cms_route Entries = ''cms.entries.list''"
| "cms_route (EntryDetail _) = ''cms.entries.detail''"
| "cms_route (CreateEntry _) = ''cms.entries.create''"
| "cms_route (UpdateEntry _ _) = ''cms.entries.update''"
| "cms_route (MediaIntent _ _) = ''cms.media.upload.intent''"
| "cms_route (MediaPut _ _ _ _) = ''cms.media.upload.binary''"
| "cms_route (MediaComplete _ _) = ''cms.media.upload.complete''"
| "cms_route (MediaList _ _) = ''cms.media.list''"
| "cms_route (MediaDelete _) = ''cms.media.delete''"
| "cms_route Reviews = ''cms.reviews.list''"
| "cms_route (ReviewAction _ _) = ''cms.reviews.action''"
| "cms_route Schedules = ''cms.schedules.list''"
| "cms_route (CreateSchedule _) = ''cms.schedules.create''"
| "cms_route (DeleteSchedule _) = ''cms.schedules.delete''"
| "cms_route (Releases _) = ''cms.releases.list''"
| "cms_route (AdminUsers _) = ''cms.admin.users.list''"
| "cms_route (CreateAdminUser _) = ''cms.admin.users.create''"
| "cms_route Roles = ''cms.admin.roles.list''"
| "cms_route Rules = ''cms.admin.rules.list''"
| "cms_route (ValidateRule _) = ''cms.admin.rules.validate''"
| "cms_route (AuditLogs _ _) = ''cms.ops.audit.list''"
| "cms_route CmsSessions = ''cms.ops.sessions.list''"
| "cms_route (RevokeSession _) = ''cms.ops.sessions.revoke''"
| "cms_route SystemHealth = ''cms.ops.health''"
| "cms_route SystemMetrics = ''cms.ops.metrics''"

fun cms_handler :: "('r, 's, 'a, 'd, 'i, 'm) cms_env \<Rightarrow> http_request \<Rightarrow> cms_call \<Rightarrow> ('r, 's, 'a, 'd, 'i, 'm, envelope) cms" where
  "cms_handler env req Dashboard = dashboard_summary env req"
| "cms_handler env req Collections = collections env req"
| "cms_handler env req (CollectionDetail c) = collection_detail env req c"
| "cms_handler env req Entries = entries env req"
| "cms_handler env req (EntryDetail e) = entry_detail env req e"
| "cms_handler env req (CreateEntry b) = create_entry env req b"
| "cms_handler env req (UpdateEntry e b) = update_entry env req e b"
| "cms_handler env req (MediaIntent o' b) = create_media_upload_intent env req o' b"
| "cms_handler env req (MediaPut a q m b) = upload_media_binary env a q m b"
| "cms_handler env req (MediaComplete a b) = complete_media_upload env req a b"
| "cms_handler env req (MediaList q l) = list_media env req q l"
| "cms_handler env req (MediaDelete a) = delete_media env req a"
| "cms_handler env req Reviews = reviews env req"
| "cms_handler env req (ReviewAction e b) = review_action env req e b"
| "cms_handler env req Schedules = schedules env req"
| "cms_handler env req (CreateSchedule b) = create_schedule env req b"
| "cms_handler env req (DeleteSchedule e) = delete_schedule env req e"
| "cms_handler env req (Releases e) = releases env req e"
| "cms_handler env req (AdminUsers c) = admin_users env req c"
| "cms_handler env req (CreateAdminUser b) = create_admin_user env req b"
| "cms_handler env req Roles = cms_roles env req"
| "cms_handler env req Rules = cms_rules env req"
| "cms_handler env req (ValidateRule b) = validate_rule env req b"
| "cms_handler env req (AuditLogs q l) = audit_logs env req q l"
| "cms_handler env req CmsSessions = cms_sessions env req"
| "cms_handler env req (RevokeSession i) = cms_revoke_session env req i"
| "cms_handler env req SystemHealth = system_health env req"
| "cms_handler env req SystemMetrics = system_metrics env req"

definition serve_cms :: "('r, 's, 'a, 'd, 'i, 'm) cms_env \<Rightarrow> http_request \<Rightarrow> int \<Rightarrow> cms_call \<Rightarrow>
    ('r, 's, 'a, 'd, 'i, 'm) cms_state \<Rightarrow> (cms_data \<times> attrs) reply \<times> ('r, 's, 'a, 'd, 'i, 'm) cms_state" where
  "serve_cms env req ms call = observe (cms_route call) req ms (cms_handler env req call)"

fun is_put :: "cms_call \<Rightarrow> bool" where
  "is_put (MediaPut _ _ _ _) = True"
| "is_put _ = False"

subsection \<open>Who gets in\<close>

text \<open>Every handler but the upload itself starts with \<open>enter\<close>.\<close>

lemma seqE_assoc: "seqE (seqE m k) h = seqE m (\<lambda>x. seqE (k x) h)"
  by (rule ext) (auto simp: seqE_def split: prod.splits sum.splits)

lemma handler_enters: "\<not> is_put call \<Longrightarrow> \<exists>k. cms_handler env req call = seqE (enter env req) k"
  by (cases call) (auto simp: dashboard_summary_def collections_def collection_detail_def entries_def entry_detail_def create_entry_def
    update_entry_def create_media_upload_intent_def complete_media_upload_def list_media_def delete_media_def reviews_def review_action_def
    schedules_def create_schedule_def delete_schedule_def releases_def admin_users_def create_admin_user_def cms_roles_def cms_rules_def
    validate_rule_def audit_logs_def cms_sessions_def cms_revoke_session_def system_health_def system_metrics_def enter_with_def seqE_assoc)

definition with_auth :: "'s \<Rightarrow> ('r, 's, 'a, 'd, 'i, 'm) cms_state \<Rightarrow> ('r, 's, 'a, 'd, 'i, 'm) cms_state" where
  "with_auth a s = s\<lparr>cm_svc := (cm_svc s)\<lparr>svc_auth := a\<rparr>\<rparr>"

lemma require_any_run:
  assumes "get_effective_access (de_resolve (ce_disc env)) (ac_membership sub) (ac_company sub) (svc_auth (cm_svc s)) = (x, a)"
  shows "require_any_permission env sub perms s = (case x of Inl e \<Rightarrow> (Inl e, with_auth a s)
    | Inr eff \<Rightarrow> (if has_any_permission (ea_permissions eff) perms then Inr (ea_permissions eff) else Inl (access_denied CodePermissionDenied), with_auth a s))"
  using assms by (cases x) (simp_all add: require_any_permission_def seqE_def on_svc_def on_auth_def with_auth_def)

lemma enter_run:
  assumes "ce_inspect env (bearer_token (hq_authorization req)) = Inr sub"
    and "get_effective_access (de_resolve (ce_disc env)) (ac_membership sub) (ac_company sub) (svc_auth (cm_svc s)) = (x, a)"
  shows "enter env req s = (case x of Inl e \<Rightarrow> (Inl e, with_auth a s)
    | Inr eff \<Rightarrow> (if has_any_permission (ea_permissions eff) [''platform.cms.view''] then Inr sub else Inl (access_denied CodePermissionDenied), with_auth a s))"
  using require_any_run [OF assms(2)] assms(1) by (cases x) (simp_all add: enter_def require_cms_access_def seqE_def)

lemma enter_ok:
  assumes "enter env req s = (Inr sub, s')"
  obtains eff a where "ce_inspect env (bearer_token (hq_authorization req)) = Inr sub"
    and "get_effective_access (de_resolve (ce_disc env)) (ac_membership sub) (ac_company sub) (svc_auth (cm_svc s)) = (Inr eff, a)"
    and "has_any_permission (ea_permissions eff) [''platform.cms.view'']" and "s' = with_auth a s"
proof (cases "ce_inspect env (bearer_token (hq_authorization req))")
  case (Inl e)
  with assms show thesis by (simp add: enter_def seqE_def)
next
  case (Inr sub')
  obtain x a where g: "get_effective_access (de_resolve (ce_disc env)) (ac_membership sub') (ac_company sub') (svc_auth (cm_svc s)) = (x, a)" by fastforce
  from enter_run [OF Inr g] assms Inr g that show thesis by (cases x) (auto split: if_splits)
qed

text \<open>C25: the gate of the CMS: a caller whose resolved permissions lack platform.cms.view gets 403 on every
  route but the signed upload, and nothing changes but the resolver's cache and the metrics.\<close>

theorem cms_gate_denies:
  assumes "ce_inspect env (bearer_token (hq_authorization req)) = Inr sub"
    and "get_effective_access (de_resolve (ce_disc env)) (ac_membership sub) (ac_company sub) (svc_auth (cm_svc s)) = (Inr eff, a)"
    and "\<not> has_any_permission (ea_permissions eff) [''platform.cms.view'']" and "\<not> is_put call"
  shows "\<exists>metrics. serve_cms env req ms call s =
    (Inl (write_error (access_denied CodePermissionDenied)), (with_auth a s)\<lparr>cm_metrics := metrics\<rparr>)"
proof -
  obtain k where k: "cms_handler env req call = seqE (enter env req) k" using handler_enters [OF assms(4)] by blast
  have "enter env req s = (Inl (access_denied CodePermissionDenied), with_auth a s)" using enter_run [OF assms(1,2)] assms(3) by simp
  then have "respond (cms_handler env req call) s = (Inl (write_error (access_denied CodePermissionDenied)), with_auth a s)"
    by (simp add: k respond_def)
  then show ?thesis by (auto simp: serve_cms_def observe_def)
qed

subsection \<open>Listings\<close>

lemma mset_insert_by [simp]: "mset (insert_by lt x xs) = add_mset x (mset xs)"
  by (induction xs) auto

lemma mset_sort_slice [simp]: "mset (sort_slice lt xs) = mset xs"
  by (induction xs) (simp_all add: sort_slice_def)

lemma set_sort_slice [simp]: "set (sort_slice lt xs) = set xs"
  by (metis mset_sort_slice set_mset_mset)

lemma length_sort_slice [simp]: "length (sort_slice lt xs) = length xs"
  by (metis mset_sort_slice size_mset)

text \<open>With a comparison whose complement is a total order, the slice ends sorted.\<close>

lemma sorted_insert_by:
  assumes "\<And>a b c. \<not> lt b a \<Longrightarrow> \<not> lt c b \<Longrightarrow> \<not> lt c a" and "\<And>a b. lt a b \<Longrightarrow> \<not> lt b a"
    and "sorted_wrt (\<lambda>a b. \<not> lt b a) xs"
  shows "sorted_wrt (\<lambda>a b. \<not> lt b a) (insert_by lt x xs)"
  using assms(3)
proof (induction xs)
  case (Cons y ys)
  have set: "set (insert_by lt x ys) = insert x (set ys)" by (metis mset_insert_by set_mset_add_mset_insert set_mset_mset)
  show ?case
  proof (cases "lt y x")
    case True
    with Cons assms(2) [of y x] show ?thesis by (simp add: set)
  next
    case False
    have "\<forall>z \<in> set ys. \<not> lt z x" using Cons.prems False assms(1) [of y x] by auto
    with Cons False show ?thesis by simp
  qed
qed simp

lemma sorted_sort_slice:
  assumes "\<And>a b c. \<not> lt b a \<Longrightarrow> \<not> lt c b \<Longrightarrow> \<not> lt c a" and "\<And>a b. lt a b \<Longrightarrow> \<not> lt b a"
  shows "sorted_wrt (\<lambda>a b. \<not> lt b a) (sort_slice lt xs)"
  unfolding sort_slice_def by (induction xs) (simp_all add: sorted_insert_by [OF assms])

text \<open>Descending by one key, ascending by another.\<close>

lemma down_up_order:
  fixes f :: "'x \<Rightarrow> 'b::linorder" and g :: "'x \<Rightarrow> 'c::linorder"
  assumes "\<And>a b. lt a b \<longleftrightarrow> (if f a = f b then g a < g b else f b < f a)"
  shows "\<not> lt b a \<Longrightarrow> \<not> lt c b \<Longrightarrow> \<not> lt c a" and "lt a b \<Longrightarrow> \<not> lt b a" and "\<not> lt b a \<Longrightarrow> f b \<le> f a"
  unfolding assms by (auto split: if_splits)

lemmas collection_less_order = down_up_order [of collection_less cl_count cl_id, OF collection_less_def]

lemma release_less_eq: "release_less a b \<longleftrightarrow> (if trim_space (attr_str a ''published_date'') = trim_space (attr_str b ''published_date'')
    then attr_str a ''entry_id'' < attr_str b ''entry_id'' else trim_space (attr_str b ''published_date'') < trim_space (attr_str a ''published_date''))"
  by (simp add: release_less_def Let_def)

lemmas release_less_order = down_up_order [of release_less "\<lambda>a. trim_space (attr_str a ''published_date'')" "\<lambda>a. attr_str a ''entry_id''", OF release_less_eq]

text \<open>The map of the collections counts the records of each type and keeps their latest time.\<close>

definition of_type :: "string \<Rightarrow> disclosure_record list \<Rightarrow> disclosure_record list" where
  "of_type k rs = filter (\<lambda>r. type_or_general r = k) rs"

definition summarises :: "disclosure_record list \<Rightarrow> collection \<Rightarrow> bool" where
  "summarises rs c \<longleftrightarrow> cl_count c = int (length (of_type (cl_id c) rs)) \<and>
     cl_latest c \<in> (\<lambda>r. rfc3339 (dr_updated_at r)) ` set (of_type (cl_id c) rs) \<and>
     (\<forall>r \<in> set (of_type (cl_id c) rs). rfc3339 (dr_updated_at r) \<le> cl_latest c)"

definition agg_ok :: "disclosure_record list \<Rightarrow> (string \<times> collection) list \<Rightarrow> bool" where
  "agg_ok rs agg \<longleftrightarrow> distinct (map fst agg) \<and> fst ` set agg = type_or_general ` set rs \<and>
     (\<forall>(k, c) \<in> set agg. cl_id c = k \<and> summarises rs c)"

lemma agg_okD: "agg_ok rs agg \<Longrightarrow> map_of agg k = Some c \<Longrightarrow> cl_id c = k \<and> summarises rs c"
  by (auto simp: agg_ok_def dest: map_of_SomeD)

lemma of_type_snoc: "of_type k (rs @ [r]) = of_type k rs @ (if type_or_general r = k then [r] else [])"
  by (simp add: of_type_def)

lemma summarises_snoc: "cl_id c \<noteq> type_or_general r \<Longrightarrow> summarises (rs @ [r]) c = summarises rs c"
  by (simp add: summarises_def of_type_snoc)

lemma rfc3339_nonempty: "rfc3339 t \<noteq> []"
  by (simp add: rfc3339_def)

lemma agg_ok_bump:
  assumes ok: "agg_ok rs agg"
  shows "agg_ok (rs @ [r]) (bump r agg)"
proof -
  let ?k = "type_or_general r"
  obtain c where b: "bump r agg = AList.update ?k c agg" and c: "cl_id c = ?k" "summarises (rs @ [r]) c"
  proof (cases "map_of agg ?k")
    case None
    then have "?k \<notin> type_or_general ` set rs" using ok by (auto simp: agg_ok_def map_of_eq_None_iff)
    then have "of_type ?k rs = []" unfolding of_type_def by (metis (mono_tags, lifting) filter_False image_eqI)
    with None show thesis by (intro that [OF bump_def [unfolded Let_def]]) (simp_all add: summarises_def of_type_snoc)
  next
    case (Some c)
    note old = agg_okD [OF ok Some]
    then have "cl_latest c \<noteq> []" using rfc3339_nonempty by (auto simp: summarises_def)
    with old Some show thesis
      by (intro that [OF bump_def [unfolded Let_def]]) (auto simp: summarises_def of_type_snoc, meson less_imp_le order_trans)
  qed
  have d: "distinct (map fst (bump r agg))" using ok unfolding b agg_ok_def by (simp add: distinct_update)
  have keys: "fst ` set (bump r agg) = insert ?k (type_or_general ` set rs)" using ok unfolding b agg_ok_def by (simp add: dom_update)
  have "cl_id x = k \<and> summarises (rs @ [r]) x" if "(k, x) \<in> set (bump r agg)" for k x
  proof -
    have "map_of (bump r agg) k = Some x" using d that by (simp add: map_of_eq_Some_iff)
    then have x: "((map_of agg)(?k \<mapsto> c)) k = Some x" by (simp add: b update_conv')
    show ?thesis
    proof (cases "k = ?k")
      case True
      with x c show ?thesis by simp
    next
      case False
      with x agg_okD [OF ok, of k x] show ?thesis by (simp add: summarises_snoc)
    qed
  qed
  with d keys show ?thesis by (auto simp: agg_ok_def)
qed

lemma agg_ok_fold: "agg_ok qs agg \<Longrightarrow> agg_ok (qs @ rs) (fold bump rs agg)"
  by (induction rs arbitrary: qs agg) (simp_all, metis agg_ok_bump append.assoc append_Cons append_Nil)

lemma collect_partition:
  "distinct (map cl_id (collect rs)) \<and> set (map cl_id (collect rs)) = type_or_general ` set rs \<and>
   (\<forall>c \<in> set (collect rs). summarises rs c) \<and>
   sorted_wrt (\<lambda>a b. cl_count b < cl_count a \<or> cl_count a = cl_count b \<and> cl_id a < cl_id b) (collect rs)"
proof -
  let ?agg = "fold bump rs []"
  have ok: "agg_ok rs ?agg" using agg_ok_fold [of "[]" "[]" rs] by (simp add: agg_ok_def)
  have cl: "map cl_id (map snd ?agg) = map fst ?agg" using ok by (auto simp: agg_ok_def)
  have ids: "mset (map cl_id (collect rs)) = mset (map fst ?agg)" unfolding cl [symmetric] collect_def mset_map by simp
  have dist: "distinct (map cl_id (collect rs))" using ok ids unfolding agg_ok_def by (metis mset_eq_imp_distinct_iff)
  moreover have "set (map cl_id (collect rs)) = type_or_general ` set rs" using ok ids unfolding agg_ok_def by (metis list.set_map set_mset_mset)
  moreover have "\<forall>c \<in> set (collect rs). summarises rs c"
    using ok by (auto simp: agg_ok_def collect_def)
  moreover have "sorted_wrt (\<lambda>a b. \<not> collection_less b a) (collect rs)"
    unfolding collect_def by (rule sorted_sort_slice) (fact collection_less_order(1,2))+
  then have "sorted_wrt (\<lambda>a b. \<not> collection_less b a \<and> cl_id a \<noteq> cl_id b) (collect rs)"
    using dist by (auto simp: sorted_wrt_iff_nth_less nth_eq_iff_index_eq distinct_conv_nth)
  then have "sorted_wrt (\<lambda>a b. cl_count b < cl_count a \<or> cl_count a = cl_count b \<and> cl_id a < cl_id b) (collect rs)"
    by (rule sorted_wrt_mono_rel [rotated]) (auto simp: collection_less_def split: if_splits)
  ultimately show ?thesis by blast
qed

text \<open>The releases listing holds exactly the published, completed or confirmed records, of the entry asked for if
  one is named, the latest publication first.\<close>

theorem releases_newest_first:
  "mset (release_rows eid rs) = image_mset release_row (mset (filter (\<lambda>r. state_word r \<in> {''published'', ''completed'', ''confirmed''} \<and>
     (trim_space eid = [] \<or> equal_fold (trim_space eid) (dr_id r))) rs)) \<and>
   sorted_wrt (\<lambda>a b. trim_space (attr_str b ''published_date'') \<le> trim_space (attr_str a ''published_date'')) (release_rows eid rs)"
proof -
  have "sorted_wrt (\<lambda>a b. \<not> release_less b a) (release_rows eid rs)"
    unfolding release_rows_def by (rule sorted_sort_slice) (fact release_less_order(1,2))+
  then have "sorted_wrt (\<lambda>a b. trim_space (attr_str b ''published_date'') \<le> trim_space (attr_str a ''published_date'')) (release_rows eid rs)"
    by (rule sorted_wrt_mono_rel [rotated]) (rule release_less_order(3))
  then show ?thesis by (simp add: release_rows_def)
qed

subsection \<open>Metrics\<close>

text \<open>A run of the metrics: the status and the milliseconds of the requests of one route, in order.\<close>

definition record_runs :: "string \<Rightarrow> (int \<times> int) list \<Rightarrow> (string \<times> route_metric) list" where
  "record_runs route evs = fold (\<lambda>(st, ms). record_route route [] st ms) evs []"

lemma average_between: "0 \<le> a \<Longrightarrow> a \<le> m \<Longrightarrow> 0 \<le> x \<Longrightarrow> x \<le> m \<Longrightarrow> 0 < n \<Longrightarrow> 0 \<le> (a * (n - 1) + x) div n \<and> (a * (n - 1) + x) div n \<le> (m::int)"
proof -
  assume a: "0 \<le> a" "a \<le> m" "0 \<le> x" "x \<le> m" "0 < n"
  have "a * (n - 1) \<le> m * (n - 1)" using a by (intro mult_right_mono) auto
  then have "a * (n - 1) + x \<le> m * n" using a by (simp add: algebra_simps)
  then have "(a * (n - 1) + x) div n \<le> m * n div n" using a by (intro zdiv_mono1) auto
  with a show ?thesis by (auto intro: pos_imp_zdiv_nonneg_iff [THEN iffD2])
qed

text \<open>The metrics of a route count its requests and the errors among them, and the running average, which is
  rounded down at every step, stays between 0 and the longest latency.\<close>

theorem metrics_account:
  assumes "evs \<noteq> []" and "\<forall>(st, ms) \<in> set evs. 0 \<le> ms \<and> ms \<le> most"
  shows "\<exists>m. record_runs route evs = [(route, m)] \<and> rm_requests m = int (length evs) \<and>
    rm_errors m = int (length (filter (\<lambda>e. 400 \<le> fst e) evs)) \<and> 0 \<le> rm_average m \<and> rm_average m \<le> most \<and> rm_status m = fst (last evs)"
  using assms
proof (induction evs rule: rev_induct)
  case (snoc e evs)
  obtain st ms where e: "e = (st, ms)" by fastforce
  show ?case
  proof (cases "evs = []")
    case True
    with snoc.prems show ?thesis by (simp add: e record_runs_def record_route_def new_metric_def)
  next
    case False
    with snoc obtain m where m: "record_runs route evs = [(route, m)]" "rm_requests m = int (length evs)"
      "rm_errors m = int (length (filter (\<lambda>e. 400 \<le> fst e) evs))" "0 \<le> rm_average m" "rm_average m \<le> most" by auto
    have "0 \<le> ms" "ms \<le> most" using snoc.prems e by auto
    with average_between [OF m(4,5), of ms "rm_requests m + 1"] m(2)
    have avg: "0 \<le> (rm_average m * rm_requests m + ms) div (rm_requests m + 1)" "(rm_average m * rm_requests m + ms) div (rm_requests m + 1) \<le> most" by simp_all
    have "record_runs route (evs @ [e]) = record_route route [] st ms (record_runs route evs)" by (simp add: record_runs_def e)
    then show ?thesis using m False avg by (simp add: record_route_def e Let_def)
  qed
qed simp

theorem metrics_account_witness:
  "\<exists>m. record_runs ''cms.entries.list'' [(200, 10), (404, 5)] = [(''cms.entries.list'', m)] \<and> rm_errors m = 1 \<and> rm_average m \<le> 10"
proof -
  have "\<forall>(st, ms) \<in> set [(200, 10), (404, 5::int)]. 0 \<le> ms \<and> ms \<le> 10" by simp
  from metrics_account [OF _ this, of "''cms.entries.list''"] show ?thesis by auto
qed

subsection \<open>A rejected review\<close>

lemma need_value_ok: "need_value v what s = (Inr x, s') \<longleftrightarrow> trim_space v \<noteq> [] \<and> x = trim_space v \<and> s' = s"
  by (auto simp: need_value_def failE_def okE_def)

lemma decoded_ok: "decoded body s = (Inr x, s') \<longleftrightarrow> body = Inr x \<and> s' = s"
  by (cases body) (auto simp: decoded_def failE_def okE_def)

lemma cms_audit_frame: "cms_audit env sub action rtype rid meta s = (x, s') \<Longrightarrow> \<exists>l. s' = s\<lparr>cm_audit := l\<rparr>"
  by (auto simp: cms_audit_def)

lemma require_any_ok:
  assumes "require_any_permission env sub perms s = (Inr ps, s')"
  shows "\<exists>a. s' = with_auth a s"
proof -
  obtain x a where g: "get_effective_access (de_resolve (ce_disc env)) (ac_membership sub) (ac_company sub) (svc_auth (cm_svc s)) = (x, a)" by fastforce
  from require_any_run [OF g, of perms] assms show ?thesis by (cases x) auto
qed

lemma with_auth_simps [simp]: "svc_repo (cm_svc (with_auth a s)) = svc_repo (cm_svc s)" "svc_ids (cm_svc (with_auth a s)) = svc_ids (cm_svc s)"
  "cm_media (with_auth a s) = cm_media s" "cm_disk (with_auth a s) = cm_disk s" "cm_uuids (with_auth a s) = cm_uuids s"
  "cm_metrics (with_auth a s) = cm_metrics s"
  by (simp_all add: with_auth_def)

definition put_svc :: "disclosure_record \<Rightarrow> (disc_mem, 's, 'a, 'd, 'i, 'm) cms_state \<Rightarrow> (disc_mem, 's, 'a, 'd, 'i, 'm) cms_state" where
  "put_svc r s = s\<lparr>cm_svc := (cm_svc s)\<lparr>svc_repo := (svc_repo (cm_svc s))\<lparr>dm_items := (dm_items (svc_repo (cm_svc s)))(record_key (dr_company r) (dr_id r) \<mapsto> r)\<rparr>\<rparr>\<rparr>"

lemma cms_find_mem: "de_port (ce_disc env) = mem_disclosure oi oc \<Longrightarrow> cms_find env sub i s =
    (case dm_items (svc_repo (cm_svc s)) (record_key (ac_company sub) i) of None \<Rightarrow> Inl no_record | Some r \<Rightarrow> Inr r, s)"
  by (simp add: cms_find_def on_svc_def on_repo_def mem_disclosure_def mem_find_def)

lemma cms_save_mem: "de_port (ce_disc env) = mem_disclosure oi oc \<Longrightarrow> dm_items (svc_repo (cm_svc s)) (record_key (dr_company r) (dr_id r)) = Some old \<Longrightarrow>
    cms_save env r s = (Inr r, put_svc r s)"
  by (simp add: cms_save_def on_svc_def on_repo_def mem_disclosure_def mem_update_def put_svc_def)

text \<open>C22: the collections listing partitions the company's records. When the handler answers, over the MySQL tables,
  it answers 200 with one collection for each type among the records of the caller's company (general when the
  type is blank), each with the number of its records and the latest of their update times, with more records
  before fewer and by ascending name among equal numbers, and the total is the number of collections.\<close>

theorem collections_partition:
  assumes "de_port (ce_disc env) = sql_disclosure lower_like"
    and "ce_inspect env (bearer_token (hq_authorization req)) = Inr sub"
    and "collections env req s = (Inr (st, body, meta), s')"
    and "rs = filter (\<lambda>r. dr_company r = ac_company sub) (dd_records (svc_repo (cm_svc s)))"
  shows "st = 200 \<and> (\<exists>cs. body = CCollections cs \<and> meta = [(''total'', AInt (int (length cs)))] \<and>
    distinct (map cl_id cs) \<and>
    set (map cl_id cs) = (\<lambda>r. if trim_space (dr_type r) = [] then ''general'' else trim_space (dr_type r)) ` set rs \<and>
    (\<forall>c \<in> set cs. summarises rs c) \<and>
    sorted_wrt (\<lambda>a b. cl_count b < cl_count a \<or> cl_count a = cl_count b \<and> cl_id a < cl_id b) cs)"
proof -
  from assms(3) obtain sub' s1 l b where e: "enter env req s = (Inr sub', s1)"
    and l: "cms_records env sub' (with_auth b s1) = (Inr l, s')"
    and out: "st = 200" "body = CCollections (collect l)" "meta = total (collect l)"
    by (auto simp: collections_def enter_with_def seq_iffs dest!: require_any_ok)
  obtain a where s1: "s1 = with_auth a s" and sub: "sub' = sub" using e assms(2) by (elim enter_ok) auto
  have "l = sort_key (\<lambda>r. - dr_created_at r) rs"
    using l assms(1,4) by (auto simp: s1 sub cms_records_def on_svc_def on_repo_run sql_disclosure_def sql_list_def split: prod.splits)
  then have "set l = set rs" and len: "length (filter P l) = length (filter P rs)" for P
    by (simp_all add: filter_sort)
  moreover from this have "summarises l c = summarises rs c" for c by (simp add: summarises_def of_type_def)
  ultimately show ?thesis using out collect_partition [of l]
    by (auto simp: total_def type_or_general_def)
qed

text \<open>C40: a rejected review bypasses the life cycle of the in-memory records. Whatever the state of a record of the
  caller's company, published or completed included, a reviewer's rejection succeeds, puts the record to Draft and
  keeps its publication date; so of the invariant that the disclosure service keeps nothing is left but for
  records that were drafts before.\<close>

theorem cms_reject_breaks_lifecycle:
  assumes "de_port (ce_disc env) = mem_disclosure oi oc" and "lifecycle_ok (DisclosureStore.mem_view (svc_repo (cm_svc s)))"
    and "ce_inspect env (bearer_token (hq_authorization req)) = Inr sub" and "colon_free (ac_company sub)"
    and "\<And>a. \<exists>eff a'. get_effective_access (de_resolve (ce_disc env)) (ac_membership sub) (ac_company sub) a = (Inr eff, a') \<and>
      has_any_permission (ea_permissions eff) [''platform.cms.view''] \<and> has_any_permission (ea_permissions eff) reviewer_permissions"
    and "DisclosureStore.mem_view (svc_repo (cm_svc s)) (ac_company sub) (trim_space eid) = Some cur" and "trim_space eid \<noteq> []"
  shows "\<exists>rep s'. review_action env req eid (Inr ''reject'') s = (Inr (200, rep, []), s') \<and>
    DisclosureStore.mem_view (svc_repo (cm_svc s')) (ac_company sub) (trim_space eid) =
      Some (cur\<lparr>dr_status := ''Draft'', dr_updated_by := ac_sub sub\<rparr>) \<and>
    (lifecycle_ok (DisclosureStore.mem_view (svc_repo (cm_svc s'))) \<longleftrightarrow> dr_status cur = ''Draft'')"
proof -
  have low: "to_lower (trim_space ''reject'') = ''reject''" by code_simp
  obtain eff a where g: "get_effective_access (de_resolve (ce_disc env)) (ac_membership sub) (ac_company sub) (svc_auth (cm_svc s)) = (Inr eff, a)"
      "has_any_permission (ea_permissions eff) [''platform.cms.view'']" using assms(5) by blast
  define s1 where "s1 = with_auth a s"
  have e: "enter env req s = (Inr sub, s1)" using enter_run [OF assms(3) g(1)] g(2) by (simp add: s1_def)
  have items: "dm_items (svc_repo (cm_svc s)) (record_key (ac_company sub) (trim_space eid)) = Some cur"
    using assms(4,6) by (simp add: DisclosureStore.mem_view_def)
  have own: "dr_company cur = ac_company sub" "dr_id cur = trim_space eid" using assms(2,6) by (auto simp: lifecycle_ok_def)
  let ?r = "cur\<lparr>dr_status := ''Draft'', dr_updated_by := ac_sub sub\<rparr>"
  have f: "cms_find env sub (trim_space eid) s1 = (Inr cur, s1)" using items by (simp add: cms_find_mem [OF assms(1)] s1_def)
  obtain eff' a' where g': "get_effective_access (de_resolve (ce_disc env)) (ac_membership sub) (ac_company sub) (svc_auth (cm_svc s1)) = (Inr eff', a')"
      "has_any_permission (ea_permissions eff') reviewer_permissions" using assms(5) by blast
  define v where "v = with_auth a' s1"
  have p: "require_any_permission env sub reviewer_permissions s1 = (Inr (ea_permissions eff'), v)"
    using require_any_run [OF g'(1)] g'(2) by (simp add: v_def)
  have sv: "cms_save env ?r v = (Inr ?r, put_svc ?r v)"
    by (rule cms_save_mem [OF assms(1)]) (use items own in \<open>simp add: v_def s1_def\<close>)
  obtain l where l: "cms_audit env sub ''cms.review.reject'' ''disclosure_record'' (dr_id ?r) None (put_svc ?r v) =
      (Inr (), (put_svc ?r v)\<lparr>cm_audit := l\<rparr>)" by (simp add: cms_audit_def)
  define s' where "s' = (put_svc ?r v)\<lparr>cm_audit := l\<rparr>"
  have run: "review_action env req eid (Inr ''reject'') s = (Inr (200, CObject (decided_row ?r ''reject''), []), s')"
    unfolding s'_def using e f p sv l assms(7)
    by (simp add: review_action_def reject_entry_def need_value_def decoded_def low Let_def)
  have m: "DisclosureStore.mem_view (svc_repo (cm_svc s')) = put_record ?r (DisclosureStore.mem_view (svc_repo (cm_svc s)))"
    using mem_view_update [of ?r "svc_repo (cm_svc s)"] assms(4) own(1) by (simp add: s'_def put_svc_def v_def s1_def)
  then have at: "DisclosureStore.mem_view (svc_repo (cm_svc s')) (ac_company sub) (trim_space eid) = Some ?r"
    using own by (simp add: put_record_def)
  have "lifecycle_ok (DisclosureStore.mem_view (svc_repo (cm_svc s'))) \<longleftrightarrow> dr_status cur = ''Draft''"
  proof
    assume "lifecycle_ok (DisclosureStore.mem_view (svc_repo (cm_svc s')))"
    from lifecycleD [OF this at] have "dr_published cur = []" by auto
    with lifecycleD [OF assms(2,6)] show "dr_status cur = ''Draft''" by (auto simp: parse_date_def split: if_splits)
  next
    assume "dr_status cur = ''Draft''"
    with lifecycleD [OF assms(2,6)] have "dr_published cur = []" by auto
    then show "lifecycle_ok (DisclosureStore.mem_view (svc_repo (cm_svc s')))" unfolding m by (intro lifecycle_put [OF assms(2)]) simp
  qed
  with run at show ?thesis by blast
qed

definition wit_cms_env :: "(disc_mem, unit, audit_entry list, admin_mem, unit, media_map) cms_env" where
  "wit_cms_env = \<lparr>ce_disc = (wit_mem_env 1767225600)\<lparr>de_resolve := (\<lambda>m c s. (Inr ((wit_grants m c)\<lparr>ea_permissions := [''rbac.manage'', ''platform.cms.view'']\<rparr>), s))\<rparr>,
     ce_admin = \<lparr>ae_port = mem_admin (\<lambda>_. []) (\<lambda>_. []), ae_resolve = (\<lambda>m c s. (Inr (wit_grants m c), s)),
       ae_policy = (\<lambda>c a. Inr (mk_policy a ''rbac.manage'' ''*'' ''permission_denied'')), ae_bcrypt = (\<lambda>p. Inr (''h'' @ p)), ae_now = 1767225600\<rparr>, ce_inspect = (\<lambda>_. Inr \<lparr>ac_sub = ''u_admin'', ac_session = ''s_1'', ac_membership = ''m_admin_001'', ac_company = ''c_001''\<rparr>),
     ce_audit = mem_audit, ce_list_sessions = (\<lambda>u c s. (Inr [], s)), ce_revoke_session = (\<lambda>u i s. (Inr (), s)),
     ce_media = mem_media (\<lambda>m. []), ce_hmac = (\<lambda>x. ''00''), ce_ttl = 600, ce_dir = ''var'', ce_base_url = []\<rparr>"

definition wit_cms_state :: "(disc_mem, unit, audit_entry list, admin_mem, unit, media_map) cms_state" where
  "wit_cms_state = \<lparr>cm_svc = wit_mem3, cm_admin = new_admin_mem, cm_iam = (), cm_audit = \<lparr>au_repo = [], au_ids = tally_ids\<rparr>, cm_media = Map.empty,
     cm_disk = Map.empty, cm_uuids = tally_ids, cm_metrics = []\<rparr>"

definition wit_cms_request :: http_request where
  "wit_cms_request = \<lparr>hq_authorization = ''Bearer t'', hq_idempotency = [], hq_request_id = ''r1'', hq_remote = [], hq_agent = []\<rparr>"

theorem cms_reject_breaks_lifecycle_witness:
  "\<exists>rep t. review_action wit_cms_env wit_cms_request '' id '' (Inr ''reject'') wit_cms_state = (Inr (200, rep, []), t) \<and>
    map_option dr_status (DisclosureStore.mem_view (svc_repo (cm_svc t)) ''c_001'' ''id'') = Some ''Draft'' \<and>
    \<not> lifecycle_ok (DisclosureStore.mem_view (svc_repo (cm_svc t)))"
proof -
  let ?sub = "\<lparr>ac_sub = ''u_admin'', ac_session = ''s_1'', ac_membership = ''m_admin_001'', ac_company = ''c_001''\<rparr>"
  have m: "map_option dr_status (DisclosureStore.mem_view (svc_repo wit_mem3) ''c_001'' ''id'') = Some ''Completed''" by code_simp
  then obtain cur where c: "DisclosureStore.mem_view (svc_repo wit_mem3) ''c_001'' ''id'' = Some cur" "dr_status cur = ''Completed''" by auto
  have t: "trim_space '' id '' = ''id''" "colon_free (ac_company ?sub)" by code_simp+
  have ok: "lifecycle_ok (DisclosureStore.mem_view (svc_repo wit_mem3))"
    using mem_records.run_lifecycle [OF wit_mem_run wit_mem0_ok(1) wit_mem_env_port wit_mem0_ok(2)] by blast
  have e: "de_port (ce_disc wit_cms_env) = mem_disclosure (\<lambda>m. []) (\<lambda>m. [])" by (simp add: wit_cms_env_def wit_mem_env_def)
  have i: "ce_inspect wit_cms_env (bearer_token (hq_authorization wit_cms_request)) = Inr ?sub"
    by (simp add: wit_cms_env_def)
  have s: "svc_repo (cm_svc wit_cms_state) = svc_repo wit_mem3" by (simp add: wit_cms_state_def)
  let ?ps = "[''rbac.manage'', ''platform.cms.view'']"
  have h: "has_any_permission ?ps [''platform.cms.view'']" "has_any_permission ?ps reviewer_permissions"
    "trim_space (ac_membership ?sub) \<noteq> []" "trim_space (ac_company ?sub) \<noteq> []" by code_simp+
  have g: "\<exists>eff a'. get_effective_access (de_resolve (ce_disc wit_cms_env)) (ac_membership ?sub) (ac_company ?sub) a = (Inr eff, a') \<and>
      has_any_permission (ea_permissions eff) [''platform.cms.view''] \<and> has_any_permission (ea_permissions eff) reviewer_permissions" for a
    using h by (simp add: get_effective_access_def seqE_def wit_cms_env_def wit_grants_def)
  have l: "lifecycle_ok (DisclosureStore.mem_view (svc_repo (cm_svc wit_cms_state)))" unfolding s by (rule ok)
  have f: "DisclosureStore.mem_view (svc_repo (cm_svc wit_cms_state)) (ac_company ?sub) (trim_space '' id '') = Some cur"
    unfolding s t(1) using c(1) by simp
  have n: "trim_space '' id '' \<noteq> []" unfolding t(1) by simp
  from cms_reject_breaks_lifecycle [OF e l i t(2) g f n] c(2) show ?thesis unfolding t(1) by fastforce
qed

definition wit_list_env :: "(disc_db, unit, audit_entry list, admin_mem, unit, media_map) cms_env" where
  "wit_list_env = \<lparr>ce_disc = wit_disc_env\<lparr>de_resolve := (\<lambda>m c s. (Inr ((wit_grants m c)\<lparr>ea_permissions := [''rbac.manage'', ''platform.cms.view'']\<rparr>), s))\<rparr>,
     ce_admin = ce_admin wit_cms_env, ce_inspect = ce_inspect wit_cms_env, ce_audit = mem_audit, ce_list_sessions = (\<lambda>u c s. (Inr [], s)),
     ce_revoke_session = (\<lambda>u i s. (Inr (), s)), ce_media = mem_media (\<lambda>m. []), ce_hmac = (\<lambda>x. ''00''), ce_ttl = 600, ce_dir = ''var'', ce_base_url = []\<rparr>"

definition wit_list_state :: "(disc_db, unit, audit_entry list, admin_mem, unit, media_map) cms_state" where
  "wit_list_state = \<lparr>cm_svc = wit_created, cm_admin = new_admin_mem, cm_iam = (), cm_audit = \<lparr>au_repo = [], au_ids = tally_ids\<rparr>, cm_media = Map.empty,
     cm_disk = Map.empty, cm_uuids = tally_ids, cm_metrics = []\<rparr>"

theorem collections_partition_witness:
  "\<exists>cs meta t. collections wit_list_env wit_cms_request wit_list_state = (Inr (200, CCollections cs, meta), t) \<and>
    map cl_id cs = [''dt-1''] \<and> list_all (\<lambda>c. cl_count c = 1) cs"
proof -
  let ?run = "collections wit_list_env wit_cms_request wit_list_state"
  let ?rs = "filter (\<lambda>r. dr_company r = ''c_001'') (dd_records (svc_repo (cm_svc wit_list_state)))"
  have r: "?run = (Inr (projr (fst ?run)), snd ?run)" by (rule run_projr) code_simp
  obtain st body meta where o: "projr (fst ?run) = (st, body, meta)" by (metis prod_cases3)
  have i: "ce_inspect wit_list_env (bearer_token (hq_authorization wit_cms_request)) =
      Inr \<lparr>ac_sub = ''u_admin'', ac_session = ''s_1'', ac_membership = ''m_admin_001'', ac_company = ''c_001''\<rparr>"
    by (simp add: wit_list_env_def wit_cms_env_def)
  have e: "de_port (ce_disc wit_list_env) = sql_disclosure (\<lambda>x p. True)" by (simp add: wit_list_env_def wit_disc_env_def)
  have t: "map dr_type ?rs = [''dt-1'']" "trim_space ''dt-1'' = ''dt-1''" by code_simp+
  then obtain r0 where r0: "?rs = [r0]" "dr_type r0 = ''dt-1''" by (cases ?rs) auto
  from collections_partition [OF e i r [unfolded o], of ?rs] obtain cs where
    cs: "st = 200" "body = CCollections cs" "distinct (map cl_id cs)" "set (map cl_id cs) = {''dt-1''}" "\<forall>c \<in> set cs. summarises ?rs c"
    by (auto simp: r0 t(2))
  then have ids: "map cl_id cs = [''dt-1'']"
    by (cases cs; cases "tl cs") (auto)
  then have counts: "list_all (\<lambda>c. cl_count c = 1) cs"
    using cs(5) by (auto simp: list_all_iff summarises_def of_type_def type_or_general_def r0 t(2))
  have run: "?run = (Inr (200, CCollections cs, meta), snd ?run)" using r unfolding o cs(1,2) .
  show ?thesis by (intro exI [of _ cs] exI [of _ meta] exI [of _ "snd ?run"] conjI run ids counts)
qed

lemma with_auth_unit [simp]: "with_auth a s = s" for a :: unit
  by (cases s) (cases "cm_svc s", simp add: with_auth_def)

theorem cms_gate_denies_witness:
  "\<exists>metrics. serve_cms (wit_cms_env\<lparr>ce_disc := wit_mem_env 0\<rparr>) wit_cms_request 1 (RevokeSession ''s_1'') wit_cms_state =
    (Inl (write_error (access_denied CodePermissionDenied)), wit_cms_state\<lparr>cm_metrics := metrics\<rparr>)"
proof -
  let ?env = "wit_cms_env\<lparr>ce_disc := wit_mem_env 0\<rparr>" and ?sub = "\<lparr>ac_sub = ''u_admin'', ac_session = ''s_1'', ac_membership = ''m_admin_001'', ac_company = ''c_001''\<rparr>"
  let ?run = "get_effective_access (de_resolve (ce_disc ?env)) (ac_membership ?sub) (ac_company ?sub) (svc_auth (cm_svc wit_cms_state))"
  have i: "ce_inspect ?env (bearer_token (hq_authorization wit_cms_request)) = Inr ?sub" by (simp add: wit_cms_env_def)
  have g: "?run = (Inr (projr (fst ?run)), snd ?run)" by (rule run_projr) code_simp
  have no: "\<not> has_any_permission (ea_permissions (projr (fst ?run))) [''platform.cms.view'']" by code_simp
  from cms_gate_denies [OF i g no, of "RevokeSession ''s_1''" 1] show ?thesis by simp
qed

end
