(* ===== verification/CmsMediaRuns.thy ===== *)
theory CmsMediaRuns
  imports CmsRoutes
begin

section \<open>The life of a media asset\<close>

text \<open>
  What the two repositories of assets promise the handlers is the interface \<open>media_repo\<close>: the assets are found under
  the key of their identifier and change only by creation, completion and deletion. Over it runs of
  the whole CMS keep an invariant: an asset that is ready has its file.
\<close>

subsection \<open>The interface of the repositories\<close>

definition stored_as :: "media_asset \<Rightarrow> media_asset \<Rightarrow> bool" where
  "stored_as a b \<longleftrightarrow> ma_id b = ma_id a \<and> ma_company b = ma_company a \<and> ma_key b = ma_key a \<and> ma_type b = ma_type a \<and> ma_size b = ma_size a \<and>
     ma_state b = ma_state a \<and> ma_deleted b = None \<and> ma_expires b = ma_expires a"

definition live :: "(string \<Rightarrow> string) \<Rightarrow> string \<Rightarrow> media_asset \<Rightarrow> bool" where
  "live key c a \<longleftrightarrow> key (ma_company a) = key c \<and> ma_deleted a = None"

locale media_repo =
  fixes port :: "'m media_port" and look :: "'m \<Rightarrow> string \<Rightarrow> media_asset option" and ok :: "'m \<Rightarrow> bool" and key :: "string \<Rightarrow> string"
  assumes look_key: "ok m \<Longrightarrow> look m i = Some a \<Longrightarrow> key (ma_id a) = key i"
    and same_key: "key i = key j \<Longrightarrow> look m i = look m j"
    and by_id: "mp_by_id port i m = (case look m i of None \<Rightarrow> Inl no_asset | Some a \<Rightarrow> Inr a, m)"
    and by_company: "ok m \<Longrightarrow> mp_by_company port c i m = (case look m i of None \<Rightarrow> Inl no_asset | Some a \<Rightarrow> if live key c a then Inr a else Inl no_asset, m)"
    and create: "ok m \<Longrightarrow> look m (ma_id a) = None \<Longrightarrow> ma_deleted a = None \<Longrightarrow> mp_create port now a m = (u, m') \<Longrightarrow>
      m' = m \<or> ok m' \<and> (\<exists>b. stored_as a b \<and> (\<forall>i. look m' i = (if key i = key (ma_id a) then Some b else look m i)))"
    and list_pure: "snd (mp_list port now c q m) = m"
    and complete: "ok m \<Longrightarrow> mp_complete port now c i k m = (case look m i of None \<Rightarrow> (Inl no_asset, m)
      | Some a \<Rightarrow> if \<not> live key c a then (Inl no_asset, m) else case may_complete k a of Some e \<Rightarrow> (Inl e, m)
        | None \<Rightarrow> (Inr (completed_asset now k a), snd (mp_complete port now c i k m)))"
    and complete_look: "ok m \<Longrightarrow> look m i = Some a \<Longrightarrow> live key c a \<Longrightarrow> may_complete k a = None \<Longrightarrow> mp_complete port now c i k m = (x, m') \<Longrightarrow>
      ok m' \<and> (\<forall>j. look m' j = (if key j = key i then Some (completed_asset now k a) else look m j))"
    and delete: "ok m \<Longrightarrow> look m i = Some a \<Longrightarrow> live key c a \<Longrightarrow> mp_delete port now c i actor m = (x, m') \<Longrightarrow>
      x = Inr (deleted_asset now actor a) \<and> ok m' \<and> (\<forall>j. look m' j = (if key j = key i then Some (deleted_asset now actor a) else look m j))"

subsubsection \<open>The map\<close>

definition media_map_ok :: "media_map \<Rightarrow> bool" where
  "media_map_ok m \<longleftrightarrow> (\<forall>i a. m i = Some a \<longrightarrow> ma_id a = i)"

interpretation mem_assets: media_repo "mem_media ord" "\<lambda>m. m" media_map_ok "\<lambda>i. i"
  by unfold_locales
    (auto simp: mem_media_def mem_media_create_def mem_media_by_id_def mem_media_by_company_def mem_media_list_def mem_media_complete_def mem_media_delete_def
      live_asset_def live_def media_map_ok_def stored_as_def completed_asset_def deleted_asset_def split: option.splits if_splits)

subsubsection \<open>The table\<close>

definition media_table_ok :: "(string \<Rightarrow> string) \<Rightarrow> media_table \<Rightarrow> bool" where
  "media_table_ok rank rows \<longleftrightarrow> distinct (map (\<lambda>r. rank (ma_id r)) rows)"

definition row_of :: "(string \<Rightarrow> string) \<Rightarrow> media_table \<Rightarrow> string \<Rightarrow> media_asset option" where
  "row_of rank rows i = List.find (\<lambda>r. rank (ma_id r) = rank i) rows"

lemma row_of_Cons [simp]: "row_of rank [] i = None" "row_of rank (r # rows) i = (if rank (ma_id r) = rank i then Some r else row_of rank rows i)"
  by (simp_all add: row_of_def)

lemma row_of_None: "row_of rank rows i = None \<longleftrightarrow> (\<forall>r \<in> set rows. rank (ma_id r) \<noteq> rank i)"
  by (auto simp: row_of_def find_None_iff)

lemma find_live: "media_table_ok rank rows \<Longrightarrow> List.find (live_row rank c i) rows =
    (case row_of rank rows i of None \<Rightarrow> None | Some a \<Rightarrow> if live rank c a then Some a else None)"
proof (induction rows)
  case (Cons r rows)
  then have "media_table_ok rank rows" by (simp add: media_table_ok_def)
  moreover have "rank (ma_id r) = rank i \<Longrightarrow> row_of rank rows i = None" using Cons.prems by (force simp: row_of_None media_table_ok_def image_iff)
  ultimately show ?case using Cons.IH by (auto simp: live_row_def live_def split: option.splits)
qed simp

lemma row_of_append: "row_of rank (rows @ [r]) i = (case row_of rank rows i of None \<Rightarrow> if rank (ma_id r) = rank i then Some r else None | Some a \<Rightarrow> Some a)"
  by (induction rows) auto

lemma row_of_map: "(\<And>r. ma_id (f r) = ma_id r) \<Longrightarrow> row_of rank (snd (sql_update P f rows)) j = map_option (\<lambda>r. if P r then f r else r) (row_of rank rows j)"
  by (induction rows) auto

lemma table_ok_update: "(\<And>r. ma_id (f r) = ma_id r) \<Longrightarrow> media_table_ok rank rows \<Longrightarrow> media_table_ok rank (snd (sql_update P f rows))"
  by (simp add: media_table_ok_def comp_def if_distrib [of ma_id] cong: if_cong)

lemma row_of_key: "row_of rank rows i = Some a \<Longrightarrow> rank (ma_id a) = rank i"
  by (auto simp: row_of_def find_Some_iff)

lemma row_of_update:
  assumes "media_table_ok rank rows" and "row_of rank rows i = Some a" and "live rank c a" and "\<And>r. ma_id (f r) = ma_id r"
  shows "media_table_ok rank (snd (sql_update (live_row rank c i) f rows)) \<and>
    row_of rank (snd (sql_update (live_row rank c i) f rows)) j = (if rank j = rank i then Some (f a) else row_of rank rows j)"
proof (cases "rank j = rank i")
  case True
  then have "row_of rank rows j = Some a" using assms(2) by (simp add: row_of_def)
  then show ?thesis using assms True row_of_key [OF assms(2)] by (simp add: row_of_map table_ok_update live_row_def live_def del: sql_update_simps)
next
  case False
  then have "map_option (\<lambda>r. if live_row rank c i r then f r else r) (row_of rank rows j) = row_of rank rows j"
    using row_of_key [of rank rows j] by (cases "row_of rank rows j") (auto simp: live_row_def)
  then show ?thesis using assms False by (simp add: row_of_map table_ok_update del: sql_update_simps)
qed

interpretation sql_assets: media_repo "sql_media rank like" "row_of rank" "media_table_ok rank" rank
proof unfold_locales
  fix m i a assume "row_of rank m i = Some a"
  then show "rank (ma_id a) = rank i" by (auto simp: row_of_def find_Some_iff)
next
  fix m i j assume "rank i = rank j"
  then show "row_of rank m i = row_of rank m j" by (simp add: row_of_def)
next
  fix i m show "mp_by_id (sql_media rank like) i m = (case row_of rank m i of None \<Rightarrow> Inl no_asset | Some a \<Rightarrow> Inr a, m)"
    by (simp add: sql_media_def sql_media_by_id_def scan_media_row_def row_of_def)
next
  fix m c i assume "media_table_ok rank m"
  then show "mp_by_company (sql_media rank like) c i m = (case row_of rank m i of None \<Rightarrow> Inl no_asset | Some a \<Rightarrow> if live rank c a then Inr a else Inl no_asset, m)"
    by (simp add: sql_media_def sql_media_by_company_def scan_media_row_def find_live split: option.splits)
next
  fix m a now x m'
  assume ok: "media_table_ok rank m" and none: "row_of rank m (ma_id a) = None" and "ma_deleted a = None" and run: "mp_create (sql_media rank like) now a m = (x, m')"
  show "m' = m \<or> media_table_ok rank m' \<and> (\<exists>b. stored_as a b \<and> (\<forall>i. row_of rank m' i = (if rank i = rank (ma_id a) then Some b else row_of rank m i)))"
  proof (cases "m' = m")
    case False
    then have m': "m' = m @ [asset_row now a]" using run by (auto simp: sql_media_def sql_media_create_def split: if_splits)
    have "media_table_ok rank m'" using ok none by (force simp: m' media_table_ok_def asset_row_def row_of_None)
    moreover have "row_of rank m' i = (if rank i = rank (ma_id a) then Some (asset_row now a) else row_of rank m i)" for i
    proof (cases "rank i = rank (ma_id a)")
      case True
      then have "row_of rank m i = None" using none by (simp add: row_of_def)
      with True show ?thesis by (simp add: m' row_of_append) (simp add: asset_row_def)
    next
      case False
      then show ?thesis by (auto simp: m' row_of_append asset_row_def split: option.splits)
    qed
    moreover have "stored_as a (asset_row now a)" by (simp add: stored_as_def asset_row_def)
    ultimately show ?thesis by blast
  qed simp
next
  fix now c q m show "snd (mp_list (sql_media rank like) now c q m) = m" by (simp add: sql_media_def sql_media_list_def)
next
  fix m now c i k assume "media_table_ok rank m"
  then show "mp_complete (sql_media rank like) now c i k m = (case row_of rank m i of None \<Rightarrow> (Inl no_asset, m)
      | Some a \<Rightarrow> if \<not> live rank c a then (Inl no_asset, m) else case may_complete k a of Some e \<Rightarrow> (Inl e, m)
        | None \<Rightarrow> (Inr (completed_asset now k a), snd (mp_complete (sql_media rank like) now c i k m)))"
    by (auto simp: sql_media_def sql_media_complete_def sql_media_by_company_def scan_media_row_def find_live seqE_def failE_def split: option.splits)
next
  fix m i a c k now x m'
  assume a: "media_table_ok rank m" "row_of rank m i = Some a" "live rank c a" "may_complete k a = None" "mp_complete (sql_media rank like) now c i k m = (x, m')"
  then have "m' = snd (sql_update (live_row rank c i) (completed_asset now k) m)"
    by (auto simp: sql_media_def sql_media_complete_def sql_media_by_company_def scan_media_row_def find_live seqE_def)
  with row_of_update [OF a(1-3), of "completed_asset now k"]
  show "media_table_ok rank m' \<and> (\<forall>j. row_of rank m' j = (if rank j = rank i then Some (completed_asset now k a) else row_of rank m j))"
    by (simp add: completed_asset_def)
next
  fix m i a c now actor x m'
  assume a: "media_table_ok rank m" "row_of rank m i = Some a" "live rank c a" "mp_delete (sql_media rank like) now c i actor m = (x, m')"
  then have "m' = snd (sql_update (live_row rank c i) (deleted_asset now actor) m)" "x = Inr (deleted_asset now actor a)"
    by (auto simp: sql_media_def sql_media_delete_def sql_media_by_company_def scan_media_row_def find_live seqE_def)
  with row_of_update [OF a(1-3), of "deleted_asset now actor"]
  show "x = Inr (deleted_asset now actor a) \<and> media_table_ok rank m' \<and> (\<forall>j. row_of rank m' j = (if rank j = rank i then Some (deleted_asset now actor a) else row_of rank m j))"
    by (simp add: deleted_asset_def)
qed

subsection \<open>Calls that leave the media alone\<close>

definition core :: "('r, 's, 'a, 'd, 'i, 'm) cms_state \<Rightarrow> 'm \<times> disk \<times> idgen" where
  "core s = (cm_media s, cm_disk s, cm_uuids s)"

definition spares :: "('r, 's, 'a, 'd, 'i, 'm, 'x) cms \<Rightarrow> bool" where
  "spares m \<longleftrightarrow> (\<forall>s. core (snd (m s)) = core s)"

named_theorems spare_intros \<open>actions that leave the media alone\<close>

lemma spares_seqE [spare_intros]: "spares m \<Longrightarrow> (\<And>x. spares (k x)) \<Longrightarrow> spares (seqE m k)"
  by (auto simp: spares_def seqE_def split: prod.splits sum.splits) (metis snd_conv)+

lemma spares_basic [spare_intros]: "spares (okE x)" "spares (failE e)" "spares (chkE b e)" "spares (liftE f)"
  by (simp_all add: spares_def okE_def failE_def)

lemma spares_on [spare_intros]: "spares (on_svc a)" "spares (on_admin b)" "spares (on_iam c)" "spares (on_audit d)" "spares (cms_audit env sub act rt rid meta)"
  by (auto simp: spares_def on_svc_def on_admin_def on_iam_def on_audit_def cms_audit_def core_def split: prod.splits)

lemma spares_split [spare_intros]: "(P \<Longrightarrow> spares m) \<Longrightarrow> (\<not> P \<Longrightarrow> spares n) \<Longrightarrow> spares (if P then m else n)"
  "(\<And>a b. spares (f a b)) \<Longrightarrow> spares (case q of (a, b) \<Rightarrow> f a b)"
  by (simp_all split: prod.splits)

lemma spares_values [spare_intros]: "spares (need_value v what)" "spares (decoded body)" "spares (positive_query raw what)"
  by (auto simp: need_value_def decoded_def positive_query_def intro: spare_intros split: sum.splits option.splits)

lemma spares_enter [spare_intros]: "spares (require_any_permission env sub perms)" "spares (enter env req)" "spares (enter_with env req perms)"
  by (simp_all add: require_any_permission_def enter_def enter_with_def require_cms_access_def spare_intros)

lemma spares_reads [spare_intros]: "spares (cms_records env sub)" "spares (cms_find env sub i)" "spares (cms_save env r)" "spares (own_access env sub)"
  by (simp_all add: cms_records_def cms_find_def cms_save_def own_access_def spare_intros)

lemma spares_probe [spare_intros]: "spares m \<Longrightarrow> spares (probe m)"
  by (auto simp: spares_def probe_def split: prod.splits sum.splits) (metis snd_conv)+

lemma spares_state [spare_intros]: "spares (\<lambda>s. (x s, s))"
  by (simp add: spares_def)

lemma spares_handlers [spare_intros]: "spares (approve_entry env sub e)" "spares (reject_entry env sub e)"
  by (simp_all add: approve_entry_def reject_entry_def spare_intros)

fun touches_media :: "cms_call \<Rightarrow> bool" where
  "touches_media (MediaIntent _ _) = True"
| "touches_media (MediaPut _ _ _ _) = True"
| "touches_media (MediaComplete _ _) = True"
| "touches_media (MediaList _ _) = True"
| "touches_media (MediaDelete _) = True"
| "touches_media _ = False"

lemma spares_calls: "\<not> touches_media call \<Longrightarrow> spares (cms_handler env req call)"
  by (cases call) (simp_all add: dashboard_summary_def collections_def collection_detail_def entries_def entry_detail_def create_entry_def
    update_entry_def reviews_def review_action_def schedules_def create_schedule_def delete_schedule_def releases_def admin_users_def
    create_admin_user_def cms_roles_def cms_rules_def validate_rule_def audit_logs_def cms_sessions_def cms_revoke_session_def system_health_def
    system_metrics_def Let_def spare_intros)

lemma spares_step:
  assumes "spares m" and "Q (core s)" and "\<And>x u. m s = (Inr x, u) \<Longrightarrow> core u = core s \<Longrightarrow> Q (core (snd (k x u)))"
  shows "Q (core (snd (seqE m k s)))"
  using assms unfolding spares_def seqE_def by (auto split: prod.splits sum.splits) (metis snd_conv)+

subsection \<open>The invariant\<close>

definition uuids_ok :: "(string \<Rightarrow> string) \<Rightarrow> idgen \<Rightarrow> bool" where
  "uuids_ok key g \<longleftrightarrow> inj (\<lambda>n. key (new_asset_id (ig_supply g n))) \<and> (\<forall>n. CHR ''/'' \<notin> set (ig_supply g n))"

definition file_name_ok :: "string \<Rightarrow> bool" where
  "file_name_ok f \<longleftrightarrow> CHR ''/'' \<notin> set f \<and> (\<forall>r. f \<noteq> CHR ''.'' # CHR ''.'' # r)"

definition asset_ok :: "string \<Rightarrow> disk \<Rightarrow> idgen \<Rightarrow> media_asset \<Rightarrow> bool" where
  "asset_ok dir d g a \<longleftrightarrow> (\<exists>n < ig_next g. ma_id a = new_asset_id (ig_supply g n)) \<and>
     (\<exists>c f. plain_elem c \<and> file_name_ok f \<and> ma_key a = object_key c (ma_id a) f) \<and>
     (ma_state a = ''ready'' \<longrightarrow> disk_exists dir (ma_key a) d)"

definition media_inv :: "('m \<Rightarrow> string \<Rightarrow> media_asset option) \<Rightarrow> ('m \<Rightarrow> bool) \<Rightarrow> (string \<Rightarrow> string) \<Rightarrow> string \<Rightarrow> 'm \<times> disk \<times> idgen \<Rightarrow> bool" where
  "media_inv look ok key dir = (\<lambda>(m, d, g). ok m \<and> uuids_ok key g \<and> (\<forall>i a. look m i = Some a \<longrightarrow> asset_ok dir d g a))"

lemma plain_asset_id: "CHR ''/'' \<notin> set u \<Longrightarrow> plain_elem (new_asset_id u)"
  by (simp add: plain_elem_def new_asset_id_def dotdot_def)

text \<open>The file of an asset names it.\<close>

lemma asset_path:
  assumes "asset_ok dir d g a" and "uuids_ok key g" and "dir \<noteq> []"
  obtains p where "resolve_path dir (ma_key a) = Inr p" and "path_elems p ! (length (path_elems dir) + 4) = ma_id a"
proof -
  obtain n c f where a: "ma_id a = new_asset_id (ig_supply g n)" "plain_elem c" "file_name_ok f" "ma_key a = object_key c (ma_id a) f"
    using assms(1) by (auto simp: asset_ok_def)
  have "plain_elem (ma_id a)" using a(1) assms(2) by (simp add: plain_asset_id uuids_ok_def)
  with resolve_object_key [OF a(2) this _ _ assms(3), of f] a(3,4) obtain p fs where
    p: "resolve_path dir (ma_key a) = Inr p" "path_elems p = path_elems dir @ key_elems c (ma_id a) @ fs" by (auto simp: file_name_ok_def)
  have "path_elems p ! (length (path_elems dir) + 4) = (key_elems c (ma_id a) @ fs) ! 4" by (simp only: p(2) nth_append_length_plus)
  with p(1) show thesis by (intro that) (simp_all add: key_elems_def)
qed

lemma asset_ok_same_file:
  assumes "asset_ok dir d g a" and "asset_ok dir d g b" and "uuids_ok key g" and "dir \<noteq> []"
    and "resolve_path dir (ma_key a) = Inr p" and "resolve_path dir (ma_key b) = Inr p"
  shows "ma_id a = ma_id b"
  using asset_path [OF assms(1,3,4)] asset_path [OF assms(2,3,4)] assms(5,6) by (metis Inr_inject)

lemma asset_ok_state: "asset_ok dir d g a \<Longrightarrow> ma_id b = ma_id a \<Longrightarrow> ma_key b = ma_key a \<Longrightarrow> (ma_state b = ''ready'' \<Longrightarrow> disk_exists dir (ma_key a) d') \<Longrightarrow> asset_ok dir d' g b"
  by (auto simp: asset_ok_def)

lemma asset_ok_next: "asset_ok dir d g a \<Longrightarrow> asset_ok dir d (g\<lparr>ig_next := Suc (ig_next g)\<rparr>) a"
  unfolding asset_ok_def by (simp, metis less_SucI)

definition finish_put :: "('r, 's, 'a, 'd, 'i, 'm) cms_env \<Rightarrow> upload_body \<Rightarrow> int \<Rightarrow> media_asset \<Rightarrow> ('r, 's, 'a, 'd, 'i, 'm, envelope) cms" where
  "finish_put env body sz a = seqE (store_upload env (ma_key a) sz body) (\<lambda>_. okE (200, CRaw ''ok'', []))"

definition announce :: "('r, 's, 'a, 'd, 'i, 'm) cms_env \<Rightarrow> access_claims \<Rightarrow> origin \<Rightarrow> media_intent \<Rightarrow> ('r, 's, 'a, 'd, 'i, 'm, envelope) cms" where
  "announce env sub o' p =
    seqE next_asset_id (\<lambda>asset.
    let a = pending_asset env sub o' p asset in
    seqE (on_media (mp_create (ce_media env) (de_now (ce_disc env)) a)) (\<lambda>_.
    seqE (cms_audit env sub ''cms.media.upload.intent'' ''cms_media_asset'' asset
      (Some [(''content_type'', AStr (to_lower (trim_space (mi_type p)))), (''size_bytes'', AInt (mi_size p)), (''object_key'', AStr (ma_key a))])) (\<lambda>_.
    okE (201, CObject (intent_data a), []))))"


definition finish_complete :: "('r, 's, 'a, 'd, 'i, 'm) cms_env \<Rightarrow> access_claims \<Rightarrow> string \<Rightarrow> string \<Rightarrow> string \<Rightarrow> int \<Rightarrow> ('r, 's, 'a, 'd, 'i, 'm, envelope) cms" where
  "finish_complete env sub asset etag checksum sz =
    seqE (on_media (mp_complete (ce_media env) (de_now (ce_disc env)) (ac_company sub) asset \<lparr>mk_actor = ac_sub sub, mk_etag = etag, mk_checksum = checksum, mk_size = sz\<rparr>)) (\<lambda>a.
    seqE (cms_audit env sub ''cms.media.upload.complete'' ''cms_media_asset'' (ma_id a)
      (Some [(''etag'', AStr (trim_space etag)), (''checksum'', AStr (trim_space checksum)), (''object_key'', AStr (ma_key a))])) (\<lambda>_.
    okE (200, CObject [(''asset_id'', AStr (ma_id a)), (''object_key'', AStr (ma_key a)), (''content_type'', AStr (ma_type a)), (''size_bytes'', AInt (ma_size a)),
      (''state'', AStr (ma_state a)), (''completed_at'', optional_time (ma_completed a))], [])))"

definition finish_delete :: "('r, 's, 'a, 'd, 'i, 'm) cms_env \<Rightarrow> access_claims \<Rightarrow> string \<Rightarrow> media_asset \<Rightarrow> ('r, 's, 'a, 'd, 'i, 'm, envelope) cms" where
  "finish_delete env sub asset cur =
    seqE (wrapE (\<lambda>e. HTTPErr 500 CodeInternal ''failed to delete media binary'' [] (Some e)) (on_disk (disk_delete (ce_dir env) (ma_key cur)))) (\<lambda>_.
    seqE (on_media (mp_delete (ce_media env) (de_now (ce_disc env)) (ac_company sub) asset (ac_sub sub))) (\<lambda>a.
    seqE (cms_audit env sub ''cms.media.delete'' ''cms_media_asset'' (ma_id a) (Some [(''object_key'', AStr (ma_key a))])) (\<lambda>_.
    okE (200, CObject [(''asset_id'', AStr (ma_id a)), (''state'', AStr (ma_state a)), (''deleted_at'', optional_time (ma_deleted a))], []))))"

context media_repo
begin

lemma invD: "media_inv look ok key dir (m, d, g) \<Longrightarrow> look m i = Some a \<Longrightarrow> asset_ok dir d g a"
  by (simp add: media_inv_def)

lemma same_file:
  assumes "media_inv look ok key dir (m, d, g)" and "dir \<noteq> []" and "look m i = Some a" and "look m j = Some b"
    and "resolve_path dir (ma_key a) = Inr p" and "resolve_path dir (ma_key b) = Inr p"
  shows "key i = key j"
proof -
  have g: "uuids_ok key g" "ok m" using assms(1) by (simp_all add: media_inv_def)
  have "ma_id a = ma_id b" by (rule asset_ok_same_file [OF invD [OF assms(1,3)] invD [OF assms(1,4)] g(1) assms(2,5,6)])
  then show ?thesis using look_key [OF g(2) assms(3)] look_key [OF g(2) assms(4)] by simp
qed

text \<open>A change of one file does not matter to the other assets.\<close>

lemma inv_other_file:
  assumes inv: "media_inv look ok key dir (m, d, g)" and "dir \<noteq> []" and a: "look m i = Some a" "resolve_path dir (ma_key a) = Inr p"
    and d: "\<And>q. q \<noteq> p \<Longrightarrow> d' q = d q" and b: "look m j = Some b" "key j \<noteq> key i"
  shows "asset_ok dir d' g b"
proof (rule asset_ok_state [OF invD [OF inv b(1)]])
  assume r: "ma_state b = ''ready''"
  then have e: "disk_exists dir (ma_key b) d" using invD [OF inv b(1)] by (simp add: asset_ok_def)
  then obtain q where q: "resolve_path dir (ma_key b) = Inr q" by (auto simp: disk_exists_def split: sum.splits)
  have "q \<noteq> p" using same_file [OF inv assms(2) a(1) b(1) a(2)] q b(2) by auto
  with e q d show "disk_exists dir (ma_key b) d'" by (simp add: disk_exists_def)
qed simp_all

lemma inv_pending_file:
  assumes inv: "media_inv look ok key dir (m, d, g)" and "dir \<noteq> []" and a: "look m i = Some a" "ma_state a \<noteq> ''ready''" "resolve_path dir (ma_key a) = Inr p"
    and d: "\<And>q. q \<noteq> p \<Longrightarrow> d' q = d q"
  shows "media_inv look ok key dir (m, d', g)"
proof -
  have "asset_ok dir d' g b" if b: "look m j = Some b" for j b
  proof (cases "key j = key i")
    case True
    then have "b = a" using b a(1) same_key [of j i m] by simp
    then show ?thesis using a(2) by (intro asset_ok_state [OF invD [OF inv b]]) simp_all
  next
    case False
    show ?thesis by (rule inv_other_file [OF inv assms(2) a(1,3) d b False])
  qed
  with inv show ?thesis by (simp add: media_inv_def)
qed

lemma inv_create:
  assumes inv: "media_inv look ok key dir (m, d, g)" and run: "mp_create port now a m = (u, m')"
    and a: "ma_id a = new_asset_id (ig_supply g (ig_next g))" "ma_deleted a = None" "ma_state a \<noteq> ''ready''"
      "\<exists>c f. plain_elem c \<and> file_name_ok f \<and> ma_key a = object_key c (ma_id a) f"
  shows "media_inv look ok key dir (m', d, g\<lparr>ig_next := Suc (ig_next g)\<rparr>)"
proof -
  have g: "uuids_ok key g" "ok m" using inv by (simp_all add: media_inv_def)
  have "look m (ma_id a) = None"
  proof (cases "look m (ma_id a)")
    case (Some b)
    then have "asset_ok dir d g b" "key (ma_id b) = key (ma_id a)" using invD [OF inv] look_key [OF g(2)] by blast+
    then show ?thesis using g(1) a(1) by (auto simp: asset_ok_def uuids_ok_def dest: injD)
  qed
  from create [OF g(2) this a(2) run] show ?thesis
  proof (elim disjE conjE exE)
    assume "m' = m"
    then show ?thesis using inv by (auto simp: media_inv_def uuids_ok_def intro: asset_ok_next)
  next
    fix b assume b: "ok m'" "stored_as a b" "\<forall>i. look m' i = (if key i = key (ma_id a) then Some b else look m i)"
    have "asset_ok dir d (g\<lparr>ig_next := Suc (ig_next g)\<rparr>) b" using a b(2) unfolding asset_ok_def stored_as_def by auto
    then show ?thesis using inv b(1,3) g(1) by (auto simp: media_inv_def uuids_ok_def intro: asset_ok_next split: if_splits)
  qed
qed

lemma inv_change:
  assumes inv: "media_inv look ok key dir (m, d, g)" and "ok m'" and a: "look m i = Some a"
    and m': "\<forall>j. look m' j = (if key j = key i then Some b else look m j)" and b: "asset_ok dir d' g b"
    and others: "\<And>j c. look m j = Some c \<Longrightarrow> key j \<noteq> key i \<Longrightarrow> asset_ok dir d' g c"
  shows "media_inv look ok key dir (m', d', g)"
  using inv assms(2) b others by (auto simp: media_inv_def m' split: if_splits)

text \<open>The media handlers.\<close>

abbreviation inv :: "('r, 's, 'a, 'd, 'i, 'm) cms_env \<Rightarrow> 'm \<times> disk \<times> idgen \<Rightarrow> bool" where
  "inv env \<equiv> media_inv look ok key (ce_dir env)"

lemma store_upload_core:
  assumes "resolve_path (ce_dir env) k = Inr p"
  shows "\<exists>d'. core (snd (store_upload env k sz body s)) = (cm_media s, d', cm_uuids s) \<and> (\<forall>q. q \<noteq> p \<longrightarrow> d' q = cm_disk s q)"
  using assms by (auto simp: store_upload_def on_disk_def disk_write_def disk_delete_def core_def split: prod.splits sum.splits if_splits)

lemma put_inv:
  fixes env :: "('r, 's, 'a, 'd, 'i, 'm) cms_env" and s :: "('r, 's, 'a, 'd, 'i, 'm) cms_state"
  assumes "ce_media env = port" and "ce_dir env \<noteq> []" and "inv env (core s)"
  shows "inv env (core (snd (upload_media_binary env asset0 q meth body s)))"
  unfolding upload_media_binary_def Let_def finish_put_def [of env body, symmetric]
proof (intro spares_step [where Q = "inv env"] spare_intros)
  show "spares (on_media (mp_by_id (ce_media env) x))" for x by (simp add: spares_def on_media_def core_def assms(1) by_id)
next
  fix asset ex sz c e f g a h j k and u1 u2 u3 u4 u5 u6 u7 u8 u9 u10 u11 :: "('r, 's, 'a, 'd, 'i, 'm) cms_state"
  assume run: "on_media (mp_by_id (ce_media env) asset) u7 = (Inr a, u8)" and cores: "core u11 = core u10" "core u10 = core u9" "core u9 = core u8" "core u8 = core u7" "core u7 = core u6"
    "core u6 = core u5" "core u5 = core u4" "core u4 = core u3" "core u3 = core u2" "core u2 = core u1" "core u1 = core s"
    and st: "chkE (ma_state a = ''pending_upload'') (new_http_error 409 CodeInvalidRequest ''media asset is not pending upload'') u9 = (Inr j, u10)"
  have inv: "inv env (core u11)" using assms(3) cores by simp
  have "core u7 = core u11" using cores by simp
  then have look: "look (cm_media u11) asset = Some a" using run by (auto simp: core_def on_media_def assms(1) by_id split: option.splits)
  have i: "media_inv look ok key (ce_dir env) (cm_media u11, cm_disk u11, cm_uuids u11)" using inv by (simp add: core_def)
  have "uuids_ok key (cm_uuids u11)" using i by (simp add: media_inv_def)
  from asset_path [OF invD [OF i look] this assms(2)] obtain p where p: "resolve_path (ce_dir env) (ma_key a) = Inr p" by blast
  obtain d' where d: "core (snd (store_upload env (ma_key a) sz body u11)) = (cm_media u11, d', cm_uuids u11)" "\<forall>q. q \<noteq> p \<longrightarrow> d' q = cm_disk u11 q"
    using store_upload_core [OF p] by blast
  have "ma_state a \<noteq> ''ready''" using st by (auto split: if_splits)
  have "inv env (core (snd (store_upload env (ma_key a) sz body u11)))"
    unfolding d(1) by (rule inv_pending_file [OF i assms(2) look \<open>ma_state a \<noteq> ''ready''\<close> p]) (use d(2) in blast)
  then show "inv env (core (snd (finish_put env body sz a u11)))"
    by (auto simp: finish_put_def seqE_def okE_def split: prod.splits sum.splits)
qed (use assms(3) in simp_all)

lemma on_media_spares:
  assumes "\<And>m. snd (f m) = m"
  shows "spares (on_media f)"
  unfolding spares_def on_media_def core_def by (auto split: prod.splits) (metis assms snd_conv)

lemma list_spares: "ce_media env = port \<Longrightarrow> spares (list_media env req q n)"
  by (simp add: list_media_def Let_def spare_intros on_media_spares list_pure)

lemma enter_with_ok:
  assumes "enter_with env req perms s = (Inr sub, u)"
  shows "ce_inspect env (bearer_token (hq_authorization req)) = Inr sub"
  using assms by (auto simp: enter_with_def seq_iffs elim: enter_ok)

lemma announce_inv:
  fixes env :: "('r, 's, 'a, 'd, 'i, 'm) cms_env" and s :: "('r, 's, 'a, 'd, 'i, 'm) cms_state"
  assumes "ce_media env = port" and "inv env (core s)" and "plain_elem (ac_company sub)" and "sanitize_file_name (mi_name p) \<noteq> []"
  shows "inv env (core (snd (announce env sub o' p s)))"
proof -
  let ?g = "(cm_uuids s)\<lparr>ig_next := Suc (ig_next (cm_uuids s))\<rparr>" and ?i = "new_asset_id (ig_supply (cm_uuids s) (ig_next (cm_uuids s)))"
  let ?a = "pending_asset env sub o' p ?i"
  obtain u m' where c: "mp_create port (de_now (ce_disc env)) ?a (cm_media s) = (u, m')" by fastforce
  have i: "media_inv look ok key (ce_dir env) (cm_media s, cm_disk s, cm_uuids s)" using assms(2) by (simp add: core_def)
  have "file_name_ok (sanitize_file_name (mi_name p))" using sanitized [OF assms(4)] by (simp add: file_name_ok_def)
  then have "media_inv look ok key (ce_dir env) (m', cm_disk s, ?g)"
    using assms(3) by (intro inv_create [OF i c]) (auto simp: pending_asset_def Let_def)
  moreover have "core (snd (announce env sub o' p s)) = (m', cm_disk s, ?g)"
    using c by (cases u) (simp_all add: announce_def next_asset_id_def new_uuid_def seqE_def on_media_def assms(1) cms_audit_def okE_def core_def Let_def)
  ultimately show ?thesis by simp
qed

lemma intent_inv:
  fixes env :: "('r, 's, 'a, 'd, 'i, 'm) cms_env" and s :: "('r, 's, 'a, 'd, 'i, 'm) cms_state"
  assumes "ce_media env = port" and "inv env (core s)" and co: "\<And>t sub. ce_inspect env t = Inr sub \<Longrightarrow> plain_elem (ac_company sub)"
  shows "inv env (core (snd (create_media_upload_intent env req o' body s)))"
  unfolding create_media_upload_intent_def Let_def announce_def [unfolded Let_def, symmetric]
proof (intro spares_step [where Q = "inv env"] spare_intros)
  fix sub a b c and p :: media_intent and u1 u2 u3 u4 u5 :: "('r, 's, 'a, 'd, 'i, 'm) cms_state"
  assume e: "enter_with env req manager_permissions s = (Inr sub, u1)" and cores: "core u5 = core u4" "core u4 = core u3" "core u3 = core u2" "core u2 = core u1" "core u1 = core s"
    and n: "chkE (sanitize_file_name (mi_name p) \<noteq> [] \<and> to_lower (trim_space (mi_type p)) \<noteq> [] \<and> 0 < mi_size p) (bad_request ''file_name, content_type, size_bytes are required'') u2 = (Inr a, u3)"
  have "inv env (core u5)" using assms(2) cores by simp
  moreover have "plain_elem (ac_company sub)" using co enter_with_ok [OF e] by blast
  moreover have "sanitize_file_name (mi_name p) \<noteq> []" using n by (auto split: if_splits)
  ultimately show "inv env (core (snd (announce env sub o' p u5)))" by (rule announce_inv [OF assms(1)])
qed (use assms(2) in simp_all)

lemma by_company_spares:
  assumes "ce_media env = port" and "ok (cm_media s)" and "Q (core s)"
    and "\<And>a. look (cm_media s) i = Some a \<Longrightarrow> live key c a \<Longrightarrow> Q (core (snd (k a s)))"
  shows "Q (core (snd (seqE (on_media (mp_by_company (ce_media env) c i)) k s)))"
  using assms by (simp add: seqE_def on_media_def by_company core_def split: option.splits)

lemma finish_complete_inv:
  fixes env :: "('r, 's, 'a, 'd, 'i, 'm) cms_env" and s :: "('r, 's, 'a, 'd, 'i, 'm) cms_state"
  assumes "ce_media env = port" and "inv env (core s)" and look: "look (cm_media s) asset = Some a" and live: "live key (ac_company sub) a"
    and ex: "disk_exists (ce_dir env) (ma_key a) (cm_disk s)"
  shows "inv env (core (snd (finish_complete env sub asset etag checksum sz s)))"
proof -
  let ?k = "\<lparr>mk_actor = ac_sub sub, mk_etag = etag, mk_checksum = checksum, mk_size = sz\<rparr>" and ?now = "de_now (ce_disc env)"
  have i: "media_inv look ok key (ce_dir env) (cm_media s, cm_disk s, cm_uuids s)" using assms(2) by (simp add: core_def)
  then have "ok (cm_media s)" by (simp add: media_inv_def)
  note step = complete [OF this, of ?now "ac_company sub" asset ?k]
  show ?thesis
  proof (cases "may_complete ?k a")
    case (Some e)
    then have "core (snd (finish_complete env sub asset etag checksum sz s)) = core s"
      by (simp add: finish_complete_def seqE_def on_media_def assms(1) step look live core_def)
    with assms(2) show ?thesis by simp
  next
    case None
    obtain m' where m': "mp_complete port ?now (ac_company sub) asset ?k (cm_media s) = (Inr (completed_asset ?now ?k a), m')"
      using step look live None by (auto simp: prod_eq_iff)
    have "core (snd (finish_complete env sub asset etag checksum sz s)) = (m', cm_disk s, cm_uuids s)"
      by (simp add: finish_complete_def seqE_def on_media_def assms(1) m' cms_audit_def okE_def core_def)
    moreover have "asset_ok (ce_dir env) (cm_disk s) (cm_uuids s) (completed_asset ?now ?k a)"
      using ex by (intro asset_ok_state [OF invD [OF i look]]) (simp_all add: completed_asset_def)
    ultimately show ?thesis using complete_look [OF \<open>ok (cm_media s)\<close> look live None m'] invD [OF i]
      by (auto intro: inv_change [OF i _ look])
  qed
qed

lemma finish_delete_inv:
  fixes env :: "('r, 's, 'a, 'd, 'i, 'm) cms_env" and s :: "('r, 's, 'a, 'd, 'i, 'm) cms_state"
  assumes "ce_media env = port" and "ce_dir env \<noteq> []" and "inv env (core s)" and look: "look (cm_media s) asset = Some a" and live: "live key (ac_company sub) a"
  shows "inv env (core (snd (finish_delete env sub asset a s)))"
proof -
  let ?now = "de_now (ce_disc env)"
  have i: "media_inv look ok key (ce_dir env) (cm_media s, cm_disk s, cm_uuids s)" using assms(3) by (simp add: core_def)
  then have g: "ok (cm_media s)" "uuids_ok key (cm_uuids s)" by (simp_all add: media_inv_def)
  obtain p where p: "resolve_path (ce_dir env) (ma_key a) = Inr p" using asset_path [OF invD [OF i look] g(2) assms(2)] by blast
  obtain x m' where m': "mp_delete port ?now (ac_company sub) asset (ac_sub sub) (cm_media s) = (x, m')" by fastforce
  from delete [OF g(1) look live m'] have x: "x = Inr (deleted_asset ?now (ac_sub sub) a)" "ok m'"
    "\<forall>j. look m' j = (if key j = key asset then Some (deleted_asset ?now (ac_sub sub) a) else look (cm_media s) j)" by auto
  have "core (snd (finish_delete env sub asset a s)) = (m', (cm_disk s)(p := None), cm_uuids s)"
    using m' by (simp add: finish_delete_def seqE_def wrapE_def on_media_def on_disk_def disk_delete_def assms(1) p x(1) cms_audit_def okE_def core_def)
  moreover have "asset_ok (ce_dir env) ((cm_disk s)(p := None)) (cm_uuids s) (deleted_asset ?now (ac_sub sub) a)"
    by (intro asset_ok_state [OF invD [OF i look]]) (simp_all add: deleted_asset_def)
  moreover have "asset_ok (ce_dir env) ((cm_disk s)(p := None)) (cm_uuids s) b" if "look (cm_media s) j = Some b" "key j \<noteq> key asset" for j b
    by (rule inv_other_file [OF i assms(2) look p _ that]) simp
  ultimately show ?thesis using inv_change [OF i x(2) look x(3)] by simp
qed

lemma complete_inv:
  fixes env :: "('r, 's, 'a, 'd, 'i, 'm) cms_env" and s :: "('r, 's, 'a, 'd, 'i, 'm) cms_state"
  assumes "ce_media env = port" and "inv env (core s)"
  shows "inv env (core (snd (complete_media_upload env req asset body s)))"
  unfolding complete_media_upload_def finish_complete_def [symmetric]
proof (rule spares_step [where Q = "inv env"], simp add: spare_intros, use assms(2) in simp,
    rule spares_step [where Q = "inv env"], simp add: spare_intros, use assms(2) in simp,
    rule spares_step [where Q = "inv env"], simp add: spare_intros, use assms(2) in simp)
  fix sub i and x :: "string \<times> string \<times> int" and u1 u2 u3 :: "('r, 's, 'a, 'd, 'i, 'm) cms_state"
  assume cores: "core u3 = core u2" "core u2 = core u1" "core u1 = core s"
  obtain etag checksum sz where x: "x = (etag, checksum, sz)" by (cases x)
  have v: "inv env (core u3)" using assms(2) cores by simp
  then have "ok (cm_media u3)" by (simp add: media_inv_def core_def)
  then show "inv env (core (snd ((case x of (etag, checksum, sz) \<Rightarrow>
      seqE (on_media (mp_by_company (ce_media env) (ac_company sub) i)) (\<lambda>cur.
      seqE (\<lambda>s. chkE (disk_exists (ce_dir env) (ma_key cur) (cm_disk s)) (new_http_error 409 CodeInvalidRequest ''media binary not uploaded yet'') s) (\<lambda>_.
      finish_complete env sub i etag checksum sz))) u3)))"
    using v by (auto simp: x intro!: by_company_spares [where Q = "inv env", OF assms(1)])
      (auto simp: seqE_def okE_def failE_def intro: finish_complete_inv [OF assms(1) v])
qed

lemma delete_inv:
  fixes env :: "('r, 's, 'a, 'd, 'i, 'm) cms_env" and s :: "('r, 's, 'a, 'd, 'i, 'm) cms_state"
  assumes "ce_media env = port" and "ce_dir env \<noteq> []" and "inv env (core s)"
  shows "inv env (core (snd (delete_media env req asset s)))"
  unfolding delete_media_def finish_delete_def [symmetric]
proof (rule spares_step [where Q = "inv env"], simp add: spare_intros, use assms(3) in simp,
    rule spares_step [where Q = "inv env"], simp add: spare_intros, use assms(3) in simp)
  fix sub i and u1 u2 :: "('r, 's, 'a, 'd, 'i, 'm) cms_state"
  assume cores: "core u2 = core u1" "core u1 = core s"
  have v: "inv env (core u2)" using assms(3) cores by simp
  then have "ok (cm_media u2)" by (simp add: media_inv_def core_def)
  then show "inv env (core (snd (seqE (on_media (mp_by_company (ce_media env) (ac_company sub) i)) (finish_delete env sub i) u2)))"
    using v by (auto intro!: by_company_spares [where Q = "inv env", OF assms(1)] finish_delete_inv [OF assms(1,2) v])
qed

lemma call_inv:
  fixes env :: "('r, 's, 'a, 'd, 'i, 'm) cms_env" and s :: "('r, 's, 'a, 'd, 'i, 'm) cms_state"
  assumes "ce_media env = port" and "ce_dir env \<noteq> []" and "\<And>t sub. ce_inspect env t = Inr sub \<Longrightarrow> plain_elem (ac_company sub)" and "inv env (core s)"
  shows "inv env (core (snd (cms_handler env req call s)))"
proof (cases "touches_media call")
  case True
  then show ?thesis
    using intent_inv [OF assms(1,4,3)] put_inv [OF assms(1,2,4)] complete_inv [OF assms(1,4)] delete_inv [OF assms(1,2,4)] list_spares [OF assms(1)] assms(4)
    by (cases call) (simp_all add: spares_def)
next
  case False
  with spares_calls have "spares (cms_handler env req call)" .
  with assms(4) show ?thesis by (simp add: spares_def)
qed

end

subsection \<open>Runs of the CMS\<close>

text \<open>Any calls, at any times and under any grants, on one repository and one directory.\<close>

inductive cms_runs :: "'m media_port \<Rightarrow> string \<Rightarrow> ('r, 's, 'a, 'd, 'i, 'm) cms_state \<Rightarrow> ('r, 's, 'a, 'd, 'i, 'm) cms_state \<Rightarrow> bool"
  for port :: "'m media_port" and dir :: string and s :: "('r, 's, 'a, 'd, 'i, 'm) cms_state" where
  start: "cms_runs port dir s s"
| call: "cms_runs port dir s t \<Longrightarrow> ce_media env = port \<Longrightarrow> ce_dir env = dir \<Longrightarrow> (\<And>tok sub. ce_inspect env tok = Inr sub \<Longrightarrow> plain_elem (ac_company sub)) \<Longrightarrow>
    serve_cms env req ms c t = (r, u) \<Longrightarrow> cms_runs port dir s u"

lemma core_respond [simp]: "core (snd (respond m s)) = core (snd (m s))"
  by (simp add: respond_def split: prod.splits sum.splits)

lemma core_serve: "core (snd (serve_cms env req ms call s)) = core (snd (cms_handler env req call s))"
proof -
  have "core (snd (serve_cms env req ms call s)) = core (snd (respond (cms_handler env req call) s))"
    by (auto simp: serve_cms_def observe_def core_def split: prod.splits)
  then show ?thesis by simp
qed

context media_repo
begin

lemma runs_inv:
  assumes "cms_runs port dir s t" and "dir \<noteq> []" and "media_inv look ok key dir (core s)"
  shows "media_inv look ok key dir (core t)"
  using assms(1)
proof induction
  case (call t env req ms c r u)
  have "core u = core (snd (cms_handler env req c t))" using call.hyps core_serve [of env req ms c t] by simp
  moreover have "media_inv look ok key (ce_dir env) (core (snd (cms_handler env req c t)))"
    using call assms(2) by (intro call_inv) auto
  ultimately show ?case using call.hyps by simp
qed (rule assms(3))

end

lemma row_of_mem: "media_table_ok rank rows \<Longrightarrow> a \<in> set rows \<Longrightarrow> row_of rank rows (ma_id a) = Some a"
  by (induction rows) (auto simp: media_table_ok_def image_iff)

lemma row_of_set: "row_of rank rows i = Some a \<Longrightarrow> a \<in> set rows"
  by (induction rows) (auto split: if_splits)

text \<open>C5: with the assets in MySQL, after any run of calls that started without assets every asset has a file of its
  own in the storage directory, which no other asset's key resolves to, and the file of a ready asset is there.\<close>

theorem ready_assets_have_files:
  assumes "cms_runs (sql_media rank lk) dir s t" and "dir \<noteq> []" and "cm_media s = []" and "uuids_ok rank (cm_uuids s)" and "a \<in> set (cm_media t)"
  shows "\<exists>p rest. resolve_path dir (ma_key a) = Inr p \<and> path_elems p = path_elems dir @ rest \<and> (\<forall>b \<in> set (cm_media t). resolve_path dir (ma_key b) = Inr p \<longrightarrow> b = a) \<and>
    (ma_state a = ''ready'' \<longrightarrow> cm_disk t p \<noteq> None)"
proof -
  have "media_inv (row_of rank) (media_table_ok rank) rank dir (core s)" using assms(3,4) by (simp add: core_def media_inv_def media_table_ok_def)
  with sql_assets.runs_inv [OF assms(1,2)] have inv: "media_inv (row_of rank) (media_table_ok rank) rank dir (cm_media t, cm_disk t, cm_uuids t)"
    by (simp add: core_def)
  then have ok: "media_table_ok rank (cm_media t)" "uuids_ok rank (cm_uuids t)" by (simp_all add: media_inv_def)
  have a: "row_of rank (cm_media t) (ma_id a) = Some a" using row_of_mem [OF ok(1) assms(5)] .
  note aok = sql_assets.invD [OF inv a]
  obtain p where p: "resolve_path dir (ma_key a) = Inr p" using asset_path [OF aok ok(2) assms(2)] by blast
  moreover have "b = a" if b: "b \<in> set (cm_media t)" "resolve_path dir (ma_key b) = Inr p" for b
  proof -
    have rb: "row_of rank (cm_media t) (ma_id b) = Some b" using row_of_mem [OF ok(1) b(1)] .
    have "rank (ma_id b) = rank (ma_id a)" using sql_assets.same_file [OF inv assms(2) rb a b(2) p] .
    then show "b = a" using a rb by (simp add: row_of_def)
  qed
  moreover have "ma_state a = ''ready'' \<Longrightarrow> cm_disk t p \<noteq> None" using aok p by (simp add: asset_ok_def disk_exists_def)
  ultimately show ?thesis using resolved_inside [OF p] by blast
qed

subsection \<open>The signed upload\<close>

lemma upload_cases:
  assumes "ce_media env = sql_media rank lk" and "upload_media_binary env asset q meth body s = (x, u)"
  obtains "u = s" and "\<And>e. x \<noteq> Inl (HTTPErr 500 CodeInternal ''failed to persist media upload'' [] (Some e))"
  | a expiry sz where "List.find (\<lambda>r. rank (ma_id r) = rank (trim_space asset)) (cm_media s) = Some a" and "ma_state a = ''pending_upload''"
    and "ma_company a = trim_space (uq_company q)" and "atoi (trim_space (uq_exp q)) = Some expiry" and "atoi (trim_space (uq_size q)) = Some sz" and "0 < sz"
    and "verify_upload env (trim_space (uq_sig q)) (trim_space asset) (trim_space (uq_company q)) ''PUT'' (to_lower (trim_space (uq_type q))) sz expiry"
    and "de_now (ce_disc env) \<le> expiry" and "de_now (ce_disc env) \<le> ma_expires a" and "finish_put env body sz a s = (x, u)"
proof -
  let ?find = "List.find (\<lambda>r. rank (ma_id r) = rank (trim_space asset)) (cm_media s)"
  have f: "on_media (mp_by_id (ce_media env) (trim_space asset)) s = (case ?find of None \<Rightarrow> Inl no_asset | Some a \<Rightarrow> Inr a, s)"
    by (simp add: on_media_def assms(1) sql_media_def sql_media_by_id_def scan_media_row_def)
  note [simp] = seqE_def okE_def failE_def need_value_def positive_query_def f
  from assms(2) show thesis
    unfolding upload_media_binary_def Let_def finish_put_def [symmetric]
    by (auto simp: session_error_def new_http_error_def no_asset_def split: if_splits option.splits intro: that)
qed

text \<open>C6: the signed upload, the one route without a token: a call that changes any file has a query whose signature
  the server made for this asset, company, type, size and expiry, that has not expired, for an asset
  that is pending; it changes the one file of that asset, inside the storage directory, which ends
  gone or with at most the signed size, and it changes no asset.\<close>

theorem signed_upload_confined:
  assumes "ce_media env = sql_media rank lk" and "serve_cms env req ms (MediaPut asset q meth body) s = (r, s')" and "cm_disk s' \<noteq> cm_disk s"
  shows "\<exists>a p expiry sz rest. List.find (\<lambda>r. rank (ma_id r) = rank (trim_space asset)) (cm_media s) = Some a \<and>
    ma_state a = ''pending_upload'' \<and> ma_company a = trim_space (uq_company q) \<and> atoi (trim_space (uq_exp q)) = Some expiry \<and> atoi (trim_space (uq_size q)) = Some sz \<and>
    to_lower (trim_space (trim_space (uq_sig q))) = ce_hmac env (signing_payload (trim_space asset) (ma_company a) ''PUT'' (to_lower (trim_space (uq_type q))) sz expiry) \<and>
    de_now (ce_disc env) \<le> expiry \<and> de_now (ce_disc env) \<le> ma_expires a \<and>
    resolve_path (ce_dir env) (ma_key a) = Inr p \<and> path_elems p = path_elems (ce_dir env) @ rest \<and> cm_media s' = cm_media s \<and>
    (\<forall>x. x \<noteq> p \<longrightarrow> cm_disk s' x = cm_disk s x) \<and> (\<forall>bytes. cm_disk s' p = Some bytes \<longrightarrow> int (length bytes) \<le> sz)"
proof -
  obtain x u where run: "upload_media_binary env asset q meth body s = (x, u)" by fastforce
  have same: "cm_disk s' = cm_disk u" "cm_media s' = cm_media u"
    using assms(2) core_serve [of env req ms "MediaPut asset q meth body" s] run by (simp_all add: core_def)
  show ?thesis
  proof (rule upload_cases [OF assms(1) run])
    assume "u = s"
    with assms(3) same show ?thesis by simp
  next
    fix a expiry sz
    assume a: "List.find (\<lambda>r. rank (ma_id r) = rank (trim_space asset)) (cm_media s) = Some a" "ma_state a = ''pending_upload''"
      "ma_company a = trim_space (uq_company q)" "atoi (trim_space (uq_exp q)) = Some expiry" "atoi (trim_space (uq_size q)) = Some sz"
      "verify_upload env (trim_space (uq_sig q)) (trim_space asset) (trim_space (uq_company q)) ''PUT'' (to_lower (trim_space (uq_type q))) sz expiry"
      "de_now (ce_disc env) \<le> expiry" "de_now (ce_disc env) \<le> ma_expires a"
      and fin: "finish_put env body sz a s = (x, u)" "0 < sz"
    obtain p where p: "resolve_path (ce_dir env) (ma_key a) = Inr p"
      using fin assms(3) same by (cases "resolve_path (ce_dir env) (ma_key a)") (auto simp: finish_put_def seqE_def store_upload_def on_disk_def disk_write_def)
    have "cm_media u = cm_media s \<and> (\<forall>x. x \<noteq> p \<longrightarrow> cm_disk u x = cm_disk s x) \<and> (\<forall>bytes. cm_disk u p = Some bytes \<longrightarrow> int (length bytes) \<le> sz)"
      using fin p by (auto simp: finish_put_def seqE_def okE_def store_upload_def on_disk_def disk_write_def disk_delete_def Let_def split: if_splits)
    then show ?thesis using a p same resolved_inside [OF p] by (auto simp: verify_upload_def sign_upload_def)
  qed
qed

text \<open>C39: an upload that breaks off (the client goes away in the middle) answers 500 but leaves the bytes it wrote
  under the asset's key, and as completing an upload asks only whether a file is there, the asset of
  the truncated file becomes ready.\<close>

theorem aborted_upload_completes:
  assumes "ce_media env = sql_media rank lk" and "media_table_ok rank (cm_media s)"
    and "row_of rank (cm_media s) (trim_space asset) = Some a" and "ma_deleted a = None" and "n \<le> 0 \<or> n = ma_size a"
    and "upload_media_binary env asset q ''PUT'' body s =
      (Inl (HTTPErr 500 CodeInternal ''failed to persist media upload'' [] (Some (WrapErr ''write media file'' (PlainErr ''unexpected EOF'')))), s1)"
    and "enter_with env req manager_permissions s1 = (Inr sub, s2)" and "ac_company sub = ma_company a"
  shows "\<exists>rep s3 p. complete_media_upload env req asset (Inr (etag, checksum, n)) s1 = (Inr rep, s3) \<and>
    resolve_path (ce_dir env) (ma_key a) = Inr p \<and> cm_disk s3 p = Some (ub_bytes body) \<and>
    row_of rank (cm_media s3) (trim_space asset) = Some (completed_asset (de_now (ce_disc env)) \<lparr>mk_actor = ac_sub sub, mk_etag = etag, mk_checksum = checksum, mk_size = n\<rparr> a)"
proof (rule upload_cases [OF assms(1,6)])
  fix b expiry sz
  let ?k = "\<lparr>mk_actor = ac_sub sub, mk_etag = etag, mk_checksum = checksum, mk_size = n\<rparr>" and ?now = "de_now (ce_disc env)"
  assume b: "List.find (\<lambda>r. rank (ma_id r) = rank (trim_space asset)) (cm_media s) = Some b" "ma_state b = ''pending_upload''"
    and fin: "finish_put env body sz b s = (Inl (HTTPErr 500 CodeInternal ''failed to persist media upload'' [] (Some (WrapErr ''write media file'' (PlainErr ''unexpected EOF'')))), s1)"
  have ab: "b = a" using b(1) assms(3) by (simp add: row_of_def)
  have "resolve_path (ce_dir env) (ma_key a) \<noteq> Inl (WrapErr ''write media file'' e)" for e
    by (auto simp: resolve_path_def Let_def split: option.splits)
  then obtain p where p: "resolve_path (ce_dir env) (ma_key a) = Inr p"
    using fin by (cases "resolve_path (ce_dir env) (ma_key a)") (auto simp: finish_put_def seqE_def ab store_upload_def on_disk_def disk_write_def)
  then have s1: "cm_disk s1 p = Some (ub_bytes body)" "cm_media s1 = cm_media s"
    using fin by (auto simp: finish_put_def seqE_def okE_def ab store_upload_def on_disk_def disk_write_def new_http_error_def split: if_splits)
  have s2: "core s2 = core s1" using spares_enter(3) assms(7) by (metis snd_conv spares_def)
  have look: "row_of rank (cm_media s2) (trim_space asset) = Some a" "media_table_ok rank (cm_media s2)" "cm_disk s2 = cm_disk s1"
    using s2 s1(2) assms(2,3) by (simp_all add: core_def)
  have live: "live rank (ac_company sub) a" using assms(4,8) by (simp add: live_def)
  have may: "may_complete ?k a = None" using assms(5) b(2) ab by (auto simp: may_complete_def)
  have n: "trim_space asset \<noteq> []"
    using assms(6) by (auto simp: upload_media_binary_def need_value_def seqE_def failE_def new_http_error_def split: if_splits)
  obtain m' where m': "mp_complete (sql_media rank lk) ?now (ac_company sub) (trim_space asset) ?k (cm_media s2) = (Inr (completed_asset ?now ?k a), m')"
    using sql_assets.complete [OF look(2)] look(1) live may by (auto simp: prod_eq_iff)
  have row: "row_of rank m' (trim_space asset) = Some (completed_asset ?now ?k a)"
    using sql_assets.complete_look [OF look(2,1) live may m'] by simp
  have got: "mp_by_company (sql_media rank lk) (ac_company sub) (trim_space asset) (cm_media s2) = (Inr a, cm_media s2)"
    using sql_assets.by_company [OF look(2)] look(1) live by simp
  have "disk_exists (ce_dir env) (ma_key a) (cm_disk s2)" using p s1 look(3) by (simp add: disk_exists_def)
  then show ?thesis
    using p s1 look(3) row assms(7) n
    by (simp add: complete_media_upload_def seqE_def need_value_def decoded_def okE_def on_media_def assms(1) got m' cms_audit_def)
qed blast

subsection \<open>Runs evaluated\<close>

definition wit_sql_cms :: "(disc_mem, unit, audit_entry list, admin_mem, unit, media_table) cms_env" where
  "wit_sql_cms = \<lparr>ce_disc = ce_disc wit_cms_env, ce_admin = ce_admin wit_cms_env, ce_inspect = ce_inspect wit_cms_env, ce_audit = mem_audit,
     ce_list_sessions = (\<lambda>u c s. (Inr [], s)), ce_revoke_session = (\<lambda>u i s. (Inr (), s)),
     ce_media = sql_media (\<lambda>x. x) (\<lambda>x p. False), ce_hmac = (\<lambda>x. ''00''), ce_ttl = 600, ce_dir = ''var'', ce_base_url = []\<rparr>"

definition wit_sql_start :: "(disc_mem, unit, audit_entry list, admin_mem, unit, media_table) cms_state" where
  "wit_sql_start = \<lparr>cm_svc = wit_mem0, cm_admin = new_admin_mem, cm_iam = (), cm_audit = \<lparr>au_repo = [], au_ids = tally_ids\<rparr>, cm_media = [],
     cm_disk = Map.empty, cm_uuids = tally_ids, cm_metrics = []\<rparr>"

definition wit_intent :: cms_call where
  "wit_intent = MediaIntent \<lparr>og_proto = [], og_fhost = [], og_host = ''h'', og_tls = True\<rparr>
     (Inr \<lparr>mi_name = ''../a b.pdf'', mi_type = ''application/pdf'', mi_size = 3, mi_context = []\<rparr>)"

definition wit_upload_query :: upload_query where
  "wit_upload_query = \<lparr>uq_exp = ''1767226200'', uq_sig = ''00'', uq_company = ''c_001'', uq_method = ''PUT'', uq_type = ''application/pdf'', uq_size = ''3''\<rparr>"

definition wit_put :: "string \<Rightarrow> bool \<Rightarrow> cms_call" where
  "wit_put bytes broken = MediaPut ''asset_id'' wit_upload_query ''PUT'' \<lparr>ub_bytes = bytes, ub_broken = broken\<rparr>"

definition wit_sql_step :: "cms_call \<Rightarrow> (disc_mem, unit, audit_entry list, admin_mem, unit, media_table) cms_state \<Rightarrow> (disc_mem, unit, audit_entry list, admin_mem, unit, media_table) cms_state" where
  "wit_sql_step c s = snd (serve_cms wit_sql_cms wit_cms_request 1 c s)"

lemma wit_sql_run: "cms_runs (sql_media (\<lambda>x. x) (\<lambda>x p. False)) ''var'' s t \<Longrightarrow> cms_runs (sql_media (\<lambda>x. x) (\<lambda>x p. False)) ''var'' s (wit_sql_step c t)"
  by (rule cms_runs.call [where env = wit_sql_cms and req = wit_cms_request and ms = 1 and c = c and r = "fst (serve_cms wit_sql_cms wit_cms_request 1 c t)"])
    (auto simp: wit_sql_cms_def wit_cms_env_def plain_elem_def dotdot_def wit_sql_step_def)

theorem ready_assets_have_files_witness:
  "let t = fold wit_sql_step [wit_intent, wit_put ''abc'' False, MediaComplete ''asset_id'' (Inr ([], [], 3))] wit_sql_start in
    \<exists>a. cm_media t = [a] \<and> ma_state a = ''ready'' \<and> (\<exists>p. resolve_path ''var'' (ma_key a) = Inr p \<and> cm_disk t p \<noteq> None)"
proof -
  let ?t = "fold wit_sql_step [wit_intent, wit_put ''abc'' False, MediaComplete ''asset_id'' (Inr ([], [], 3))] wit_sql_start"
  have run: "cms_runs (sql_media (\<lambda>x. x) (\<lambda>x p. False)) ''var'' wit_sql_start ?t" by (simp add: wit_sql_run cms_runs.start)
  have "map ma_state (cm_media ?t) = [''ready'']" by code_simp
  then obtain a where a: "cm_media ?t = [a]" "ma_state a = ''ready''" by (auto simp: map_eq_Cons_conv)
  have "uuids_ok (\<lambda>x. x) (cm_uuids wit_sql_start)"
    by (auto simp: uuids_ok_def wit_sql_start_def tally_ids_def new_asset_id_def inj_def dest: arg_cong [where f = length])
  from ready_assets_have_files [OF run _ _ this, of a] a show ?thesis by (auto simp: Let_def wit_sql_start_def)
qed

theorem signed_upload_confined_witness:
  "let s = wit_sql_step wit_intent wit_sql_start; t = wit_sql_step (wit_put ''abc'' False) s in
    \<exists>a p. cm_media s = [a] \<and> resolve_path ''var'' (ma_key a) = Inr p \<and> (\<forall>x. x \<noteq> p \<longrightarrow> cm_disk t x = cm_disk s x)"
proof -
  let ?s = "wit_sql_step wit_intent wit_sql_start"
  let ?t = "wit_sql_step (wit_put ''abc'' False) ?s"
  have e: "ce_media wit_sql_cms = sql_media (\<lambda>x. x) (\<lambda>x p. False)" "ce_dir wit_sql_cms = ''var''" by (simp_all add: wit_sql_cms_def)
  have r: "serve_cms wit_sql_cms wit_cms_request 1 (MediaPut ''asset_id'' wit_upload_query ''PUT'' \<lparr>ub_bytes = ''abc'', ub_broken = False\<rparr>) ?s =
      (fst (serve_cms wit_sql_cms wit_cms_request 1 (wit_put ''abc'' False) ?s), ?t)" by (simp add: wit_put_def wit_sql_step_def)
  have f: "cm_disk ?t ''var/company/c_001/cms/media/asset_id/a_b.pdf'' = Some ''abc''" "cm_disk ?s ''var/company/c_001/cms/media/asset_id/a_b.pdf'' = None" by code_simp+
  have len: "length (cm_media ?s) = 1" by code_simp
  then obtain a where a: "cm_media ?s = [a]" by (auto simp: length_Suc_conv)
  have "cm_disk ?t \<noteq> cm_disk ?s" using f by force
  from signed_upload_confined [OF e(1) r this] a e(2) show ?thesis by (auto simp: Let_def split: if_splits)
qed

theorem aborted_upload_completes_witness:
  "let s = wit_sql_step wit_intent wit_sql_start; s1 = snd (cms_handler wit_sql_cms wit_cms_request (wit_put ''a'' True) s) in
    \<exists>rep s3. complete_media_upload wit_sql_cms wit_cms_request ''asset_id'' (Inr ([], [], 3)) s1 = (Inr rep, s3) \<and> ''a'' \<in> ran (cm_disk s3) \<and>
      (\<exists>a. row_of (\<lambda>x. x) (cm_media s3) ''asset_id'' = Some a \<and> ma_state a = ''ready'' \<and> ma_size a = 3)"
proof -
  let ?s = "wit_sql_step wit_intent wit_sql_start"
  let ?h = "upload_media_binary wit_sql_cms ''asset_id'' wit_upload_query ''PUT'' \<lparr>ub_bytes = ''a'', ub_broken = True\<rparr> ?s"
  let ?sub = "\<lparr>ac_sub = ''u_admin'', ac_session = ''s_1'', ac_membership = ''m_admin_001'', ac_company = ''c_001''\<rparr>"
  have e: "ce_media wit_sql_cms = sql_media (\<lambda>x. x) (\<lambda>x p. False)" by (simp add: wit_sql_cms_def)
  have id: "trim_space ''asset_id'' = ''asset_id''" by code_simp
  have row: "map (\<lambda>a. (ma_id a, ma_company a, ma_deleted a, ma_size a)) (cm_media ?s) = [(''asset_id'', ''c_001'', None, 3)]" by code_simp
  then obtain a where a: "cm_media ?s = [a]" "ma_id a = ''asset_id''" "ma_company a = ''c_001''" "ma_deleted a = None" "ma_size a = 3" by (auto simp: map_eq_Cons_conv)
  have h: "fst ?h = Inl (HTTPErr 500 CodeInternal ''failed to persist media upload'' [] (Some (WrapErr ''write media file'' (PlainErr ''unexpected EOF''))))" by code_simp
  have i: "fst (enter_with wit_sql_cms wit_cms_request manager_permissions (snd ?h)) = Inr ?sub" by code_simp
  have t: "media_table_ok (\<lambda>x. x) (cm_media ?s)" "row_of (\<lambda>x. x) (cm_media ?s) (trim_space ''asset_id'') = Some a" using a by (simp_all add: media_table_ok_def id)
  have p: "?h = (Inl (HTTPErr 500 CodeInternal ''failed to persist media upload'' [] (Some (WrapErr ''write media file'' (PlainErr ''unexpected EOF'')))), snd ?h)"
    "enter_with wit_sql_cms wit_cms_request manager_permissions (snd ?h) = (Inr ?sub, snd (enter_with wit_sql_cms wit_cms_request manager_permissions (snd ?h)))"
    using h i by (metis prod.collapse)+
  have c: "ac_company ?sub = ma_company a" "(3::int) \<le> 0 \<or> 3 = ma_size a" using a by simp_all
  from aborted_upload_completes [OF e t a(4) c(2) p c(1), where etag = "[]" and checksum = "[]"] show ?thesis by (auto simp: Let_def wit_put_def id completed_asset_def a(5) intro: ranI)
qed

end
