(* ===== verification/GuardedService.thy ===== *)
theory GuardedService
  imports ServiceState Sql HttpRequests
begin

section \<open>Guarded operations\<close>

text \<open>
  What the workflow and the notification service share (\<^verbatim>\<open>internal/workflow/app/service.go\<close> and
  \<^verbatim>\<open>internal/notification/app/service.go\<close>, \<open>authorize\<close>): a service asks the authorizer and answers 403 with its
  reason when it denies. Their handlers take the caller from the access token.
\<close>

record ('r, 's) guard_env =
  ge_resolve :: "'s resolver"
  ge_policy :: policy_source
  ge_inspect :: "string \<Rightarrow> go_error + access_claims"
  ge_now :: int

definition service_authorize :: "('r, 's) guard_env \<Rightarrow> string \<Rightarrow> subject_ref \<Rightarrow> string \<Rightarrow> resource_ref \<Rightarrow> ('r, 's, unit) svc_action" where
  "service_authorize env what sub action res =
    seqE (wrapE (WrapErr what) (on_auth (authorize (ge_resolve env) (ge_policy env)
      \<lparr>rq_subject = sub, rq_action = action, rq_resource = res\<rparr>))) (\<lambda>d.
    chkE (dc_verdict d = Allow) (access_denied (case dc_deny d of None \<Rightarrow> CodePermissionDenied | Some c \<Rightarrow> c)))"

definition caller :: "('r, 's) guard_env \<Rightarrow> http_request \<Rightarrow> ('r, 's, subject_ref) svc_action" where
  "caller env req = seqE (liftE (\<lambda>_. ge_inspect env (bearer_token (hq_authorization req)))) (\<lambda>c. okE (claims_subject c))"

text \<open>An action whose error the code drops.\<close>

definition attempt :: "('e, 's, 'a) action \<Rightarrow> ('e, 's, unit) action" where
  "attempt m s = (Inr (), snd (m s))"

definition allows :: "('r, 's) guard_env \<Rightarrow> subject_ref \<Rightarrow> string \<Rightarrow> resource_ref \<Rightarrow> ('r, 's) svc_state \<Rightarrow> bool" where
  "allows env sub action res s = (case authorize (ge_resolve env) (ge_policy env)
     \<lparr>rq_subject = sub, rq_action = action, rq_resource = res\<rparr> (svc_auth s) of (Inr d, _) \<Rightarrow> dc_verdict d = Allow | _ \<Rightarrow> False)"

lemma service_authorize_frame:
  "service_authorize env what sub action res s = (x, s') \<Longrightarrow> svc_repo s' = svc_repo s \<and> svc_ids s' = svc_ids s"
  by (auto simp: service_authorize_def seqE_def wrapE_def on_auth_def split: prod.splits sum.splits)

lemma service_authorize_allows: "service_authorize env what sub action res s = (Inr x, s') \<Longrightarrow> allows env sub action res s"
  by (auto simp: service_authorize_def allows_def seqE_def wrapE_def on_auth_def split: prod.splits sum.splits if_splits)

lemma caller_run: "caller env req s = (case ge_inspect env (bearer_token (hq_authorization req)) of Inl e \<Rightarrow> Inl e | Inr c \<Rightarrow> Inr (claims_subject c), s)"
  by (simp add: caller_def seqE_lift split: sum.splits)

lemma attempt_run [simp]: "attempt m s = (Inr (), snd (m s))"
  by (simp add: attempt_def)

text \<open>A guard evaluated: the caller holds one permission, which every action asks for.\<close>

definition wit_guard :: "('r, unit) guard_env" where
  "wit_guard = \<lparr>ge_resolve = (\<lambda>m c s. (Inr \<lparr>ea_company = c, ea_membership = m, ea_permissions = [''rbac.manage''],
       ea_scope = \<lparr>ds_scope_type = ''mixed'', ds_departments = [], ds_assignments = [], ds_company_wide = True, ds_org_units = [], ds_org_subtree = [], ds_positions = []\<rparr>,
       ea_responsibilities = []\<rparr>, s)),
     ge_policy = (\<lambda>c a. Inr (mk_policy a ''rbac.manage'' ''*'' ''permission_denied'')),
     ge_inspect = (\<lambda>_. Inr \<lparr>ac_sub = ''u_1'', ac_session = ''s_1'', ac_membership = ''m_1'', ac_company = ''c_1''\<rparr>), ge_now = 0\<rparr>"

definition wit_request :: http_request where
  "wit_request = \<lparr>hq_authorization = ''Bearer t'', hq_idempotency = [], hq_request_id = ''r1'', hq_remote = [], hq_agent = []\<rparr>"

end
