(* ===== verification/Workflow.thy ===== *)
theory Workflow
  imports GuardedService
begin

section \<open>Workflow instances and tasks\<close>

text \<open>
  Models \<^verbatim>\<open>internal/workflow\<close>: the service (\<open>app/service.go\<close>), its two repositories
  (\<open>infra/inmemory\<close>, \<open>infra/mysql\<close>) and the handlers (\<open>transport/http/handler.go\<close>). An instance starts with a task for
  its creator; a task is settled by its assignee in one of three ways. The collation key \<open>rank\<close> of
  the tables is a parameter; a statement fails only on a violated key.
\<close>

subsection \<open>Instances and tasks\<close>

record wf_instance =
  wi_id :: string
  wi_company :: string
  wi_record :: string
  wi_status :: string
  wi_step :: string
  wi_creator :: string

record wf_task =
  wt_id :: string
  wt_company :: string
  wt_instance :: string
  wt_step :: string
  wt_assignee :: string
  wt_status :: string

record 'r workflow_port =
  wp_create_instance :: "wf_instance \<Rightarrow> (go_error, 'r, wf_instance) action"
  wp_find_instance :: "string \<Rightarrow> string \<Rightarrow> (go_error, 'r, wf_instance) action"
  wp_update_instance :: "wf_instance \<Rightarrow> (go_error, 'r, wf_instance) action"
  wp_create_task :: "wf_task \<Rightarrow> (go_error, 'r, wf_task) action"
  wp_find_task :: "string \<Rightarrow> string \<Rightarrow> (go_error, 'r, wf_task) action"
  wp_update_task :: "wf_task \<Rightarrow> (go_error, 'r, wf_task) action"
  wp_list_tasks :: "string \<Rightarrow> string \<Rightarrow> (go_error, 'r, wf_task list) action"

definition no_instance :: go_error where
  "no_instance = not_found ''workflow instance not found''"

definition no_task :: go_error where
  "no_task = not_found ''task not found''"

subsection \<open>In memory\<close>

record wf_mem =
  wm_instances :: "string \<rightharpoonup> wf_instance"
  wm_tasks :: "string \<rightharpoonup> wf_task"

definition wf_key :: "string \<Rightarrow> string \<Rightarrow> string" where
  "wf_key c i = c @ '':'' @ i"

definition mem_create_instance :: "wf_instance \<Rightarrow> (go_error, wf_mem, wf_instance) action" where
  "mem_create_instance w s = (Inr w, s\<lparr>wm_instances := (wm_instances s)(wf_key (wi_company w) (wi_id w) \<mapsto> w)\<rparr>)"

definition mem_find_instance :: "string \<Rightarrow> string \<Rightarrow> (go_error, wf_mem, wf_instance) action" where
  "mem_find_instance c i s = (case wm_instances s (wf_key c i) of None \<Rightarrow> Inl no_instance | Some w \<Rightarrow> Inr w, s)"

definition mem_update_instance :: "wf_instance \<Rightarrow> (go_error, wf_mem, wf_instance) action" where
  "mem_update_instance w s = (if wm_instances s (wf_key (wi_company w) (wi_id w)) = None then (Inl no_instance, s) else mem_create_instance w s)"

definition mem_create_task :: "wf_task \<Rightarrow> (go_error, wf_mem, wf_task) action" where
  "mem_create_task t s = (Inr t, s\<lparr>wm_tasks := (wm_tasks s)(wf_key (wt_company t) (wt_id t) \<mapsto> t)\<rparr>)"

definition mem_find_task :: "string \<Rightarrow> string \<Rightarrow> (go_error, wf_mem, wf_task) action" where
  "mem_find_task c i s = (case wm_tasks s (wf_key c i) of None \<Rightarrow> Inl no_task | Some t \<Rightarrow> Inr t, s)"

definition mem_update_task :: "wf_task \<Rightarrow> (go_error, wf_mem, wf_task) action" where
  "mem_update_task t s = (if wm_tasks s (wf_key (wt_company t) (wt_id t)) = None then (Inl no_task, s) else mem_create_task t s)"

definition mem_list_tasks :: "(string, wf_task) visit \<Rightarrow> string \<Rightarrow> string \<Rightarrow> (go_error, wf_mem, wf_task list) action" where
  "mem_list_tasks ord c i s = (Inr (filter (\<lambda>t. wt_company t = c \<and> wt_instance t = i) (map_values (wm_tasks s) (ord (wm_tasks s)))), s)"

definition mem_workflow :: "(string, wf_task) visit \<Rightarrow> wf_mem workflow_port" where
  "mem_workflow ord = \<lparr>wp_create_instance = mem_create_instance, wp_find_instance = mem_find_instance, wp_update_instance = mem_update_instance,
     wp_create_task = mem_create_task, wp_find_task = mem_find_task, wp_update_task = mem_update_task, wp_list_tasks = mem_list_tasks ord\<rparr>"

subsection \<open>In MySQL\<close>

text \<open>The two tables, and the companies their foreign keys refer to.\<close>

record wf_db =
  wd_companies :: "string list"
  wd_instances :: "wf_instance list"
  wd_tasks :: "wf_task list"

definition known_company :: "(string \<Rightarrow> string) \<Rightarrow> string \<Rightarrow> wf_db \<Rightarrow> bool" where
  "known_company rank c s \<longleftrightarrow> list_ex (\<lambda>d. rank d = rank c) (wd_companies s)"

definition sql_create_instance :: "(string \<Rightarrow> string) \<Rightarrow> wf_instance \<Rightarrow> (go_error, wf_db, wf_instance) action" where
  "sql_create_instance rank w s =
    (if list_ex (\<lambda>r. rank (wi_id r) = rank (wi_id w)) (wd_instances s) then (Inl (WrapErr ''workflow instance insert'' duplicate_key), s)
     else if \<not> known_company rank (wi_company w) s then (Inl (WrapErr ''workflow instance insert'' foreign_key), s)
     else (Inr w, s\<lparr>wd_instances := wd_instances s @ [w]\<rparr>))"

definition sql_find_instance :: "(string \<Rightarrow> string) \<Rightarrow> string \<Rightarrow> string \<Rightarrow> (go_error, wf_db, wf_instance) action" where
  "sql_find_instance rank c i s =
    (case List.find (\<lambda>r. rank (wi_company r) = rank c \<and> rank (wi_id r) = rank i) (wd_instances s) of None \<Rightarrow> Inl no_instance | Some w \<Rightarrow> Inr w, s)"

definition sql_update_instance :: "(string \<Rightarrow> string) \<Rightarrow> wf_instance \<Rightarrow> (go_error, wf_db, wf_instance) action" where
  "sql_update_instance rank w s =
    (case sql_update (\<lambda>r. rank (wi_id r) = rank (wi_id w) \<and> rank (wi_company r) = rank (wi_company w))
       (\<lambda>r. r\<lparr>wi_status := wi_status w, wi_step := wi_step w\<rparr>) (wd_instances s) of
     (n, rows) \<Rightarrow> (if n = 0 then Inl no_instance else Inr w, s\<lparr>wd_instances := rows\<rparr>))"

definition sql_create_task :: "(string \<Rightarrow> string) \<Rightarrow> wf_task \<Rightarrow> (go_error, wf_db, wf_task) action" where
  "sql_create_task rank t s =
    (if list_ex (\<lambda>r. rank (wt_id r) = rank (wt_id t)) (wd_tasks s) then (Inl (WrapErr ''workflow task insert'' duplicate_key), s)
     else if \<not> list_ex (\<lambda>w. rank (wi_id w) = rank (wt_instance t)) (wd_instances s) \<or> \<not> known_company rank (wt_company t) s
     then (Inl (WrapErr ''workflow task insert'' foreign_key), s)
     else (Inr t, s\<lparr>wd_tasks := wd_tasks s @ [t]\<rparr>))"

definition task_row :: "(string \<Rightarrow> string) \<Rightarrow> string \<Rightarrow> string \<Rightarrow> wf_task \<Rightarrow> bool" where
  "task_row rank c i r \<longleftrightarrow> rank (wt_company r) = rank c \<and> rank (wt_id r) = rank i"

definition sql_find_task :: "(string \<Rightarrow> string) \<Rightarrow> string \<Rightarrow> string \<Rightarrow> (go_error, wf_db, wf_task) action" where
  "sql_find_task rank c i s = (case List.find (task_row rank c i) (wd_tasks s) of None \<Rightarrow> Inl no_task | Some t \<Rightarrow> Inr t, s)"

definition sql_update_task :: "(string \<Rightarrow> string) \<Rightarrow> wf_task \<Rightarrow> (go_error, wf_db, wf_task) action" where
  "sql_update_task rank t s =
    (case sql_update (task_row rank (wt_company t) (wt_id t)) (\<lambda>r. r\<lparr>wt_status := wt_status t\<rparr>) (wd_tasks s) of
     (n, rows) \<Rightarrow> (if n = 0 then Inl no_task else Inr t, s\<lparr>wd_tasks := rows\<rparr>))"

definition sql_list_tasks :: "(string \<Rightarrow> string) \<Rightarrow> string \<Rightarrow> string \<Rightarrow> (go_error, wf_db, wf_task list) action" where
  "sql_list_tasks rank c i s = (Inr (filter (\<lambda>r. rank (wt_company r) = rank c \<and> rank (wt_instance r) = rank i) (wd_tasks s)), s)"

definition sql_workflow :: "(string \<Rightarrow> string) \<Rightarrow> wf_db workflow_port" where
  "sql_workflow rank = \<lparr>wp_create_instance = sql_create_instance rank, wp_find_instance = sql_find_instance rank,
     wp_update_instance = sql_update_instance rank, wp_create_task = sql_create_task rank, wp_find_task = sql_find_task rank,
     wp_update_task = sql_update_task rank, wp_list_tasks = sql_list_tasks rank\<rparr>"

subsection \<open>The service\<close>

definition wf_authorize :: "('r, 's) guard_env \<Rightarrow> subject_ref \<Rightarrow> string \<Rightarrow> resource_ref \<Rightarrow> ('r, 's, unit) svc_action" where
  "wf_authorize env = service_authorize env ''authorize workflow action''"

definition new_instance :: "subject_ref \<Rightarrow> string \<Rightarrow> string \<Rightarrow> wf_instance" where
  "new_instance sub rid i = \<lparr>wi_id = i, wi_company = sub_company sub, wi_record = rid, wi_status = ''in_progress'', wi_step = ''review'', wi_creator = sub_user sub\<rparr>"

definition first_task :: "subject_ref \<Rightarrow> wf_instance \<Rightarrow> string \<Rightarrow> wf_task" where
  "first_task sub w i = \<lparr>wt_id = i, wt_company = sub_company sub, wt_instance = wi_id w, wt_step = ''review'', wt_assignee = sub_membership sub, wt_status = ''pending''\<rparr>"

text \<open>The error of creating the task is dropped.\<close>

definition create_workflow_instance :: "'r workflow_port \<Rightarrow> ('r, 's) guard_env \<Rightarrow> subject_ref \<Rightarrow> string \<Rightarrow> ('r, 's, wf_instance) svc_action" where
  "create_workflow_instance port env sub rid =
    seqE (chkE (trim_space rid \<noteq> []) (bad_request ''record_id is required'')) (\<lambda>_.
    seqE (wf_authorize env sub ''workflow.create'' \<lparr>res_type = ''workflow_instance'', res_id = rid, res_attrs = [(''workflow_state'', AStr ''draft'')]\<rparr>) (\<lambda>_.
    seqE (on_ids new_uuid) (\<lambda>i.
    seqE (on_repo (wp_create_instance port (new_instance sub rid i))) (\<lambda>w.
    seqE (on_ids new_uuid) (\<lambda>j.
    seqE (attempt (on_repo (wp_create_task port (first_task sub w j)))) (\<lambda>_. okE w))))))"

datatype task_action = Review | Approve | Confirm

fun action_code :: "task_action \<Rightarrow> string" where
  "action_code Review = ''workflow.review''"
| "action_code Approve = ''workflow.approve''"
| "action_code Confirm = ''workflow.confirm''"

fun next_status :: "task_action \<Rightarrow> string" where
  "next_status Review = ''reviewed''"
| "next_status Approve = ''approved''"
| "next_status Confirm = ''confirmed''"

definition task_ref :: "string \<Rightarrow> wf_task \<Rightarrow> resource_ref" where
  "task_ref tid t = \<lparr>res_type = ''workflow_task'', res_id = tid,
     res_attrs = [(''assignee_membership_id'', AStr (wt_assignee t)), (''workflow_state'', AStr (wt_status t))]\<rparr>"

definition transition_task :: "'r workflow_port \<Rightarrow> ('r, 's) guard_env \<Rightarrow> task_action \<Rightarrow> subject_ref \<Rightarrow> string \<Rightarrow> ('r, 's, wf_task) svc_action" where
  "transition_task port env act sub tid =
    seqE (chkE (trim_space tid \<noteq> []) (bad_request ''task_id is required'')) (\<lambda>_.
    seqE (on_repo (wp_find_task port (sub_company sub) tid)) (\<lambda>t.
    seqE (wf_authorize env sub (action_code act) (task_ref tid t)) (\<lambda>_.
    seqE (chkE (wt_assignee t = sub_membership sub) (new_http_error 403 CodeResponsibilityRequired ''task assignee mismatch'')) (\<lambda>_.
    seqE (chkE (wt_status t = ''pending'') (new_http_error 409 CodeStateConflict ''task is not pending'')) (\<lambda>_.
    on_repo (wp_update_task port (t\<lparr>wt_status := next_status act\<rparr>)))))))"

definition resolve_assignees :: "('r, 's) guard_env \<Rightarrow> subject_ref \<Rightarrow> string \<Rightarrow> ('r, 's, string list) svc_action" where
  "resolve_assignees env sub wid =
    seqE (chkE (trim_space wid \<noteq> []) (bad_request ''workflow_instance_id is required'')) (\<lambda>_.
    seqE (wf_authorize env sub ''workflow.resolve_assignees'' \<lparr>res_type = ''workflow_instance'', res_id = wid, res_attrs = [(''workflow_state'', AStr ''*'')]\<rparr>) (\<lambda>_.
    okE [sub_membership sub]))"

subsection \<open>The handlers\<close>

datatype wf_call =
    StartInstance "go_error + string"
  | ActOnTask task_action string
  | ResolveAssignees "go_error + string \<times> string"

datatype wf_body =
    WInstance wf_instance
  | WTask wf_task
  | WMembers "string list"

fun wf_handler :: "'r workflow_port \<Rightarrow> ('r, 's) guard_env \<Rightarrow> http_request \<Rightarrow> wf_call \<Rightarrow> ('r, 's, int \<times> wf_body) svc_action" where
  "wf_handler port env req (StartInstance body) =
    seqE (caller env req) (\<lambda>sub. seqE (liftE (\<lambda>_. body)) (\<lambda>rid.
    seqE (create_workflow_instance port env sub rid) (\<lambda>w. okE (201, WInstance w))))"
| "wf_handler port env req (ActOnTask act tid) =
    seqE (caller env req) (\<lambda>sub. seqE (transition_task port env act sub tid) (\<lambda>t. okE (200, WTask t)))"
| "wf_handler port env req (ResolveAssignees body) =
    seqE (caller env req) (\<lambda>sub. seqE (liftE (\<lambda>_. body)) (\<lambda>(wid, step).
    seqE (resolve_assignees env sub wid) (\<lambda>ms. okE (200, WMembers ms))))"

definition serve_workflow :: "'r workflow_port \<Rightarrow> ('r, 's) guard_env \<Rightarrow> http_request \<Rightarrow> wf_call \<Rightarrow> ('r, 's) svc_state \<Rightarrow> wf_body reply \<times> ('r, 's) svc_state" where
  "serve_workflow port env req call = respond (wf_handler port env req call)"

subsection \<open>What a call does to the tables\<close>

definition wf_ok :: "(string \<Rightarrow> string) \<Rightarrow> wf_db \<Rightarrow> bool" where
  "wf_ok rank s \<longleftrightarrow> distinct (map (\<lambda>r. rank (wt_id r)) (wd_tasks s)) \<and> distinct (map (\<lambda>r. rank (wi_id r)) (wd_instances s))"

definition settled :: "task_action \<Rightarrow> wf_task \<Rightarrow> wf_task" where
  "settled act t = t\<lparr>wt_status := next_status act\<rparr>"

lemma wf_authorize_frame: "wf_authorize env sub a res s = (x, s') \<Longrightarrow> svc_repo s' = svc_repo s \<and> svc_ids s' = svc_ids s"
  unfolding wf_authorize_def by (rule service_authorize_frame)

lemma update_found:
  assumes "wf_ok rank db" and "List.find (task_row rank c i) (wd_tasks db) = Some t"
  obtains xs ys where "wd_tasks db = xs @ t # ys" and "snd (sql_update_task rank (settled act t) db) = db\<lparr>wd_tasks := xs @ settled act t # ys\<rparr>"
proof -
  have "t \<in> set (wd_tasks db)" using assms(2) by (auto simp: find_Some_iff)
  then obtain xs ys where split: "wd_tasks db = xs @ t # ys" by (meson split_list)
  let ?f = "\<lambda>r. if task_row rank (wt_company t) (wt_id t) r then r\<lparr>wt_status := next_status act\<rparr> else r"
  have "\<forall>r \<in> set xs \<union> set ys. rank (wt_id r) \<noteq> rank (wt_id t)" using assms(1) by (auto simp: wf_ok_def split image_iff)
  then have "map ?f zs = zs" if "set zs \<subseteq> set xs \<union> set ys" for zs using that by (intro map_idI) (auto simp: task_row_def)
  then have "map ?f (wd_tasks db) = xs @ settled act t # ys" by (simp add: split task_row_def settled_def)
  moreover have "snd (sql_update_task rank (settled act t) db) = db\<lparr>wd_tasks := map ?f (wd_tasks db)\<rparr>"
    by (simp add: sql_update_task_def sql_update_def settled_def)
  ultimately show thesis by (intro that [OF split]) simp
qed

lemma transition_sql:
  assumes "wf_ok rank (svc_repo s)" and "transition_task (sql_workflow rank) env act sub tid s = (x, s')"
  shows "svc_ids s' = svc_ids s \<and> (svc_repo s' = svc_repo s \<or> (\<exists>t xs ys. task_row rank (sub_company sub) tid t \<and> wt_assignee t = sub_membership sub \<and>
    wt_status t = ''pending'' \<and> allows env sub (action_code act) (task_ref tid t) s \<and> wd_tasks (svc_repo s) = xs @ t # ys \<and>
    svc_repo s' = (svc_repo s)\<lparr>wd_tasks := xs @ settled act t # ys\<rparr>))"
proof (cases "trim_space tid = []")
  case False
  show ?thesis
  proof (cases "List.find (task_row rank (sub_company sub) tid) (wd_tasks (svc_repo s))")
    case None
    with assms(2) False show ?thesis by (auto simp: transition_task_def sql_workflow_def sql_find_task_def on_repo_def seqE_def)
  next
    case (Some t)
    then have row: "task_row rank (sub_company sub) tid t" by (auto simp: find_Some_iff)
    obtain y u where a: "wf_authorize env sub (action_code act) (task_ref tid t) s = (y, u)" by fastforce
    have f: "on_repo (wp_find_task (sql_workflow rank) (sub_company sub) tid) s = (Inr t, s)"
      by (simp add: on_repo_def sql_workflow_def sql_find_task_def Some)
    obtain xs ys where xy: "wd_tasks (svc_repo s) = xs @ t # ys" "snd (sql_update_task rank (settled act t) (svc_repo s)) = (svc_repo s)\<lparr>wd_tasks := xs @ settled act t # ys\<rparr>"
      using update_found [OF assms(1) Some] by blast
    have frame: "svc_repo u = svc_repo s" "svc_ids u = svc_ids s" using wf_authorize_frame [OF a] by simp_all
    have ok: "y = Inr () \<Longrightarrow> allows env sub (action_code act) (task_ref tid t) s" using a by (auto simp: wf_authorize_def dest: service_authorize_allows)
    have up: "on_repo (wp_update_task (sql_workflow rank) (t\<lparr>wt_status := next_status act\<rparr>)) u =
        (fst (sql_update_task rank (settled act t) (svc_repo s)), u\<lparr>svc_repo := snd (sql_update_task rank (settled act t) (svc_repo s))\<rparr>)"
      by (simp add: on_repo_def sql_workflow_def frame settled_def split: prod.splits)
    show ?thesis
    proof (cases y)
      case (Inl e)
      with assms(2) False f a frame show ?thesis by (simp add: transition_task_def)
    next
      case (Inr z)
      then have run: "transition_task (sql_workflow rank) env act sub tid s =
          (if wt_assignee t \<noteq> sub_membership sub then (Inl (new_http_error 403 CodeResponsibilityRequired ''task assignee mismatch''), u)
           else if wt_status t \<noteq> ''pending'' then (Inl (new_http_error 409 CodeStateConflict ''task is not pending''), u)
           else (fst (sql_update_task rank (settled act t) (svc_repo s)), u\<lparr>svc_repo := snd (sql_update_task rank (settled act t) (svc_repo s))\<rparr>))"
        using False f a up by (simp add: transition_task_def)
      show ?thesis
      proof (cases "wt_assignee t = sub_membership sub \<and> wt_status t = ''pending''")
        case True
        then have "s' = u\<lparr>svc_repo := (svc_repo s)\<lparr>wd_tasks := xs @ settled act t # ys\<rparr>\<rparr>" using run assms(2) xy(2) by simp
        with True ok Inr row xy(1) frame show ?thesis by (simp, blast)
      qed (use run assms(2) frame in \<open>auto split: if_splits\<close>)
    qed
  qed
qed (use assms(2) in \<open>simp add: transition_task_def\<close>)

lemma create_sql:
  assumes "create_workflow_instance (sql_workflow rank) env sub rid s = (x, s')"
  obtains (none) n where "svc_repo s' = svc_repo s" and "svc_ids s' = (svc_ids s)\<lparr>ig_next := n\<rparr>" and "ig_next (svc_ids s) \<le> n"
  | (bare) w where "w = new_instance sub rid (ig_supply (svc_ids s) (ig_next (svc_ids s)))" and "svc_ids s' = (svc_ids s)\<lparr>ig_next := Suc (Suc (ig_next (svc_ids s)))\<rparr>"
    and "svc_repo s' = (svc_repo s)\<lparr>wd_instances := wd_instances (svc_repo s) @ [w]\<rparr>" and "list_all (\<lambda>r. rank (wi_id r) \<noteq> rank (wi_id w)) (wd_instances (svc_repo s))"
  | (full) w t where "w = new_instance sub rid (ig_supply (svc_ids s) (ig_next (svc_ids s)))" and "svc_ids s' = (svc_ids s)\<lparr>ig_next := Suc (Suc (ig_next (svc_ids s)))\<rparr>"
    and "t = first_task sub w (ig_supply (svc_ids s) (Suc (ig_next (svc_ids s))))"
    and "svc_repo s' = (svc_repo s)\<lparr>wd_instances := wd_instances (svc_repo s) @ [w], wd_tasks := wd_tasks (svc_repo s) @ [t]\<rparr>"
    and "list_all (\<lambda>r. rank (wi_id r) \<noteq> rank (wi_id w)) (wd_instances (svc_repo s))" and "list_all (\<lambda>r. rank (wt_id r) \<noteq> rank (wt_id t)) (wd_tasks (svc_repo s))"
proof (cases "trim_space rid = []")
  case True
  then show thesis using assms by (intro none [of "ig_next (svc_ids s)"]) (auto simp: create_workflow_instance_def)
next
  case False
  let ?res = "\<lparr>res_type = ''workflow_instance'', res_id = rid, res_attrs = [(''workflow_state'', AStr ''draft'')]\<rparr>"
  let ?w = "new_instance sub rid (ig_supply (svc_ids s) (ig_next (svc_ids s)))"
  obtain y u where a: "wf_authorize env sub ''workflow.create'' ?res s = (y, u)" by fastforce
  have frame: "svc_repo u = svc_repo s" "svc_ids u = svc_ids s" using wf_authorize_frame [OF a] by simp_all
  show thesis
  proof (cases y)
    case (Inl e)
    then show thesis using assms a frame False by (intro none [of "ig_next (svc_ids s)"]) (auto simp: create_workflow_instance_def)
  next
    case (Inr z)
    show thesis
    proof (cases "list_ex (\<lambda>r. rank (wi_id r) = rank (wi_id ?w)) (wd_instances (svc_repo s)) \<or> \<not> known_company rank (wi_company ?w) (svc_repo s)")
      case True
      then show thesis using assms a frame False Inr
        by (intro none [of "Suc (ig_next (svc_ids s))"])
          (auto simp: create_workflow_instance_def on_ids_def new_uuid_def on_repo_def sql_workflow_def sql_create_instance_def seqE_def Let_def split: if_splits)
    next
      case fresh: False
      let ?t = "first_task sub ?w (ig_supply (svc_ids s) (Suc (ig_next (svc_ids s))))"
      have all: "list_all (\<lambda>r. rank (wi_id r) \<noteq> rank (wi_id ?w)) (wd_instances (svc_repo s))" using fresh by (auto simp: list_ex_iff list_all_iff)
      let ?db = "(svc_repo s)\<lparr>wd_instances := wd_instances (svc_repo s) @ [?w]\<rparr>"
      have run: "svc_ids s' = (svc_ids s)\<lparr>ig_next := Suc (Suc (ig_next (svc_ids s)))\<rparr> \<and> svc_repo s' = snd (sql_create_task rank ?t ?db)"
        using assms a frame False Inr fresh
        by (auto simp: create_workflow_instance_def on_ids_def new_uuid_def on_repo_def sql_workflow_def sql_create_instance_def seqE_def Let_def split: if_splits prod.splits)
      show thesis
      proof (cases "snd (sql_create_task rank ?t ?db) = ?db")
        case True
        then show thesis using run all by (intro bare [of ?w]) simp_all
      next
        case False
        then have t: "snd (sql_create_task rank ?t ?db) = ?db\<lparr>wd_tasks := wd_tasks (svc_repo s) @ [?t]\<rparr>" "list_all (\<lambda>r. rank (wt_id r) \<noteq> rank (wt_id ?t)) (wd_tasks (svc_repo s))"
          by (auto simp: sql_create_task_def list_ex_iff list_all_iff split: if_splits)
        then show thesis using run all by (intro full [of ?w ?t]) simp_all
      qed
    qed
  qed
qed

lemma serve_state: "serve_workflow port env req call s = (rep, s') \<Longrightarrow> s' = snd (wf_handler port env req call s)"
  by (auto simp: serve_workflow_def respond_def split: prod.splits sum.splits)

lemma resolve_frame: "resolve_assignees env sub wid s = (x, s') \<Longrightarrow> svc_repo s' = svc_repo s \<and> svc_ids s' = svc_ids s"
  by (auto simp: resolve_assignees_def seqE_def split: prod.splits sum.splits if_splits dest: wf_authorize_frame)

text \<open>The three ways a call ends: the tables are as before, an instance was started, a task was settled.\<close>

lemma handler_cases:
  assumes "s' = snd (wf_handler port env req call s)"
  obtains (idle) "svc_repo s' = svc_repo s" and "svc_ids s' = svc_ids s"
  | (start) c rid x where "ge_inspect env (bearer_token (hq_authorization req)) = Inr c" and "create_workflow_instance port env (claims_subject c) rid s = (x, s')"
  | (act) c act tid x where "call = ActOnTask act tid" and "ge_inspect env (bearer_token (hq_authorization req)) = Inr c" and "transition_task port env act (claims_subject c) tid s = (x, s')"
proof (cases "ge_inspect env (bearer_token (hq_authorization req))")
  case (Inl e)
  then show thesis using assms by (intro idle) (cases call; simp add: seqE_def caller_run)+
next
  case (Inr c)
  then have run: "caller env req s = (Inr (claims_subject c), s)" by (simp add: caller_run)
  show thesis
  proof (cases call)
    case (StartInstance body)
    show thesis
    proof (cases body)
      case (Inl e)
      then show thesis using assms StartInstance run by (intro idle) (simp_all add: seqE_lift)
    next
      case r: (Inr rid)
      obtain x u where "create_workflow_instance port env (claims_subject c) rid s = (x, u)" by fastforce
      then show thesis using assms StartInstance run r Inr by (intro start [of c rid x]) (cases x; simp add: seqE_lift)+
    qed
  next
    case (ActOnTask a tid)
    obtain x u where "transition_task port env a (claims_subject c) tid s = (x, u)" by fastforce
    then show thesis using assms ActOnTask run Inr by (intro act [of a tid c x]) (cases x; simp)+
  next
    case (ResolveAssignees body)
    show thesis
    proof (cases body)
      case (Inl e)
      then show thesis using assms ResolveAssignees run by (intro idle) (simp_all add: seqE_lift)
    next
      case r: (Inr b)
      obtain wid step where b: "b = (wid, step)" by fastforce
      obtain x u where q: "resolve_assignees env (claims_subject c) wid s = (x, u)" by fastforce
      then have "s' = u" using assms ResolveAssignees run r b by (cases x) (simp_all add: seqE_lift)
      then show thesis using resolve_frame [OF q] by (intro idle) simp_all
    qed
  qed
qed

text \<open>A request changes the tasks of the MySQL tables in two ways only: it appends a pending task of the caller,
  or it settles one pending task of the caller's company, assigned to the caller, with the status of
  the action, after the authorizer allowed the action on it.\<close>

theorem task_settled_by_assignee:
  assumes "wf_ok rank (svc_repo s)" and "serve_workflow (sql_workflow rank) env req call s = (rep, s')"
    and "wd_tasks (svc_repo s') \<noteq> wd_tasks (svc_repo s)"
  shows "\<exists>c sub. ge_inspect env (bearer_token (hq_authorization req)) = Inr c \<and> sub = claims_subject c \<and>
    ((\<exists>t. wd_tasks (svc_repo s') = wd_tasks (svc_repo s) @ [t] \<and> wt_status t = ''pending'' \<and> wt_assignee t = sub_membership sub \<and> wt_company t = sub_company sub) \<or>
     (\<exists>act tid t xs ys. call = ActOnTask act tid \<and> wd_tasks (svc_repo s) = xs @ t # ys \<and> wd_tasks (svc_repo s') = xs @ settled act t # ys \<and>
       task_row rank (sub_company sub) tid t \<and> wt_assignee t = sub_membership sub \<and> wt_status t = ''pending'' \<and> allows env sub (action_code act) (task_ref tid t) s))"
proof (rule handler_cases [OF serve_state [OF assms(2)]])
  fix c rid x assume c: "ge_inspect env (bearer_token (hq_authorization req)) = Inr c" and run: "create_workflow_instance (sql_workflow rank) env (claims_subject c) rid s = (x, s')"
  from run show ?thesis
    by (rule create_sql) (use assms(3) c in \<open>auto simp: first_task_def\<close>)
next
  fix c act tid x assume "call = ActOnTask act tid" "ge_inspect env (bearer_token (hq_authorization req)) = Inr c"
    and run: "transition_task (sql_workflow rank) env act (claims_subject c) tid s = (x, s')"
  with transition_sql [OF assms(1) run] assms(3) show ?thesis by auto
qed (use assms(3) in simp)

subsection \<open>Runs\<close>

inductive wf_runs :: "(string \<Rightarrow> string) \<Rightarrow> (wf_db, 's) svc_state \<Rightarrow> (wf_db, 's) svc_state \<Rightarrow> bool"
  for rank :: "string \<Rightarrow> string" and s :: "(wf_db, 's) svc_state" where
  start: "wf_runs rank s s"
| call: "wf_runs rank s t \<Longrightarrow> serve_workflow (sql_workflow rank) env req c t = (rep, u) \<Longrightarrow> wf_runs rank s u"

definition wf_inv :: "(string \<Rightarrow> string) \<Rightarrow> wf_db \<Rightarrow> idgen \<Rightarrow> bool" where
  "wf_inv rank db g \<longleftrightarrow> wf_ok rank db \<and> inj (\<lambda>n. rank (ig_supply g n)) \<and>
     list_all (\<lambda>w. wi_status w = ''in_progress'' \<and> wi_step w = ''review'') (wd_instances db) \<and>
     list_all (\<lambda>t. wt_step t = ''review'' \<and> (\<exists>n < ig_next g. wt_instance t = ig_supply g n)) (wd_tasks db) \<and>
     distinct (map (\<lambda>t. rank (wt_instance t)) (wd_tasks db))"

lemma wf_inv_later: "wf_inv rank db g \<Longrightarrow> ig_next g \<le> n \<Longrightarrow> wf_inv rank db (g\<lparr>ig_next := n\<rparr>)"
  by (auto simp: wf_inv_def list_all_iff) (meson less_le_trans)

lemma wf_inv_settle: "wf_inv rank db g \<Longrightarrow> wd_tasks db = xs @ t # ys \<Longrightarrow> wf_inv rank (db\<lparr>wd_tasks := xs @ settled act t # ys\<rparr>) g"
  by (auto simp: wf_inv_def wf_ok_def settled_def)

lemma wf_inv_instance:
  assumes "wf_inv rank db g" and "list_all (\<lambda>r. rank (wi_id r) \<noteq> rank (wi_id w)) (wd_instances db)" and "w = new_instance sub rid i"
  shows "wf_inv rank (db\<lparr>wd_instances := wd_instances db @ [w]\<rparr>) g"
  using assms by (auto simp: wf_inv_def wf_ok_def list_all_iff new_instance_def)

lemma wf_inv_task:
  assumes "wf_inv rank db g" and "list_all (\<lambda>r. rank (wt_id r) \<noteq> rank (wt_id t)) (wd_tasks db)" and "wt_instance t = ig_supply g (ig_next g)" and "wt_step t = ''review''"
    and "ig_next g < n"
  shows "wf_inv rank (db\<lparr>wd_tasks := wd_tasks db @ [t]\<rparr>) (g\<lparr>ig_next := n\<rparr>)"
proof -
  have "rank (wt_instance r) \<noteq> rank (wt_instance t)" if "r \<in> set (wd_tasks db)" for r
  proof -
    from that assms(1) have "\<exists>n < ig_next g. wt_instance r = ig_supply g n" by (simp add: wf_inv_def list_all_iff)
    then obtain n where n: "n < ig_next g" "wt_instance r = ig_supply g n" by blast
    have "inj (\<lambda>n. rank (ig_supply g n))" using assms(1) by (simp add: wf_inv_def)
    with n assms(3) show ?thesis by (auto dest: injD)
  qed
  then show ?thesis using assms by (auto simp: wf_inv_def wf_ok_def list_all_iff image_iff) (metis less_trans)+
qed

lemma wf_step:
  assumes "serve_workflow (sql_workflow rank) env req c t = (rep, u)" and "wf_inv rank (svc_repo t) (svc_ids t)"
  shows "wf_inv rank (svc_repo u) (svc_ids u) \<and> set (filter (\<lambda>r. wt_status r \<noteq> ''pending'') (wd_tasks (svc_repo t))) \<subseteq> set (wd_tasks (svc_repo u))"
proof (rule handler_cases [OF serve_state [OF assms(1)]])
  fix cl rid x assume "create_workflow_instance (sql_workflow rank) env (claims_subject cl) rid t = (x, u)"
  then show ?thesis
  proof (cases rule: create_sql)
    case (none n)
    then show ?thesis using wf_inv_later [OF assms(2), of n] by simp
  next
    case (bare w)
    then show ?thesis using wf_inv_later [OF wf_inv_instance [OF assms(2)]] by (auto simp: less_imp_le)
  next
    case (full w k)
    have "wf_inv rank ((svc_repo t)\<lparr>wd_instances := wd_instances (svc_repo t) @ [w]\<rparr>) (svc_ids t)" using wf_inv_instance [OF assms(2) full(5,1)] .
    from wf_inv_task [OF this, of k "Suc (Suc (ig_next (svc_ids t)))"] show ?thesis using full by (auto simp: first_task_def new_instance_def)
  qed
next
  fix cl act tid x assume run: "transition_task (sql_workflow rank) env act (claims_subject cl) tid t = (x, u)"
  have "wf_ok rank (svc_repo t)" using assms(2) by (simp add: wf_inv_def)
  from transition_sql [OF this run] show ?thesis using assms(2) wf_inv_settle [OF assms(2)] by auto
qed (use assms(2) in auto)

text \<open>The workflow never moves on: in every run from empty tables each instance stays in progress at its review
  step, it never has more than the one task it started with, and a settled task is never changed
  again, so no second action can follow the first.\<close>

theorem workflow_never_advances:
  assumes "wf_runs rank s t" and "wd_instances (svc_repo s) = []" and "wd_tasks (svc_repo s) = []" and "inj (\<lambda>n. rank (ig_supply (svc_ids s) n))"
    and "wf_runs rank t u"
  shows "list_all (\<lambda>w. wi_status w = ''in_progress'' \<and> wi_step w = ''review'') (wd_instances (svc_repo t)) \<and>
    distinct (map (\<lambda>r. rank (wt_instance r)) (wd_tasks (svc_repo t))) \<and> list_all (\<lambda>r. wt_step r = ''review'') (wd_tasks (svc_repo t)) \<and>
    set (filter (\<lambda>r. wt_status r \<noteq> ''pending'') (wd_tasks (svc_repo t))) \<subseteq> set (wd_tasks (svc_repo u))"
proof -
  have inv: "wf_inv rank (svc_repo t) (svc_ids t)"
    using assms(1)
  proof induction
    case start
    show ?case using assms(2-4) by (simp add: wf_inv_def wf_ok_def)
  next
    case (call t env req c rep u)
    with wf_step show ?case by blast
  qed
  have "wf_inv rank (svc_repo u) (svc_ids u) \<and> set (filter (\<lambda>r. wt_status r \<noteq> ''pending'') (wd_tasks (svc_repo t))) \<subseteq> set (wd_tasks (svc_repo u))"
    using assms(5)
  proof induction
    case (call v env req c rep u)
    then have "wf_inv rank (svc_repo v) (svc_ids v)" by simp
    from wf_step [OF call.hyps(2) this] call.IH show ?case by auto
  qed (use inv in auto)
  with inv show ?thesis by (simp add: wf_inv_def list_all_iff)
qed

subsection \<open>Evaluated\<close>

definition wit_wf_start :: "(wf_db, unit) svc_state" where
  "wit_wf_start = \<lparr>svc_repo = \<lparr>wd_companies = [''c_1''], wd_instances = [], wd_tasks = []\<rparr>, svc_ids = tally_ids, svc_auth = ()\<rparr>"

definition wit_wf_step :: "wf_call \<Rightarrow> (wf_db, unit) svc_state \<Rightarrow> (wf_db, unit) svc_state" where
  "wit_wf_step c s = snd (serve_workflow (sql_workflow (\<lambda>x. x)) wit_guard wit_request c s)"

lemma wit_wf_call: "serve_workflow (sql_workflow (\<lambda>x. x)) wit_guard wit_request c s = (fst (serve_workflow (sql_workflow (\<lambda>x. x)) wit_guard wit_request c s), wit_wf_step c s)"
  by (simp add: wit_wf_step_def)

theorem task_settled_by_assignee_witness:
  "let s = wit_wf_step (StartInstance (Inr ''rec'')) wit_wf_start; t = wit_wf_step (ActOnTask Review ''idi'') s in
    map (\<lambda>r. (wt_assignee r, wt_status r)) (wd_tasks (svc_repo t)) = [(''m_1'', ''reviewed'')] \<and>
    (\<exists>r xs ys. wd_tasks (svc_repo s) = xs @ r # ys \<and> wd_tasks (svc_repo t) = xs @ settled Review r # ys \<and> wt_status r = ''pending'')"
proof -
  let ?s = "wit_wf_step (StartInstance (Inr ''rec'')) wit_wf_start"
  let ?t = "wit_wf_step (ActOnTask Review ''idi'') ?s"
  have v: "map (\<lambda>r. (wt_assignee r, wt_status r)) (wd_tasks (svc_repo ?s)) = [(''m_1'', ''pending'')]"
    "map (\<lambda>r. (wt_assignee r, wt_status r)) (wd_tasks (svc_repo ?t)) = [(''m_1'', ''reviewed'')]" by code_simp+
  have ok: "wf_ok (\<lambda>x. x) (svc_repo ?s)" unfolding wf_ok_def by code_simp
  have ne: "wd_tasks (svc_repo ?t) \<noteq> wd_tasks (svc_repo ?s)" using v by auto
  have "length (map (\<lambda>r. (wt_assignee r, wt_status r)) (wd_tasks (svc_repo ?t))) = length (map (\<lambda>r. (wt_assignee r, wt_status r)) (wd_tasks (svc_repo ?s)))"
    unfolding v by simp
  then have len: "\<And>k. wd_tasks (svc_repo ?t) \<noteq> wd_tasks (svc_repo ?s) @ [k]" by auto
  obtain act r xs ys where "ActOnTask Review ''idi'' = ActOnTask act ''idi''" "wd_tasks (svc_repo ?s) = xs @ r # ys" "wd_tasks (svc_repo ?t) = xs @ settled act r # ys" "wt_status r = ''pending''"
    using task_settled_by_assignee [OF ok wit_wf_call ne] len by blast
  then show ?thesis using v(2) unfolding Let_def by blast
qed

theorem workflow_never_advances_witness:
  "let t = wit_wf_step (ActOnTask Review ''idi'') (wit_wf_step (StartInstance (Inr ''rec'')) wit_wf_start); u = wit_wf_step (ActOnTask Confirm ''idi'') t in
    map wi_status (wd_instances (svc_repo t)) = [''in_progress''] \<and> set (filter (\<lambda>r. wt_status r \<noteq> ''pending'') (wd_tasks (svc_repo t))) \<subseteq> set (wd_tasks (svc_repo u))"
proof -
  let ?s = "wit_wf_step (StartInstance (Inr ''rec'')) wit_wf_start"
  let ?t = "wit_wf_step (ActOnTask Review ''idi'') ?s"
  let ?u = "wit_wf_step (ActOnTask Confirm ''idi'') ?t"
  have 1: "wf_runs (\<lambda>x. x) wit_wf_start ?t" by (rule wf_runs.call [OF wf_runs.call [OF wf_runs.start wit_wf_call] wit_wf_call])
  have 2: "wf_runs (\<lambda>x. x) ?t ?u" by (rule wf_runs.call [OF wf_runs.start wit_wf_call])
  have ids: "inj (\<lambda>n. ig_supply (svc_ids wit_wf_start) n)" using fresh_tally_ids by (simp add: fresh_ids_def wit_wf_start_def)
  have "map wi_status (wd_instances (svc_repo ?t)) = [''in_progress'']" by code_simp
  with workflow_never_advances [OF 1 _ _ ids 2] show ?thesis by (simp add: Let_def wit_wf_start_def)
qed

end
