(* ===== verification/Notification.thy ===== *)
theory Notification
  imports GuardedService Outbox
begin

section \<open>Notification jobs and deliveries\<close>

text \<open>
  Models \<^verbatim>\<open>internal/notification\<close>: the service (\<open>app/service.go\<close>), its two repositories (\<open>infra/inmemory\<close>,
  \<open>infra/mysql\<close>) and the handlers (\<open>transport/http/handler.go\<close>). A job is stored together with an event of the outbox,
  over MySQL in one transaction; the jobs of a company are dispatched by a request of one of its members. The
  collation key \<open>rank\<close> is a parameter; the jobs of a table stand in the order of their creation.
\<close>

subsection \<open>Jobs and deliveries\<close>

record nt_job =
  nj_id :: string
  nj_company :: string
  nj_event :: string
  nj_rtype :: string
  nj_rid :: string
  nj_payload :: "attrs option"
  nj_status :: string

record nt_delivery =
  nd_id :: string
  nd_job :: string
  nd_recipient :: string
  nd_status :: string

record 'r notification_port =
  np_create_job :: "nt_job \<Rightarrow> (go_error, 'r, nt_job) action"
  np_list_pending :: "string \<Rightarrow> int \<Rightarrow> (go_error, 'r, nt_job list) action"
  np_update_status :: "string \<Rightarrow> string \<Rightarrow> string \<Rightarrow> (go_error, 'r, unit) action"
  np_create_delivery :: "nt_delivery \<Rightarrow> (go_error, 'r, nt_delivery) action"

subsection \<open>In memory\<close>

record nt_mem =
  nm_jobs :: "string \<rightharpoonup> nt_job"
  nm_deliveries :: "string \<rightharpoonup> nt_delivery"

definition nt_key :: "string \<Rightarrow> string \<Rightarrow> string" where
  "nt_key c i = c @ '':'' @ i"

definition mem_create_job :: "nt_job \<Rightarrow> (go_error, nt_mem, nt_job) action" where
  "mem_create_job j s = (Inr j, s\<lparr>nm_jobs := (nm_jobs s)(nt_key (nj_company j) (nj_id j) \<mapsto> j)\<rparr>)"

definition mem_list_pending :: "(string, nt_job) visit \<Rightarrow> string \<Rightarrow> int \<Rightarrow> (go_error, nt_mem, nt_job list) action" where
  "mem_list_pending ord c n s =
    (let js = sort_key nj_id (filter (\<lambda>j. nj_company j = c \<and> nj_status j = ''pending'') (map_values (nm_jobs s) (ord (nm_jobs s)))) in
     (Inr (if 0 < n \<and> n < int (length js) then take (nat n) js else js), s))"

definition mem_update_job_status :: "string \<Rightarrow> string \<Rightarrow> string \<Rightarrow> (go_error, nt_mem, unit) action" where
  "mem_update_job_status c i st s = (Inr (), case nm_jobs s (nt_key c i) of None \<Rightarrow> s
     | Some j \<Rightarrow> s\<lparr>nm_jobs := (nm_jobs s)(nt_key c i \<mapsto> j\<lparr>nj_status := st\<rparr>)\<rparr>)"

definition mem_create_delivery :: "nt_delivery \<Rightarrow> (go_error, nt_mem, nt_delivery) action" where
  "mem_create_delivery d s = (Inr d, s\<lparr>nm_deliveries := (nm_deliveries s)(nd_id d \<mapsto> d)\<rparr>)"

definition mem_notification :: "(string, nt_job) visit \<Rightarrow> nt_mem notification_port" where
  "mem_notification ord = \<lparr>np_create_job = mem_create_job, np_list_pending = mem_list_pending ord, np_update_status = mem_update_job_status,
     np_create_delivery = mem_create_delivery\<rparr>"

subsection \<open>In MySQL\<close>

record nt_db =
  nb_companies :: "string list"
  nb_jobs :: "nt_job list"
  nb_deliveries :: "nt_delivery list"

definition sql_create_job :: "(string \<Rightarrow> string) \<Rightarrow> nt_job \<Rightarrow> (go_error, nt_db, nt_job) action" where
  "sql_create_job rank j s =
    (if \<not> list_all (\<lambda>kv. marshalable (snd kv)) (case nj_payload j of None \<Rightarrow> [] | Some p \<Rightarrow> p)
     then (Inl (WrapErr ''marshal notification payload'' (PlainErr ''json: unsupported value'')), s)
     else if list_ex (\<lambda>r. rank (nj_id r) = rank (nj_id j)) (nb_jobs s) then (Inl (WrapErr ''notification job insert'' duplicate_key), s)
     else if \<not> list_ex (\<lambda>c. rank c = rank (nj_company j)) (nb_companies s) then (Inl (WrapErr ''notification job insert'' foreign_key), s)
     else (Inr j, s\<lparr>nb_jobs := nb_jobs s @ [j]\<rparr>))"

text \<open>A payload that was stored as null is read as an empty map.\<close>

definition scan_job :: "nt_job \<Rightarrow> nt_job" where
  "scan_job j = j\<lparr>nj_payload := Some (case nj_payload j of None \<Rightarrow> [] | Some p \<Rightarrow> p)\<rparr>"

definition pending_job :: "(string \<Rightarrow> string) \<Rightarrow> string \<Rightarrow> nt_job \<Rightarrow> bool" where
  "pending_job rank c j \<longleftrightarrow> rank (nj_company j) = rank c \<and> rank (nj_status j) = rank ''pending''"

definition sql_list_pending :: "(string \<Rightarrow> string) \<Rightarrow> string \<Rightarrow> int \<Rightarrow> (go_error, nt_db, nt_job list) action" where
  "sql_list_pending rank c n s =
    (Inr (map scan_job (take (nat (if n \<le> 0 then 50 else n)) (filter (pending_job rank c) (nb_jobs s)))), s)"

definition sql_update_status :: "(string \<Rightarrow> string) \<Rightarrow> string \<Rightarrow> string \<Rightarrow> string \<Rightarrow> (go_error, nt_db, unit) action" where
  "sql_update_status rank c i st s =
    (Inr (), s\<lparr>nb_jobs := snd (sql_update (\<lambda>j. rank (nj_id j) = rank i \<and> rank (nj_company j) = rank c) (\<lambda>j. j\<lparr>nj_status := st\<rparr>) (nb_jobs s))\<rparr>)"

definition sql_create_delivery :: "(string \<Rightarrow> string) \<Rightarrow> nt_delivery \<Rightarrow> (go_error, nt_db, nt_delivery) action" where
  "sql_create_delivery rank d s =
    (if list_ex (\<lambda>r. rank (nd_id r) = rank (nd_id d)) (nb_deliveries s) then (Inl duplicate_key, s)
     else if \<not> list_ex (\<lambda>j. rank (nj_id j) = rank (nd_job d)) (nb_jobs s) then (Inl foreign_key, s)
     else (Inr d, s\<lparr>nb_deliveries := nb_deliveries s @ [d]\<rparr>))"

definition sql_notification :: "(string \<Rightarrow> string) \<Rightarrow> nt_db notification_port" where
  "sql_notification rank = \<lparr>np_create_job = sql_create_job rank, np_list_pending = sql_list_pending rank, np_update_status = sql_update_status rank,
     np_create_delivery = sql_create_delivery rank\<rparr>"

subsection \<open>The service\<close>

text \<open>The stores the service writes: its repository and the outbox. \<open>nx_tx\<close> holds when the service was built with
  the transactional option on a MySQL repository.\<close>

record ('r, 'o) nt_stores =
  ns_repo :: 'r
  ns_outbox :: 'o

record ('r, 'o, 's) nt_env =
  nx_port :: "'r notification_port"
  nx_outbox :: "'o outbox_ops"
  nx_tx :: bool
  nx_guard :: "(('r, 'o) nt_stores, 's) guard_env"

type_synonym ('r, 'o, 's, 'x) nt_action = "(('r, 'o) nt_stores, 's, 'x) svc_action"

definition on_jobs :: "(go_error, 'r, 'x) action \<Rightarrow> ('r, 'o, 's, 'x) nt_action" where
  "on_jobs m = on_repo (\<lambda>st. case m (ns_repo st) of (x, r) \<Rightarrow> (x, st\<lparr>ns_repo := r\<rparr>))"

definition on_outbox :: "(go_error, 'o, 'x) action \<Rightarrow> ('r, 'o, 's, 'x) nt_action" where
  "on_outbox m = on_repo (\<lambda>st. case m (ns_outbox st) of (x, r) \<Rightarrow> (x, st\<lparr>ns_outbox := r\<rparr>))"

definition job_ref :: "string \<Rightarrow> resource_ref" where
  "job_ref rid = \<lparr>res_type = ''notification_job'', res_id = rid, res_attrs = []\<rparr>"

definition nt_authorize :: "('r, 'o, 's) nt_env \<Rightarrow> subject_ref \<Rightarrow> string \<Rightarrow> string \<Rightarrow> ('r, 'o, 's, unit) nt_action" where
  "nt_authorize env sub action rid = service_authorize (nx_guard env) ''authorize notification action'' sub action (job_ref rid)"

definition resolve_recipients :: "('r, 'o, 's) nt_env \<Rightarrow> subject_ref \<Rightarrow> string \<Rightarrow> ('r, 'o, 's, string list) nt_action" where
  "resolve_recipients env sub rid =
    seqE (nt_authorize env sub ''notification.resolve_recipients'' rid) (\<lambda>_. okE [sub_membership sub])"

record enqueue_request =
  er_event :: string
  er_rtype :: string
  er_rid :: string
  er_payload :: "attrs option"

definition new_job :: "subject_ref \<Rightarrow> enqueue_request \<Rightarrow> string \<Rightarrow> nt_job" where
  "new_job sub req i = \<lparr>nj_id = i, nj_company = sub_company sub, nj_event = er_event req, nj_rtype = er_rtype req, nj_rid = er_rid req,
     nj_payload = er_payload req, nj_status = ''pending''\<rparr>"

definition to_outbox_event :: "int \<Rightarrow> nt_job \<Rightarrow> string \<Rightarrow> domain_event" where
  "to_outbox_event now j e = \<lparr>ev_id = e, ev_agg_type = ''notification_job'', ev_agg_id = nj_id j, ev_type = ''notification.dispatch'',
     ev_payload = [(''company_id'', AStr (nj_company j)), (''job_id'', AStr (nj_id j))], ev_occurred = now\<rparr>"

definition publish_job :: "('r, 'o, 's) nt_env \<Rightarrow> nt_job \<Rightarrow> ('r, 'o, 's, unit) nt_action" where
  "publish_job env j = seqE (on_ids new_uuid) (\<lambda>e. on_outbox (publish (nx_outbox env) (to_outbox_event (ge_now (nx_guard env)) j e)))"

text \<open>A transaction: an error takes back what the body wrote.\<close>

definition in_transaction :: "('r, 'o, 's, 'x) nt_action \<Rightarrow> ('r, 'o, 's, 'x) nt_action" where
  "in_transaction m s = (case m s of (Inl e, s') \<Rightarrow> (Inl e, s'\<lparr>svc_repo := svc_repo s\<rparr>) | (Inr x, s') \<Rightarrow> (Inr x, s'))"

definition enqueue_notification :: "('r, 'o, 's) nt_env \<Rightarrow> subject_ref \<Rightarrow> enqueue_request \<Rightarrow> ('r, 'o, 's, nt_job) nt_action" where
  "enqueue_notification env sub req =
    seqE (chkE (trim_space (er_event req) \<noteq> []) (bad_request ''event_type is required'')) (\<lambda>_.
    seqE (nt_authorize env sub ''notification.enqueue'' (er_rid req)) (\<lambda>_.
    seqE (on_ids new_uuid) (\<lambda>i.
    if nx_tx env then in_transaction (seqE (on_jobs (np_create_job (nx_port env) (new_job sub req i))) (\<lambda>j. seqE (publish_job env j) (\<lambda>_. okE j)))
    else seqE (on_jobs (np_create_job (nx_port env) (new_job sub req i))) (\<lambda>j. seqE (attempt (publish_job env j)) (\<lambda>_. okE j)))))"

text \<open>When the recipients cannot be resolved the error is dropped and the missing answer is read.\<close>

definition nil_dereference :: go_error where
  "nil_dereference = PlainErr ''runtime error: invalid memory address or nil pointer dereference''"

definition sent_delivery :: "nt_job \<Rightarrow> string \<Rightarrow> string \<Rightarrow> nt_delivery" where
  "sent_delivery j r i = \<lparr>nd_id = i, nd_job = nj_id j, nd_recipient = r, nd_status = ''sent''\<rparr>"

fun deliver_to :: "('r, 'o, 's) nt_env \<Rightarrow> nt_job \<Rightarrow> string list \<Rightarrow> ('r, 'o, 's, unit) nt_action" where
  "deliver_to env j [] = okE ()"
| "deliver_to env j (r # rs) =
    seqE (on_ids new_uuid) (\<lambda>i. seqE (attempt (on_jobs (np_create_delivery (nx_port env) (sent_delivery j r i)))) (\<lambda>_. deliver_to env j rs))"

fun dispatch_jobs :: "('r, 'o, 's) nt_env \<Rightarrow> subject_ref \<Rightarrow> nt_job list \<Rightarrow> ('r, 'o, 's, unit) nt_action" where
  "dispatch_jobs env sub [] = okE ()"
| "dispatch_jobs env sub (j # js) =
    seqE (wrapE (\<lambda>_. nil_dereference) (resolve_recipients env sub (nj_rid j))) (\<lambda>rs.
    seqE (deliver_to env j rs) (\<lambda>_.
    seqE (attempt (on_jobs (np_update_status (nx_port env) (nj_company j) (nj_id j) ''dispatched''))) (\<lambda>_. dispatch_jobs env sub js)))"

definition dispatch_limit :: "int \<Rightarrow> int" where
  "dispatch_limit n = (if n \<le> 0 then 50 else n)"

definition dispatch_pending :: "('r, 'o, 's) nt_env \<Rightarrow> subject_ref \<Rightarrow> int \<Rightarrow> ('r, 'o, 's, nat) nt_action" where
  "dispatch_pending env sub n =
    seqE (nt_authorize env sub ''notification.dispatch'' []) (\<lambda>_.
    seqE (on_jobs (np_list_pending (nx_port env) (sub_company sub) (dispatch_limit n))) (\<lambda>js.
    seqE (dispatch_jobs env sub js) (\<lambda>_. okE (length js))))"

subsection \<open>The handlers\<close>

datatype nt_call =
    ResolveRecipients "go_error + string \<times> string \<times> string"
  | Enqueue "go_error + enqueue_request"
  | Dispatch "go_error + int"

datatype nt_body =
    NRecipients "string list"
  | NJob nt_job
  | NCount nat

text \<open>The dispatch handler reads a body that does not decode as an empty one.\<close>

fun nt_handler :: "('r, 'o, 's) nt_env \<Rightarrow> http_request \<Rightarrow> nt_call \<Rightarrow> ('r, 'o, 's, int \<times> nt_body) nt_action" where
  "nt_handler env req (ResolveRecipients body) =
    seqE (caller (nx_guard env) req) (\<lambda>sub. seqE (liftE (\<lambda>_. body)) (\<lambda>(ev, rtype, rid).
    seqE (resolve_recipients env sub rid) (\<lambda>rs. okE (200, NRecipients rs))))"
| "nt_handler env req (Enqueue body) =
    seqE (caller (nx_guard env) req) (\<lambda>sub. seqE (liftE (\<lambda>_. body)) (\<lambda>r.
    seqE (enqueue_notification env sub r) (\<lambda>j. okE (201, NJob j))))"
| "nt_handler env req (Dispatch body) =
    seqE (caller (nx_guard env) req) (\<lambda>sub.
    seqE (dispatch_pending env sub (case body of Inl _ \<Rightarrow> 0 | Inr n \<Rightarrow> n)) (\<lambda>n. okE (200, NCount n)))"

definition serve_notification :: "('r, 'o, 's) nt_env \<Rightarrow> http_request \<Rightarrow> nt_call \<Rightarrow> (('r, 'o) nt_stores, 's) svc_state \<Rightarrow>
    nt_body reply \<times> (('r, 'o) nt_stores, 's) svc_state" where
  "serve_notification env req call = respond (nt_handler env req call)"

subsection \<open>Enqueuing\<close>

lemma nt_authorize_frame: "nt_authorize env sub a rid s = (x, s') \<Longrightarrow> svc_repo s' = svc_repo s \<and> svc_ids s' = svc_ids s"
  unfolding nt_authorize_def by (rule service_authorize_frame)

text \<open>Over MySQL a notification is enqueued whole or not at all: a failed request leaves job table and outbox as
  they were, a successful one appends exactly its pending job and one event of the outbox that names it.\<close>

theorem enqueue_atomic:
  assumes "nx_port env = sql_notification rank" and "nx_outbox env = sql_outbox" and "nx_tx env"
    and "enqueue_notification env sub req s = (x, s')"
  shows "case x of Inl e \<Rightarrow> svc_repo s' = svc_repo s
    | Inr j \<Rightarrow> \<exists>i e. j = new_job sub req i \<and> svc_repo s' = (svc_repo s)
        \<lparr>ns_repo := (ns_repo (svc_repo s))\<lparr>nb_jobs := nb_jobs (ns_repo (svc_repo s)) @ [j]\<rparr>,
         ns_outbox := ns_outbox (svc_repo s) @ [new_item \<lparr>ip_id = e, ip_agg_type = ''notification_job'', ip_agg_id = i, ip_type = ''notification.dispatch'',
           ip_payload = [(''company_id'', AStr (sub_company sub)), (''job_id'', AStr i)], ip_available = ge_now (nx_guard env)\<rparr>]\<rparr>"
proof -
  obtain y u where a: "nt_authorize env sub ''notification.enqueue'' (er_rid req) s = (y, u)" by fastforce
  have f: "svc_repo u = svc_repo s" using nt_authorize_frame [OF a] by simp
  show ?thesis
  proof (cases "trim_space (er_event req) = [] \<or> isl y")
    case True
    then show ?thesis using assms(4) a f by (cases y) (auto simp: enqueue_notification_def split: if_splits)
  next
    case False
    let ?i = "ig_supply (svc_ids u) (ig_next (svc_ids u))" and ?v = "u\<lparr>svc_ids := (svc_ids u)\<lparr>ig_next := Suc (ig_next (svc_ids u))\<rparr>\<rparr>"
    have run: "enqueue_notification env sub req s = in_transaction (seqE (on_jobs (sql_create_job rank (new_job sub req ?i))) (\<lambda>j. seqE (publish_job env j) (\<lambda>_. okE j))) ?v"
      using False a assms(1,3) by (cases y) (simp_all add: enqueue_notification_def on_ids_def new_uuid_def seqE_def sql_notification_def)
    obtain z w where m: "seqE (on_jobs (sql_create_job rank (new_job sub req ?i))) (\<lambda>j. seqE (publish_job env j) (\<lambda>_. okE j)) ?v = (z, w)" by fastforce
    show ?thesis
    proof (cases z)
      case (Inl e)
      then show ?thesis using assms(4) run m f by (auto simp: in_transaction_def)
    next
      case (Inr j)
      then have x: "x = Inr j" "s' = w" using assms(4) run m by (auto simp: in_transaction_def)
      from m Inr obtain v' where c: "on_jobs (sql_create_job rank (new_job sub req ?i)) ?v = (Inr j, v')" and p: "publish_job env j v' = (Inr (), w)"
        by (auto simp: seq_iffs)
      have j: "j = new_job sub req ?i" "svc_repo v' = (svc_repo s)\<lparr>ns_repo := (ns_repo (svc_repo s))\<lparr>nb_jobs := nb_jobs (ns_repo (svc_repo s)) @ [j]\<rparr>\<rparr>"
        using c f by (auto simp: on_jobs_def on_repo_def sql_create_job_def split: if_splits)
      let ?e = "ig_supply (svc_ids v') (ig_next (svc_ids v'))"
      have "svc_repo w = (svc_repo v')\<lparr>ns_outbox := ns_outbox (svc_repo v') @ [new_item \<lparr>ip_id = ?e, ip_agg_type = ''notification_job'', ip_agg_id = nj_id j, ip_type = ''notification.dispatch'',
           ip_payload = [(''company_id'', AStr (nj_company j)), (''job_id'', AStr (nj_id j))], ip_available = ge_now (nx_guard env)\<rparr>]\<rparr>"
        using p by (auto simp: publish_job_def on_ids_def new_uuid_def seqE_def on_outbox_def on_repo_def assms(2) sql_outbox_def publish_def to_outbox_event_def sql_insert_def
          split: if_splits prod.splits)
      then show ?thesis using j x by (auto simp: new_job_def)
    qed
  qed
qed

subsection \<open>Dispatching\<close>

definition dispatched :: "nt_job \<Rightarrow> nt_job" where
  "dispatched j = j\<lparr>nj_status := ''dispatched''\<rparr>"

definition jobs_ok :: "(string \<Rightarrow> string) \<Rightarrow> nt_db \<Rightarrow> bool" where
  "jobs_ok rank db \<longleftrightarrow> distinct (map (\<lambda>j. rank (nj_id j)) (nb_jobs db))"

definition delivery_ids_ok :: "(string \<Rightarrow> string) \<Rightarrow> nt_db \<Rightarrow> idgen \<Rightarrow> bool" where
  "delivery_ids_ok rank db g \<longleftrightarrow> inj (\<lambda>n. rank (ig_supply g n)) \<and> (\<forall>d \<in> set (nb_deliveries db). \<forall>n \<ge> ig_next g. rank (nd_id d) \<noteq> rank (ig_supply g n))"

definition mark_job :: "(string \<Rightarrow> string) \<Rightarrow> nt_job \<Rightarrow> nt_db \<Rightarrow> nt_db" where
  "mark_job rank j db = db\<lparr>nb_jobs := map (\<lambda>r. if rank (nj_id r) = rank (nj_id j) then dispatched r else r) (nb_jobs db)\<rparr>"

lemma update_status_mark:
  assumes "jobs_ok rank db" and "j \<in> set (nb_jobs db)"
  shows "snd (sql_update_status rank (nj_company j) (nj_id j) ''dispatched'' db) = mark_job rank j db"
proof -
  have "r = j" if "r \<in> set (nb_jobs db)" "rank (nj_id r) = rank (nj_id j)" for r
    using assms that by (auto simp: jobs_ok_def distinct_map dest: inj_onD)
  then have "map (\<lambda>r. if rank (nj_id r) = rank (nj_id j) \<and> rank (nj_company r) = rank (nj_company j) then r\<lparr>nj_status := ''dispatched''\<rparr> else r) (nb_jobs db) =
      map (\<lambda>r. if rank (nj_id r) = rank (nj_id j) then dispatched r else r) (nb_jobs db)"
    by (intro map_cong refl) (metis dispatched_def)
  then show ?thesis by (simp add: sql_update_status_def mark_job_def)
qed

lemma attempt_jobs: "attempt (on_jobs m) s = (Inr (), s\<lparr>svc_repo := (svc_repo s)\<lparr>ns_repo := snd (m (ns_repo (svc_repo s)))\<rparr>\<rparr>)"
  by (simp add: on_jobs_def on_repo_def split: prod.splits)

lemma deliver_one: "deliver_to env j [r] s = (Inr (), s\<lparr>svc_ids := (svc_ids s)\<lparr>ig_next := Suc (ig_next (svc_ids s))\<rparr>,
    svc_repo := (svc_repo s)\<lparr>ns_repo := snd (np_create_delivery (nx_port env) (sent_delivery j r (ig_supply (svc_ids s) (ig_next (svc_ids s)))) (ns_repo (svc_repo s)))\<rparr>\<rparr>)"
  by (simp add: on_ids_def new_uuid_def seqE_def attempt_jobs del: attempt_run)

lemma mark_job_ok: "jobs_ok rank (mark_job rank j db) = jobs_ok rank db"
  by (simp add: jobs_ok_def mark_job_def dispatched_def comp_def if_distrib [of nj_id] cong: if_cong)

text \<open>One job: its delivery and its new status.\<close>

lemma dispatch_one:
  assumes port: "nx_port env = sql_notification rank" and run: "dispatch_jobs env sub (scan_job j # js) s = (Inr (), s')"
    and db: "jobs_ok rank (ns_repo (svc_repo s))" "delivery_ids_ok rank (ns_repo (svc_repo s)) (svc_ids s)" "j \<in> set (nb_jobs (ns_repo (svc_repo s)))"
  obtains u i where "dispatch_jobs env sub js u = (Inr (), s')" and "ns_outbox (svc_repo u) = ns_outbox (svc_repo s)"
    and "ns_repo (svc_repo u) = mark_job rank j ((ns_repo (svc_repo s))\<lparr>nb_deliveries := nb_deliveries (ns_repo (svc_repo s)) @ [sent_delivery j (sub_membership sub) i]\<rparr>)"
    and "delivery_ids_ok rank (ns_repo (svc_repo u)) (svc_ids u)"
proof -
  let ?db = "ns_repo (svc_repo s)" and ?g = "svc_ids s"
  let ?i = "ig_supply ?g (ig_next ?g)"
  let ?d = "sent_delivery (scan_job j) (sub_membership sub) ?i"
  obtain y v where a: "nt_authorize env sub ''notification.resolve_recipients'' (nj_rid (scan_job j)) s = (y, v)" by fastforce
  have f: "svc_repo v = svc_repo s" "svc_ids v = svc_ids s" using nt_authorize_frame [OF a] by simp_all
  have y: "y = Inr ()" using run a by (cases y) (auto simp: resolve_recipients_def)
  have create: "snd (sql_create_delivery rank ?d ?db) = ?db\<lparr>nb_deliveries := nb_deliveries ?db @ [?d]\<rparr>"
  proof -
    have "\<not> list_ex (\<lambda>r. rank (nd_id r) = rank (nd_id ?d)) (nb_deliveries ?db)" using db(2) by (auto simp: delivery_ids_ok_def list_ex_iff sent_delivery_def)
    moreover have "list_ex (\<lambda>r. rank (nj_id r) = rank (nd_job ?d)) (nb_jobs ?db)" using db(3) by (auto simp: list_ex_iff sent_delivery_def scan_job_def)
    ultimately show ?thesis by (simp add: sql_create_delivery_def)
  qed
  let ?db1 = "?db\<lparr>nb_deliveries := nb_deliveries ?db @ [?d]\<rparr>"
  have mark: "snd (sql_update_status rank (nj_company (scan_job j)) (nj_id (scan_job j)) ''dispatched'' ?db1) = mark_job rank j ?db1"
    using update_status_mark [of rank ?db1 j] db(1,3) by (simp add: jobs_ok_def scan_job_def)
  define u where "u = v\<lparr>svc_ids := ?g\<lparr>ig_next := Suc (ig_next ?g)\<rparr>, svc_repo := (svc_repo s)\<lparr>ns_repo := mark_job rank j ?db1\<rparr>\<rparr>"
  have "resolve_recipients env sub (nj_rid (scan_job j)) s = (Inr [sub_membership sub], v)" using a y by (simp add: resolve_recipients_def)
  then have "dispatch_jobs env sub (scan_job j # js) s = dispatch_jobs env sub js u"
    by (simp add: deliver_one attempt_jobs f port sql_notification_def create mark u_def del: deliver_to.simps attempt_run)
  with run have "dispatch_jobs env sub js u = (Inr (), s')" by simp
  moreover have "delivery_ids_ok rank (ns_repo (svc_repo u)) (svc_ids u)"
    using db(2) by (auto simp: delivery_ids_ok_def u_def mark_job_def sent_delivery_def dest: injD)
  ultimately show thesis by (intro that [of u ?i]) (simp_all add: u_def sent_delivery_def scan_job_def)
qed

lemma dispatch_all:
  assumes "nx_port env = sql_notification rank" and "dispatch_jobs env sub (map scan_job js) s = (Inr (), s')"
    and "jobs_ok rank (ns_repo (svc_repo s))" and "delivery_ids_ok rank (ns_repo (svc_repo s)) (svc_ids s)"
    and "set js \<subseteq> set (nb_jobs (ns_repo (svc_repo s)))" and "distinct (map (\<lambda>j. rank (nj_id j)) js)"
  shows "ns_outbox (svc_repo s') = ns_outbox (svc_repo s) \<and>
    nb_jobs (ns_repo (svc_repo s')) = map (\<lambda>r. if rank (nj_id r) \<in> (\<lambda>j. rank (nj_id j)) ` set js then dispatched r else r) (nb_jobs (ns_repo (svc_repo s))) \<and>
    (\<exists>is. length is = length js \<and> nb_deliveries (ns_repo (svc_repo s')) = nb_deliveries (ns_repo (svc_repo s)) @ map2 (\<lambda>j. sent_delivery j (sub_membership sub)) js is)"
  using assms(2-6)
proof (induction js arbitrary: s)
  case (Cons j js)
  let ?db = "ns_repo (svc_repo s)"
  have mem: "j \<in> set (nb_jobs ?db)" using Cons.prems(4) by simp
  have run: "dispatch_jobs env sub (scan_job j # map scan_job js) s = (Inr (), s')" using Cons.prems(1) by simp
  obtain u i where u: "dispatch_jobs env sub (map scan_job js) u = (Inr (), s')" "ns_outbox (svc_repo u) = ns_outbox (svc_repo s)"
      "ns_repo (svc_repo u) = mark_job rank j (?db\<lparr>nb_deliveries := nb_deliveries ?db @ [sent_delivery j (sub_membership sub) i]\<rparr>)"
      "delivery_ids_ok rank (ns_repo (svc_repo u)) (svc_ids u)"
    using dispatch_one [OF assms(1) run Cons.prems(2,3) mem] by blast
  have ok: "jobs_ok rank (ns_repo (svc_repo u))" using Cons.prems(2) by (simp add: u(3) mark_job_ok) (simp add: jobs_ok_def)
  have others: "set js \<subseteq> set (nb_jobs (ns_repo (svc_repo u)))"
  proof
    fix r assume r: "r \<in> set js"
    then have "r \<in> set (nb_jobs ?db)" "rank (nj_id r) \<noteq> rank (nj_id j)" using Cons.prems(4,5) by (auto simp: image_iff)
    then have "(if rank (nj_id r) = rank (nj_id j) then dispatched r else r) \<in> set (nb_jobs (ns_repo (svc_repo u)))" unfolding u(3) mark_job_def by simp
    then show "r \<in> set (nb_jobs (ns_repo (svc_repo u)))" using \<open>rank (nj_id r) \<noteq> rank (nj_id j)\<close> by simp
  qed
  obtain ks where ih: "ns_outbox (svc_repo s') = ns_outbox (svc_repo u)"
      "nb_jobs (ns_repo (svc_repo s')) = map (\<lambda>r. if rank (nj_id r) \<in> (\<lambda>j. rank (nj_id j)) ` set js then dispatched r else r) (nb_jobs (ns_repo (svc_repo u)))"
      "length ks = length js" "nb_deliveries (ns_repo (svc_repo s')) = nb_deliveries (ns_repo (svc_repo u)) @ map2 (\<lambda>j. sent_delivery j (sub_membership sub)) js ks"
    using Cons.IH [OF u(1) ok u(4) others] Cons.prems(5) by auto
  have jobs: "nb_jobs (ns_repo (svc_repo s')) = map (\<lambda>r. if rank (nj_id r) \<in> (\<lambda>j. rank (nj_id j)) ` set (j # js) then dispatched r else r) (nb_jobs ?db)"
    unfolding ih(2) u(3) mark_job_def by (simp add: dispatched_def)
  have "nb_deliveries (ns_repo (svc_repo s')) = nb_deliveries ?db @ map2 (\<lambda>j. sent_delivery j (sub_membership sub)) (j # js) (i # ks)"
    by (simp add: ih(4) u(3) mark_job_def)
  moreover have "length (i # ks) = length (j # js)" using ih(3) by simp
  ultimately have "\<exists>is. length is = length (j # js) \<and> nb_deliveries (ns_repo (svc_repo s')) = nb_deliveries ?db @ map2 (\<lambda>j. sent_delivery j (sub_membership sub)) (j # js) is"
    by blast
  then show ?case by (rule conjI [OF trans [OF ih(1) u(2)] conjI [OF jobs]])
qed simp

text \<open>A dispatch over MySQL that answers n has taken the first n pending jobs of the caller's company, up to the
  limit (50 if none is given): exactly these are dispatched, each has one new delivery, to the caller
  and to nobody else, and nothing else has changed.\<close>

theorem dispatch_settles_pending:
  assumes "nx_port env = sql_notification rank" and "jobs_ok rank (ns_repo (svc_repo s))" and "delivery_ids_ok rank (ns_repo (svc_repo s)) (svc_ids s)"
    and "dispatch_pending env sub n s = (Inr k, s')"
  shows "\<exists>js is. js = take (nat (if n \<le> 0 then 50 else n)) (filter (pending_job rank (sub_company sub)) (nb_jobs (ns_repo (svc_repo s)))) \<and> k = length js \<and>
    nb_jobs (ns_repo (svc_repo s')) = map (\<lambda>j. if j \<in> set js then dispatched j else j) (nb_jobs (ns_repo (svc_repo s))) \<and>
    length is = length js \<and>
    nb_deliveries (ns_repo (svc_repo s')) = nb_deliveries (ns_repo (svc_repo s)) @ map2 (\<lambda>j. sent_delivery j (sub_membership sub)) js is \<and>
    ns_outbox (svc_repo s') = ns_outbox (svc_repo s)"
proof -
  let ?db = "ns_repo (svc_repo s)"
  define js where "js = take (nat (if n \<le> 0 then 50 else n)) (filter (pending_job rank (sub_company sub)) (nb_jobs ?db))"
  obtain y u where a: "nt_authorize env sub ''notification.dispatch'' [] s = (y, u)" by fastforce
  have f: "svc_repo u = svc_repo s" "svc_ids u = svc_ids s" using nt_authorize_frame [OF a] by simp_all
  have lists: "on_jobs (np_list_pending (nx_port env) (sub_company sub) (dispatch_limit n)) u = (Inr (map scan_job js), u)"
    by (simp add: on_jobs_def on_repo_def assms(1) sql_notification_def sql_list_pending_def dispatch_limit_def js_def f)
  from assms(4) a lists have run: "dispatch_jobs env sub (map scan_job js) u = (Inr (), s')" "k = length js"
    by (cases y; auto simp: dispatch_pending_def seq_iffs)+
  have mem: "set js \<subseteq> set (nb_jobs ?db)" unfolding js_def using set_take_subset by fastforce
  have dist: "distinct (map (\<lambda>j. rank (nj_id j)) js)"
    using assms(2) inj_on_subset [OF _ mem] by (auto simp: jobs_ok_def distinct_map js_def distinct_take)
  from dispatch_all [OF assms(1) run(1), unfolded f, OF assms(2,3) mem dist] obtain ks where r: "ns_outbox (svc_repo s') = ns_outbox (svc_repo s)"
      "nb_jobs (ns_repo (svc_repo s')) = map (\<lambda>r. if rank (nj_id r) \<in> (\<lambda>j. rank (nj_id j)) ` set js then dispatched r else r) (nb_jobs ?db)"
      "length ks = length js" "nb_deliveries (ns_repo (svc_repo s')) = nb_deliveries ?db @ map2 (\<lambda>j. sent_delivery j (sub_membership sub)) js ks" by blast
  have "rank (nj_id r) \<in> (\<lambda>j. rank (nj_id j)) ` set js \<longleftrightarrow> r \<in> set js" if "r \<in> set (nb_jobs ?db)" for r
    using that mem assms(2) by (auto simp: jobs_ok_def distinct_map dest: inj_onD)
  then have "nb_jobs (ns_repo (svc_repo s')) = map (\<lambda>j. if j \<in> set js then dispatched j else j) (nb_jobs ?db)" unfolding r(2) by (intro map_cong) simp_all
  with r run(2) js_def show ?thesis by blast
qed

subsection \<open>The worker\<close>

text \<open>The event of a job is consumed without effect: after a tick of the worker on the outbox that holds it, the
  event is processed and no mail was sent, but the job is still pending, as only the dispatch route
  settles jobs.\<close>

theorem worker_drops_notification:
  assumes "nx_port env = sql_notification rank" and "nx_outbox env = sql_outbox" and "nx_tx env" and "ns_outbox (svc_repo s) = []"
    and "enqueue_notification env sub req s = (Inr j, s')" and "ge_now (nx_guard env) \<le> clock 0"
  shows "\<exists>it. tick sql_outbox (worker_processor cfg fmtv refuse batch) clock rnd (ns_outbox (svc_repo s'), sent) = (Inr (), ([it], sent)) \<and>
    q_agg_id (oi_event it) = nj_id j \<and> oi_status it = Processed \<and> j \<in> set (nb_jobs (ns_repo (svc_repo s'))) \<and> nj_status j = ''pending''"
proof -
  from enqueue_atomic [OF assms(1-3,5)] obtain i e where j: "j = new_job sub req i"
    and db: "svc_repo s' = (svc_repo s)\<lparr>ns_repo := (ns_repo (svc_repo s))\<lparr>nb_jobs := nb_jobs (ns_repo (svc_repo s)) @ [j]\<rparr>,
         ns_outbox := ns_outbox (svc_repo s) @ [new_item \<lparr>ip_id = e, ip_agg_type = ''notification_job'', ip_agg_id = i, ip_type = ''notification.dispatch'',
           ip_payload = [(''company_id'', AStr (sub_company sub)), (''job_id'', AStr i)], ip_available = ge_now (nx_guard env)\<rparr>]\<rparr>" by auto
  let ?it = "new_item \<lparr>ip_id = e, ip_agg_type = ''notification_job'', ip_agg_id = i, ip_type = ''notification.dispatch'',
           ip_payload = [(''company_id'', AStr (sub_company sub)), (''job_id'', AStr i)], ip_available = ge_now (nx_guard env)\<rparr>"
  have pos: "0 < nat (pr_batch (worker_processor cfg fmtv refuse batch))" "0 < pr_batch (worker_processor cfg fmtv refuse batch)"
    by (auto simp: worker_processor_def register_handler_def new_processor_def)
  then have tk: "take (nat (pr_batch (worker_processor cfg fmtv refuse batch))) [x] = [x]" for x :: outbox_item by (cases "nat (pr_batch (worker_processor cfg fmtv refuse batch))") auto
  have lock: "sql_lock (pr_batch (worker_processor cfg fmtv refuse batch)) (clock 0) [?it] = (Inr [oi_event ?it], [?it\<lparr>oi_status := Processing\<rparr>])"
    using pos assms(6) tk by (simp add: sql_lock_def due_def new_item_def queued_of_def row_id_def update_rows_def Let_def)
  have h: "pr_handlers (worker_processor cfg fmtv refuse batch) ''notification.dispatch'' = Some (\<lambda>e sent. (None, sent))"
    by (simp add: worker_processor_def register_handler_def)
  let ?out = "(set_processed (clock 1) (?it\<lparr>oi_status := Processing\<rparr>))\<lparr>oi_error := None\<rparr>"
  have "tick sql_outbox (worker_processor cfg fmtv refuse batch) clock rnd ([?it], sent) = (Inr (), ([?out], sent))"
    using lock h by (simp add: tick_def sql_outbox_def handle_event_def sql_mark_processed_def update_rows_def row_id_def new_item_def queued_of_def)
  moreover have "ns_outbox (svc_repo s') = [?it]" using db assms(4) by simp
  ultimately show ?thesis using db j by (intro exI [of _ ?out]) (simp add: new_item_def queued_of_def set_processed_def new_job_def)
qed

subsection \<open>Evaluated\<close>

definition wit_nt_env :: "(nt_db, outbox_table, unit) nt_env" where
  "wit_nt_env = \<lparr>nx_port = sql_notification (\<lambda>x. x), nx_outbox = sql_outbox, nx_tx = True, nx_guard = wit_guard\<rparr>"

definition wit_nt_start :: "((nt_db, outbox_table) nt_stores, unit) svc_state" where
  "wit_nt_start = \<lparr>svc_repo = \<lparr>ns_repo = \<lparr>nb_companies = [''c_1''], nb_jobs = [], nb_deliveries = []\<rparr>, ns_outbox = []\<rparr>, svc_ids = tally_ids, svc_auth = ()\<rparr>"

definition wit_nt_sub :: subject_ref where
  "wit_nt_sub = \<lparr>sub_user = ''u_1'', sub_membership = ''m_1'', sub_company = ''c_1''\<rparr>"

definition wit_enqueue :: enqueue_request where
  "wit_enqueue = \<lparr>er_event = ''e'', er_rtype = ''r'', er_rid = ''x'', er_payload = None\<rparr>"

definition wit_nt_queued :: "((nt_db, outbox_table) nt_stores, unit) svc_state" where
  "wit_nt_queued = snd (enqueue_notification wit_nt_env wit_nt_sub wit_enqueue wit_nt_start)"

lemma wit_nt_run: "enqueue_notification wit_nt_env wit_nt_sub wit_enqueue wit_nt_start =
    (Inr (new_job wit_nt_sub wit_enqueue ''id''), wit_nt_queued)"
proof -
  have "fst (enqueue_notification wit_nt_env wit_nt_sub wit_enqueue wit_nt_start) = Inr (new_job wit_nt_sub wit_enqueue ''id'')" by code_simp
  then show ?thesis by (simp add: wit_nt_queued_def prod_eq_iff)
qed

lemma wit_nt_ports: "nx_port wit_nt_env = sql_notification (\<lambda>x. x)" "nx_outbox wit_nt_env = sql_outbox" "nx_tx wit_nt_env"
  by (simp_all add: wit_nt_env_def)

definition keeps_supply :: "('r, 's, 'x) svc_action \<Rightarrow> bool" where
  "keeps_supply m \<longleftrightarrow> (\<forall>s. ig_supply (svc_ids (snd (m s))) = ig_supply (svc_ids s))"

lemma keeps_supply_authorize: "keeps_supply (nt_authorize env sub a rid)"
  unfolding keeps_supply_def
proof
  fix s
  obtain x u where "nt_authorize env sub a rid s = (x, u)" by fastforce
  with nt_authorize_frame [OF this] show "ig_supply (svc_ids (snd (nt_authorize env sub a rid s))) = ig_supply (svc_ids s)" by simp
qed

lemma keeps_supply_intros: "keeps_supply m \<Longrightarrow> (\<And>x. keeps_supply (k x)) \<Longrightarrow> keeps_supply (seqE m k)" "keeps_supply (okE x)" "keeps_supply (chkE b e)"
    "keeps_supply (on_ids new_uuid)" "keeps_supply (on_repo f)" "keeps_supply m \<Longrightarrow> keeps_supply (attempt m)"
  by (auto simp: keeps_supply_def seqE_def on_ids_def new_uuid_def on_repo_def split: prod.splits sum.splits)
    (metis snd_conv)+

lemma enqueue_supply:
  assumes "enqueue_notification env sub req s = (x, s')"
  shows "ig_supply (svc_ids s') = ig_supply (svc_ids s)"
proof -
  have t: "keeps_supply m \<Longrightarrow> keeps_supply (in_transaction m)" for m by (auto simp: keeps_supply_def in_transaction_def split: prod.splits sum.splits) (metis snd_conv)+
  have "keeps_supply (enqueue_notification env sub req)"
    unfolding enqueue_notification_def publish_job_def on_jobs_def on_outbox_def by (auto intro!: keeps_supply_intros keeps_supply_authorize t)
  with assms show ?thesis by (metis keeps_supply_def snd_conv)
qed

theorem enqueue_atomic_witness:
  "nb_jobs (ns_repo (svc_repo wit_nt_queued)) = [new_job wit_nt_sub wit_enqueue ''id''] \<and> length (ns_outbox (svc_repo wit_nt_queued)) = 1"
  using enqueue_atomic [OF wit_nt_ports wit_nt_run] by (auto simp: wit_nt_start_def)

theorem dispatch_settles_pending_witness:
  "let t = snd (dispatch_pending wit_nt_env wit_nt_sub 0 wit_nt_queued) in
    map nj_status (nb_jobs (ns_repo (svc_repo t))) = [''dispatched''] \<and> map nd_recipient (nb_deliveries (ns_repo (svc_repo t))) = [''m_1'']"
proof -
  let ?run = "dispatch_pending wit_nt_env wit_nt_sub 0 wit_nt_queued"
  have "fst ?run = Inr 1" by code_simp
  then have run: "?run = (Inr 1, snd ?run)" by (simp add: prod_eq_iff)
  have jobs: "nb_jobs (ns_repo (svc_repo wit_nt_queued)) = [new_job wit_nt_sub wit_enqueue ''id'']" "nb_deliveries (ns_repo (svc_repo wit_nt_queued)) = []"
    by code_simp+
  have ids: "inj (\<lambda>n. ig_supply (svc_ids wit_nt_queued) n)"
    using enqueue_supply [OF wit_nt_run] fresh_tally_ids by (simp add: fresh_ids_def wit_nt_start_def)
  have a: "jobs_ok (\<lambda>x. x) (ns_repo (svc_repo wit_nt_queued))" by (simp add: jobs_ok_def jobs)
  have b: "delivery_ids_ok (\<lambda>x. x) (ns_repo (svc_repo wit_nt_queued)) (svc_ids wit_nt_queued)" using ids by (simp add: delivery_ids_ok_def jobs)
  from dispatch_settles_pending [OF wit_nt_ports(1) a b run] show ?thesis
    by (auto simp: Let_def jobs pending_job_def new_job_def wit_nt_sub_def dispatched_def sent_delivery_def length_Suc_conv)
qed

theorem worker_drops_notification_witness:
  "\<exists>it. tick sql_outbox (worker_processor \<lparr>sc_host = [], sc_port = 25, sc_user = [], sc_password = [], sc_from = []\<rparr> (\<lambda>_. []) (\<lambda>_. None) 50)
      (\<lambda>_. 5) (\<lambda>_. 0) (ns_outbox (svc_repo wit_nt_queued), []) = (Inr (), ([it], [])) \<and> oi_status it = Processed"
proof -
  have "ns_outbox (svc_repo wit_nt_start) = []" by (simp add: wit_nt_start_def)
  moreover have "ge_now (nx_guard wit_nt_env) \<le> 5" by (simp add: wit_nt_env_def wit_guard_def)
  ultimately show ?thesis using worker_drops_notification [OF wit_nt_ports _ wit_nt_run, where clock = "\<lambda>_. 5"] by blast
qed

end
